(* ===== verification/Kai_Prelude.thy ===== *)
theory Kai_Prelude
  imports Main "HOL-Library.Word" "HOL-Library.Char_ord" "HOL-Library.List_Lexorder"
begin

text \<open>
  The shared prelude of the kaijutsu development.  It fixes the names of the machine types, the
  collections of rewrite rules that the component theories extend, and the generic facts about
  lists, strings, options and ordered maps that more than one component needs:

  \<^item> Rust's \<open>str\<close> comparison is the lexicographic order of the bytes, the order that
    \<open>HOL-Library.List_Lexorder\<close> gives to \<^typ>\<open>string\<close>;
  \<^item> \<open>usize\<close> and \<open>u64\<close> values are \<^typ>\<open>nat\<close>, \<open>i64\<close> values are \<^typ>\<open>int\<close> with the
    range checks of the \<open>checked_*\<close> operations written out; where arithmetic that is not checked can
    leave the range the development says so (\<open>Counter_Width\<close> for the store's counters);
  \<^item> a \<open>BTreeMap\<close> is an association list whose keys strictly increase, so that iteration is
    the list itself; the interface the components use is the locale \<open>ordered_map\<close>.
\<close>

named_theorems kai_simps \<open>defining equations of the model that proofs unfold by default\<close>
named_theorems key_simps \<open>facts about order keys\<close>
named_theorems inv_intros \<open>operations that preserve a component's invariant\<close>

type_synonym u64 = nat
type_synonym i64 = int
type_synonym usize = nat

section \<open>Machine integers\<close>

definition i64_min :: i64 where
  "i64_min = - (2 ^ 63)"

definition i64_max :: i64 where
  "i64_max = 2 ^ 63 - 1"

definition in_i64 :: "int \<Rightarrow> bool" where
  "in_i64 x \<longleftrightarrow> i64_min \<le> x \<and> x \<le> i64_max"

text \<open>\<open>i64::checked_add\<close> and \<open>i64::checked_mul\<close>: \<^const>\<open>None\<close> on overflow.\<close>

definition checked_add_i64 :: "i64 \<Rightarrow> i64 \<Rightarrow> i64 option" where
  "checked_add_i64 a b = (if in_i64 (a + b) then Some (a + b) else None)"

definition checked_mul_i64 :: "i64 \<Rightarrow> i64 \<Rightarrow> i64 option" where
  "checked_mul_i64 a b = (if in_i64 (a * b) then Some (a * b) else None)"

lemmas i64_defs = i64_min_def i64_max_def in_i64_def

section \<open>Searching a list\<close>

text \<open>\<open>Iterator::position\<close>: the index of the first element that satisfies the predicate.\<close>

fun position :: "('a \<Rightarrow> bool) \<Rightarrow> 'a list \<Rightarrow> nat option" where
  "position p [] = None"
| "position p (x # xs) = (if p x then Some 0 else map_option Suc (position p xs))"

lemma position_SomeD:
  "position p xs = Some i \<Longrightarrow> i < length xs \<and> p (xs ! i)"
  by (induction xs arbitrary: i) (auto split: if_splits)

lemma position_None_iff: "position p xs = None \<longleftrightarrow> (\<forall>x \<in> set xs. \<not> p x)"
  by (induction xs) auto

lemma position_nth:
  assumes "distinct xs" and "i < length xs"
  shows "position (\<lambda>b. b = xs ! i) xs = Some i"
  using assms
proof (induction xs arbitrary: i)
  case Nil
  then show ?case by simp
next
  case (Cons x xs)
  show ?case
  proof (cases i)
    case 0
    then show ?thesis by simp
  next
    case (Suc j)
    with Cons.prems have "x \<noteq> xs ! j" by auto
    moreover from Cons Suc have "position (\<lambda>b. b = xs ! j) xs = Some j" by simp
    ultimately show ?thesis using Suc by simp
  qed
qed

section \<open>The byte order of strings\<close>

lemma list_less_append: "ys \<noteq> [] \<Longrightarrow> xs < xs @ (ys :: 'a::order list)"
  by (induction xs) (auto simp: neq_Nil_conv)

lemma list_less_append_same [simp]: "xs @ ys < xs @ zs \<longleftrightarrow> ys < (zs :: 'a::order list)"
  by (induction xs) auto

lemma list_le_append_same [simp]: "xs @ ys \<le> xs @ zs \<longleftrightarrow> ys \<le> (zs :: 'a::order list)"
  by (induction xs) auto

text \<open>A strict difference inside a common length survives whatever follows.\<close>

lemma list_less_append_len:
  "xs < ys \<Longrightarrow> length xs = length ys \<Longrightarrow> xs @ us < ys @ (vs :: 'a::order list)"
proof (induction xs arbitrary: ys)
  case Nil
  then show ?case by simp
next
  case (Cons x xs)
  then show ?case by (cases ys) auto
qed

lemma list_less_prefix_trans:
  "xs < ys \<Longrightarrow> \<not> (\<exists>zs. ys = xs @ zs) \<Longrightarrow> xs @ us < (ys :: 'a::linorder list)"
proof (induction xs arbitrary: ys)
  case Nil
  then show ?case by simp
next
  case (Cons x xs)
  then show ?case by (cases ys) auto
qed

section \<open>Ordered maps\<close>

text \<open>
  The operations of \<open>std::collections::BTreeMap\<close> that the block store uses, on an association
  list with strictly increasing keys.
\<close>

type_synonym ('k, 'v) btree = "('k \<times> 'v) list"

fun bt_insert :: "'k::linorder \<Rightarrow> 'v \<Rightarrow> ('k, 'v) btree \<Rightarrow> ('k, 'v) btree" where
  "bt_insert k v [] = [(k, v)]"
| "bt_insert k v ((k', v') # m) =
     (if k < k' then (k, v) # (k', v') # m
      else if k = k' then (k, v) # m
      else (k', v') # bt_insert k v m)"

definition bt_get :: "('k, 'v) btree \<Rightarrow> 'k \<Rightarrow> 'v option" where
  "bt_get m k = map_of m k"

definition bt_contains :: "('k, 'v) btree \<Rightarrow> 'k \<Rightarrow> bool" where
  "bt_contains m k \<longleftrightarrow> bt_get m k \<noteq> None"

definition bt_modify :: "'k \<Rightarrow> ('v \<Rightarrow> 'v) \<Rightarrow> ('k, 'v) btree \<Rightarrow> ('k, 'v) btree" where
  "bt_modify k f m = map (\<lambda>(k', v). if k' = k then (k', f v) else (k', v)) m"

definition bt_remove :: "'k \<Rightarrow> ('k, 'v) btree \<Rightarrow> ('k, 'v) btree" where
  "bt_remove k m = filter (\<lambda>(k', _). k' \<noteq> k) m"

definition bt_ok :: "('k::linorder, 'v) btree \<Rightarrow> bool" where
  "bt_ok m \<longleftrightarrow> sorted_wrt (<) (map fst m)"

text \<open>The contract of an ordered map, as the components rely on it.\<close>

lemma alist_rebuild:
  "distinct (map fst xs) \<Longrightarrow> xs = map (\<lambda>k. (k, the (map_of xs k))) (map fst xs)"
  by (rule sym) (auto intro!: map_idI)

locale ordered_map =
  fixes get :: "'m \<Rightarrow> 'k::linorder \<Rightarrow> 'v option"
    and ins :: "'k \<Rightarrow> 'v \<Rightarrow> 'm \<Rightarrow> 'm"
    and modify :: "'k \<Rightarrow> ('v \<Rightarrow> 'v) \<Rightarrow> 'm \<Rightarrow> 'm"
    and entries :: "'m \<Rightarrow> ('k \<times> 'v) list"
    and ok :: "'m \<Rightarrow> bool"
  assumes get_ins: "get (ins k v m) k' = (if k' = k then Some v else get m k')"
    and get_modify: "get (modify k f m) k' = (if k' = k then map_option f (get m k) else get m k')"
    and get_entries: "get m k = map_of (entries m) k"
    and ok_sorted: "ok m \<Longrightarrow> sorted_wrt (<) (map fst (entries m))"
    and ok_ins: "ok m \<Longrightarrow> ok (ins k v m)"
    and ok_modify: "ok m \<Longrightarrow> ok (modify k f m)"
begin

lemma get_in_entries: "ok m \<Longrightarrow> (k, v) \<in> set (entries m) \<longleftrightarrow> get m k = Some v"
  using ok_sorted [of m] by (simp add: get_entries strict_sorted_iff map_of_eq_Some_iff)

lemma get_None_iff: "get m k = None \<longleftrightarrow> k \<notin> fst ` set (entries m)"
  by (simp add: get_entries map_of_eq_None_iff)

lemma entries_distinct: "ok m \<Longrightarrow> distinct (map fst (entries m))"
  using ok_sorted [of m] by (simp add: strict_sorted_iff)

lemma entries_ext:
  assumes "ok m" and "ok m'" and "\<And>k. get m k = get m' k"
  shows "entries m = entries m'"
proof -
  have s: "sorted_wrt (<) (map fst (entries m))" "sorted_wrt (<) (map fst (entries m'))"
    using assms ok_sorted by auto
  have e: "set (entries m) = set (entries m')"
    using get_in_entries [OF assms(1)] get_in_entries [OF assms(2)] assms(3) by auto
  have "map fst (entries m) = map fst (entries m')"
    using s e by (intro sorted_distinct_set_unique) (auto simp: strict_sorted_iff)
  moreover have "map_of (entries m) = map_of (entries m')"
    using assms(3) by (auto simp: get_entries)
  ultimately show ?thesis
    using s alist_rebuild by (metis strict_sorted_iff)
qed

end

lemma bt_get_insert: "bt_get (bt_insert k v m) k' = (if k' = k then Some v else bt_get m k')"
  by (induction k v m rule: bt_insert.induct) (auto simp: bt_get_def)

lemma bt_get_modify:
  "bt_get (bt_modify k f m) k' = (if k' = k then map_option f (bt_get m k) else bt_get m k')"
  by (induction m) (auto simp: bt_get_def bt_modify_def)

lemma fst_bt_modify [simp]: "map fst (bt_modify k f m) = map fst m"
  by (simp add: bt_modify_def case_prod_unfold o_def if_distrib)

lemma keys_bt_insert: "fst ` set (bt_insert k v m) = insert k (fst ` set m)"
  by (induction k v m rule: bt_insert.induct) auto

lemma bt_ok_insert: "bt_ok m \<Longrightarrow> bt_ok (bt_insert k v m)"
proof (induction k v m rule: bt_insert.induct)
  case (1 k v)
  then show ?case by (simp add: bt_ok_def)
next
  case (2 k v k' v' m)
  have "\<forall>x \<in> fst ` set (bt_insert k v m). k' < x" if "k' < k"
    using 2 that by (auto simp: bt_ok_def keys_bt_insert)
  with 2 show ?case by (force simp: bt_ok_def)
qed

lemma bt_get_remove: "bt_get (bt_remove k m) k' = (if k' = k then None else bt_get m k')"
  by (induction m) (auto simp: bt_get_def bt_remove_def)

lemma bt_ok_remove: "bt_ok m \<Longrightarrow> bt_ok (bt_remove k m)"
  unfolding bt_ok_def bt_remove_def by (simp add: sorted_wrt_map sorted_wrt_filter)

lemma bt_ok_modify: "bt_ok m \<Longrightarrow> bt_ok (bt_modify k f m)"
  by (simp add: bt_ok_def)

interpretation bt: ordered_map bt_get bt_insert bt_modify "\<lambda>m. m" bt_ok
  by unfold_locales
    (fact bt_get_insert bt_get_modify bt_get_def bt_ok_insert bt_ok_modify | simp add: bt_ok_def)+

section \<open>Runs of a system with an invariant\<close>

locale invariant_system =
  fixes step :: "'s \<Rightarrow> 's \<Rightarrow> bool"
    and inv :: "'s \<Rightarrow> bool"
  assumes step_inv: "inv s \<Longrightarrow> step s t \<Longrightarrow> inv t"
begin

lemma run_inv: "step\<^sup>*\<^sup>* s t \<Longrightarrow> inv s \<Longrightarrow> inv t"
  by (induction rule: rtranclp_induct) (auto intro: step_inv)

end

locale monotone_system = invariant_system +
  fixes le :: "'a \<Rightarrow> 'a \<Rightarrow> bool"
  assumes le_refl: "le s s"
    and le_trans: "le s t \<Longrightarrow> le t u \<Longrightarrow> le s u"
    and step_le: "inv s \<Longrightarrow> step s t \<Longrightarrow> le s t"
begin

lemma run_invariant:
  assumes "step\<^sup>*\<^sup>* s t" and "inv s"
  shows "inv t \<and> le s t"
  using assms
proof (induction rule: rtranclp_induct)
  case base
  then show ?case by (simp add: le_refl)
next
  case (step t u)
  then show ?case using step_inv step_le le_trans by blast
qed

end

end
