(* ===== verification/Rust_Text.thy ===== *)
theory Rust_Text
  imports Kai_Prelude
begin

text \<open>
  The parts of Rust's string library that the modelled code calls: prefixes, splitting at a
  delimiter, decimal printing and \<open>str::parse\<close> of unsigned integers, ASCII case and
  \<open>str::lines\<close>.  A string is the list of its UTF-8 bytes, as Rust stores it: \<open>len\<close> is the
  length of the list, the code's delimiters and letters are single bytes, and the operations that
  count or cut Unicode scalar values step over continuation bytes.
\<close>

definition starts_with :: "string \<Rightarrow> string \<Rightarrow> bool" where
  "starts_with s p \<longleftrightarrow> take (length p) s = p"

definition strip_prefix :: "string \<Rightarrow> string \<Rightarrow> string option" where
  "strip_prefix s p = (if starts_with s p then Some (drop (length p) s) else None)"

text \<open>\<open>str::split_once\<close>: the parts before and after the first delimiter.\<close>

fun split_once :: "char \<Rightarrow> string \<Rightarrow> (string \<times> string) option" where
  "split_once c [] = None"
| "split_once c (x # s) =
     (if x = c then Some ([], s)
      else map_option (\<lambda>(l, r). (x # l, r)) (split_once c s))"

text \<open>\<open>str::splitn\<close>: at most \<open>n\<close> parts, the last one unsplit.\<close>

fun splitn :: "nat \<Rightarrow> char \<Rightarrow> string \<Rightarrow> string list" where
  "splitn 0 c s = []"
| "splitn (Suc 0) c s = [s]"
| "splitn (Suc (Suc n)) c s =
     (case split_once c s of None \<Rightarrow> [s] | Some (l, r) \<Rightarrow> l # splitn (Suc n) c r)"

definition digit_val :: "char \<Rightarrow> nat option" where
  "digit_val c = position (\<lambda>d. d = c) ''0123456789''"

fun parse_digits :: "nat \<Rightarrow> nat \<Rightarrow> string \<Rightarrow> nat option" where
  "parse_digits lim n [] = Some n"
| "parse_digits lim n (c # s) =
     (case digit_val c of
        None \<Rightarrow> None
      | Some d \<Rightarrow> (if n * 10 + d \<le> lim then parse_digits lim (n * 10 + d) s else None))"

text \<open>
  \<open>str::parse\<close> for an unsigned type whose largest value is \<open>lim\<close>: an optional \<open>+\<close>, then at
  least one digit, and no overflow.
\<close>

definition parse_unsigned :: "nat \<Rightarrow> string \<Rightarrow> nat option" where
  "parse_unsigned lim s =
     (let s' = (case s of CHR ''+'' # t \<Rightarrow> t | _ \<Rightarrow> s)
      in if s' = [] then None else parse_digits lim 0 s')"

definition u64_max :: nat where
  "u64_max = 2 ^ 64 - 1"

definition parse_u64 :: "string \<Rightarrow> u64 option" where
  "parse_u64 = parse_unsigned u64_max"

text \<open>\<open>Display\<close> of an unsigned integer: its decimal digits.\<close>

fun show_nat :: "nat \<Rightarrow> string" where
  "show_nat n = (if n < 10 then [''0123456789'' ! n]
                 else show_nat (n div 10) @ [''0123456789'' ! (n mod 10)])"

declare show_nat.simps [simp del]

definition ascii_upper :: "char \<Rightarrow> bool" where
  "ascii_upper c \<longleftrightarrow> 65 \<le> (of_char c :: nat) \<and> (of_char c :: nat) \<le> 90"

definition ascii_lower :: "char \<Rightarrow> bool" where
  "ascii_lower c \<longleftrightarrow> 97 \<le> (of_char c :: nat) \<and> (of_char c :: nat) \<le> 122"

definition ascii_digit :: "char \<Rightarrow> bool" where
  "ascii_digit c \<longleftrightarrow> 48 \<le> (of_char c :: nat) \<and> (of_char c :: nat) \<le> 57"

definition to_ascii_lowercase :: "char \<Rightarrow> char" where
  "to_ascii_lowercase c = (if ascii_upper c then char_of (of_char c + 32 :: nat) else c)"

definition eq_ignore_ascii_case :: "string \<Rightarrow> string \<Rightarrow> bool" where
  "eq_ignore_ascii_case s t \<longleftrightarrow> map to_ascii_lowercase s = map to_ascii_lowercase t"

text \<open>The first item of \<open>str::lines\<close>, or the empty string.\<close>

definition first_line :: "string \<Rightarrow> string" where
  "first_line s =
     (case split_once (CHR 0x0A) s of
        None \<Rightarrow> s
      | Some (l, _) \<Rightarrow> if l \<noteq> [] \<and> last l = CHR 0x0D then butlast l else l)"

text \<open>\<open>chars().count()\<close> and \<open>chars().take(n)\<close>: a scalar value starts at a byte that is not a continuation byte.\<close>

definition is_continuation :: "char \<Rightarrow> bool" where
  "is_continuation c \<longleftrightarrow> 128 \<le> (of_char c :: nat) \<and> (of_char c :: nat) < 192"

definition char_count :: "string \<Rightarrow> nat" where
  "char_count s = length (filter (\<lambda>c. \<not> is_continuation c) s)"

fun take_chars :: "nat \<Rightarrow> string \<Rightarrow> string" where
  "take_chars n [] = []"
| "take_chars n (c # s) =
     (if is_continuation c then c # take_chars n s
      else case n of 0 \<Rightarrow> [] | Suc m \<Rightarrow> c # take_chars m s)"

text \<open>The first scalar value of a nonempty string.\<close>

fun first_char :: "string \<Rightarrow> string" where
  "first_char [] = []"
| "first_char (c # s) = c # takeWhile is_continuation s"

text \<open>\<open>[String]::join\<close>.\<close>

fun join :: "string \<Rightarrow> string list \<Rightarrow> string" where
  "join sep [] = []"
| "join sep [s] = s"
| "join sep (s # t # ss) = s @ sep @ join sep (t # ss)"

section \<open>Facts\<close>

lemma char_count_append [simp]: "char_count (s @ t) = char_count s + char_count t"
  by (simp add: char_count_def)

lemma char_count_take_chars: "char_count (take_chars n s) = min n (char_count s)"
  by (induction n s rule: take_chars.induct) (auto simp: char_count_def split: nat.split)

lemma char_count_le: "char_count s \<le> length s"
  by (simp add: char_count_def)

lemma starts_with_append [simp]: "starts_with (p @ s) p"
  by (simp add: starts_with_def)

lemma starts_with_iff: "starts_with s p \<longleftrightarrow> (\<exists>t. s = p @ t)"
  by (metis append_take_drop_id starts_with_append starts_with_def)

lemma split_once_append: "c \<notin> set l \<Longrightarrow> split_once c (l @ c # r) = Some (l, r)"
  by (induction l) auto

lemma split_once_None: "split_once c s = None \<longleftrightarrow> c \<notin> set s"
  by (induction s) auto

lemma digit_val_nth: "d < 10 \<Longrightarrow> digit_val (''0123456789'' ! d) = Some d"
  unfolding digit_val_def by (rule position_nth) auto

lemma parse_digits_append:
  "parse_digits lim n (s @ t) = Option.bind (parse_digits lim n s) (\<lambda>m. parse_digits lim m t)"
  by (induction s arbitrary: n) (auto split: option.splits)

lemma parse_digits_show: "n \<le> lim \<Longrightarrow> parse_digits lim 0 (show_nat n) = Some n"
proof (induction n rule: show_nat.induct)
  case (1 n)
  show ?case
  proof (cases "n < 10")
    case True
    with 1 show ?thesis by (simp add: show_nat.simps [of n] digit_val_nth)
  next
    case False
    then have "parse_digits lim 0 (show_nat (n div 10)) = Some (n div 10)"
      using 1 by (simp add: div_le_dividend order_trans)
    moreover have "n div 10 * 10 + n mod 10 = n" by (rule div_mult_mod_eq)
    ultimately show ?thesis
      using False 1 by (simp add: show_nat.simps [of n] parse_digits_append digit_val_nth)
  qed
qed

lemma show_nat_digits: "set (show_nat n) \<subseteq> set ''0123456789''"
proof (induction n rule: show_nat.induct)
  case (1 n)
  have "''0123456789'' ! (n mod 10) \<in> set ''0123456789''" by (rule nth_mem) simp
  with 1 show ?case by (auto simp: show_nat.simps [of n])
qed

lemma show_nat_not_Nil: "show_nat n \<noteq> []"
  by (subst show_nat.simps) simp

lemma parse_u64_show:
  assumes "n \<le> u64_max"
  shows "parse_u64 (show_nat n) = Some n"
proof -
  obtain c s where cs: "show_nat n = c # s" using show_nat_not_Nil by (cases "show_nat n") auto
  then have "c \<noteq> CHR ''+''" using show_nat_digits [of n] by auto
  then have "(case show_nat n of CHR ''+'' # t \<Rightarrow> t | _ \<Rightarrow> show_nat n) = show_nat n"
    using cs by (auto split: char.splits bool.splits)
  then show ?thesis
    using assms by (simp add: parse_u64_def parse_unsigned_def show_nat_not_Nil parse_digits_show)
qed

lemma parse_digits_le: "parse_digits lim n s = Some m \<Longrightarrow> n \<le> lim \<Longrightarrow> m \<le> lim"
  by (induction s arbitrary: n) (auto split: option.splits if_splits)

end
