(* ===== verification/Ids.thy ===== *)
theory Ids
  imports Rust_Text
begin

text \<open>
  Typed identifiers, \<open>crates/kaijutsu-types/src/ids.rs\<close>, and \<open>BlockId\<close> of \<open>block.rs\<close>.

  The six identifier types are newtypes over \<open>uuid::Uuid\<close> with one macro-generated
  implementation; here they are synonyms of the 128-bit value.  Its derived order is the order of
  the value, and \<open>as_bytes\<close> reads it most significant byte first.  The text forms belong to the
  \<open>uuid\<close> crate and are parameters: a record \<open>uuid_lib\<close> of the printer \<open>as_simple\<close> and the
  parser \<open>parse_str\<close>; what the code relies on is the predicate \<open>uuid_ok\<close>.

  Shown here: keys of block identifiers round-trip, and prefix resolution never picks a silent
  winner.
\<close>

section \<open>Identifiers\<close>

definition HEX :: string where
  "HEX = ''0123456789abcdef''"

type_synonym uuid = "128 word"
type_synonym PrincipalId = uuid
type_synonym KernelId = uuid
type_synonym ContextId = uuid
type_synonym SessionId = uuid

record uuid_lib =
  as_simple :: "uuid \<Rightarrow> string"
  parse_str :: "string \<Rightarrow> uuid option"

text \<open>
  The documented behaviour of the \<open>uuid\<close> crate: the simple form is 32 lowercase hexadecimal
  digits and parses back to the same value.
\<close>

definition uuid_ok :: "uuid_lib \<Rightarrow> bool" where
  "uuid_ok U \<longleftrightarrow>
     (\<forall>u. parse_str U (as_simple U u) = Some u
        \<and> length (as_simple U u) = 32
        \<and> set (as_simple U u) \<subseteq> set HEX)"

definition as_bytes :: "uuid \<Rightarrow> nat list" where
  "as_bytes u = map (\<lambda>i. unat (take_bit 8 (drop_bit (8 * (15 - i)) u))) [0..<16]"

definition to_hex :: "uuid_lib \<Rightarrow> uuid \<Rightarrow> string" where
  "to_hex U u = as_simple U u"

definition short :: "uuid_lib \<Rightarrow> uuid \<Rightarrow> string" where
  "short U u = (let hex = as_simple U u in drop (length hex - 8) hex)"

definition display_or :: "uuid_lib \<Rightarrow> uuid \<Rightarrow> string option \<Rightarrow> string" where
  "display_or U u label =
     (case label of
        Some l \<Rightarrow> if l \<noteq> [] then l else short U u
      | None \<Rightarrow> short U u)"

definition matches_short :: "uuid_lib \<Rightarrow> uuid \<Rightarrow> string \<Rightarrow> bool" where
  "matches_short U u query =
     (case parse_str U query of
        Some full \<Rightarrow> u = full
      | None \<Rightarrow> starts_with (short U u) query)"

definition is_nil :: "uuid \<Rightarrow> bool" where
  "is_nil u \<longleftrightarrow> u = 0"

section \<open>Prefix resolution\<close>

datatype PrefixError = NoMatch string | Ambiguous string "string list"

definition exact_labels :: "(uuid \<times> string option) list \<Rightarrow> string \<Rightarrow> (uuid \<times> string) list" where
  "exact_labels entries query =
     List.map_filter (\<lambda>(i, label).
       case label of Some l \<Rightarrow> if l = query then Some (i, l) else None | None \<Rightarrow> None) entries"

definition prefix_labels :: "(uuid \<times> string option) list \<Rightarrow> string \<Rightarrow> (uuid \<times> string) list" where
  "prefix_labels entries query =
     List.map_filter (\<lambda>(i, label).
       case label of Some l \<Rightarrow> if starts_with l query then Some (i, l) else None | None \<Rightarrow> None) entries"

definition hex_matches :: "uuid_lib \<Rightarrow> (uuid \<times> string option) list \<Rightarrow> string \<Rightarrow> uuid list" where
  "hex_matches U entries query = map fst (filter (\<lambda>(i, _). matches_short U i query) entries)"

definition resolve_prefix ::
  "uuid_lib \<Rightarrow> (uuid \<times> string option) list \<Rightarrow> string \<Rightarrow> PrefixError + uuid" where
  "resolve_prefix U entries query =
     (case exact_labels entries query of
        [(i, _)] \<Rightarrow> Inr i
      | x # y # xs \<Rightarrow> Inl (Ambiguous query (map snd (x # y # xs)))
      | [] \<Rightarrow>
          (case prefix_labels entries query of
             [(i, _)] \<Rightarrow> Inr i
           | x # y # xs \<Rightarrow> Inl (Ambiguous query (map snd (x # y # xs)))
           | [] \<Rightarrow>
               (case hex_matches U entries query of
                  [] \<Rightarrow> Inl (NoMatch query)
                | [i] \<Rightarrow> Inr i
                | is \<Rightarrow> Inl (Ambiguous query (map (short U) is)))))"

section \<open>Block identifiers\<close>

datatype BlockId = BlockId (context_id: ContextId) (principal_id: PrincipalId) (seq: u64)

text \<open>The derived order: context, then principal, then sequence number.\<close>

instantiation BlockId :: linorder
begin

definition less_eq_BlockId :: "BlockId \<Rightarrow> BlockId \<Rightarrow> bool" where
  "less_eq_BlockId a b \<longleftrightarrow>
     context_id a < context_id b \<or> context_id a = context_id b \<and>
      (principal_id a < principal_id b \<or> principal_id a = principal_id b \<and> seq a \<le> seq b)"

definition less_BlockId :: "BlockId \<Rightarrow> BlockId \<Rightarrow> bool" where
  "less_BlockId a b \<longleftrightarrow>
     context_id a < context_id b \<or> context_id a = context_id b \<and>
      (principal_id a < principal_id b \<or> principal_id a = principal_id b \<and> seq a < seq b)"

instance
proof
  fix a b c :: BlockId
  show "a < b \<longleftrightarrow> a \<le> b \<and> \<not> b \<le> a" by (auto simp: less_eq_BlockId_def less_BlockId_def)
  show "a \<le> a" by (simp add: less_eq_BlockId_def)
  show "a \<le> b \<Longrightarrow> b \<le> c \<Longrightarrow> a \<le> c" by (auto simp: less_eq_BlockId_def)
  show "a \<le> b \<Longrightarrow> b \<le> a \<Longrightarrow> a = b" by (auto simp: less_eq_BlockId_def intro: BlockId.expand)
  show "a \<le> b \<or> b \<le> a" by (auto simp: less_eq_BlockId_def)
qed

end

definition to_key :: "uuid_lib \<Rightarrow> BlockId \<Rightarrow> string" where
  "to_key U b = to_hex U (context_id b) @ ''_'' @ to_hex U (principal_id b) @ ''_'' @ show_nat (seq b)"

definition from_key :: "uuid_lib \<Rightarrow> string \<Rightarrow> BlockId option" where
  "from_key U key =
     (let delimiter = (if CHR ''_'' \<in> set key then CHR ''_'' else CHR '':'') in
      case splitn 3 delimiter key of
        [c, p, n] \<Rightarrow>
          (case parse_str U c of
             None \<Rightarrow> None
           | Some ctx \<Rightarrow>
               (case parse_str U p of
                  None \<Rightarrow> None
                | Some pr \<Rightarrow> map_option (BlockId ctx pr) (parse_u64 n)))
      | _ \<Rightarrow> None)"

definition MAX_DAG_DEPTH :: nat where
  "MAX_DAG_DEPTH = 512"

section \<open>Facts\<close>

lemma uuid_okD:
  assumes "uuid_ok U"
  shows "parse_str U (as_simple U u) = Some u" and "length (as_simple U u) = 32"
    and "set (as_simple U u) \<subseteq> set HEX"
  using assms by (auto simp: uuid_ok_def)

lemma splitn_3:
  "c \<notin> set l \<Longrightarrow> c \<notin> set m \<Longrightarrow> splitn 3 c (l @ c # m @ c # r) = [l, m, r]"
  by (simp add: numeral_3_eq_3 split_once_append)

lemma exact_labels_iff:
  "(i, l) \<in> set (exact_labels es q) \<longleftrightarrow> (i, Some l) \<in> set es \<and> l = q"
  by (force simp: exact_labels_def List.map_filter_def split: option.splits if_splits)

lemma prefix_labels_iff:
  "(i, l) \<in> set (prefix_labels es q) \<longleftrightarrow> (i, Some l) \<in> set es \<and> starts_with l q"
  by (force simp: prefix_labels_def List.map_filter_def split: option.splits if_splits)

lemma hex_matches_iff:
  "i \<in> set (hex_matches U es q) \<longleftrightarrow> (\<exists>l. (i, l) \<in> set es) \<and> matches_short U i q"
  by (force simp: hex_matches_def)

lemma distinct_fst_filter:
  "(i, l) \<in> set es \<Longrightarrow> distinct (map fst es) \<Longrightarrow> map fst (filter (\<lambda>e. fst e = i) es) = [i]"
proof (induction es)
  case (Cons e es)
  show ?case
  proof (cases "fst e = i")
    case True
    with Cons.prems(2) have "filter (\<lambda>e. fst e = i) es = []"
      by (simp add: filter_empty_conv) (metis image_eqI)
    with True show ?thesis by simp
  next
    case False
    with Cons show ?thesis by auto
  qed
qed simp

text \<open>A reference rendering of the simple form, to show that \<^const>\<open>uuid_ok\<close> can hold.\<close>

fun hex_digits :: "nat \<Rightarrow> uuid \<Rightarrow> string" where
  "hex_digits 0 u = []"
| "hex_digits (Suc n) u = hex_digits n (u div 16) @ [HEX ! unat (u mod 16)]"

fun hex_value :: "uuid \<Rightarrow> string \<Rightarrow> uuid" where
  "hex_value v [] = v"
| "hex_value v (c # s) =
     hex_value (v * 16 + of_nat (case position (\<lambda>d. d = c) HEX of Some i \<Rightarrow> i | None \<Rightarrow> 0)) s"

definition reference_uuid_lib :: uuid_lib where
  "reference_uuid_lib =
     \<lparr>as_simple = hex_digits 32,
      parse_str = (\<lambda>s. if length s = 32 \<and> set s \<subseteq> set HEX then Some (hex_value 0 s) else None)\<rparr>"

lemma length_HEX [simp]: "length HEX = 16"
  by (simp add: HEX_def)

lemma distinct_HEX: "distinct HEX"
  by (simp add: HEX_def)

lemma length_hex_digits [simp]: "length (hex_digits n u) = n"
  by (induction n arbitrary: u) auto

lemma unat_mod_16: "unat (u mod 16 :: uuid) < 16"
  by (simp add: unat_mod)

lemma hex_digits_charset: "set (hex_digits n u) \<subseteq> set HEX"
proof (induction n arbitrary: u)
  case (Suc n)
  have "HEX ! unat (u mod 16) \<in> set HEX"
    by (rule nth_mem) (simp add: unat_mod_16)
  with Suc show ?case by simp
qed simp

lemma hex_value_append: "hex_value v (s @ t) = hex_value (hex_value v s) t"
  by (induction s arbitrary: v) auto

lemma position_hex: "d < 16 \<Longrightarrow> position (\<lambda>c. c = HEX ! d) HEX = Some d"
  by (rule position_nth) (auto simp: distinct_HEX)

lemma hex_value_digits: "unat u < 16 ^ n \<Longrightarrow> hex_value 0 (hex_digits n u) = u"
proof (induction n arbitrary: u)
  case 0
  then show ?case by (simp add: unat_eq_0)
next
  case (Suc n)
  have "unat (u div 16) < 16 ^ n" using Suc.prems by (simp add: unat_div less_mult_imp_div_less mult.commute)
  then have IH: "hex_value 0 (hex_digits n (u div 16)) = u div 16" by (rule Suc.IH)
  have "u div 16 * 16 + u mod 16 = u" by (rule word_mod_div_equality)
  with IH show ?case by (simp add: hex_value_append position_hex unat_mod_16)
qed

lemma reference_uuid_ok: "uuid_ok reference_uuid_lib"
proof -
  have "unat u < 16 ^ 32" for u :: uuid
    using unsigned_less [of u] by simp
  then show ?thesis
    by (simp add: uuid_ok_def reference_uuid_lib_def hex_digits_charset hex_value_digits)
qed

section \<open>Properties\<close>

text \<open>
  A block identifier is recovered from its key, for every identifier whose sequence number
  is a \<open>u64\<close>.
\<close>

theorem block_key_roundtrip:
  assumes "uuid_ok U" and "seq b \<le> u64_max"
  shows "from_key U (to_key U b) = Some b"
proof -
  let ?c = "as_simple U (context_id b)" and ?p = "as_simple U (principal_id b)"
  have "CHR ''_'' \<notin> set ?c" "CHR ''_'' \<notin> set ?p"
    using uuid_okD(3) [OF assms(1)] by (auto simp: HEX_def)
  then have "splitn 3 (CHR ''_'') (?c @ CHR ''_'' # ?p @ CHR ''_'' # show_nat (seq b)) = [?c, ?p, show_nat (seq b)]"
    by (rule splitn_3)
  then show ?thesis
    using assms by (simp add: from_key_def to_key_def to_hex_def uuid_okD parse_u64_show)
qed

theorem block_key_roundtrip_witness:
  "from_key reference_uuid_lib (to_key reference_uuid_lib (BlockId 7 9 41)) = Some (BlockId 7 9 41)"
  by (rule block_key_roundtrip [OF reference_uuid_ok]) (simp add: u64_max_def)

text \<open>
  Prefix resolution never picks a silent winner.  A resolved identifier is one of the
  entries; it was selected by an exact label, else by a label prefix, else by its short form;
  and no entry with another identifier matches at that level.
\<close>

theorem resolve_prefix_sound:
  assumes "resolve_prefix U es q = Inr i"
  shows "\<exists>l. (i, l) \<in> set es
    \<and> ((l = Some q \<and> (\<forall>j. (j, Some q) \<in> set es \<longrightarrow> j = i))
       \<or> ((\<forall>j. (j, Some q) \<notin> set es) \<and> (\<exists>s. l = Some s \<and> starts_with s q)
          \<and> (\<forall>j s. (j, Some s) \<in> set es \<and> starts_with s q \<longrightarrow> j = i))
       \<or> ((\<forall>j s. (j, Some s) \<in> set es \<longrightarrow> \<not> starts_with s q) \<and> matches_short U i q
          \<and> (\<forall>j l. (j, l) \<in> set es \<and> matches_short U j q \<longrightarrow> j = i)))"
proof -
  consider (exact) l where "exact_labels es q = [(i, l)]"
    | (pre) l where "exact_labels es q = []" "prefix_labels es q = [(i, l)]"
    | (hex) "prefix_labels es q = []" "hex_matches U es q = [i]"
    using assms by (auto simp: resolve_prefix_def split: list.splits)
  then show ?thesis
  proof cases
    case exact
    then have *: "(j, Some m) \<in> set es \<and> m = q \<longleftrightarrow> j = i \<and> m = l" for j m
      by (simp flip: exact_labels_iff)
    from * [of i l] * [of _ q] show ?thesis by (intro exI [of _ "Some l"]) auto
  next
    case pre
    then have 1: "\<not> ((j, Some m) \<in> set es \<and> m = q)" for j m
      by (simp flip: exact_labels_iff)
    from pre have 2: "(j, Some m) \<in> set es \<and> starts_with m q \<longleftrightarrow> j = i \<and> m = l" for j m
      by (simp flip: prefix_labels_iff)
    from 2 [of i l] have "(i, Some l) \<in> set es" "starts_with l q" by simp_all
    moreover from 1 have "\<forall>j. (j, Some q) \<notin> set es" by blast
    ultimately show ?thesis using 2 by (intro exI [of _ "Some l"]) simp
  next
    case hex
    then have 1: "\<not> ((j, Some m) \<in> set es \<and> starts_with m q)" for j m
      by (simp flip: prefix_labels_iff)
    from hex have 2: "(\<exists>l. (j, l) \<in> set es) \<and> matches_short U j q \<longleftrightarrow> j = i" for j
      by (simp flip: hex_matches_iff)
    from 2 [of i] obtain l where "(i, l) \<in> set es" by blast
    with 1 2 show ?thesis by (intro exI [of _ l]) blast
  qed
qed

theorem resolve_prefix_sound_witness:
  "\<exists>l. (5, l) \<in> set [(5, Some ''main''), (6, Some ''mail'')] \<and> l = Some ''main''"
proof -
  have "resolve_prefix reference_uuid_lib [(5, Some ''main''), (6, Some ''mail'')] ''main'' = Inr 5"
    by (simp add: resolve_prefix_def exact_labels_def List.map_filter_def)
  from resolve_prefix_sound [OF this] show ?thesis by auto
qed

text \<open>
  A full identifier always resolves to itself, whatever the other identifiers are, provided
  identifiers are unique and no label starts with the typed text.
\<close>

theorem resolve_full_id:
  assumes "uuid_ok U" and "(i, l) \<in> set es" and "distinct (map fst es)"
    and "\<forall>j s. (j, Some s) \<in> set es \<longrightarrow> \<not> starts_with s (to_hex U i)"
  shows "resolve_prefix U es (to_hex U i) = Inr i"
proof -
  let ?q = "to_hex U i"
  have pre: "prefix_labels es ?q = []"
    using assms(4) by (metis list.set_intros(1) list.exhaust prefix_labels_iff surj_pair)
  have "starts_with ?q ?q" by (simp add: starts_with_def)
  then have ex: "exact_labels es ?q = []"
    using assms(4) by (metis list.set_intros(1) list.exhaust exact_labels_iff surj_pair)
  have "matches_short U j ?q \<longleftrightarrow> j = i" for j
    using assms(1) by (simp add: matches_short_def to_hex_def uuid_okD)
  then have "hex_matches U es ?q = map fst (filter (\<lambda>e. fst e = i) es)"
    by (simp add: hex_matches_def case_prod_unfold)
  also have "\<dots> = [i]"
    using assms(2,3) by (rule distinct_fst_filter)
  finally show ?thesis using pre ex by (simp add: resolve_prefix_def)
qed

theorem resolve_full_id_witness:
  "resolve_prefix reference_uuid_lib [(5, Some ''main''), (6, None)] (to_hex reference_uuid_lib 6) = Inr 6"
proof (rule resolve_full_id [OF reference_uuid_ok, where l = None])
  have "length (to_hex reference_uuid_lib 6) = 32"
    by (simp add: to_hex_def reference_uuid_lib_def)
  then show "\<forall>j s. (j, Some s) \<in> set [(5, Some ''main''), (6, None)] \<longrightarrow> \<not> starts_with s (to_hex reference_uuid_lib 6)"
    by (auto simp: starts_with_def dest!: arg_cong [where f = length])
qed auto

end
