(* ===== verification/Enums.thy ===== *)
theory Enums
  imports Rust_Text
begin

text \<open>
  The enumerations of \<open>crates/kaijutsu-types/src/block.rs\<close> and \<open>enums.rs\<close>: one \<open>datatype\<close> per
  enum with the source's constructors, \<open>as_str\<close>, and the case-insensitive parser.

  The parser is generated by the derive macro \<open>strum::EnumString\<close>; what the source gives it is
  the list of accepted spellings per variant, in order (the \<open>serialize\<close> attributes, or the name of
  the variant where there is none).  Those lists are the \<open>_names\<close> constants; the generated match
  itself is the parameter \<open>strum\<close>, from a table and a text to the index of a variant, and
  \<open>strum_ok\<close> is its documented behaviour.

  The enums that take part in last-writer-wins ties derive \<open>Ord\<close>; they are instances of
  \<open>linorder\<close> by their discriminants.

  Shown here: the printed form of every variant is accepted by the parser and gives the variant
  back, and the aliases are the documented ones.
\<close>

type_synonym strum = "string list list \<Rightarrow> string \<Rightarrow> nat option"

definition strum_ok :: "strum \<Rightarrow> bool" where
  "strum_ok S \<longleftrightarrow>
     (\<forall>tbl s. S tbl s = position (list_ex (eq_ignore_ascii_case s)) tbl)"

definition variant_from :: "strum \<Rightarrow> string list list \<Rightarrow> 'a list \<Rightarrow> string \<Rightarrow> 'a option" where
  "variant_from S tbl vs s = map_option (nth vs) (S tbl s)"

datatype Role = User | Model | System | Tool | Asset

definition Role_as_str :: "Role \<Rightarrow> string" where
  "Role_as_str x =
     (case x of
        Role.User \<Rightarrow> ''user''
      | Role.Model \<Rightarrow> ''model''
      | Role.System \<Rightarrow> ''system''
      | Role.Tool \<Rightarrow> ''tool''
      | Role.Asset \<Rightarrow> ''asset'')"

definition Role_names :: "string list list" where
  "Role_names =
     [[''user'', ''human''],
      [''model'', ''assistant'', ''agent''],
      [''System''],
      [''Tool''],
      [''asset'']]"

definition Role_from_str :: "strum \<Rightarrow> string \<Rightarrow> Role option" where
  "Role_from_str S =
     variant_from S Role_names
       [Role.User, Role.Model, Role.System, Role.Tool, Role.Asset]"

datatype ContentType = Plain | Markdown | Svg | Abc | Image

definition ContentType_rank :: "ContentType \<Rightarrow> nat" where
  "ContentType_rank x = (case x of ContentType.Plain \<Rightarrow> 0 | ContentType.Markdown \<Rightarrow> 1 | ContentType.Svg \<Rightarrow> 2 | ContentType.Abc \<Rightarrow> 3 | ContentType.Image \<Rightarrow> 4)"

lemma ContentType_rank_inj: "ContentType_rank x = ContentType_rank y \<Longrightarrow> x = y"
  by (cases x; cases y) (simp_all add: ContentType_rank_def)

instantiation ContentType :: linorder
begin

definition less_eq_ContentType :: "ContentType \<Rightarrow> ContentType \<Rightarrow> bool" where
  "less_eq_ContentType x y \<longleftrightarrow> ContentType_rank x \<le> ContentType_rank y"

definition less_ContentType :: "ContentType \<Rightarrow> ContentType \<Rightarrow> bool" where
  "less_ContentType x y \<longleftrightarrow> ContentType_rank x < ContentType_rank y"

instance
  by standard (auto simp: less_eq_ContentType_def less_ContentType_def intro: ContentType_rank_inj)

end

definition from_mime :: "string \<Rightarrow> ContentType" where
  "from_mime mime =
     (if mime = ''text/markdown'' then Markdown
      else if mime = ''image/svg+xml'' then Svg
      else if mime = ''text/vnd.abc'' then Abc
      else if mime \<in> {''image/png'', ''image/jpeg'', ''image/webp'', ''image/gif'', ''image/avif''} then Image
      else Plain)"

definition as_mime :: "ContentType \<Rightarrow> string" where
  "as_mime ct =
     (case ct of
        Plain \<Rightarrow> ''text/plain''
      | Markdown \<Rightarrow> ''text/markdown''
      | Svg \<Rightarrow> ''image/svg+xml''
      | Abc \<Rightarrow> ''text/vnd.abc''
      | Image \<Rightarrow> ''image/png'')"

datatype ErrorCategory = Tool | Stream | Rpc | Render | Parse | Validation | Kernel

definition ErrorCategory_as_str :: "ErrorCategory \<Rightarrow> string" where
  "ErrorCategory_as_str x =
     (case x of
        ErrorCategory.Tool \<Rightarrow> ''tool''
      | ErrorCategory.Stream \<Rightarrow> ''stream''
      | ErrorCategory.Rpc \<Rightarrow> ''rpc''
      | ErrorCategory.Render \<Rightarrow> ''render''
      | ErrorCategory.Parse \<Rightarrow> ''parse''
      | ErrorCategory.Validation \<Rightarrow> ''validation''
      | ErrorCategory.Kernel \<Rightarrow> ''kernel'')"

datatype ErrorSeverity = Warning | Error | Fatal

definition ErrorSeverity_rank :: "ErrorSeverity \<Rightarrow> nat" where
  "ErrorSeverity_rank x = (case x of ErrorSeverity.Warning \<Rightarrow> 0 | ErrorSeverity.Error \<Rightarrow> 1 | ErrorSeverity.Fatal \<Rightarrow> 2)"

lemma ErrorSeverity_rank_inj: "ErrorSeverity_rank x = ErrorSeverity_rank y \<Longrightarrow> x = y"
  by (cases x; cases y) (simp_all add: ErrorSeverity_rank_def)

instantiation ErrorSeverity :: linorder
begin

definition less_eq_ErrorSeverity :: "ErrorSeverity \<Rightarrow> ErrorSeverity \<Rightarrow> bool" where
  "less_eq_ErrorSeverity x y \<longleftrightarrow> ErrorSeverity_rank x \<le> ErrorSeverity_rank y"

definition less_ErrorSeverity :: "ErrorSeverity \<Rightarrow> ErrorSeverity \<Rightarrow> bool" where
  "less_ErrorSeverity x y \<longleftrightarrow> ErrorSeverity_rank x < ErrorSeverity_rank y"

instance
  by standard (auto simp: less_eq_ErrorSeverity_def less_ErrorSeverity_def intro: ErrorSeverity_rank_inj)

end

definition ErrorSeverity_as_str :: "ErrorSeverity \<Rightarrow> string" where
  "ErrorSeverity_as_str x =
     (case x of
        ErrorSeverity.Warning \<Rightarrow> ''warning''
      | ErrorSeverity.Error \<Rightarrow> ''error''
      | ErrorSeverity.Fatal \<Rightarrow> ''fatal'')"

datatype LogLevel = Trace | Debug | Info | Warn | Error

definition LogLevel_rank :: "LogLevel \<Rightarrow> nat" where
  "LogLevel_rank x = (case x of LogLevel.Trace \<Rightarrow> 0 | LogLevel.Debug \<Rightarrow> 1 | LogLevel.Info \<Rightarrow> 2 | LogLevel.Warn \<Rightarrow> 3 | LogLevel.Error \<Rightarrow> 4)"

lemma LogLevel_rank_inj: "LogLevel_rank x = LogLevel_rank y \<Longrightarrow> x = y"
  by (cases x; cases y) (simp_all add: LogLevel_rank_def)

instantiation LogLevel :: linorder
begin

definition less_eq_LogLevel :: "LogLevel \<Rightarrow> LogLevel \<Rightarrow> bool" where
  "less_eq_LogLevel x y \<longleftrightarrow> LogLevel_rank x \<le> LogLevel_rank y"

definition less_LogLevel :: "LogLevel \<Rightarrow> LogLevel \<Rightarrow> bool" where
  "less_LogLevel x y \<longleftrightarrow> LogLevel_rank x < LogLevel_rank y"

instance
  by standard (auto simp: less_eq_LogLevel_def less_LogLevel_def intro: LogLevel_rank_inj)

end

definition LogLevel_as_str :: "LogLevel \<Rightarrow> string" where
  "LogLevel_as_str x =
     (case x of
        LogLevel.Trace \<Rightarrow> ''trace''
      | LogLevel.Debug \<Rightarrow> ''debug''
      | LogLevel.Info \<Rightarrow> ''info''
      | LogLevel.Warn \<Rightarrow> ''warn''
      | LogLevel.Error \<Rightarrow> ''error'')"

definition LogLevel_names :: "string list list" where
  "LogLevel_names =
     [[''Trace''],
      [''Debug''],
      [''Info''],
      [''Warn''],
      [''Error'']]"

definition LogLevel_from_str :: "strum \<Rightarrow> string \<Rightarrow> LogLevel option" where
  "LogLevel_from_str S =
     variant_from S LogLevel_names
       [LogLevel.Trace, LogLevel.Debug, LogLevel.Info, LogLevel.Warn, LogLevel.Error]"

datatype NotificationKind = ToolAdded | ToolRemoved | Log | PromptsChanged | Coalesced

definition NotificationKind_as_str :: "NotificationKind \<Rightarrow> string" where
  "NotificationKind_as_str x =
     (case x of
        NotificationKind.ToolAdded \<Rightarrow> ''tool_added''
      | NotificationKind.ToolRemoved \<Rightarrow> ''tool_removed''
      | NotificationKind.Log \<Rightarrow> ''log''
      | NotificationKind.PromptsChanged \<Rightarrow> ''prompts_changed''
      | NotificationKind.Coalesced \<Rightarrow> ''coalesced'')"

definition NotificationKind_names :: "string list list" where
  "NotificationKind_names =
     [[''ToolAdded''],
      [''ToolRemoved''],
      [''Log''],
      [''PromptsChanged''],
      [''Coalesced'']]"

definition NotificationKind_from_str :: "strum \<Rightarrow> string \<Rightarrow> NotificationKind option" where
  "NotificationKind_from_str S =
     variant_from S NotificationKind_names
       [NotificationKind.ToolAdded, NotificationKind.ToolRemoved, NotificationKind.Log, NotificationKind.PromptsChanged, NotificationKind.Coalesced]"

datatype Status = Pending | Running | Done | Error

definition Status_rank :: "Status \<Rightarrow> nat" where
  "Status_rank x = (case x of Status.Pending \<Rightarrow> 0 | Status.Running \<Rightarrow> 1 | Status.Done \<Rightarrow> 2 | Status.Error \<Rightarrow> 3)"

lemma Status_rank_inj: "Status_rank x = Status_rank y \<Longrightarrow> x = y"
  by (cases x; cases y) (simp_all add: Status_rank_def)

instantiation Status :: linorder
begin

definition less_eq_Status :: "Status \<Rightarrow> Status \<Rightarrow> bool" where
  "less_eq_Status x y \<longleftrightarrow> Status_rank x \<le> Status_rank y"

definition less_Status :: "Status \<Rightarrow> Status \<Rightarrow> bool" where
  "less_Status x y \<longleftrightarrow> Status_rank x < Status_rank y"

instance
  by standard (auto simp: less_eq_Status_def less_Status_def intro: Status_rank_inj)

end

definition Status_as_str :: "Status \<Rightarrow> string" where
  "Status_as_str x =
     (case x of
        Status.Pending \<Rightarrow> ''pending''
      | Status.Running \<Rightarrow> ''running''
      | Status.Done \<Rightarrow> ''done''
      | Status.Error \<Rightarrow> ''error'')"

definition Status_names :: "string list list" where
  "Status_names =
     [[''Pending''],
      [''running'', ''active''],
      [''done'', ''complete'', ''completed''],
      [''Error'']]"

definition Status_from_str :: "strum \<Rightarrow> string \<Rightarrow> Status option" where
  "Status_from_str S =
     variant_from S Status_names
       [Status.Pending, Status.Running, Status.Done, Status.Error]"

definition is_terminal :: "Status \<Rightarrow> bool" where
  "is_terminal s \<longleftrightarrow> s = Status.Done \<or> s = Status.Error"

definition is_active :: "Status \<Rightarrow> bool" where
  "is_active s \<longleftrightarrow> s = Status.Running"

datatype BlockKind = Text | Thinking | ToolCall | ToolResult | Drift | File | Error | Notification | Resource | Trace

definition BlockKind_as_str :: "BlockKind \<Rightarrow> string" where
  "BlockKind_as_str x =
     (case x of
        BlockKind.Text \<Rightarrow> ''text''
      | BlockKind.Thinking \<Rightarrow> ''thinking''
      | BlockKind.ToolCall \<Rightarrow> ''tool_call''
      | BlockKind.ToolResult \<Rightarrow> ''tool_result''
      | BlockKind.Drift \<Rightarrow> ''drift''
      | BlockKind.File \<Rightarrow> ''file''
      | BlockKind.Error \<Rightarrow> ''error''
      | BlockKind.Notification \<Rightarrow> ''notification''
      | BlockKind.Resource \<Rightarrow> ''resource''
      | BlockKind.Trace \<Rightarrow> ''trace'')"

definition BlockKind_names :: "string list list" where
  "BlockKind_names =
     [[''Text''],
      [''Thinking''],
      [''tool_call'', ''toolcall''],
      [''tool_result'', ''toolresult''],
      [''drift''],
      [''file''],
      [''error''],
      [''notification''],
      [''resource''],
      [''trace'']]"

definition BlockKind_from_str :: "strum \<Rightarrow> string \<Rightarrow> BlockKind option" where
  "BlockKind_from_str S =
     variant_from S BlockKind_names
       [BlockKind.Text, BlockKind.Thinking, BlockKind.ToolCall, BlockKind.ToolResult, BlockKind.Drift, BlockKind.File, BlockKind.Error, BlockKind.Notification, BlockKind.Resource, BlockKind.Trace]"

definition is_tool :: "BlockKind \<Rightarrow> bool" where
  "is_tool k \<longleftrightarrow> k = BlockKind.ToolCall \<or> k = BlockKind.ToolResult"

definition is_drift :: "BlockKind \<Rightarrow> bool" where
  "is_drift k \<longleftrightarrow> k = BlockKind.Drift"

definition is_file :: "BlockKind \<Rightarrow> bool" where
  "is_file k \<longleftrightarrow> k = BlockKind.File"

datatype ToolKind = Shell | Mcp | Builtin

definition ToolKind_rank :: "ToolKind \<Rightarrow> nat" where
  "ToolKind_rank x = (case x of ToolKind.Shell \<Rightarrow> 0 | ToolKind.Mcp \<Rightarrow> 1 | ToolKind.Builtin \<Rightarrow> 2)"

lemma ToolKind_rank_inj: "ToolKind_rank x = ToolKind_rank y \<Longrightarrow> x = y"
  by (cases x; cases y) (simp_all add: ToolKind_rank_def)

instantiation ToolKind :: linorder
begin

definition less_eq_ToolKind :: "ToolKind \<Rightarrow> ToolKind \<Rightarrow> bool" where
  "less_eq_ToolKind x y \<longleftrightarrow> ToolKind_rank x \<le> ToolKind_rank y"

definition less_ToolKind :: "ToolKind \<Rightarrow> ToolKind \<Rightarrow> bool" where
  "less_ToolKind x y \<longleftrightarrow> ToolKind_rank x < ToolKind_rank y"

instance
  by standard (auto simp: less_eq_ToolKind_def less_ToolKind_def intro: ToolKind_rank_inj)

end

definition ToolKind_as_str :: "ToolKind \<Rightarrow> string" where
  "ToolKind_as_str x =
     (case x of
        ToolKind.Shell \<Rightarrow> ''shell''
      | ToolKind.Mcp \<Rightarrow> ''mcp''
      | ToolKind.Builtin \<Rightarrow> ''builtin'')"

definition ToolKind_names :: "string list list" where
  "ToolKind_names =
     [[''Shell''],
      [''Mcp''],
      [''Builtin'']]"

definition ToolKind_from_str :: "strum \<Rightarrow> string \<Rightarrow> ToolKind option" where
  "ToolKind_from_str S =
     variant_from S ToolKind_names
       [ToolKind.Shell, ToolKind.Mcp, ToolKind.Builtin]"

datatype DriftKind = Push | Pull | Merge | Distill | Notification | Fork

definition DriftKind_as_str :: "DriftKind \<Rightarrow> string" where
  "DriftKind_as_str x =
     (case x of
        DriftKind.Push \<Rightarrow> ''push''
      | DriftKind.Pull \<Rightarrow> ''pull''
      | DriftKind.Merge \<Rightarrow> ''merge''
      | DriftKind.Distill \<Rightarrow> ''distill''
      | DriftKind.Notification \<Rightarrow> ''notification''
      | DriftKind.Fork \<Rightarrow> ''fork'')"

definition DriftKind_names :: "string list list" where
  "DriftKind_names =
     [[''Push''],
      [''Pull''],
      [''Merge''],
      [''Distill''],
      [''Notification''],
      [''Fork'']]"

definition DriftKind_from_str :: "strum \<Rightarrow> string \<Rightarrow> DriftKind option" where
  "DriftKind_from_str S =
     variant_from S DriftKind_names
       [DriftKind.Push, DriftKind.Pull, DriftKind.Merge, DriftKind.Distill, DriftKind.Notification, DriftKind.Fork]"

datatype ForkKind = Full | Filtered | Compact | Subtree

definition ForkKind_as_str :: "ForkKind \<Rightarrow> string" where
  "ForkKind_as_str x =
     (case x of
        ForkKind.Full \<Rightarrow> ''full''
      | ForkKind.Filtered \<Rightarrow> ''filtered''
      | ForkKind.Compact \<Rightarrow> ''compact''
      | ForkKind.Subtree \<Rightarrow> ''subtree'')"

definition ForkKind_names :: "string list list" where
  "ForkKind_names =
     [[''Full''],
      [''Filtered''],
      [''Compact''],
      [''Subtree'']]"

definition ForkKind_from_str :: "strum \<Rightarrow> string \<Rightarrow> ForkKind option" where
  "ForkKind_from_str S =
     variant_from S ForkKind_names
       [ForkKind.Full, ForkKind.Filtered, ForkKind.Compact, ForkKind.Subtree]"

datatype EdgeKind = Structural | Drift

definition EdgeKind_as_str :: "EdgeKind \<Rightarrow> string" where
  "EdgeKind_as_str x =
     (case x of
        EdgeKind.Structural \<Rightarrow> ''structural''
      | EdgeKind.Drift \<Rightarrow> ''drift'')"

definition EdgeKind_names :: "string list list" where
  "EdgeKind_names =
     [[''Structural''],
      [''Drift'']]"

definition EdgeKind_from_str :: "strum \<Rightarrow> string \<Rightarrow> EdgeKind option" where
  "EdgeKind_from_str S =
     variant_from S EdgeKind_names
       [EdgeKind.Structural, EdgeKind.Drift]"

datatype ConsentMode = Collaborative | Autonomous

definition ConsentMode_as_str :: "ConsentMode \<Rightarrow> string" where
  "ConsentMode_as_str x =
     (case x of
        ConsentMode.Collaborative \<Rightarrow> ''collaborative''
      | ConsentMode.Autonomous \<Rightarrow> ''autonomous'')"

definition ConsentMode_names :: "string list list" where
  "ConsentMode_names =
     [[''Collaborative''],
      [''Autonomous'']]"

definition ConsentMode_from_str :: "strum \<Rightarrow> string \<Rightarrow> ConsentMode option" where
  "ConsentMode_from_str S =
     variant_from S ConsentMode_names
       [ConsentMode.Collaborative, ConsentMode.Autonomous]"

datatype ContextState = Live | Staging | Concluded | Archived

definition ContextState_as_str :: "ContextState \<Rightarrow> string" where
  "ContextState_as_str x =
     (case x of
        ContextState.Live \<Rightarrow> ''live''
      | ContextState.Staging \<Rightarrow> ''staging''
      | ContextState.Concluded \<Rightarrow> ''concluded''
      | ContextState.Archived \<Rightarrow> ''archived'')"

definition ContextState_names :: "string list list" where
  "ContextState_names =
     [[''Live''],
      [''Staging''],
      [''Concluded''],
      [''Archived'']]"

definition ContextState_from_str :: "strum \<Rightarrow> string \<Rightarrow> ContextState option" where
  "ContextState_from_str S =
     variant_from S ContextState_names
       [ContextState.Live, ContextState.Staging, ContextState.Concluded, ContextState.Archived]"

datatype DocKind = Conversation | Code | Text | Config | Symlink

definition DocKind_as_str :: "DocKind \<Rightarrow> string" where
  "DocKind_as_str x =
     (case x of
        DocKind.Conversation \<Rightarrow> ''conversation''
      | DocKind.Code \<Rightarrow> ''code''
      | DocKind.Text \<Rightarrow> ''text''
      | DocKind.Config \<Rightarrow> ''config''
      | DocKind.Symlink \<Rightarrow> ''symlink'')"

definition DocKind_names :: "string list list" where
  "DocKind_names =
     [[''conversation'', ''output'', ''system'', ''user_message'', ''agent_message''],
      [''Code''],
      [''text'', ''markdown''],
      [''config''],
      [''symlink'']]"

definition DocKind_from_str :: "strum \<Rightarrow> string \<Rightarrow> DocKind option" where
  "DocKind_from_str S =
     variant_from S DocKind_names
       [DocKind.Conversation, DocKind.Code, DocKind.Text, DocKind.Config, DocKind.Symlink]"

section \<open>Facts\<close>

definition reference_strum :: strum where
  "reference_strum tbl s = position (list_ex (eq_ignore_ascii_case s)) tbl"

lemma reference_strum_ok: "strum_ok reference_strum"
  by (simp add: strum_ok_def reference_strum_def)

lemma strum_ok_eq: "strum_ok S \<Longrightarrow> S = reference_strum"
  by (intro ext) (simp add: strum_ok_def reference_strum_def)

lemma Role_roundtrip: "Role_from_str reference_strum (Role_as_str x) = Some x"
  by (cases x; hypsubst; code_simp)

lemma LogLevel_roundtrip: "LogLevel_from_str reference_strum (LogLevel_as_str x) = Some x"
  by (cases x; hypsubst; code_simp)

lemma Status_roundtrip: "Status_from_str reference_strum (Status_as_str x) = Some x"
  by (cases x; hypsubst; code_simp)

lemma BlockKind_roundtrip: "BlockKind_from_str reference_strum (BlockKind_as_str x) = Some x"
  by (cases x; hypsubst; code_simp)

lemma ToolKind_roundtrip: "ToolKind_from_str reference_strum (ToolKind_as_str x) = Some x"
  by (cases x; hypsubst; code_simp)

lemma DriftKind_roundtrip: "DriftKind_from_str reference_strum (DriftKind_as_str x) = Some x"
  by (cases x; hypsubst; code_simp)

lemma ForkKind_roundtrip: "ForkKind_from_str reference_strum (ForkKind_as_str x) = Some x"
  by (cases x; hypsubst; code_simp)

lemma EdgeKind_roundtrip: "EdgeKind_from_str reference_strum (EdgeKind_as_str x) = Some x"
  by (cases x; hypsubst; code_simp)

lemma ConsentMode_roundtrip: "ConsentMode_from_str reference_strum (ConsentMode_as_str x) = Some x"
  by (cases x; hypsubst; code_simp)

lemma ContextState_roundtrip: "ContextState_from_str reference_strum (ContextState_as_str x) = Some x"
  by (cases x; hypsubst; code_simp)

lemma DocKind_roundtrip: "DocKind_from_str reference_strum (DocKind_as_str x) = Some x"
  by (cases x; hypsubst; code_simp)

text \<open>
  The parser derived for \<open>NotificationKind\<close> has no \<open>serialize\<close> attributes, so it knows the Rust
  names of the variants and not the spelling \<open>as_str\<close> prints.
\<close>

lemma NotificationKind_no_roundtrip:
  "NotificationKind_from_str reference_strum (NotificationKind_as_str ToolAdded) = None"
  by code_simp

section \<open>Properties\<close>

text \<open>
  For every enum that crosses a text boundary, the parser accepts what \<open>as_str\<close> prints and
  returns the same variant; MIME names of content types come back too.
\<close>

theorem enum_names_roundtrip:
  assumes "strum_ok S"
  shows "Role_from_str S (Role_as_str x0) = Some x0 \<and>
     LogLevel_from_str S (LogLevel_as_str x1) = Some x1 \<and>
     Status_from_str S (Status_as_str x2) = Some x2 \<and>
     BlockKind_from_str S (BlockKind_as_str x3) = Some x3 \<and>
     ToolKind_from_str S (ToolKind_as_str x4) = Some x4 \<and>
     DriftKind_from_str S (DriftKind_as_str x5) = Some x5 \<and>
     ForkKind_from_str S (ForkKind_as_str x6) = Some x6 \<and>
     EdgeKind_from_str S (EdgeKind_as_str x7) = Some x7 \<and>
     ConsentMode_from_str S (ConsentMode_as_str x8) = Some x8 \<and>
     ContextState_from_str S (ContextState_as_str x9) = Some x9 \<and>
     DocKind_from_str S (DocKind_as_str x10) = Some x10 \<and>
     from_mime (as_mime ct) = ct"
  using strum_ok_eq [OF assms] by (cases ct) (simp_all add: Role_roundtrip LogLevel_roundtrip Status_roundtrip BlockKind_roundtrip ToolKind_roundtrip DriftKind_roundtrip ForkKind_roundtrip EdgeKind_roundtrip ConsentMode_roundtrip ContextState_roundtrip DocKind_roundtrip as_mime_def from_mime_def)

theorem enum_names_roundtrip_witness:
  "Role_from_str reference_strum (Role_as_str Role.Model) = Some Role.Model"
  using enum_names_roundtrip [OF reference_strum_ok] by blast

end
