(* ===== verification/Timeline_Coords.thy ===== *)
theory Timeline_Coords
  imports Rust_Text
begin

text \<open>
  Timeline coordinates and lanes: \<open>crates/kaijutsu-types/src/tick.rs\<close> and \<open>track.rs\<close>.

  \<open>Tick\<close> and \<open>TickDelta\<close> wrap an \<open>i64\<close>; the affine operations are the integer operations,
  so both are synonyms of \<^typ>\<open>i64\<close>, and the distinction between positions and offsets, which
  the Rust types make at compile time, is kept in the names.  A track identifier is a validated
  string.

  Shown here: \<open>TrackId::slugify\<close> only ever returns strings that \<open>TrackId::new\<close> accepts, so the
  \<open>expect\<close> at its end cannot fail, and slugs are fixed points.
\<close>

section \<open>Positions and spans\<close>

type_synonym Tick = i64
type_synonym TickDelta = i64

record Span =
  span_start :: Tick
  span_len :: TickDelta

definition span_end :: "Span \<Rightarrow> Tick" where
  "span_end s = span_start s + span_len s"

definition span_instant :: "Tick \<Rightarrow> Span" where
  "span_instant t = \<lparr>span_start = t, span_len = 0\<rparr>"

definition is_instant :: "Span \<Rightarrow> bool" where
  "is_instant s \<longleftrightarrow> span_len s = 0"

section \<open>Track identifiers\<close>

type_synonym TrackId = string

datatype TrackIdError = Empty | TooLong nat | InvalidChar string

definition MAX_TRACK_ID_LEN :: nat where
  "MAX_TRACK_ID_LEN = 64"

definition is_track_char :: "char \<Rightarrow> bool" where
  "is_track_char ch \<longleftrightarrow> ascii_lower ch \<or> ascii_digit ch \<or> ch = CHR ''_'' \<or> ch = CHR ''-''"

definition track_id_new :: "string \<Rightarrow> TrackIdError + TrackId" where
  "track_id_new s =
     (if s = [] then Inl Empty
      else if MAX_TRACK_ID_LEN < char_count s then Inl (TooLong (char_count s))
      else case dropWhile is_track_char s of
             [] \<Rightarrow> Inr s
           | rest \<Rightarrow> Inl (InvalidChar (first_char rest)))"

definition lowered :: "char \<Rightarrow> char option" where
  "lowered ch =
     (if ascii_upper ch then Some (to_ascii_lowercase ch)
      else if is_track_char ch then Some ch else None)"

fun slug_loop :: "string \<Rightarrow> bool \<Rightarrow> string \<Rightarrow> string" where
  "slug_loop out prev_dash [] = out"
| "slug_loop out prev_dash (ch # label) =
     (case lowered ch of
        Some c \<Rightarrow>
          (if c = CHR ''-'' then
             (if \<not> prev_dash then slug_loop (out @ [CHR ''-'']) True label
              else slug_loop out prev_dash label)
           else slug_loop (out @ [c]) False label)
      | None \<Rightarrow>
          (if \<not> prev_dash then slug_loop (out @ [CHR ''-'']) True label
           else slug_loop out prev_dash label))"

definition trim_end_dash :: "string \<Rightarrow> string" where
  "trim_end_dash s = rev (dropWhile (\<lambda>c. c = CHR ''-'') (rev s))"

definition trim_dash :: "string \<Rightarrow> string" where
  "trim_dash s = trim_end_dash (dropWhile (\<lambda>c. c = CHR ''-'') s)"

text \<open>
  The result is the slug passed through \<^const>\<open>track_id_new\<close>; the outer \<^const>\<open>Some\<close> carrying an
  \<^const>\<open>Inl\<close> is the failing \<open>expect\<close>, a panic.
\<close>

definition slugify :: "string \<Rightarrow> (TrackIdError + TrackId) option" where
  "slugify label =
     (let slug = trim_end_dash (take_chars MAX_TRACK_ID_LEN (trim_dash (slug_loop [] False label)))
      in if slug = [] then None else Some (track_id_new slug))"

definition solo :: TrackId where
  "solo = ''solo''"

section \<open>Facts\<close>

lemma trim_end_dash_split: "\<exists>ds. s = trim_end_dash s @ ds"
proof -
  have "rev s = takeWhile (\<lambda>c. c = CHR ''-'') (rev s) @ dropWhile (\<lambda>c. c = CHR ''-'') (rev s)"
    by simp
  then have "s = trim_end_dash s @ rev (takeWhile (\<lambda>c. c = CHR ''-'') (rev s))"
    unfolding trim_end_dash_def by (metis rev_append rev_rev_ident)
  then show ?thesis ..
qed

lemma trim_dash_split: "\<exists>cs ds. s = cs @ trim_dash s @ ds"
  unfolding trim_dash_def by (metis takeWhile_dropWhile_id trim_end_dash_split)

lemma take_chars_split: "\<exists>t. s = take_chars n s @ t"
  by (induction n s rule: take_chars.induct) (auto split: nat.split)

lemma take_chars_id: "char_count s \<le> n \<Longrightarrow> take_chars n s = s"
  by (induction n s rule: take_chars.induct) (auto simp: char_count_def split: nat.split if_splits)

lemma trim_end_dash_last: "trim_end_dash s \<noteq> [] \<Longrightarrow> last (trim_end_dash s) \<noteq> CHR ''-''"
  using hd_dropWhile [of "\<lambda>c. c = CHR ''-''" "rev s"] by (simp add: trim_end_dash_def last_rev)

lemma trim_end_dash_id: "s = [] \<or> last s \<noteq> CHR ''-'' \<Longrightarrow> trim_end_dash s = s"
  by (cases s rule: rev_cases) (auto simp: trim_end_dash_def)

lemma trim_dash_hd: "trim_dash s \<noteq> [] \<Longrightarrow> hd (trim_dash s) \<noteq> CHR ''-''"
proof -
  let ?d = "dropWhile (\<lambda>c. c = CHR ''-'') s"
  assume ne: "trim_dash s \<noteq> []"
  obtain ds where d: "?d = trim_dash s @ ds"
    unfolding trim_dash_def using trim_end_dash_split by blast
  from ne have "?d \<noteq> []" "hd ?d = hd (trim_dash s)"
    unfolding d by (simp_all del: dropWhile_eq_Nil_conv)
  then show ?thesis
    using hd_dropWhile [of "\<lambda>c. c = CHR ''-''" s] by (simp del: dropWhile_eq_Nil_conv)
qed

lemma trim_dash_id:
  "s = [] \<or> hd s \<noteq> CHR ''-'' \<and> last s \<noteq> CHR ''-'' \<Longrightarrow> trim_dash s = s"
  by (cases s) (auto simp: trim_dash_def trim_end_dash_id)

lemma lowered_track_char: "ascii_upper ch \<Longrightarrow> is_track_char (to_ascii_lowercase ch)"
  by (auto simp: ascii_upper_def to_ascii_lowercase_def is_track_char_def ascii_lower_def of_char_of)

lemma lowered_charset: "lowered ch = Some c \<Longrightarrow> is_track_char c"
  using lowered_track_char by (auto simp: lowered_def split: if_splits)

lemma lowered_id: "is_track_char c \<Longrightarrow> lowered c = Some c"
  by (auto simp: lowered_def is_track_char_def ascii_upper_def ascii_lower_def ascii_digit_def)

text \<open>No two neighbouring dashes: what collapsing runs establishes.\<close>

definition single_dashes :: "string \<Rightarrow> bool" where
  "single_dashes = successively (\<lambda>a b. a \<noteq> CHR ''-'' \<or> b \<noteq> CHR ''-'')"

lemma single_dashes_append:
  "single_dashes (s @ t) \<longleftrightarrow> single_dashes s \<and> single_dashes t \<and>
     (s = [] \<or> t = [] \<or> last s \<noteq> CHR ''-'' \<or> hd t \<noteq> CHR ''-'')"
  by (auto simp: single_dashes_def successively_append_iff)

lemma slug_loop_ok:
  assumes "list_all is_track_char out" and "single_dashes out"
    and "out \<noteq> [] \<and> last out = CHR ''-'' \<longrightarrow> prev"
  shows "list_all is_track_char (slug_loop out prev label) \<and> single_dashes (slug_loop out prev label)"
  using assms
proof (induction label arbitrary: out prev)
  case Nil
  then show ?case by simp
next
  case (Cons ch label)
  have single: "single_dashes [c]" for c by (simp add: single_dashes_def)
  have "is_track_char (CHR ''-'')" by (simp add: is_track_char_def)
  then have dash: "list_all is_track_char (out @ [CHR ''-''])"
      "\<not> prev \<Longrightarrow> single_dashes (out @ [CHR ''-''])"
    using Cons.prems single by (auto simp: single_dashes_append)
  show ?case
  proof (cases "lowered ch")
    case None
    with Cons dash show ?thesis by simp
  next
    case (Some c)
    with Cons.prems lowered_charset [OF Some] single
    have "list_all is_track_char (out @ [c])" "c \<noteq> CHR ''-'' \<Longrightarrow> single_dashes (out @ [c])"
      by (auto simp: single_dashes_append)
    with Some Cons dash show ?thesis by simp
  qed
qed

lemma slug_loop_id:
  "list_all is_track_char s \<Longrightarrow> single_dashes s \<Longrightarrow> \<not> (prev \<and> s \<noteq> [] \<and> hd s = CHR ''-'') \<Longrightarrow>
   slug_loop out prev s = out @ s"
proof (induction s arbitrary: out prev)
  case Nil
  then show ?case by simp
next
  case (Cons c s)
  from Cons.prems(2) have s: "single_dashes s" "c = CHR ''-'' \<Longrightarrow> s = [] \<or> hd s \<noteq> CHR ''-''"
    by (auto simp: single_dashes_def successively_Cons)
  from Cons.prems have "lowered c = Some c" by (simp add: lowered_id)
  with Cons s show ?case by auto
qed

lemma track_id_new_iff:
  "track_id_new s = Inr t \<longleftrightarrow>
     s = t \<and> s \<noteq> [] \<and> char_count s \<le> MAX_TRACK_ID_LEN \<and> list_all is_track_char s"
proof -
  have *: "list_all is_track_char s \<longleftrightarrow> dropWhile is_track_char s = []"
    by (simp add: dropWhile_eq_Nil_conv list_all_iff)
  show ?thesis unfolding *
    by (cases "dropWhile is_track_char s")
      (auto simp: track_id_new_def simp del: dropWhile_eq_Nil_conv)
qed

text \<open>A slug: the shape of every label that normalisation leaves alone.\<close>

definition is_slug :: "string \<Rightarrow> bool" where
  "is_slug t \<longleftrightarrow> t \<noteq> [] \<and> char_count t \<le> MAX_TRACK_ID_LEN \<and> list_all is_track_char t
     \<and> single_dashes t \<and> hd t \<noteq> CHR ''-'' \<and> last t \<noteq> CHR ''-''"

lemma slugify_slug: "is_slug t \<Longrightarrow> slugify t = Some (Inr t)"
  by (simp add: is_slug_def slugify_def slug_loop_id trim_dash_id trim_end_dash_id take_chars_id
      track_id_new_iff)

lemma slug_is_slug:
  assumes "slug = trim_end_dash (take_chars MAX_TRACK_ID_LEN (trim_dash (slug_loop [] False label)))"
    and "slug \<noteq> []"
  shows "is_slug slug"
proof -
  let ?out = "slug_loop [] False label" and ?t = "trim_dash (slug_loop [] False label)"
  obtain cs ds where out: "?out = cs @ ?t @ ds" using trim_dash_split by blast
  obtain es where t: "?t = take_chars MAX_TRACK_ID_LEN ?t @ es" using take_chars_split by blast
  obtain fs where s: "take_chars MAX_TRACK_ID_LEN ?t = slug @ fs"
    using trim_end_dash_split assms(1) by blast
  have "?out = cs @ slug @ (fs @ es @ ds)" using out t s by simp
  moreover have "list_all is_track_char ?out \<and> single_dashes ?out"
    by (rule slug_loop_ok) (simp_all add: single_dashes_def)
  ultimately have "list_all is_track_char slug" "single_dashes slug"
    by (simp_all add: single_dashes_append)
  moreover have "char_count slug \<le> MAX_TRACK_ID_LEN"
    using arg_cong [OF s, of char_count] by (simp add: char_count_take_chars)
  moreover have "hd slug \<noteq> CHR ''-''"
    using trim_dash_hd [of ?out] t s assms(2) by (metis append_is_Nil_conv hd_append2)
  moreover have "last slug \<noteq> CHR ''-''"
    using trim_end_dash_last assms by simp
  ultimately show ?thesis using assms(2) by (simp add: is_slug_def)
qed

section \<open>Properties\<close>

text \<open>
  \<open>TrackId::slugify\<close> never panics and is idempotent: whatever the label, it returns nothing or
  a string that the strict constructor accepts unchanged and that slugifies to itself.
\<close>

theorem slugify_valid:
  "slugify label = None \<or>
   (\<exists>t. slugify label = Some (Inr t) \<and> track_id_new t = Inr t \<and> slugify t = Some (Inr t))"
proof -
  let ?slug = "trim_end_dash (take_chars MAX_TRACK_ID_LEN (trim_dash (slug_loop [] False label)))"
  have "is_slug ?slug" if "?slug \<noteq> []" using slug_is_slug that by blast
  moreover from this have "?slug \<noteq> [] \<Longrightarrow> track_id_new ?slug = Inr ?slug"
    by (simp add: track_id_new_iff is_slug_def)
  ultimately show ?thesis using slugify_slug by (auto simp: slugify_def [of label] Let_def)
qed

end
