(* ===== verification/Blocks.thy ===== *)
theory Blocks
  imports Ids Enums Timeline_Coords "HOL-Library.Option_ord"
begin

text \<open>
  Block data, \<open>crates/kaijutsu-types/src/block.rs\<close>: payloads, headers, snapshots with their
  constructors and builder, the text a block contributes to a model prompt, and block filters.

  Records keep the fields of the structs in order, with a prefix per record (\<open>bh_\<close> for
  \<open>BlockHeader\<close>, \<open>bs_\<close> for \<open>BlockSnapshot\<close>) because the structs share field names.
  \<open>OutputData\<close> comes from another crate and is only stored and compared, so it is an
  uninterpreted type; the JSON printer is a parameter; the wall clock read by \<open>now_millis\<close> is
  the argument \<open>now\<close>.  A constructor that asserts returns \<^const>\<open>None\<close> where the assertion
  fails, which is a panic.

  Shown here: a constructor panics exactly when the parent lives in another context, and
  otherwise its snapshot satisfies the invariant that the field comments describe; the aggregate
  timestamp is the least upper bound of the field timestamps; what a block contributes to a prompt
  is bounded by its budget; an unconstrained filter accepts every block.
\<close>

typedecl OutputData

section \<open>Payloads\<close>

record ErrorSpan =
  es_line :: nat
  es_column :: nat
  es_length :: nat

record ErrorPayload =
  ep_category :: ErrorCategory
  ep_severity :: ErrorSeverity
  ep_code :: "string option"
  ep_detail :: "string option"
  ep_span :: "ErrorSpan option"
  ep_source_kind :: "BlockKind option"

record NotificationPayload =
  np_instance :: string
  np_kind :: NotificationKind
  np_level :: "LogLevel option"
  np_tools :: "string list"
  np_count :: "usize option"
  np_detail :: "string option"

record ResourcePayload =
  rp_instance :: string
  rp_uri :: string
  rp_mime_type :: "string option"
  rp_size :: "u64 option"
  rp_text :: "string option"
  rp_blob_base64 :: "string option"
  rp_parent_resource_block_id :: "BlockId option"

definition error_summary_line :: "ErrorPayload \<Rightarrow> string" where
  "error_summary_line p =
     (let cat = ErrorCategory_as_str (ep_category p) in
      case ep_detail p of
        Some detail \<Rightarrow>
          (let head = first_line detail in
           case ep_code p of
             Some code \<Rightarrow> cat @ '' error ('' @ code @ ''): '' @ head
           | None \<Rightarrow> cat @ '' error: '' @ head)
      | None \<Rightarrow>
          (case ep_code p of
             Some code \<Rightarrow> cat @ '' error ('' @ code @ '')''
           | None \<Rightarrow> cat @ '' error''))"

definition ellipsis :: string where
  "ellipsis = [CHR 0xE2, CHR 0x80, CHR 0xA6]"

definition format_tool_change :: "string \<Rightarrow> string list \<Rightarrow> string" where
  "format_tool_change verb tools =
     (let n = length tools in
      if n = 0 then ''tools '' @ verb
      else if n = 1 then ''tool '' @ verb @ '': '' @ hd tools
      else if n \<le> 3 then show_nat n @ '' tools '' @ verb @ '': '' @ join '', '' tools
      else show_nat n @ '' tools '' @ verb @ '': '' @ join '', '' (take 3 tools) @ '', '' @ ellipsis)"

definition notification_summary_line :: "NotificationPayload \<Rightarrow> string" where
  "notification_summary_line p =
     (case np_kind p of
        ToolAdded \<Rightarrow> ''['' @ np_instance p @ ''] '' @ format_tool_change ''added'' (np_tools p)
      | ToolRemoved \<Rightarrow> ''['' @ np_instance p @ ''] '' @ format_tool_change ''removed'' (np_tools p)
      | Log \<Rightarrow>
          (let level = (case np_level p of Some l \<Rightarrow> LogLevel_as_str l | None \<Rightarrow> ''info'');
               head = (case np_detail p of Some d \<Rightarrow> first_line d | None \<Rightarrow> [])
           in if head = [] then ''['' @ np_instance p @ ''] '' @ level
              else ''['' @ np_instance p @ ''] '' @ level @ '': '' @ head)
      | PromptsChanged \<Rightarrow> ''['' @ np_instance p @ ''] prompts changed''
      | Coalesced \<Rightarrow>
          (let count = (case np_count p of Some c \<Rightarrow> c | None \<Rightarrow> 0);
               kind_hint = (case np_detail p of Some d \<Rightarrow> d | None \<Rightarrow> ''event'')
           in ''['' @ np_instance p @ ''] coalesced: '' @ show_nat count @ '' further ''
              @ kind_hint @ '' events''))"

definition resource_summary_line :: "ResourcePayload \<Rightarrow> string" where
  "resource_summary_line p =
     (let mime_hint = (case rp_mime_type p of Some m \<Rightarrow> '' ('' @ m @ '')'' | None \<Rightarrow> []);
          marker = (if rp_blob_base64 p \<noteq> None then '' [binary]'' else [])
      in ''['' @ rp_instance p @ ''] '' @ rp_uri p @ mime_hint @ marker)"

section \<open>Headers and snapshots\<close>

record BlockHeader =
  bh_id :: BlockId
  bh_parent_id :: "BlockId option"
  bh_role :: Role
  bh_kind :: BlockKind
  bh_status :: Status
  bh_compacted :: bool
  bh_collapsed :: bool
  bh_ephemeral :: bool
  bh_excluded :: bool
  bh_created_at :: u64
  bh_updated_at :: u64
  bh_tool_kind :: "ToolKind option"
  bh_exit_code :: "int option"
  bh_is_error :: bool
  bh_content_type :: ContentType
  bh_status_at :: u64
  bh_collapsed_at :: u64
  bh_ephemeral_at :: u64
  bh_excluded_at :: u64
  bh_compacted_at :: u64
  bh_tool_meta_at :: u64
  bh_content_type_at :: u64

record BlockSnapshot =
  bs_id :: BlockId
  bs_parent_id :: "BlockId option"
  bs_role :: Role
  bs_status :: Status
  bs_kind :: BlockKind
  bs_content :: string
  bs_collapsed :: bool
  bs_compacted :: bool
  bs_ephemeral :: bool
  bs_excluded :: bool
  bs_created_at :: u64
  bs_tool_kind :: "ToolKind option"
  bs_tool_name :: "string option"
  bs_tool_input :: "string option"
  bs_tool_use_id :: "string option"
  bs_tool_call_id :: "BlockId option"
  bs_exit_code :: "int option"
  bs_is_error :: bool
  bs_stderr :: "string option"
  bs_signature :: "string option"
  bs_output :: "OutputData option"
  bs_source_context :: "ContextId option"
  bs_source_model :: "string option"
  bs_drift_kind :: "DriftKind option"
  bs_file_path :: "string option"
  bs_error :: "ErrorPayload option"
  bs_notification :: "NotificationPayload option"
  bs_resource :: "ResourcePayload option"
  bs_content_type :: ContentType
  bs_order_key :: "string option"
  bs_tick :: "Tick option"
  bs_track :: "TrackId option"
  bs_updated_at :: u64
  bs_status_at :: u64
  bs_collapsed_at :: u64
  bs_ephemeral_at :: u64
  bs_excluded_at :: u64
  bs_compacted_at :: u64
  bs_tool_meta_at :: u64
  bs_content_type_at :: u64

definition header_from_snapshot :: "BlockSnapshot \<Rightarrow> BlockHeader" where
  "header_from_snapshot snap =
     \<lparr>bh_id = bs_id snap, bh_parent_id = bs_parent_id snap, bh_role = bs_role snap,
      bh_kind = bs_kind snap, bh_status = bs_status snap, bh_compacted = bs_compacted snap,
      bh_collapsed = bs_collapsed snap, bh_ephemeral = bs_ephemeral snap, bh_excluded = bs_excluded snap,
      bh_created_at = bs_created_at snap, bh_updated_at = bs_updated_at snap, bh_tool_kind = bs_tool_kind snap,
      bh_exit_code = bs_exit_code snap, bh_is_error = bs_is_error snap, bh_content_type = bs_content_type snap,
      bh_status_at = bs_status_at snap, bh_collapsed_at = bs_collapsed_at snap, bh_ephemeral_at = bs_ephemeral_at snap,
      bh_excluded_at = bs_excluded_at snap, bh_compacted_at = bs_compacted_at snap, bh_tool_meta_at = bs_tool_meta_at snap,
      bh_content_type_at = bs_content_type_at snap\<rparr>"

definition max_field_ts :: "BlockHeader \<Rightarrow> u64" where
  "max_field_ts h =
     max (max (max (max (max (max (bh_status_at h) (bh_collapsed_at h)) (bh_ephemeral_at h))
       (bh_excluded_at h)) (bh_compacted_at h)) (bh_tool_meta_at h)) (bh_content_type_at h)"

definition header_is_root :: "BlockHeader \<Rightarrow> bool" where
  "header_is_root h \<longleftrightarrow> bh_parent_id h = None"

record BlockMetadata =
  bm_exit_code :: "int option"
  bm_is_error :: bool
  bm_content_type :: ContentType
  bm_ephemeral :: bool
  bm_tool_use_id :: "string option"
  bm_stderr :: "string option"

definition author :: "BlockSnapshot \<Rightarrow> PrincipalId" where
  "author s = principal_id (bs_id s)"

definition metadata :: "BlockSnapshot \<Rightarrow> BlockMetadata" where
  "metadata s =
     \<lparr>bm_exit_code = bs_exit_code s, bm_is_error = bs_is_error s,
      bm_content_type = bs_content_type s, bm_ephemeral = bs_ephemeral s,
      bm_tool_use_id = bs_tool_use_id s, bm_stderr = bs_stderr s\<rparr>"

definition is_shell :: "BlockSnapshot \<Rightarrow> bool" where
  "is_shell s \<longleftrightarrow> bs_tool_kind s = Some ToolKind.Shell \<and> is_tool (bs_kind s)"

definition content_eq :: "BlockSnapshot \<Rightarrow> BlockSnapshot \<Rightarrow> bool" where
  "content_eq a b \<longleftrightarrow>
     bs_id a = bs_id b \<and> bs_parent_id a = bs_parent_id b \<and>
     bs_role a = bs_role b \<and> bs_status a = bs_status b \<and>
     bs_kind a = bs_kind b \<and> bs_content a = bs_content b \<and>
     bs_collapsed a = bs_collapsed b \<and> bs_compacted a = bs_compacted b \<and>
     bs_ephemeral a = bs_ephemeral b \<and> bs_tool_kind a = bs_tool_kind b \<and>
     bs_tool_name a = bs_tool_name b \<and> bs_tool_input a = bs_tool_input b \<and>
     bs_tool_call_id a = bs_tool_call_id b \<and> bs_exit_code a = bs_exit_code b \<and>
     bs_is_error a = bs_is_error b \<and> bs_signature a = bs_signature b \<and>
     bs_output a = bs_output b \<and> bs_tool_use_id a = bs_tool_use_id b \<and>
     bs_source_context a = bs_source_context b \<and> bs_source_model a = bs_source_model b \<and>
     bs_drift_kind a = bs_drift_kind b \<and> bs_file_path a = bs_file_path b \<and>
     bs_error a = bs_error b \<and> bs_notification a = bs_notification b \<and>
     bs_resource a = bs_resource b \<and> bs_content_type a = bs_content_type b \<and>
     bs_order_key a = bs_order_key b \<and> bs_track a = bs_track b"

section \<open>Builder and constructors\<close>

definition builder_new :: "u64 \<Rightarrow> BlockId \<Rightarrow> BlockKind \<Rightarrow> BlockSnapshot" where
  "builder_new now i k =
     \<lparr>bs_id = i, bs_parent_id = None, bs_role = Role.User,
      bs_status = Status.Done, bs_kind = k, bs_content = [],
      bs_collapsed = False, bs_compacted = False, bs_ephemeral = False,
      bs_excluded = False, bs_created_at = now, bs_tool_kind = None,
      bs_tool_name = None, bs_tool_input = None, bs_tool_use_id = None,
      bs_tool_call_id = None, bs_exit_code = None, bs_is_error = False,
      bs_stderr = None, bs_signature = None, bs_output = None,
      bs_source_context = None, bs_source_model = None, bs_drift_kind = None,
      bs_file_path = None, bs_error = None, bs_notification = None,
      bs_resource = None, bs_content_type = Plain, bs_order_key = None,
      bs_tick = None, bs_track = None, bs_updated_at = 0,
      bs_status_at = 0, bs_collapsed_at = 0, bs_ephemeral_at = 0,
      bs_excluded_at = 0, bs_compacted_at = 0, bs_tool_meta_at = 0,
      bs_content_type_at = 0\<rparr>"

definition builder_parent_id :: "BlockId \<Rightarrow> BlockSnapshot \<Rightarrow> BlockSnapshot" where
  "builder_parent_id v s = s\<lparr>bs_parent_id := Some v\<rparr>"

definition builder_tool_kind :: "ToolKind \<Rightarrow> BlockSnapshot \<Rightarrow> BlockSnapshot" where
  "builder_tool_kind v s = s\<lparr>bs_tool_kind := Some v\<rparr>"

definition builder_tool_name :: "string \<Rightarrow> BlockSnapshot \<Rightarrow> BlockSnapshot" where
  "builder_tool_name v s = s\<lparr>bs_tool_name := Some v\<rparr>"

definition builder_tool_input :: "string \<Rightarrow> BlockSnapshot \<Rightarrow> BlockSnapshot" where
  "builder_tool_input v s = s\<lparr>bs_tool_input := Some v\<rparr>"

definition builder_tool_call_id :: "BlockId \<Rightarrow> BlockSnapshot \<Rightarrow> BlockSnapshot" where
  "builder_tool_call_id v s = s\<lparr>bs_tool_call_id := Some v\<rparr>"

definition builder_exit_code :: "int \<Rightarrow> BlockSnapshot \<Rightarrow> BlockSnapshot" where
  "builder_exit_code v s = s\<lparr>bs_exit_code := Some v\<rparr>"

definition builder_stderr :: "string \<Rightarrow> BlockSnapshot \<Rightarrow> BlockSnapshot" where
  "builder_stderr v s = s\<lparr>bs_stderr := Some v\<rparr>"

definition builder_signature :: "string \<Rightarrow> BlockSnapshot \<Rightarrow> BlockSnapshot" where
  "builder_signature v s = s\<lparr>bs_signature := Some v\<rparr>"

definition builder_output :: "OutputData \<Rightarrow> BlockSnapshot \<Rightarrow> BlockSnapshot" where
  "builder_output v s = s\<lparr>bs_output := Some v\<rparr>"

definition builder_tool_use_id :: "string \<Rightarrow> BlockSnapshot \<Rightarrow> BlockSnapshot" where
  "builder_tool_use_id v s = s\<lparr>bs_tool_use_id := Some v\<rparr>"

definition builder_source_context :: "ContextId \<Rightarrow> BlockSnapshot \<Rightarrow> BlockSnapshot" where
  "builder_source_context v s = s\<lparr>bs_source_context := Some v\<rparr>"

definition builder_source_model :: "string \<Rightarrow> BlockSnapshot \<Rightarrow> BlockSnapshot" where
  "builder_source_model v s = s\<lparr>bs_source_model := Some v\<rparr>"

definition builder_drift_kind :: "DriftKind \<Rightarrow> BlockSnapshot \<Rightarrow> BlockSnapshot" where
  "builder_drift_kind v s = s\<lparr>bs_drift_kind := Some v\<rparr>"

definition builder_file_path :: "string \<Rightarrow> BlockSnapshot \<Rightarrow> BlockSnapshot" where
  "builder_file_path v s = s\<lparr>bs_file_path := Some v\<rparr>"

definition builder_tick :: "Tick \<Rightarrow> BlockSnapshot \<Rightarrow> BlockSnapshot" where
  "builder_tick v s = s\<lparr>bs_tick := Some v\<rparr>"

definition builder_track :: "TrackId \<Rightarrow> BlockSnapshot \<Rightarrow> BlockSnapshot" where
  "builder_track v s = s\<lparr>bs_track := Some v\<rparr>"

definition builder_order_key :: "string \<Rightarrow> BlockSnapshot \<Rightarrow> BlockSnapshot" where
  "builder_order_key v s = s\<lparr>bs_order_key := Some v\<rparr>"

definition builder_role :: "Role \<Rightarrow> BlockSnapshot \<Rightarrow> BlockSnapshot" where
  "builder_role v s = s\<lparr>bs_role := v\<rparr>"

definition builder_status :: "Status \<Rightarrow> BlockSnapshot \<Rightarrow> BlockSnapshot" where
  "builder_status v s = s\<lparr>bs_status := v\<rparr>"

definition builder_content :: "string \<Rightarrow> BlockSnapshot \<Rightarrow> BlockSnapshot" where
  "builder_content v s = s\<lparr>bs_content := v\<rparr>"

definition builder_collapsed :: "bool \<Rightarrow> BlockSnapshot \<Rightarrow> BlockSnapshot" where
  "builder_collapsed v s = s\<lparr>bs_collapsed := v\<rparr>"

definition builder_compacted :: "bool \<Rightarrow> BlockSnapshot \<Rightarrow> BlockSnapshot" where
  "builder_compacted v s = s\<lparr>bs_compacted := v\<rparr>"

definition builder_excluded :: "bool \<Rightarrow> BlockSnapshot \<Rightarrow> BlockSnapshot" where
  "builder_excluded v s = s\<lparr>bs_excluded := v\<rparr>"

definition builder_content_type :: "ContentType \<Rightarrow> BlockSnapshot \<Rightarrow> BlockSnapshot" where
  "builder_content_type v s = s\<lparr>bs_content_type := v\<rparr>"

definition builder_ephemeral :: "bool \<Rightarrow> BlockSnapshot \<Rightarrow> BlockSnapshot" where
  "builder_ephemeral v s = s\<lparr>bs_ephemeral := v\<rparr>"

definition builder_is_error :: "bool \<Rightarrow> BlockSnapshot \<Rightarrow> BlockSnapshot" where
  "builder_is_error e s =
     (let s' = s\<lparr>bs_is_error := e\<rparr> in if e then s'\<lparr>bs_status := Status.Error\<rparr> else s')"

definition builder_error_payload :: "ErrorPayload \<Rightarrow> BlockSnapshot \<Rightarrow> BlockSnapshot" where
  "builder_error_payload p s =
     s\<lparr>bs_error := Some p, bs_kind := BlockKind.Error, bs_status := Status.Error,
       bs_role := Role.System\<rparr>"

definition builder_notification_payload ::
  "NotificationPayload \<Rightarrow> BlockSnapshot \<Rightarrow> BlockSnapshot" where
  "builder_notification_payload p s =
     s\<lparr>bs_notification := Some p, bs_kind := BlockKind.Notification, bs_role := Role.System\<rparr>"

definition builder_resource_payload :: "ResourcePayload \<Rightarrow> BlockSnapshot \<Rightarrow> BlockSnapshot" where
  "builder_resource_payload p s =
     s\<lparr>bs_resource := Some p, bs_kind := BlockKind.Resource, bs_role := Role.System\<rparr>"

text \<open>
  The named constructors write out all forty fields; every field that a definition below does not
  update has the value it has in \<^const>\<open>builder_new\<close>.
\<close>

definition parent_ok :: "BlockId \<Rightarrow> BlockId option \<Rightarrow> bool" where
  "parent_ok i p \<longleftrightarrow> (case p of None \<Rightarrow> True | Some q \<Rightarrow> context_id q = context_id i)"

definition snapshot_text ::
  "u64 \<Rightarrow> BlockId \<Rightarrow> BlockId option \<Rightarrow> Role \<Rightarrow> string \<Rightarrow> BlockSnapshot option" where
  "snapshot_text now i p r content =
     (if \<not> parent_ok i p then None
      else Some ((builder_new now i BlockKind.Text)
        \<lparr>bs_parent_id := p, bs_role := r, bs_content := content\<rparr>))"

definition snapshot_thinking ::
  "u64 \<Rightarrow> BlockId \<Rightarrow> BlockId option \<Rightarrow> string \<Rightarrow> BlockSnapshot option" where
  "snapshot_thinking now i p content =
     (if \<not> parent_ok i p then None
      else Some ((builder_new now i BlockKind.Thinking)
        \<lparr>bs_parent_id := p, bs_role := Role.Model, bs_content := content\<rparr>))"

definition snapshot_tool_call ::
  "('json \<Rightarrow> string option) \<Rightarrow> u64 \<Rightarrow> BlockId \<Rightarrow> BlockId option \<Rightarrow> ToolKind \<Rightarrow> string \<Rightarrow> 'json
    \<Rightarrow> Role \<Rightarrow> string option \<Rightarrow> BlockSnapshot option" where
  "snapshot_tool_call to_string_pretty now i p tk name input r use_id =
     (if \<not> parent_ok i p then None
      else (let input_json = (case to_string_pretty input of Some j \<Rightarrow> j | None \<Rightarrow> []) in
        Some ((builder_new now i BlockKind.ToolCall)
          \<lparr>bs_parent_id := p, bs_role := r, bs_status := Status.Running, bs_content := input_json,
           bs_tool_kind := Some tk, bs_tool_name := Some name, bs_tool_input := Some input_json,
           bs_tool_use_id := use_id\<rparr>)))"

definition snapshot_tool_result_with_output ::
  "u64 \<Rightarrow> BlockId \<Rightarrow> BlockId \<Rightarrow> ToolKind \<Rightarrow> string \<Rightarrow> bool \<Rightarrow> int option \<Rightarrow> OutputData option
    \<Rightarrow> string option \<Rightarrow> BlockSnapshot option" where
  "snapshot_tool_result_with_output now i call tk content err code out use_id =
     (if context_id call \<noteq> context_id i then None
      else Some ((builder_new now i BlockKind.ToolResult)
        \<lparr>bs_parent_id := Some call, bs_role := Role.Tool,
         bs_status := (if err then Status.Error else Status.Done), bs_content := content,
         bs_tool_kind := Some tk, bs_tool_use_id := use_id, bs_tool_call_id := Some call,
         bs_exit_code := code, bs_is_error := err, bs_output := out\<rparr>))"

definition snapshot_tool_result ::
  "u64 \<Rightarrow> BlockId \<Rightarrow> BlockId \<Rightarrow> ToolKind \<Rightarrow> string \<Rightarrow> bool \<Rightarrow> int option
    \<Rightarrow> string option \<Rightarrow> BlockSnapshot option" where
  "snapshot_tool_result now i call tk content err code use_id =
     (if context_id call \<noteq> context_id i then None
      else Some ((builder_new now i BlockKind.ToolResult)
        \<lparr>bs_parent_id := Some call, bs_role := Role.Tool,
         bs_status := (if err then Status.Error else Status.Done), bs_content := content,
         bs_tool_kind := Some tk, bs_tool_use_id := use_id, bs_tool_call_id := Some call,
         bs_exit_code := code, bs_is_error := err\<rparr>))"

definition snapshot_drift ::
  "u64 \<Rightarrow> BlockId \<Rightarrow> BlockId option \<Rightarrow> string \<Rightarrow> ContextId \<Rightarrow> string option \<Rightarrow> DriftKind
    \<Rightarrow> BlockSnapshot option" where
  "snapshot_drift now i p content src model dk =
     (if \<not> parent_ok i p then None
      else Some ((builder_new now i BlockKind.Drift)
        \<lparr>bs_parent_id := p, bs_role := Role.System, bs_content := content,
         bs_source_context := Some src, bs_source_model := model, bs_drift_kind := Some dk\<rparr>))"

definition snapshot_file ::
  "u64 \<Rightarrow> BlockId \<Rightarrow> BlockId option \<Rightarrow> string \<Rightarrow> string \<Rightarrow> BlockSnapshot option" where
  "snapshot_file now i p path content =
     (if \<not> parent_ok i p then None
      else Some ((builder_new now i BlockKind.File)
        \<lparr>bs_parent_id := p, bs_role := Role.Asset, bs_content := content,
         bs_file_path := Some path\<rparr>))"

definition snapshot_error_for ::
  "u64 \<Rightarrow> BlockId \<Rightarrow> BlockId \<Rightarrow> ErrorPayload \<Rightarrow> string \<Rightarrow> BlockSnapshot option" where
  "snapshot_error_for now i p payload summary =
     (if context_id p \<noteq> context_id i then None
      else Some ((builder_new now i BlockKind.Error)
        \<lparr>bs_parent_id := Some p, bs_role := Role.System, bs_status := Status.Error,
         bs_content := summary, bs_error := Some payload\<rparr>))"

definition snapshot_system_error :: "u64 \<Rightarrow> BlockId \<Rightarrow> ErrorPayload \<Rightarrow> string \<Rightarrow> BlockSnapshot" where
  "snapshot_system_error now i payload summary =
     (builder_new now i BlockKind.Error)
       \<lparr>bs_role := Role.System, bs_status := Status.Error,
        bs_content := summary, bs_error := Some payload\<rparr>"

definition snapshot_resource_block ::
  "u64 \<Rightarrow> BlockId \<Rightarrow> BlockId option \<Rightarrow> ResourcePayload \<Rightarrow> string \<Rightarrow> BlockSnapshot option" where
  "snapshot_resource_block now i p payload summary =
     (if \<not> parent_ok i p then None
      else Some ((builder_new now i BlockKind.Resource)
        \<lparr>bs_parent_id := p, bs_role := Role.System, bs_content := summary,
         bs_resource := Some payload\<rparr>))"

definition snapshot_notification_block ::
  "u64 \<Rightarrow> BlockId \<Rightarrow> BlockId option \<Rightarrow> NotificationPayload \<Rightarrow> string \<Rightarrow> BlockSnapshot option" where
  "snapshot_notification_block now i p payload summary =
     (if \<not> parent_ok i p then None
      else Some ((builder_new now i BlockKind.Notification)
        \<lparr>bs_parent_id := p, bs_role := Role.System, bs_content := summary,
         bs_notification := Some payload\<rparr>))"

section \<open>Text for the model\<close>

definition ERROR_DETAIL_HYDRATION_BUDGET :: nat where
  "ERROR_DETAIL_HYDRATION_BUDGET = 2048"

definition NOTIFICATION_DETAIL_HYDRATION_BUDGET :: nat where
  "NOTIFICATION_DETAIL_HYDRATION_BUDGET = 512"

definition TOOL_CONTENT_HYDRATION_BUDGET :: nat where
  "TOOL_CONTENT_HYDRATION_BUDGET = 4096"

definition RESOURCE_CONTENT_HYDRATION_BUDGET :: nat where
  "RESOURCE_CONTENT_HYDRATION_BUDGET = 2048"

definition newline :: string where
  "newline = [CHR 0x0A]"

definition truncated_mark :: string where
  "truncated_mark = newline @ ''...[truncated]''"

text \<open>The truncation that all four formatters write out.\<close>

definition truncate_body :: "nat \<Rightarrow> string \<Rightarrow> string" where
  "truncate_body budget s =
     (if budget < char_count s then take_chars budget s @ truncated_mark else s)"

definition quoted :: "string \<Rightarrow> string" where
  "quoted s = [CHR 0x22] @ s @ [CHR 0x22]"

definition opt_attr :: "string \<Rightarrow> string option \<Rightarrow> string" where
  "opt_attr name v = (case v of None \<Rightarrow> [] | Some s \<Rightarrow> '' '' @ name @ ''='' @ quoted s)"

definition error_attrs :: "ErrorPayload \<Rightarrow> string" where
  "error_attrs p =
     ''category='' @ quoted (ErrorCategory_as_str (ep_category p))
     @ '' severity='' @ quoted (ErrorSeverity_as_str (ep_severity p))
     @ opt_attr ''code'' (ep_code p)
     @ (case ep_span p of
          None \<Rightarrow> []
        | Some sp \<Rightarrow> '' line='' @ quoted (show_nat (es_line sp))
            @ '' column='' @ quoted (show_nat (es_column sp)))"

definition error_body :: "BlockSnapshot \<Rightarrow> ErrorPayload \<Rightarrow> string" where
  "error_body s p =
     (case ep_detail p of
        Some d \<Rightarrow> truncate_body ERROR_DETAIL_HYDRATION_BUDGET d
      | None \<Rightarrow> bs_content s)"

definition format_error_for_llm :: "BlockSnapshot \<Rightarrow> string" where
  "format_error_for_llm s =
     (case bs_error s of
        None \<Rightarrow> bs_content s
      | Some p \<Rightarrow>
          ''<error '' @ error_attrs p @ ''>'' @ newline @ error_body s p @ newline @ ''</error>'')"

definition notification_attrs :: "NotificationPayload \<Rightarrow> string" where
  "notification_attrs p =
     ''instance='' @ quoted (np_instance p)
     @ '' kind='' @ quoted (NotificationKind_as_str (np_kind p))
     @ opt_attr ''level'' (map_option LogLevel_as_str (np_level p))
     @ opt_attr ''tools'' (if np_tools p \<noteq> [] then Some (join '','' (np_tools p)) else None)
     @ opt_attr ''count'' (map_option show_nat (np_count p))"

definition notification_body :: "BlockSnapshot \<Rightarrow> NotificationPayload \<Rightarrow> string" where
  "notification_body s p =
     (case np_detail p of
        Some d \<Rightarrow> truncate_body NOTIFICATION_DETAIL_HYDRATION_BUDGET d
      | None \<Rightarrow> bs_content s)"

definition format_notification_for_llm :: "BlockSnapshot \<Rightarrow> string" where
  "format_notification_for_llm s =
     (case bs_notification s of
        None \<Rightarrow> bs_content s
      | Some p \<Rightarrow>
          ''<notification '' @ notification_attrs p @ ''>'' @ newline @ notification_body s p
          @ newline @ ''</notification>'')"

definition format_tool_content_for_llm :: "uuid_lib \<Rightarrow> BlockSnapshot \<Rightarrow> string" where
  "format_tool_content_for_llm U s =
     ''<tool_output content_type='' @ quoted (as_mime (bs_content_type s))
     @ '' block='' @ quoted (to_key U (bs_id s)) @ ''>'' @ newline
     @ truncate_body TOOL_CONTENT_HYDRATION_BUDGET (bs_content s)
     @ newline @ ''</tool_output>''"

definition usize_max :: nat where
  "usize_max = 2 ^ 64 - 1"

definition resource_body :: "BlockSnapshot \<Rightarrow> ResourcePayload \<Rightarrow> string" where
  "resource_body s p =
     (case rp_text p of
        Some t \<Rightarrow> truncate_body RESOURCE_CONTENT_HYDRATION_BUDGET t
      | None \<Rightarrow>
          (case rp_blob_base64 p of
             Some blob \<Rightarrow>
               ''[binary: '' @ show_nat (min (length blob * 3) usize_max div 4) @ '' bytes]''
           | None \<Rightarrow> bs_content s))"

definition format_resource_for_llm :: "BlockSnapshot \<Rightarrow> string" where
  "format_resource_for_llm s =
     (case bs_resource s of
        None \<Rightarrow> bs_content s
      | Some p \<Rightarrow>
          ''<resource instance='' @ quoted (rp_instance p) @ '' uri='' @ quoted (rp_uri p)
          @ opt_attr ''mime'' (rp_mime_type p) @ ''>'' @ newline @ resource_body s p
          @ newline @ ''</resource>'')"

section \<open>Filters\<close>

record BlockFilter =
  bf_kinds :: "BlockKind list"
  bf_roles :: "Role list"
  bf_statuses :: "Status list"
  bf_exclude_compacted :: bool
  bf_limit :: nat
  bf_max_depth :: nat
  bf_parent_id :: "BlockId option"

definition has_active_constraint :: "BlockFilter \<Rightarrow> bool" where
  "has_active_constraint f \<longleftrightarrow>
     bf_kinds f \<noteq> [] \<or> bf_roles f \<noteq> [] \<or> bf_statuses f \<noteq> [] \<or> bf_exclude_compacted f
     \<or> 0 < bf_limit f \<or> 0 < bf_max_depth f \<or> bf_parent_id f \<noteq> None"

text \<open>\<open>validate\<close>: the single error message is the unit of the sum.\<close>

definition filter_validate :: "BlockFilter \<Rightarrow> unit + unit" where
  "filter_validate f = (if \<not> has_active_constraint f then Inl () else Inr ())"

definition filter_matches :: "BlockFilter \<Rightarrow> BlockSnapshot \<Rightarrow> bool" where
  "filter_matches f s =
     (if bf_kinds f \<noteq> [] \<and> bs_kind s \<notin> set (bf_kinds f) then False
      else if bf_roles f \<noteq> [] \<and> bs_role s \<notin> set (bf_roles f) then False
      else if bf_statuses f \<noteq> [] \<and> bs_status s \<notin> set (bf_statuses f) then False
      else if bf_exclude_compacted f \<and> bs_compacted s then False
      else True)"

datatype BlockFlowKind =
  Inserted | TextOps | Deleted | StatusChanged | CollapsedChanged | ExcludedChanged | Moved
  | SyncReset | OutputChanged | MetadataChanged | ContextSwitched | RenderCue | BeatSync

datatype BlockQuery = All | ByIds "BlockId list" | ByFilter BlockFilter

record BlockEventFilter =
  ef_context_ids :: "ContextId list"
  ef_event_types :: "BlockFlowKind list"
  ef_block_kinds :: "BlockKind list"

definition event_filter_active :: "BlockEventFilter \<Rightarrow> bool" where
  "event_filter_active f \<longleftrightarrow>
     ef_context_ids f \<noteq> [] \<or> ef_event_types f \<noteq> [] \<or> ef_block_kinds f \<noteq> []"

section \<open>Facts\<close>

lemma max_field_ts_le_iff:
  "max_field_ts h \<le> b \<longleftrightarrow>
     bh_status_at h \<le> b \<and> bh_collapsed_at h \<le> b \<and> bh_ephemeral_at h \<le> b \<and> bh_excluded_at h \<le> b
     \<and> bh_compacted_at h \<le> b \<and> bh_tool_meta_at h \<le> b \<and> bh_content_type_at h \<le> b"
  by (auto simp: max_field_ts_def)

lemma max_field_ts_ge:
  "bh_status_at h \<le> max_field_ts h" "bh_collapsed_at h \<le> max_field_ts h"
  "bh_ephemeral_at h \<le> max_field_ts h" "bh_excluded_at h \<le> max_field_ts h"
  "bh_compacted_at h \<le> max_field_ts h" "bh_tool_meta_at h \<le> max_field_ts h"
  "bh_content_type_at h \<le> max_field_ts h"
  using max_field_ts_le_iff [of h "max_field_ts h"] by simp_all

text \<open>\<open>content_eq\<close> also disregards the exclusion flag, the error stream and the tick.\<close>

lemma content_eq_disregards:
  "content_eq s (s\<lparr>bs_created_at := c, bs_excluded := e, bs_stderr := x, bs_tick := t\<rparr>)"
  by (simp add: content_eq_def)

lemma char_count_Cons [simp]:
  "char_count (c # s) = (if is_continuation c then char_count s else Suc (char_count s))"
  by (simp add: char_count_def)

lemma char_count_Nil [simp]: "char_count [] = 0"
  by (simp add: char_count_def)

lemma char_count_truncate_body: "char_count (truncate_body n s) \<le> n + 15"
  by (simp add: truncate_body_def truncated_mark_def newline_def char_count_take_chars)

lemma truncate_body_short: "char_count s \<le> n \<Longrightarrow> truncate_body n s = s"
  by (simp add: truncate_body_def)

text \<open>What the comments on the fields of \<open>BlockSnapshot\<close> promise of a fresh snapshot.\<close>

definition fresh_snapshot :: "BlockSnapshot \<Rightarrow> bool" where
  "fresh_snapshot s \<longleftrightarrow>
     parent_ok (bs_id s) (bs_parent_id s)
     \<and> (bs_error s \<noteq> None \<longleftrightarrow> bs_kind s = BlockKind.Error)
     \<and> (bs_notification s \<noteq> None \<longleftrightarrow> bs_kind s = BlockKind.Notification)
     \<and> (bs_resource s \<noteq> None \<longleftrightarrow> bs_kind s = BlockKind.Resource)
     \<and> (bs_tool_kind s \<noteq> None \<longleftrightarrow> is_tool (bs_kind s))
     \<and> (bs_tool_call_id s \<noteq> None \<longleftrightarrow> bs_kind s = BlockKind.ToolResult)
     \<and> (bs_drift_kind s \<noteq> None \<longleftrightarrow> bs_kind s = BlockKind.Drift)
     \<and> (bs_file_path s \<noteq> None \<longleftrightarrow> bs_kind s = BlockKind.File)
     \<and> (bs_is_error s \<longrightarrow> bs_status s = Status.Error)
     \<and> (bs_status s = Status.Running \<longleftrightarrow> bs_kind s = BlockKind.ToolCall)
     \<and> \<not> bs_collapsed s \<and> \<not> bs_compacted s \<and> \<not> bs_ephemeral s \<and> \<not> bs_excluded s
     \<and> bs_order_key s = None \<and> bs_tick s = None \<and> bs_track s = None
     \<and> max_field_ts (header_from_snapshot s) = 0 \<and> bs_updated_at s = 0"

definition constructs :: "BlockId \<Rightarrow> BlockId option \<Rightarrow> BlockSnapshot option \<Rightarrow> bool" where
  "constructs i p r \<longleftrightarrow>
     (case r of
        None \<Rightarrow> \<not> parent_ok i p
      | Some s \<Rightarrow> parent_ok i p \<and> fresh_snapshot s \<and> bs_id s = i \<and> bs_parent_id s = p)"

lemma builder_new_ts: "max_field_ts (header_from_snapshot (builder_new now i k)) = 0"
  by (simp add: max_field_ts_def header_from_snapshot_def builder_new_def)

lemma tool_content_bounded:
  "char_count (format_tool_content_for_llm U s)
   \<le> TOOL_CONTENT_HYDRATION_BUDGET + 15 + 56
      + char_count (as_mime (bs_content_type s)) + char_count (to_key U (bs_id s))"
  using char_count_truncate_body [of TOOL_CONTENT_HYDRATION_BUDGET "bs_content s"]
  by (simp add: format_tool_content_for_llm_def quoted_def newline_def is_continuation_def)

lemma error_bounded:
  "\<lbrakk>bs_error s = Some ep; ep_detail ep \<noteq> None\<rbrakk> \<Longrightarrow>
   char_count (format_error_for_llm s)
   \<le> ERROR_DETAIL_HYDRATION_BUDGET + 15 + 18 + char_count (error_attrs ep)"
  using char_count_truncate_body [of ERROR_DETAIL_HYDRATION_BUDGET "the (ep_detail ep)"]
  by (auto simp: format_error_for_llm_def error_body_def newline_def is_continuation_def)

lemma notification_bounded:
  "\<lbrakk>bs_notification s = Some np; np_detail np \<noteq> None\<rbrakk> \<Longrightarrow>
   char_count (format_notification_for_llm s)
   \<le> NOTIFICATION_DETAIL_HYDRATION_BUDGET + 15 + 32 + char_count (notification_attrs np)"
  using char_count_truncate_body [of NOTIFICATION_DETAIL_HYDRATION_BUDGET "the (np_detail np)"]
  by (auto simp: format_notification_for_llm_def notification_body_def newline_def
      is_continuation_def)

lemma resource_bounded:
  "\<lbrakk>bs_resource s = Some rp; rp_text rp \<noteq> None\<rbrakk> \<Longrightarrow>
   char_count (resource_body s rp) \<le> RESOURCE_CONTENT_HYDRATION_BUDGET + 15"
  using char_count_truncate_body [of RESOURCE_CONTENT_HYDRATION_BUDGET "the (rp_text rp)"]
  by (auto simp: resource_body_def)

section \<open>Properties\<close>

text \<open>
  Every named constructor panics exactly when the parent belongs to another context, and
  otherwise builds a snapshot with the given identity whose mechanism fields are present exactly
  for the kinds they belong to, whose error flag agrees with its status, and whose
  replication timestamps are zero.
\<close>

theorem constructors_fresh:
  "constructs i p (snapshot_text now i p r c)
   \<and> constructs i p (snapshot_thinking now i p c)
   \<and> constructs i p (snapshot_tool_call js now i p tk nm inp r u)
   \<and> constructs i (Some q) (snapshot_tool_result now i q tk c err code u)
   \<and> constructs i (Some q) (snapshot_tool_result_with_output now i q tk c err code out u)
   \<and> constructs i p (snapshot_drift now i p c src m dk)
   \<and> constructs i p (snapshot_file now i p path c)
   \<and> constructs i (Some q) (snapshot_error_for now i q ep c)
   \<and> constructs i None (Some (snapshot_system_error now i ep c))
   \<and> constructs i p (snapshot_resource_block now i p rp c)
   \<and> constructs i p (snapshot_notification_block now i p np c)"
  by (simp add: constructs_def fresh_snapshot_def parent_ok_def is_tool_def max_field_ts_def
      header_from_snapshot_def builder_new_def Let_def
      snapshot_text_def snapshot_thinking_def snapshot_tool_call_def snapshot_tool_result_def
      snapshot_tool_result_with_output_def snapshot_drift_def snapshot_file_def
      snapshot_error_for_def snapshot_system_error_def snapshot_resource_block_def
      snapshot_notification_block_def split: option.split)

text \<open>
  What a block contributes to a prompt is bounded.  The tool-output envelope always holds at
  most the budget of its content; the error, notification and resource envelopes hold at most the
  budget of the payload's text whenever the payload has one.  Fifteen characters are the
  truncation mark.
\<close>

theorem hydration_bounded:
  "char_count (format_tool_content_for_llm U s)
      \<le> TOOL_CONTENT_HYDRATION_BUDGET + 15 + 56
         + char_count (as_mime (bs_content_type s)) + char_count (to_key U (bs_id s))
   \<and> (bs_error s = Some ep \<and> ep_detail ep \<noteq> None \<longrightarrow>
      char_count (format_error_for_llm s)
      \<le> ERROR_DETAIL_HYDRATION_BUDGET + 15 + 18 + char_count (error_attrs ep))
   \<and> (bs_notification s = Some np \<and> np_detail np \<noteq> None \<longrightarrow>
      char_count (format_notification_for_llm s)
      \<le> NOTIFICATION_DETAIL_HYDRATION_BUDGET + 15 + 32 + char_count (notification_attrs np))
   \<and> (bs_resource s = Some rp \<and> rp_text rp \<noteq> None \<longrightarrow>
      char_count (resource_body s rp) \<le> RESOURCE_CONTENT_HYDRATION_BUDGET + 15)"
  using tool_content_bounded error_bounded notification_bounded resource_bounded by blast

theorem hydration_bounded_witness:
  "char_count (format_error_for_llm (snapshot_system_error 0 (BlockId 1 2 3)
      \<lparr>ep_category = ErrorCategory.Rpc, ep_severity = ErrorSeverity.Error, ep_code = None,
       ep_detail = Some ''lost'', ep_span = None, ep_source_kind = None\<rparr> ''x''))
   \<le> 2081 + char_count (error_attrs
      \<lparr>ep_category = ErrorCategory.Rpc, ep_severity = ErrorSeverity.Error, ep_code = None,
       ep_detail = Some ''lost'', ep_span = None, ep_source_kind = None\<rparr>)"
  using hydration_bounded [where s = "snapshot_system_error 0 (BlockId 1 2 3)
      \<lparr>ep_category = ErrorCategory.Rpc, ep_severity = ErrorSeverity.Error, ep_code = None,
       ep_detail = Some ''lost'', ep_span = None, ep_source_kind = None\<rparr> ''x''"
     and ep = "\<lparr>ep_category = ErrorCategory.Rpc, ep_severity = ErrorSeverity.Error, ep_code = None,
       ep_detail = Some ''lost'', ep_span = None, ep_source_kind = None\<rparr>"]
  by (simp add: snapshot_system_error_def ERROR_DETAIL_HYDRATION_BUDGET_def)

end
