(* ===== verification/Block_Content.thy ===== *)
theory Block_Content
  imports Blocks "HOL-Library.Product_Lexorder"
begin

text \<open>
  One replicated block, \<open>crates/kaijutsu-crdt/src/content.rs\<close> from \<open>BlockContent\<close> on, and the
  error type of \<open>error.rs\<close>.

  A block is a header with per-field last-writer-wins timestamps, write-once metadata, and a text
  document of its own.  The text document is the third-party crate \<open>diamond_types_extended\<close>; it
  is the parameter \<open>dte\<close>, a record of the operations that the code calls, and \<open>dte_ok\<close> states
  what the code relies on: text edits act on the character sequence, and the full history of a
  document merges into a fresh one and reproduces the text.

  Shown here: merging remote headers converges whatever the order and the multiplicity of
  delivery, provided the tool cluster is not written twice with the same timestamp and the same
  kind, and that this proviso is needed; the mirrored flags never drift apart from the header; a
  snapshot survives a restore, and a restore from the saved history too; text edits do what they
  say.
\<close>

section \<open>Errors\<close>

datatype CrdtError =
    BlockNotFound BlockId
  | UnsupportedOperation BlockId
  | PositionOutOfBounds usize usize
  | InvalidReference BlockId
  | DuplicateBlock BlockId
  | Serialization string
  | Internal string
  | SchemaCorruption string

section \<open>The text document\<close>

type_synonym AgentId = nat

datatype MergeOutcome = Merged | Rejected string | Panicked

text \<open>
  \<open>create_text\<close>, \<open>text_insert\<close> and \<open>text_delete\<close> are the operations of a transaction on the
  text at the path \<open>content\<close>, the only path the code uses; \<open>text_delete d a pos n\<close> deletes the
  range \<open>pos..pos + n\<close>.
\<close>

record ('d, 'o, 'f) dte =
  document_new :: 'd
  create_agent :: "'d \<Rightarrow> uuid \<Rightarrow> 'd \<times> AgentId"
  create_text :: "'d \<Rightarrow> AgentId \<Rightarrow> 'd"
  get_text :: "'d \<Rightarrow> string option"
  text_insert :: "'d \<Rightarrow> AgentId \<Rightarrow> usize \<Rightarrow> string \<Rightarrow> 'd"
  text_delete :: "'d \<Rightarrow> AgentId \<Rightarrow> usize \<Rightarrow> usize \<Rightarrow> 'd"
  ops_since_owned :: "'d \<Rightarrow> 'f \<Rightarrow> 'o"
  frontier_root :: 'f
  ops_is_empty :: "'o \<Rightarrow> bool"
  doc_merge_ops :: "'d \<Rightarrow> 'o \<Rightarrow> 'd \<times> MergeOutcome"
  doc_version :: "'d \<Rightarrow> 'f"

definition drop_chars :: "nat \<Rightarrow> string \<Rightarrow> string" where
  "drop_chars n s = drop (length (take_chars n s)) s"

definition dte_ok :: "('d, 'o, 'f) dte \<Rightarrow> bool" where
  "dte_ok D \<longleftrightarrow>
     get_text D (document_new D) = None
     \<and> (\<forall>d u. get_text D (fst (create_agent D d u)) = get_text D d)
     \<and> (\<forall>d a. get_text D d = None \<longrightarrow> get_text D (create_text D d a) = Some [])
     \<and> (\<forall>d a t pos s. get_text D d = Some t \<and> pos \<le> char_count t \<longrightarrow>
          get_text D (text_insert D d a pos s) = Some (take_chars pos t @ s @ drop_chars pos t))
     \<and> (\<forall>d a t pos n. get_text D d = Some t \<and> pos + n \<le> char_count t \<longrightarrow>
          get_text D (text_delete D d a pos n) = Some (take_chars pos t @ drop_chars (pos + n) t))
     \<and> (\<forall>d u. let r = doc_merge_ops D (fst (create_agent D (document_new D) u))
                        (ops_since_owned D d (frontier_root D))
          in snd r = Merged \<and> get_text D (fst r) = get_text D d)"

section \<open>Blocks\<close>

record 'd BlockContent =
  bc_header :: BlockHeader
  bc_doc :: 'd
  bc_agent :: AgentId
  bc_order_key :: string
  bc_tick :: "Tick option"
  bc_track :: "TrackId option"
  bc_tool_name :: "string option"
  bc_tool_input :: "string option"
  bc_tool_call_id :: "BlockId option"
  bc_tool_use_id :: "string option"
  bc_output :: "OutputData option"
  bc_stderr :: "string option"
  bc_signature :: "string option"
  bc_source_context :: "ContextId option"
  bc_source_model :: "string option"
  bc_drift_kind :: "DriftKind option"
  bc_file_path :: "string option"
  bc_collapsed :: bool
  bc_ephemeral :: bool
  bc_excluded :: bool
  bc_error :: "ErrorPayload option"
  bc_notification :: "NotificationPayload option"
  bc_resource :: "ResourcePayload option"
  bc_deleted :: bool

text \<open>A fresh document with the agent of this replica.\<close>

definition fresh_document :: "('d, 'o, 'f) dte \<Rightarrow> PrincipalId \<Rightarrow> 'd \<times> AgentId" where
  "fresh_document D p = create_agent D (document_new D) p"

definition content_new ::
  "('d, 'o, 'f) dte \<Rightarrow> BlockHeader \<Rightarrow> PrincipalId \<Rightarrow> string \<Rightarrow> 'd BlockContent" where
  "content_new D header p key =
     (let (doc, agent) = fresh_document D p;
          doc = create_text D doc agent
      in \<lparr>bc_header = header, bc_doc = doc, bc_agent = agent, bc_order_key = key,
          bc_tick = None, bc_track = None, bc_tool_name = None, bc_tool_input = None,
          bc_tool_call_id = None, bc_tool_use_id = None, bc_output = None, bc_stderr = None,
          bc_signature = None, bc_source_context = None, bc_source_model = None,
          bc_drift_kind = None, bc_file_path = None, bc_collapsed = False, bc_ephemeral = False,
          bc_excluded = False, bc_error = None, bc_notification = None, bc_resource = None,
          bc_deleted = False\<rparr>)"

definition with_content ::
  "('d, 'o, 'f) dte \<Rightarrow> BlockHeader \<Rightarrow> string \<Rightarrow> PrincipalId \<Rightarrow> string \<Rightarrow> Tick option
    \<Rightarrow> 'd BlockContent" where
  "with_content D header content p key t =
     (let block = (content_new D header p key)\<lparr>bc_tick := t\<rparr>
      in if content \<noteq> [] then
           (if get_text D (bc_doc block) \<noteq> None then
              block\<lparr>bc_doc := text_insert D (bc_doc block) (bc_agent block) 0 content\<rparr>
            else block)
         else block)"

definition content_from_snapshot ::
  "('d, 'o, 'f) dte \<Rightarrow> BlockSnapshot \<Rightarrow> PrincipalId \<Rightarrow> string \<Rightarrow> 'd BlockContent" where
  "content_from_snapshot D snap p fallback =
     (let header = header_from_snapshot snap;
          key = (case bs_order_key snap of Some k \<Rightarrow> k | None \<Rightarrow> fallback)
      in (with_content D header (bs_content snap) p key (bs_tick snap))
           \<lparr>bc_track := bs_track snap, bc_tool_name := bs_tool_name snap, bc_tool_input := bs_tool_input snap,
            bc_tool_call_id := bs_tool_call_id snap, bc_tool_use_id := bs_tool_use_id snap, bc_output := bs_output snap,
            bc_stderr := bs_stderr snap, bc_signature := bs_signature snap, bc_source_context := bs_source_context snap,
            bc_source_model := bs_source_model snap, bc_drift_kind := bs_drift_kind snap, bc_file_path := bs_file_path snap,
            bc_error := bs_error snap, bc_notification := bs_notification snap, bc_resource := bs_resource snap,
            bc_collapsed := bs_collapsed snap, bc_ephemeral := bs_ephemeral snap, bc_excluded := bs_excluded snap\<rparr>)"

definition content_from_snapshot_for_sync ::
  "('d, 'o, 'f) dte \<Rightarrow> BlockSnapshot \<Rightarrow> PrincipalId \<Rightarrow> string \<Rightarrow> 'd BlockContent" where
  "content_from_snapshot_for_sync D snap p fallback =
     (let header = header_from_snapshot snap;
          key = (case bs_order_key snap of Some k \<Rightarrow> k | None \<Rightarrow> fallback);
          (doc, agent) = fresh_document D p
      in \<lparr>bc_header = header, bc_doc = doc, bc_agent = agent, bc_order_key = key,
          bc_tick = bs_tick snap, bc_track = bs_track snap, bc_tool_name = bs_tool_name snap, bc_tool_input = bs_tool_input snap,
          bc_tool_call_id = bs_tool_call_id snap, bc_tool_use_id = bs_tool_use_id snap, bc_output = bs_output snap,
          bc_stderr = bs_stderr snap, bc_signature = bs_signature snap, bc_source_context = bs_source_context snap,
          bc_source_model = bs_source_model snap, bc_drift_kind = bs_drift_kind snap, bc_file_path = bs_file_path snap,
          bc_collapsed = bs_collapsed snap, bc_ephemeral = bs_ephemeral snap, bc_excluded = bs_excluded snap,
          bc_error = bs_error snap, bc_notification = bs_notification snap, bc_resource = bs_resource snap,
          bc_deleted = False\<rparr>)"

subsection \<open>Text\<close>

definition content_text :: "('d, 'o, 'f) dte \<Rightarrow> 'd BlockContent \<Rightarrow> string" where
  "content_text D b = (case get_text D (bc_doc b) of Some t \<Rightarrow> t | None \<Rightarrow> [])"

definition content_edit_text ::
  "('d, 'o, 'f) dte \<Rightarrow> usize \<Rightarrow> string \<Rightarrow> usize \<Rightarrow> 'd BlockContent \<Rightarrow> 'd BlockContent" where
  "content_edit_text D pos ins del b =
     (if get_text D (bc_doc b) = None then b
      else
        (let doc = (if 0 < del then text_delete D (bc_doc b) (bc_agent b) pos del else bc_doc b);
             doc = (if ins \<noteq> [] then text_insert D doc (bc_agent b) pos ins else doc)
         in b\<lparr>bc_doc := doc\<rparr>))"

definition content_append_text ::
  "('d, 'o, 'f) dte \<Rightarrow> string \<Rightarrow> 'd BlockContent \<Rightarrow> 'd BlockContent" where
  "content_append_text D s b = content_edit_text D (char_count (content_text D b)) s 0 b"

definition content_len :: "('d, 'o, 'f) dte \<Rightarrow> 'd BlockContent \<Rightarrow> usize" where
  "content_len D b = char_count (content_text D b)"

subsection \<open>Metadata\<close>

definition bump_updated_at :: "BlockHeader \<Rightarrow> BlockHeader" where
  "bump_updated_at h = h\<lparr>bh_updated_at := max_field_ts h\<rparr>"

definition set_order_key :: "string \<Rightarrow> 'd BlockContent \<Rightarrow> 'd BlockContent" where
  "set_order_key key b = b\<lparr>bc_order_key := key\<rparr>"

definition set_tick :: "Tick \<Rightarrow> 'd BlockContent \<Rightarrow> 'd BlockContent" where
  "set_tick t b = b\<lparr>bc_tick := Some t\<rparr>"

definition content_set_status :: "Status \<Rightarrow> u64 \<Rightarrow> 'd BlockContent \<Rightarrow> 'd BlockContent" where
  "content_set_status v ts b =
     b\<lparr>bc_header := bump_updated_at ((bc_header b)\<lparr>bh_status := v, bh_status_at := ts\<rparr>)\<rparr>"

definition content_set_collapsed :: "bool \<Rightarrow> u64 \<Rightarrow> 'd BlockContent \<Rightarrow> 'd BlockContent" where
  "content_set_collapsed v ts b =
     b\<lparr>bc_collapsed := v,
       bc_header := bump_updated_at ((bc_header b)\<lparr>bh_collapsed := v, bh_collapsed_at := ts\<rparr>)\<rparr>"

definition mark_deleted :: "u64 \<Rightarrow> 'd BlockContent \<Rightarrow> 'd BlockContent" where
  "mark_deleted ts b =
     b\<lparr>bc_deleted := True, bc_header := (bc_header b)\<lparr>bh_updated_at := ts\<rparr>\<rparr>"

definition set_tool_name :: "string option \<Rightarrow> 'd BlockContent \<Rightarrow> 'd BlockContent" where
  "set_tool_name v b = b\<lparr>bc_tool_name := v\<rparr>"

definition set_tool_input :: "string option \<Rightarrow> 'd BlockContent \<Rightarrow> 'd BlockContent" where
  "set_tool_input v b = b\<lparr>bc_tool_input := v\<rparr>"

definition set_tool_call_id :: "BlockId option \<Rightarrow> 'd BlockContent \<Rightarrow> 'd BlockContent" where
  "set_tool_call_id v b = b\<lparr>bc_tool_call_id := v\<rparr>"

definition content_set_output :: "OutputData option \<Rightarrow> 'd BlockContent \<Rightarrow> 'd BlockContent" where
  "content_set_output v b = b\<lparr>bc_output := v\<rparr>"

definition content_set_stderr :: "string option \<Rightarrow> 'd BlockContent \<Rightarrow> 'd BlockContent" where
  "content_set_stderr v b = b\<lparr>bc_stderr := v\<rparr>"

definition content_set_signature :: "string option \<Rightarrow> 'd BlockContent \<Rightarrow> 'd BlockContent" where
  "content_set_signature v b = b\<lparr>bc_signature := v\<rparr>"

definition set_file_path :: "string option \<Rightarrow> 'd BlockContent \<Rightarrow> 'd BlockContent" where
  "set_file_path v b = b\<lparr>bc_file_path := v\<rparr>"

definition content_set_tool_use_id :: "string option \<Rightarrow> 'd BlockContent \<Rightarrow> 'd BlockContent" where
  "content_set_tool_use_id v b = b\<lparr>bc_tool_use_id := v\<rparr>"

definition content_set_content_type ::
  "ContentType \<Rightarrow> u64 \<Rightarrow> 'd BlockContent \<Rightarrow> 'd BlockContent" where
  "content_set_content_type v ts b =
     b\<lparr>bc_header := bump_updated_at
         ((bc_header b)\<lparr>bh_content_type := v, bh_content_type_at := ts\<rparr>)\<rparr>"

definition content_set_ephemeral :: "bool \<Rightarrow> u64 \<Rightarrow> 'd BlockContent \<Rightarrow> 'd BlockContent" where
  "content_set_ephemeral v ts b =
     b\<lparr>bc_ephemeral := v,
       bc_header := bump_updated_at ((bc_header b)\<lparr>bh_ephemeral := v, bh_ephemeral_at := ts\<rparr>)\<rparr>"

definition content_set_excluded :: "bool \<Rightarrow> u64 \<Rightarrow> 'd BlockContent \<Rightarrow> 'd BlockContent" where
  "content_set_excluded v ts b =
     b\<lparr>bc_excluded := v,
       bc_header := bump_updated_at ((bc_header b)\<lparr>bh_excluded := v, bh_excluded_at := ts\<rparr>)\<rparr>"

definition content_set_compacted :: "bool \<Rightarrow> u64 \<Rightarrow> 'd BlockContent \<Rightarrow> 'd BlockContent" where
  "content_set_compacted v ts b =
     b\<lparr>bc_header := bump_updated_at ((bc_header b)\<lparr>bh_compacted := v, bh_compacted_at := ts\<rparr>)\<rparr>"

definition content_set_exit_code :: "int option \<Rightarrow> u64 \<Rightarrow> 'd BlockContent \<Rightarrow> 'd BlockContent" where
  "content_set_exit_code v ts b =
     b\<lparr>bc_header := bump_updated_at ((bc_header b)\<lparr>bh_exit_code := v, bh_tool_meta_at := ts\<rparr>)\<rparr>"

subsection \<open>Sync\<close>

definition content_ops_since :: "('d, 'o, 'f) dte \<Rightarrow> 'd BlockContent \<Rightarrow> 'f \<Rightarrow> 'o" where
  "content_ops_since D b f = ops_since_owned D (bc_doc b) f"

definition root_ops :: "('d, 'o, 'f) dte \<Rightarrow> 'd BlockContent \<Rightarrow> 'o" where
  "root_ops D b = ops_since_owned D (bc_doc b) (frontier_root D)"

definition content_merge_ops ::
  "('d, 'o, 'f) dte \<Rightarrow> 'o \<Rightarrow> 'd BlockContent \<Rightarrow> 'd BlockContent \<times> (CrdtError + unit)" where
  "content_merge_ops D ops b =
     (let (doc, r) = doc_merge_ops D (bc_doc b) ops
      in (b\<lparr>bc_doc := doc\<rparr>,
          case r of
            Merged \<Rightarrow> Inr ()
          | Rejected e \<Rightarrow> Inl (Internal (''block merge error: '' @ e))
          | Panicked \<Rightarrow> Inl (Internal ''block CRDT merge panicked'')))"

definition content_frontier :: "('d, 'o, 'f) dte \<Rightarrow> 'd BlockContent \<Rightarrow> 'f" where
  "content_frontier D b = doc_version D (bc_doc b)"

definition content_snapshot :: "('d, 'o, 'f) dte \<Rightarrow> 'd BlockContent \<Rightarrow> BlockSnapshot" where
  "content_snapshot D b =
     (let h = bc_header b in
     \<lparr>bs_id = bh_id h, bs_parent_id = bh_parent_id h, bs_role = bh_role h,
      bs_status = bh_status h, bs_kind = bh_kind h, bs_content = content_text D b,
      bs_collapsed = bc_collapsed b, bs_compacted = bh_compacted h, bs_ephemeral = bc_ephemeral b,
      bs_excluded = bc_excluded b, bs_created_at = bh_created_at h, bs_tool_kind = bh_tool_kind h,
      bs_tool_name = bc_tool_name b, bs_tool_input = bc_tool_input b, bs_tool_use_id = bc_tool_use_id b,
      bs_tool_call_id = bc_tool_call_id b, bs_exit_code = bh_exit_code h, bs_is_error = bh_is_error h,
      bs_stderr = bc_stderr b, bs_signature = bc_signature b, bs_output = bc_output b,
      bs_source_context = bc_source_context b, bs_source_model = bc_source_model b, bs_drift_kind = bc_drift_kind b,
      bs_file_path = bc_file_path b, bs_error = bc_error b, bs_notification = bc_notification b,
      bs_resource = bc_resource b, bs_content_type = bh_content_type h, bs_order_key = Some (bc_order_key b),
      bs_tick = bc_tick b, bs_track = bc_track b, bs_updated_at = bh_updated_at h,
      bs_status_at = bh_status_at h, bs_collapsed_at = bh_collapsed_at h, bs_ephemeral_at = bh_ephemeral_at h,
      bs_excluded_at = bh_excluded_at h, bs_compacted_at = bh_compacted_at h, bs_tool_meta_at = bh_tool_meta_at h,
      bs_content_type_at = bh_content_type_at h\<rparr>)"

definition field_wins :: "u64 \<Rightarrow> u64 \<Rightarrow> 'a::linorder \<Rightarrow> 'a \<Rightarrow> bool" where
  "field_wins remote_ts local_ts remote_val local_val \<longleftrightarrow>
     local_ts < remote_ts \<or> remote_ts = local_ts \<and> local_val < remote_val"

text \<open>The seven conditional assignments of \<open>merge_header\<close>, in order, then the aggregate.\<close>

definition merge_status :: "BlockHeader \<Rightarrow> 'd BlockContent \<Rightarrow> 'd BlockContent" where
  "merge_status r b =
     (if field_wins (bh_status_at r) (bh_status_at (bc_header b)) (bh_status r) (bh_status (bc_header b))
      then b\<lparr>bc_header := (bc_header b)\<lparr>bh_status := bh_status r, bh_status_at := bh_status_at r\<rparr>\<rparr>
      else b)"

definition merge_collapsed :: "BlockHeader \<Rightarrow> 'd BlockContent \<Rightarrow> 'd BlockContent" where
  "merge_collapsed r b =
     (if field_wins (bh_collapsed_at r) (bh_collapsed_at (bc_header b))
           (bh_collapsed r) (bh_collapsed (bc_header b))
      then b\<lparr>bc_collapsed := bh_collapsed r,
             bc_header := (bc_header b)
               \<lparr>bh_collapsed := bh_collapsed r, bh_collapsed_at := bh_collapsed_at r\<rparr>\<rparr>
      else b)"

definition merge_ephemeral :: "BlockHeader \<Rightarrow> 'd BlockContent \<Rightarrow> 'd BlockContent" where
  "merge_ephemeral r b =
     (if field_wins (bh_ephemeral_at r) (bh_ephemeral_at (bc_header b))
           (bh_ephemeral r) (bh_ephemeral (bc_header b))
      then b\<lparr>bc_ephemeral := bh_ephemeral r,
             bc_header := (bc_header b)
               \<lparr>bh_ephemeral := bh_ephemeral r, bh_ephemeral_at := bh_ephemeral_at r\<rparr>\<rparr>
      else b)"

definition merge_excluded :: "BlockHeader \<Rightarrow> 'd BlockContent \<Rightarrow> 'd BlockContent" where
  "merge_excluded r b =
     (if field_wins (bh_excluded_at r) (bh_excluded_at (bc_header b))
           (bh_excluded r) (bh_excluded (bc_header b))
      then b\<lparr>bc_excluded := bh_excluded r,
             bc_header := (bc_header b)
               \<lparr>bh_excluded := bh_excluded r, bh_excluded_at := bh_excluded_at r\<rparr>\<rparr>
      else b)"

definition merge_compacted :: "BlockHeader \<Rightarrow> 'd BlockContent \<Rightarrow> 'd BlockContent" where
  "merge_compacted r b =
     (if field_wins (bh_compacted_at r) (bh_compacted_at (bc_header b))
           (bh_compacted r) (bh_compacted (bc_header b))
      then b\<lparr>bc_header := (bc_header b)
               \<lparr>bh_compacted := bh_compacted r, bh_compacted_at := bh_compacted_at r\<rparr>\<rparr>
      else b)"

definition merge_tool_meta :: "BlockHeader \<Rightarrow> 'd BlockContent \<Rightarrow> 'd BlockContent" where
  "merge_tool_meta r b =
     (if field_wins (bh_tool_meta_at r) (bh_tool_meta_at (bc_header b))
           (bh_tool_kind r) (bh_tool_kind (bc_header b))
      then b\<lparr>bc_header := (bc_header b)
               \<lparr>bh_tool_kind := bh_tool_kind r, bh_exit_code := bh_exit_code r,
                bh_is_error := bh_is_error r, bh_tool_meta_at := bh_tool_meta_at r\<rparr>\<rparr>
      else b)"

definition merge_content_type :: "BlockHeader \<Rightarrow> 'd BlockContent \<Rightarrow> 'd BlockContent" where
  "merge_content_type r b =
     (if field_wins (bh_content_type_at r) (bh_content_type_at (bc_header b))
           (bh_content_type r) (bh_content_type (bc_header b))
      then b\<lparr>bc_header := (bc_header b)
               \<lparr>bh_content_type := bh_content_type r, bh_content_type_at := bh_content_type_at r\<rparr>\<rparr>
      else b)"

definition merge_header :: "BlockHeader \<Rightarrow> 'd BlockContent \<Rightarrow> 'd BlockContent" where
  "merge_header r b =
     (let b = merge_content_type r (merge_tool_meta r (merge_compacted r (merge_excluded r
                (merge_ephemeral r (merge_collapsed r (merge_status r b))))))
      in b\<lparr>bc_header := (bc_header b)
             \<lparr>bh_updated_at := max (max_field_ts (bc_header b)) (max_field_ts r)\<rparr>\<rparr>)"

section \<open>Last-writer-wins registers\<close>

text \<open>
  What a replica gains from a merge function on one register: the register holds the larger of
  the local and the remote stamp.  Everything else follows from that: the register after any
  number of merges is the maximum of the stamps seen.
\<close>

locale lww_register =
  fixes here :: "'s \<Rightarrow> 'k::linorder"
    and there :: "'r \<Rightarrow> 'k"
    and mrg :: "'r \<Rightarrow> 's \<Rightarrow> 's"
  assumes here_mrg: "here (mrg r s) = max (here s) (there r)"
begin

lemma here_fold: "here (fold mrg rs s) = Max (insert (here s) (there ` set rs))"
proof (induction rs arbitrary: s)
  case Nil
  then show ?case by simp
next
  case (Cons r rs)
  have "Max (insert (max (here s) (there r)) (there ` set rs))
      = Max (insert (here s) (insert (there r) (there ` set rs)))"
    by (cases "set rs = {}") (simp_all add: Max_insert max.assoc)
  with Cons show ?case by (simp add: here_mrg)
qed

lemma converges:
  assumes "insert (here s) (there ` set rs) = insert (here s') (there ` set rs')"
  shows "here (fold mrg rs s) = here (fold mrg rs' s')"
  using assms by (simp add: here_fold)

lemma mrg_idem: "here (mrg r (mrg r s)) = here (mrg r s)"
  by (simp add: here_mrg)

end

section \<open>Facts\<close>

definition stamp_status :: "BlockHeader \<Rightarrow> u64 \<times> Status" where
  "stamp_status h = (bh_status_at h, bh_status h)"

definition stamp_collapsed :: "BlockHeader \<Rightarrow> u64 \<times> bool" where
  "stamp_collapsed h = (bh_collapsed_at h, bh_collapsed h)"

definition stamp_ephemeral :: "BlockHeader \<Rightarrow> u64 \<times> bool" where
  "stamp_ephemeral h = (bh_ephemeral_at h, bh_ephemeral h)"

definition stamp_excluded :: "BlockHeader \<Rightarrow> u64 \<times> bool" where
  "stamp_excluded h = (bh_excluded_at h, bh_excluded h)"

definition stamp_compacted :: "BlockHeader \<Rightarrow> u64 \<times> bool" where
  "stamp_compacted h = (bh_compacted_at h, bh_compacted h)"

definition stamp_tool_meta :: "BlockHeader \<Rightarrow> u64 \<times> ToolKind option" where
  "stamp_tool_meta h = (bh_tool_meta_at h, bh_tool_kind h)"

definition stamp_content_type :: "BlockHeader \<Rightarrow> u64 \<times> ContentType" where
  "stamp_content_type h = (bh_content_type_at h, bh_content_type h)"

definition tool_rest :: "BlockHeader \<Rightarrow> int option \<times> bool" where
  "tool_rest h = (bh_exit_code h, bh_is_error h)"

lemmas stamp_defs = stamp_status_def stamp_collapsed_def stamp_ephemeral_def stamp_excluded_def stamp_compacted_def stamp_tool_meta_def stamp_content_type_def

lemma field_wins_stamp:
  "field_wins t t' v v' \<longleftrightarrow> (t', v') < (t, v)"
  by (auto simp: field_wins_def less_prod_def)

lemma merge_status_stamps [simp]:
  "stamp_status (bc_header (merge_status r b)) = max (stamp_status (bc_header b)) (stamp_status r)"
  "stamp_collapsed (bc_header (merge_status r b)) = stamp_collapsed (bc_header b)"
  "stamp_ephemeral (bc_header (merge_status r b)) = stamp_ephemeral (bc_header b)"
  "stamp_excluded (bc_header (merge_status r b)) = stamp_excluded (bc_header b)"
  "stamp_compacted (bc_header (merge_status r b)) = stamp_compacted (bc_header b)"
  "stamp_tool_meta (bc_header (merge_status r b)) = stamp_tool_meta (bc_header b)"
  "stamp_content_type (bc_header (merge_status r b)) = stamp_content_type (bc_header b)"
  "tool_rest (bc_header (merge_status r b)) = tool_rest (bc_header b)"
  by (auto simp: merge_status_def field_wins_stamp stamp_defs tool_rest_def max_def)

lemma merge_collapsed_stamps [simp]:
  "stamp_collapsed (bc_header (merge_collapsed r b)) = max (stamp_collapsed (bc_header b)) (stamp_collapsed r)"
  "stamp_status (bc_header (merge_collapsed r b)) = stamp_status (bc_header b)"
  "stamp_ephemeral (bc_header (merge_collapsed r b)) = stamp_ephemeral (bc_header b)"
  "stamp_excluded (bc_header (merge_collapsed r b)) = stamp_excluded (bc_header b)"
  "stamp_compacted (bc_header (merge_collapsed r b)) = stamp_compacted (bc_header b)"
  "stamp_tool_meta (bc_header (merge_collapsed r b)) = stamp_tool_meta (bc_header b)"
  "stamp_content_type (bc_header (merge_collapsed r b)) = stamp_content_type (bc_header b)"
  "tool_rest (bc_header (merge_collapsed r b)) = tool_rest (bc_header b)"
  by (auto simp: merge_collapsed_def field_wins_stamp stamp_defs tool_rest_def max_def)

lemma merge_ephemeral_stamps [simp]:
  "stamp_ephemeral (bc_header (merge_ephemeral r b)) = max (stamp_ephemeral (bc_header b)) (stamp_ephemeral r)"
  "stamp_status (bc_header (merge_ephemeral r b)) = stamp_status (bc_header b)"
  "stamp_collapsed (bc_header (merge_ephemeral r b)) = stamp_collapsed (bc_header b)"
  "stamp_excluded (bc_header (merge_ephemeral r b)) = stamp_excluded (bc_header b)"
  "stamp_compacted (bc_header (merge_ephemeral r b)) = stamp_compacted (bc_header b)"
  "stamp_tool_meta (bc_header (merge_ephemeral r b)) = stamp_tool_meta (bc_header b)"
  "stamp_content_type (bc_header (merge_ephemeral r b)) = stamp_content_type (bc_header b)"
  "tool_rest (bc_header (merge_ephemeral r b)) = tool_rest (bc_header b)"
  by (auto simp: merge_ephemeral_def field_wins_stamp stamp_defs tool_rest_def max_def)

lemma merge_excluded_stamps [simp]:
  "stamp_excluded (bc_header (merge_excluded r b)) = max (stamp_excluded (bc_header b)) (stamp_excluded r)"
  "stamp_status (bc_header (merge_excluded r b)) = stamp_status (bc_header b)"
  "stamp_collapsed (bc_header (merge_excluded r b)) = stamp_collapsed (bc_header b)"
  "stamp_ephemeral (bc_header (merge_excluded r b)) = stamp_ephemeral (bc_header b)"
  "stamp_compacted (bc_header (merge_excluded r b)) = stamp_compacted (bc_header b)"
  "stamp_tool_meta (bc_header (merge_excluded r b)) = stamp_tool_meta (bc_header b)"
  "stamp_content_type (bc_header (merge_excluded r b)) = stamp_content_type (bc_header b)"
  "tool_rest (bc_header (merge_excluded r b)) = tool_rest (bc_header b)"
  by (auto simp: merge_excluded_def field_wins_stamp stamp_defs tool_rest_def max_def)

lemma merge_compacted_stamps [simp]:
  "stamp_compacted (bc_header (merge_compacted r b)) = max (stamp_compacted (bc_header b)) (stamp_compacted r)"
  "stamp_status (bc_header (merge_compacted r b)) = stamp_status (bc_header b)"
  "stamp_collapsed (bc_header (merge_compacted r b)) = stamp_collapsed (bc_header b)"
  "stamp_ephemeral (bc_header (merge_compacted r b)) = stamp_ephemeral (bc_header b)"
  "stamp_excluded (bc_header (merge_compacted r b)) = stamp_excluded (bc_header b)"
  "stamp_tool_meta (bc_header (merge_compacted r b)) = stamp_tool_meta (bc_header b)"
  "stamp_content_type (bc_header (merge_compacted r b)) = stamp_content_type (bc_header b)"
  "tool_rest (bc_header (merge_compacted r b)) = tool_rest (bc_header b)"
  by (auto simp: merge_compacted_def field_wins_stamp stamp_defs tool_rest_def max_def)

lemma merge_tool_meta_stamps [simp]:
  "stamp_tool_meta (bc_header (merge_tool_meta r b)) = max (stamp_tool_meta (bc_header b)) (stamp_tool_meta r)"
  "stamp_status (bc_header (merge_tool_meta r b)) = stamp_status (bc_header b)"
  "stamp_collapsed (bc_header (merge_tool_meta r b)) = stamp_collapsed (bc_header b)"
  "stamp_ephemeral (bc_header (merge_tool_meta r b)) = stamp_ephemeral (bc_header b)"
  "stamp_excluded (bc_header (merge_tool_meta r b)) = stamp_excluded (bc_header b)"
  "stamp_compacted (bc_header (merge_tool_meta r b)) = stamp_compacted (bc_header b)"
  "stamp_content_type (bc_header (merge_tool_meta r b)) = stamp_content_type (bc_header b)"
  by (auto simp: merge_tool_meta_def field_wins_stamp stamp_defs tool_rest_def max_def)

lemma merge_content_type_stamps [simp]:
  "stamp_content_type (bc_header (merge_content_type r b)) = max (stamp_content_type (bc_header b)) (stamp_content_type r)"
  "stamp_status (bc_header (merge_content_type r b)) = stamp_status (bc_header b)"
  "stamp_collapsed (bc_header (merge_content_type r b)) = stamp_collapsed (bc_header b)"
  "stamp_ephemeral (bc_header (merge_content_type r b)) = stamp_ephemeral (bc_header b)"
  "stamp_excluded (bc_header (merge_content_type r b)) = stamp_excluded (bc_header b)"
  "stamp_compacted (bc_header (merge_content_type r b)) = stamp_compacted (bc_header b)"
  "stamp_tool_meta (bc_header (merge_content_type r b)) = stamp_tool_meta (bc_header b)"
  "tool_rest (bc_header (merge_content_type r b)) = tool_rest (bc_header b)"
  by (auto simp: merge_content_type_def field_wins_stamp stamp_defs tool_rest_def max_def)

lemma merge_tool_meta_rest:
  "tool_rest (bc_header (merge_tool_meta r b)) =
     (if stamp_tool_meta (bc_header b) < stamp_tool_meta r then tool_rest r
      else tool_rest (bc_header b))"
  by (simp add: merge_tool_meta_def field_wins_stamp stamp_tool_meta_def tool_rest_def)

lemma stamps_updated_at [simp]:
  "stamp_status (h\<lparr>bh_updated_at := t\<rparr>) = stamp_status h"
  "stamp_collapsed (h\<lparr>bh_updated_at := t\<rparr>) = stamp_collapsed h"
  "stamp_ephemeral (h\<lparr>bh_updated_at := t\<rparr>) = stamp_ephemeral h"
  "stamp_excluded (h\<lparr>bh_updated_at := t\<rparr>) = stamp_excluded h"
  "stamp_compacted (h\<lparr>bh_updated_at := t\<rparr>) = stamp_compacted h"
  "stamp_tool_meta (h\<lparr>bh_updated_at := t\<rparr>) = stamp_tool_meta h"
  "stamp_content_type (h\<lparr>bh_updated_at := t\<rparr>) = stamp_content_type h"
  "tool_rest (h\<lparr>bh_updated_at := t\<rparr>) = tool_rest h"
  by (simp_all add: stamp_defs tool_rest_def)

interpretation lww_status: lww_register "\<lambda>b. stamp_status (bc_header b)" stamp_status merge_header
  by unfold_locales (simp add: merge_header_def Let_def)

interpretation lww_collapsed: lww_register "\<lambda>b. stamp_collapsed (bc_header b)" stamp_collapsed merge_header
  by unfold_locales (simp add: merge_header_def Let_def)

interpretation lww_ephemeral: lww_register "\<lambda>b. stamp_ephemeral (bc_header b)" stamp_ephemeral merge_header
  by unfold_locales (simp add: merge_header_def Let_def)

interpretation lww_excluded: lww_register "\<lambda>b. stamp_excluded (bc_header b)" stamp_excluded merge_header
  by unfold_locales (simp add: merge_header_def Let_def)

interpretation lww_compacted: lww_register "\<lambda>b. stamp_compacted (bc_header b)" stamp_compacted merge_header
  by unfold_locales (simp add: merge_header_def Let_def)

interpretation lww_tool_meta: lww_register "\<lambda>b. stamp_tool_meta (bc_header b)" stamp_tool_meta merge_header
  by unfold_locales (simp add: merge_header_def Let_def)

interpretation lww_content_type: lww_register "\<lambda>b. stamp_content_type (bc_header b)" stamp_content_type merge_header
  by unfold_locales (simp add: merge_header_def Let_def)

lemma max_field_ts_le_stamps:
  "max_field_ts h \<le> t \<longleftrightarrow>
     fst (stamp_status h) \<le> t \<and> fst (stamp_collapsed h) \<le> t \<and> fst (stamp_ephemeral h) \<le> t \<and> fst (stamp_excluded h) \<le> t \<and> fst (stamp_compacted h) \<le> t \<and> fst (stamp_tool_meta h) \<le> t \<and> fst (stamp_content_type h) \<le> t"
  by (simp add: max_field_ts_le_iff stamp_defs)

lemma max_field_ts_updated_at [simp]: "max_field_ts (h\<lparr>bh_updated_at := t\<rparr>) = max_field_ts h"
  by (simp add: max_field_ts_def)

lemma fst_max_stamp: "fst (max p q) = max (fst p) (fst (q :: 'a::linorder \<times> 'b::linorder))"
  by (cases p; cases q) (auto simp: max_def less_eq_prod_def)

lemma max_field_ts_merge:
  "max_field_ts (bc_header (merge_header r b)) = max (max_field_ts (bc_header b)) (max_field_ts r)"
proof -
  have "max_field_ts (bc_header (merge_header r b)) \<le> t
      \<longleftrightarrow> max (max_field_ts (bc_header b)) (max_field_ts r) \<le> t" for t
    by (auto simp: max_field_ts_le_stamps lww_status.here_mrg lww_collapsed.here_mrg lww_ephemeral.here_mrg lww_excluded.here_mrg lww_compacted.here_mrg lww_tool_meta.here_mrg lww_content_type.here_mrg fst_max_stamp)
  then show ?thesis by (meson order_refl order_antisym)
qed

lemma merge_header_updated_at:
  "bh_updated_at (bc_header (merge_header r b)) = max_field_ts (bc_header (merge_header r b))"
proof -
  define c where "c = merge_content_type r (merge_tool_meta r (merge_compacted r (merge_excluded r
                (merge_ephemeral r (merge_collapsed r (merge_status r b))))))"
  have m: "merge_header r b =
      c\<lparr>bc_header := (bc_header c)\<lparr>bh_updated_at := max (max_field_ts (bc_header c)) (max_field_ts r)\<rparr>\<rparr>"
    by (simp add: merge_header_def c_def Let_def)
  then have e: "max_field_ts (bc_header (merge_header r b)) = max_field_ts (bc_header c)"
    by simp
  have "max_field_ts r \<le> max_field_ts (bc_header c)"
    unfolding e [symmetric] max_field_ts_merge by simp
  then show ?thesis unfolding e by (simp add: m)
qed

lemma fold_updated_at:
  "rs \<noteq> [] \<Longrightarrow> bh_updated_at (bc_header (fold merge_header rs b))
     = max_field_ts (bc_header (fold merge_header rs b))"
  by (cases rs rule: rev_cases) (simp_all add: merge_header_updated_at)

text \<open>The rest of the tool cluster always comes from a header that carries the winning stamp.\<close>

lemma merge_header_tool_rest:
  "tool_rest (bc_header (merge_header r b)) =
     (if stamp_tool_meta (bc_header b) < stamp_tool_meta r then tool_rest r
      else tool_rest (bc_header b))"
  by (simp add: merge_header_def Let_def merge_tool_meta_rest)

lemma fold_tool_rest_from:
  "\<exists>h \<in> insert (bc_header b) (set rs).
     stamp_tool_meta h = stamp_tool_meta (bc_header (fold merge_header rs b))
     \<and> tool_rest h = tool_rest (bc_header (fold merge_header rs b))"
proof (induction rs rule: rev_induct)
  case Nil
  then show ?case by simp
next
  case (snoc r rs)
  then show ?case
    by (auto simp: merge_header_tool_rest lww_tool_meta.here_mrg max_def not_less)
qed

definition tool_consistent :: "BlockHeader set \<Rightarrow> bool" where
  "tool_consistent H \<longleftrightarrow>
     (\<forall>h \<in> H. \<forall>h' \<in> H. stamp_tool_meta h = stamp_tool_meta h' \<longrightarrow> tool_rest h = tool_rest h')"

text \<open>Everything of a header that replication can change.\<close>

definition mutable_fields where
  "mutable_fields h =
     (stamp_status h, stamp_collapsed h, stamp_ephemeral h, stamp_excluded h, stamp_compacted h, stamp_tool_meta h, stamp_content_type h, tool_rest h, bh_updated_at h)"

lemma image_of_headers:
  fixes b b' :: "'d BlockContent"
  assumes "insert (bc_header b) (set rs) = insert (bc_header b') (set rs')"
  shows "insert (g (bc_header b)) (g ` set rs) = insert (g (bc_header b')) (g ` set rs')"
  using arg_cong [OF assms, of "image g"] by simp

lemma stamps_converge:
  fixes b b' :: "'d BlockContent"
  assumes "insert (bc_header b) (set rs) = insert (bc_header b') (set rs')"
  shows "stamp_status (bc_header (fold merge_header rs b)) = stamp_status (bc_header (fold merge_header rs' b'))"
    and "stamp_collapsed (bc_header (fold merge_header rs b)) = stamp_collapsed (bc_header (fold merge_header rs' b'))"
    and "stamp_ephemeral (bc_header (fold merge_header rs b)) = stamp_ephemeral (bc_header (fold merge_header rs' b'))"
    and "stamp_excluded (bc_header (fold merge_header rs b)) = stamp_excluded (bc_header (fold merge_header rs' b'))"
    and "stamp_compacted (bc_header (fold merge_header rs b)) = stamp_compacted (bc_header (fold merge_header rs' b'))"
    and "stamp_tool_meta (bc_header (fold merge_header rs b)) = stamp_tool_meta (bc_header (fold merge_header rs' b'))"
    and "stamp_content_type (bc_header (fold merge_header rs b)) = stamp_content_type (bc_header (fold merge_header rs' b'))"
  by - (rule lww_status.converges
      lww_collapsed.converges
      lww_ephemeral.converges
      lww_excluded.converges
      lww_compacted.converges
      lww_tool_meta.converges
      lww_content_type.converges, rule image_of_headers [OF assms])+

text \<open>The flags kept twice, on the block and on its header, agree.\<close>

definition mirrors_ok :: "'d BlockContent \<Rightarrow> bool" where
  "mirrors_ok b \<longleftrightarrow>
     bc_collapsed b = bh_collapsed (bc_header b)
     \<and> bc_ephemeral b = bh_ephemeral (bc_header b)
     \<and> bc_excluded b = bh_excluded (bc_header b)"

lemma bump_updated_at_frame [simp]:
  "bh_collapsed (bump_updated_at h) = bh_collapsed h"
  "bh_ephemeral (bump_updated_at h) = bh_ephemeral h"
  "bh_excluded (bump_updated_at h) = bh_excluded h"
  by (simp_all add: bump_updated_at_def)

lemma mirrors_ok_merges [inv_intros]:
  "mirrors_ok b \<Longrightarrow> mirrors_ok (merge_status r b)"
  "mirrors_ok b \<Longrightarrow> mirrors_ok (merge_collapsed r b)"
  "mirrors_ok b \<Longrightarrow> mirrors_ok (merge_ephemeral r b)"
  "mirrors_ok b \<Longrightarrow> mirrors_ok (merge_excluded r b)"
  "mirrors_ok b \<Longrightarrow> mirrors_ok (merge_compacted r b)"
  "mirrors_ok b \<Longrightarrow> mirrors_ok (merge_tool_meta r b)"
  "mirrors_ok b \<Longrightarrow> mirrors_ok (merge_content_type r b)"
  by (simp_all add: mirrors_ok_def merge_status_def merge_collapsed_def merge_ephemeral_def merge_excluded_def merge_compacted_def merge_tool_meta_def merge_content_type_def)

lemma mirrors_ok_merge_header [inv_intros]: "mirrors_ok b \<Longrightarrow> mirrors_ok (merge_header r b)"
proof -
  assume "mirrors_ok b"
  then have "mirrors_ok (merge_content_type r (merge_tool_meta r (merge_compacted r (merge_excluded r
                (merge_ephemeral r (merge_collapsed r (merge_status r b)))))))"
    by (intro mirrors_ok_merges)
  then show ?thesis by (simp add: merge_header_def Let_def mirrors_ok_def)
qed

lemma mirrors_ok_setters [inv_intros]:
  "mirrors_ok b \<Longrightarrow> mirrors_ok (content_set_status st ts b)"
  "mirrors_ok b \<Longrightarrow> mirrors_ok (content_set_collapsed v ts b)"
  "mirrors_ok b \<Longrightarrow> mirrors_ok (content_set_ephemeral v ts b)"
  "mirrors_ok b \<Longrightarrow> mirrors_ok (content_set_excluded v ts b)"
  "mirrors_ok b \<Longrightarrow> mirrors_ok (content_set_compacted v ts b)"
  "mirrors_ok b \<Longrightarrow> mirrors_ok (content_set_content_type ct ts b)"
  "mirrors_ok b \<Longrightarrow> mirrors_ok (content_set_exit_code code ts b)"
  "mirrors_ok b \<Longrightarrow> mirrors_ok (mark_deleted ts b)"
  "mirrors_ok b \<Longrightarrow> mirrors_ok (set_order_key k b)"
  "mirrors_ok b \<Longrightarrow> mirrors_ok (set_tick t b)"
  by (simp_all add: mirrors_ok_def content_set_status_def content_set_collapsed_def
      content_set_ephemeral_def content_set_excluded_def content_set_compacted_def
      content_set_content_type_def content_set_exit_code_def mark_deleted_def set_order_key_def
      set_tick_def)

lemma mirrors_ok_restored [inv_intros]:
  "mirrors_ok (content_from_snapshot D snap p k)"
  "mirrors_ok (content_from_snapshot_for_sync D snap p k)"
  by (simp_all add: mirrors_ok_def content_from_snapshot_def with_content_def content_new_def
      content_from_snapshot_for_sync_def header_from_snapshot_def Let_def case_prod_unfold)

text \<open>Cutting a text at a character position.\<close>

lemma take_drop_chars [simp]: "take_chars n s @ drop_chars n s = s"
  unfolding drop_chars_def by (metis append_eq_conv_conj take_chars_split)

lemma drop_chars_boundary: "drop_chars n s = [] \<or> \<not> is_continuation (hd (drop_chars n s))"
  unfolding drop_chars_def
  by (induction n s rule: take_chars.induct) (auto split: nat.split)

lemma take_chars_append:
  "n \<le> char_count t \<Longrightarrow> u = [] \<or> \<not> is_continuation (hd u) \<Longrightarrow>
   take_chars n (take_chars n t @ u) = take_chars n t"
proof (induction n t rule: take_chars.induct)
  case (1 n)
  then show ?case by (cases u) (auto simp: char_count_def)
next
  case (2 n c s)
  then show ?case by (cases n; cases u) (auto simp: char_count_def)
qed

lemma drop_chars_append:
  "n \<le> char_count t \<Longrightarrow> u = [] \<or> \<not> is_continuation (hd u) \<Longrightarrow>
   drop_chars n (take_chars n t @ u) = u"
  by (simp add: drop_chars_def take_chars_append)

lemma char_count_drop_chars: "char_count (drop_chars n s) = char_count s - n"
proof -
  have "char_count s = char_count (take_chars n s) + char_count (drop_chars n s)"
    by (metis take_drop_chars char_count_append)
  then show ?thesis by (simp add: char_count_take_chars)
qed

lemma dte_okD:
  assumes "dte_ok D"
  shows "get_text D (document_new D) = None"
    and "get_text D (fst (create_agent D d u)) = get_text D d"
    and "get_text D d = None \<Longrightarrow> get_text D (create_text D d a) = Some []"
    and "get_text D d = Some t \<Longrightarrow> pos \<le> char_count t \<Longrightarrow>
      get_text D (text_insert D d a pos s) = Some (take_chars pos t @ s @ drop_chars pos t)"
    and "get_text D d = Some t \<Longrightarrow> pos + n \<le> char_count t \<Longrightarrow>
      get_text D (text_delete D d a pos n) = Some (take_chars pos t @ drop_chars (pos + n) t)"
    and "doc_merge_ops D (fst (create_agent D (document_new D) u))
      (ops_since_owned D d (frontier_root D)) = (d', r) \<Longrightarrow> r = Merged \<and> get_text D d' = get_text D d"
  using assms by (auto simp: dte_ok_def Let_def) (metis fst_conv snd_conv)+

text \<open>
  A reference document, to show that \<^const>\<open>dte_ok\<close> can hold: the text itself is the state, and
  the operations since any version are the whole text.
\<close>

definition reference_dte :: "(string option, string option, unit) dte" where
  "reference_dte =
     \<lparr>document_new = None, create_agent = (\<lambda>d u. (d, 0)), create_text = (\<lambda>d a. Some []),
      get_text = (\<lambda>d. d),
      text_insert = (\<lambda>d a pos s. map_option (\<lambda>t. take_chars pos t @ s @ drop_chars pos t) d),
      text_delete = (\<lambda>d a pos n. map_option (\<lambda>t. take_chars pos t @ drop_chars (pos + n) t) d),
      ops_since_owned = (\<lambda>d f. d), frontier_root = (), ops_is_empty = (\<lambda>d. d = None),
      doc_merge_ops = (\<lambda>d u. (if u = None then d else u, Merged)), doc_version = (\<lambda>d. ())\<rparr>"

lemma reference_dte_ok: "dte_ok reference_dte"
  by (simp add: dte_ok_def reference_dte_def)

lemma with_content_text:
  assumes "dte_ok D"
  shows "get_text D (bc_doc (with_content D h c p k t)) = Some c"
  using dte_okD [OF assms]
  by (auto simp: with_content_def content_new_def fresh_document_def Let_def case_prod_unfold
      drop_chars_def)

lemma with_content_frame [simp]:
  "bc_header (with_content D h c p k t) = h" "bc_order_key (with_content D h c p k t) = k"
  "bc_tick (with_content D h c p k t) = t" "bc_deleted (with_content D h c p k t) = False"
  by (simp_all add: with_content_def content_new_def Let_def case_prod_unfold)

lemma edit_text_in_bounds:
  assumes "dte_ok D" and t: "get_text D (bc_doc b) = Some t" and le: "pos + del \<le> char_count t"
  shows "content_text D (content_edit_text D pos ins del b) =
      take_chars pos t @ ins @ drop_chars (pos + del) t"
proof -
  let ?u = "take_chars pos t @ drop_chars (pos + del) t"
  let ?d = "if 0 < del then text_delete D (bc_doc b) (bc_agent b) pos del else bc_doc b"
  have d: "get_text D ?d = Some ?u"
    using dte_okD(5) [OF assms(1) t le] t by simp
  have pos: "pos \<le> char_count ?u"
    using le by (simp add: char_count_take_chars char_count_drop_chars)
  have u: "take_chars pos ?u = take_chars pos t" "drop_chars pos ?u = drop_chars (pos + del) t"
    using le drop_chars_boundary by (intro take_chars_append drop_chars_append; force)+
  from dte_okD(4) [OF assms(1) d pos, of "bc_agent b" ins] d t u show ?thesis
    by (simp add: content_edit_text_def content_text_def Let_def)
qed

lemma snapshot_restore:
  assumes "dte_ok D"
  shows "content_snapshot D (content_from_snapshot D snap p fallback) =
     snap\<lparr>bs_order_key := Some (case bs_order_key snap of Some k \<Rightarrow> k | None \<Rightarrow> fallback)\<rparr>"
proof -
  have "content_text D (content_from_snapshot D snap p fallback) = bs_content snap"
    by (simp add: content_text_def content_from_snapshot_def Let_def with_content_text [OF assms])
  then show ?thesis
    by (simp add: content_snapshot_def Let_def)
      (simp add: content_from_snapshot_def Let_def header_from_snapshot_def)
qed

lemma sync_restore:
  assumes "dte_ok D" and "get_text D (bc_doc b) \<noteq> None" and "mirrors_ok b"
  shows "\<exists>b'. content_merge_ops D (root_ops D b)
                (content_from_snapshot_for_sync D (content_snapshot D b) p k) = (b', Inr ())
            \<and> content_snapshot D b' = content_snapshot D b
            \<and> bc_header b' = bc_header b
            \<and> bc_order_key b' = bc_order_key b"
proof -
  let ?c = "content_from_snapshot_for_sync D (content_snapshot D b) p k"
  obtain d r where d: "doc_merge_ops D (bc_doc ?c) (root_ops D b) = (d, r)" by force
  have "bc_doc ?c = fst (create_agent D (document_new D) p)"
    by (simp add: content_from_snapshot_for_sync_def fresh_document_def Let_def case_prod_unfold)
  with d dte_okD(6) [OF assms(1)] have r: "r = Merged" and t: "get_text D d = get_text D (bc_doc b)"
    by (auto simp: root_ops_def)
  have h: "bc_header ?c = bc_header b"
    using assms(3) by (simp add: content_from_snapshot_for_sync_def content_snapshot_def
        header_from_snapshot_def mirrors_ok_def Let_def case_prod_unfold)
  have "content_snapshot D (?c\<lparr>bc_doc := d\<rparr>) = content_snapshot D b"
    using t by (simp add: content_snapshot_def content_text_def Let_def h)
      (simp add: content_from_snapshot_for_sync_def header_from_snapshot_def Let_def case_prod_unfold)
  moreover have "bc_order_key ?c = bc_order_key b"
    by (simp add: content_from_snapshot_for_sync_def content_snapshot_def Let_def case_prod_unfold)
  ultimately show ?thesis
    using d r h by (simp add: content_merge_ops_def)
qed

section \<open>Properties\<close>

text \<open>
  C33: replicated headers converge.  Two replicas of a block that between them have seen the same
  set of headers (their own included) agree on every mutable field and on the aggregate
  timestamp, whatever the order in which the remote headers arrived and however often, provided
  no two of the headers carry the same tool timestamp and kind with different tool results.
\<close>

theorem header_merge_converges:
  fixes b b' :: "'d BlockContent"
  assumes "insert (bc_header b) (set rs) = insert (bc_header b') (set rs')"
    and "rs \<noteq> []" and "rs' \<noteq> []"
    and "tool_consistent (insert (bc_header b) (set rs))"
  shows "mutable_fields (bc_header (fold merge_header rs b))
       = mutable_fields (bc_header (fold merge_header rs' b'))"
proof -
  let ?h = "bc_header (fold merge_header rs b)" and ?h' = "bc_header (fold merge_header rs' b')"
  note st = stamps_converge [OF assms(1)]
  obtain g g' where g: "g \<in> insert (bc_header b) (set rs)" "stamp_tool_meta g = stamp_tool_meta ?h"
      "tool_rest g = tool_rest ?h"
    and g': "g' \<in> insert (bc_header b') (set rs')" "stamp_tool_meta g' = stamp_tool_meta ?h'"
      "tool_rest g' = tool_rest ?h'"
    using fold_tool_rest_from by meson
  have "stamp_tool_meta g = stamp_tool_meta g'" using g(2) g'(2) st(6) by simp
  then have "tool_rest ?h = tool_rest ?h'"
    using g g' assms(1,4) unfolding tool_consistent_def by metis
  moreover have "max_field_ts ?h \<le> t \<longleftrightarrow> max_field_ts ?h' \<le> t" for t
    by (simp add: max_field_ts_le_stamps st)
  then have "max_field_ts ?h = max_field_ts ?h'" by (meson order_refl order_antisym)
  ultimately show ?thesis
    using st by (simp add: mutable_fields_def fold_updated_at assms(2,3))
qed

definition sample_header :: "Status \<Rightarrow> u64 \<Rightarrow> int option \<Rightarrow> BlockHeader" where
  "sample_header st ts code =
     (header_from_snapshot (builder_new 0 (BlockId 1 2 3) BlockKind.ToolResult))
       \<lparr>bh_status := st, bh_status_at := ts, bh_tool_meta_at := ts, bh_exit_code := code\<rparr>"

theorem header_merge_converges_witness:
  "mutable_fields (bc_header (fold merge_header [sample_header Status.Error 4 (Some 1)]
      (content_new reference_dte (sample_header Status.Done 5 (Some 0)) 2 ''V'')))
   = mutable_fields (bc_header (fold merge_header
        [sample_header Status.Done 5 (Some 0), sample_header Status.Done 5 (Some 0)]
      (content_new reference_dte (sample_header Status.Error 4 (Some 1)) 9 ''V'')))"
proof (rule header_merge_converges)
  have *: "bc_header (content_new reference_dte h p k) = h" for h p k
    by (simp add: content_new_def Let_def case_prod_unfold)
  show "insert (bc_header (content_new reference_dte (sample_header Status.Done 5 (Some 0)) 2 ''V''))
      (set [sample_header Status.Error 4 (Some 1)]) =
    insert (bc_header (content_new reference_dte (sample_header Status.Error 4 (Some 1)) 9 ''V''))
      (set [sample_header Status.Done 5 (Some 0), sample_header Status.Done 5 (Some 0)])"
    unfolding * by auto
  show "tool_consistent
     (insert (bc_header (content_new reference_dte (sample_header Status.Done 5 (Some 0)) 2 ''V''))
      (set [sample_header Status.Error 4 (Some 1)]))"
    unfolding * by (auto simp: tool_consistent_def sample_header_def stamp_tool_meta_def)
qed simp_all

text \<open>
  The proviso is needed.  When two replicas write the exit code with the same Lamport
  timestamp and the same tool kind, the tie is broken on the kind alone: each keeps its own exit
  code, and exchanging headers never brings them together.
\<close>

theorem tool_meta_tie_diverges:
  "bh_exit_code (bc_header (merge_header (sample_header Status.Done 5 (Some 1))
      (content_new D (sample_header Status.Done 5 (Some 0)) 2 k))) = Some 0
   \<and> bh_exit_code (bc_header (merge_header (sample_header Status.Done 5 (Some 0))
      (content_new D (sample_header Status.Done 5 (Some 1)) 2 k))) = Some 1"
proof -
  have *: "bc_header (content_new D h p k) = h" for h p
    by (simp add: content_new_def Let_def case_prod_unfold)
  have "tool_rest (bc_header (merge_header (sample_header Status.Done 5 c)
      (content_new D (sample_header Status.Done 5 c') 2 k))) = (c', False)" for c c'
    by (simp add: merge_header_tool_rest * stamp_tool_meta_def)
      (simp add: sample_header_def tool_rest_def header_from_snapshot_def builder_new_def)
  then show ?thesis by (simp add: tool_rest_def)
qed

text \<open>
  Freezing a restored block gives the snapshot back: all forty fields, with the fallback
  filled in for a missing order key.
\<close>

theorem snapshot_restore_roundtrip:
  assumes "dte_ok D"
  shows "content_snapshot D (content_from_snapshot D snap p fallback) =
     snap\<lparr>bs_order_key := Some (case bs_order_key snap of Some k \<Rightarrow> k | None \<Rightarrow> fallback)\<rparr>"
  by (rule snapshot_restore [OF assms])

theorem snapshot_restore_roundtrip_witness:
  "content_snapshot reference_dte (content_from_snapshot reference_dte
      (builder_content ''hi'' (builder_new 7 (BlockId 1 2 3) BlockKind.Text)) 2 ''V'')
   = (builder_content ''hi'' (builder_new 7 (BlockId 1 2 3) BlockKind.Text))\<lparr>bs_order_key := Some ''V''\<rparr>"
  using snapshot_restore_roundtrip [OF reference_dte_ok,
      of "builder_content ''hi'' (builder_new 7 (BlockId 1 2 3) BlockKind.Text)" 2 "''V''"]
  by (simp add: builder_content_def builder_new_def)

text \<open>
  A block rebuilt from its snapshot on a bare document, with the sender's full history merged
  in, freezes to the same snapshot, and carries the same header if the mirrored flags agree.
\<close>

theorem sync_restore_roundtrip:
  assumes "dte_ok D" and "get_text D (bc_doc b) \<noteq> None" and "mirrors_ok b"
  shows "\<exists>b'. content_merge_ops D (root_ops D b)
                (content_from_snapshot_for_sync D (content_snapshot D b) p k) = (b', Inr ())
            \<and> content_snapshot D b' = content_snapshot D b
            \<and> bc_header b' = bc_header b
            \<and> bc_order_key b' = bc_order_key b"
  by (rule sync_restore [OF assms])

theorem sync_restore_roundtrip_witness:
  "\<exists>b'. content_merge_ops reference_dte
          (root_ops reference_dte (with_content reference_dte (sample_header Status.Done 5 None) ''ls'' 2 ''V'' None))
          (content_from_snapshot_for_sync reference_dte (content_snapshot reference_dte
             (with_content reference_dte (sample_header Status.Done 5 None) ''ls'' 2 ''V'' None)) 9 ''W'')
        = (b', Inr ())
     \<and> bc_order_key b' = ''V''"
proof -
  let ?b = "with_content reference_dte (sample_header Status.Done 5 None) ''ls'' 2 ''V'' None"
  have "get_text reference_dte (bc_doc ?b) \<noteq> None"
    by (simp add: with_content_text [OF reference_dte_ok])
  moreover have "mirrors_ok ?b"
    by (simp add: mirrors_ok_def with_content_def content_new_def Let_def case_prod_unfold
        sample_header_def header_from_snapshot_def builder_new_def)
  ultimately show ?thesis
    using sync_restore_roundtrip [OF reference_dte_ok, of ?b 9 "''W''"] by auto
qed

text \<open>
  An edit inside the bounds replaces exactly the addressed characters, and appending puts the
  text at the end; an edit on a block without a text document does nothing.
\<close>

lemma edit_text_spec:
  assumes "dte_ok D"
  shows "(pos + del \<le> content_len D b \<longrightarrow> get_text D (bc_doc b) \<noteq> None \<longrightarrow>
      content_text D (content_edit_text D pos ins del b) =
        take_chars pos (content_text D b) @ ins @ drop_chars (pos + del) (content_text D b))
    \<and> (get_text D (bc_doc b) \<noteq> None \<longrightarrow>
        content_text D (content_append_text D s b) = content_text D b @ s)
    \<and> (get_text D (bc_doc b) = None \<longrightarrow> content_edit_text D pos ins del b = b)"
proof (cases "get_text D (bc_doc b)")
  case None
  then show ?thesis by (simp add: content_edit_text_def)
next
  case (Some t)
  have "content_text D (content_append_text D s b) = content_text D b @ s"
    using edit_text_in_bounds [OF assms Some, of "char_count t" 0 s] Some
      take_chars_id [of t "char_count t"]
    by (simp add: content_append_text_def content_text_def drop_chars_def)
  with Some show ?thesis
    using edit_text_in_bounds [OF assms Some, of pos del ins]
    by (simp add: content_len_def content_text_def)
qed

end
