(* ===== verification/Order_Keys.thy ===== *)
theory Order_Keys
  imports Kai_Prelude
begin

text \<open>
  The order keys of \<open>crates/kaijutsu-crdt/src/content.rs\<close>: the base-62 alphabet, the
  fixed-width encoding and its inverse, the fractional midpoint between two keys and the append
  key after a predecessor.  An order key is a Rust \<open>String\<close>; it is modelled as the list of its
  bytes, since Rust compares strings bytewise and slices them by byte offsets.

  The lemmas show that encoding is strictly monotone and inverted by decoding, that the append
  key is always strictly greater than its predecessor and does not grow on canonical keys, and
  exactly when the midpoint lies between its two arguments.  The contract that the block store
  needs of an append key is the locale \<open>append_key\<close>.
\<close>

section \<open>The code\<close>

definition BASE62 :: string where
  "BASE62 = ''0123456789ABCDEFGHIJKLMNOPQRSTUVWXYZabcdefghijklmnopqrstuvwxyz''"

text \<open>\<open>base62_index\<close>: a character outside the alphabet reads as 0.\<close>

definition base62_index :: "char \<Rightarrow> nat" where
  "base62_index c = (case position (\<lambda>b. b = c) BASE62 of Some i \<Rightarrow> i | None \<Rightarrow> 0)"

text \<open>
  The loop of \<open>base62_encode_padded\<close> writes digits into the buffer from the right while the
  number is not exhausted and the buffer is not full; negative numbers are clamped to 0.
\<close>

fun base62_fill :: "nat \<Rightarrow> nat \<Rightarrow> string \<Rightarrow> string" where
  "base62_fill n i buf =
     (if 0 < n \<and> 0 < i
      then base62_fill (n div 62) (i - 1) (buf[i - 1 := BASE62 ! (n mod 62)])
      else buf)"

definition base62_encode_padded :: "i64 \<Rightarrow> nat \<Rightarrow> string" where
  "base62_encode_padded v width =
     base62_fill (nat (max v 0)) width (replicate width (CHR ''0''))"

text \<open>
  The digits that \<open>order_midpoint\<close> compares at position \<open>i\<close>: a lower bound that has run out
  reads as 0, an upper bound that has run out reads as 62.
\<close>

definition a_digit :: "string \<Rightarrow> nat \<Rightarrow> nat" where
  "a_digit a i = (if i < length a then base62_index (a ! i) else 0)"

definition b_digit :: "string \<Rightarrow> nat \<Rightarrow> nat" where
  "b_digit b i = (if i < length b then base62_index (b ! i) else 62)"

function order_midpoint_loop :: "string \<Rightarrow> string \<Rightarrow> nat \<Rightarrow> nat \<Rightarrow> string \<Rightarrow> string" where
  "order_midpoint_loop a b max_len i result =
     (if i \<le> max_len then
        (if a_digit a i + 1 < b_digit b i then
           result @ [BASE62 ! ((a_digit a i + b_digit b i) div 2)]
         else if a_digit a i = b_digit b i then
           order_midpoint_loop a b max_len (Suc i) (result @ [BASE62 ! a_digit a i])
         else
           result @ [BASE62 ! a_digit a i, BASE62 ! ((a_digit a (i + 1) + 62) div 2)])
      else result @ [BASE62 ! 31])"
  by pat_completeness auto
termination
  by (relation "measure (\<lambda>(a, b, max_len, i, result). Suc max_len - i)") auto

declare order_midpoint_loop.simps [simp del]

definition order_midpoint :: "string \<Rightarrow> string \<Rightarrow> string" where
  "order_midpoint a b = order_midpoint_loop a b (max (length a) (length b)) 0 []"

text \<open>\<open>base62_decode\<close>: \<^const>\<open>None\<close> for the empty string, a foreign character or an overflow.\<close>

fun base62_decode_loop :: "i64 \<Rightarrow> string \<Rightarrow> i64 option" where
  "base62_decode_loop n [] = Some n"
| "base62_decode_loop n (b # s) =
     (case position (\<lambda>c. c = b) BASE62 of
        None \<Rightarrow> None
      | Some digit \<Rightarrow>
          (case checked_mul_i64 n 62 of
             None \<Rightarrow> None
           | Some m \<Rightarrow>
               (case checked_add_i64 m (int digit) of
                  None \<Rightarrow> None
                | Some n' \<Rightarrow> base62_decode_loop n' s)))"

definition base62_decode :: "string \<Rightarrow> i64 option" where
  "base62_decode s = (if s = [] then None else base62_decode_loop 0 s)"

text \<open>
  \<open>str::get(lo..hi)\<close> on the bytes of a UTF-8 string: both ends must be in range and must not
  fall on a continuation byte.
\<close>

definition is_char_boundary :: "string \<Rightarrow> nat \<Rightarrow> bool" where
  "is_char_boundary s i \<longleftrightarrow>
     i = 0 \<or> i = length s \<or> (i < length s \<and> (of_char (s ! i) < (128::nat) \<or> (192::nat) \<le> of_char (s ! i)))"

text \<open>The loop that steps back to a boundary: \<open>while n > 0 && !s.is_char_boundary(n)\<close>.\<close>

fun boundary_below :: "string \<Rightarrow> nat \<Rightarrow> nat" where
  "boundary_below s 0 = 0"
| "boundary_below s (Suc n) = (if is_char_boundary s (Suc n) then Suc n else boundary_below s n)"

definition str_get :: "string \<Rightarrow> nat \<Rightarrow> nat \<Rightarrow> string option" where
  "str_get s lo hi =
     (if lo \<le> hi \<and> hi \<le> length s \<and> is_char_boundary s lo \<and> is_char_boundary s hi
      then Some (take (hi - lo) (drop lo s)) else None)"

definition order_key_successor :: "string \<Rightarrow> string \<Rightarrow> string" where
  "order_key_successor pred suffix =
     (let number = (if pred \<noteq> [] \<and> hd pred = CHR ''V'' then str_get pred 1 12 else None);
          fallback = pred @ ''V'' @ suffix
      in case number of
           None \<Rightarrow> fallback
         | Some num \<Rightarrow>
             (case base62_decode num of
                None \<Rightarrow> fallback
              | Some n \<Rightarrow>
                  (case checked_add_i64 n 1 of
                     None \<Rightarrow> fallback
                   | Some next_n \<Rightarrow>
                       (let key = ''V'' @ base62_encode_padded next_n 11 @ suffix
                        in if key > pred then key else fallback))))"


text \<open>Keys all of whose bytes are digits of the alphabet.\<close>

definition base62_key :: "string \<Rightarrow> bool" where
  "base62_key s \<longleftrightarrow> set s \<subseteq> set BASE62"

text \<open>The upper key is the lower key followed by zeros: no key lies between the two.\<close>

fun zero_gap :: "string \<Rightarrow> string \<Rightarrow> bool" where
  "zero_gap [] b = (set b \<subseteq> {CHR ''0''})"
| "zero_gap (p # a) (c # b) = (p = c \<and> zero_gap a b)"
| "zero_gap (p # a) [] = False"

text \<open>
  The keys first differ in neighbouring digits and the lower key goes on with \<open>z\<close>, the last
  digit of the alphabet.
\<close>

fun z_trap :: "string \<Rightarrow> string \<Rightarrow> bool" where
  "z_trap (p # a) (c # b) =
     (if p = c then z_trap a b
      else base62_index c = base62_index p + 1 \<and> a \<noteq> [] \<and> hd a = CHR ''z'')"
| "z_trap a b = False"

section \<open>The alphabet\<close>

lemma length_BASE62 [simp]: "length BASE62 = 62"
  by (simp add: BASE62_def)

lemma distinct_BASE62: "distinct BASE62"
  by (simp add: BASE62_def)

lemma BASE62_strict: "sorted_wrt (<) BASE62"
  by (simp add: BASE62_def)

lemma BASE62_less [simp]: "i < 62 \<Longrightarrow> j < 62 \<Longrightarrow> BASE62 ! i < BASE62 ! j \<longleftrightarrow> i < j"
  using BASE62_strict sorted_wrt_nth_less [of "(<)" BASE62] by (metis length_BASE62 linorder_neqE_nat order_less_asym order_less_irrefl)

lemma base62_index_less [simp]: "base62_index c < 62"
  by (auto simp: base62_index_def split: option.split dest: position_SomeD)

lemma base62_index_nth [simp]: "i < 62 \<Longrightarrow> base62_index (BASE62 ! i) = i"
  by (simp add: base62_index_def position_nth distinct_BASE62)

lemma nth_base62_index [simp]: "c \<in> set BASE62 \<Longrightarrow> BASE62 ! base62_index c = c"
  by (metis base62_index_nth in_set_conv_nth length_BASE62)

lemma BASE62_char_less:
  "c \<in> set BASE62 \<Longrightarrow> d \<in> set BASE62 \<Longrightarrow> c < d \<longleftrightarrow> base62_index c < base62_index d"
  by (metis BASE62_less base62_index_less nth_base62_index)

lemma position_BASE62:
  "position (\<lambda>c. c = b) BASE62 = (if b \<in> set BASE62 then Some (base62_index b) else None)"
  by (auto simp: base62_index_def position_None_iff split: option.split)

section \<open>Encoding and decoding\<close>

text \<open>The digits of a number, most significant first, without the buffer.\<close>

fun base62_digits :: "nat \<Rightarrow> nat \<Rightarrow> string" where
  "base62_digits 0 n = []"
| "base62_digits (Suc w) n = base62_digits w (n div 62) @ [BASE62 ! (n mod 62)]"

lemma length_base62_digits [simp]: "length (base62_digits w n) = w"
  by (induction w arbitrary: n) auto

lemma base62_digits_charset: "set (base62_digits w n) \<subseteq> set BASE62"
  by (induction w arbitrary: n) auto

lemma BASE62_0: "BASE62 ! 0 = CHR ''0''"
  by (simp add: BASE62_def)

lemma base62_digits_0: "base62_digits w 0 = replicate w (CHR ''0'')"
  by (induction w) (auto simp: BASE62_0 replicate_append_same)

declare base62_fill.simps [simp del]

lemma base62_fill_digits:
  assumes "i \<le> length buf" and "take i buf = replicate i (CHR ''0'')"
  shows "base62_fill n i buf = base62_digits i n @ drop i buf"
  using assms
proof (induction n i buf rule: base62_fill.induct)
  case (1 n i buf)
  show ?case
  proof (cases "0 < n \<and> 0 < i")
    case True
    then obtain j where i: "i = Suc j" by (cases i) auto
    let ?buf = "buf[j := BASE62 ! (n mod 62)]"
    have "take j ?buf = replicate j (CHR ''0'')"
      using arg_cong [OF "1.prems"(2), of "take j"] i by (simp add: min_def del: replicate.simps)
    with "1" True i have "base62_fill (n div 62) j ?buf = base62_digits j (n div 62) @ drop j ?buf"
      by simp
    moreover have "drop j ?buf = BASE62 ! (n mod 62) # drop i buf"
      using "1.prems"(1) i by (simp add: Cons_nth_drop_Suc [symmetric])
    ultimately show ?thesis using True i by (simp add: base62_fill.simps [of n "Suc j"])
  next
    case False
    then have "base62_digits i n = take i buf"
      using "1.prems"(2) by (auto simp: base62_digits_0)
    with False show ?thesis by (auto simp: base62_fill.simps [of n i])
  qed
qed

lemma base62_encode_padded_digits [key_simps]:
  "base62_encode_padded v w = base62_digits w (nat (max v 0))"
  by (simp add: base62_encode_padded_def base62_fill_digits)

lemma base62_digits_less:
  "n < m \<Longrightarrow> m < 62 ^ w \<Longrightarrow> base62_digits w n < base62_digits w m"
proof (induction w arbitrary: n m)
  case 0
  then show ?case by simp
next
  case (Suc w)
  show ?case
  proof (cases "n div 62 < m div 62")
    case True
    moreover have "m div 62 < 62 ^ w" using Suc.prems(2) by (simp add: less_mult_imp_div_less mult.commute)
    ultimately have "base62_digits w (n div 62) < base62_digits w (m div 62)" by (rule Suc.IH)
    then show ?thesis by (simp add: list_less_append_len)
  next
    case False
    with Suc.prems(1) have "n div 62 = m div 62" by (meson div_le_mono le_antisym less_imp_le linorder_not_le)
    moreover with Suc.prems(1) have "n mod 62 < m mod 62"
      by (metis div_mult_mod_eq nat_add_left_cancel_less)
    ultimately show ?thesis by simp
  qed
qed

lemma base62_decode_loop_append:
  "base62_decode_loop n (s @ t) = Option.bind (base62_decode_loop n s) (\<lambda>m. base62_decode_loop m t)"
  by (induction s arbitrary: n) (auto simp: checked_mul_i64_def checked_add_i64_def split: option.splits)

lemma base62_decode_loop_digits:
  assumes "n < 62 ^ w" and "int n \<le> i64_max"
  shows "base62_decode_loop 0 (base62_digits w n) = Some (int n)"
  using assms
proof (induction w arbitrary: n)
  case 0
  then show ?case by simp
next
  case (Suc w)
  have "n div 62 < 62 ^ w" using Suc.prems(1) by (simp add: less_mult_imp_div_less mult.commute)
  moreover have "int (n div 62) \<le> i64_max" using Suc.prems(2) by (simp add: i64_defs)
  ultimately have "base62_decode_loop 0 (base62_digits w (n div 62)) = Some (int (n div 62))"
    by (rule Suc.IH)
  moreover have "int (n div 62) * 62 + int (n mod 62) = int n"
    by (metis div_mult_mod_eq of_nat_add of_nat_mult of_nat_numeral)
  ultimately show ?case
    using Suc.prems(2)
    by (simp add: base62_decode_loop_append position_BASE62 checked_mul_i64_def checked_add_i64_def i64_defs)
qed

lemma base62_decode_loop_inv:
  assumes "base62_decode_loop 0 s = Some n"
  shows "0 \<le> n \<and> n \<le> i64_max \<and> nat n < 62 ^ length s \<and> s = base62_digits (length s) (nat n)"
  using assms
proof (induction s arbitrary: n rule: rev_induct)
  case Nil
  then show ?case by (simp add: i64_defs)
next
  case (snoc c s)
  then obtain m where m: "base62_decode_loop 0 s = Some m" and c: "c \<in> set BASE62"
    and n: "n = m * 62 + int (base62_index c)" "n \<le> i64_max"
    by (auto simp: base62_decode_loop_append position_BASE62 checked_mul_i64_def checked_add_i64_def
        in_i64_def split: option.splits if_splits Option.bind_splits)
  from snoc.IH [OF m] have IH: "0 \<le> m" "nat m < 62 ^ length s" "s = base62_digits (length s) (nat m)"
    by auto
  have "nat n = nat m * 62 + base62_index c" using n IH(1) by (simp add: nat_add_distrib nat_mult_distrib)
  moreover from this have "nat n div 62 = nat m" "nat n mod 62 = base62_index c"
    using base62_index_less [of c] by simp_all
  moreover have "nat m * 62 + base62_index c < 62 ^ length s * 62"
  proof -
    have "nat m * 62 + base62_index c < Suc (nat m) * 62" using base62_index_less [of c] by simp
    also have "\<dots> \<le> 62 ^ length s * 62" by (rule mult_le_mono1 [OF Suc_leI [OF IH(2)]])
    finally show ?thesis .
  qed
  ultimately show ?case using n IH c by simp
qed

section \<open>The append key\<close>

lemma canonical_pow: "i64_max < 62 ^ 11"
  by (simp add: i64_defs)

lemma str_get_canonical:
  assumes "length num = 11" and "set num \<subseteq> set BASE62" and "is_char_boundary (CHR ''V'' # num @ rest) 12"
  shows "str_get (CHR ''V'' # num @ rest) 1 12 = Some num"
proof -
  have "num ! 0 \<in> set BASE62" using assms by (auto simp: subset_iff)
  then have "of_char (num ! 0) < (128::nat)" by (auto simp: BASE62_def)
  with assms show ?thesis by (simp add: str_get_def is_char_boundary_def nth_append)
qed

lemma str_get_SomeD:
  assumes "str_get pred 1 12 = Some num" and "hd pred = CHR ''V''"
  shows "length num = 11 \<and> (\<exists>rest. pred = CHR ''V'' # num @ rest)"
proof -
  from assms(1) have len: "12 \<le> length pred" and num: "num = take 11 (drop 1 pred)"
    by (auto simp: str_get_def split: if_splits)
  from len assms(2) obtain xs where xs: "pred = CHR ''V'' # xs" by (cases pred) auto
  with num have "pred = CHR ''V'' # num @ drop 11 xs" by simp
  moreover have "length num = 11" using len num by simp
  ultimately show ?thesis by blast
qed

lemma order_key_successor_gt: "pred < order_key_successor pred suffix"
  by (auto simp: order_key_successor_def Let_def list_less_append split: option.split)

lemma order_key_successor_canonical:
  assumes "0 \<le> n" and "n < i64_max" and "is_char_boundary (''V'' @ base62_encode_padded n 11 @ rest) 12"
  shows "order_key_successor (''V'' @ base62_encode_padded n 11 @ rest) suffix
       = ''V'' @ base62_encode_padded (n + 1) 11 @ suffix"
proof -
  let ?num = "base62_digits 11 (nat n)"
  have lt: "nat (n + 1) < 62 ^ 11" "nat n < 62 ^ 11"
    using assms(2) canonical_pow by (auto simp: nat_less_iff)
  have get: "str_get (CHR ''V'' # ?num @ rest) 1 12 = Some ?num"
    using assms by (intro str_get_canonical) (auto simp: key_simps base62_digits_charset max_def)
  have "?num \<noteq> []" by (simp flip: length_greater_0_conv)
  then have dec: "base62_decode ?num = Some n"
    using assms lt(2) by (simp add: base62_decode_def base62_decode_loop_digits)
  have add: "checked_add_i64 n 1 = Some (n + 1)"
    using assms by (simp add: checked_add_i64_def i64_defs)
  have "?num < base62_digits 11 (nat (n + 1))"
    using assms lt by (intro base62_digits_less) auto
  then have "CHR ''V'' # ?num @ rest < CHR ''V'' # base62_digits 11 (nat (n + 1)) @ suffix"
    by (simp add: list_less_append_len)
  with get dec add assms(1) show ?thesis
    by (simp add: order_key_successor_def Let_def key_simps max_def)
qed

section \<open>The midpoint key\<close>

text \<open>The loop of \<^const>\<open>order_midpoint\<close> as a recursion on the two strings.\<close>

fun midpoint :: "string \<Rightarrow> string \<Rightarrow> string" where
  "midpoint a [] =
     (if a_digit a 0 + 1 < 62 then [BASE62 ! ((a_digit a 0 + 62) div 2)]
      else [BASE62 ! a_digit a 0, BASE62 ! ((a_digit a 1 + 62) div 2)])"
| "midpoint a (c # b) =
     (if a_digit a 0 + 1 < base62_index c then [BASE62 ! ((a_digit a 0 + base62_index c) div 2)]
      else if a_digit a 0 = base62_index c then BASE62 ! base62_index c # midpoint (tl a) b
      else [BASE62 ! a_digit a 0, BASE62 ! ((a_digit a 1 + 62) div 2)])"

lemma a_digit_less [simp]: "a_digit a i < 62"
  by (simp add: a_digit_def)

lemma a_digit_drop [simp]: "a_digit (drop i a) j = a_digit a (i + j)"
  by (auto simp: a_digit_def)

lemma order_midpoint_loop_eq:
  assumes "length a \<le> m" and "length b \<le> m" and "i \<le> length b"
  shows "order_midpoint_loop a b m i result = result @ midpoint (drop i a) (drop i b)"
  using assms
proof (induction a b m i result rule: order_midpoint_loop.induct)
  case (1 a b m i result)
  show ?case
  proof (cases "i < length b")
    case True
    then have d: "drop i b = b ! i # drop (Suc i) b" "b_digit b i = base62_index (b ! i)"
      by (simp_all add: Cons_nth_drop_Suc b_digit_def)
    show ?thesis
      using 1 True by (simp add: order_midpoint_loop.simps [of a b m i] d drop_Suc [symmetric] tl_drop)
  next
    case False
    with "1.prems" have i: "i = length b" "b_digit b i = 62" by (simp_all add: b_digit_def)
    moreover have "a_digit a (length b) \<noteq> 62" by (metis a_digit_less less_irrefl)
    ultimately show ?thesis
      using "1.prems" by (simp add: order_midpoint_loop.simps [of a b m "length b"])
  qed
qed

lemma order_midpoint_eq: "order_midpoint a b = midpoint a b"
  by (simp add: order_midpoint_def order_midpoint_loop_eq)

lemma midpoint_upper:
  assumes "a < b" and "base62_key a" and "base62_key b" and "\<not> zero_gap a b"
  shows "midpoint a b @ s < b"
  using assms
proof (induction a b rule: midpoint.induct)
  case (1 a)
  then show ?case by simp
next
  case (2 a c b)
  have c: "BASE62 ! base62_index c = c" using "2.prems" by (simp add: base62_key_def)
  have below: "BASE62 ! i < c" if "i < base62_index c" for i
    using that base62_index_less [of c] by (subst c [symmetric]) (simp del: base62_index_less)
  show ?case
  proof (cases "a_digit a 0 = base62_index c")
    case False
    have "a_digit a 0 < base62_index c"
      using False "2.prems" by (cases a) (auto simp: a_digit_def base62_key_def BASE62_char_less)
    with False show ?thesis by (auto intro!: below)
  next
    case True
    have "tl a < b \<and> base62_key (tl a) \<and> base62_key b \<and> \<not> zero_gap (tl a) b"
    proof (cases a)
      case Nil
      then have "c = CHR ''0''" using True c by (simp add: a_digit_def BASE62_0)
      with Nil "2.prems" show ?thesis by (cases b) (auto simp: base62_key_def)
    next
      case (Cons p a')
      then have "p = c" using True c "2.prems" by (metis a_digit_def base62_key_def length_Cons list.set_intros(1) nth_Cons_0 nth_base62_index subsetD zero_less_Suc)
      with Cons "2.prems" show ?thesis by (auto simp: base62_key_def)
    qed
    with 2 True c show ?thesis by auto
  qed
qed

lemma base62_index_z: "q \<in> set BASE62 \<Longrightarrow> base62_index q = 61 \<longleftrightarrow> q = CHR ''z''"
proof -
  assume "q \<in> set BASE62"
  moreover have "BASE62 ! 61 = CHR ''z''" by (simp add: BASE62_def)
  moreover have "base62_index (BASE62 ! 61) = 61" by simp
  ultimately show ?thesis by (metis nth_base62_index)
qed

lemma midpoint_lower_iff:
  assumes "a < b" and "base62_key a" and "base62_key b"
  shows "a < midpoint a b \<longleftrightarrow> \<not> z_trap a b"
  using assms
proof (induction a b rule: midpoint.induct)
  case (1 a)
  then show ?case by simp
next
  case (2 a c b)
  show ?case
  proof (cases a)
    case Nil
    then show ?thesis by (simp add: a_digit_def)
  next
    case (Cons p a')
    then have p: "BASE62 ! base62_index p = p" "p \<in> set BASE62" "c \<in> set BASE62" "base62_key a'" "base62_key b"
      and dig: "a_digit a 0 = base62_index p"
      using "2.prems" by (auto simp: base62_key_def a_digit_def)
    have above: "p < BASE62 ! i" if "base62_index p < i" "i < 62" for i
      using that base62_index_less [of p] by (subst p(1) [symmetric]) (simp del: base62_index_less)
    show ?thesis
    proof (cases "p = c")
      case True
      with 2 Cons dig p show ?thesis by auto
    next
      case False
      with "2.prems" Cons have "p < c" by auto
      then have lt: "base62_index p < base62_index c" using p by (simp add: BASE62_char_less)
      show ?thesis
      proof (cases "base62_index p + 1 < base62_index c")
        case True
        then show ?thesis using Cons dig False base62_index_less [of c] by (auto intro!: above simp del: base62_index_less)
      next
        case near: False
        show ?thesis
        proof (cases a')
          case Nil
          with Cons dig lt near False p(1) show ?thesis by simp
        next
          case q: (Cons q r)
          have dq: "a_digit a 1 = base62_index q" and qs: "q \<in> set BASE62"
            using Cons q p by (simp_all add: a_digit_def base62_key_def)
          have m: "(base62_index q + 62) div 2 < 62" using base62_index_less [of q] by arith
          have "q < BASE62 ! ((base62_index q + 62) div 2) \<longleftrightarrow> base62_index q < (base62_index q + 62) div 2"
            using m qs by (metis BASE62_less base62_index_less nth_base62_index)
          also have "\<dots> \<longleftrightarrow> base62_index q \<noteq> 61" using base62_index_less [of q] by arith
          finally have "a' < [BASE62 ! ((base62_index q + 62) div 2)] \<longleftrightarrow> q \<noteq> CHR ''z''"
            using q qs by (simp add: base62_index_z)
          with Cons q dig dq lt near False p(1) show ?thesis by auto
        qed
      qed
    qed
  qed
qed

lemma canonical_boundary:
  assumes "rest \<noteq> []" and "base62_key rest"
  shows "is_char_boundary (''V'' @ base62_encode_padded n 11 @ rest) 12"
proof -
  obtain c r where rest: "rest = c # r" using assms(1) by (cases rest) auto
  then have "of_char c < (128::nat)" using assms(2) by (auto simp: base62_key_def BASE62_def)
  then show ?thesis by (simp add: is_char_boundary_def nth_append key_simps rest)
qed

section \<open>The contract of an append key\<close>

text \<open>
  What the block store needs of the function that makes the key of an appended block: the new
  key is strictly greater than the predecessor's.  Then a run of appends gives strictly
  increasing keys, whatever counters the store holds.
\<close>

definition canonical_key :: "string set \<Rightarrow> string \<Rightarrow> bool" where
  "canonical_key S k \<longleftrightarrow> (\<exists>m. \<exists>s \<in> S. k = ''V'' @ base62_encode_padded m 11 @ s)"

fun append_run :: "(string \<Rightarrow> string \<Rightarrow> string) \<Rightarrow> string \<Rightarrow> string list \<Rightarrow> string list" where
  "append_run succ k [] = [k]"
| "append_run succ k (s # ss) = k # append_run succ (succ k s) ss"

locale append_key =
  fixes succ :: "string \<Rightarrow> string \<Rightarrow> string"
  assumes succ_gt: "k < succ k s"
begin

lemma append_run_lower: "x \<in> set (append_run succ k ss) \<Longrightarrow> k \<le> x"
proof (induction ss arbitrary: k)
  case Nil
  then show ?case by simp
next
  case (Cons s ss)
  then show ?case using succ_gt [of k s] by (auto dest: Cons.IH)
qed

lemma append_run_strict: "sorted_wrt (<) (append_run succ k ss)"
proof (induction ss arbitrary: k)
  case Nil
  then show ?case by simp
next
  case (Cons s ss)
  then show ?case using succ_gt [of k s] by (auto dest: append_run_lower)
qed

end

interpretation ok_succ: append_key order_key_successor
  by unfold_locales (rule order_key_successor_gt)

lemma append_run_canonical:
  assumes "0 \<le> n" and "n + int (length ss) \<le> i64_max"
    and "rest \<in> S" and "set ss \<subseteq> S" and "\<forall>s \<in> S. s \<noteq> [] \<and> base62_key s"
    and "k \<in> set (append_run order_key_successor (''V'' @ base62_encode_padded n 11 @ rest) ss)"
  shows "canonical_key S k"
  using assms
proof (induction ss arbitrary: n rest)
  case Nil
  then show ?case by (auto simp: canonical_key_def)
next
  case (Cons s ss)
  have "is_char_boundary (''V'' @ base62_encode_padded n 11 @ rest) 12"
    using Cons.prems by (intro canonical_boundary) auto
  then have succ: "order_key_successor (''V'' @ base62_encode_padded n 11 @ rest) s
      = ''V'' @ base62_encode_padded (n + 1) 11 @ s"
    using Cons.prems by (intro order_key_successor_canonical) auto
  show ?case
  proof (cases "k = ''V'' @ base62_encode_padded n 11 @ rest")
    case True
    with Cons.prems(3) show ?thesis unfolding canonical_key_def by blast
  next
    case False
    with Cons.prems(6) have "k \<in> set (append_run order_key_successor (''V'' @ base62_encode_padded (n + 1) 11 @ s) ss)"
      unfolding append_run.simps succ by simp
    with Cons.prems show ?thesis by (intro Cons.IH [of "n + 1" s]) auto
  qed
qed

section \<open>Properties\<close>

text \<open>
  Decoding inverts the fixed-width encoding: every non-negative \<open>i64\<close> is recovered from its
  11-digit key.
\<close>

theorem base62_roundtrip:
  assumes "0 \<le> v" and "v \<le> i64_max"
  shows "base62_decode (base62_encode_padded v 11) = Some v"
proof -
  have "base62_digits 11 (nat v) \<noteq> []" by (simp flip: length_greater_0_conv)
  moreover have "nat v < 62 ^ 11" using assms canonical_pow by (simp add: nat_less_iff)
  ultimately show ?thesis
    using assms by (simp add: base62_decode_def key_simps max_def base62_decode_loop_digits)
qed

theorem base62_roundtrip_witness:
  "base62_decode (base62_encode_padded 3843 11) = Some 3843"
  by (rule base62_roundtrip) (simp_all add: i64_defs)

text \<open>
  The byte order of fixed-width keys is the order of the numbers they encode, so keys derived
  from an increasing tick sort in tick order.
\<close>

lemma base62_encode_monotone:
  assumes "0 \<le> v" and "v < w" and "w \<le> i64_max"
  shows "base62_encode_padded v 11 < base62_encode_padded w 11"
proof -
  have "nat w < 62 ^ 11" using assms canonical_pow by (simp add: nat_less_iff)
  moreover have "nat v < nat w" using assms by simp
  ultimately show ?thesis using assms by (simp add: key_simps max_def base62_digits_less)
qed

text \<open>
  C37: appending never depends on a counter: starting from any key, the keys made by successive
  calls of \<^const>\<open>order_key_successor\<close> strictly increase, and starting from a canonical key they
  are all canonical again, a \<open>V\<close>, eleven digits and the suffix of the inserting agent, as long as
  the number stays in the range of \<open>i64\<close>: appends never lengthen a key.
\<close>

theorem order_key_append_run:
  assumes "0 \<le> n" and "n + int (length ss) \<le> i64_max"
    and "\<forall>s \<in> set (rest # ss). s \<noteq> [] \<and> base62_key s"
  shows "sorted_wrt (<) (append_run order_key_successor k ss)
    \<and> list_all (canonical_key (set (rest # ss)))
          (append_run order_key_successor (''V'' @ base62_encode_padded n 11 @ rest) ss)"
  using ok_succ.append_run_strict append_run_canonical [OF assms(1,2) _ _ assms(3)]
  by (auto simp: list_all_iff)

theorem order_key_append_run_witness:
  "list_all (canonical_key (set [''abcd'', ''wxyz'']))
     (append_run order_key_successor (''V'' @ base62_encode_padded 7 11 @ ''abcd'') [''wxyz''])"
proof -
  have *: "7 + int (length [''wxyz'']) \<le> i64_max" "\<forall>s \<in> set [''abcd'', ''wxyz'']. s \<noteq> [] \<and> base62_key s"
    by (simp_all add: i64_defs base62_key_def BASE62_def)
  show ?thesis
    by (rule order_key_append_run [OF _ *, THEN conjunct2]) simp
qed

text \<open>
  The midpoint of two base-62 keys \<open>a < b\<close>, with any suffix appended, stays strictly below
  \<open>b\<close> unless \<open>b\<close> is \<open>a\<close> followed by zeros; it is strictly above \<open>a\<close> exactly when the pair is
  not a \<^const>\<open>z_trap\<close>.
\<close>

theorem order_midpoint_between:
  assumes "a < b" and "base62_key a" and "base62_key b" and "\<not> zero_gap a b"
  shows "order_midpoint a b @ suffix < b \<and> (a < order_midpoint a b \<longleftrightarrow> \<not> z_trap a b)"
  using assms by (simp add: order_midpoint_eq midpoint_upper midpoint_lower_iff)

theorem order_midpoint_between_witness:
  "order_midpoint ''V1'' ''V3'' @ ''abcd'' < ''V3'' \<and> ''V1'' < order_midpoint ''V1'' ''V3''"
  using order_midpoint_between [of "''V1''" "''V3''" "''abcd''"]
  by (simp add: base62_key_def BASE62_def)

text \<open>
  The documented guarantee of \<^const>\<open>order_midpoint\<close> fails: with a lower key that goes on with
  \<open>z\<close> the result is not above it, although a key between the two exists.  The keys are those of
  two ticks written by an agent whose lane starts with \<open>z\<close>; the suffix of another agent does not
  lift the result above the lower key.
\<close>

theorem order_midpoint_not_above:
  "''V00000000000zabc'' < ''V00000000001zabc''
   \<and> order_midpoint ''V00000000000zabc'' ''V00000000001zabc'' @ ''0000'' < ''V00000000000zabc''
   \<and> ''V00000000000zabc'' < ''V00000000000zzzz''
   \<and> ''V00000000000zzzz'' < ''V00000000001zabc''"
  by (simp add: order_midpoint_eq a_digit_def base62_index_def BASE62_def)

end
