(* ===== verification/Selection.thy ===== *)
theory Selection
  imports Rust_Text "HOL-Library.Product_Lexorder"
begin

text \<open>
  Interval selection over block positions, \<open>crates/kaijutsu-crdt/src/selection.rs\<close>.

  A run is the half-open range \<open>lo..hi\<close>, an interval set the list of its runs.  The operations
  follow the code: normalisation sorts and folds neighbouring runs into the last one,
  intersection is the walk over two run lists, difference carves the runs of the other set out
  of each run from left to right.

  The contract of the set algebra is the locale \<open>position_set\<close>: which positions a set covers
  and when two sets are equal.  It is interpreted on the code's operations, and the keep-set
  formula of a fork follows from the contract.
\<close>

section \<open>Interval sets\<close>

type_synonym run = "usize \<times> usize"

type_synonym IntervalSet = "run list"

definition is_empty :: "IntervalSet \<Rightarrow> bool" where
  "is_empty s \<longleftrightarrow> s = []"

definition full :: "usize \<Rightarrow> IntervalSet" where
  "full len = (if 0 < len then [(0, len)] else [])"

text \<open>One step of the merge loop: extend the last run or push a new one.\<close>

definition push_run :: "run \<Rightarrow> IntervalSet \<Rightarrow> IntervalSet" where
  "push_run r merged =
     (if merged \<noteq> [] \<and> fst r \<le> snd (last merged)
      then butlast merged @ [(fst (last merged), max (snd (last merged)) (snd r))]
      else merged @ [r])"

definition from_ranges :: "run list \<Rightarrow> IntervalSet" where
  "from_ranges rs = fold push_run (sort (filter (\<lambda>r. fst r < snd r) rs)) []"

definition count :: "IntervalSet \<Rightarrow> usize" where
  "count s = sum_list (map (\<lambda>r. snd r - fst r) s)"

definition interval_union :: "IntervalSet \<Rightarrow> IntervalSet \<Rightarrow> IntervalSet" where
  "interval_union s t = from_ranges (s @ t)"

fun intersect_walk :: "IntervalSet \<Rightarrow> IntervalSet \<Rightarrow> run list" where
  "intersect_walk (a # as) (b # bs) =
     (let lo = max (fst a) (fst b); hi = min (snd a) (snd b);
          out = (if lo < hi then [(lo, hi)] else [])
      in out @ (if snd a < snd b then intersect_walk as (b # bs) else intersect_walk (a # as) bs))"
| "intersect_walk as bs = []"

definition intersect :: "IntervalSet \<Rightarrow> IntervalSet \<Rightarrow> IntervalSet" where
  "intersect s t = from_ranges (intersect_walk s t)"

text \<open>The inner loop of \<open>difference\<close>: the pieces left of one run, and the final cursor.\<close>

fun carve :: "run \<Rightarrow> usize \<Rightarrow> IntervalSet \<Rightarrow> run list \<times> usize" where
  "carve a cursor [] = ([], cursor)"
| "carve a cursor (b # bs) =
     (if snd b \<le> cursor then carve a cursor bs
      else if snd a \<le> fst b then ([], cursor)
      else
        (let piece = (if cursor < fst b then [(cursor, min (fst b) (snd a))] else []);
             cursor' = max cursor (snd b)
         in if snd a \<le> cursor' then (piece, cursor')
            else (let (ps, c) = carve a cursor' bs in (piece @ ps, c))))"

definition carve_run :: "IntervalSet \<Rightarrow> run \<Rightarrow> run list" where
  "carve_run bs a =
     (let (ps, cursor) = carve a (fst a) bs
      in if cursor < snd a then ps @ [(cursor, snd a)] else ps)"

definition difference :: "IntervalSet \<Rightarrow> IntervalSet \<Rightarrow> IntervalSet" where
  "difference s t = from_ranges (concat (map (carve_run t) s))"

definition contains_subset :: "IntervalSet \<Rightarrow> IntervalSet \<Rightarrow> bool" where
  "contains_subset s t \<longleftrightarrow> is_empty (difference t s)"

definition contains_position :: "IntervalSet \<Rightarrow> usize \<Rightarrow> bool" where
  "contains_position s pos \<longleftrightarrow> list_ex (\<lambda>r. fst r \<le> pos \<and> pos < snd r) s"

section \<open>Fork selections\<close>

datatype SelectionError = IncludeViolation "run list"

definition resolve_keep_set ::
  "IntervalSet \<Rightarrow> IntervalSet option \<Rightarrow> IntervalSet \<Rightarrow> SelectionError + IntervalSet" where
  "resolve_keep_set base cli_includes excludes =
     (let includes = (case cli_includes of Some inc \<Rightarrow> inc | None \<Rightarrow> base);
          kept = difference (intersect base includes) excludes
      in case cli_includes of
           Some inc \<Rightarrow>
             (if \<not> contains_subset kept inc then Inl (IncludeViolation (difference inc kept))
              else Inr kept)
         | None \<Rightarrow> Inr kept)"

definition window_base :: "usize \<Rightarrow> usize option \<Rightarrow> usize \<Rightarrow> IntervalSet" where
  "window_base len marker_idx window =
     (case marker_idx of
        None \<Rightarrow> full len
      | Some m \<Rightarrow>
          (let prefix_end = min (m + 1) len; tail_start = len - window
           in from_ranges [(0, prefix_end), (tail_start, len)]))"

datatype RangeError = NotARange string | BadEndpoint string | Reversed usize usize

definition parse_usize :: "string \<Rightarrow> usize option" where
  "parse_usize = parse_u64"

definition parse_endpoint :: "string \<Rightarrow> usize \<Rightarrow> RangeError + usize" where
  "parse_endpoint s len =
     (if s = ''end'' then Inr len
      else case strip_prefix s ''end-'' of
             Some n \<Rightarrow>
               (case parse_usize n of None \<Rightarrow> Inl (BadEndpoint s) | Some v \<Rightarrow> Inr (len - v))
           | None \<Rightarrow>
               (case parse_usize s of None \<Rightarrow> Inl (BadEndpoint s) | Some v \<Rightarrow> Inr v))"

definition parse_range :: "string \<Rightarrow> usize \<Rightarrow> RangeError + run" where
  "parse_range spec len =
     (case split_once (CHR '':'') spec of
        None \<Rightarrow> Inl (NotARange spec)
      | Some (lo_s, hi_s) \<Rightarrow>
          (if CHR '':'' \<in> set hi_s then Inl (NotARange spec)
           else case (if lo_s = [] then Inr 0 else parse_endpoint lo_s len) of
                  Inl e \<Rightarrow> Inl e
                | Inr lo \<Rightarrow>
                    (case (if hi_s = [] then Inr len else parse_endpoint hi_s len) of
                       Inl e \<Rightarrow> Inl e
                     | Inr hi \<Rightarrow>
                         (let lo = min lo len; hi = min hi len
                          in if hi < lo then Inl (Reversed lo hi) else Inr (lo, hi)))))"

section \<open>Positions\<close>

definition positions :: "run list \<Rightarrow> nat set" where
  "positions s = (\<Union>r \<in> set s. {fst r..<snd r})"

definition canonical :: "IntervalSet \<Rightarrow> bool" where
  "canonical s \<longleftrightarrow> list_all (\<lambda>r. fst r < snd r) s \<and> sorted_wrt (\<lambda>r r'. snd r < fst r') s"

lemma positions_simps [simp]:
  "positions [] = {}" "positions (r # s) = {fst r..<snd r} \<union> positions s"
  "positions (s @ t) = positions s \<union> positions t"
  by (auto simp: positions_def)

lemma positions_filter [simp]: "positions (filter (\<lambda>r. fst r < snd r) rs) = positions rs"
  by (auto simp: positions_def)

lemma positions_sort [simp]: "positions (sort rs) = positions rs"
  by (simp add: positions_def)

lemma canonical_Nil [simp]: "canonical []"
  by (simp add: canonical_def)

lemma canonical_Cons:
  "canonical (r # s) \<longleftrightarrow> fst r < snd r \<and> (\<forall>q \<in> set s. snd r < fst q) \<and> canonical s"
  by (auto simp: canonical_def)

lemma canonical_snoc:
  "canonical (s @ [r]) \<longleftrightarrow> canonical s \<and> fst r < snd r \<and> (\<forall>q \<in> set s. snd q < fst r)"
  by (auto simp: canonical_def sorted_wrt_append)

text \<open>The merge loop keeps the runs canonical as long as the starts arrive in order.\<close>

lemma push_run_correct:
  assumes "canonical m" and "fst r < snd r" and "m \<noteq> [] \<Longrightarrow> fst (last m) \<le> fst r"
  shows "canonical (push_run r m) \<and> positions (push_run r m) = positions m \<union> {fst r..<snd r}
    \<and> push_run r m \<noteq> [] \<and> fst (last (push_run r m)) \<le> fst r"
proof (cases m rule: rev_cases)
  case Nil
  with assms(2) show ?thesis by (simp add: push_run_def canonical_Cons)
next
  case (snoc m' l)
  from assms(1) snoc have l: "fst l < snd l" "\<forall>q \<in> set m'. snd q < fst l" "canonical m'"
    by (simp_all add: canonical_snoc)
  show ?thesis
  proof (cases "fst r \<le> snd l")
    case True
    with assms snoc l show ?thesis by (force simp: push_run_def canonical_snoc)
  next
    case False
    with l have "\<forall>q \<in> set m. snd q < fst r" using snoc by auto
    with assms(1,2) have "canonical (m @ [r])" by (simp add: canonical_snoc)
    moreover from False snoc have "push_run r m = m @ [r]" by (simp add: push_run_def)
    ultimately show ?thesis by auto
  qed
qed

lemma fold_push_run:
  assumes "sorted rs" and "list_all (\<lambda>r. fst r < snd r) rs" and "canonical m"
    and "m \<noteq> [] \<Longrightarrow> list_all (\<lambda>r. fst (last m) \<le> fst r) rs"
  shows "canonical (fold push_run rs m) \<and> positions (fold push_run rs m) = positions m \<union> positions rs"
  using assms
proof (induction rs arbitrary: m)
  case Nil
  then show ?case by simp
next
  case (Cons r rs)
  have p: "canonical (push_run r m) \<and> positions (push_run r m) = positions m \<union> {fst r..<snd r}
      \<and> push_run r m \<noteq> [] \<and> fst (last (push_run r m)) \<le> fst r"
    using Cons.prems by (intro push_run_correct) auto
  have "list_all (\<lambda>q. fst r \<le> fst q) rs"
    using Cons.prems(1) by (auto simp: list_all_iff less_eq_prod_def)
  with p have "list_all (\<lambda>q. fst (last (push_run r m)) \<le> fst q) rs"
    by (auto simp: list_all_iff intro: order_trans)
  with Cons p have "canonical (fold push_run rs (push_run r m))
      \<and> positions (fold push_run rs (push_run r m)) = positions (push_run r m) \<union> positions rs"
    by (intro Cons.IH) auto
  with p show ?case by auto
qed

lemma from_ranges_correct: "canonical (from_ranges rs) \<and> positions (from_ranges rs) = positions rs"
  using fold_push_run [of "sort (filter (\<lambda>r. fst r < snd r) rs)" "[]"]
  by (simp add: from_ranges_def list_all_iff)

lemmas canonical_from_ranges [simp] = from_ranges_correct [THEN conjunct1]
lemmas positions_from_ranges [simp] = from_ranges_correct [THEN conjunct2]

lemma full_correct [simp]: "canonical (full n)" "positions (full n) = {0..<n}"
  by (simp_all add: full_def canonical_Cons)

text \<open>The intersection walk.\<close>

lemma canonical_after:
  "canonical (r # s) \<Longrightarrow> x \<in> positions s \<Longrightarrow> snd r < x"
  by (auto simp: canonical_Cons positions_def intro: less_le_trans)

lemma intersect_walk_positions:
  "canonical s \<Longrightarrow> canonical t \<Longrightarrow> positions (intersect_walk s t) = positions s \<inter> positions t"
proof (induction s t rule: intersect_walk.induct)
  case (1 a as b bs)
  note tails = canonical_after [OF "1.prems"(1)] canonical_after [OF "1.prems"(2)]
  have c: "canonical as" "canonical bs" using 1 by (simp_all add: canonical_Cons)
  show ?case
  proof (cases "snd a < snd b")
    case True
    then have "positions (intersect_walk as (b # bs)) = positions as \<inter> positions (b # bs)"
      using "1.IH"(1) [OF refl refl refl True c(1) "1.prems"(2)] by simp
    with True tails show ?thesis
      by (auto simp: Let_def) (metis less_asym less_trans not_le order_less_le_trans)+
  next
    case False
    then have "positions (intersect_walk (a # as) bs) = positions (a # as) \<inter> positions bs"
      using "1.IH"(2) [OF refl refl refl False "1.prems"(1) c(2)] by simp
    with False tails show ?thesis
      by (auto simp: Let_def) (metis less_asym less_trans not_le order_less_le_trans)+
  qed
qed simp_all

text \<open>Carving.\<close>

lemma carve_positions:
  "canonical bs \<Longrightarrow> carve a cursor bs = (ps, c) \<Longrightarrow> cursor \<le> snd a \<Longrightarrow>
   positions ps \<union> {c..<snd a} = {cursor..<snd a} - positions bs"
proof (induction a cursor bs arbitrary: ps c rule: carve.induct)
  case (1 a cursor)
  then show ?case by simp
next
  case (2 a cursor b bs)
  note after = canonical_after [OF "2.prems"(1)]
  have cb: "canonical bs" using "2.prems"(1) by (simp add: canonical_Cons)
  consider (left) "snd b \<le> cursor" | (right) "cursor < snd b" "snd a \<le> fst b"
    | (last) "cursor < snd b" "fst b < snd a" "snd a \<le> max cursor (snd b)"
    | (more) "cursor < snd b" "fst b < snd a" "max cursor (snd b) < snd a"
    by linarith
  then show ?case
  proof cases
    case left
    with 2 cb have "positions ps \<union> {c..<snd a} = {cursor..<snd a} - positions bs" by simp
    with left show ?thesis by auto
  next
    case right
    with "2.prems" have ps: "ps = []" "c = cursor" by auto
    have "x \<notin> positions (b # bs)" if "x < snd a" for x
      using right that after [of x] "2.prems"(1) by (auto simp: canonical_Cons)
    with ps show ?thesis by auto
  next
    case last
    with "2.prems" have ps: "ps = (if cursor < fst b then [(cursor, min (fst b) (snd a))] else [])"
        "c = max cursor (snd b)"
      by (auto simp: Let_def)
    have "x \<notin> positions bs" if "x < snd a" for x
      using last that after [of x] by auto
    with ps last show ?thesis by (auto split: if_splits)
  next
    case more
    then obtain qs where qs: "carve a (max cursor (snd b)) bs = (qs, c)"
        "ps = (if cursor < fst b then [(cursor, min (fst b) (snd a))] else []) @ qs"
      using "2.prems" by (auto simp: Let_def split: prod.splits)
    have "positions qs \<union> {c..<snd a} = {max cursor (snd b)..<snd a} - positions bs"
      using more by (intro "2.IH"(2) [OF _ _ refl refl _ cb qs(1)]) auto
    then have E: "x \<in> positions qs \<or> c \<le> x \<and> x < snd a
        \<longleftrightarrow> max cursor (snd b) \<le> x \<and> x < snd a \<and> x \<notin> positions bs" for x
      by (auto simp: set_eq_iff)
    show ?thesis
    proof (rule set_eqI)
      fix x
      show "x \<in> positions ps \<union> {c..<snd a} \<longleftrightarrow> x \<in> {cursor..<snd a} - positions (b # bs)"
        using E [of x] after [of x] more qs(2) "2.prems"(1)
        by (cases "cursor < fst b") (auto simp: canonical_Cons)
    qed
  qed
qed

lemma carve_run_positions:
  assumes "canonical bs" and "fst a < snd a"
  shows "positions (carve_run bs a) = {fst a..<snd a} - positions bs"
proof -
  obtain ps c where c: "carve a (fst a) bs = (ps, c)" by force
  have "positions (carve_run bs a) = positions ps \<union> {c..<snd a}"
    by (auto simp: carve_run_def c)
  also have "\<dots> = {fst a..<snd a} - positions bs"
    using carve_positions [OF assms(1) c] assms(2) by simp
  finally show ?thesis .
qed

lemma concat_carve_positions:
  "canonical bs \<Longrightarrow> list_all (\<lambda>r. fst r < snd r) s \<Longrightarrow>
   positions (concat (map (carve_run bs) s)) = positions s - positions bs"
  by (induction s) (auto simp: carve_run_positions)

text \<open>A canonical run list is determined by its positions.\<close>

lemma canonical_bounds:
  assumes "canonical (r # s)"
  shows "fst r \<in> positions (r # s)" and "snd r \<notin> positions (r # s)"
    and "x \<in> positions (r # s) \<Longrightarrow> fst r \<le> x"
    and "positions s = positions (r # s) - {fst r..<snd r}"
  using assms canonical_after [OF assms] by (fastforce simp: canonical_Cons)+

lemma canonical_unique:
  "canonical s \<Longrightarrow> canonical t \<Longrightarrow> positions s = positions t \<Longrightarrow> s = t"
proof (induction s arbitrary: t)
  case Nil
  then show ?case
    by (cases t) (use canonical_bounds(1) in fastforce)+
next
  case (Cons r s)
  then obtain q u where t: "t = q # u"
    by (cases t) (use canonical_bounds(1) in fastforce)+
  note r = canonical_bounds [OF Cons.prems(1)]
  note q = canonical_bounds [OF Cons.prems(2) [unfolded t]]
  have eq: "positions (r # s) = positions (q # u)" using Cons.prems(3) t by simp
  have lo: "fst r = fst q"
    by (rule antisym; rule r(3) q(3)) (simp_all only: eq q(1) r(1) [unfolded eq])
  have ne: "fst r < snd r" "fst q < snd q" using Cons.prems t by (simp_all add: canonical_Cons)
  have "\<not> snd r < snd q"
    using r(2) ne lo unfolding eq by simp
  moreover have "\<not> snd q < snd r"
    using q(2) ne lo unfolding eq [symmetric] by simp
  ultimately have rq: "r = q" using lo by (simp add: prod_eq_iff)
  then have "positions s = positions u" using r(4) q(4) eq by simp
  with Cons t rq show ?case by (simp add: canonical_Cons)
qed

section \<open>The contract\<close>

text \<open>
  Sets of positions as clients see them: an abstraction to \<^typ>\<open>nat set\<close>, faithful on well-formed
  values, that the operations respect.
\<close>

locale position_set =
  fixes pos :: "'s \<Rightarrow> nat set"
    and ok :: "'s \<Rightarrow> bool"
    and uni :: "'s \<Rightarrow> 's \<Rightarrow> 's"
    and inter :: "'s \<Rightarrow> 's \<Rightarrow> 's"
    and diff :: "'s \<Rightarrow> 's \<Rightarrow> 's"
    and sub :: "'s \<Rightarrow> 's \<Rightarrow> bool"
  assumes ok_uni: "ok s \<Longrightarrow> ok t \<Longrightarrow> ok (uni s t)"
    and ok_inter: "ok s \<Longrightarrow> ok t \<Longrightarrow> ok (inter s t)"
    and ok_diff: "ok s \<Longrightarrow> ok t \<Longrightarrow> ok (diff s t)"
    and pos_uni: "ok s \<Longrightarrow> ok t \<Longrightarrow> pos (uni s t) = pos s \<union> pos t"
    and pos_inter: "ok s \<Longrightarrow> ok t \<Longrightarrow> pos (inter s t) = pos s \<inter> pos t"
    and pos_diff: "ok s \<Longrightarrow> ok t \<Longrightarrow> pos (diff s t) = pos s - pos t"
    and sub_iff: "ok s \<Longrightarrow> ok t \<Longrightarrow> sub s t \<longleftrightarrow> pos t \<subseteq> pos s"
    and ext: "ok s \<Longrightarrow> ok t \<Longrightarrow> pos s = pos t \<Longrightarrow> s = t"
begin

lemma keep_pos:
  "ok b \<Longrightarrow> ok i \<Longrightarrow> ok e \<Longrightarrow> ok (diff (inter b i) e) \<and> pos (diff (inter b i) e) = (pos b \<inter> pos i) - pos e"
  by (simp add: ok_inter ok_diff pos_inter pos_diff)

lemma include_survives_iff:
  "ok b \<Longrightarrow> ok i \<Longrightarrow> ok e \<Longrightarrow> sub (diff (inter b i) e) i \<longleftrightarrow> pos i \<subseteq> pos b \<and> pos i \<inter> pos e = {}"
  using keep_pos [of b i e] by (auto simp: sub_iff)

lemma uni_comm: "ok s \<Longrightarrow> ok t \<Longrightarrow> uni s t = uni t s"
  by (rule ext) (auto simp: ok_uni pos_uni)

lemma inter_comm: "ok s \<Longrightarrow> ok t \<Longrightarrow> inter s t = inter t s"
  by (rule ext) (auto simp: ok_inter pos_inter)

lemma diff_diff: "ok s \<Longrightarrow> ok t \<Longrightarrow> ok u \<Longrightarrow> diff (diff s t) u = diff s (uni t u)"
  by (rule ext) (auto simp: ok_diff ok_uni pos_diff pos_uni)

end

lemma canonical_nonempty: "canonical s \<Longrightarrow> s = [] \<longleftrightarrow> positions s = {}"
  using canonical_bounds(1) by (cases s) fastforce+

interpretation ivs: position_set positions canonical interval_union intersect difference contains_subset
proof
  fix s t :: IntervalSet
  assume s: "canonical s" and t: "canonical t"
  show "canonical (interval_union s t)" "canonical (intersect s t)" "canonical (difference s t)"
    by (simp_all add: interval_union_def intersect_def difference_def)
  show "positions (interval_union s t) = positions s \<union> positions t"
    by (simp add: interval_union_def)
  show "positions (intersect s t) = positions s \<inter> positions t"
    using s t by (simp add: intersect_def intersect_walk_positions)
  have d: "positions (difference s t) = positions s - positions t" if "canonical s" "canonical t" for s t
    using that by (simp add: difference_def concat_carve_positions canonical_def)
  then show "positions (difference s t) = positions s - positions t" using s t by blast
  have "canonical (difference t s)" by (simp add: difference_def)
  then show "contains_subset s t \<longleftrightarrow> positions t \<subseteq> positions s"
    using d [OF t s] by (simp add: contains_subset_def is_empty_def canonical_nonempty)
  show "positions s = positions t \<Longrightarrow> s = t" using s t by (rule canonical_unique)
qed

lemma contains_position_iff: "contains_position s p \<longleftrightarrow> p \<in> positions s"
  by (auto simp: contains_position_def positions_def list_ex_iff)

lemma count_card: "canonical s \<Longrightarrow> count s = card (positions s)"
proof (induction s)
  case Nil
  then show ?case by (simp add: count_def)
next
  case (Cons r s)
  have "{fst r..<snd r} \<inter> positions s = {}"
    using canonical_after [OF Cons.prems] by fastforce
  moreover have "finite (positions s)" by (simp add: positions_def)
  ultimately show ?case
    using Cons by (simp add: count_def canonical_Cons card_Un_disjoint)
qed

lemma show_nat_no_colon: "CHR '':'' \<notin> set (show_nat n)"
  using show_nat_digits [of n] by auto

lemma parse_endpoint_show: "n \<le> u64_max \<Longrightarrow> parse_endpoint (show_nat n) len = Inr n"
proof -
  assume n: "n \<le> u64_max"
  have e: "CHR ''e'' \<notin> set (show_nat n)" using show_nat_digits [of n] by auto
  then have "show_nat n \<noteq> ''end''" by auto
  moreover from e have "strip_prefix (show_nat n) ''end-'' = None"
    by (auto simp: strip_prefix_def starts_with_iff)
  ultimately show ?thesis using n by (simp add: parse_endpoint_def parse_usize_def parse_u64_show)
qed

section \<open>Properties\<close>

text \<open>
  C35: the interval algebra is the algebra of the covered positions.  Normalisation accepts any
  ranges; union, intersection, difference, subset and membership agree with the set operations;
  the count is the number of positions; and two canonical sets are equal exactly when they cover
  the same positions.
\<close>

theorem interval_algebra:
  assumes "canonical s" and "canonical t"
  shows "canonical (from_ranges rs) \<and> positions (from_ranges rs) = positions rs
    \<and> canonical (interval_union s t) \<and> positions (interval_union s t) = positions s \<union> positions t
    \<and> canonical (intersect s t) \<and> positions (intersect s t) = positions s \<inter> positions t
    \<and> canonical (difference s t) \<and> positions (difference s t) = positions s - positions t
    \<and> (contains_subset s t \<longleftrightarrow> positions t \<subseteq> positions s)
    \<and> (contains_position s p \<longleftrightarrow> p \<in> positions s)
    \<and> count s = card (positions s)
    \<and> (s = t \<longleftrightarrow> positions s = positions t)"
proof -
  have "s = t \<longleftrightarrow> positions s = positions t" using ivs.ext [OF assms] by blast
  with assms show ?thesis
    by (simp add: ivs.ok_uni ivs.ok_inter ivs.ok_diff ivs.pos_uni ivs.pos_inter ivs.pos_diff
        ivs.sub_iff contains_position_iff count_card)
qed

theorem interval_algebra_witness:
  "positions (difference [(0, 4), (6, 9)] [(2, 7)]) = {0, 1, 7, 8}"
proof -
  have "canonical [(0, 4), (6, 9)]" "canonical [(2, 7)]" by (simp_all add: canonical_Cons)
  from interval_algebra [OF this, of "[]" 0]
  have "positions (difference [(0, 4), (6, 9)] [(2, 7)]) = positions [(0, 4), (6, 9)] - positions [(2, 7)]"
    by blast
  then show ?thesis by (simp add: set_eq_iff) presburger
qed

text \<open>
  The keep-set of a fork is \<open>(base \<inter> includes) \ excludes\<close>; it is refused exactly when an
  explicitly included position would not survive, and the refusal lists exactly the positions
  that would be lost.
\<close>

theorem resolve_keep_set_spec:
  assumes "canonical base" and "canonical excludes" and "\<forall>inc. cli = Some inc \<longrightarrow> canonical inc"
  shows "case resolve_keep_set base cli excludes of
      Inr kept \<Rightarrow> canonical kept
        \<and> positions kept = (positions base \<inter> (case cli of None \<Rightarrow> UNIV | Some inc \<Rightarrow> positions inc))
            - positions excludes
        \<and> (\<forall>inc. cli = Some inc \<longrightarrow> positions inc \<subseteq> positions kept)
    | Inl (IncludeViolation missing) \<Rightarrow>
        (\<exists>inc. cli = Some inc
           \<and> positions missing = positions inc - (positions base - positions excludes)
           \<and> positions missing \<noteq> {})"
proof (cases cli)
  case None
  with ivs.keep_pos [OF assms(1,1,2)] show ?thesis by (simp add: resolve_keep_set_def)
next
  case (Some inc)
  let ?kept = "difference (intersect base inc) excludes"
  have inc: "canonical inc" using assms(3) Some by simp
  note keep = ivs.keep_pos [OF assms(1) inc assms(2)]
  show ?thesis
  proof (cases "contains_subset ?kept inc")
    case True
    with Some keep inc show ?thesis by (simp add: resolve_keep_set_def ivs.sub_iff)
  next
    case False
    then have "\<not> positions inc \<subseteq> positions ?kept" using keep inc by (simp add: ivs.sub_iff)
    with Some keep inc False show ?thesis
      by (auto simp: resolve_keep_set_def ivs.pos_diff)
  qed
qed

theorem resolve_keep_set_spec_witness:
  "resolve_keep_set [(0, 9)] (Some [(2, 6)]) [(5, 7)] = Inl (IncludeViolation [(5, 6)])
   \<and> positions [(5, 6)] = positions [(2, 6)] - (positions [(0, 9)] - positions [(5, 7)])"
proof -
  have ok: "canonical [(0, 9)]" "canonical [(5, 7)]" "\<forall>inc. Some [(2, 6)] = Some inc \<longrightarrow> canonical inc"
    by (simp_all add: canonical_Cons)
  have m: "resolve_keep_set [(0, 9)] (Some [(2, 6)]) [(5, 7)] = Inl (IncludeViolation [(5, 6)])"
    by code_simp
  from resolve_keep_set_spec [OF ok]
  have "positions [(5, 6)] = positions [(2, 6)] - (positions [(0, 9)] - positions [(5, 7)])"
    unfolding m by simp
  with m show ?thesis by (rule conjI)
qed

text \<open>
  The window preset keeps exactly the prefix up to and including the marker and the last
  \<open>window\<close> positions, without gap or duplicate, and everything when there is no marker.
\<close>

theorem window_base_spec:
  "canonical (window_base len marker w)
   \<and> positions (window_base len marker w) =
       (case marker of
          None \<Rightarrow> {i. i < len}
        | Some m \<Rightarrow> {i. i < len \<and> (i \<le> m \<or> len \<le> i + w)})"
  by (cases marker) (auto simp: window_base_def Let_def)

text \<open>
  A parsed range always lies inside the log, and every range of the log is the parse of its
  printed form.
\<close>

theorem parse_range_spec:
  assumes "parse_range spec len = Inr (lo, hi)" and "l \<le> h" and "h \<le> len" and "len \<le> u64_max"
  shows "lo \<le> hi \<and> hi \<le> len \<and> parse_range (show_nat l @ '':'' @ show_nat h) len = Inr (l, h)"
proof -
  have "lo \<le> hi \<and> hi \<le> len"
    using assms(1)
    by (auto simp: parse_range_def Let_def not_less split: option.splits sum.splits if_splits)
  moreover have "parse_range (show_nat l @ '':'' @ show_nat h) len = Inr (l, h)"
    using assms(2-4) parse_endpoint_show [of l len] parse_endpoint_show [of h len]
    by (simp add: parse_range_def split_once_append show_nat_no_colon show_nat_not_Nil)
  ultimately show ?thesis by simp
qed

theorem parse_range_spec_witness:
  "parse_range (show_nat 2 @ '':'' @ show_nat 5) 9 = Inr (2, 5)"
proof -
  have "parse_range '':'' 9 = Inr (0, 9)" by (simp add: parse_range_def)
  then show ?thesis using parse_range_spec [of "'':''" 9 0 9 2 5] by (simp add: u64_max_def)
qed

end
