(* ===== verification/Block_Store.thy ===== *)
theory Block_Store
  imports Block_Content Order_Keys Selection
begin

text \<open>
  The block store, \<open>crates/kaijutsu-crdt/src/block_store.rs\<close>: a map of replicated blocks with
  per-principal sequence lanes, a Lamport clock, a timeline tick counter and fractional order
  keys.

  Operations pass the store explicitly and return it together with the result, because several
  of them change the store before they validate their arguments (a lane or the clock moves even
  when the operation fails).  Insertions built on a snapshot constructor return \<^const>\<open>None\<close> when
  the constructor panics.  \<open>u64\<close> counters are natural numbers and the \<open>i64\<close> tick counter is an
  integer: the model does not wrap them.  \<open>Counter_Width\<close> writes the counters at their width, says
  for which stores the two agree, and the invariants of the stores a program reaches are stated for
  these.

  This theory holds the definitions; the facts are in \<open>Store_Facts\<close>, the properties in
  \<open>Store_Props\<close>, \<open>Store_Sync\<close> and \<open>Store_Fork\<close>.
\<close>

section \<open>State\<close>

record 'd BlockStore =
  st_context_id :: ContextId
  st_principal_id :: PrincipalId
  st_blocks :: "(BlockId, 'd BlockContent) btree"
  st_seq_lanes :: "PrincipalId \<rightharpoonup> u64"
  st_version :: u64
  st_lamport_clock :: u64
  st_next_tick :: i64

definition store_new :: "ContextId \<Rightarrow> PrincipalId \<Rightarrow> 'd BlockStore" where
  "store_new ctx p =
     \<lparr>st_context_id = ctx, st_principal_id = p, st_blocks = [], st_seq_lanes = Map.empty,
      st_version = 0, st_lamport_clock = 0, st_next_tick = 0\<rparr>"

definition clock_tick :: "'d BlockStore \<Rightarrow> 'd BlockStore \<times> u64" where
  "clock_tick s =
     (let t = st_lamport_clock s + 1 in (s\<lparr>st_lamport_clock := t\<rparr>, t))"

definition merge_clock :: "u64 \<Rightarrow> 'd BlockStore \<Rightarrow> 'd BlockStore" where
  "merge_clock remote_ts s = s\<lparr>st_lamport_clock := max (st_lamport_clock s) remote_ts + 1\<rparr>"

definition set_principal_id :: "PrincipalId \<Rightarrow> 'd BlockStore \<Rightarrow> 'd BlockStore" where
  "set_principal_id p s = s\<lparr>st_principal_id := p\<rparr>"

definition set_version :: "u64 \<Rightarrow> 'd BlockStore \<Rightarrow> 'd BlockStore" where
  "set_version v s = s\<lparr>st_version := v\<rparr>"

section \<open>Queries\<close>

definition live_entries :: "'d BlockStore \<Rightarrow> (BlockId \<times> 'd BlockContent) list" where
  "live_entries s = filter (\<lambda>(_, b). \<not> bc_deleted b) (st_blocks s)"

definition is_live :: "'d BlockStore \<Rightarrow> BlockId \<Rightarrow> bool" where
  "is_live s i = (case bt_get (st_blocks s) i of Some b \<Rightarrow> \<not> bc_deleted b | None \<Rightarrow> False)"

definition block_count :: "'d BlockStore \<Rightarrow> usize" where
  "block_count s = length (live_entries s)"

definition store_is_empty :: "'d BlockStore \<Rightarrow> bool" where
  "store_is_empty s \<longleftrightarrow> block_count s = 0"

definition get_block_snapshot ::
  "('d, 'o, 'f) dte \<Rightarrow> 'd BlockStore \<Rightarrow> BlockId \<Rightarrow> BlockSnapshot option" where
  "get_block_snapshot D s i =
     (case bt_get (st_blocks s) i of
        None \<Rightarrow> None
      | Some b \<Rightarrow> if bc_deleted b then None else Some (content_snapshot D b))"

definition order_pairs :: "'d BlockStore \<Rightarrow> (string \<times> BlockId) list" where
  "order_pairs s = sort (map (\<lambda>(i, b). (bc_order_key b, i)) (live_entries s))"

definition block_ids_ordered :: "'d BlockStore \<Rightarrow> BlockId list" where
  "block_ids_ordered s = map snd (order_pairs s)"

fun option_max :: "'a::linorder list \<Rightarrow> 'a option" where
  "option_max [] = None"
| "option_max (x # xs) = (case option_max xs of None \<Rightarrow> Some x | Some y \<Rightarrow> Some (max x y))"

definition live_ticks :: "'d BlockStore \<Rightarrow> Tick list" where
  "live_ticks s = List.map_filter (\<lambda>(_, b). bc_tick b) (live_entries s)"

definition max_tick :: "'d BlockStore \<Rightarrow> Tick option" where
  "max_tick s = option_max (live_ticks s)"

definition blocks_ordered :: "('d, 'o, 'f) dte \<Rightarrow> 'd BlockStore \<Rightarrow> BlockSnapshot list" where
  "blocks_ordered D s = List.map_filter (get_block_snapshot D s) (block_ids_ordered s)"

definition full_text :: "('d, 'o, 'f) dte \<Rightarrow> 'd BlockStore \<Rightarrow> string" where
  "full_text D s = join (newline @ newline) (map bs_content (blocks_ordered D s))"

definition get_children :: "'d BlockStore \<Rightarrow> BlockId \<Rightarrow> BlockId list" where
  "get_children s parent =
     map fst (filter (\<lambda>(_, b). bh_parent_id (bc_header b) = Some parent) (live_entries s))"

definition parent_of :: "'d BlockStore \<Rightarrow> BlockId \<Rightarrow> BlockId option" where
  "parent_of s i = Option.bind (bt_get (st_blocks s) i) (\<lambda>b. bh_parent_id (bc_header b))"

text \<open>The loop of \<open>get_ancestors\<close>; the first argument counts down from \<^const>\<open>MAX_DAG_DEPTH\<close>.\<close>

fun ancestors_loop :: "'d BlockStore \<Rightarrow> nat \<Rightarrow> BlockId option \<Rightarrow> BlockId list" where
  "ancestors_loop s 0 cur = []"
| "ancestors_loop s (Suc n) None = []"
| "ancestors_loop s (Suc n) (Some p) = p # ancestors_loop s n (parent_of s p)"

definition get_ancestors :: "'d BlockStore \<Rightarrow> BlockId \<Rightarrow> BlockId list" where
  "get_ancestors s i = ancestors_loop s MAX_DAG_DEPTH (parent_of s i)"

definition get_roots :: "'d BlockStore \<Rightarrow> BlockId list" where
  "get_roots s = map fst (filter (\<lambda>(_, b). bh_parent_id (bc_header b) = None) (live_entries s))"

definition get_depth :: "'d BlockStore \<Rightarrow> BlockId \<Rightarrow> usize" where
  "get_depth s i = length (get_ancestors s i)"

section \<open>Identifiers\<close>

definition next_seq_for :: "'d BlockStore \<Rightarrow> PrincipalId \<Rightarrow> u64" where
  "next_seq_for s p = (case st_seq_lanes s p of Some n \<Rightarrow> n | None \<Rightarrow> 0)"

definition reserve_block_id :: "PrincipalId \<Rightarrow> 'd BlockStore \<Rightarrow> 'd BlockStore \<times> BlockId" where
  "reserve_block_id p s =
     (let n = next_seq_for s p
      in (s\<lparr>st_seq_lanes := (st_seq_lanes s)(p \<mapsto> n + 1)\<rparr>, BlockId (st_context_id s) p n))"

definition new_block_id :: "'d BlockStore \<Rightarrow> 'd BlockStore \<times> BlockId" where
  "new_block_id s = reserve_block_id (st_principal_id s) s"

definition observe_seq :: "PrincipalId \<Rightarrow> u64 \<Rightarrow> 'd BlockStore \<Rightarrow> 'd BlockStore" where
  "observe_seq p n s =
     s\<lparr>st_seq_lanes := (st_seq_lanes s)(p \<mapsto> max (next_seq_for s p) (n + 1))\<rparr>"

section \<open>Order keys\<close>

definition agent_order_suffix :: "'d BlockStore \<Rightarrow> string" where
  "agent_order_suffix s =
     (let bytes = as_bytes (st_principal_id s)
      in map (\<lambda>i. BASE62 ! (bytes ! i mod 62)) [10, 11, 12, 13])"

definition order_key_for_tick :: "'d BlockStore \<Rightarrow> i64 \<Rightarrow> string" where
  "order_key_for_tick s t = ''V'' @ base62_encode_padded t 11 @ agent_order_suffix s"

text \<open>
  \<open>self.blocks[id].order_key()\<close> for an identifier that comes from the map itself, where the
  lookup cannot fail.
\<close>

definition key_at :: "'d BlockStore \<Rightarrow> BlockId \<Rightarrow> string" where
  "key_at s i = (case bt_get (st_blocks s) i of Some b \<Rightarrow> bc_order_key b | None \<Rightarrow> [])"

definition calc_order_key :: "'d BlockStore \<Rightarrow> BlockId option \<Rightarrow> i64 option \<Rightarrow> string" where
  "calc_order_key s after tick =
     (let ordered = block_ids_ordered s; suffix = agent_order_suffix s in
      case after of
        None \<Rightarrow>
          (case tick of
             Some t \<Rightarrow>
               (if ordered = [] then order_key_for_tick s t
                else order_key_successor (key_at s (last ordered)) suffix)
           | None \<Rightarrow>
               (if ordered = [] then ''V'' @ suffix
                else order_midpoint [] (key_at s (hd ordered)) @ suffix))
      | Some after_id \<Rightarrow>
          (case position (\<lambda>i. i = after_id) ordered of
             Some idx \<Rightarrow>
               (let after_key = key_at s (ordered ! idx) in
                if idx + 1 < length ordered
                then order_midpoint after_key (key_at s (ordered ! (idx + 1))) @ suffix
                else (case tick of
                        Some _ \<Rightarrow> order_key_successor after_key suffix
                      | None \<Rightarrow> (after_key @ ''V'') @ suffix))
           | None \<Rightarrow>
               (if ordered \<noteq> [] then
                  (let last_key = key_at s (last ordered) in
                   case tick of
                     Some _ \<Rightarrow> order_key_successor last_key suffix
                   | None \<Rightarrow> (last_key @ ''V'') @ suffix)
                else (case tick of
                        Some t \<Rightarrow> order_key_for_tick s t
                      | None \<Rightarrow> ''V'' @ suffix))))"

definition next_position ::
  "BlockId option \<Rightarrow> 'd BlockStore \<Rightarrow> 'd BlockStore \<times> Tick option \<times> string" where
  "next_position after s =
     (let t = st_next_tick s;
          s = s\<lparr>st_next_tick := t + 1\<rparr>
      in (s, Some t, calc_order_key s after (Some t)))"

definition rekey_block :: "nat \<times> BlockId \<Rightarrow> 'd BlockStore \<Rightarrow> 'd BlockStore" where
  "rekey_block ix s =
     (let t = int (fst ix); key = order_key_for_tick s t
      in s\<lparr>st_blocks := bt_modify (snd ix) (\<lambda>b. set_tick t (set_order_key key b)) (st_blocks s)\<rparr>)"

definition normalize_timeline :: "'d BlockStore \<Rightarrow> 'd BlockStore" where
  "normalize_timeline s =
     (if list_ex (\<lambda>(_, b). bc_tick b = None) (live_entries s) then
        (let ordered = block_ids_ordered s
         in (fold rekey_block (enumerate 0 ordered) s)\<lparr>st_next_tick := int (length ordered)\<rparr>)
      else s\<lparr>st_next_tick := (case max_tick s of Some m \<Rightarrow> m + 1 | None \<Rightarrow> 0)\<rparr>)"

section \<open>Insertion\<close>

text \<open>The reference checks: the first reference that is not a live block is the error.\<close>

fun check_refs :: "'d BlockStore \<Rightarrow> BlockId option list \<Rightarrow> CrdtError option" where
  "check_refs s [] = None"
| "check_refs s (None # refs) = check_refs s refs"
| "check_refs s (Some i # refs) =
     (if is_live s i then check_refs s refs else Some (InvalidReference i))"

definition put_block :: "BlockId \<Rightarrow> 'd BlockContent \<Rightarrow> 'd BlockStore \<Rightarrow> 'd BlockStore" where
  "put_block i b s = s\<lparr>st_blocks := bt_insert i b (st_blocks s), st_version := st_version s + 1\<rparr>"

text \<open>The header literal of the three direct insertions: every timestamp is the new clock value.\<close>

definition stamped_header ::
  "u64 \<Rightarrow> u64 \<Rightarrow> BlockId \<Rightarrow> BlockId option \<Rightarrow> Role \<Rightarrow> BlockKind \<Rightarrow> Status \<Rightarrow> ToolKind option
    \<Rightarrow> int option \<Rightarrow> bool \<Rightarrow> ContentType \<Rightarrow> BlockHeader" where
  "stamped_header now ts i p r k st tk code err ct =
     \<lparr>bh_id = i, bh_parent_id = p, bh_role = r, bh_kind = k, bh_status = st,
      bh_compacted = False, bh_collapsed = False, bh_ephemeral = False, bh_excluded = False,
      bh_created_at = now, bh_updated_at = ts, bh_tool_kind = tk, bh_exit_code = code,
      bh_is_error = err, bh_content_type = ct, bh_status_at = ts, bh_collapsed_at = ts,
      bh_ephemeral_at = ts, bh_excluded_at = ts, bh_compacted_at = ts, bh_tool_meta_at = ts,
      bh_content_type_at = ts\<rparr>"

type_synonym ('d, 'a) outcome = "'d BlockStore \<times> (CrdtError + 'a)"

definition insert_block ::
  "('d, 'o, 'f) dte \<Rightarrow> u64 \<Rightarrow> BlockId option \<Rightarrow> BlockId option \<Rightarrow> Role \<Rightarrow> BlockKind \<Rightarrow> string \<Rightarrow> Status
    \<Rightarrow> ContentType \<Rightarrow> 'd BlockStore \<Rightarrow> ('d, BlockId) outcome" where
  "insert_block D now parent after role kind content status ct s =
     (let (s, i) = new_block_id s in
      case check_refs s [after, parent] of
        Some e \<Rightarrow> (s, Inl e)
      | None \<Rightarrow>
          (let (s, t, key) = next_position after s;
               (s, ts) = clock_tick s;
               header = stamped_header now ts i parent role kind status None None False ct;
               block = with_content D header content (st_principal_id s) key t
           in (put_block i block s, Inr i)))"

definition insert_tool_call ::
  "('d, 'o, 'f) dte \<Rightarrow> ('json \<Rightarrow> string + string) \<Rightarrow> u64 \<Rightarrow> BlockId option \<Rightarrow> BlockId option \<Rightarrow> string
    \<Rightarrow> 'json \<Rightarrow> ToolKind option \<Rightarrow> Role option \<Rightarrow> 'd BlockStore \<Rightarrow> ('d, BlockId) outcome" where
  "insert_tool_call D to_string_pretty now parent after tool_name tool_input tk role s =
     (let (s, i) = new_block_id s in
      case to_string_pretty tool_input of
        Inl e \<Rightarrow> (s, Inl (Serialization e))
      | Inr input_json \<Rightarrow>
          (case check_refs s [after, parent] of
             Some e \<Rightarrow> (s, Inl e)
           | None \<Rightarrow>
               (let (s, t, key) = next_position after s;
                    (s, ts) = clock_tick s;
                    header = stamped_header now ts i parent
                      (case role of Some r \<Rightarrow> r | None \<Rightarrow> Role.Model)
                      BlockKind.ToolCall Status.Running tk None False Plain;
                    block = with_content D header input_json (st_principal_id s) key t;
                    block = set_tool_input (Some input_json) (set_tool_name (Some tool_name) block)
                in (put_block i block s, Inr i))))"

definition insert_tool_result_block ::
  "('d, 'o, 'f) dte \<Rightarrow> u64 \<Rightarrow> BlockId \<Rightarrow> BlockId option \<Rightarrow> string \<Rightarrow> bool \<Rightarrow> int option
    \<Rightarrow> ToolKind option \<Rightarrow> 'd BlockStore \<Rightarrow> ('d, BlockId) outcome" where
  "insert_tool_result_block D now tool_call after content err code tk s =
     (let (s, i) = new_block_id s;
          after = (case after of Some a \<Rightarrow> Some a | None \<Rightarrow> Some tool_call) in
      case check_refs s [Some tool_call, after] of
        Some e \<Rightarrow> (s, Inl e)
      | None \<Rightarrow>
          (let (s, t, key) = next_position after s;
               (s, ts) = clock_tick s;
               header = stamped_header now ts i (Some tool_call) Role.Tool BlockKind.ToolResult
                 (if err then Status.Error else Status.Done) tk code err Plain;
               block = with_content D header content (st_principal_id s) key t;
               block = set_tool_call_id (Some tool_call) block
           in (put_block i block s, Inr i)))"

text \<open>
  The five insertions that build the block from a snapshot constructor share this shape: mint an
  identifier, check the references in order, take a position, construct, stamp the tick.
\<close>

definition insert_constructed ::
  "('d, 'o, 'f) dte \<Rightarrow> BlockId option list \<Rightarrow> BlockId option \<Rightarrow> (BlockId \<Rightarrow> BlockSnapshot option)
    \<Rightarrow> 'd BlockStore \<Rightarrow> ('d, BlockId) outcome option" where
  "insert_constructed D refs after construct s =
     (let (s, i) = new_block_id s in
      case check_refs s refs of
        Some e \<Rightarrow> Some (s, Inl e)
      | None \<Rightarrow>
          (let (s, t, key) = next_position after s in
           case construct i of
             None \<Rightarrow> None
           | Some snap \<Rightarrow>
               (let block = content_from_snapshot D snap (st_principal_id s) key;
                    block = (case t of Some t \<Rightarrow> set_tick t block | None \<Rightarrow> block)
                in Some (put_block i block s, Inr i))))"

definition insert_drift_block ::
  "('d, 'o, 'f) dte \<Rightarrow> u64 \<Rightarrow> BlockId option \<Rightarrow> BlockId option \<Rightarrow> string \<Rightarrow> ContextId
    \<Rightarrow> string option \<Rightarrow> DriftKind \<Rightarrow> 'd BlockStore \<Rightarrow> ('d, BlockId) outcome option" where
  "insert_drift_block D now parent after content src model dk =
     insert_constructed D [after, parent] after
       (\<lambda>i. snapshot_drift now i parent content src model dk)"

definition insert_file_block ::
  "('d, 'o, 'f) dte \<Rightarrow> u64 \<Rightarrow> BlockId option \<Rightarrow> BlockId option \<Rightarrow> string \<Rightarrow> string
    \<Rightarrow> 'd BlockStore \<Rightarrow> ('d, BlockId) outcome option" where
  "insert_file_block D now parent after path content =
     insert_constructed D [after, parent] after (\<lambda>i. snapshot_file now i parent path content)"

definition insert_error_block ::
  "('d, 'o, 'f) dte \<Rightarrow> u64 \<Rightarrow> BlockId \<Rightarrow> BlockId option \<Rightarrow> ErrorPayload \<Rightarrow> string
    \<Rightarrow> 'd BlockStore \<Rightarrow> ('d, BlockId) outcome option" where
  "insert_error_block D now parent after payload summary =
     insert_constructed D [Some parent, after] after
       (\<lambda>i. snapshot_error_for now i parent payload summary)"

definition insert_notification_block ::
  "('d, 'o, 'f) dte \<Rightarrow> u64 \<Rightarrow> BlockId option \<Rightarrow> BlockId option \<Rightarrow> NotificationPayload \<Rightarrow> string
    \<Rightarrow> 'd BlockStore \<Rightarrow> ('d, BlockId) outcome option" where
  "insert_notification_block D now parent after payload summary =
     insert_constructed D [after, parent] after
       (\<lambda>i. snapshot_notification_block now i parent payload summary)"

definition insert_resource_block ::
  "('d, 'o, 'f) dte \<Rightarrow> u64 \<Rightarrow> BlockId option \<Rightarrow> BlockId option \<Rightarrow> ResourcePayload \<Rightarrow> string
    \<Rightarrow> 'd BlockStore \<Rightarrow> ('d, BlockId) outcome option" where
  "insert_resource_block D now parent after payload summary =
     insert_constructed D [after, parent] after
       (\<lambda>i. snapshot_resource_block now i parent payload summary)"

text \<open>The tick-regression check of \<open>insert_from_snapshot\<close> only logs.\<close>

definition insert_from_snapshot ::
  "('d, 'o, 'f) dte \<Rightarrow> BlockSnapshot \<Rightarrow> BlockId option \<Rightarrow> 'd BlockStore \<Rightarrow> ('d, BlockId) outcome" where
  "insert_from_snapshot D snap after s =
     (let i = bs_id snap;
          s = observe_seq (principal_id i) (seq i) s
      in if bt_contains (st_blocks s) i then (s, Inl (DuplicateBlock i))
         else
           (let s = (case bs_tick snap of
                       Some t \<Rightarrow> s\<lparr>st_next_tick := max (st_next_tick s) (t + 1)\<rparr>
                     | None \<Rightarrow> s);
                key = calc_order_key s after (bs_tick snap);
                block = content_from_snapshot D snap (st_principal_id s) key
            in (put_block i block s, Inr i)))"

section \<open>Mutation\<close>

definition update_block ::
  "BlockId \<Rightarrow> ('d BlockContent \<Rightarrow> 'd BlockContent) \<Rightarrow> 'd BlockStore \<Rightarrow> 'd BlockStore" where
  "update_block i f s = s\<lparr>st_blocks := bt_modify i f (st_blocks s), st_version := st_version s + 1\<rparr>"

text \<open>\<open>get_mut(id).ok_or(BlockNotFound)\<close>, with and without the filter on tombstones.\<close>

definition on_block ::
  "BlockId \<Rightarrow> ('d BlockContent \<Rightarrow> 'd BlockContent) \<Rightarrow> 'd BlockStore \<Rightarrow> ('d, unit) outcome" where
  "on_block i f s =
     (if bt_contains (st_blocks s) i then (update_block i f s, Inr ())
      else (s, Inl (BlockNotFound i)))"

definition on_live_block ::
  "BlockId \<Rightarrow> ('d BlockContent \<Rightarrow> 'd BlockContent) \<Rightarrow> 'd BlockStore \<Rightarrow> ('d, unit) outcome" where
  "on_live_block i f s =
     (if is_live s i then (update_block i f s, Inr ()) else (s, Inl (BlockNotFound i)))"

definition delete_block :: "BlockId \<Rightarrow> 'd BlockStore \<Rightarrow> ('d, unit) outcome" where
  "delete_block i s = (let (s, ts) = clock_tick s in on_block i (mark_deleted ts) s)"

text \<open>
  The test \<open>pos + delete > len\<close> is on \<open>usize\<close> values.  A call whose sum overflows is refused here; the
  program panics on it in a debug build and, in a release build, tests the wrapped sum.
\<close>

definition store_edit_text ::
  "('d, 'o, 'f) dte \<Rightarrow> BlockId \<Rightarrow> usize \<Rightarrow> string \<Rightarrow> usize \<Rightarrow> 'd BlockStore \<Rightarrow> ('d, unit) outcome" where
  "store_edit_text D i pos ins del s =
     (if \<not> is_live s i then (s, Inl (BlockNotFound i))
      else
        (let len = (case bt_get (st_blocks s) i of Some b \<Rightarrow> content_len D b | None \<Rightarrow> 0)
         in if len < pos then (s, Inl (PositionOutOfBounds pos len))
            else if len < pos + del then (s, Inl (PositionOutOfBounds (pos + del) len))
            else (update_block i (content_edit_text D pos ins del) s, Inr ())))"

definition store_append_text ::
  "('d, 'o, 'f) dte \<Rightarrow> BlockId \<Rightarrow> string \<Rightarrow> 'd BlockStore \<Rightarrow> ('d, unit) outcome" where
  "store_append_text D i text = on_live_block i (content_append_text D text)"

definition store_set_status :: "BlockId \<Rightarrow> Status \<Rightarrow> 'd BlockStore \<Rightarrow> ('d, unit) outcome" where
  "store_set_status i v s = (let (s, ts) = clock_tick s in on_live_block i (content_set_status v ts) s)"

definition store_set_collapsed :: "BlockId \<Rightarrow> bool \<Rightarrow> 'd BlockStore \<Rightarrow> ('d, unit) outcome" where
  "store_set_collapsed i v s =
     (let (s, ts) = clock_tick s in on_live_block i (content_set_collapsed v ts) s)"

definition store_set_output ::
  "BlockId \<Rightarrow> OutputData option \<Rightarrow> 'd BlockStore \<Rightarrow> ('d, unit) outcome" where
  "store_set_output i v = on_live_block i (content_set_output v)"

definition store_set_stderr :: "BlockId \<Rightarrow> string option \<Rightarrow> 'd BlockStore \<Rightarrow> ('d, unit) outcome" where
  "store_set_stderr i v = on_live_block i (content_set_stderr v)"

definition store_set_tool_use_id ::
  "BlockId \<Rightarrow> string option \<Rightarrow> 'd BlockStore \<Rightarrow> ('d, unit) outcome" where
  "store_set_tool_use_id i v = on_live_block i (content_set_tool_use_id v)"

definition store_set_signature ::
  "BlockId \<Rightarrow> string option \<Rightarrow> 'd BlockStore \<Rightarrow> ('d, unit) outcome" where
  "store_set_signature i v = on_live_block i (content_set_signature v)"

definition store_set_content_type ::
  "BlockId \<Rightarrow> ContentType \<Rightarrow> 'd BlockStore \<Rightarrow> ('d, unit) outcome" where
  "store_set_content_type i v s =
     (let (s, ts) = clock_tick s in on_block i (content_set_content_type v ts) s)"

definition store_set_exit_code ::
  "BlockId \<Rightarrow> int option \<Rightarrow> 'd BlockStore \<Rightarrow> ('d, unit) outcome" where
  "store_set_exit_code i v s =
     (let (s, ts) = clock_tick s in on_block i (content_set_exit_code v ts) s)"

definition store_set_ephemeral :: "BlockId \<Rightarrow> bool \<Rightarrow> 'd BlockStore \<Rightarrow> ('d, unit) outcome" where
  "store_set_ephemeral i v s =
     (let (s, ts) = clock_tick s in on_block i (content_set_ephemeral v ts) s)"

definition store_set_excluded :: "BlockId \<Rightarrow> bool \<Rightarrow> 'd BlockStore \<Rightarrow> ('d, unit) outcome" where
  "store_set_excluded i v s =
     (let (s, ts) = clock_tick s in on_block i (content_set_excluded v ts) s)"

definition store_set_compacted :: "BlockId \<Rightarrow> bool \<Rightarrow> 'd BlockStore \<Rightarrow> ('d, unit) outcome" where
  "store_set_compacted i v s =
     (let (s, ts) = clock_tick s in on_block i (content_set_compacted v ts) s)"

definition move_block :: "BlockId \<Rightarrow> BlockId option \<Rightarrow> 'd BlockStore \<Rightarrow> ('d, unit) outcome" where
  "move_block i after s =
     (if \<not> is_live s i then (s, Inl (BlockNotFound i))
      else case check_refs s [after] of
             Some e \<Rightarrow> (s, Inl e)
           | None \<Rightarrow> (update_block i (set_order_key (calc_order_key s after None)) s, Inr ()))"

section \<open>Sync\<close>

record 'o SyncPayload =
  sp_block_ops :: "(BlockId \<times> 'o) list"
  sp_new_blocks :: "BlockSnapshot list"
  sp_updated_headers :: "BlockHeader list"
  sp_deleted_blocks :: "BlockId list"

definition payload_is_empty :: "'o SyncPayload \<Rightarrow> bool" where
  "payload_is_empty p \<longleftrightarrow>
     sp_block_ops p = [] \<and> sp_new_blocks p = [] \<and> sp_updated_headers p = [] \<and> sp_deleted_blocks p = []"

text \<open>The body of the loop of \<open>ops_since\<close> for one entry of the map.\<close>

definition ops_for_block ::
  "('d, 'o, 'f) dte \<Rightarrow> (BlockId \<rightharpoonup> 'f) \<Rightarrow> BlockId \<times> 'd BlockContent \<Rightarrow> 'o SyncPayload \<Rightarrow> 'o SyncPayload" where
  "ops_for_block D frontiers e p =
     (let (i, b) = e in
      if bc_deleted b then
        (if frontiers i \<noteq> None then p\<lparr>sp_deleted_blocks := sp_deleted_blocks p @ [i]\<rparr> else p)
      else case frontiers i of
        Some f \<Rightarrow>
          (let ops = content_ops_since D b f;
               p = (if \<not> ops_is_empty D ops then p\<lparr>sp_block_ops := sp_block_ops p @ [(i, ops)]\<rparr> else p)
           in p\<lparr>sp_updated_headers := sp_updated_headers p @ [bc_header b]\<rparr>)
      | None \<Rightarrow>
          (let p = p\<lparr>sp_new_blocks := sp_new_blocks p @ [content_snapshot D b]\<rparr>;
               full_ops = content_ops_since D b (frontier_root D)
           in if \<not> ops_is_empty D full_ops
              then p\<lparr>sp_block_ops := sp_block_ops p @ [(i, full_ops)]\<rparr> else p))"

definition store_ops_since ::
  "('d, 'o, 'f) dte \<Rightarrow> (BlockId \<rightharpoonup> 'f) \<Rightarrow> 'd BlockStore \<Rightarrow> 'o SyncPayload" where
  "store_ops_since D frontiers s =
     fold (ops_for_block D frontiers) (st_blocks s)
       \<lparr>sp_block_ops = [], sp_new_blocks = [], sp_updated_headers = [], sp_deleted_blocks = []\<rparr>"

definition fallback_key :: "'d BlockStore \<Rightarrow> BlockSnapshot \<Rightarrow> string" where
  "fallback_key s snap =
     (if bs_order_key snap \<noteq> None then []
      else if block_ids_ordered s \<noteq> []
           then order_key_successor (key_at s (last (block_ids_ordered s))) (agent_order_suffix s)
           else order_key_for_tick s (st_next_tick s))"

text \<open>The loop state of the first phase of \<open>merge_ops\<close>: store, largest timestamp, largest tick.\<close>

definition merge_new_block ::
  "('d, 'o, 'f) dte \<Rightarrow> BlockId set \<Rightarrow> BlockSnapshot
    \<Rightarrow> 'd BlockStore \<times> u64 \<times> Tick option \<Rightarrow> 'd BlockStore \<times> u64 \<times> Tick option" where
  "merge_new_block D has_ops snap st =
     (let (s, max_ts, high) = st; i = bs_id snap in
      if bt_contains (st_blocks s) i then st
      else
        (let key = fallback_key s snap;
             block = (if i \<in> has_ops then content_from_snapshot_for_sync D snap (st_principal_id s) key
                      else content_from_snapshot D snap (st_principal_id s) key);
             max_ts = max max_ts (bs_updated_at snap);
             high = (case bs_tick snap of
                       None \<Rightarrow> high
                     | Some t \<Rightarrow> Some (case high of None \<Rightarrow> t | Some m \<Rightarrow> max m t));
             s = s\<lparr>st_blocks := bt_insert i block (st_blocks s)\<rparr>
         in (observe_seq (principal_id i) (seq i) s, max_ts, high)))"

definition merge_remote_header ::
  "BlockHeader \<Rightarrow> 'd BlockStore \<times> u64 \<Rightarrow> 'd BlockStore \<times> u64" where
  "merge_remote_header h st =
     (let (s, max_ts) = st
      in (s\<lparr>st_blocks := bt_modify (bh_id h) (merge_header h) (st_blocks s)\<rparr>,
          max max_ts (bh_updated_at h)))"

text \<open>The third phase stops at the first failing merge; what was merged before stays merged.\<close>

fun merge_block_ops ::
  "('d, 'o, 'f) dte \<Rightarrow> (BlockId \<times> 'o) list \<Rightarrow> 'd BlockStore \<Rightarrow> bool
    \<Rightarrow> 'd BlockStore \<times> bool \<times> CrdtError option" where
  "merge_block_ops D [] s had = (s, had, None)"
| "merge_block_ops D ((i, ops) # rest) s had =
     (case bt_get (st_blocks s) i of
        None \<Rightarrow> merge_block_ops D rest s had
      | Some b \<Rightarrow>
          (let had = (had \<or> \<not> ops_is_empty D ops);
               (b', r) = content_merge_ops D ops b;
               s = s\<lparr>st_blocks := bt_modify i (\<lambda>_. b') (st_blocks s)\<rparr>
           in case r of
                Inl e \<Rightarrow> (s, had, Some e)
              | Inr _ \<Rightarrow> merge_block_ops D rest s had))"

definition apply_tombstone :: "BlockId \<Rightarrow> 'd BlockStore \<Rightarrow> 'd BlockStore" where
  "apply_tombstone i s =
     (let (s, ts) = clock_tick s
      in if is_live s i then s\<lparr>st_blocks := bt_modify i (mark_deleted ts) (st_blocks s)\<rparr> else s)"

definition store_merge_ops ::
  "('d, 'o, 'f) dte \<Rightarrow> 'o SyncPayload \<Rightarrow> 'd BlockStore \<Rightarrow> ('d, unit) outcome" where
  "store_merge_ops D p s =
     (let has_ops = fst ` set (sp_block_ops p);
          (s, max_ts, high) = fold (merge_new_block D has_ops) (sp_new_blocks p) (s, 0, None);
          s = (case high of
                 Some t \<Rightarrow> s\<lparr>st_next_tick := max (st_next_tick s) (t + 1)\<rparr>
               | None \<Rightarrow> s);
          (s, max_ts) = fold merge_remote_header (sp_updated_headers p) (s, max_ts);
          (s, had, e) = merge_block_ops D (sp_block_ops p) s False
      in case e of
           Some err \<Rightarrow> (s, Inl err)
         | None \<Rightarrow>
             (let s = fold apply_tombstone (sp_deleted_blocks p) s;
                  s = (if 0 < max_ts \<or> had then merge_clock max_ts s else s)
              in (s\<lparr>st_version := st_version s + 1\<rparr>, Inr ())))"

definition store_frontier :: "('d, 'o, 'f) dte \<Rightarrow> 'd BlockStore \<Rightarrow> (BlockId \<rightharpoonup> 'f)" where
  "store_frontier D s = (\<lambda>i. map_option (content_frontier D) (bt_get (st_blocks s) i))"

section \<open>Fork\<close>

definition BlockKind_debug :: "BlockKind \<Rightarrow> string" where
  "BlockKind_debug k =
     (case k of
        BlockKind.Text \<Rightarrow> ''Text'' | BlockKind.Thinking \<Rightarrow> ''Thinking''
      | BlockKind.ToolCall \<Rightarrow> ''ToolCall'' | BlockKind.ToolResult \<Rightarrow> ''ToolResult''
      | BlockKind.Drift \<Rightarrow> ''Drift'' | BlockKind.File \<Rightarrow> ''File'' | BlockKind.Error \<Rightarrow> ''Error''
      | BlockKind.Notification \<Rightarrow> ''Notification'' | BlockKind.Resource \<Rightarrow> ''Resource''
      | BlockKind.Trace \<Rightarrow> ''Trace'')"

definition Role_debug :: "Role \<Rightarrow> string" where
  "Role_debug r =
     (case r of
        Role.User \<Rightarrow> ''User'' | Role.Model \<Rightarrow> ''Model'' | Role.System \<Rightarrow> ''System''
      | Role.Tool \<Rightarrow> ''Tool'' | Role.Asset \<Rightarrow> ''Asset'')"

record ForkBlockFilter =
  ff_exclude_compacted :: bool
  ff_exclude_kinds :: "string set"
  ff_exclude_roles :: "string set"
  ff_exclude_block_ids :: "string set"
  ff_selection :: "IntervalSet option"

definition fork_filter_matches :: "uuid_lib \<Rightarrow> ForkBlockFilter \<Rightarrow> BlockSnapshot \<Rightarrow> bool" where
  "fork_filter_matches U f snap =
     (if ff_exclude_compacted f \<and> bs_compacted snap then False
      else if ff_exclude_kinds f \<noteq> {} \<and> BlockKind_debug (bs_kind snap) \<in> ff_exclude_kinds f then False
      else if ff_exclude_roles f \<noteq> {} \<and> Role_debug (bs_role snap) \<in> ff_exclude_roles f then False
      else if ff_exclude_block_ids f \<noteq> {} \<and> to_key U (bs_id snap) \<in> ff_exclude_block_ids f then False
      else True)"

definition in_context :: "ContextId \<Rightarrow> BlockId \<Rightarrow> BlockId" where
  "in_context ctx i = BlockId ctx (principal_id i) (seq i)"

definition remap_snapshot :: "ContextId \<Rightarrow> BlockSnapshot \<Rightarrow> BlockSnapshot" where
  "remap_snapshot ctx snap =
     snap\<lparr>bs_id := in_context ctx (bs_id snap),
          bs_parent_id := map_option (in_context ctx) (bs_parent_id snap),
          bs_tool_call_id := map_option (in_context ctx) (bs_tool_call_id snap)\<rparr>"

text \<open>The common body of the three fork loops.\<close>

definition fork_block ::
  "('d, 'o, 'f) dte \<Rightarrow> 'd BlockContent \<Rightarrow> 'd BlockStore \<Rightarrow> 'd BlockStore" where
  "fork_block D b forked =
     (let snap = content_snapshot D b;
          ctx = st_context_id forked;
          new_id = in_context ctx (bs_id snap);
          forked = observe_seq (principal_id (bs_id snap)) (seq (bs_id snap)) forked;
          forked = (case bs_tick snap of
                      Some t \<Rightarrow> forked\<lparr>st_next_tick := max (st_next_tick forked) (t + 1)\<rparr>
                    | None \<Rightarrow> forked);
          content = content_from_snapshot D (remap_snapshot ctx snap) (st_principal_id forked)
                      (bc_order_key b)
      in forked\<lparr>st_blocks := bt_insert new_id content (st_blocks forked)\<rparr>)"

definition fork_blocks ::
  "('d, 'o, 'f) dte \<Rightarrow> ContextId \<Rightarrow> PrincipalId \<Rightarrow> 'd BlockContent list \<Rightarrow> 'd BlockStore" where
  "fork_blocks D ctx p bs = (fold (fork_block D) bs (store_new ctx p))\<lparr>st_version := 1\<rparr>"

definition fork :: "('d, 'o, 'f) dte \<Rightarrow> ContextId \<Rightarrow> PrincipalId \<Rightarrow> 'd BlockStore \<Rightarrow> 'd BlockStore" where
  "fork D ctx p s = fork_blocks D ctx p (filter (\<lambda>b. \<not> bc_deleted b) (map snd (st_blocks s)))"

definition fork_at_version ::
  "('d, 'o, 'f) dte \<Rightarrow> ContextId \<Rightarrow> PrincipalId \<Rightarrow> u64 \<Rightarrow> 'd BlockStore \<Rightarrow> 'd BlockStore" where
  "fork_at_version D ctx p before s =
     fork_blocks D ctx p
       (filter (\<lambda>b. \<not> bc_deleted b \<and> \<not> before < bh_created_at (bc_header b)) (map snd (st_blocks s)))"

definition fork_universe :: "u64 \<Rightarrow> 'd BlockStore \<Rightarrow> 'd BlockContent list" where
  "fork_universe before s =
     map snd (sort_key (\<lambda>(i, b). (bc_order_key b, i))
       (filter (\<lambda>(_, b). \<not> bc_deleted b \<and> bh_created_at (bc_header b) \<le> before) (st_blocks s)))"

definition fork_passing ::
  "('d, 'o, 'f) dte \<Rightarrow> uuid_lib \<Rightarrow> ForkBlockFilter \<Rightarrow> 'd BlockContent list \<Rightarrow> 'd BlockContent list" where
  "fork_passing D U f universe =
     map snd (filter (\<lambda>(pos, b).
         (case ff_selection f of Some sel \<Rightarrow> contains_position sel pos | None \<Rightarrow> True)
         \<and> fork_filter_matches U f (content_snapshot D b)) (enumerate 0 universe))"

definition fork_filtered ::
  "('d, 'o, 'f) dte \<Rightarrow> uuid_lib \<Rightarrow> ContextId \<Rightarrow> PrincipalId \<Rightarrow> u64 \<Rightarrow> ForkBlockFilter
    \<Rightarrow> 'd BlockStore \<Rightarrow> 'd BlockStore" where
  "fork_filtered D U ctx p before f s =
     fork_blocks D ctx p (fork_passing D U f (fork_universe before s))"

section \<open>Snapshot and restore\<close>

record 'o StoreSnapshot =
  ss_context_id :: ContextId
  ss_blocks :: "BlockSnapshot list"
  ss_block_history :: "'o list"
  ss_deleted_blocks :: "BlockId list"

definition store_snapshot :: "('d, 'o, 'f) dte \<Rightarrow> 'd BlockStore \<Rightarrow> 'o StoreSnapshot" where
  "store_snapshot D s =
     (let bs = List.map_filter (bt_get (st_blocks s)) (block_ids_ordered s)
      in \<lparr>ss_context_id = st_context_id s,
          ss_blocks = map (content_snapshot D) bs,
          ss_block_history = map (root_ops D) bs,
          ss_deleted_blocks = map fst (filter (\<lambda>(_, b). bc_deleted b) (st_blocks s))\<rparr>)"

definition restore_block ::
  "('d, 'o, 'f) dte \<Rightarrow> PrincipalId \<Rightarrow> BlockSnapshot \<times> 'o \<Rightarrow> 'd BlockStore \<Rightarrow> CrdtError + 'd BlockStore" where
  "restore_block D p sh s =
     (let (snap, history) = sh; i = bs_id snap;
          s = observe_seq (principal_id i) (seq i) s;
          key = fallback_key s snap
      in if ops_is_empty D history then
           Inr (s\<lparr>st_blocks := bt_insert i (content_from_snapshot D snap p key) (st_blocks s)\<rparr>)
         else
           (case content_merge_ops D history (content_from_snapshot_for_sync D snap p key) of
              (b, Inl e) \<Rightarrow> Inl e
            | (b, Inr _) \<Rightarrow> Inr (s\<lparr>st_blocks := bt_insert i b (st_blocks s)\<rparr>)))"

fun restore_blocks ::
  "('d, 'o, 'f) dte \<Rightarrow> PrincipalId \<Rightarrow> (BlockSnapshot \<times> 'o) list \<Rightarrow> 'd BlockStore \<Rightarrow> CrdtError + 'd BlockStore" where
  "restore_blocks D p [] s = Inr s"
| "restore_blocks D p (sh # rest) s =
     (case restore_block D p sh s of Inl e \<Rightarrow> Inl e | Inr s' \<Rightarrow> restore_blocks D p rest s')"

definition restore_tombstone ::
  "('d, 'o, 'f) dte \<Rightarrow> u64 \<Rightarrow> PrincipalId \<Rightarrow> BlockId \<Rightarrow> 'd BlockStore \<Rightarrow> 'd BlockStore" where
  "restore_tombstone D now p i s =
     (let s = observe_seq (principal_id i) (seq i) s
      in if bt_contains (st_blocks s) i then s
         else
           (let b = mark_deleted 0
                      (content_from_snapshot D (builder_new now i BlockKind.Text) p ''Z'')
            in s\<lparr>st_blocks := bt_insert i b (st_blocks s)\<rparr>))"

definition store_from_snapshot ::
  "('d, 'o, 'f) dte \<Rightarrow> u64 \<Rightarrow> 'o StoreSnapshot \<Rightarrow> PrincipalId \<Rightarrow> CrdtError + 'd BlockStore" where
  "store_from_snapshot D now snap p =
     (case restore_blocks D p (zip (ss_blocks snap) (ss_block_history snap))
             (store_new (ss_context_id snap) p) of
        Inl e \<Rightarrow> Inl e
      | Inr s \<Rightarrow>
          (let s = fold (restore_tombstone D now p) (ss_deleted_blocks snap) s;
               s = s\<lparr>st_lamport_clock :=
                     (case option_max (map bs_updated_at (ss_blocks snap)) of Some t \<Rightarrow> t | None \<Rightarrow> 0)\<rparr>
           in Inr (normalize_timeline s)))"

end
