(* ===== verification/Store_Facts.thy ===== *)
theory Store_Facts
  imports Block_Store
begin

text \<open>
  The invariant of the block store and the facts that the property theories share.

  \<open>store_ok\<close>: the map is sorted by identifier, every entry is filed under its own identifier,
  every sequence number lies below its principal's lane, every tick below the tick counter, and
  mirrored flags agree.  \<open>grows\<close>: from one store to a later one, blocks stay, tombstones stay
  tombstones, identity fields do not change and the counters do not go back.  Every operation
  keeps the first and satisfies the second; the locale \<open>monotone_system\<close> lifts both to runs.
\<close>

section \<open>Invariant\<close>

definition entry_ok :: "'d BlockStore \<Rightarrow> BlockId \<Rightarrow> 'd BlockContent \<Rightarrow> bool" where
  "entry_ok s i b \<longleftrightarrow>
     bh_id (bc_header b) = i
     \<and> seq i < next_seq_for s (principal_id i)
     \<and> (\<forall>t. bc_tick b = Some t \<longrightarrow> t < st_next_tick s)
     \<and> mirrors_ok b"

definition store_ok :: "'d BlockStore \<Rightarrow> bool" where
  "store_ok s \<longleftrightarrow>
     bt_ok (st_blocks s) \<and> (\<forall>i b. bt_get (st_blocks s) i = Some b \<longrightarrow> entry_ok s i b)"

text \<open>What no operation on a block may change, and the tombstone that no operation may lift.\<close>

definition block_grows :: "'d BlockContent \<Rightarrow> 'd BlockContent \<Rightarrow> bool" where
  "block_grows b b' \<longleftrightarrow>
     bh_id (bc_header b') = bh_id (bc_header b)
     \<and> bh_parent_id (bc_header b') = bh_parent_id (bc_header b)
     \<and> bh_role (bc_header b') = bh_role (bc_header b)
     \<and> bh_kind (bc_header b') = bh_kind (bc_header b)
     \<and> bh_created_at (bc_header b') = bh_created_at (bc_header b)
     \<and> bc_track b' = bc_track b
     \<and> (bc_deleted b \<longrightarrow> bc_deleted b')"

definition grows :: "'d BlockStore \<Rightarrow> 'd BlockStore \<Rightarrow> bool" where
  "grows s s' \<longleftrightarrow>
     (\<forall>i b. bt_get (st_blocks s) i = Some b \<longrightarrow>
        (\<exists>b'. bt_get (st_blocks s') i = Some b' \<and> block_grows b b'))
     \<and> (\<forall>p. next_seq_for s p \<le> next_seq_for s' p)
     \<and> st_lamport_clock s \<le> st_lamport_clock s'
     \<and> st_next_tick s \<le> st_next_tick s'
     \<and> st_context_id s' = st_context_id s"

definition safe :: "'d BlockStore \<Rightarrow> 'd BlockStore \<Rightarrow> bool" where
  "safe s s' \<longleftrightarrow> (store_ok s \<longrightarrow> store_ok s' \<and> grows s s')"

lemma block_grows_refl [simp]: "block_grows b b"
  by (simp add: block_grows_def)

lemma block_grows_trans: "block_grows a b \<Longrightarrow> block_grows b c \<Longrightarrow> block_grows a c"
  by (simp add: block_grows_def)

lemma grows_refl [simp]: "grows s s"
  by (simp add: grows_def)

lemma grows_trans: "grows s t \<Longrightarrow> grows t u \<Longrightarrow> grows s u"
  unfolding grows_def
  by (intro conjI; (meson block_grows_trans | metis order_trans)?) (auto intro: order_trans)

lemma safe_refl [simp]: "safe s s"
  by (simp add: safe_def)

lemma safe_trans: "safe s t \<Longrightarrow> safe t u \<Longrightarrow> safe s u"
  unfolding safe_def using grows_trans by blast

lemma safe_fold: "(\<And>x s. x \<in> set xs \<Longrightarrow> safe s (f x s)) \<Longrightarrow> safe s (fold f xs s)"
proof (induction xs arbitrary: s)
  case (Cons x xs)
  have "safe s (f x s)" using Cons.prems by simp
  moreover have "safe (f x s) (fold f xs (f x s))" using Cons by simp
  ultimately show ?case by (simp add: safe_trans)
qed simp

lemma safe_okD: "safe s s' \<Longrightarrow> store_ok s \<Longrightarrow> store_ok s'"
  by (simp add: safe_def)

lemma store_okD:
  assumes "store_ok s" and "bt_get (st_blocks s) i = Some b"
  shows "bh_id (bc_header b) = i" and "seq i < next_seq_for s (principal_id i)"
    and "bc_tick b = Some t \<Longrightarrow> t < st_next_tick s" and "mirrors_ok b"
  using assms by (auto simp: store_ok_def entry_ok_def)

lemma store_ok_new: "store_ok (store_new ctx p)"
  by (simp add: store_ok_def store_new_def bt_get_def bt_ok_def)

section \<open>Primitive changes\<close>

text \<open>Changes that leave the map alone and only move counters forward.\<close>

lemma safe_counters:
  assumes "st_blocks s' = st_blocks s" and "st_context_id s' = st_context_id s"
    and "\<And>p. next_seq_for s p \<le> next_seq_for s' p"
    and "st_lamport_clock s \<le> st_lamport_clock s'" and "st_next_tick s \<le> st_next_tick s'"
  shows "safe s s'"
  using assms unfolding safe_def store_ok_def entry_ok_def grows_def
  by (metis block_grows_refl order_less_le_trans)

lemma next_seq_for_cong [simp]:
  "next_seq_for (s\<lparr>st_blocks := bs\<rparr>) p = next_seq_for s p"
  "next_seq_for (s\<lparr>st_version := v\<rparr>) p = next_seq_for s p"
  "next_seq_for (s\<lparr>st_lamport_clock := t\<rparr>) p = next_seq_for s p"
  "next_seq_for (s\<lparr>st_next_tick := n\<rparr>) p = next_seq_for s p"
  "next_seq_for (s\<lparr>st_principal_id := q\<rparr>) p = next_seq_for s p"
  by (simp_all add: next_seq_for_def)

lemma next_seq_for_lane:
  "next_seq_for (s\<lparr>st_seq_lanes := (st_seq_lanes s)(p \<mapsto> n)\<rparr>) q = (if q = p then n else next_seq_for s q)"
  by (simp add: next_seq_for_def)

lemma safe_clock_tick: "safe s (fst (clock_tick s))"
  by (rule safe_counters) (simp_all add: clock_tick_def Let_def)

lemma safe_merge_clock: "safe s (merge_clock t s)"
  by (rule safe_counters) (simp_all add: merge_clock_def)

lemma safe_version: "safe s (s\<lparr>st_version := v\<rparr>)"
  by (rule safe_counters) simp_all

lemma safe_next_tick: "st_next_tick s \<le> n \<Longrightarrow> safe s (s\<lparr>st_next_tick := n\<rparr>)"
  by (rule safe_counters) simp_all

lemma safe_principal: "safe s (set_principal_id p s)"
  by (rule safe_counters) (simp_all add: set_principal_id_def)

lemma next_seq_for_observe:
  "next_seq_for (observe_seq p n s) q = (if q = p then max (next_seq_for s p) (n + 1) else next_seq_for s q)"
  by (simp add: observe_seq_def next_seq_for_lane)

lemma observe_seq_frame [simp]:
  "st_blocks (observe_seq p n s) = st_blocks s" "st_context_id (observe_seq p n s) = st_context_id s"
  "st_lamport_clock (observe_seq p n s) = st_lamport_clock s"
  "st_next_tick (observe_seq p n s) = st_next_tick s"
  "st_principal_id (observe_seq p n s) = st_principal_id s"
  "st_version (observe_seq p n s) = st_version s"
  by (simp_all add: observe_seq_def)

lemma safe_observe_seq: "safe s (observe_seq p n s)"
  by (rule safe_counters) (auto simp: next_seq_for_observe)

lemma next_seq_for_reserve:
  "next_seq_for (fst (reserve_block_id p s)) q = (if q = p then next_seq_for s p + 1 else next_seq_for s q)"
  by (simp add: reserve_block_id_def Let_def next_seq_for_lane)

lemma reserve_frame [simp]:
  "st_blocks (fst (reserve_block_id p s)) = st_blocks s"
  "st_context_id (fst (reserve_block_id p s)) = st_context_id s"
  "st_lamport_clock (fst (reserve_block_id p s)) = st_lamport_clock s"
  "st_next_tick (fst (reserve_block_id p s)) = st_next_tick s"
  "st_principal_id (fst (reserve_block_id p s)) = st_principal_id s"
  "st_version (fst (reserve_block_id p s)) = st_version s"
  by (simp_all add: reserve_block_id_def Let_def)

lemma safe_reserve: "safe s (fst (reserve_block_id p s))"
  by (rule safe_counters) (auto simp: next_seq_for_reserve)

lemma safe_new_block_id: "safe s (fst (new_block_id s))"
  by (simp add: new_block_id_def safe_reserve)

text \<open>An insertion under a fresh identifier that its lane already covers.\<close>

lemma safe_insert:
  assumes "store_ok s \<Longrightarrow> bt_get (st_blocks s) i = None" and "entry_ok s i b"
  shows "safe s (s\<lparr>st_blocks := bt_insert i b (st_blocks s)\<rparr>)"
  using assms unfolding safe_def store_ok_def entry_ok_def grows_def
  by (auto simp: bt_get_insert bt_ok_insert)

lemma safe_put_block:
  assumes "store_ok s \<Longrightarrow> bt_get (st_blocks s) i = None" and "entry_ok s i b"
  shows "safe s (put_block i b s)"
proof -
  have "put_block i b s = (s\<lparr>st_blocks := bt_insert i b (st_blocks s)\<rparr>)\<lparr>st_version := st_version s + 1\<rparr>"
    by (simp add: put_block_def)
  then show ?thesis using safe_trans [OF safe_insert [OF assms] safe_version] by simp
qed

text \<open>An update of one block that keeps what must be kept.\<close>

definition keeps :: "('d BlockContent \<Rightarrow> 'd BlockContent) \<Rightarrow> bool" where
  "keeps f \<longleftrightarrow>
     (\<forall>b. block_grows b (f b) \<and> bc_tick (f b) = bc_tick b \<and> (mirrors_ok b \<longrightarrow> mirrors_ok (f b)))"

lemma safe_modify:
  assumes "keeps f"
  shows "safe s (s\<lparr>st_blocks := bt_modify i f (st_blocks s)\<rparr>)"
proof -
  have "entry_ok s j b \<Longrightarrow> entry_ok (s\<lparr>st_blocks := bs\<rparr>) j (f b)" for j b bs
    using assms by (simp add: entry_ok_def keeps_def block_grows_def)
  moreover have "entry_ok s j b \<Longrightarrow> entry_ok (s\<lparr>st_blocks := bs\<rparr>) j b" for j b bs
    by (simp add: entry_ok_def)
  moreover have "block_grows b (f b)" for b using assms by (simp add: keeps_def)
  ultimately show ?thesis
    unfolding safe_def store_ok_def grows_def by (auto simp: bt_get_modify bt_ok_modify)
qed

lemma safe_update_block: "keeps f \<Longrightarrow> safe s (update_block i f s)"
proof -
  assume "keeps f"
  moreover have "update_block i f s
      = (s\<lparr>st_blocks := bt_modify i f (st_blocks s)\<rparr>)\<lparr>st_version := st_version s + 1\<rparr>"
    by (simp add: update_block_def)
  ultimately show ?thesis using safe_trans [OF safe_modify safe_version] by simp
qed

lemma safe_on_block: "keeps f \<Longrightarrow> safe s (fst (on_block i f s))"
  by (simp add: on_block_def safe_update_block)

lemma safe_on_live_block: "keeps f \<Longrightarrow> safe s (fst (on_live_block i f s))"
  by (simp add: on_live_block_def safe_update_block)

lemma bump_updated_at_identity [simp]:
  "bh_id (bump_updated_at h) = bh_id h" "bh_parent_id (bump_updated_at h) = bh_parent_id h"
  "bh_role (bump_updated_at h) = bh_role h" "bh_kind (bump_updated_at h) = bh_kind h"
  "bh_created_at (bump_updated_at h) = bh_created_at h"
  by (simp_all add: bump_updated_at_def)

lemma keeps_setters [intro!, simp]:
  "keeps (content_set_status v1 ts)" "keeps (content_set_collapsed v2 ts)"
  "keeps (content_set_ephemeral v2 ts)" "keeps (content_set_excluded v2 ts)"
  "keeps (content_set_compacted v2 ts)" "keeps (content_set_content_type v3 ts)"
  "keeps (content_set_exit_code v4 ts)" "keeps (mark_deleted ts)"
  "keeps (set_order_key k)" "keeps (content_set_output v5)" "keeps (content_set_stderr v6)"
  "keeps (content_set_signature v6)" "keeps (content_set_tool_use_id v6)"
  "keeps (set_tool_name v6)" "keeps (set_tool_input v6)" "keeps (set_tool_call_id v7)"
  by (simp_all add: keeps_def block_grows_def mirrors_ok_def content_set_status_def
      content_set_collapsed_def content_set_ephemeral_def content_set_excluded_def
      content_set_compacted_def content_set_content_type_def content_set_exit_code_def
      mark_deleted_def set_order_key_def content_set_output_def content_set_stderr_def
      content_set_signature_def content_set_tool_use_id_def set_tool_name_def set_tool_input_def
      set_tool_call_id_def)

lemma keeps_text [intro!, simp]:
  "keeps (content_edit_text D pos ins del)" "keeps (content_append_text D t)"
  by (simp_all add: keeps_def block_grows_def mirrors_ok_def content_edit_text_def
      content_append_text_def Let_def)

lemma keeps_merges:
  "keeps (merge_status r)" "keeps (merge_collapsed r)" "keeps (merge_ephemeral r)"
  "keeps (merge_excluded r)" "keeps (merge_compacted r)" "keeps (merge_tool_meta r)"
  "keeps (merge_content_type r)"
  by (simp_all add: keeps_def block_grows_def mirrors_ok_def merge_status_def merge_collapsed_def
      merge_ephemeral_def merge_excluded_def merge_compacted_def merge_tool_meta_def
      merge_content_type_def)

lemma keeps_comp: "keeps f \<Longrightarrow> keeps g \<Longrightarrow> keeps (\<lambda>b. g (f b))"
  by (auto simp: keeps_def intro: block_grows_trans)

lemmas keeps_merge_fields =
  keeps_comp [OF keeps_comp [OF keeps_comp [OF keeps_comp [OF keeps_comp [OF keeps_comp
    [OF keeps_merges(1) keeps_merges(2)] keeps_merges(3)] keeps_merges(4)] keeps_merges(5)]
    keeps_merges(6)] keeps_merges(7)]

lemma keeps_merge_header [intro!, simp]: "keeps (merge_header r)"
proof -
  have "keeps (\<lambda>b :: 'd BlockContent. b\<lparr>bc_header := (bc_header b)
      \<lparr>bh_updated_at := max (max_field_ts (bc_header b)) (max_field_ts r)\<rparr>\<rparr>)"
    by (simp add: keeps_def block_grows_def mirrors_ok_def)
  from keeps_comp [OF keeps_merge_fields this, of r r r r r r r]
  show ?thesis unfolding merge_header_def [abs_def] Let_def by simp
qed

text \<open>New blocks.\<close>

lemma content_from_snapshot_frame [simp]:
  "bc_header (content_from_snapshot D snap p k) = header_from_snapshot snap"
  "bc_tick (content_from_snapshot D snap p k) = bs_tick snap"
  "bc_deleted (content_from_snapshot D snap p k) = False"
  "bc_order_key (content_from_snapshot D snap p k) = (case bs_order_key snap of Some k \<Rightarrow> k | None \<Rightarrow> k)"
  by (simp_all add: content_from_snapshot_def Let_def)

lemma content_from_snapshot_for_sync_frame [simp]:
  "bc_header (content_from_snapshot_for_sync D snap p k) = header_from_snapshot snap"
  "bc_tick (content_from_snapshot_for_sync D snap p k) = bs_tick snap"
  "bc_deleted (content_from_snapshot_for_sync D snap p k) = False"
  "bc_order_key (content_from_snapshot_for_sync D snap p k) = (case bs_order_key snap of Some k \<Rightarrow> k | None \<Rightarrow> k)"
  by (simp_all add: content_from_snapshot_for_sync_def Let_def case_prod_unfold)

lemma header_from_snapshot_id [simp]: "bh_id (header_from_snapshot snap) = bs_id snap"
  by (simp add: header_from_snapshot_def)

lemma stamped_header_id [simp]:
  "bh_id (stamped_header now ts i p r k st tk code err ct) = i"
  by (simp add: stamped_header_def)

lemma mirrors_ok_stamped:
  "mirrors_ok (with_content D (stamped_header now ts i p r k st tk code err ct) c q key t)"
  by (simp add: mirrors_ok_def with_content_def content_new_def stamped_header_def Let_def case_prod_unfold)

text \<open>A freshly minted identifier is new.\<close>

lemma new_block_id_fresh:
  assumes "store_ok s" and "new_block_id s = (s', i)"
  shows "bt_get (st_blocks s) i = None" and "seq i < next_seq_for s' (principal_id i)"
    and "st_blocks s' = st_blocks s" and "st_next_tick s' = st_next_tick s"
proof -
  have i: "i = BlockId (st_context_id s) (st_principal_id s) (next_seq_for s (st_principal_id s))"
    and s': "s' = fst (reserve_block_id (st_principal_id s) s)"
    using assms(2) by (auto simp: new_block_id_def reserve_block_id_def Let_def)
  show "bt_get (st_blocks s) i = None"
    using store_okD(2) [OF assms(1), of i] i by (cases "bt_get (st_blocks s) i") auto
  show "seq i < next_seq_for s' (principal_id i)" by (simp add: i s' next_seq_for_reserve)
  show "st_blocks s' = st_blocks s" "st_next_tick s' = st_next_tick s" by (simp_all add: s')
qed

end
