(* ===== verification/Counter_Width.thy ===== *)
theory Counter_Width
  imports Store_Facts
begin

text \<open>
  The width of the store's counters.  The model of \<open>block_store.rs\<close> counts with numbers; the program
  counts with \<open>u64\<close> lanes and clocks and an \<open>i64\<close> tick counter, which wrap around in a release build and
  panic in a debug build.  The counters of the program are written here at their width.  They agree
  with the model's counters exactly as long as the model's new value fits the width: \<open>fits\<close> is the
  condition under which a store of the model is a store of the program, and the properties of the
  stores that a program reaches are stated under it.
\<close>

section \<open>The counters at their width\<close>

definition clock_tick_u64 :: "64 word \<Rightarrow> 64 word" where
  "clock_tick_u64 clock = clock + 1"

definition merge_clock_u64 :: "64 word \<Rightarrow> 64 word \<Rightarrow> 64 word" where
  "merge_clock_u64 remote_ts clock = max clock remote_ts + 1"

definition reserve_u64 :: "64 word \<Rightarrow> 64 word \<times> 64 word" where
  "reserve_u64 lane = (lane + 1, lane)"

definition observe_seq_u64 :: "64 word \<Rightarrow> 64 word \<Rightarrow> 64 word" where
  "observe_seq_u64 n lane = max lane (n + 1)"

definition next_tick_i64 :: "64 word \<Rightarrow> 64 word \<times> 64 word" where
  "next_tick_i64 next_tick = (next_tick + 1, next_tick)"

definition observe_tick_i64 :: "64 word \<Rightarrow> 64 word \<Rightarrow> 64 word" where
  "observe_tick_i64 t next_tick = (if sint next_tick < sint (t + 1) then t + 1 else next_tick)"

section \<open>Agreement\<close>

lemma unat_of_nat_u64: "n < 2 ^ 64 \<Longrightarrow> unat (of_nat n :: 64 word) = n"
  by (simp add: unat_of_nat take_bit_nat_eq_self)

lemma unat_succ: "unat (of_nat n + 1 :: 'a::len word) = (n + 1) mod 2 ^ LENGTH('a)"
proof -
  have "of_nat n + 1 = (of_nat (n + 1) :: 'a word)" by simp
  then show ?thesis by (simp only: unat_of_nat take_bit_eq_mod)
qed

lemma unat_succ_u64: "unat (of_nat n + 1 :: 64 word) = (n + 1) mod 2 ^ 64"
  using unat_succ [of n, where ?'a = 64] by simp

lemma max_u64: "a < 2 ^ 64 \<Longrightarrow> b < 2 ^ 64 \<Longrightarrow> max (of_nat a) (of_nat b) = (of_nat (max a b) :: 64 word)"
  by (simp add: max_def word_le_nat_alt unat_of_nat_u64)

lemma sint_of_int_i64: "- (2 ^ 63) \<le> x \<Longrightarrow> x < 2 ^ 63 \<Longrightarrow> sint (of_int x :: 64 word) = x"
  by (simp add: signed_of_int signed_take_bit_int_eq_self)

lemma sint_succ_i64:
  "- (2 ^ 63) \<le> x \<Longrightarrow> x < 2 ^ 63 \<Longrightarrow>
     sint (of_int x + 1 :: 64 word) = (if x + 1 < 2 ^ 63 then x + 1 else - (2 ^ 63))"
proof -
  assume x: "- (2 ^ 63) \<le> x" "x < 2 ^ 63"
  show ?thesis
  proof (cases "x + 1 < 2 ^ 63")
    case True
    then show ?thesis using sint_of_int_i64 [of "x + 1"] x by simp
  next
    case False
    then have "x = 2 ^ 63 - 1" using x by simp
    then show ?thesis by simp
  qed
qed

text \<open>
  Each counter of the program has the value of the model's counter exactly when the model's value fits;
  otherwise it is back at zero, and the lowest tick for the tick counter.
\<close>

lemma clock_tick_width:
  assumes "c < 2 ^ 64"
  shows "unat (clock_tick_u64 (of_nat c)) = (if c + 1 < 2 ^ 64 then c + 1 else 0)"
  using unat_succ_u64 [of c] assms
  by (cases "c + 1 = 2 ^ 64") (simp_all add: clock_tick_u64_def)

lemma merge_clock_width:
  assumes "c < 2 ^ 64" and "r < 2 ^ 64"
  shows "unat (merge_clock_u64 (of_nat r) (of_nat c)) = (if max c r + 1 < 2 ^ 64 then max c r + 1 else 0)"
  using clock_tick_width [of "max c r"] assms max_u64 [OF assms]
  by (simp add: merge_clock_u64_def clock_tick_u64_def)

lemma reserve_width:
  assumes "n < 2 ^ 64"
  shows "unat (fst (reserve_u64 (of_nat n))) = (if n + 1 < 2 ^ 64 then n + 1 else 0)"
    and "unat (snd (reserve_u64 (of_nat n))) = n"
  using clock_tick_width [OF assms] unat_of_nat_u64 [OF assms]
  by (simp_all add: reserve_u64_def clock_tick_u64_def)

lemma observe_seq_width:
  assumes "lane < 2 ^ 64" and "n < 2 ^ 64"
  shows "unat (observe_seq_u64 (of_nat n) (of_nat lane)) = (if n + 1 < 2 ^ 64 then max lane (n + 1) else lane)"
proof (cases "n + 1 < 2 ^ 64")
  case True
  then show ?thesis using max_u64 [OF assms(1) True] unat_of_nat_u64 [of "max lane (n + 1)"] assms
    by (simp add: observe_seq_u64_def add.commute)
next
  case False
  then have "of_nat n + 1 = (0 :: 64 word)"
    using clock_tick_width [OF assms(2)] by (simp add: clock_tick_u64_def unat_eq_zero)
  then show ?thesis using False unat_of_nat_u64 [OF assms(1)] by (simp add: observe_seq_u64_def)
qed

lemma next_tick_width:
  assumes "in_i64 t"
  shows "sint (fst (next_tick_i64 (of_int t))) = (if in_i64 (t + 1) then t + 1 else i64_min)"
  using sint_succ_i64 [of t] assms by (simp add: next_tick_i64_def i64_defs)

lemma observe_tick_width:
  assumes "in_i64 t" and "in_i64 n"
  shows "sint (observe_tick_i64 (of_int t) (of_int n)) = (if in_i64 (t + 1) then max n (t + 1) else n)"
  using sint_succ_i64 [of t] sint_of_int_i64 [of n] assms
  by (simp add: observe_tick_i64_def i64_defs max_def)

section \<open>Stores of the program\<close>

definition fits :: "'d BlockStore \<Rightarrow> bool" where
  "fits s \<longleftrightarrow> (\<forall>p. next_seq_for s p < 2 ^ 64) \<and> st_lamport_clock s < 2 ^ 64 \<and> st_next_tick s < 2 ^ 63"

text \<open>Counters that only grow: when the last value fits, all values on the way did.\<close>

lemma fits_grows: "grows s t \<Longrightarrow> fits t \<Longrightarrow> fits s"
  unfolding grows_def fits_def by (meson order_le_less_trans)

lemma fits_new [simp]: "fits (store_new ctx p)"
  by (simp add: fits_def store_new_def next_seq_for_def)

lemma fits_small:
  assumes "\<And>p. next_seq_for s p \<le> 1" and "st_lamport_clock s \<le> 9" and "st_next_tick s \<le> 9"
  shows "fits s"
proof -
  have "next_seq_for s p < 2 ^ 64" for p using assms(1) [of p] by simp
  then show ?thesis using assms(2,3) by (simp add: fits_def)
qed

text \<open>
  The stores that the model's counters give fit exactly when the counters of the program agree with
  them.
\<close>

lemma fits_clock_tick:
  assumes "fits s"
  shows "fits (fst (clock_tick s)) \<longleftrightarrow>
    unat (clock_tick_u64 (of_nat (st_lamport_clock s))) = st_lamport_clock (fst (clock_tick s))"
  using assms clock_tick_width [of "st_lamport_clock s"]
  by (auto simp: fits_def clock_tick_def next_seq_for_def Let_def)

lemma fits_merge_clock:
  assumes "fits s" and "r < 2 ^ 64"
  shows "fits (merge_clock r s) \<longleftrightarrow>
    unat (merge_clock_u64 (of_nat r) (of_nat (st_lamport_clock s))) = st_lamport_clock (merge_clock r s)"
  using assms merge_clock_width [of "st_lamport_clock s" r]
  by (auto simp: fits_def merge_clock_def next_seq_for_def)

lemma fits_reserve:
  assumes "fits s"
  shows "fits (fst (reserve_block_id p s)) \<longleftrightarrow>
    unat (fst (reserve_u64 (of_nat (next_seq_for s p)))) = next_seq_for (fst (reserve_block_id p s)) p"
  using assms reserve_width(1) [of "next_seq_for s p"]
  by (auto simp: fits_def reserve_block_id_def next_seq_for_def Let_def)

lemma fits_observe_seq:
  assumes "fits s" and "n < 2 ^ 64"
  shows "fits (observe_seq p n s) \<longleftrightarrow>
    unat (observe_seq_u64 (of_nat n) (of_nat (next_seq_for s p))) = next_seq_for (observe_seq p n s) p"
proof -
  have "st_lamport_clock (observe_seq p n s) = st_lamport_clock s" "st_next_tick (observe_seq p n s) = st_next_tick s"
    by (simp_all add: observe_seq_def)
  then have "fits (observe_seq p n s) \<longleftrightarrow> n + 1 < 2 ^ 64"
    using assms by (auto simp: fits_def next_seq_for_observe)
  then show ?thesis using assms observe_seq_width [of "next_seq_for s p" n]
    by (auto simp: fits_def next_seq_for_observe)
qed

lemma fits_next_position:
  assumes "fits s" and "in_i64 (st_next_tick s)"
  shows "fits (fst (next_position after s)) \<longleftrightarrow>
    sint (fst (next_tick_i64 (of_int (st_next_tick s)))) = st_next_tick (fst (next_position after s))"
  using assms next_tick_width [of "st_next_tick s"]
  by (auto simp: fits_def next_position_def next_seq_for_def Let_def i64_defs)

text \<open>
  A payload of one block can wrap each counter: after the largest sequence number the lane of the
  program stays where it was, below the number it has just seen, and after the largest timestamp the
  clock starts again at zero.
\<close>

lemma counters_wrap:
  "observe_seq_u64 (- 1) 5 = 5" "merge_clock_u64 (- 1) 5 = 0" "observe_tick_i64 (2 ^ 63 - 1) 5 = 5"
  by (simp_all add: observe_seq_u64_def merge_clock_u64_def observe_tick_i64_def)

end
