(* ===== verification/Store_Props.thy ===== *)
theory Store_Props
  imports Counter_Width "HOL-Library.Multiset"
begin

text \<open>
  Safety of the block store.  Every operation of \<open>block_store.rs\<close> is a step; steps keep the
  invariant, never lose a block, never lift a tombstone and never reuse an identifier.  Failed
  operations change no block.  Appends land at the end of the document and insertions after a
  given block land right behind it, under the condition that the midpoint of the two order keys
  exists.
\<close>

section \<open>Each operation is safe\<close>

lemma next_position_frame:
  assumes "next_position after s = (s', t, key)"
  shows "s' = s\<lparr>st_next_tick := st_next_tick s + 1\<rparr>" and "t = Some (st_next_tick s)"
    and "key = calc_order_key s' after (Some (st_next_tick s))"
  using assms by (auto simp: next_position_def Let_def)

lemma clock_tick_frame:
  assumes "clock_tick s = (s', ts)"
  shows "s' = s\<lparr>st_lamport_clock := st_lamport_clock s + 1\<rparr>" and "ts = st_lamport_clock s + 1"
  using assms by (auto simp: clock_tick_def Let_def)

text \<open>Minting an identifier and a position, and filing a block under them.\<close>

lemma safe_mint_put:
  assumes "new_block_id s = (s1, i)" and "next_position after s1 = (s2, t, key)"
    and "safe s2 s3" and "st_blocks s3 = st_blocks s2" and "st_next_tick s3 = st_next_tick s2"
    and "\<And>p. next_seq_for s3 p = next_seq_for s2 p"
    and "bh_id (bc_header b) = i" and "bc_tick b = t" and "mirrors_ok b"
  shows "safe s (put_block i b s3)"
proof -
  note pos = next_position_frame [OF assms(2)]
  have s1: "s1 = fst (new_block_id s)" using assms(1) by simp
  have "safe s s1" by (simp add: s1 safe_new_block_id)
  moreover have "safe s1 s2" by (simp add: pos(1) safe_next_tick)
  ultimately have s3: "safe s s3" using assms(3) safe_trans by blast
  have "safe s3 (put_block i b s3)" if "store_ok s"
  proof (rule safe_put_block)
    note fresh = new_block_id_fresh [OF that assms(1)]
    show "bt_get (st_blocks s3) i = None" using fresh pos(1) assms(4) by simp
    show "entry_ok s3 i b"
      using fresh pos assms(5-9) by (simp add: entry_ok_def)
  qed
  with s3 show ?thesis by (meson safe_def safe_trans)
qed

lemma safe_mint: "new_block_id s = (s1, i) \<Longrightarrow> safe s s1"
  using safe_new_block_id [of s] by simp

text \<open>
  What all eight insertions have in common.  A refused one only consumes an identifier; a
  successful one files a live block with a minted identifier and position.
\<close>

definition inserted ::
  "BlockId option \<Rightarrow> 'd BlockStore \<Rightarrow> 'd BlockStore \<Rightarrow> BlockId \<Rightarrow> 'd BlockContent \<Rightarrow> bool" where
  "inserted after s s' i b \<longleftrightarrow>
     (\<exists>s1 s2 t key. new_block_id s = (s1, i) \<and> next_position after s1 = (s2, t, key)
        \<and> bh_id (bc_header b) = i \<and> bc_tick b = t \<and> mirrors_ok b \<and> bc_order_key b = key
        \<and> \<not> bc_deleted b
        \<and> (s' = put_block i b s2 \<or> s' = put_block i b (fst (clock_tick s2))))"

definition insertion ::
  "BlockId option \<Rightarrow> BlockId option list \<Rightarrow> 'd BlockStore \<Rightarrow> ('d, BlockId) outcome \<Rightarrow> bool" where
  "insertion after refs s out \<longleftrightarrow>
     (case out of
        (s', Inl e) \<Rightarrow> s' = fst (new_block_id s)
      | (s', Inr i) \<Rightarrow> check_refs s refs = None \<and> (\<exists>b. inserted after s s' i b))"

lemma check_refs_cong: "st_blocks s = st_blocks s' \<Longrightarrow> check_refs s refs = check_refs s' refs"
  by (induction refs rule: check_refs.induct) (simp_all add: is_live_def)

lemma check_refs_minted: "new_block_id s = (s1, i) \<Longrightarrow> check_refs s1 refs = check_refs s refs"
  by (rule check_refs_cong) (auto simp: new_block_id_def reserve_block_id_def Let_def)

lemma setters_frame [simp]:
  "bc_header (set_tool_name v b) = bc_header b" "bc_tick (set_tool_name v b) = bc_tick b"
  "bc_order_key (set_tool_name v b) = bc_order_key b" "bc_deleted (set_tool_name v b) = bc_deleted b"
  "mirrors_ok (set_tool_name v b) = mirrors_ok b"
  "bc_header (set_tool_input v b) = bc_header b" "bc_tick (set_tool_input v b) = bc_tick b"
  "bc_order_key (set_tool_input v b) = bc_order_key b" "bc_deleted (set_tool_input v b) = bc_deleted b"
  "mirrors_ok (set_tool_input v b) = mirrors_ok b"
  "bc_header (set_tool_call_id w b) = bc_header b" "bc_tick (set_tool_call_id w b) = bc_tick b"
  "bc_order_key (set_tool_call_id w b) = bc_order_key b" "bc_deleted (set_tool_call_id w b) = bc_deleted b"
  "mirrors_ok (set_tool_call_id w b) = mirrors_ok b"
  "bc_header (set_tick t b) = bc_header b" "bc_tick (set_tick t b) = Some t"
  "bc_order_key (set_tick t b) = bc_order_key b" "bc_deleted (set_tick t b) = bc_deleted b"
  "mirrors_ok (set_tick t b) = mirrors_ok b"
  by (simp_all add: set_tool_name_def set_tool_input_def set_tool_call_id_def set_tick_def mirrors_ok_def)

lemma insertedI:
  assumes "new_block_id s = (s1, i)" and "next_position after s1 = (s2, t, key)"
    and "bh_id (bc_header b) = i" and "bc_tick b = t" and "mirrors_ok b" and "bc_order_key b = key"
    and "\<not> bc_deleted b" and "s' = put_block i b s2 \<or> s' = put_block i b (fst (clock_tick s2))"
  shows "inserted after s s' i b"
  using assms unfolding inserted_def by blast

lemma insertionI:
  assumes "new_block_id s = (s1, i)"
    and "\<And>e s'. out = (s', Inl e) \<Longrightarrow> s' = s1"
    and "\<And>j s'. out = (s', Inr j) \<Longrightarrow> check_refs s1 refs = None \<and> (\<exists>b. inserted after s s' j b)"
  shows "insertion after refs s out"
  using assms check_refs_minted [OF assms(1)]
  by (cases out; cases "snd out") (auto simp: insertion_def)

lemma insert_block_insertion:
  "insertion after [after, p] s (insert_block D now p after r k c st ct s)"
proof (cases "new_block_id s")
  case (Pair s1 i)
  obtain s2 t key where pos: "next_position after s1 = (s2, t, key)" by (metis prod_cases3)
  obtain s3 ts where clk: "clock_tick s2 = (s3, ts)" by force
  have ins: "inserted after s (put_block i b s3) i b"
    if "b = with_content D (stamped_header now ts i p r k st None None False ct) c q key t" for b q
    using Pair pos by (rule insertedI) (simp_all add: that mirrors_ok_stamped clk)
  show ?thesis
    by (intro insertionI [OF Pair])
      (auto simp: insert_block_def Let_def Pair pos clk intro: ins split: option.splits)
qed

lemma insert_tool_call_insertion:
  "insertion after [after, p] s (insert_tool_call D js now p after n inp tk r s)"
proof (cases "new_block_id s")
  case (Pair s1 i)
  obtain s2 t key where pos: "next_position after s1 = (s2, t, key)" by (metis prod_cases3)
  obtain s3 ts where clk: "clock_tick s2 = (s3, ts)" by force
  have ins: "inserted after s (put_block i b s3) i b"
    if "b = set_tool_input u (set_tool_name v
          (with_content D (stamped_header now ts i p ro BlockKind.ToolCall Status.Running tk None False Plain) c q key t))"
    for b q u v ro c
    using Pair pos by (rule insertedI) (simp_all add: that mirrors_ok_stamped clk)
  show ?thesis
    by (intro insertionI [OF Pair])
      (auto simp: insert_tool_call_def Let_def Pair pos clk intro: ins split: option.splits sum.splits)
qed

lemma insert_tool_result_insertion:
  assumes "after' = (case after of Some a \<Rightarrow> Some a | None \<Rightarrow> Some call)"
  shows "insertion after' [Some call, after'] s (insert_tool_result_block D now call after c err code tk s)"
proof (cases "new_block_id s")
  case (Pair s1 i)
  obtain s2 t key where pos: "next_position after' s1 = (s2, t, key)" by (metis prod_cases3)
  obtain s3 ts where clk: "clock_tick s2 = (s3, ts)" by force
  have ins: "inserted after' s (put_block i b s3) i b"
    if "b = set_tool_call_id u (with_content D (stamped_header now ts i (Some call) Role.Tool
          BlockKind.ToolResult st tk code e Plain) c q key t)"
    for b q u st e
    using Pair pos by (rule insertedI) (simp_all add: that mirrors_ok_stamped clk)
  show ?thesis
    by (intro insertionI [OF Pair])
      (auto simp: insert_tool_result_block_def Let_def Pair pos clk simp flip: assms intro: ins
        simp del: check_refs.simps split: option.splits)
qed

text \<open>The constructors give the block the identifier and leave key and flags open.\<close>

definition builds :: "(BlockId \<Rightarrow> BlockSnapshot option) \<Rightarrow> bool" where
  "builds construct \<longleftrightarrow>
     (\<forall>i snap. construct i = Some snap \<longrightarrow> bs_id snap = i \<and> bs_order_key snap = None)"

lemma builds_constructors [simp]:
  "builds (\<lambda>i. snapshot_drift now i p c src m dk)" "builds (\<lambda>i. snapshot_file now i p path c)"
  "builds (\<lambda>i. snapshot_error_for now i q ep c)" "builds (\<lambda>i. snapshot_notification_block now i p np c)"
  "builds (\<lambda>i. snapshot_resource_block now i p rp c)"
  by (auto simp: builds_def snapshot_drift_def snapshot_file_def snapshot_error_for_def
      snapshot_notification_block_def snapshot_resource_block_def builder_new_def split: if_splits)

lemma insert_constructed_insertion:
  assumes "builds construct" and "insert_constructed D refs after construct s = Some out"
  shows "insertion after refs s out"
proof (cases "new_block_id s")
  case (Pair s1 i)
  obtain s2 t key where pos: "next_position after s1 = (s2, t, key)" by (metis prod_cases3)
  have t: "t = Some (st_next_tick s1)" using next_position_frame [OF pos] by simp
  have "inserted after s (put_block i b s2) i b"
    if "construct i = Some snap" "b = set_tick (st_next_tick s1) (content_from_snapshot D snap q key)"
    for b q snap
  proof (rule insertedI [OF Pair pos])
    have "bs_id snap = i" "bs_order_key snap = None"
      using assms(1) that(1) by (auto simp: builds_def)
    then show "bh_id (bc_header b) = i" "bc_order_key b = key" by (simp_all add: that(2))
  qed (simp_all add: that(2) t mirrors_ok_restored)
  then show ?thesis
    using assms(2) t
    by (intro insertionI [OF Pair])
      (auto simp: insert_constructed_def Let_def Pair pos split: option.splits)
qed

lemma safe_inserted:
  assumes "inserted after s s' i b"
  shows "safe s s'"
proof -
  from assms obtain s1 s2 t key where *: "new_block_id s = (s1, i)" "next_position after s1 = (s2, t, key)"
      "bh_id (bc_header b) = i" "bc_tick b = t" "mirrors_ok b"
      "s' = put_block i b s2 \<or> s' = put_block i b (fst (clock_tick s2))"
    unfolding inserted_def by blast
  have "safe s (put_block i b s2)"
    by (rule safe_mint_put [OF *(1,2) safe_refl]) (simp_all add: *)
  moreover have "safe s (put_block i b (fst (clock_tick s2)))"
    by (rule safe_mint_put [OF *(1,2) safe_clock_tick]) (simp_all add: * clock_tick_def Let_def)
  ultimately show ?thesis using *(6) by blast
qed

lemma safe_insertion: "insertion after refs s (s', res) \<Longrightarrow> safe s s'"
  by (auto simp: insertion_def safe_new_block_id split: sum.splits intro: safe_inserted)

lemma safe_insert_from_snapshot:
  "safe s (fst (insert_from_snapshot D snap after s))"
proof (cases "bt_contains (st_blocks s) (bs_id snap)")
  case True
  then show ?thesis by (simp add: insert_from_snapshot_def Let_def safe_observe_seq)
next
  case False
  let ?i = "bs_id snap"
  define s1 where "s1 = observe_seq (principal_id ?i) (seq ?i) s"
  define s2 where "s2 = (case bs_tick snap of
      Some t \<Rightarrow> s1\<lparr>st_next_tick := max (st_next_tick s1) (t + 1)\<rparr> | None \<Rightarrow> s1)"
  let ?b = "content_from_snapshot D snap (st_principal_id s2) (calc_order_key s2 after (bs_tick snap))"
  have "safe s s1" by (simp add: s1_def safe_observe_seq)
  moreover have "safe s1 s2" by (simp add: s2_def safe_next_tick split: option.split)
  moreover have "safe s2 (put_block ?i ?b s2)"
  proof (rule safe_put_block)
    show "bt_get (st_blocks s2) ?i = None"
      using False by (simp add: s1_def s2_def bt_contains_def split: option.split)
    show "entry_ok s2 ?i ?b"
      by (auto simp: entry_ok_def s1_def s2_def next_seq_for_observe mirrors_ok_restored split: option.split)
  qed
  ultimately have "safe s (put_block ?i ?b s2)" using safe_trans by blast
  moreover have "fst (insert_from_snapshot D snap after s) = put_block ?i ?b s2"
    using False by (simp only: insert_from_snapshot_def Let_def s1_def [symmetric] s2_def [symmetric])
      (simp add: s1_def)
  ultimately show ?thesis by simp
qed

lemma safe_clocked:
  "keeps f \<Longrightarrow> safe s (fst (on_block i f (fst (clock_tick s))))"
  "keeps f \<Longrightarrow> safe s (fst (on_live_block i f (fst (clock_tick s))))"
  by (rule safe_trans [OF safe_clock_tick], erule safe_on_block safe_on_live_block)+

lemma safe_delete_block: "safe s (fst (delete_block i s))"
  by (simp add: delete_block_def Let_def case_prod_unfold safe_clocked)

lemma safe_store_edit_text: "safe s (fst (store_edit_text D i pos ins del s))"
  by (simp add: store_edit_text_def Let_def safe_update_block)

lemma safe_live_setters:
  "safe s (fst (store_append_text D i t s))" "safe s (fst (store_set_output i v5 s))"
  "safe s (fst (store_set_stderr i v6 s))" "safe s (fst (store_set_tool_use_id i v6 s))"
  "safe s (fst (store_set_signature i v6 s))"
  by (simp_all add: store_append_text_def store_set_output_def store_set_stderr_def
      store_set_tool_use_id_def store_set_signature_def safe_on_live_block)

lemma safe_clocked_setters:
  "safe s (fst (store_set_status i v1 s))" "safe s (fst (store_set_collapsed i v2 s))"
  "safe s (fst (store_set_content_type i v3 s))" "safe s (fst (store_set_exit_code i v4 s))"
  "safe s (fst (store_set_ephemeral i v2 s))" "safe s (fst (store_set_excluded i v2 s))"
  "safe s (fst (store_set_compacted i v2 s))"
  by (simp_all add: safe_clocked store_set_status_def store_set_collapsed_def store_set_content_type_def
      store_set_exit_code_def store_set_ephemeral_def store_set_excluded_def store_set_compacted_def
      Let_def case_prod_unfold)

lemma safe_move_block: "safe s (fst (move_block i after s))"
  by (simp add: move_block_def safe_update_block split: option.split)

text \<open>
  During the first phase of a merge the tick counter lags behind the inserted blocks; the view
  adds what the end of the phase adds.
\<close>

fun advanced :: "'d BlockStore \<times> u64 \<times> Tick option \<Rightarrow> 'd BlockStore" where
  "advanced (s, m, None) = s"
| "advanced (s, m, Some t) = s\<lparr>st_next_tick := max (st_next_tick s) (t + 1)\<rparr>"

lemma safe_fold_view:
  "(\<And>x st. x \<in> set xs \<Longrightarrow> safe (v st) (v (f x st))) \<Longrightarrow> safe (v st) (v (fold f xs st))"
proof (induction xs arbitrary: st)
  case (Cons x xs)
  have "safe (v st) (v (f x st))" using Cons.prems by simp
  moreover have "safe (v (f x st)) (v (fold f xs (f x st)))" using Cons by simp
  ultimately show ?case by (simp add: safe_trans)
qed simp

lemma safe_merge_new_block: "safe (advanced st) (advanced (merge_new_block D H snap st))"
proof (cases st)
  case (fields s m h)
  let ?i = "bs_id snap"
  show ?thesis
  proof (cases "bt_contains (st_blocks s) ?i")
    case True
    with fields show ?thesis by (simp add: merge_new_block_def Let_def)
  next
    case False
    define b where "b = (if ?i \<in> H
        then content_from_snapshot_for_sync D snap (st_principal_id s) (fallback_key s snap)
        else content_from_snapshot D snap (st_principal_id s) (fallback_key s snap))"
    define a where "a = advanced st"
    define n where "n = (case bs_tick snap of None \<Rightarrow> st_next_tick a | Some t \<Rightarrow> max (st_next_tick a) (t + 1))"
    define a2 where "a2 = (observe_seq (principal_id ?i) (seq ?i) a)\<lparr>st_next_tick := n\<rparr>"
    have blocks: "st_blocks a2 = st_blocks s" by (cases h) (simp_all add: a2_def a_def fields)
    have "safe a a2"
      unfolding a2_def
      by (rule safe_trans [OF safe_observe_seq safe_next_tick]) (simp add: n_def split: option.split)
    moreover have "safe a2 (a2\<lparr>st_blocks := bt_insert ?i b (st_blocks a2)\<rparr>)"
    proof (rule safe_insert)
      show "bt_get (st_blocks a2) ?i = None" using False blocks by (simp add: bt_contains_def)
      show "entry_ok a2 ?i b"
        by (auto simp: entry_ok_def b_def a2_def n_def next_seq_for_observe mirrors_ok_restored)
    qed
    moreover have "advanced (merge_new_block D H snap st) = a2\<lparr>st_blocks := bt_insert ?i b (st_blocks a2)\<rparr>"
      using False blocks
      by (cases h; cases "bs_tick snap")
        (simp_all add: merge_new_block_def Let_def fields b_def a2_def a_def n_def observe_seq_def
          next_seq_for_def max.assoc max.left_commute)
    ultimately show ?thesis unfolding a_def using safe_trans by metis
  qed
qed

lemma safe_merge_remote_header: "safe (fst st) (fst (merge_remote_header h st))"
  by (simp add: merge_remote_header_def Let_def case_prod_unfold safe_modify)

lemma safe_modify_at:
  assumes "bt_get (st_blocks s) i = Some b" and "block_grows b b'" and "bc_tick b' = bc_tick b"
    and "mirrors_ok b \<Longrightarrow> mirrors_ok b'"
  shows "safe s (s\<lparr>st_blocks := bt_modify i (\<lambda>_. b') (st_blocks s)\<rparr>)"
  using assms unfolding safe_def store_ok_def grows_def
  by (auto simp: bt_get_modify bt_ok_modify entry_ok_def block_grows_def)

lemma content_merge_ops_frame:
  "\<exists>d. fst (content_merge_ops D ops b) = b\<lparr>bc_doc := d\<rparr>"
  by (simp add: content_merge_ops_def Let_def case_prod_unfold) blast

lemma safe_merge_block_ops: "safe s (fst (merge_block_ops D ops s had))"
proof (induction ops arbitrary: s had)
  case Nil
  then show ?case by simp
next
  case (Cons io ops)
  obtain i o' where io: "io = (i, o')" by force
  show ?case
  proof (cases "bt_get (st_blocks s) i")
    case None
    with Cons io show ?thesis by simp
  next
    case (Some b)
    obtain b' r where m: "content_merge_ops D o' b = (b', r)" by force
    with content_merge_ops_frame [of D o' b] obtain d where b': "b' = b\<lparr>bc_doc := d\<rparr>" by auto
    have "safe s (s\<lparr>st_blocks := bt_modify i (\<lambda>_. b') (st_blocks s)\<rparr>)"
      by (rule safe_modify_at [OF Some]) (simp_all add: b' block_grows_def mirrors_ok_def)
    with Cons io Some m show ?thesis
      by (cases r) (auto simp: Let_def intro: safe_trans)
  qed
qed

lemma safe_apply_tombstone: "safe s (apply_tombstone i s)"
  using safe_clock_tick [of s] safe_trans [OF safe_clock_tick safe_modify [OF keeps_setters(8)], of s]
  by (simp add: apply_tombstone_def Let_def case_prod_unfold)

lemma safe_store_merge_ops: "safe s (fst (store_merge_ops D p s))"
proof -
  obtain s1 m1 h1 where 1: "fold (merge_new_block D (fst ` set (sp_block_ops p))) (sp_new_blocks p) (s, 0, None) = (s1, m1, h1)"
    by (metis prod_cases3)
  define s1' where "s1' = advanced (s1, m1, h1)"
  obtain s2 m2 where 2: "fold merge_remote_header (sp_updated_headers p) (s1', m1) = (s2, m2)" by force
  obtain s3 had e where 3: "merge_block_ops D (sp_block_ops p) s2 False = (s3, had, e)" by (metis prod_cases3)
  have "safe (advanced (s, 0, None)) (advanced (s1, m1, h1))"
    unfolding 1 [symmetric] by (rule safe_fold_view) (rule safe_merge_new_block)
  then have "safe s s1'" by (simp add: s1'_def)
  moreover have "safe (fst (s1', m1)) (fst (s2, m2))"
    unfolding 2 [symmetric] by (rule safe_fold_view) (rule safe_merge_remote_header)
  then have "safe s1' s2" by simp
  moreover have "safe s2 s3" using safe_merge_block_ops [of s2 D "sp_block_ops p" False] 3 by simp
  ultimately have s3: "safe s s3" using safe_trans by blast
  have "safe s3 (fold apply_tombstone (sp_deleted_blocks p) s3)"
    by (rule safe_fold) (rule safe_apply_tombstone)
  with s3 have s4: "safe s (fold apply_tombstone (sp_deleted_blocks p) s3)" using safe_trans by blast
  have s1'_eq: "s1' = (case h1 of Some t \<Rightarrow> s1\<lparr>st_next_tick := max (st_next_tick s1) (t + 1)\<rparr> | None \<Rightarrow> s1)"
    by (simp add: s1'_def split: option.split)
  show ?thesis
    using s3 safe_trans [OF s4 safe_version] safe_trans [OF safe_trans [OF s4 safe_merge_clock] safe_version]
    by (simp add: store_merge_ops_def Let_def 1 2 3 s1'_eq [symmetric] split: option.split)
qed

section \<open>Steps\<close>

text \<open>
  The eight insertions as one relation: where the block goes, which references are checked, the
  store before and the outcome.  A panicking insertion has no outcome.
\<close>

inductive insert_step ::
  "('d, 'o, 'f) dte \<Rightarrow> BlockId option \<Rightarrow> BlockId option list \<Rightarrow> 'd BlockStore \<Rightarrow> ('d, BlockId) outcome \<Rightarrow> bool"
  for D :: "('d, 'o, 'f) dte" where
  block: "insert_step D after [after, p] s (insert_block D now p after r k c st ct s)"
| tool_call: "insert_step D after [after, p] s (insert_tool_call D (js :: string \<Rightarrow> string + string) now p after n inp tk ro s)"
| tool_result: "after' = (case after of Some a \<Rightarrow> Some a | None \<Rightarrow> Some call) \<Longrightarrow>
    insert_step D after' [Some call, after'] s (insert_tool_result_block D now call after c err code tk s)"
| drift: "insert_drift_block D now p after c src m dk s = Some out \<Longrightarrow> insert_step D after [after, p] s out"
| file_block: "insert_file_block D now p after path c s = Some out \<Longrightarrow> insert_step D after [after, p] s out"
| error: "insert_error_block D now q after ep c s = Some out \<Longrightarrow> insert_step D after [Some q, after] s out"
| notification: "insert_notification_block D now p after np c s = Some out \<Longrightarrow>
    insert_step D after [after, p] s out"
| resource: "insert_resource_block D now p after rp c s = Some out \<Longrightarrow> insert_step D after [after, p] s out"

lemmas constructed_insertions = builds_constructors [THEN insert_constructed_insertion]

lemma insert_step_insertion: "insert_step D after refs s out \<Longrightarrow> insertion after refs s out"
proof (induction rule: insert_step.induct)
  case (tool_result after' after call s now c err code tk)
  then show ?case by (rule insert_tool_result_insertion)
qed (auto simp: insert_drift_block_def insert_file_block_def insert_error_block_def
    insert_notification_block_def insert_resource_block_def
    intro: insert_block_insertion insert_tool_call_insertion constructed_insertions)

definition err_of :: "CrdtError + 'a \<Rightarrow> CrdtError option" where
  "err_of r = (case r of Inl e \<Rightarrow> Some e | Inr _ \<Rightarrow> None)"

text \<open>Every local operation, with its error if it fails.\<close>

inductive local_call ::
  "('d, 'o, 'f) dte \<Rightarrow> 'd BlockStore \<Rightarrow> 'd BlockStore \<Rightarrow> CrdtError option \<Rightarrow> bool"
  for D :: "('d, 'o, 'f) dte" where
  ins: "insert_step D after refs s (s', r) \<Longrightarrow> local_call D s s' (err_of r)"
| snap: "insert_from_snapshot D snap after s = (s', r) \<Longrightarrow> local_call D s s' (err_of r)"
| del: "delete_block i s = (s', u) \<Longrightarrow> local_call D s s' (err_of u)"
| edit: "store_edit_text D i pos t n s = (s', u) \<Longrightarrow> local_call D s s' (err_of u)"
| app: "store_append_text D i t s = (s', u) \<Longrightarrow> local_call D s s' (err_of u)"
| status: "store_set_status i st s = (s', u) \<Longrightarrow> local_call D s s' (err_of u)"
| collapsed: "store_set_collapsed i v s = (s', u) \<Longrightarrow> local_call D s s' (err_of u)"
| set_output: "store_set_output i od s = (s', u) \<Longrightarrow> local_call D s s' (err_of u)"
| stderr: "store_set_stderr i x s = (s', u) \<Longrightarrow> local_call D s s' (err_of u)"
| tool_use: "store_set_tool_use_id i x s = (s', u) \<Longrightarrow> local_call D s s' (err_of u)"
| signature: "store_set_signature i x s = (s', u) \<Longrightarrow> local_call D s s' (err_of u)"
| content_type: "store_set_content_type i ct s = (s', u) \<Longrightarrow> local_call D s s' (err_of u)"
| exit_code: "store_set_exit_code i code s = (s', u) \<Longrightarrow> local_call D s s' (err_of u)"
| ephemeral: "store_set_ephemeral i v s = (s', u) \<Longrightarrow> local_call D s s' (err_of u)"
| excluded: "store_set_excluded i v s = (s', u) \<Longrightarrow> local_call D s s' (err_of u)"
| compacted: "store_set_compacted i v s = (s', u) \<Longrightarrow> local_call D s s' (err_of u)"
| move: "move_block i after s = (s', u) \<Longrightarrow> local_call D s s' (err_of u)"

inductive store_step :: "('d, 'o, 'f) dte \<Rightarrow> 'd BlockStore \<Rightarrow> 'd BlockStore \<Rightarrow> bool"
  for D :: "('d, 'o, 'f) dte" where
  local_op: "local_call D s s' e \<Longrightarrow> store_step D s s'"
| merge: "store_merge_ops D p s = (s', r) \<Longrightarrow> store_step D s s'"
| reserve: "reserve_block_id p s = (s', i) \<Longrightarrow> store_step D s s'"
| principal: "store_step D s (set_principal_id p s)"
| version: "store_step D s (set_version v s)"

lemma fst_eqD: "f = (a, b) \<Longrightarrow> a = fst f"
  by simp

lemma safe_local_call: "local_call D s s' e \<Longrightarrow> safe s s'"
proof (induction rule: local_call.induct)
  case (ins after refs s s' r)
  then show ?case using insert_step_insertion safe_insertion by blast
qed (auto dest!: fst_eqD simp: safe_insert_from_snapshot safe_delete_block safe_store_edit_text
    safe_live_setters safe_clocked_setters safe_move_block)

lemma safe_store_step: "store_step D s s' \<Longrightarrow> safe s s'"
proof (induction rule: store_step.induct)
  case (local_op s s' e)
  then show ?case by (rule safe_local_call)
qed (auto dest!: fst_eqD simp: safe_store_merge_ops safe_reserve safe_principal set_version_def safe_version)

interpretation store_run: monotone_system "store_step D" store_ok grows for D
  by unfold_locales (auto dest: safe_store_step simp: safe_def intro: grows_trans)

text \<open>A local operation that fails touches no block, no version and no tick.\<close>

lemma insertion_failed:
  "insertion after refs s (s', Inl e) \<Longrightarrow>
   st_blocks s' = st_blocks s \<and> st_version s' = st_version s \<and> st_next_tick s' = st_next_tick s"
  by (simp add: insertion_def new_block_id_def)

lemma on_block_failed:
  "on_block i f s = (s', Inl e) \<Longrightarrow> s' = s" "on_live_block i f s = (s', Inl e) \<Longrightarrow> s' = s"
  by (auto simp: on_block_def on_live_block_def split: if_splits)

lemma err_of_Some: "err_of r = Some e \<longleftrightarrow> r = Inl e"
  by (simp add: err_of_def split: sum.split)

lemma clocked_failed:
  "on_block i (f ts) (s\<lparr>st_lamport_clock := t\<rparr>) = (s', Inl e) \<Longrightarrow> s' = s\<lparr>st_lamport_clock := t\<rparr>"
  "on_live_block i (f ts) (s\<lparr>st_lamport_clock := t\<rparr>) = (s', Inl e) \<Longrightarrow> s' = s\<lparr>st_lamport_clock := t\<rparr>"
  by (auto dest: on_block_failed)

lemma failed_local_call:
  assumes "local_call D s s' (Some e)"
  shows "st_blocks s' = st_blocks s \<and> st_version s' = st_version s \<and> st_next_tick s' = st_next_tick s"
  using assms
proof (cases rule: local_call.cases)
  case (ins after refs r)
  then show ?thesis using insert_step_insertion insertion_failed by (metis err_of_Some)
next
  case (snap sn after r)
  then have "insert_from_snapshot D sn after s = (s', Inl e)" by (metis err_of_Some)
  then show ?thesis by (auto simp: insert_from_snapshot_def Let_def split: if_splits)
next
  case (edit i pos t n u)
  then have "store_edit_text D i pos t n s = (s', Inl e)" by (metis err_of_Some)
  then show ?thesis by (auto simp: store_edit_text_def Let_def split: if_splits)
next
  case (move i after u)
  then have "move_block i after s = (s', Inl e)" by (metis err_of_Some)
  then show ?thesis by (auto simp: move_block_def split: if_splits option.splits)
qed (auto simp: err_of_Some [of _ e] eq_commute [of "Some e"] delete_block_def store_append_text_def store_set_status_def
    store_set_collapsed_def store_set_output_def store_set_stderr_def store_set_tool_use_id_def
    store_set_signature_def store_set_content_type_def store_set_exit_code_def
    store_set_ephemeral_def store_set_excluded_def store_set_compacted_def clock_tick_def Let_def
    dest!: clocked_failed on_block_failed)

section \<open>Document order\<close>

lemma mset_bt_insert: "bt_get m k = None \<Longrightarrow> mset (bt_insert k v m) = add_mset (k, v) (mset m)"
  by (induction k v m rule: bt_insert.induct) (auto simp: bt_get_def split: if_splits)

definition order_pair :: "BlockId \<times> 'd BlockContent \<Rightarrow> string \<times> BlockId" where
  "order_pair = (\<lambda>(i, b). (bc_order_key b, i))"

lemma order_pairs_mset:
  "mset (order_pairs s) = image_mset order_pair (filter_mset (\<lambda>e. \<not> bc_deleted (snd e)) (mset (st_blocks s)))"
  by (simp add: order_pairs_def live_entries_def order_pair_def case_prod_unfold)

lemma sorted_order_pairs: "sorted (order_pairs s)"
  by (simp add: order_pairs_def)

lemma order_pairs_unique: "sorted xs \<Longrightarrow> mset xs = mset (order_pairs s) \<Longrightarrow> xs = order_pairs s"
  using sorted_order_pairs by (metis properties_for_sort)

text \<open>Where a new live block lands is decided by its pair alone.\<close>

lemma order_pairs_insert:
  assumes "bt_get (st_blocks s) i = None" and "\<not> bc_deleted b"
    and "order_pairs s = xs @ ys" and "\<forall>x \<in> set xs. x < (bc_order_key b, i)"
    and "\<forall>y \<in> set ys. (bc_order_key b, i) < y"
    and "st_blocks s' = bt_insert i b (st_blocks s)"
  shows "order_pairs s' = xs @ (bc_order_key b, i) # ys"
proof (rule order_pairs_unique [symmetric])
  have "sorted (xs @ ys)" using sorted_order_pairs [of s] assms(3) by simp
  with assms(4,5) show "sorted (xs @ (bc_order_key b, i) # ys)"
    by (auto simp: sorted_append intro: less_imp_le order.trans)
  have "mset (order_pairs s') = add_mset (bc_order_key b, i) (mset (order_pairs s))"
    using assms(1,2,6) by (simp add: order_pairs_mset mset_bt_insert order_pair_def)
  then show "mset (xs @ (bc_order_key b, i) # ys) = mset (order_pairs s')"
    by (simp add: assms(3))
qed

lemma set_order_pairs:
  assumes "bt_ok (st_blocks s)"
  shows "(k, i) \<in> set (order_pairs s) \<longleftrightarrow>
     (\<exists>b. bt_get (st_blocks s) i = Some b \<and> \<not> bc_deleted b \<and> bc_order_key b = k)"
  using bt.get_in_entries [OF assms]
  by (force simp: order_pairs_def live_entries_def)

lemma key_at_order_pairs:
  assumes "bt_ok (st_blocks s)" and "(k, i) \<in> set (order_pairs s)"
  shows "key_at s i = k"
  using assms by (auto simp: set_order_pairs key_at_def)

lemma distinct_order_ids:
  assumes "bt_ok (st_blocks s)"
  shows "distinct (block_ids_ordered s)"
proof -
  have "distinct (map fst (live_entries s))"
    using bt.entries_distinct [OF assms] by (simp add: live_entries_def distinct_map_filter)
  moreover have "mset (block_ids_ordered s) = mset (map fst (live_entries s))"
    unfolding block_ids_ordered_def order_pairs_def
    by (simp add: multiset.map_comp case_prod_unfold o_def)
  ultimately show ?thesis by (metis mset_eq_imp_distinct_iff)
qed

lemma is_live_ordered:
  assumes "bt_ok (st_blocks s)"
  shows "is_live s i \<longleftrightarrow> i \<in> set (block_ids_ordered s)"
  using set_order_pairs [OF assms]
  by (force simp: block_ids_ordered_def is_live_def split: option.splits)

lemma calc_order_key_cong:
  assumes "st_blocks s' = st_blocks s" and "st_principal_id s' = st_principal_id s"
  shows "calc_order_key s' after t = calc_order_key s after t"
proof -
  have "block_ids_ordered s' = block_ids_ordered s"
    using assms by (simp add: block_ids_ordered_def order_pairs_def live_entries_def)
  moreover have suf: "agent_order_suffix s' = agent_order_suffix s"
    using assms by (simp add: agent_order_suffix_def)
  moreover have "key_at s' = key_at s" using assms by (simp add: fun_eq_iff key_at_def)
  moreover have "order_key_for_tick s' = order_key_for_tick s"
    using suf by (simp add: fun_eq_iff order_key_for_tick_def)
  ultimately show ?thesis by (simp only: calc_order_key_def)
qed

lemma insertedD:
  assumes "store_ok s" and "inserted after s s' i b"
  shows "bt_get (st_blocks s) i = None" and "\<not> bc_deleted b"
    and "bc_order_key b = calc_order_key s after (Some (st_next_tick s))"
    and "st_blocks s' = bt_insert i b (st_blocks s)" and "bc_tick b = Some (st_next_tick s)"
proof -
  from assms(2) obtain s1 s2 t key where *: "new_block_id s = (s1, i)" "next_position after s1 = (s2, t, key)"
      "bc_tick b = t" "bc_order_key b = key" "\<not> bc_deleted b"
      "s' = put_block i b s2 \<or> s' = put_block i b (fst (clock_tick s2))"
    unfolding inserted_def by blast
  note fresh = new_block_id_fresh [OF assms(1) *(1)] and pos = next_position_frame [OF *(2)]
  have "s1 = fst (new_block_id s)" using *(1) by simp
  then have "st_principal_id s1 = st_principal_id s" by (simp add: new_block_id_def)
  then have "calc_order_key s2 after (Some (st_next_tick s1)) = calc_order_key s after (Some (st_next_tick s1))"
    by (intro calc_order_key_cong) (simp_all add: pos(1) fresh(3))
  then show "bc_order_key b = calc_order_key s after (Some (st_next_tick s))"
    using fresh(4) pos(3) *(4) by simp
  show "bt_get (st_blocks s) i = None" "\<not> bc_deleted b" by (simp_all add: fresh *)
  show "st_blocks s' = bt_insert i b (st_blocks s)" "bc_tick b = Some (st_next_tick s)"
    using fresh(3,4) pos(1,2) *(3,6) by (auto simp: put_block_def clock_tick_def Let_def)
qed

lemma insert_step_inserted:
  assumes "store_ok s" and "insert_step D after refs s (s', Inr i)"
  obtains b where "inserted after s s' i b" and "check_refs s refs = None"
  using insert_step_insertion [OF assms(2)] by (auto simp: insertion_def)

lemma append_last:
  assumes ok: "store_ok s" and ins: "inserted after s s' i b"
    and "after = None \<or> block_ids_ordered s \<noteq> [] \<and> after = Some (last (block_ids_ordered s))"
  shows "block_ids_ordered s' = block_ids_ordered s @ [i]"
proof -
  note D = insertedD [OF ok ins]
  have bt: "bt_ok (st_blocks s)" using ok by (simp add: store_ok_def)
  let ?k = "bc_order_key b"
  have "x < (?k, i)" if x: "x \<in> set (order_pairs s)" for x
  proof -
    have ne: "block_ids_ordered s \<noteq> []" using x by (auto simp: block_ids_ordered_def)
    then have ne': "order_pairs s \<noteq> []" by (simp add: block_ids_ordered_def)
    let ?l = "last (order_pairs s)"
    have last: "last (block_ids_ordered s) = snd ?l"
      using ne' by (simp add: block_ids_ordered_def last_map)
    have key: "key_at s (snd ?l) = fst ?l"
      using bt ne' by (intro key_at_order_pairs) simp_all
    have idx: "position (\<lambda>j. j = last (block_ids_ordered s)) (block_ids_ordered s)
        = Some (length (block_ids_ordered s) - 1)"
      using position_nth [OF distinct_order_ids [OF bt], of "length (block_ids_ordered s) - 1"] ne
      by (simp add: last_conv_nth)
    have nth: "block_ids_ordered s ! (length (block_ids_ordered s) - 1) = snd ?l"
      using ne last by (simp add: last_conv_nth)
    have "?k = order_key_successor (fst ?l) (agent_order_suffix s)"
      using assms(3) ne last key idx nth by (auto simp: D(3) calc_order_key_def Let_def)
    then have "fst ?l < ?k" by (simp add: order_key_successor_gt)
    moreover have "x \<le> ?l"
      using x ne' sorted_order_pairs [of s]
      by (metis append_butlast_last_id sorted_append Un_iff list.set_intros(1) order_refl set_append
          empty_iff list.set(1) list.set(2) insert_iff)
    ultimately show ?thesis by (cases x; cases ?l) (auto simp: less_eq_prod_def less_prod_def)
  qed
  then have "order_pairs s' = order_pairs s @ [(?k, i)]"
    using order_pairs_insert [OF D(1,2), of "order_pairs s" "[]" s'] D(4) by simp
  then show ?thesis by (simp add: block_ids_ordered_def)
qed

lemma insert_between:
  assumes ok: "store_ok s" and ins: "inserted (Some a) s s' i b"
    and ids: "block_ids_ordered s = xs @ a # c # ys"
    and keys: "key_at s a < key_at s c" "base62_key (key_at s a)" "base62_key (key_at s c)"
    and gap: "\<not> zero_gap (key_at s a) (key_at s c)" "\<not> z_trap (key_at s a) (key_at s c)"
  shows "block_ids_ordered s' = xs @ a # i # c # ys"
proof -
  note D = insertedD [OF ok ins]
  have bt: "bt_ok (st_blocks s)" using ok by (simp add: store_ok_def)
  let ?k = "bc_order_key b"
  obtain ps pa pc qs where ps: "order_pairs s = ps @ pa # pc # qs" "map snd ps = xs" "snd pa = a"
      "snd pc = c" "map snd qs = ys"
    using ids unfolding block_ids_ordered_def by (auto simp: map_eq_append_conv map_eq_Cons_conv)
  have pk: "fst pa = key_at s a" "fst pc = key_at s c"
    using key_at_order_pairs [OF bt] ps by (metis append_Cons in_set_conv_decomp prod.collapse,
        metis append_Cons append_assoc append_Nil in_set_conv_decomp prod.collapse)
  have "position (\<lambda>j. j = a) (block_ids_ordered s) = Some (length xs)"
    using position_nth [OF distinct_order_ids [OF bt], of "length xs"] ids by simp
  then have "?k = order_midpoint (key_at s a) (key_at s c) @ agent_order_suffix s"
    by (simp add: D(3) calc_order_key_def Let_def ids nth_append)
  then have mid: "?k = midpoint (key_at s a) (key_at s c) @ agent_order_suffix s"
    by (simp add: order_midpoint_eq)
  have lower: "key_at s a < ?k"
  proof -
    have "key_at s a < midpoint (key_at s a) (key_at s c)"
      using midpoint_lower_iff [OF keys] gap(2) by simp
    also have "\<dots> \<le> ?k" unfolding mid by (cases "agent_order_suffix s = []") (auto intro: less_imp_le list_less_append)
    finally show ?thesis .
  qed
  have upper: "?k < key_at s c" unfolding mid by (rule midpoint_upper [OF keys gap(1)])
  have srt: "sorted (ps @ pa # pc # qs)" using sorted_order_pairs [of s] ps(1) by simp
  have lt: "pa < (?k, i)" "(?k, i) < pc"
    using lower upper pk by (cases pa; cases pc; simp add: less_prod_def)+
  have "order_pairs s' = (ps @ [pa]) @ (?k, i) # pc # qs"
  proof (rule order_pairs_insert [OF D(1,2) _ _ _ D(4)])
    show "order_pairs s = (ps @ [pa]) @ pc # qs" by (simp add: ps(1))
    show "\<forall>x \<in> set (ps @ [pa]). x < (?k, i)"
      using srt lt(1) by (auto simp: sorted_append intro: le_less_trans)
    show "\<forall>y \<in> set (pc # qs). (?k, i) < y"
      using srt lt(2) by (auto simp: sorted_append intro: less_le_trans)
  qed
  then show ?thesis using ps by (simp add: block_ids_ordered_def)
qed

section \<open>Properties\<close>

text \<open>A small store for the witnesses: text notes on the reference document.\<close>

definition insert_note ::
  "PrincipalId \<Rightarrow> BlockId option \<Rightarrow> string option BlockStore \<Rightarrow> (string option, BlockId) outcome" where
  "insert_note p after s =
     insert_block reference_dte 7 None after Role.User BlockKind.Text ''hi'' Status.Done Plain
       (set_principal_id p s)"

definition two_notes :: "PrincipalId \<Rightarrow> string option BlockStore" where
  "two_notes p = fst (insert_note p None (fst (insert_note p None (store_new 1 p))))"

lemma insert_note_step: "insert_step reference_dte after [after, None] (set_principal_id p s) (insert_note p after s)"
  unfolding insert_note_def by (rule insert_step.block)

lemma insert_note_run: "(store_step reference_dte)\<^sup>*\<^sup>* s (fst (insert_note p after s))"
proof -
  obtain s' r where o: "insert_note p after s = (s', r)" by force
  have "store_step reference_dte s (set_principal_id p s)" by (rule store_step.principal)
  moreover have "store_step reference_dte (set_principal_id p s) s'"
    using insert_note_step [of after p s] o by (auto intro: store_step.local_op local_call.ins)
  ultimately show ?thesis using o by (simp add: converse_rtranclp_into_rtranclp)
qed

lemma two_notes_run: "(store_step reference_dte)\<^sup>*\<^sup>* (store_new 1 p) (two_notes p)"
  unfolding two_notes_def by (rule rtranclp_trans [OF insert_note_run insert_note_run])

lemma set_principal_two_notes: "set_principal_id p (two_notes p) = two_notes p"
  by (simp add: two_notes_def insert_note_def insert_block_def set_principal_id_def new_block_id_def
      reserve_block_id_def next_position_def clock_tick_def put_block_def store_new_def Let_def
      split: option.split)

lemma insert_note_outcome:
  assumes "snd (insert_note p after (two_notes p)) = r"
  shows "insert_step reference_dte after [after, None] (two_notes p) (fst (insert_note p after (two_notes p)), r)"
  using insert_note_step [of after p "two_notes p"] by (simp add: set_principal_two_notes flip: assms)

lemma two_notes_ok: "store_ok (two_notes p)"
  using store_run.run_invariant [OF two_notes_run store_ok_new] by simp

text \<open>
  C1: the invariant of the block store.  In every store reached from a new one by any sequence of
  operations and merges of any payloads that do not overflow its counters, each block is filed under
  its own identifier, its sequence number lies below its principal's lane, its tick below the tick
  counter, and the flags kept twice agree; and from any such store to any later one no block
  disappears, no tombstone is lifted, the identity of a block (parent, role, kind, creation time,
  track) never changes, and lanes, clock and tick counter never go back.

  The lanes and the clock of the program have 64 bits and its tick counter 63 and a sign; a payload
  with a sequence number, timestamp or tick at the end of the range overflows them, which a release
  build wraps around and a debug build refuses with a panic.  The statement is for the runs whose last
  store fits these widths; all stores on the way then fit them too, and on such runs the program's
  counters are the model's (\<open>Counter_Width\<close>).
\<close>

theorem store_invariant:
  assumes "(store_step D)\<^sup>*\<^sup>* (store_new ctx p) s" and "(store_step D)\<^sup>*\<^sup>* s t" and "fits t"
  shows "store_ok s \<and> store_ok t \<and> grows s t \<and> fits s"
  using store_run.run_invariant [OF assms(1) store_ok_new] store_run.run_invariant [OF assms(2)] fits_grows [OF _ assms(3)]
  by blast

lemma two_notes_fit: "fits (fst (insert_note q None (two_notes p)))"
  by (simp add: fits_def next_seq_for_def two_notes_def insert_note_def insert_block_def set_principal_id_def
      new_block_id_def reserve_block_id_def next_position_def clock_tick_def put_block_def store_new_def Let_def
      split: option.split)

theorem store_invariant_witness:
  "store_ok (two_notes 2) \<and> fits (two_notes 2) \<and> grows (two_notes 2) (fst (insert_note 9 None (two_notes 2)))"
  using store_invariant [OF two_notes_run [of 2] insert_note_run two_notes_fit] by blast

text \<open>
  C32: identifiers are never reused.  A successful insertion of any of the eight kinds creates
  exactly one live block, under an identifier that no block of the store, live or deleted, had;
  all other blocks are untouched; and all references it was given are live blocks.
\<close>

theorem insertion_fresh:
  assumes "store_ok s" and "insert_step D after refs s (s', Inr i)"
  shows "bt_get (st_blocks s) i = None \<and> is_live s' i
    \<and> (\<forall>j. j \<noteq> i \<longrightarrow> bt_get (st_blocks s') j = bt_get (st_blocks s) j)
    \<and> check_refs s refs = None"
proof -
  obtain b where b: "inserted after s s' i b" "check_refs s refs = None"
    using insert_step_inserted [OF assms] .
  note D = insertedD [OF assms(1) b(1)]
  show ?thesis using D b(2) by (simp add: is_live_def bt_get_insert)
qed

theorem insertion_fresh_witness:
  "bt_get (st_blocks (two_notes 2)) (BlockId 1 2 2) = None
   \<and> is_live (fst (insert_note 2 None (two_notes 2))) (BlockId 1 2 2)"
proof -
  have "snd (insert_note 2 None (two_notes 2)) = Inr (BlockId 1 2 2)" by code_simp
  note step = insert_note_outcome [OF this]
  from insertion_fresh [OF two_notes_ok step] show ?thesis by blast
qed

text \<open>
  C34: a local operation that returns an error leaves every block, the version and the tick
  counter as they were.  (A lane or the Lamport clock may have moved: identifiers and timestamps
  may have gaps.)
\<close>

theorem failed_call_harmless:
  assumes "local_call D s s' (Some e)"
  shows "st_blocks s' = st_blocks s \<and> st_version s' = st_version s \<and> st_next_tick s' = st_next_tick s"
  by (rule failed_local_call [OF assms])

theorem failed_call_harmless_witness:
  "st_blocks (fst (insert_note 2 (Some (BlockId 1 5 0)) (two_notes 2))) = st_blocks (two_notes 2)"
proof -
  have "snd (insert_note 2 (Some (BlockId 1 5 0)) (two_notes 2)) = Inl (InvalidReference (BlockId 1 5 0))"
    by code_simp
  note step = insert_note_outcome [OF this]
  have "local_call reference_dte (two_notes 2)
      (fst (insert_note 2 (Some (BlockId 1 5 0)) (two_notes 2))) (Some (InvalidReference (BlockId 1 5 0)))"
    using local_call.ins [OF step] by (simp add: err_of_def)
  then show ?thesis using failed_call_harmless by blast
qed

text \<open>
  An append lands last.  A block inserted with no position, or after the last block of the
  document, becomes the last block and the others keep their order, whatever the tick counter,
  the principal and the keys already in the store are.
\<close>

theorem append_lands_last:
  assumes "store_ok s" and "insert_step D after refs s (s', Inr i)"
    and "after = None \<or> block_ids_ordered s \<noteq> [] \<and> after = Some (last (block_ids_ordered s))"
  shows "block_ids_ordered s' = block_ids_ordered s @ [i]"
  using insert_step_inserted [OF assms(1,2)] append_last [OF assms(1) _ assms(3)] by metis

theorem append_lands_last_witness:
  "block_ids_ordered (fst (insert_note 2 None (two_notes 2))) = block_ids_ordered (two_notes 2) @ [BlockId 1 2 2]"
proof -
  have "snd (insert_note 2 None (two_notes 2)) = Inr (BlockId 1 2 2)" by code_simp
  note step = insert_note_outcome [OF this]
  from append_lands_last [OF two_notes_ok step] show ?thesis by simp
qed

text \<open>
  A block inserted after a block that is not the last lands immediately behind it, provided
  the two neighbouring order keys are base-62 keys in strict order with room between them and do
  not form a z-trap.
\<close>

theorem insert_lands_behind:
  assumes "store_ok s" and "insert_step D (Some a) refs s (s', Inr i)"
    and "block_ids_ordered s = xs @ a # c # ys"
    and "key_at s a < key_at s c" and "base62_key (key_at s a)" and "base62_key (key_at s c)"
    and "\<not> zero_gap (key_at s a) (key_at s c)" and "\<not> z_trap (key_at s a) (key_at s c)"
  shows "block_ids_ordered s' = xs @ a # i # c # ys"
  using insert_step_inserted [OF assms(1,2)] insert_between [OF assms(1) _ assms(3-8)] by metis

theorem insert_lands_behind_witness:
  "block_ids_ordered (fst (insert_note 2 (Some (BlockId 1 2 0)) (two_notes 2)))
   = [] @ BlockId 1 2 0 # BlockId 1 2 2 # BlockId 1 2 1 # []"
proof (rule insert_lands_behind [OF two_notes_ok])
  show "insert_step reference_dte (Some (BlockId 1 2 0)) [Some (BlockId 1 2 0), None] (two_notes 2)
      (fst (insert_note 2 (Some (BlockId 1 2 0)) (two_notes 2)), Inr (BlockId 1 2 2))"
    by (rule insert_note_outcome) code_simp
  have keys: "key_at (two_notes 2) (BlockId 1 2 0) = ''V000000000000000''"
      "key_at (two_notes 2) (BlockId 1 2 1) = ''V000000000010000''"
    by code_simp+
  show "block_ids_ordered (two_notes 2) = [] @ BlockId 1 2 0 # BlockId 1 2 1 # []" by code_simp
  show "key_at (two_notes 2) (BlockId 1 2 0) < key_at (two_notes 2) (BlockId 1 2 1)"
    "base62_key (key_at (two_notes 2) (BlockId 1 2 0))" "base62_key (key_at (two_notes 2) (BlockId 1 2 1))"
    "\<not> zero_gap (key_at (two_notes 2) (BlockId 1 2 0)) (key_at (two_notes 2) (BlockId 1 2 1))"
    "\<not> z_trap (key_at (two_notes 2) (BlockId 1 2 0)) (key_at (two_notes 2) (BlockId 1 2 1))"
    unfolding keys by (simp_all add: base62_key_def BASE62_def base62_index_def)
qed

text \<open>
  The z-trap is real.  Two notes of a principal whose key suffix starts with \<open>z1\<close>, and a
  third note that another principal inserts after the first one: the third note ends up in front
  of the note it was inserted after.
\<close>

theorem insert_after_lands_before:
  "block_ids_ordered (two_notes 67074504261632) = [BlockId 1 67074504261632 0, BlockId 1 67074504261632 1]
   \<and> snd (insert_note 2 (Some (BlockId 1 67074504261632 0)) (two_notes 67074504261632)) = Inr (BlockId 1 2 0)
   \<and> block_ids_ordered (fst (insert_note 2 (Some (BlockId 1 67074504261632 0)) (two_notes 67074504261632)))
     = [BlockId 1 2 0, BlockId 1 67074504261632 0, BlockId 1 67074504261632 1]"
  by (intro conjI; code_simp)

text \<open>
  Text edits through the store.  An edit of a missing or deleted block, or outside the text,
  returns the error that says so and changes nothing; an edit inside the bounds replaces exactly
  the addressed characters of that block and touches no other block.
\<close>

theorem store_edit_text_spec:
  assumes "dte_ok D"
  shows "(\<not> is_live s i \<longrightarrow> store_edit_text D i pos ins del s = (s, Inl (BlockNotFound i)))
    \<and> (\<forall>b. bt_get (st_blocks s) i = Some b \<and> \<not> bc_deleted b \<and> content_len D b < pos + del \<longrightarrow>
         store_edit_text D i pos ins del s
         = (s, Inl (PositionOutOfBounds (if content_len D b < pos then pos else pos + del) (content_len D b))))
    \<and> (\<forall>b. bt_get (st_blocks s) i = Some b \<and> \<not> bc_deleted b \<and> pos + del \<le> content_len D b
           \<and> get_text D (bc_doc b) \<noteq> None \<longrightarrow>
         (\<exists>s' b'. store_edit_text D i pos ins del s = (s', Inr ())
            \<and> bt_get (st_blocks s') i = Some b'
            \<and> content_text D b' = take_chars pos (content_text D b) @ ins @ drop_chars (pos + del) (content_text D b)
            \<and> (\<forall>j. j \<noteq> i \<longrightarrow> bt_get (st_blocks s') j = bt_get (st_blocks s) j)))"
proof (intro conjI allI impI)
  fix b
  assume b: "bt_get (st_blocks s) i = Some b \<and> \<not> bc_deleted b \<and> pos + del \<le> content_len D b
           \<and> get_text D (bc_doc b) \<noteq> None"
  then obtain t where t: "get_text D (bc_doc b) = Some t" by auto
  have "content_text D (content_edit_text D pos ins del b)
      = take_chars pos (content_text D b) @ ins @ drop_chars (pos + del) (content_text D b)"
    using edit_text_in_bounds [OF assms t, of pos del ins] b t by (simp add: content_text_def content_len_def)
  with b show "\<exists>s' b'. store_edit_text D i pos ins del s = (s', Inr ())
            \<and> bt_get (st_blocks s') i = Some b'
            \<and> content_text D b' = take_chars pos (content_text D b) @ ins @ drop_chars (pos + del) (content_text D b)
            \<and> (\<forall>j. j \<noteq> i \<longrightarrow> bt_get (st_blocks s') j = bt_get (st_blocks s) j)"
    by (simp add: store_edit_text_def is_live_def update_block_def bt_get_modify)
qed (auto simp: store_edit_text_def is_live_def)

theorem store_edit_text_spec_witness:
  "store_edit_text reference_dte (BlockId 1 9 9) 0 ''x'' 0 (two_notes 2) = (two_notes 2, Inl (BlockNotFound (BlockId 1 9 9)))"
proof -
  have "\<not> is_live (two_notes 2) (BlockId 1 9 9)" by code_simp
  with store_edit_text_spec [OF reference_dte_ok, of "two_notes 2" "BlockId 1 9 9" 0 "''x''" 0]
  show ?thesis by blast
qed

end
