(* ===== verification/Store_Sync.thy ===== *)
theory Store_Sync
  imports Store_Props
begin

text \<open>
  Replication and persistence of the block store.  What a reader sees of a store is its view: the
  snapshot of every live block.  The view determines the document order.  A store that receives
  everything a sender has, and a store restored from a persisted snapshot, have the sender's view.
\<close>

section \<open>Views\<close>

lemma get_block_snapshot_Some:
  "get_block_snapshot D s i = Some x \<longleftrightarrow>
     (\<exists>b. bt_get (st_blocks s) i = Some b \<and> \<not> bc_deleted b \<and> content_snapshot D b = x)"
  by (auto simp: get_block_snapshot_def split: option.splits)

lemma content_snapshot_frame [simp]:
  "bs_id (content_snapshot D b) = bh_id (bc_header b)"
  "bs_order_key (content_snapshot D b) = Some (bc_order_key b)"
  "bs_tick (content_snapshot D b) = bc_tick b"
  "bs_updated_at (content_snapshot D b) = bh_updated_at (bc_header b)"
  "bs_content (content_snapshot D b) = content_text D b"
  by (simp_all add: content_snapshot_def Let_def)

lemma order_pairs_view:
  assumes "bt_ok (st_blocks s)"
  shows "(k, i) \<in> set (order_pairs s) \<longleftrightarrow>
     (\<exists>x. get_block_snapshot D s i = Some x \<and> bs_order_key x = Some k)"
  using set_order_pairs [OF assms] by (auto simp: get_block_snapshot_Some)

lemma distinct_order_pairs: "bt_ok (st_blocks s) \<Longrightarrow> distinct (order_pairs s)"
  using distinct_order_ids [of s] by (simp add: block_ids_ordered_def distinct_map)

lemma view_determines_order:
  assumes "bt_ok (st_blocks s)" and "bt_ok (st_blocks r)"
    and "\<And>i. get_block_snapshot D r i = get_block_snapshot D s i"
  shows "block_ids_ordered r = block_ids_ordered s" and "blocks_ordered D r = blocks_ordered D s"
proof -
  have "set (order_pairs r) = set (order_pairs s)"
    using order_pairs_view [OF assms(1), of _ _ D] order_pairs_view [OF assms(2), of _ _ D] assms(3)
    by (auto simp: set_eq_iff)
  then have "order_pairs r = order_pairs s"
    using sorted_order_pairs distinct_order_pairs assms(1,2) by (metis sorted_distinct_set_unique)
  then show "block_ids_ordered r = block_ids_ordered s" by (simp add: block_ids_ordered_def)
  then show "blocks_ordered D r = blocks_ordered D s"
    unfolding blocks_ordered_def by (simp only: ext [of "get_block_snapshot D r", OF assms(3)])
qed

section \<open>The payload for a peer that knows nothing\<close>

lemma ops_for_block_fold:
  "fold (ops_for_block D Map.empty) es p =
     p\<lparr>sp_new_blocks := sp_new_blocks p @ map (\<lambda>(i, b). content_snapshot D b) (filter (\<lambda>(i, b). \<not> bc_deleted b) es),
       sp_block_ops := sp_block_ops p
         @ map (\<lambda>(i, b). (i, root_ops D b))
             (filter (\<lambda>(i, b). \<not> bc_deleted b \<and> \<not> ops_is_empty D (root_ops D b)) es)\<rparr>"
  by (induction es arbitrary: p)
    (auto simp: ops_for_block_def Let_def root_ops_def content_ops_since_def)

lemma payload_from_scratch:
  "store_ops_since D Map.empty s =
     \<lparr>sp_block_ops = map (\<lambda>(i, b). (i, root_ops D b))
         (filter (\<lambda>(i, b). \<not> ops_is_empty D (root_ops D b)) (live_entries s)),
      sp_new_blocks = map (\<lambda>(i, b). content_snapshot D b) (live_entries s),
      sp_updated_headers = [], sp_deleted_blocks = []\<rparr>"
  by (simp add: store_ops_since_def ops_for_block_fold live_entries_def case_prod_unfold conj_commute)

section \<open>Receiving new blocks\<close>

definition rebuilt ::
  "('d, 'o, 'f) dte \<Rightarrow> BlockId set \<Rightarrow> PrincipalId \<Rightarrow> 'd BlockContent \<Rightarrow> 'd BlockContent" where
  "rebuilt D H p b =
     (if bh_id (bc_header b) \<in> H then content_from_snapshot_for_sync D (content_snapshot D b) p []
      else content_from_snapshot D (content_snapshot D b) p [])"

lemma merge_new_block_snapshot:
  assumes "bt_get (st_blocks s) (bh_id (bc_header b)) = None"
  shows "\<exists>s' m' h'. merge_new_block D H (content_snapshot D b) (s, m, h) = (s', m', h')
     \<and> st_blocks s' = bt_insert (bh_id (bc_header b)) (rebuilt D H (st_principal_id s) b) (st_blocks s)
     \<and> st_principal_id s' = st_principal_id s"
  using assms by (simp add: merge_new_block_def Let_def bt_contains_def fallback_key_def rebuilt_def)

lemma merge_new_blocks_get:
  assumes "distinct (map fst es)" and "\<And>i b. (i, b) \<in> set es \<Longrightarrow> bh_id (bc_header b) = i \<and> bt_get (st_blocks s) i = None"
    and "fold (merge_new_block D H) (map (\<lambda>(i, b). content_snapshot D b) es) (s, m, h) = (s', m', h')"
  shows "bt_get (st_blocks s') i =
      (case map_of es i of Some b \<Rightarrow> Some (rebuilt D H (st_principal_id s) b) | None \<Rightarrow> bt_get (st_blocks s) i)"
  using assms
proof (induction es arbitrary: s m h)
  case Nil
  then show ?case by simp
next
  case (Cons e es)
  obtain j b where e: "e = (j, b)" by force
  with Cons.prems(2) have j: "bh_id (bc_header b) = j" "bt_get (st_blocks s) j = None" by auto
  then obtain s1 m1 h1 where s1: "merge_new_block D H (content_snapshot D b) (s, m, h) = (s1, m1, h1)"
      "st_blocks s1 = bt_insert j (rebuilt D H (st_principal_id s) b) (st_blocks s)"
      "st_principal_id s1 = st_principal_id s"
    using merge_new_block_snapshot [of s b D H m h] by auto
  have nj: "j \<notin> fst ` set es" using Cons.prems(1) e by simp
  have fresh: "bh_id (bc_header c) = i \<and> bt_get (st_blocks s1) i = None" if "(i, c) \<in> set es" for i c
    using Cons.prems(2) [of i c] that nj s1(2) by (force simp: bt_get_insert)
  have "bt_get (st_blocks s') i =
      (case map_of es i of Some b \<Rightarrow> Some (rebuilt D H (st_principal_id s1) b) | None \<Rightarrow> bt_get (st_blocks s1) i)"
    using Cons.prems(1,3) e s1(1) fresh by (intro Cons.IH) auto
  moreover have "map_of es j = None" using nj by (simp add: map_of_eq_None_iff)
  ultimately show ?case using e s1 by (auto simp: bt_get_insert split: option.splits)
qed

lemma merge_new_blocks_ok:
  "bt_ok (st_blocks s) \<Longrightarrow> bt_ok (st_blocks (fst (fold (merge_new_block D H) snaps (s, m, h))))"
proof (induction snaps arbitrary: s m h)
  case (Cons snap snaps)
  obtain s1 m1 h1 where 1: "merge_new_block D H snap (s, m, h) = (s1, m1, h1)" by (metis prod_cases3)
  have "bt_ok (st_blocks s1)"
    using 1 Cons.prems by (auto simp: merge_new_block_def Let_def bt_ok_insert split: if_splits)
  with Cons.IH 1 show ?case by simp
qed simp

text \<open>Merging histories, one per block.\<close>

lemma merge_block_ops_get:
  assumes "distinct (map fst ops)"
    and "\<forall>(i, u) \<in> set ops. \<exists>c. bt_get (st_blocks s) i = Some c \<and> snd (content_merge_ops D u c) = Inr ()"
  shows "\<exists>s' had'. merge_block_ops D ops s had = (s', had', None)
     \<and> (bt_ok (st_blocks s) \<longrightarrow> bt_ok (st_blocks s'))
     \<and> (\<forall>i. bt_get (st_blocks s') i =
         (case map_of ops i of
            Some u \<Rightarrow> map_option (\<lambda>c. fst (content_merge_ops D u c)) (bt_get (st_blocks s) i)
          | None \<Rightarrow> bt_get (st_blocks s) i))"
  using assms
proof (induction ops arbitrary: s had)
  case Nil
  then show ?case by simp
next
  case (Cons e ops)
  obtain j u where e: "e = (j, u)" by force
  with Cons.prems obtain c where c: "bt_get (st_blocks s) j = Some c" "snd (content_merge_ops D u c) = Inr ()"
    by auto
  let ?c' = "fst (content_merge_ops D u c)"
  let ?s1 = "s\<lparr>st_blocks := bt_modify j (\<lambda>_. ?c') (st_blocks s)\<rparr>"
  have nj: "j \<notin> fst ` set ops" using Cons.prems(1) e by simp
  have "\<forall>(i, u) \<in> set ops. \<exists>c. bt_get (st_blocks ?s1) i = Some c \<and> snd (content_merge_ops D u c) = Inr ()"
    using Cons.prems(2) nj by (force simp: bt_get_modify)
  then obtain s' had' where IH: "merge_block_ops D ops ?s1 (had \<or> \<not> ops_is_empty D u) = (s', had', None)"
      "bt_ok (st_blocks ?s1) \<longrightarrow> bt_ok (st_blocks s')"
      "\<And>i. bt_get (st_blocks s') i =
         (case map_of ops i of
            Some u \<Rightarrow> map_option (\<lambda>c. fst (content_merge_ops D u c)) (bt_get (st_blocks ?s1) i)
          | None \<Rightarrow> bt_get (st_blocks ?s1) i)"
    using Cons.IH [of ?s1 "had \<or> \<not> ops_is_empty D u"] Cons.prems(1) e by auto
  have step: "merge_block_ops D (e # ops) s had = (s', had', None)"
    using c IH(1) by (cases "content_merge_ops D u c") (simp add: e)
  have "map_of ops j = None" using nj by (simp add: map_of_eq_None_iff)
  with step IH e c show ?case
    by (auto simp: bt_get_modify bt_ok_modify split: option.splits)
qed

section \<open>A peer that starts empty\<close>

lemma map_of_map_filter:
  "distinct (map fst es) \<Longrightarrow>
   map_of (map (\<lambda>(i, b). (i, g b)) (filter (\<lambda>(i, b). P b) es)) i
     = (case map_of es i of Some b \<Rightarrow> if P b then Some (g b) else None | None \<Rightarrow> None)"
proof (induction es)
  case (Cons e es)
  then have "map_of es (fst e) = None" by (simp add: map_of_eq_None_iff)
  with Cons show ?case by (cases e) (auto split: option.splits)
qed simp

lemma distinct_live_entries: "bt_ok (st_blocks s) \<Longrightarrow> distinct (map fst (live_entries s))"
  using bt.entries_distinct [of "st_blocks s"] by (simp add: live_entries_def distinct_map_filter)

lemma map_of_live_entries:
  assumes "bt_ok (st_blocks s)"
  shows "map_of (live_entries s) i =
     (case bt_get (st_blocks s) i of Some b \<Rightarrow> if bc_deleted b then None else Some b | None \<Rightarrow> None)"
  using map_of_map_filter [OF bt.entries_distinct [OF assms], of "\<lambda>b. b" "\<lambda>b. \<not> bc_deleted b" i]
  by (auto simp: live_entries_def bt_get_def case_prod_unfold split: option.split)

text \<open>
  Blocks that a full exchange carries over faithfully: they have a text document, so the history
  reproduces it.
\<close>

definition has_text :: "('d, 'o, 'f) dte \<Rightarrow> 'd BlockStore \<Rightarrow> bool" where
  "has_text D s \<longleftrightarrow> list_all (\<lambda>(i, b). get_text D (bc_doc b) \<noteq> None) (live_entries s)"

lemma rebuilt_snapshot:
  assumes "dte_ok D" and "get_text D (bc_doc b) \<noteq> None" and "mirrors_ok b"
  shows "bh_id (bc_header b) \<notin> H \<Longrightarrow> content_snapshot D (rebuilt D H p b) = content_snapshot D b
      \<and> \<not> bc_deleted (rebuilt D H p b)"
    and "bh_id (bc_header b) \<in> H \<Longrightarrow>
      \<exists>b'. content_merge_ops D (root_ops D b) (rebuilt D H p b) = (b', Inr ())
         \<and> content_snapshot D b' = content_snapshot D b \<and> \<not> bc_deleted b'"
proof -
  assume "bh_id (bc_header b) \<notin> H"
  then show "content_snapshot D (rebuilt D H p b) = content_snapshot D b \<and> \<not> bc_deleted (rebuilt D H p b)"
    using snapshot_restore [OF assms(1), of "content_snapshot D b" p "[]"]
    by (simp add: rebuilt_def)
next
  assume H: "bh_id (bc_header b) \<in> H"
  obtain b' where b': "content_merge_ops D (root_ops D b)
        (content_from_snapshot_for_sync D (content_snapshot D b) p []) = (b', Inr ())"
      "content_snapshot D b' = content_snapshot D b"
    using sync_restore [OF assms, of p "[]"] by blast
  moreover have "\<not> bc_deleted b'"
    using content_merge_ops_frame [of D "root_ops D b"
        "content_from_snapshot_for_sync D (content_snapshot D b) p []"] b'(1) by auto
  ultimately show "\<exists>b'. content_merge_ops D (root_ops D b) (rebuilt D H p b) = (b', Inr ())
         \<and> content_snapshot D b' = content_snapshot D b \<and> \<not> bc_deleted b'"
    using H by (auto simp: rebuilt_def)
qed

lemma sync_view:
  assumes D: "dte_ok D" and ok: "store_ok s" and tx: "has_text D s"
  shows "\<exists>r. store_merge_ops D (store_ops_since D Map.empty s) (store_new ctx q) = (r, Inr ())
     \<and> bt_ok (st_blocks r) \<and> (\<forall>i. get_block_snapshot D r i = get_block_snapshot D s i)"
proof -
  let ?es = "live_entries s"
  let ?ops = "map (\<lambda>(i, b). (i, root_ops D b)) (filter (\<lambda>(i, b). \<not> ops_is_empty D (root_ops D b)) ?es)"
  let ?H = "fst ` set ?ops"
  have bt: "bt_ok (st_blocks s)" using ok by (simp add: store_ok_def)
  note dist = distinct_live_entries [OF bt]
  have live: "(i, b) \<in> set ?es \<longleftrightarrow> bt_get (st_blocks s) i = Some b \<and> \<not> bc_deleted b" for i b
    using bt.get_in_entries [OF bt] by (auto simp: live_entries_def)
  have facts: "bh_id (bc_header b) = i \<and> get_text D (bc_doc b) \<noteq> None \<and> mirrors_ok b"
    if "(i, b) \<in> set ?es" for i b
    using that live [of i b] ok tx by (auto simp: store_ok_def entry_ok_def has_text_def list_all_iff)
  obtain s1 m1 h1 where 1: "fold (merge_new_block D ?H) (map (\<lambda>(i, b). content_snapshot D b) ?es) (store_new ctx q, 0, None) = (s1, m1, h1)"
    by (metis prod_cases3)
  have get1: "bt_get (st_blocks s1) i = map_option (rebuilt D ?H q) (map_of ?es i)" for i
    using merge_new_blocks_get [OF dist _ 1, of i] facts
    by (simp add: store_new_def bt_get_def split: option.splits)
  have "bt_ok (st_blocks (fst (s1, m1, h1)))"
    unfolding 1 [symmetric] by (rule merge_new_blocks_ok) (simp add: store_new_def bt_ok_def)
  then have ok1: "bt_ok (st_blocks s1)" by simp
  define s2 where "s2 = (case h1 of Some t \<Rightarrow> s1\<lparr>st_next_tick := max (st_next_tick s1) (t + 1)\<rparr> | None \<Rightarrow> s1)"
  have s2: "st_blocks s2 = st_blocks s1" by (simp add: s2_def split: option.split)
  have dops: "distinct (map fst ?ops)"
    using dist by (simp add: case_prod_unfold o_def distinct_map_filter)
  have mem: "\<exists>c. bt_get (st_blocks s2) i = Some c \<and> snd (content_merge_ops D u c) = Inr ()"
    if iu: "(i, u) \<in> set ?ops" for i u
  proof -
    from iu obtain b where b: "(i, b) \<in> set ?es" "u = root_ops D b" by auto
    have "bh_id (bc_header b) \<in> ?H" using iu facts [OF b(1)] by force
    with rebuilt_snapshot(2) [OF D, of b ?H q] facts [OF b(1)]
    obtain b' where "content_merge_ops D u (rebuilt D ?H q b) = (b', Inr ())" using b(2) by blast
    moreover have "map_of ?es i = Some b" using b(1) dist by (simp add: map_of_eq_Some_iff)
    ultimately show ?thesis by (simp add: s2 get1)
  qed
  obtain s3 had where 3: "merge_block_ops D ?ops s2 False = (s3, had, None)"
      "bt_ok (st_blocks s2) \<longrightarrow> bt_ok (st_blocks s3)"
      "\<And>i. bt_get (st_blocks s3) i =
         (case map_of ?ops i of
            Some u \<Rightarrow> map_option (\<lambda>c. fst (content_merge_ops D u c)) (bt_get (st_blocks s2) i)
          | None \<Rightarrow> bt_get (st_blocks s2) i)"
    using merge_block_ops_get [OF dops, of s2 D False] mem by blast
  define r where "r = (if 0 < m1 \<or> had then merge_clock m1 s3 else s3)\<lparr>st_version := st_version s3 + 1\<rparr>"
  have r: "st_blocks r = st_blocks s3" by (simp add: r_def merge_clock_def)
  have run: "store_merge_ops D (store_ops_since D Map.empty s) (store_new ctx q) = (r, Inr ())"
  proof -
    define p where "p = store_ops_since D Map.empty s"
    have ops: "sp_block_ops p = ?ops"
      and new: "sp_new_blocks p = map (\<lambda>(i, b). content_snapshot D b) ?es"
      and rest: "sp_updated_headers p = []" "sp_deleted_blocks p = []"
      by (simp_all add: p_def payload_from_scratch)
    have 1: "fold (merge_new_block D (fst ` set (sp_block_ops p))) (sp_new_blocks p) (store_new ctx q, 0, None)
        = (s1, m1, h1)" using 1 by (simp only: ops new)
    have 2: "merge_block_ops D (sp_block_ops p) s2 False = (s3, had, None)" using 3(1) by (simp only: ops)
    show ?thesis unfolding p_def [symmetric]
      by (simp add: store_merge_ops_def Let_def 1 2 rest s2_def [symmetric] r_def merge_clock_def)
  qed
  have ops_of: "map_of ?ops i = (case map_of ?es i of
        Some b \<Rightarrow> if \<not> ops_is_empty D (root_ops D b) then Some (root_ops D b) else None | None \<Rightarrow> None)" for i
    by (rule map_of_map_filter [OF dist])
  have "get_block_snapshot D r i = get_block_snapshot D s i" for i
  proof (cases "map_of ?es i")
    case None
    then have "bt_get (st_blocks r) i = None" by (simp add: r 3(3) ops_of s2 get1)
    with None show ?thesis
      by (auto simp: get_block_snapshot_def map_of_live_entries [OF bt] split: option.splits if_splits)
  next
    case (Some b)
    then have b: "(i, b) \<in> set ?es" using dist by (simp add: map_of_eq_Some_iff)
    note f = facts [OF b]
    have s: "get_block_snapshot D s i = Some (content_snapshot D b)"
      using live [of i b] b by (simp add: get_block_snapshot_def)
    show ?thesis
    proof (cases "ops_is_empty D (root_ops D b)")
      case True
      then have "i \<notin> ?H" using eq_key_imp_eq_value [OF dist b] by auto
      then have "content_snapshot D (rebuilt D ?H q b) = content_snapshot D b \<and> \<not> bc_deleted (rebuilt D ?H q b)"
        using rebuilt_snapshot(1) [OF D, of b ?H q] f by simp
      with True Some s show ?thesis by (simp add: get_block_snapshot_def r 3(3) ops_of s2 get1)
    next
      case False
      then have "i \<in> ?H" using b by force
      then obtain b' where b': "content_merge_ops D (root_ops D b) (rebuilt D ?H q b) = (b', Inr ())"
          "content_snapshot D b' = content_snapshot D b" "\<not> bc_deleted b'"
        using rebuilt_snapshot(2) [OF D, of b ?H q] f by blast
      with False Some s show ?thesis by (simp add: get_block_snapshot_def r 3(3) ops_of s2 get1)
    qed
  qed
  moreover have "bt_ok (st_blocks r)" using 3(2) ok1 by (simp add: r s2)
  ultimately show ?thesis using run by blast
qed

text \<open>
  C2: A store that starts empty and merges the payload built for a peer that knows nothing accepts
  it, satisfies the store invariant, and shows exactly the sender's live blocks, in the sender's
  order.
\<close>

theorem sync_from_empty:
  assumes "dte_ok D" and "store_ok s" and "has_text D s"
  shows "\<exists>r. store_merge_ops D (store_ops_since D Map.empty s) (store_new ctx q) = (r, Inr ())
     \<and> store_ok r
     \<and> (\<forall>i. get_block_snapshot D r i = get_block_snapshot D s i)
     \<and> block_ids_ordered r = block_ids_ordered s
     \<and> blocks_ordered D r = blocks_ordered D s
     \<and> full_text D r = full_text D s"
proof -
  obtain r where r: "store_merge_ops D (store_ops_since D Map.empty s) (store_new ctx q) = (r, Inr ())"
      "bt_ok (st_blocks r)" "\<And>i. get_block_snapshot D r i = get_block_snapshot D s i"
    using sync_view [OF assms] by blast
  have "store_ok r"
    using safe_okD [OF safe_store_merge_ops store_ok_new, of D "store_ops_since D Map.empty s" ctx q]
    by (simp add: r(1))
  moreover have "bt_ok (st_blocks s)" using assms(2) by (simp add: store_ok_def)
  note view = view_determines_order [OF this r(2,3)]
  ultimately show ?thesis using r(1,3) view by (auto simp: full_text_def)
qed

theorem sync_from_empty_witness:
  "block_ids_ordered (fst (store_merge_ops reference_dte
       (store_ops_since reference_dte Map.empty (two_notes 2)) (store_new 1 9)))
     = [BlockId 1 2 0, BlockId 1 2 1]"
proof -
  have "has_text reference_dte (two_notes 2)" by code_simp
  then obtain r where "store_merge_ops reference_dte
       (store_ops_since reference_dte Map.empty (two_notes 2)) (store_new 1 9) = (r, Inr ())"
      "block_ids_ordered r = block_ids_ordered (two_notes 2)"
    using sync_from_empty [OF reference_dte_ok two_notes_ok, of 2 1 9] by blast
  moreover have "block_ids_ordered (two_notes 2) = [BlockId 1 2 0, BlockId 1 2 1]" by code_simp
  ultimately show ?thesis by simp
qed

end
