(* ===== verification/Store_Restore.thy ===== *)
theory Store_Restore
  imports Store_Sync
begin

text \<open>
  Persistence of the block store: \<open>from_snapshot\<close> undoes \<open>snapshot\<close>, tombstones included, and the
  timeline normalisation that restoring ends with keeps the document order.
\<close>

section \<open>Restoring the live blocks\<close>

text \<open>The store invariant without the tick counter, which restoring sets at the end.\<close>

definition filed :: "'d BlockStore \<Rightarrow> bool" where
  "filed s \<longleftrightarrow> bt_ok (st_blocks s) \<and>
     (\<forall>i b. bt_get (st_blocks s) i = Some b \<longrightarrow>
        bh_id (bc_header b) = i \<and> seq i < next_seq_for s (principal_id i) \<and> mirrors_ok b)"

lemma filed_new: "filed (store_new ctx p)"
  by (simp add: filed_def store_new_def bt_ok_def bt_get_def)

lemma observe_seq_lane:
  "n < next_seq_for s q \<Longrightarrow> n < next_seq_for (observe_seq p m s) q"
  by (auto simp: next_seq_for_observe)

lemma filed_put:
  assumes "filed s" and "bh_id (bc_header b) = i" and "mirrors_ok b"
  shows "filed ((observe_seq (principal_id i) (seq i) s)\<lparr>st_blocks := bt_insert i b (st_blocks s)\<rparr>)"
proof -
  have "seq i < next_seq_for (observe_seq (principal_id i) (seq i) s) (principal_id i)"
    by (simp add: next_seq_for_observe)
  with assms show ?thesis
    by (auto simp: filed_def bt_get_insert bt_ok_insert intro: observe_seq_lane)
qed

lemma filed_observe: "filed s \<Longrightarrow> filed (observe_seq p n s)"
  by (auto simp: filed_def intro: observe_seq_lane)

definition restorable :: "('d, 'o, 'f) dte \<Rightarrow> 'd BlockContent \<Rightarrow> bool" where
  "restorable D b \<longleftrightarrow> get_text D (bc_doc b) \<noteq> None \<and> mirrors_ok b"

lemma restore_block_step:
  assumes D: "dte_ok D" and b: "restorable D b" and s: "filed s" and i: "i = bh_id (bc_header b)"
  shows "\<exists>b' s'. restore_block D p (content_snapshot D b, root_ops D b) s = Inr s'
     \<and> st_blocks s' = bt_insert i b' (st_blocks s) \<and> st_context_id s' = st_context_id s
     \<and> filed s' \<and> content_snapshot D b' = content_snapshot D b \<and> \<not> bc_deleted b'"
proof -
  have key: "fallback_key t (content_snapshot D b) = []" for t :: "'a BlockStore"
    by (simp add: fallback_key_def)
  let ?s1 = "observe_seq (principal_id i) (seq i) s"
  show ?thesis
  proof (cases "ops_is_empty D (root_ops D b)")
    case True
    let ?b = "content_from_snapshot D (content_snapshot D b) p []"
    have "filed (?s1\<lparr>st_blocks := bt_insert i ?b (st_blocks s)\<rparr>)"
      by (rule filed_put [OF s]) (simp_all add: i mirrors_ok_restored)
    moreover have "content_snapshot D ?b = content_snapshot D b"
      using snapshot_restore [OF D, of "content_snapshot D b" p "[]"] by simp
    ultimately show ?thesis using True i by (fastforce simp: restore_block_def Let_def key)
  next
    case False
    obtain b' where b': "content_merge_ops D (root_ops D b)
          (content_from_snapshot_for_sync D (content_snapshot D b) p []) = (b', Inr ())"
        "content_snapshot D b' = content_snapshot D b"
      using sync_restore [OF D, of b p "[]"] b by (auto simp: restorable_def)
    obtain d where d: "b' = (content_from_snapshot_for_sync D (content_snapshot D b) p [])\<lparr>bc_doc := d\<rparr>"
      using content_merge_ops_frame [of D "root_ops D b"
          "content_from_snapshot_for_sync D (content_snapshot D b) p []"] b'(1) by auto
    have "mirrors_ok (content_from_snapshot_for_sync D (content_snapshot D b) p [])"
      by (simp add: mirrors_ok_restored)
    then have "filed (?s1\<lparr>st_blocks := bt_insert i b' (st_blocks s)\<rparr>)"
      by (intro filed_put [OF s]) (simp_all add: d i mirrors_ok_def)
    moreover have "\<not> bc_deleted b'" by (simp add: d)
    ultimately show ?thesis using False i b' by (fastforce simp: restore_block_def Let_def key)
  qed
qed

lemma restore_blocks_view:
  assumes "dte_ok D" and "filed s" and "distinct (map (\<lambda>b. bh_id (bc_header b)) bs)"
    and "\<And>b. b \<in> set bs \<Longrightarrow> restorable D b"
  shows "\<exists>s'. restore_blocks D p (map (\<lambda>b. (content_snapshot D b, root_ops D b)) bs) s = Inr s'
     \<and> st_context_id s' = st_context_id s \<and> filed s'
     \<and> (\<forall>i. i \<notin> (\<lambda>b. bh_id (bc_header b)) ` set bs \<longrightarrow> bt_get (st_blocks s') i = bt_get (st_blocks s) i)
     \<and> (\<forall>b \<in> set bs. get_block_snapshot D s' (bh_id (bc_header b)) = Some (content_snapshot D b))"
  using assms
proof (induction bs arbitrary: s)
  case Nil
  then show ?case by simp
next
  case (Cons b bs)
  let ?i = "bh_id (bc_header b)"
  obtain b' s1 where 1: "restore_block D p (content_snapshot D b, root_ops D b) s = Inr s1"
      "st_blocks s1 = bt_insert ?i b' (st_blocks s)" "st_context_id s1 = st_context_id s" "filed s1"
      "content_snapshot D b' = content_snapshot D b" "\<not> bc_deleted b'"
    using restore_block_step [OF Cons.prems(1) Cons.prems(4) Cons.prems(2) refl, of b p] by auto
  have dist: "distinct (map (\<lambda>b. bh_id (bc_header b)) bs)" and
    notin: "?i \<notin> (\<lambda>b. bh_id (bc_header b)) ` set bs" using Cons.prems(3) by simp_all
  obtain s' where s': "restore_blocks D p (map (\<lambda>b. (content_snapshot D b, root_ops D b)) bs) s1 = Inr s'"
      "st_context_id s' = st_context_id s1" "filed s'"
      "\<forall>i. i \<notin> (\<lambda>b. bh_id (bc_header b)) ` set bs \<longrightarrow> bt_get (st_blocks s') i = bt_get (st_blocks s1) i"
      "\<forall>b \<in> set bs. get_block_snapshot D s' (bh_id (bc_header b)) = Some (content_snapshot D b)"
    using Cons.IH [OF Cons.prems(1) 1(4) dist Cons.prems(4)] by auto
  have "get_block_snapshot D s' ?i = Some (content_snapshot D b)"
    using s'(4) notin 1 by (simp add: get_block_snapshot_def bt_get_insert)
  then show ?case using 1 s' by (auto simp: bt_get_insert)
qed

section \<open>Restoring the tombstones\<close>

definition tombstone :: "('d, 'o, 'f) dte \<Rightarrow> u64 \<Rightarrow> PrincipalId \<Rightarrow> BlockId \<Rightarrow> 'd BlockContent" where
  "tombstone D now p i =
     mark_deleted 0 (content_from_snapshot D (builder_new now i BlockKind.Text) p ''Z'')"

lemma tombstone_frame [simp]:
  "bc_deleted (tombstone D now p i)" "bc_tick (tombstone D now p i) = None"
  "bh_id (bc_header (tombstone D now p i)) = i" "mirrors_ok (tombstone D now p i)"
proof -
  have "mirrors_ok (content_from_snapshot D (builder_new now i BlockKind.Text) p ''Z'')"
    by (simp add: mirrors_ok_restored)
  then show "mirrors_ok (tombstone D now p i)"
    using keeps_setters(8) [of 0] unfolding keeps_def tombstone_def by blast
  show "bc_deleted (tombstone D now p i)" "bc_tick (tombstone D now p i) = None"
    "bh_id (bc_header (tombstone D now p i)) = i"
    by (simp_all add: tombstone_def mark_deleted_def builder_new_def)
qed

lemma restore_tombstone_step:
  assumes "filed s"
  shows "filed (restore_tombstone D now p i s)"
    and "st_context_id (restore_tombstone D now p i s) = st_context_id s"
    and "bt_get (st_blocks (restore_tombstone D now p i s)) j =
      (if j = i \<and> bt_get (st_blocks s) i = None then Some (tombstone D now p i) else bt_get (st_blocks s) j)"
  using assms filed_put [OF assms tombstone_frame(3,4)] filed_observe [OF assms]
  by (auto simp: restore_tombstone_def Let_def bt_contains_def bt_get_insert tombstone_def [symmetric])

lemma restore_tombstones:
  assumes "filed s"
  shows "filed (fold (restore_tombstone D now p) ids s)
     \<and> st_context_id (fold (restore_tombstone D now p) ids s) = st_context_id s
     \<and> bt_get (st_blocks (fold (restore_tombstone D now p) ids s)) j =
      (if j \<in> set ids \<and> bt_get (st_blocks s) j = None then Some (tombstone D now p j) else bt_get (st_blocks s) j)"
  using assms
proof (induction ids arbitrary: s)
  case Nil
  then show ?case by simp
next
  case (Cons i ids)
  note step = restore_tombstone_step [OF Cons.prems, of D now p i]
  from Cons.IH [OF step(1)] step show ?case by auto
qed

section \<open>Normalising the timeline\<close>

lemma option_max_Max: "option_max xs = (if xs = [] then None else Some (Max (set xs)))"
  by (induction xs) (auto simp: max.commute)

lemma order_key_for_tick_cong:
  "st_principal_id s' = st_principal_id s \<Longrightarrow> order_key_for_tick s' t = order_key_for_tick s t"
  by (simp add: order_key_for_tick_def agent_order_suffix_def)

lemma order_key_for_tick_less:
  assumes "k < l" and "l \<le> 2 ^ 63"
  shows "order_key_for_tick s (int k) < order_key_for_tick s (int l)"
proof -
  have "(2::nat) ^ 63 < 62 ^ 11" by simp
  with assms have "base62_digits 11 k < base62_digits 11 l" by (intro base62_digits_less) auto
  then show ?thesis
    by (simp add: order_key_for_tick_def base62_encode_padded_digits list_less_append_len)
qed

text \<open>What the loop does to one block.\<close>

definition rekeyed :: "'d BlockStore \<Rightarrow> nat \<Rightarrow> 'd BlockContent \<Rightarrow> 'd BlockContent" where
  "rekeyed s k b = set_tick (int k) (set_order_key (order_key_for_tick s (int k)) b)"

lemma rekeyed_frame [simp]:
  "bc_deleted (rekeyed s k b) = bc_deleted b" "bc_header (rekeyed s k b) = bc_header b"
  "bc_tick (rekeyed s k b) = Some (int k)" "mirrors_ok (rekeyed s k b) = mirrors_ok b"
  "bc_order_key (rekeyed s k b) = order_key_for_tick s (int k)"
  by (simp_all add: rekeyed_def set_tick_def set_order_key_def mirrors_ok_def)

lemma rekey_fold:
  assumes "distinct ids"
  shows "\<exists>bs. fold rekey_block (enumerate n ids) s = s\<lparr>st_blocks := bs\<rparr>
     \<and> map fst bs = map fst (st_blocks s)
     \<and> (\<forall>i. bt_get bs i = (case position (\<lambda>j. j = i) ids of
           Some k \<Rightarrow> map_option (rekeyed s (n + k)) (bt_get (st_blocks s) i)
         | None \<Rightarrow> bt_get (st_blocks s) i))"
  using assms
proof (induction ids arbitrary: n s)
  case Nil
  then show ?case by (auto intro: exI [of _ "st_blocks s"])
next
  case (Cons i ids)
  let ?s1 = "rekey_block (n, i) s"
  have s1: "?s1 = s\<lparr>st_blocks := bt_modify i (rekeyed s n) (st_blocks s)\<rparr>"
    by (simp add: rekey_block_def Let_def rekeyed_def [abs_def])
  have g1: "bt_get (st_blocks ?s1) j = (if j = i then map_option (rekeyed s n) (bt_get (st_blocks s) i)
      else bt_get (st_blocks s) j)" for j by (simp add: s1 bt_get_modify)
  obtain bs where bs: "fold rekey_block (enumerate (Suc n) ids) ?s1 = ?s1\<lparr>st_blocks := bs\<rparr>"
      "map fst bs = map fst (st_blocks ?s1)"
      "\<And>j. bt_get bs j = (case position (\<lambda>k. k = j) ids of
           Some k \<Rightarrow> map_option (rekeyed ?s1 (Suc n + k)) (bt_get (st_blocks ?s1) j)
         | None \<Rightarrow> bt_get (st_blocks ?s1) j)"
    using Cons.IH [of "Suc n" ?s1] Cons.prems by auto
  have r: "rekeyed ?s1 = rekeyed s"
    by (simp add: fun_eq_iff rekeyed_def s1 order_key_for_tick_def agent_order_suffix_def)
  have i: "position (\<lambda>k. k = i) ids = None" using Cons.prems by (auto simp: position_None_iff)
  have "fold rekey_block (enumerate n (i # ids)) s = s\<lparr>st_blocks := bs\<rparr>"
    using bs(1) by (simp add: s1)
  moreover have "bt_get bs j = (case position (\<lambda>k. k = j) (i # ids) of
           Some k \<Rightarrow> map_option (rekeyed s (n + k)) (bt_get (st_blocks s) j)
         | None \<Rightarrow> bt_get (st_blocks s) j)" for j
    using bs(3) [of j] i unfolding r g1 by (auto split: option.split)
  ultimately show ?case using bs(2) by (auto simp: s1)
qed

lemma missing_tick:
  assumes "bt_ok (st_blocks s)"
  shows "list_ex (\<lambda>(_, b). bc_tick b = None) (live_entries s) \<longleftrightarrow>
     (\<exists>i b. bt_get (st_blocks s) i = Some b \<and> \<not> bc_deleted b \<and> bc_tick b = None)"
  using bt.get_in_entries [OF assms] by (auto simp: list_ex_iff live_entries_def; blast)

lemma mem_live_ticks:
  assumes "bt_ok (st_blocks s)"
  shows "t \<in> set (live_ticks s) \<longleftrightarrow>
     (\<exists>i b. bt_get (st_blocks s) i = Some b \<and> \<not> bc_deleted b \<and> bc_tick b = Some t)"
proof -
  have "t \<in> set (live_ticks s) \<longleftrightarrow> (\<exists>(i, b) \<in> set (st_blocks s). \<not> bc_deleted b \<and> bc_tick b = Some t)"
    by (force simp: live_ticks_def live_entries_def map_filter_def)
  then show ?thesis using bt.get_in_entries [OF assms] by auto
qed

text \<open>The two branches, seen through lookups.\<close>

lemma normalize_ticked:
  "\<not> list_ex (\<lambda>(_, b). bc_tick b = None) (live_entries s) \<Longrightarrow>
   normalize_timeline s = s\<lparr>st_next_tick := (case max_tick s of Some m \<Rightarrow> m + 1 | None \<Rightarrow> 0)\<rparr>"
  by (simp add: normalize_timeline_def)

lemma normalize_legacy:
  assumes "bt_ok (st_blocks s)" and "list_ex (\<lambda>(_, b). bc_tick b = None) (live_entries s)"
  shows "\<exists>bs. normalize_timeline s = s\<lparr>st_blocks := bs, st_next_tick := int (length (block_ids_ordered s))\<rparr>
     \<and> bt_ok bs
     \<and> (\<forall>i. bt_get bs i = (case position (\<lambda>j. j = i) (block_ids_ordered s) of
           Some k \<Rightarrow> map_option (rekeyed s k) (bt_get (st_blocks s) i)
         | None \<Rightarrow> bt_get (st_blocks s) i))"
proof -
  obtain bs where bs: "fold rekey_block (enumerate 0 (block_ids_ordered s)) s = s\<lparr>st_blocks := bs\<rparr>"
      "map fst bs = map fst (st_blocks s)"
      "\<forall>i. bt_get bs i = (case position (\<lambda>j. j = i) (block_ids_ordered s) of
           Some k \<Rightarrow> map_option (rekeyed s k) (bt_get (st_blocks s) i)
         | None \<Rightarrow> bt_get (st_blocks s) i)"
    using rekey_fold [OF distinct_order_ids [OF assms(1)], of 0 s, unfolded add_0] by blast
  then show ?thesis
    using assms by (intro exI [of _ bs]) (simp add: normalize_timeline_def Let_def bt_ok_def)
qed

lemma position_ids:
  assumes "distinct ids"
  shows "position (\<lambda>j. j = i) ids = Some k \<longleftrightarrow> k < length ids \<and> ids ! k = i"
  using position_SomeD [of "\<lambda>j. j = i" ids k] position_nth [OF assms, of k] by auto

lemma normalize_order:
  assumes ok: "bt_ok (st_blocks s)" and len: "length (block_ids_ordered s) \<le> 2 ^ 63"
  shows "block_ids_ordered (normalize_timeline s) = block_ids_ordered s"
proof (cases "list_ex (\<lambda>(_, b). bc_tick b = None) (live_entries s)")
  case False
  then show ?thesis by (simp add: normalize_ticked block_ids_ordered_def order_pairs_def live_entries_def)
next
  case True
  let ?ids = "block_ids_ordered s"
  obtain bs where bs: "normalize_timeline s = s\<lparr>st_blocks := bs, st_next_tick := int (length ?ids)\<rparr>"
      "bt_ok bs" "\<And>i. bt_get bs i = (case position (\<lambda>j. j = i) ?ids of
           Some k \<Rightarrow> map_option (rekeyed s k) (bt_get (st_blocks s) i) | None \<Rightarrow> bt_get (st_blocks s) i)"
    using normalize_legacy [OF ok True] by blast
  note dist = distinct_order_ids [OF ok]
  let ?key = "\<lambda>k. order_key_for_tick s (int k)"
  let ?xs = "map (\<lambda>k. (?key k, ?ids ! k)) [0..<length ?ids]"
  have live: "i \<in> set ?ids \<longleftrightarrow> (\<exists>b. bt_get (st_blocks s) i = Some b \<and> \<not> bc_deleted b)" for i
    using is_live_ordered [OF ok, of i] by (auto simp: is_live_def split: option.splits)
  have strict: "sorted_wrt (<) ?xs"
    using len by (auto simp: sorted_wrt_map sorted_wrt_iff_nth_less intro: order_key_for_tick_less)
  have "(k, i) \<in> set (order_pairs (normalize_timeline s)) \<longleftrightarrow> (k, i) \<in> set ?xs" for k i
  proof -
    have "(k, i) \<in> set (order_pairs (normalize_timeline s)) \<longleftrightarrow>
        (\<exists>b. bt_get bs i = Some b \<and> \<not> bc_deleted b \<and> bc_order_key b = k)"
      using set_order_pairs [of "normalize_timeline s"] bs(1,2) by simp
    also have "\<dots> \<longleftrightarrow> (\<exists>n < length ?ids. ?ids ! n = i \<and> ?key n = k)"
    proof (cases "position (\<lambda>j. j = i) ?ids")
      case None
      then have "i \<notin> set ?ids" by (auto simp: position_None_iff)
      with None live [of i] show ?thesis unfolding bs(3) by (auto simp: in_set_conv_nth)
    next
      case (Some n)
      then have n: "n < length ?ids" "?ids ! n = i" using position_ids [OF dist] by auto
      then obtain b where b: "bt_get (st_blocks s) i = Some b" "\<not> bc_deleted b" using live nth_mem by metis
      have "(\<exists>m < length ?ids. ?ids ! m = i \<and> ?key m = k) \<longleftrightarrow> ?key n = k"
        using n nth_eq_iff_index_eq [OF dist] by blast
      moreover have "bt_get bs i = Some (rekeyed s n b)" using Some b by (simp add: bs(3))
      ultimately show ?thesis using b by simp
    qed
    finally show ?thesis by auto
  qed
  then have "set (order_pairs (normalize_timeline s)) = set ?xs" by auto
  then have "order_pairs (normalize_timeline s) = ?xs"
    using strict sorted_order_pairs distinct_order_pairs [of "normalize_timeline s"] bs(1,2)
    by (intro sorted_distinct_set_unique) (simp_all add: strict_sorted_iff)
  then show ?thesis by (simp add: block_ids_ordered_def [of "normalize_timeline s"] o_def map_nth)
qed

text \<open>Restored tombstones carry no tick; then normalising establishes the tick part of the invariant.\<close>

lemma store_ok_normalize:
  assumes s: "filed s" and dead: "\<And>i b. bt_get (st_blocks s) i = Some b \<Longrightarrow> bc_deleted b \<Longrightarrow> bc_tick b = None"
  shows "store_ok (normalize_timeline s)"
proof -
  have ok: "bt_ok (st_blocks s)" using s by (simp add: filed_def)
  show ?thesis
  proof (cases "list_ex (\<lambda>(_, b). bc_tick b = None) (live_entries s)")
    case False
    have "t < (case max_tick s of Some m \<Rightarrow> m + 1 | None \<Rightarrow> 0)"
      if "bt_get (st_blocks s) i = Some b" "bc_tick b = Some t" for i b t
    proof -
      have "t \<in> set (live_ticks s)" using that dead mem_live_ticks [OF ok] by fastforce
      then show ?thesis by (auto simp: max_tick_def option_max_Max Max_ge less_le_trans)
    qed
    with s show ?thesis
      by (auto simp: normalize_ticked [OF False] store_ok_def entry_ok_def filed_def)
  next
    case True
    obtain bs where bs: "normalize_timeline s = s\<lparr>st_blocks := bs, st_next_tick := int (length (block_ids_ordered s))\<rparr>"
        "bt_ok bs" "\<And>i. bt_get bs i = (case position (\<lambda>j. j = i) (block_ids_ordered s) of
             Some k \<Rightarrow> map_option (rekeyed s k) (bt_get (st_blocks s) i) | None \<Rightarrow> bt_get (st_blocks s) i)"
      using normalize_legacy [OF ok True] by blast
    have "entry_ok (normalize_timeline s) i b" if "bt_get bs i = Some b" for i b
    proof (cases "position (\<lambda>j. j = i) (block_ids_ordered s)")
      case None
      with that have b: "bt_get (st_blocks s) i = Some b" by (simp add: bs(3))
      have "\<not> is_live s i" using None by (auto simp: is_live_ordered [OF ok] position_None_iff)
      with b have "bc_tick b = None" using dead by (simp add: is_live_def)
      with b s show ?thesis by (auto simp: entry_ok_def filed_def bs(1))
    next
      case (Some k)
      with that obtain c where "bt_get (st_blocks s) i = Some c" "b = rekeyed s k c" by (auto simp: bs(3))
      moreover have "k < length (block_ids_ordered s)" using position_SomeD Some by blast
      ultimately show ?thesis using s by (auto simp: entry_ok_def filed_def bs(1))
    qed
    then show ?thesis by (simp add: store_ok_def bs(1,2))
  qed
qed

lemma normalize_live:
  assumes ok: "bt_ok (st_blocks s)"
  shows "is_live (normalize_timeline s) i = is_live s i"
    and "bt_get (st_blocks (normalize_timeline s)) i = Some b \<Longrightarrow> \<not> bc_deleted b \<Longrightarrow> bc_tick b \<noteq> None"
    and "bt_ok (st_blocks (normalize_timeline s))"
proof -
  let ?ids = "block_ids_ordered s"
  consider (ticked) "\<not> list_ex (\<lambda>(_, b). bc_tick b = None) (live_entries s)"
    | (legacy) bs where "normalize_timeline s = s\<lparr>st_blocks := bs, st_next_tick := int (length ?ids)\<rparr>"
      "bt_ok bs" "\<And>i. bt_get bs i = (case position (\<lambda>j. j = i) ?ids of
           Some k \<Rightarrow> map_option (rekeyed s k) (bt_get (st_blocks s) i) | None \<Rightarrow> bt_get (st_blocks s) i)"
    using normalize_legacy [OF ok] by blast
  then have "is_live (normalize_timeline s) i = is_live s i
     \<and> (bt_get (st_blocks (normalize_timeline s)) i = Some b \<longrightarrow> \<not> bc_deleted b \<longrightarrow> bc_tick b \<noteq> None)
     \<and> bt_ok (st_blocks (normalize_timeline s))"
  proof cases
    case ticked
    then show ?thesis using ok missing_tick [OF ok] by (auto simp: normalize_ticked is_live_def)
  next
    case legacy
    have "is_live (normalize_timeline s) i = is_live s i"
      by (auto simp: is_live_def legacy split: option.split)
    moreover have "bc_tick b \<noteq> None" if "bt_get bs i = Some b" "\<not> bc_deleted b"
    proof (cases "position (\<lambda>j. j = i) ?ids")
      case None
      then have "\<not> is_live s i" by (auto simp: is_live_ordered [OF ok] position_None_iff)
      with None that show ?thesis by (simp add: legacy(3) is_live_def)
    next
      case (Some k)
      with that show ?thesis by (auto simp: legacy(3))
    qed
    ultimately show ?thesis using legacy(1,2) by simp
  qed
  then show "is_live (normalize_timeline s) i = is_live s i"
    "bt_get (st_blocks (normalize_timeline s)) i = Some b \<Longrightarrow> \<not> bc_deleted b \<Longrightarrow> bc_tick b \<noteq> None"
    "bt_ok (st_blocks (normalize_timeline s))" by blast+
qed

lemma legacy_ticks:
  assumes ok: "bt_ok (st_blocks s)" and legacy: "list_ex (\<lambda>(_, b). bc_tick b = None) (live_entries s)"
    and k: "k < length (block_ids_ordered s)"
  shows "\<exists>b. bt_get (st_blocks s) (block_ids_ordered s ! k) = Some b
     \<and> bt_get (st_blocks (normalize_timeline s)) (block_ids_ordered s ! k) = Some (rekeyed s k b)"
proof -
  let ?i = "block_ids_ordered s ! k"
  obtain bs where bs: "normalize_timeline s = s\<lparr>st_blocks := bs, st_next_tick := int (length (block_ids_ordered s))\<rparr>"
      "bt_get bs ?i = (case position (\<lambda>j. j = ?i) (block_ids_ordered s) of
           Some k \<Rightarrow> map_option (rekeyed s k) (bt_get (st_blocks s) ?i) | None \<Rightarrow> bt_get (st_blocks s) ?i)"
    using normalize_legacy [OF ok legacy] by blast
  have "is_live s ?i" using k by (simp add: is_live_ordered [OF ok])
  then obtain b where "bt_get (st_blocks s) ?i = Some b" by (auto simp: is_live_def split: option.splits)
  then show ?thesis using bs position_nth [OF distinct_order_ids [OF ok] k] by simp
qed

text \<open>
  Normalising the timeline keeps the document order and the set of live blocks, leaves every
  live block with a tick, and does nothing more the second time.  A document with a block from
  before the tick scheme has each block stamped with its position.
\<close>

theorem normalize_timeline_spec:
  assumes "bt_ok (st_blocks s)" and "length (block_ids_ordered s) \<le> 2 ^ 63"
  shows "block_ids_ordered (normalize_timeline s) = block_ids_ordered s
     \<and> (\<forall>i b. bt_get (st_blocks (normalize_timeline s)) i = Some b \<and> \<not> bc_deleted b \<longrightarrow> bc_tick b \<noteq> None)
     \<and> (\<forall>k < length (block_ids_ordered s). list_ex (\<lambda>(_, b). bc_tick b = None) (live_entries s) \<longrightarrow>
          Option.bind (bt_get (st_blocks (normalize_timeline s)) (block_ids_ordered s ! k)) bc_tick = Some (int k))
     \<and> st_blocks (normalize_timeline (normalize_timeline s)) = st_blocks (normalize_timeline s)"
proof (intro conjI allI impI)
  show "block_ids_ordered (normalize_timeline s) = block_ids_ordered s" by (rule normalize_order [OF assms])
  fix k assume "k < length (block_ids_ordered s)" "list_ex (\<lambda>(_, b). bc_tick b = None) (live_entries s)"
  then show "Option.bind (bt_get (st_blocks (normalize_timeline s)) (block_ids_ordered s ! k)) bc_tick = Some (int k)"
    using legacy_ticks [OF assms(1)] by fastforce
next
  note live = normalize_live [OF assms(1)]
  fix i b assume "bt_get (st_blocks (normalize_timeline s)) i = Some b \<and> \<not> bc_deleted b"
  then show "bc_tick b \<noteq> None" using live(2) by blast
next
  note live = normalize_live [OF assms(1)]
  have "\<not> list_ex (\<lambda>(_, b). bc_tick b = None) (live_entries (normalize_timeline s))"
    using live(2) missing_tick [OF live(3)] by blast
  then show "st_blocks (normalize_timeline (normalize_timeline s)) = st_blocks (normalize_timeline s)"
    by (simp add: normalize_ticked)
qed

text \<open>Two notes from before the tick scheme, stored against their creation order.\<close>

definition legacy_notes :: "string option BlockStore" where
  "legacy_notes = (two_notes 2)\<lparr>st_blocks :=
     map (\<lambda>(i, b). (i, b\<lparr>bc_tick := None, bc_order_key := (if seq i = 0 then ''Vb'' else ''Va'')\<rparr>))
       (st_blocks (two_notes 2))\<rparr>"

theorem normalize_timeline_spec_witness:
  "block_ids_ordered (normalize_timeline legacy_notes) = [BlockId 1 2 1, BlockId 1 2 0]
   \<and> Option.bind (bt_get (st_blocks (normalize_timeline legacy_notes)) (BlockId 1 2 1)) bc_tick = Some 0"
proof -
  have ids: "block_ids_ordered legacy_notes = [BlockId 1 2 1, BlockId 1 2 0]" by code_simp
  have ok: "bt_ok (st_blocks legacy_notes)" by code_simp
  have old: "list_ex (\<lambda>(_, b). bc_tick b = None) (live_entries legacy_notes)" by code_simp
  from normalize_timeline_spec [OF ok] ids old show ?thesis by (auto dest: spec [of _ 0])
qed

section \<open>Restoring a snapshot\<close>

lemma order_ids_blocks:
  assumes ok: "store_ok s"
  shows "\<exists>bs. List.map_filter (bt_get (st_blocks s)) (block_ids_ordered s) = bs
     \<and> map (\<lambda>b. bh_id (bc_header b)) bs = block_ids_ordered s
     \<and> (\<forall>b \<in> set bs. bt_get (st_blocks s) (bh_id (bc_header b)) = Some b \<and> \<not> bc_deleted b)"
proof -
  have bt: "bt_ok (st_blocks s)" using ok by (simp add: store_ok_def)
  have *: "\<exists>b. bt_get (st_blocks s) i = Some b \<and> \<not> bc_deleted b \<and> bh_id (bc_header b) = i"
    if "i \<in> set (block_ids_ordered s)" for i
    using that store_okD(1) [OF ok] by (auto simp: is_live_ordered [OF bt, symmetric] is_live_def split: option.splits)
  let ?bs = "map (\<lambda>i. the (bt_get (st_blocks s) i)) (block_ids_ordered s)"
  have "List.map_filter (bt_get (st_blocks s)) (block_ids_ordered s) = ?bs"
  proof -
    have "filter (\<lambda>i. bt_get (st_blocks s) i \<noteq> None) (block_ids_ordered s) = block_ids_ordered s"
      using * by (intro filter_True) auto
    then show ?thesis by (simp add: map_filter_def)
  qed
  moreover have "map (\<lambda>b. bh_id (bc_header b)) ?bs = block_ids_ordered s" using * by (force intro: map_idI)
  moreover have "bt_get (st_blocks s) (bh_id (bc_header b)) = Some b \<and> \<not> bc_deleted b" if "b \<in> set ?bs" for b
    using that * by fastforce
  ultimately show ?thesis by blast
qed


lemma snapshot_lists_view:
  assumes "store_ok s" and "get_block_snapshot D s i = Some x"
  shows "x \<in> set (ss_blocks (store_snapshot D s))"
proof -
  have bt: "bt_ok (st_blocks s)" using assms(1) by (simp add: store_ok_def)
  obtain b where b: "bt_get (st_blocks s) i = Some b" "\<not> bc_deleted b" "x = content_snapshot D b"
    using assms(2) by (auto simp: get_block_snapshot_Some)
  then have "i \<in> set (block_ids_ordered s)" by (simp add: is_live_ordered [OF bt, symmetric] is_live_def)
  with b show ?thesis by (force simp: store_snapshot_def Let_def map_filter_def)
qed

lemma restore_all:
  assumes D: "dte_ok D" and ok: "store_ok s" and tx: "has_text D s"
  defines "snap \<equiv> store_snapshot D s"
  shows "\<exists>r. restore_blocks D q (zip (ss_blocks snap) (ss_block_history snap)) (store_new (ss_context_id snap) q) = Inr r
     \<and> st_context_id r = st_context_id s \<and> filed r
     \<and> (\<forall>i. bt_get (st_blocks r) i \<noteq> None \<longleftrightarrow> is_live s i)
     \<and> (\<forall>i. get_block_snapshot D r i = get_block_snapshot D s i)"
proof -
  have bt: "bt_ok (st_blocks s)" using ok by (simp add: store_ok_def)
  obtain bs where bs: "List.map_filter (bt_get (st_blocks s)) (block_ids_ordered s) = bs"
      "map (\<lambda>b. bh_id (bc_header b)) bs = block_ids_ordered s"
      "\<forall>b \<in> set bs. bt_get (st_blocks s) (bh_id (bc_header b)) = Some b \<and> \<not> bc_deleted b"
    using order_ids_blocks [OF ok] by blast
  have ids: "(\<lambda>b. bh_id (bc_header b)) ` set bs = {i. is_live s i}"
    using arg_cong [OF bs(2), of set] is_live_ordered [OF bt] by auto
  have z: "zip (ss_blocks snap) (ss_block_history snap) = map (\<lambda>b. (content_snapshot D b, root_ops D b)) bs"
    by (simp add: snap_def store_snapshot_def Let_def bs(1) zip_map_map map_zip_map zip_same_conv_map)
  have "restorable D b" if "b \<in> set bs" for b
  proof -
    have "(bh_id (bc_header b), b) \<in> set (live_entries s)"
      using bs(3) that bt.get_in_entries [OF bt] by (simp add: live_entries_def)
    then show ?thesis
      using tx bs(3) that store_okD(4) [OF ok] by (fastforce simp: restorable_def has_text_def list_all_iff)
  qed
  then obtain r where r: "restore_blocks D q (map (\<lambda>b. (content_snapshot D b, root_ops D b)) bs)
        (store_new (st_context_id s) q) = Inr r" "st_context_id r = st_context_id s" "filed r"
      "\<forall>i. \<not> is_live s i \<longrightarrow> bt_get (st_blocks r) i = None"
      "\<forall>b \<in> set bs. get_block_snapshot D r (bh_id (bc_header b)) = Some (content_snapshot D b)"
    using restore_blocks_view [OF D filed_new [of "st_context_id s" q], of bs q] distinct_order_ids [OF bt] bs(2) ids
    by (auto simp: store_new_def bt_get_def)
  have *: "bt_get (st_blocks r) i \<noteq> None \<and> get_block_snapshot D r i = get_block_snapshot D s i" if "is_live s i" for i
  proof -
    have "i \<in> (\<lambda>b. bh_id (bc_header b)) ` set bs" using that by (simp add: ids)
    then obtain b where b: "b \<in> set bs" "bh_id (bc_header b) = i" by blast
    then have "get_block_snapshot D r i = Some (content_snapshot D b)" using r(5) by auto
    moreover have "get_block_snapshot D s i = Some (content_snapshot D b)"
      using bs(3) b by (auto simp: get_block_snapshot_def)
    ultimately show ?thesis using get_block_snapshot_Some [of D r i] by auto
  qed
  have "get_block_snapshot D r i = get_block_snapshot D s i" for i
    using * [of i] r(4) by (cases "is_live s i") (auto simp: get_block_snapshot_def is_live_def split: option.splits)
  with r * show ?thesis unfolding z by (auto simp: snap_def store_snapshot_def Let_def)
qed

text \<open>The state before the counters are set: the live blocks and the tombstones of the original.\<close>

definition rebuilt_from :: "('d, 'o, 'f) dte \<Rightarrow> 'd BlockStore \<Rightarrow> 'd BlockStore \<Rightarrow> bool" where
  "rebuilt_from D s u \<longleftrightarrow> filed u \<and> st_context_id u = st_context_id s
     \<and> (\<forall>i. get_block_snapshot D u i = get_block_snapshot D s i)
     \<and> (\<forall>i. bt_contains (st_blocks u) i = bt_contains (st_blocks s) i)
     \<and> (\<forall>i b. bt_get (st_blocks u) i = Some b \<and> bc_deleted b \<longrightarrow> bc_tick b = None)"

lemma restore_with_tombstones:
  assumes "dte_ok D" and ok: "store_ok s" and "has_text D s"
  defines "snap \<equiv> store_snapshot D s"
  shows "\<exists>r. restore_blocks D q (zip (ss_blocks snap) (ss_block_history snap)) (store_new (ss_context_id snap) q) = Inr r
     \<and> rebuilt_from D s (fold (restore_tombstone D now q) (ss_deleted_blocks snap) r)"
proof -
  have bt: "bt_ok (st_blocks s)" using ok by (simp add: store_ok_def)
  obtain r where r: "restore_blocks D q (zip (ss_blocks snap) (ss_block_history snap))
        (store_new (ss_context_id snap) q) = Inr r" "st_context_id r = st_context_id s" "filed r"
      "\<And>i. bt_get (st_blocks r) i \<noteq> None \<longleftrightarrow> is_live s i"
      "\<And>i. get_block_snapshot D r i = get_block_snapshot D s i"
    using restore_all [OF assms(1-3)] unfolding snap_def by blast
  define u where "u = fold (restore_tombstone D now q) (ss_deleted_blocks snap) r"
  have dead: "j \<in> set (ss_deleted_blocks snap) \<longleftrightarrow> bt_contains (st_blocks s) j \<and> \<not> is_live s j" for j
    using bt.get_in_entries [OF bt]
    by (force simp: snap_def store_snapshot_def Let_def bt_contains_def is_live_def split: option.splits)
  have u: "filed u" "st_context_id u = st_context_id s"
    and get: "bt_get (st_blocks u) j = (if bt_contains (st_blocks s) j \<and> \<not> is_live s j
        then Some (tombstone D now q j) else bt_get (st_blocks r) j)" for j
    using restore_tombstones [OF r(3), of D now q "ss_deleted_blocks snap"] r(2,4) dead
    by (auto simp: u_def)
  have "get_block_snapshot D u i = get_block_snapshot D s i" for i
    using get [of i] r(5) [of i] by (auto simp: get_block_snapshot_def bt_contains_def is_live_def split: option.splits)
  moreover have "bt_contains (st_blocks u) i = bt_contains (st_blocks s) i" for i
    using get [of i] r(4) [of i] by (auto simp: bt_contains_def is_live_def split: option.splits)
  moreover have "bc_tick b = None" if "bt_get (st_blocks u) i = Some b" "bc_deleted b" for i b
    using get [of i] r(4,5) [of i] that
    by (auto simp: get_block_snapshot_def is_live_def split: if_splits option.splits)
  ultimately show ?thesis using r(1) u unfolding u_def rebuilt_from_def by blast
qed

lemma ticks_of_view:
  assumes bt: "bt_ok (st_blocks s)" and view: "get_block_snapshot D u i = get_block_snapshot D s i"
    and "list_all (\<lambda>(i, b). bc_tick b \<noteq> None) (live_entries s)"
    and "bt_get (st_blocks u) i = Some b" and "\<not> bc_deleted b"
  shows "bc_tick b \<noteq> None"
proof -
  have "get_block_snapshot D s i = Some (content_snapshot D b)"
    unfolding view [symmetric] using assms(4,5) by (simp add: get_block_snapshot_def)
  then obtain c where c: "bt_get (st_blocks s) i = Some c" "\<not> bc_deleted c" "bc_tick c = bc_tick b"
    by (metis get_block_snapshot_Some content_snapshot_frame(3))
  then have "(i, c) \<in> set (live_entries s)" using bt.get_in_entries [OF bt] by (simp add: live_entries_def)
  with assms(3) c(3) show ?thesis by (metis (mono_tags, lifting) list_all_iff case_prod_conv)
qed

text \<open>Whatever a snapshot holds, a store restored from it satisfies the invariant.\<close>

lemma restore_block_filed:
  assumes "restore_block D p sh s = Inr s'" and "filed s" and "\<And>i b. bt_get (st_blocks s) i = Some b \<Longrightarrow> \<not> bc_deleted b"
  shows "filed s' \<and> (\<forall>i b. bt_get (st_blocks s') i = Some b \<longrightarrow> \<not> bc_deleted b)
     \<and> st_context_id s' = st_context_id s \<and> st_principal_id s' = st_principal_id s"
proof -
  let ?i = "bs_id (fst sh)"
  obtain b where s': "s' = (observe_seq (principal_id ?i) (seq ?i) s)\<lparr>st_blocks := bt_insert ?i b (st_blocks s)\<rparr>"
      and b: "bh_id (bc_header b) = ?i" "mirrors_ok b" "\<not> bc_deleted b"
  proof (cases "ops_is_empty D (snd sh)")
    case True
    then show ?thesis using assms(1) mirrors_ok_restored(1)
      by (intro that) (auto simp: restore_block_def Let_def case_prod_unfold)
  next
    case False
    let ?c = "content_from_snapshot_for_sync D (fst sh) p
       (fallback_key (observe_seq (principal_id ?i) (seq ?i) s) (fst sh))"
    obtain d where d: "fst (content_merge_ops D (snd sh) ?c) = ?c\<lparr>bc_doc := d\<rparr>"
      using content_merge_ops_frame [of D "snd sh" ?c] by (elim exE)
    have "mirrors_ok (?c\<lparr>bc_doc := d\<rparr>)" using mirrors_ok_restored(2) [of D "fst sh"] by (simp add: mirrors_ok_def)
    then show ?thesis using False assms(1) d
      by (intro that [of "?c\<lparr>bc_doc := d\<rparr>"])
        (auto simp: restore_block_def Let_def case_prod_unfold split: prod.splits sum.splits)
  qed
  show ?thesis using filed_put [OF assms(2) b(1,2)] assms(3) b(3) by (auto simp: s' bt_get_insert)
qed

lemma restore_blocks_filed:
  assumes "restore_blocks D p shs s = Inr s'" and "filed s" and "\<And>i b. bt_get (st_blocks s) i = Some b \<Longrightarrow> \<not> bc_deleted b"
  shows "filed s' \<and> (\<forall>i b. bt_get (st_blocks s') i = Some b \<longrightarrow> \<not> bc_deleted b)
     \<and> st_context_id s' = st_context_id s \<and> st_principal_id s' = st_principal_id s"
  using assms
proof (induction shs arbitrary: s)
  case (Cons sh shs)
  then obtain s1 where s1: "restore_block D p sh s = Inr s1" "restore_blocks D p shs s1 = Inr s'"
    by (auto split: sum.splits)
  note one = restore_block_filed [OF s1(1) Cons.prems(2,3)]
  show ?case using Cons.IH [OF s1(2)] one by simp
qed simp

lemma normalize_frame:
  "st_context_id (normalize_timeline s) = st_context_id s" "st_principal_id (normalize_timeline s) = st_principal_id s"
proof -
  have "st_context_id (fold rekey_block xs s) = st_context_id s \<and> st_principal_id (fold rekey_block xs s) = st_principal_id s" for xs
    by (induction xs arbitrary: s) (auto simp: rekey_block_def Let_def)
  then show "st_context_id (normalize_timeline s) = st_context_id s" "st_principal_id (normalize_timeline s) = st_principal_id s"
    by (auto simp: normalize_timeline_def Let_def)
qed

lemma restore_tombstones_principal:
  "st_principal_id (fold (restore_tombstone D now p) ids s) = st_principal_id s"
  by (induction ids arbitrary: s) (auto simp: restore_tombstone_def Let_def)

lemma store_from_snapshot_ok:
  assumes "store_from_snapshot D now snap p = Inr t"
  shows "store_ok t \<and> st_context_id t = ss_context_id snap \<and> st_principal_id t = p"
proof -
  obtain r where r: "restore_blocks D p (zip (ss_blocks snap) (ss_block_history snap)) (store_new (ss_context_id snap) p) = Inr r"
    using assms by (auto simp: store_from_snapshot_def split: sum.splits)
  have new: "st_blocks (store_new (ss_context_id snap) p) = []" by (simp add: store_new_def)
  note rr = restore_blocks_filed [OF r filed_new, unfolded new, simplified bt_get_def, simplified]
  define u where "u = (fold (restore_tombstone D now p) (ss_deleted_blocks snap) r)\<lparr>st_lamport_clock :=
     (case option_max (map bs_updated_at (ss_blocks snap)) of Some t \<Rightarrow> t | None \<Rightarrow> 0)\<rparr>"
  have t: "t = normalize_timeline u"
    using assms r by (simp add: store_from_snapshot_def u_def Let_def)
  have fr: "filed r" using rr by simp
  note tomb = restore_tombstones [OF fr, of D now p "ss_deleted_blocks snap"]
  have "filed u" using tomb by (simp add: u_def filed_def)
  moreover have "bc_tick b = None" if "bt_get (st_blocks u) i = Some b" "bc_deleted b" for i b
  proof -
    have "i \<in> set (ss_deleted_blocks snap) \<and> bt_get (st_blocks r) i = None \<and> b = tombstone D now p i \<or> bt_get (st_blocks r) i = Some b"
      using that(1) tomb [of i] by (auto simp: u_def split: if_splits)
    then show ?thesis using rr that(2) by (auto simp: bt_get_def)
  qed
  ultimately have "store_ok t" unfolding t by (rule store_ok_normalize)
  moreover have "st_context_id t = ss_context_id snap" "st_principal_id t = p"
    using rr tomb by (simp_all add: t normalize_frame u_def restore_tombstones_principal store_new_def)
  ultimately show ?thesis by simp
qed

text \<open>The run of \<open>from_snapshot\<close> up to the normalisation.\<close>

lemma restored_before:
  assumes "dte_ok D" and "store_ok s" and "has_text D s"
  obtains v where "store_from_snapshot D now (store_snapshot D s) q = Inr (normalize_timeline v)"
    and "filed v" and "st_context_id v = st_context_id s"
    and "\<And>i. get_block_snapshot D v i = get_block_snapshot D s i"
    and "\<And>i. bt_contains (st_blocks v) i = bt_contains (st_blocks s) i"
    and "\<And>i b. bt_get (st_blocks v) i = Some b \<Longrightarrow> bc_deleted b \<Longrightarrow> bc_tick b = None"
    and "\<And>i x. get_block_snapshot D s i = Some x \<Longrightarrow> bs_updated_at x \<le> st_lamport_clock v"
proof -
  let ?snap = "store_snapshot D s"
  obtain r where r: "restore_blocks D q (zip (ss_blocks ?snap) (ss_block_history ?snap))
        (store_new (ss_context_id ?snap) q) = Inr r"
      "rebuilt_from D s (fold (restore_tombstone D now q) (ss_deleted_blocks ?snap) r)"
    using restore_with_tombstones [OF assms(1-3), of q now] by blast
  define u where "u = fold (restore_tombstone D now q) (ss_deleted_blocks ?snap) r"
  have u: "filed u" "st_context_id u = st_context_id s"
      "\<And>i. get_block_snapshot D u i = get_block_snapshot D s i"
      "\<And>i. bt_contains (st_blocks u) i = bt_contains (st_blocks s) i"
      "\<And>i b. bt_get (st_blocks u) i = Some b \<Longrightarrow> bc_deleted b \<Longrightarrow> bc_tick b = None"
    using r(2) by (simp_all add: rebuilt_from_def u_def)
  define v where "v = u\<lparr>st_lamport_clock :=
     (case option_max (map bs_updated_at (ss_blocks ?snap)) of Some t \<Rightarrow> t | None \<Rightarrow> 0)\<rparr>"
  have v: "st_blocks v = st_blocks u" "st_context_id v = st_context_id u" by (simp_all add: v_def)
  have "store_from_snapshot D now ?snap q = Inr (normalize_timeline v)"
    by (simp add: store_from_snapshot_def r(1) v_def Let_def flip: u_def)
  moreover have "bs_updated_at x \<le> st_lamport_clock v" if "get_block_snapshot D s i = Some x" for i x
    using snapshot_lists_view [OF assms(2) that] by (auto simp: v_def option_max_Max)
  moreover have "filed v" using u(1) by (simp add: filed_def v_def)
  moreover have "get_block_snapshot D v i = get_block_snapshot D s i" for i
    using u(3) [of i] by (simp add: get_block_snapshot_def v(1))
  ultimately show thesis using u(2,4,5) by (intro that [of v]) (simp_all add: v)
qed

abbreviation all_ticked :: "'d BlockStore \<Rightarrow> bool" where
  "all_ticked s \<equiv> list_all (\<lambda>(i, b). bc_tick b \<noteq> None) (live_entries s)"

lemma all_ticked_view:
  assumes "bt_ok (st_blocks s)" and "bt_ok (st_blocks v)" and "\<And>i. get_block_snapshot D v i = get_block_snapshot D s i"
    and "all_ticked s"
  shows "normalize_timeline v = v\<lparr>st_next_tick := (case max_tick v of Some m \<Rightarrow> m + 1 | None \<Rightarrow> 0)\<rparr>"
  using ticks_of_view [OF assms(1,3,4)] missing_tick [OF assms(2)] by (intro normalize_ticked) blast

lemma normalize_clock: "st_lamport_clock (normalize_timeline s) = st_lamport_clock s"
proof -
  have "st_lamport_clock (fold rekey_block xs s) = st_lamport_clock s" for xs
    by (induction xs arbitrary: s) (auto simp: rekey_block_def Let_def)
  then show ?thesis by (simp add: normalize_timeline_def Let_def)
qed

lemma normalize_contains:
  assumes "bt_ok (st_blocks s)"
  shows "bt_contains (st_blocks (normalize_timeline s)) i = bt_contains (st_blocks s) i"
proof (cases "list_ex (\<lambda>(_, b). bc_tick b = None) (live_entries s)")
  case True
  obtain bs where bs: "st_blocks (normalize_timeline s) = bs"
      "bt_get bs i = (case position (\<lambda>j. j = i) (block_ids_ordered s) of
         Some k \<Rightarrow> map_option (rekeyed s k) (bt_get (st_blocks s) i) | None \<Rightarrow> bt_get (st_blocks s) i)"
    using normalize_legacy [OF assms True] by force
  show ?thesis unfolding bs(1) bt_contains_def bs(2) by (simp split: option.split)
qed (simp add: normalize_ticked)

lemma snapshot_restores:
  assumes "dte_ok D" and "store_ok s" and "has_text D s" and ticked: "all_ticked s"
  shows "\<exists>t. store_from_snapshot D now (store_snapshot D s) q = Inr t
     \<and> store_ok t \<and> st_context_id t = st_context_id s
     \<and> (\<forall>i. get_block_snapshot D t i = get_block_snapshot D s i)
     \<and> blocks_ordered D t = blocks_ordered D s"
proof -
  have bt: "bt_ok (st_blocks s)" using assms(2) by (simp add: store_ok_def)
  obtain v where v: "store_from_snapshot D now (store_snapshot D s) q = Inr (normalize_timeline v)"
      "filed v" "st_context_id v = st_context_id s" "\<And>i. get_block_snapshot D v i = get_block_snapshot D s i"
      "\<And>i b. bt_get (st_blocks v) i = Some b \<Longrightarrow> bc_deleted b \<Longrightarrow> bc_tick b = None"
    using restored_before [OF assms(1-3), of now q] by metis
  have bv: "bt_ok (st_blocks v)" using v(2) by (simp add: filed_def)
  note same = all_ticked_view [OF bt bv v(4) ticked]
  have view: "get_block_snapshot D (normalize_timeline v) i = get_block_snapshot D s i" for i
    unfolding v(4) [symmetric] by (simp add: same get_block_snapshot_def)
  have "store_ok (normalize_timeline v)" using v(5) by (rule store_ok_normalize [OF v(2)])
  then show ?thesis using v(1,3) view view_determines_order(2) [OF bt _ view] by (simp add: store_ok_def normalize_frame)
qed

text \<open>
  What the legacy branch shows afterwards: the same blocks in the same order, each with its position as
  its tick and with the order key of that tick.
\<close>

definition restamped :: "'d BlockStore \<Rightarrow> BlockSnapshot list \<Rightarrow> BlockSnapshot list" where
  "restamped t xs = map (\<lambda>(k, x). x\<lparr>bs_tick := Some (int k), bs_order_key := Some (order_key_for_tick t (int k))\<rparr>) (enumerate 0 xs)"

lemma map_filter_nth:
  "(\<And>k. k < length xs \<Longrightarrow> f (xs ! k) = Some (y k)) \<Longrightarrow> List.map_filter f xs = map y [0..<length xs]"
proof (induction xs arbitrary: y)
  case (Cons a xs)
  have "f a = Some (y 0)" using Cons.prems [of 0] by simp
  moreover have "List.map_filter f xs = map (\<lambda>k. y (Suc k)) [0..<length xs]"
    using Cons.prems [of "Suc _"] by (intro Cons.IH) simp
  ultimately show ?case by (simp add: map_filter_simps upt_conv_Cons map_Suc_upt [symmetric] o_def del: upt_Suc)
qed (simp add: map_filter_simps)

lemma snapshot_rekeyed:
  "content_snapshot D (rekeyed s k b) =
     (content_snapshot D b)\<lparr>bs_tick := Some (int k), bs_order_key := Some (order_key_for_tick s (int k))\<rparr>"
  by (simp add: content_snapshot_def rekeyed_def set_tick_def set_order_key_def Let_def content_text_def)

lemma legacy_view:
  assumes ok: "bt_ok (st_blocks s)" and legacy: "list_ex (\<lambda>(_, b). bc_tick b = None) (live_entries s)"
    and len: "length (block_ids_ordered s) \<le> 2 ^ 63"
  shows "blocks_ordered D (normalize_timeline s) = restamped (normalize_timeline s) (blocks_ordered D s)"
proof -
  let ?ids = "block_ids_ordered s" and ?t = "normalize_timeline s"
  have key: "order_key_for_tick ?t x = order_key_for_tick s x" for x
    by (rule order_key_for_tick_cong) (rule normalize_frame)
  obtain b where b: "\<And>k. k < length ?ids \<Longrightarrow> bt_get (st_blocks s) (?ids ! k) = Some (b k)
      \<and> bt_get (st_blocks ?t) (?ids ! k) = Some (rekeyed s k (b k))"
    using legacy_ticks [OF ok legacy] by metis
  have live: "\<not> bc_deleted (b k)" if "k < length ?ids" for k
    using b [OF that] is_live_ordered [OF ok, of "?ids ! k"] that by (simp add: is_live_def)
  have "blocks_ordered D s = map (\<lambda>k. content_snapshot D (b k)) [0..<length ?ids]"
    unfolding blocks_ordered_def using b live by (intro map_filter_nth) (simp add: get_block_snapshot_def)
  moreover have "blocks_ordered D ?t = map (\<lambda>k. content_snapshot D (rekeyed s k (b k))) [0..<length ?ids]"
    unfolding blocks_ordered_def normalize_order [OF ok len] using b live
    by (intro map_filter_nth) (simp add: get_block_snapshot_def)
  ultimately show ?thesis
    by (intro nth_equalityI) (simp_all add: restamped_def nth_enumerate_eq snapshot_rekeyed key)
qed

lemma missing_tick_view:
  assumes "bt_ok (st_blocks s)" and "bt_ok (st_blocks v)" and "\<And>i. get_block_snapshot D v i = get_block_snapshot D s i"
  shows "list_ex (\<lambda>(_, b). bc_tick b = None) (live_entries v) \<longleftrightarrow> \<not> all_ticked s"
proof -
  have "list_ex (\<lambda>(_, b). bc_tick b = None) (live_entries u) \<longleftrightarrow>
      (\<exists>i x. get_block_snapshot D u i = Some x \<and> bs_tick x = None)" if "bt_ok (st_blocks u)" for u
    unfolding missing_tick [OF that] by (auto simp: get_block_snapshot_Some) (metis content_snapshot_frame(3))+
  then have "list_ex (\<lambda>(_, b). bc_tick b = None) (live_entries v) \<longleftrightarrow> list_ex (\<lambda>(_, b). bc_tick b = None) (live_entries s)"
    using assms by simp
  also have "\<dots> \<longleftrightarrow> \<not> all_ticked s" by (simp add: list_ex_iff list_all_iff case_prod_unfold)
  finally show ?thesis .
qed

text \<open>
  C3: restoring a persisted snapshot succeeds and gives the document back: the same live blocks in the
  same order with the same content, and the same tombstones.  When every live block has a tick each block
  comes back as it was, in every field of its snapshot; when a block from before the tick scheme is among
  them, each block comes back with its position as its tick and the order key of that tick, and with all
  other fields as they were.  The result satisfies the store invariant (so fresh identifiers and ticks
  stay fresh), and its clock has reached every restored header, so a later local write wins over it.

  The document satisfies the store invariant, has at most \<open>2 ^ 63\<close> live blocks, and every block's text
  can be read; the text documents obey the laws \<open>dte_ok\<close>.
\<close>

theorem store_snapshot_roundtrip:
  assumes "dte_ok D" and "store_ok s" and "has_text D s" and "length (block_ids_ordered s) \<le> 2 ^ 63"
  shows "\<exists>t. store_from_snapshot D now (store_snapshot D s) q = Inr t
     \<and> store_ok t \<and> st_context_id t = st_context_id s
     \<and> block_ids_ordered t = block_ids_ordered s
     \<and> blocks_ordered D t = (if all_ticked s then blocks_ordered D s else restamped t (blocks_ordered D s))
     \<and> (\<forall>i. bt_contains (st_blocks t) i = bt_contains (st_blocks s) i \<and> is_live t i = is_live s i)
     \<and> (\<forall>x \<in> set (blocks_ordered D t). bs_updated_at x \<le> st_lamport_clock t)"
proof -
  have bt: "bt_ok (st_blocks s)" using assms(2) by (simp add: store_ok_def)
  obtain v where v: "store_from_snapshot D now (store_snapshot D s) q = Inr (normalize_timeline v)"
      "filed v" "st_context_id v = st_context_id s" "\<And>i. get_block_snapshot D v i = get_block_snapshot D s i"
      "\<And>i. bt_contains (st_blocks v) i = bt_contains (st_blocks s) i"
      "\<And>i b. bt_get (st_blocks v) i = Some b \<Longrightarrow> bc_deleted b \<Longrightarrow> bc_tick b = None"
      "\<And>i x. get_block_snapshot D s i = Some x \<Longrightarrow> bs_updated_at x \<le> st_lamport_clock v"
    using restored_before [OF assms(1-3), of now q] by metis
  let ?t = "normalize_timeline v"
  have bv: "bt_ok (st_blocks v)" using v(2) by (simp add: filed_def)
  have ids: "block_ids_ordered v = block_ids_ordered s" "blocks_ordered D v = blocks_ordered D s"
    using view_determines_order [OF bt bv v(4)] .
  have order: "block_ids_ordered ?t = block_ids_ordered s"
    using normalize_order [OF bv] assms(4) by (simp add: ids)
  have blocks: "blocks_ordered D ?t = (if all_ticked s then blocks_ordered D s else restamped ?t (blocks_ordered D s))"
  proof (cases "all_ticked s")
    case True
    have "get_block_snapshot D ?t i = get_block_snapshot D v i" for i
      by (simp add: all_ticked_view [OF bt bv v(4) True] get_block_snapshot_def)
    then have "get_block_snapshot D ?t = get_block_snapshot D v" by (rule ext)
    then have "blocks_ordered D ?t = blocks_ordered D v" by (simp add: blocks_ordered_def order ids(1))
    then show ?thesis using True ids(2) by simp
  next
    case False
    then show ?thesis using legacy_view [OF bv, where D = D] missing_tick_view [OF bt bv v(4)] assms(4) ids by simp
  qed
  have live: "is_live ?t i = is_live s i" for i
    using is_live_ordered [OF normalize_live(3) [OF bv], of i] is_live_ordered [OF bt, of i] by (simp add: order)
  have "bs_updated_at x \<le> st_lamport_clock v" if "x \<in> set (blocks_ordered D s)" for x
    using that v(7) by (auto simp: blocks_ordered_def map_filter_def)
  then have "bs_updated_at x \<le> st_lamport_clock ?t" if "x \<in> set (blocks_ordered D ?t)" for x
    using that unfolding blocks normalize_clock by (auto simp: restamped_def in_set_enumerate_eq split: if_splits)
  then show ?thesis
    using v(1,3,5) order blocks live store_ok_normalize [OF v(2) v(6)] normalize_contains [OF bv]
    by (simp add: normalize_frame)
qed

lemma legacy_notes_ok: "store_ok legacy_notes"
proof -
  have "map_of (map (\<lambda>(i, b). (i, f i b)) xs) j = map_option (f j) (map_of xs j)"
    for f :: "BlockId \<Rightarrow> string option BlockContent \<Rightarrow> string option BlockContent" and xs j
    by (induction xs) auto
  then obtain key where get: "\<And>i. bt_get (st_blocks legacy_notes) i =
      map_option (\<lambda>b. b\<lparr>bc_tick := None, bc_order_key := key i\<rparr>) (bt_get (st_blocks (two_notes 2)) i)"
    by (simp add: legacy_notes_def bt_get_def)
  have "bt_ok (st_blocks legacy_notes)" by code_simp
  moreover have "next_seq_for legacy_notes = next_seq_for (two_notes 2)"
    by (simp add: fun_eq_iff legacy_notes_def next_seq_for_def)
  ultimately show ?thesis using store_okD [OF two_notes_ok [of 2]]
    by (auto simp: store_ok_def entry_ok_def get mirrors_ok_def)
qed

theorem store_snapshot_roundtrip_witness:
  "(\<exists>t. store_from_snapshot reference_dte 5 (store_snapshot reference_dte (two_notes 2)) 9 = Inr t
     \<and> blocks_ordered reference_dte t = blocks_ordered reference_dte (two_notes 2))
   \<and> (\<exists>t. store_from_snapshot reference_dte 5 (store_snapshot reference_dte legacy_notes) 9 = Inr t
     \<and> block_ids_ordered t = [BlockId 1 2 1, BlockId 1 2 0]
     \<and> blocks_ordered reference_dte t = restamped t (blocks_ordered reference_dte legacy_notes))"
proof (rule conjI)
  have "has_text reference_dte (two_notes 2)" "all_ticked (two_notes 2)" by code_simp+
  moreover have "length (block_ids_ordered (two_notes 2)) = 2" by code_simp
  ultimately show "\<exists>t. store_from_snapshot reference_dte 5 (store_snapshot reference_dte (two_notes 2)) 9 = Inr t
     \<and> blocks_ordered reference_dte t = blocks_ordered reference_dte (two_notes 2)"
    using store_snapshot_roundtrip [OF reference_dte_ok two_notes_ok] by fastforce
  have "has_text reference_dte legacy_notes" "\<not> all_ticked legacy_notes" by code_simp+
  moreover have "block_ids_ordered legacy_notes = [BlockId 1 2 1, BlockId 1 2 0]" by code_simp
  ultimately show "\<exists>t. store_from_snapshot reference_dte 5 (store_snapshot reference_dte legacy_notes) 9 = Inr t
     \<and> block_ids_ordered t = [BlockId 1 2 1, BlockId 1 2 0]
     \<and> blocks_ordered reference_dte t = restamped t (blocks_ordered reference_dte legacy_notes)"
    using store_snapshot_roundtrip [OF reference_dte_ok legacy_notes_ok] by fastforce
qed

end
