(* ===== verification/Store_Fork.thy ===== *)
theory Store_Fork
  imports Store_Restore
begin

text \<open>
  Forks of the block store.  A fork holds the selected live blocks of the original under the new
  context, in the original order; the three forking operations differ in the selection only.
\<close>

section \<open>Document order as a sort of the blocks\<close>

definition block_rank :: "'d BlockContent \<Rightarrow> string \<times> BlockId" where
  "block_rank b = (bc_order_key b, bh_id (bc_header b))"

definition document_blocks :: "'d BlockStore \<Rightarrow> 'd BlockContent list" where
  "document_blocks s = sort_key block_rank (map snd (live_entries s))"

lemma live_entry_id: "store_ok s \<Longrightarrow> (i, b) \<in> set (live_entries s) \<Longrightarrow> bh_id (bc_header b) = i"
  using bt.get_in_entries [of "st_blocks s"] store_okD(1) [of s]
  by (auto simp: live_entries_def store_ok_def)

lemma sort_map_key: "sort (map f xs) = map f (sort_key f xs)"
  by (rule properties_for_sort) simp_all

lemma order_pairs_blocks:
  assumes "store_ok s"
  shows "order_pairs s = map block_rank (document_blocks s)"
proof -
  have "map (\<lambda>(i, b). (bc_order_key b, i)) (live_entries s) = map block_rank (map snd (live_entries s))"
    using live_entry_id [OF assms] by (auto simp: block_rank_def)
  then show ?thesis unfolding order_pairs_def document_blocks_def by (simp only: sort_map_key)
qed

lemma document_block:
  assumes "store_ok s"
  shows "b \<in> set (document_blocks s) \<longleftrightarrow> bt_get (st_blocks s) (bh_id (bc_header b)) = Some b \<and> \<not> bc_deleted b"
proof -
  have bt: "bt_ok (st_blocks s)" using assms by (simp add: store_ok_def)
  have "b \<in> set (document_blocks s) \<longleftrightarrow> (\<exists>i. (i, b) \<in> set (live_entries s))"
    by (force simp: document_blocks_def)
  then show ?thesis
    using live_entry_id [OF assms] bt.get_in_entries [OF bt] by (auto simp: live_entries_def)
qed

lemma map_filter_map_some:
  "(\<And>x. x \<in> set xs \<Longrightarrow> f (h x) = Some (g x)) \<Longrightarrow> List.map_filter f (map h xs) = map g xs"
  by (induction xs) (simp_all add: map_filter_simps)

lemma blocks_ordered_blocks:
  assumes "store_ok s"
  shows "blocks_ordered D s = map (content_snapshot D) (document_blocks s)"
proof -
  have "block_ids_ordered s = map (\<lambda>b. bh_id (bc_header b)) (document_blocks s)"
    by (simp add: block_ids_ordered_def order_pairs_blocks [OF assms] block_rank_def o_def)
  moreover have "get_block_snapshot D s (bh_id (bc_header b)) = Some (content_snapshot D b)"
    if "b \<in> set (document_blocks s)" for b
    using that by (simp add: document_block [OF assms] get_block_snapshot_def)
  ultimately show ?thesis
    unfolding blocks_ordered_def by (simp add: map_filter_map_some)
qed

section \<open>Copying blocks into a new context\<close>

text \<open>The block that a fork makes of a block, and its place.\<close>

definition forked_id :: "ContextId \<Rightarrow> 'd BlockContent \<Rightarrow> BlockId" where
  "forked_id ctx b = in_context ctx (bh_id (bc_header b))"

definition forked_copy ::
  "('d, 'o, 'f) dte \<Rightarrow> ContextId \<Rightarrow> PrincipalId \<Rightarrow> 'd BlockContent \<Rightarrow> 'd BlockContent" where
  "forked_copy D ctx p b =
     content_from_snapshot D (remap_snapshot ctx (content_snapshot D b)) p (bc_order_key b)"

lemma remap_snapshot_frame [simp]:
  "bs_id (remap_snapshot ctx x) = in_context ctx (bs_id x)"
  "bs_order_key (remap_snapshot ctx x) = bs_order_key x" "bs_tick (remap_snapshot ctx x) = bs_tick x"
  by (simp_all add: remap_snapshot_def)

lemma in_context_frame [simp]:
  "principal_id (in_context ctx i) = principal_id i" "seq (in_context ctx i) = seq i"
  "context_id (in_context ctx i) = ctx"
  by (simp_all add: in_context_def)

lemma forked_copy_frame [simp]:
  "\<not> bc_deleted (forked_copy D ctx p b)" "bc_order_key (forked_copy D ctx p b) = bc_order_key b"
  "bh_id (bc_header (forked_copy D ctx p b)) = forked_id ctx b" "bc_tick (forked_copy D ctx p b) = bc_tick b"
  "mirrors_ok (forked_copy D ctx p b)"
  by (simp_all add: forked_copy_def forked_id_def mirrors_ok_restored)

lemma forked_copy_snapshot:
  "dte_ok D \<Longrightarrow> content_snapshot D (forked_copy D ctx p b) = remap_snapshot ctx (content_snapshot D b)"
  using snapshot_restore [of D "remap_snapshot ctx (content_snapshot D b)" p "bc_order_key b"]
  by (simp add: forked_copy_def remap_snapshot_def)

lemma fork_block_frame:
  "st_blocks (fork_block D b s) = bt_insert (forked_id (st_context_id s) b)
      (forked_copy D (st_context_id s) (st_principal_id s) b) (st_blocks s)"
  "st_context_id (fork_block D b s) = st_context_id s"
  "st_principal_id (fork_block D b s) = st_principal_id s"
  by (simp_all add: fork_block_def Let_def forked_id_def forked_copy_def split: option.split)

lemma safe_fork_block:
  assumes "bt_get (st_blocks s) (forked_id (st_context_id s) b) = None"
  shows "safe s (fork_block D b s)"
proof -
  let ?i = "forked_id (st_context_id s) b"
  let ?c = "forked_copy D (st_context_id s) (st_principal_id s) b"
  let ?n = "case bc_tick b of Some t \<Rightarrow> max (st_next_tick s) (t + 1) | None \<Rightarrow> st_next_tick s"
  let ?s1 = "(observe_seq (principal_id ?i) (seq ?i) s)\<lparr>st_next_tick := ?n\<rparr>"
  have 1: "safe s ?s1"
    by (rule safe_trans [OF safe_observe_seq safe_next_tick]) (simp split: option.split)
  have "entry_ok ?s1 ?i ?c" by (auto simp: entry_ok_def next_seq_for_observe)
  then have 2: "safe ?s1 (?s1\<lparr>st_blocks := bt_insert ?i ?c (st_blocks ?s1)\<rparr>)"
    using assms by (intro safe_insert) simp_all
  have "fork_block D b s = ?s1\<lparr>st_blocks := bt_insert ?i ?c (st_blocks ?s1)\<rparr>"
    by (simp add: fork_block_def Let_def forked_id_def forked_copy_def split: option.split)
  with safe_trans [OF 1 2] show ?thesis by simp
qed

lemma fork_fold:
  assumes "distinct (map (forked_id (st_context_id s)) bs)"
    and "\<And>b. b \<in> set bs \<Longrightarrow> bt_get (st_blocks s) (forked_id (st_context_id s) b) = None"
  shows "safe s (fold (fork_block D) bs s)
     \<and> (\<forall>i. bt_get (st_blocks (fold (fork_block D) bs s)) i =
         (case map_of (map (\<lambda>b. (forked_id (st_context_id s) b, b)) bs) i of
            Some b \<Rightarrow> Some (forked_copy D (st_context_id s) (st_principal_id s) b)
          | None \<Rightarrow> bt_get (st_blocks s) i))"
  using assms
proof (induction bs arbitrary: s)
  case Nil
  then show ?case by simp
next
  case (Cons b bs)
  let ?s1 = "fork_block D b s"
  note frame = fork_block_frame [of D b s]
  have nb: "forked_id (st_context_id s) b \<notin> forked_id (st_context_id s) ` set bs"
    using Cons.prems(1) by simp
  have dist: "distinct (map (forked_id (st_context_id ?s1)) bs)" using Cons.prems(1) by (simp add: frame)
  have free: "bt_get (st_blocks ?s1) (forked_id (st_context_id ?s1) c) = None" if "c \<in> set bs" for c
  proof -
    have "forked_id (st_context_id s) c \<noteq> forked_id (st_context_id s) b" using that nb by (metis imageI)
    then show ?thesis using that Cons.prems(2) [of c] by (simp add: frame bt_get_insert)
  qed
  note IH = Cons.IH [OF dist free, unfolded frame(2,3)]
  have "map_of (map (\<lambda>b. (forked_id (st_context_id s) b, b)) bs) (forked_id (st_context_id s) b) = None"
    using nb by (auto simp: map_of_eq_None_iff)
  moreover have "safe s ?s1" using Cons.prems(2) by (intro safe_fork_block) simp
  ultimately show ?case
    using IH safe_trans [of s ?s1] by (auto simp: frame bt_get_insert split: option.split)
qed

section \<open>The three forks\<close>

text \<open>The blocks to copy: live blocks of one context, each once.\<close>

definition forkable :: "'d BlockContent list \<Rightarrow> bool" where
  "forkable bs \<longleftrightarrow> distinct (map (\<lambda>b. bh_id (bc_header b)) bs)
     \<and> (\<forall>b \<in> set bs. \<forall>c \<in> set bs. context_id (bh_id (bc_header b)) = context_id (bh_id (bc_header c)))"

lemma forked_id_inj:
  "context_id (bh_id (bc_header b)) = context_id (bh_id (bc_header c)) \<Longrightarrow>
   forked_id ctx b = forked_id ctx c \<longleftrightarrow> bh_id (bc_header b) = bh_id (bc_header c)"
  by (cases "bh_id (bc_header b)"; cases "bh_id (bc_header c)") (auto simp: forked_id_def in_context_def)

lemma forkable_distinct: "forkable bs \<Longrightarrow> distinct (map (forked_id ctx) bs)"
  unfolding forkable_def distinct_map inj_on_def using forked_id_inj by metis

lemma fork_blocks_get:
  assumes "forkable bs"
  shows "store_ok (fork_blocks D ctx p bs)"
    and "bt_get (st_blocks (fork_blocks D ctx p bs)) i =
      map_option (forked_copy D ctx p) (map_of (map (\<lambda>b. (forked_id ctx b, b)) bs) i)"
proof -
  have new: "st_context_id (store_new ctx p :: 'a BlockStore) = ctx" "st_principal_id (store_new ctx p :: 'a BlockStore) = p"
    "st_blocks (store_new ctx p :: 'a BlockStore) = []" by (simp_all add: store_new_def)
  have "distinct (map (forked_id (st_context_id (store_new ctx p :: 'a BlockStore))) bs)"
    using forkable_distinct [OF assms] by (simp add: new)
  from fork_fold [OF this, of D, unfolded new]
  have *: "safe (store_new ctx p) (fold (fork_block D) bs (store_new ctx p))"
    "\<And>i. bt_get (st_blocks (fold (fork_block D) bs (store_new ctx p))) i =
         (case map_of (map (\<lambda>b. (forked_id ctx b, b)) bs) i of
            Some b \<Rightarrow> Some (forked_copy D ctx p b) | None \<Rightarrow> bt_get [] i)"
    by (simp_all add: bt_get_def)
  show "store_ok (fork_blocks D ctx p bs)"
    unfolding fork_blocks_def by (rule safe_okD [OF safe_version safe_okD [OF *(1) store_ok_new]])
  show "bt_get (st_blocks (fork_blocks D ctx p bs)) i =
      map_option (forked_copy D ctx p) (map_of (map (\<lambda>b. (forked_id ctx b, b)) bs) i)"
    by (cases "map_of (map (\<lambda>b. (forked_id ctx b, b)) bs) i") (simp_all add: fork_blocks_def *(2), simp add: bt_get_def)
qed

lemma forked_rank_mono:
  assumes "context_id (bh_id (bc_header b)) = context_id (bh_id (bc_header c))" and "block_rank b \<le> block_rank c"
  shows "(bc_order_key b, forked_id ctx b) \<le> (bc_order_key c, forked_id ctx c)"
  using assms by (auto simp: block_rank_def forked_id_def less_eq_BlockId_def in_context_def)

lemma fork_blocks_order:
  assumes f: "forkable bs" and sorted: "sorted (map block_rank bs)"
  shows "block_ids_ordered (fork_blocks D ctx p bs) = map (forked_id ctx) bs"
proof -
  let ?f = "fork_blocks D ctx p bs"
  let ?xs = "map (\<lambda>b. (bc_order_key b, forked_id ctx b)) bs"
  have bt: "bt_ok (st_blocks ?f)" using fork_blocks_get(1) [OF f, of D ctx p] by (simp add: store_ok_def)
  note dist = forkable_distinct [OF f, of ctx]
  have same: "context_id (bh_id (bc_header (bs ! k))) = context_id (bh_id (bc_header (bs ! l)))"
    if "k < length bs" "l < length bs" for k l using f that unfolding forkable_def by (meson nth_mem)
  have "sorted ?xs"
  proof (subst sorted_iff_nth_mono, intro allI impI)
    fix k l assume kl: "k \<le> l" "l < length ?xs"
    then have "block_rank (bs ! k) \<le> block_rank (bs ! l)" using sorted by (simp add: sorted_iff_nth_mono)
    from forked_rank_mono [OF same this, of ctx] kl show "?xs ! k \<le> ?xs ! l" by simp
  qed
  moreover have "distinct ?xs"
  proof -
    have "distinct (map snd ?xs)" using dist by (simp add: o_def)
    then show ?thesis by (simp only: distinct_map)
  qed
  moreover have "(k, i) \<in> set (order_pairs ?f) \<longleftrightarrow> (k, i) \<in> set ?xs" for k i
  proof -
    have "map_of (map (\<lambda>b. (forked_id ctx b, b)) bs) i = Some b \<longleftrightarrow> b \<in> set bs \<and> forked_id ctx b = i" for b
      using dist by (subst map_of_eq_Some_iff) (auto simp: o_def)
    then show ?thesis
      unfolding set_order_pairs [OF bt] fork_blocks_get(2) [OF f] by auto
  qed
  then have "set (order_pairs ?f) = set ?xs" by auto
  ultimately have "order_pairs ?f = ?xs"
    using sorted_order_pairs distinct_order_pairs [OF bt] by (intro sorted_distinct_set_unique)
  then show ?thesis by (simp add: block_ids_ordered_def o_def)
qed

lemma fork_blocks_view:
  assumes D: "dte_ok D" and f: "forkable bs" and sorted: "sorted (map block_rank bs)"
  shows "blocks_ordered D (fork_blocks D ctx p bs) = map (\<lambda>b. remap_snapshot ctx (content_snapshot D b)) bs"
proof -
  have "get_block_snapshot D (fork_blocks D ctx p bs) (forked_id ctx b) = Some (remap_snapshot ctx (content_snapshot D b))"
    if "b \<in> set bs" for b
  proof -
    have "map_of (map (\<lambda>b. (forked_id ctx b, b)) bs) (forked_id ctx b) = Some b"
      using that forkable_distinct [OF f, of ctx] by (subst map_of_eq_Some_iff) (auto simp: o_def)
    then show ?thesis
      by (simp add: get_block_snapshot_def fork_blocks_get(2) [OF f] forked_copy_snapshot [OF D])
  qed
  then show ?thesis
    unfolding blocks_ordered_def fork_blocks_order [OF f sorted] by (rule map_filter_map_some)
qed

text \<open>Every block of the store belongs to one context, as it does unless foreign blocks were merged in.\<close>

definition one_context :: "'d BlockStore \<Rightarrow> bool" where
  "one_context s \<longleftrightarrow> list_all (\<lambda>(i, b). context_id i = st_context_id s) (st_blocks s)"

lemma forkable_document:
  assumes ok: "store_ok s" and one: "one_context s" and sub: "set bs \<subseteq> set (document_blocks s)"
    and d: "distinct bs"
  shows "forkable bs"
proof -
  have *: "bt_get (st_blocks s) (bh_id (bc_header b)) = Some b" if "b \<in> set bs" for b
    using that sub document_block [OF ok, of b] by auto
  have "inj_on (\<lambda>b. bh_id (bc_header b)) (set bs)"
    by (rule inj_onI) (metis * option.inject)
  moreover have "context_id (bh_id (bc_header b)) = st_context_id s" if "b \<in> set bs" for b
    using * [OF that] one bt.get_in_entries [of "st_blocks s"] ok
    by (fastforce simp: one_context_def list_all_iff store_ok_def)
  ultimately show ?thesis using d by (auto simp: forkable_def distinct_map)
qed

lemma distinct_document_blocks:
  assumes "store_ok s"
  shows "distinct (document_blocks s)"
proof -
  have "distinct (map block_rank (document_blocks s))"
    using distinct_order_pairs [of s] assms by (simp add: order_pairs_blocks store_ok_def)
  then show ?thesis by (simp only: distinct_map)
qed

lemma sorted_document_blocks: "sorted (map block_rank (document_blocks s))"
  by (simp add: document_blocks_def)

text \<open>A selection of the document in document order, forked.\<close>

definition selects :: "'d BlockContent list \<Rightarrow> 'd BlockContent list \<Rightarrow> bool" where
  "selects xs ys \<longleftrightarrow> set xs \<subseteq> set ys \<and> (distinct ys \<longrightarrow> distinct xs)
     \<and> (sorted (map block_rank ys) \<longrightarrow> sorted (map block_rank xs))"

lemma selects_trans: "selects xs ys \<Longrightarrow> selects ys zs \<Longrightarrow> selects xs zs"
  by (auto simp: selects_def)

lemma selects_filter: "selects (filter P xs) xs"
  by (simp add: selects_def sorted_filter)

lemma selects_positions: "selects (map snd (filter P (enumerate n xs))) xs"
  by (induction xs arbitrary: n) (auto simp: selects_def in_set_enumerate_eq)

lemma fork_selection:
  assumes "dte_ok D" and ok: "store_ok s" and "one_context s" and "selects bs (document_blocks s)"
  shows "forkable bs" and "store_ok (fork_blocks D ctx p bs)"
    and "blocks_ordered D (fork_blocks D ctx p bs) = map (remap_snapshot ctx) (map (content_snapshot D) bs)"
proof -
  have sub: "set bs \<subseteq> set (document_blocks s)" "distinct bs" "sorted (map block_rank bs)"
    using assms(4) distinct_document_blocks [OF ok] sorted_document_blocks [of s] by (simp_all add: selects_def)
  show f: "forkable bs" by (rule forkable_document [OF ok assms(3) sub(1,2)])
  show "store_ok (fork_blocks D ctx p bs)"
    "blocks_ordered D (fork_blocks D ctx p bs) = map (remap_snapshot ctx) (map (content_snapshot D) bs)"
    using fork_blocks_view [OF assms(1) f sub(3)] fork_blocks_get(1) [OF f] by simp_all
qed

text \<open>Forking does not depend on the order in which the blocks are visited.\<close>

lemma fork_blocks_perm:
  assumes "forkable bs" and "mset cs = mset bs"
  shows "blocks_ordered D (fork_blocks D ctx p cs) = blocks_ordered D (fork_blocks D ctx p bs)
     \<and> store_ok (fork_blocks D ctx p cs)"
proof -
  have set: "set cs = set bs" using assms(2) by (metis set_mset_mset)
  have "mset (map (\<lambda>b. bh_id (bc_header b)) cs) = mset (map (\<lambda>b. bh_id (bc_header b)) bs)"
    using assms(2) by simp
  then have f: "forkable cs"
    using assms(1) mset_eq_imp_distinct_iff [of "map (\<lambda>b. bh_id (bc_header b)) cs"]
    unfolding forkable_def set by blast
  have "map_of (map (\<lambda>b. (forked_id ctx b, b)) cs) = map_of (map (\<lambda>b. (forked_id ctx b, b)) bs)"
    using forkable_distinct [OF f, of ctx] forkable_distinct [OF assms(1), of ctx] set
    by (intro map_of_inject_set [THEN iffD2]) (simp_all add: o_def)
  then have "get_block_snapshot D (fork_blocks D ctx p cs) i = get_block_snapshot D (fork_blocks D ctx p bs) i" for i
    by (simp add: get_block_snapshot_def fork_blocks_get(2) [OF f] fork_blocks_get(2) [OF assms(1)])
  then show ?thesis
    using view_determines_order(2) fork_blocks_get(1) [OF f, of D ctx p] fork_blocks_get(1) [OF assms(1), of D ctx p]
    by (metis store_ok_def)
qed

lemma created_at_snapshot [simp]: "bs_created_at (content_snapshot D b) = bh_created_at (bc_header b)"
  by (simp add: content_snapshot_def Let_def)

lemma fork_unordered:
  assumes D: "dte_ok D" and ok: "store_ok s" and one: "one_context s"
    and "cs = filter P (map snd (live_entries s))"
  shows "store_ok (fork_blocks D ctx p cs)
     \<and> blocks_ordered D (fork_blocks D ctx p cs)
         = map (remap_snapshot ctx) (map (content_snapshot D) (filter P (document_blocks s)))"
proof -
  note sel = fork_selection [OF D ok one selects_filter [of P "document_blocks s"]]
  have "mset cs = mset (filter P (document_blocks s))" by (simp add: assms(4) document_blocks_def)
  from fork_blocks_perm [OF sel(1) this, of D ctx p] sel(3) [of ctx p] show ?thesis by simp
qed

lemma insort_snd:
  "\<forall>x \<in> set (e # es). K x = f (snd x) \<Longrightarrow> map snd (insort_key K e es) = insort_key f (snd e) (map snd es)"
  by (induction es) auto

lemma sort_key_snd:
  "\<forall>x \<in> set es. K x = f (snd x) \<Longrightarrow> map snd (sort_key K es) = sort_key f (map snd es)"
proof (induction es)
  case (Cons e es)
  then have "map snd (insort_key K e (sort_key K es)) = insort_key f (snd e) (map snd (sort_key K es))"
    by (intro insort_snd) simp
  with Cons show ?case by simp
qed simp

lemma fork_universe_blocks:
  assumes "store_ok s"
  shows "fork_universe before s = filter (\<lambda>b. bh_created_at (bc_header b) \<le> before) (document_blocks s)"
proof -
  let ?P = "\<lambda>b. bh_created_at (bc_header b) \<le> before"
  let ?es = "filter (\<lambda>(i, b). \<not> bc_deleted b \<and> ?P b) (st_blocks s)"
  have es: "?es = filter (\<lambda>(i, b). ?P b) (live_entries s)"
    by (simp add: live_entries_def case_prod_unfold conj_commute)
  have "map snd (sort_key (\<lambda>(i, b). (bc_order_key b, i)) ?es) = sort_key block_rank (map snd ?es)"
    using live_entry_id [OF assms] by (intro sort_key_snd) (auto simp: es block_rank_def)
  also have "map snd ?es = filter ?P (map snd (live_entries s))"
    unfolding es by (simp add: filter_map o_def case_prod_unfold)
  finally show ?thesis by (simp add: fork_universe_def document_blocks_def filter_sort)
qed

text \<open>The three selections on snapshots in document order.\<close>

definition fork_keeps :: "uuid_lib \<Rightarrow> ForkBlockFilter \<Rightarrow> nat \<times> BlockSnapshot \<Rightarrow> bool" where
  "fork_keeps U f px \<longleftrightarrow>
     (case ff_selection f of Some sel \<Rightarrow> contains_position sel (fst px) | None \<Rightarrow> True)
     \<and> fork_filter_matches U f (snd px)"

lemma enumerate_map: "enumerate n (map f xs) = map (\<lambda>(k, x). (k, f x)) (enumerate n xs)"
  by (induction xs arbitrary: n) simp_all

lemma store_ok_insert:
  assumes "store_ok s" and "entry_ok s i b"
  shows "store_ok (s\<lparr>st_blocks := bt_insert i b (st_blocks s)\<rparr>)"
  using assms by (auto simp: store_ok_def entry_ok_def bt_ok_insert bt_get_insert next_seq_for_def split: if_splits)

lemma store_ok_fork_block:
  assumes "store_ok s"
  shows "store_ok (fork_block D b s)"
proof -
  let ?i = "forked_id (st_context_id s) b"
  let ?c = "forked_copy D (st_context_id s) (st_principal_id s) b"
  let ?n = "case bc_tick b of Some t \<Rightarrow> max (st_next_tick s) (t + 1) | None \<Rightarrow> st_next_tick s"
  let ?s1 = "(observe_seq (principal_id ?i) (seq ?i) s)\<lparr>st_next_tick := ?n\<rparr>"
  have "safe s ?s1" by (rule safe_trans [OF safe_observe_seq safe_next_tick]) (simp split: option.split)
  then have "store_ok ?s1" using assms by (rule safe_okD)
  moreover have "entry_ok ?s1 ?i ?c" by (auto simp: entry_ok_def next_seq_for_observe)
  ultimately have "store_ok (?s1\<lparr>st_blocks := bt_insert ?i ?c (st_blocks ?s1)\<rparr>)" by (rule store_ok_insert)
  moreover have "fork_block D b s = ?s1\<lparr>st_blocks := bt_insert ?i ?c (st_blocks ?s1)\<rparr>"
    by (simp add: fork_block_def Let_def forked_id_def forked_copy_def split: option.split)
  ultimately show ?thesis by simp
qed

lemma store_ok_forks: "store_ok (fork D ctx p s)" "store_ok (fork_at_version D ctx p before s)" "store_ok (fork_filtered D U ctx p before f s)"
proof -
  have "store_ok s \<Longrightarrow> store_ok (fold (fork_block D) bs s)" for s and bs :: "'a BlockContent list"
    by (induction bs arbitrary: s) (auto intro: store_ok_fork_block)
  from this [OF store_ok_new] have "store_ok (fork_blocks D ctx p bs)" for bs
    unfolding fork_blocks_def by (simp add: safe_okD [OF safe_version])
  then show "store_ok (fork D ctx p s)" "store_ok (fork_at_version D ctx p before s)" "store_ok (fork_filtered D U ctx p before f s)"
    by (simp_all add: fork_def fork_at_version_def fork_filtered_def)
qed

text \<open>
  The blocks of any document, in the order of the map, and what a fork makes of them: under each new
  identifier the last of the blocks that get it.  Blocks of one context never meet there; a block that a
  merge brought in from another context may take the place of one with the same principal and sequence
  number.
\<close>

definition live_snapshots :: "('d, 'o, 'f) dte \<Rightarrow> 'd BlockStore \<Rightarrow> BlockSnapshot list" where
  "live_snapshots D s = map (\<lambda>(_, b). content_snapshot D b) (live_entries s)"

definition fork_view :: "ContextId \<Rightarrow> BlockSnapshot list \<Rightarrow> BlockId \<Rightarrow> BlockSnapshot option" where
  "fork_view ctx xs i = map_option (remap_snapshot ctx) (map_of (rev (map (\<lambda>x. (in_context ctx (bs_id x), x)) xs)) i)"

lemma fork_fold_view:
  assumes "dte_ok D"
  shows "st_context_id (fold (fork_block D) bs (store_new ctx p)) = ctx \<and>
    get_block_snapshot D (fold (fork_block D) bs (store_new ctx p)) i = fork_view ctx (map (content_snapshot D) bs) i"
proof (induction bs rule: rev_induct)
  case Nil
  then show ?case by (simp add: fork_view_def store_new_def get_block_snapshot_def bt_get_def)
next
  case (snoc b bs)
  then show ?case
    by (simp add: get_block_snapshot_def fork_block_frame bt_get_insert fork_view_def forked_copy_snapshot [OF assms] forked_id_def)
qed

lemma fork_blocks_shows:
  assumes "dte_ok D"
  shows "get_block_snapshot D (fork_blocks D ctx p bs) i = fork_view ctx (map (content_snapshot D) bs) i"
  using fork_fold_view [OF assms, of bs ctx p i] by (simp add: fork_blocks_def get_block_snapshot_def)

text \<open>
  C24: a fork is the document again under the new context.  In any document, under each identifier of the
  new context the fork shows the live block of the original that has this principal and sequence number,
  with the context of the block, of its parent and of its tool-call reference replaced; the fork at a
  version shows exactly those created until then; where blocks of several contexts share a principal and
  a sequence number the fork has one of them, the last in the order of the contexts.  When all blocks of
  the document are of its own context, as they are unless a merged payload brought in others, none is lost
  and the fork shows them in the same order.  Both forks satisfy the store invariant, so nothing inserted
  later reuses an identifier.
\<close>

theorem fork_spec:
  assumes "dte_ok D" and "store_ok s"
  shows "store_ok (fork D ctx p s) \<and> store_ok (fork_at_version D ctx p before s)
     \<and> get_block_snapshot D (fork D ctx p s) i = fork_view ctx (live_snapshots D s) i
     \<and> get_block_snapshot D (fork_at_version D ctx p before s) i
         = fork_view ctx (filter (\<lambda>x. bs_created_at x \<le> before) (live_snapshots D s)) i
     \<and> (one_context s \<longrightarrow>
          blocks_ordered D (fork D ctx p s) = map (remap_snapshot ctx) (blocks_ordered D s)
          \<and> blocks_ordered D (fork_at_version D ctx p before s)
             = map (remap_snapshot ctx) (filter (\<lambda>x. bs_created_at x \<le> before) (blocks_ordered D s)))"
proof -
  have all: "filter (\<lambda>b. \<not> bc_deleted b) (map snd (st_blocks s)) = filter (\<lambda>_. True) (map snd (live_entries s))"
    by (simp add: live_entries_def filter_map o_def case_prod_unfold)
  have some: "filter (\<lambda>b. \<not> bc_deleted b \<and> \<not> before < bh_created_at (bc_header b)) (map snd (st_blocks s))
      = filter (\<lambda>b. bh_created_at (bc_header b) \<le> before) (map snd (live_entries s))"
    by (simp add: live_entries_def filter_map o_def case_prod_unfold not_less conj_commute)
  have "blocks_ordered D (fork D ctx p s) = map (remap_snapshot ctx) (blocks_ordered D s)
      \<and> blocks_ordered D (fork_at_version D ctx p before s)
        = map (remap_snapshot ctx) (filter (\<lambda>x. bs_created_at x \<le> before) (blocks_ordered D s))" if "one_context s"
    using fork_unordered [OF assms that all] fork_unordered [OF assms that some]
    by (simp add: fork_def fork_at_version_def blocks_ordered_blocks [OF assms(2)] filter_map o_def)
  moreover have "store_ok (fork D ctx p s)" "store_ok (fork_at_version D ctx p before s)" by (rule store_ok_forks)+
  ultimately show ?thesis
    using all some by (simp add: fork_def fork_at_version_def fork_blocks_shows [OF assms(1)]
      live_snapshots_def filter_map o_def case_prod_unfold)
qed

text \<open>A document with a block of another context, under a principal and a sequence number it has itself.\<close>

definition foreign_note :: BlockSnapshot where
  "foreign_note = builder_order_key ''Z'' (builder_content ''theirs'' (builder_new 3 (BlockId 5 2 0) BlockKind.Text))"

definition mixed_notes :: "string option BlockStore" where
  "mixed_notes = fst (store_merge_ops reference_dte
     \<lparr>sp_block_ops = [], sp_new_blocks = [foreign_note], sp_updated_headers = [], sp_deleted_blocks = []\<rparr> (two_notes 2))"

lemma mixed_notes_ok: "store_ok mixed_notes"
  unfolding mixed_notes_def by (rule safe_okD [OF safe_store_merge_ops two_notes_ok])

theorem fork_spec_witness:
  "store_ok (fork reference_dte 7 9 (two_notes 2))
   \<and> map bs_id (blocks_ordered reference_dte (fork reference_dte 7 9 (two_notes 2))) = [BlockId 7 2 0, BlockId 7 2 1]
   \<and> length (blocks_ordered reference_dte mixed_notes) = 3
   \<and> map_option bs_content (get_block_snapshot reference_dte (fork reference_dte 7 9 mixed_notes) (BlockId 7 2 0)) = Some ''theirs''"
proof -
  have "one_context (two_notes 2)" by code_simp
  with fork_spec [OF reference_dte_ok two_notes_ok [of 2], of 7 9]
  have "store_ok (fork reference_dte 7 9 (two_notes 2))"
    and "blocks_ordered reference_dte (fork reference_dte 7 9 (two_notes 2))
      = map (remap_snapshot 7) (blocks_ordered reference_dte (two_notes 2))" by blast+
  moreover have "length (blocks_ordered reference_dte mixed_notes) = 3" by code_simp
  moreover have "map_option bs_content (fork_view 7 (live_snapshots reference_dte mixed_notes) (BlockId 7 2 0)) = Some ''theirs''"
    by code_simp
  moreover have "get_block_snapshot reference_dte (fork reference_dte 7 9 mixed_notes) (BlockId 7 2 0) =
      fork_view 7 (live_snapshots reference_dte mixed_notes) (BlockId 7 2 0)"
    using fork_spec [OF reference_dte_ok mixed_notes_ok] by blast
  moreover have "map bs_id (map (remap_snapshot 7) (blocks_ordered reference_dte (two_notes 2)))
      = [BlockId 7 2 0, BlockId 7 2 1]" by code_simp
  ultimately show ?thesis by simp
qed

text \<open>
  A filtered fork numbers the blocks created until the given time in document order, drops the
  positions outside the selection and then the blocks the filter excludes, and forks the rest.
\<close>

theorem fork_filtered_spec:
  assumes "dte_ok D" and "store_ok s" and "one_context s"
  shows "store_ok (fork_filtered D U ctx p before f s)
     \<and> blocks_ordered D (fork_filtered D U ctx p before f s) =
         map (remap_snapshot ctx) (map snd (filter (fork_keeps U f)
           (enumerate 0 (filter (\<lambda>x. bs_created_at x \<le> before) (blocks_ordered D s)))))"
proof -
  let ?univ = "filter (\<lambda>b. bh_created_at (bc_header b) \<le> before) (document_blocks s)"
  let ?P = "\<lambda>(pos, b). fork_keeps U f (pos, content_snapshot D b)"
  have pass: "fork_passing D U f ?univ = map snd (filter ?P (enumerate 0 ?univ))"
    unfolding fork_passing_def fork_keeps_def fst_conv snd_conv by (rule refl)
  have "selects (map snd (filter ?P (enumerate 0 ?univ))) (document_blocks s)"
    by (rule selects_trans [OF selects_positions selects_filter])
  note sel = fork_selection(2,3) [OF assms this, of ctx p]
  have "map (content_snapshot D) (map snd (filter ?P (enumerate 0 ?univ)))
      = map snd (filter (fork_keeps U f) (enumerate 0 (map (content_snapshot D) ?univ)))"
    by (simp add: enumerate_map filter_map o_def case_prod_unfold)
  moreover have "filter (\<lambda>x. bs_created_at x \<le> before) (blocks_ordered D s) = map (content_snapshot D) ?univ"
    by (simp add: blocks_ordered_blocks [OF assms(2)] filter_map o_def)
  ultimately show ?thesis
    unfolding fork_filtered_def fork_universe_blocks [OF assms(2)] pass using sel by (simp only:)
qed

definition second_only :: ForkBlockFilter where
  "second_only = \<lparr>ff_exclude_compacted = True, ff_exclude_kinds = {}, ff_exclude_roles = {},
     ff_exclude_block_ids = {}, ff_selection = Some [(1, 2)]\<rparr>"

theorem fork_filtered_spec_witness:
  "store_ok (fork_filtered reference_dte reference_uuid_lib 7 9 100 second_only (two_notes 2))
   \<and> map bs_id (blocks_ordered reference_dte
        (fork_filtered reference_dte reference_uuid_lib 7 9 100 second_only (two_notes 2))) = [BlockId 7 2 1]"
proof -
  have "one_context (two_notes 2)" by code_simp
  note spec = fork_filtered_spec [OF reference_dte_ok two_notes_ok this, of reference_uuid_lib 7 9 100 second_only]
  have "map bs_id (map (remap_snapshot 7) (map snd (filter (fork_keeps reference_uuid_lib second_only)
      (enumerate 0 (filter (\<lambda>x. bs_created_at x \<le> 100) (blocks_ordered reference_dte (two_notes 2)))))))
    = [BlockId 7 2 1]" by code_simp
  with spec show ?thesis by (simp only:)
qed

section \<open>The clock of a fork\<close>

text \<open>
  A fork copies headers with their timestamps but starts its clock at zero.  In this run a note is
  written and marked running (timestamp 2), the context is forked and the fork replicated; the
  note is then marked done in the fork and the change sent on.
\<close>

definition running_note :: "string option BlockStore" where
  "running_note = fst (store_set_status (BlockId 1 2 0) Status.Running (fst (insert_note 2 None (store_new 1 2))))"

definition forked_note :: "string option BlockStore" where
  "forked_note = fork reference_dte 7 9 running_note"

definition fork_replica :: "string option BlockStore" where
  "fork_replica = fst (store_merge_ops reference_dte (store_ops_since reference_dte Map.empty forked_note) (store_new 7 5))"

definition fork_marked :: "string option BlockStore" where
  "fork_marked = fst (store_set_status (BlockId 7 2 0) Status.Done forked_note)"

text \<open>Merging a payload that only updates one header.\<close>

lemma merge_block_ops_header:
  "map_option bc_header (bt_get (st_blocks (fst (merge_block_ops D ops s had))) i)
     = map_option bc_header (bt_get (st_blocks s) i)"
proof (induction ops arbitrary: s had)
  case (Cons io ops)
  obtain j u where io: "io = (j, u)" by force
  show ?case
  proof (cases "bt_get (st_blocks s) j")
    case None
    with Cons io show ?thesis by simp
  next
    case (Some b)
    obtain b' r where m: "content_merge_ops D u b = (b', r)" by force
    let ?s = "s\<lparr>st_blocks := bt_modify j (\<lambda>_. b') (st_blocks s)\<rparr>"
    have "bc_header b' = bc_header b" using content_merge_ops_frame [of D u b] m by auto
    with Some have "map_option bc_header (bt_get (st_blocks ?s) i) = map_option bc_header (bt_get (st_blocks s) i)"
      by (auto simp: bt_get_modify)
    with Cons Some m io show ?thesis by (cases r) simp_all
  qed
qed simp

lemma merge_one_header:
  assumes "sp_new_blocks p = []" and "sp_deleted_blocks p = []" and "sp_updated_headers p = [h]"
    and "bt_get (st_blocks s) (bh_id h) = Some b"
  shows "map_option bc_header (bt_get (st_blocks (fst (store_merge_ops D p s))) (bh_id h))
     = Some (bc_header (merge_header h b))"
proof -
  let ?s = "s\<lparr>st_blocks := bt_modify (bh_id h) (merge_header h) (st_blocks s)\<rparr>"
  obtain s' had e where m: "merge_block_ops D (sp_block_ops p) ?s False = (s', had, e)" by (metis prod_cases3)
  have "st_blocks (fst (store_merge_ops D p s)) = st_blocks s'"
    using m by (simp add: store_merge_ops_def Let_def assms(1-3) merge_remote_header_def merge_clock_def split: option.split)
  then show ?thesis
    using merge_block_ops_header [of D "sp_block_ops p" ?s False "bh_id h"] m assms(4)
    by (simp add: bt_get_modify)
qed

lemma merge_header_status:
  "bh_status (bc_header (merge_header h b)) =
     (if field_wins (bh_status_at h) (bh_status_at (bc_header b)) (bh_status h) (bh_status (bc_header b))
      then bh_status h else bh_status (bc_header b))"
  by (simp add: merge_header_def Let_def merge_status_def merge_collapsed_def merge_ephemeral_def
      merge_excluded_def merge_compacted_def merge_tool_meta_def merge_content_type_def)

definition fork_delta :: "string option SyncPayload" where
  "fork_delta = store_ops_since reference_dte (store_frontier reference_dte fork_replica) fork_marked"

definition replica_updated :: "string option BlockStore" where
  "replica_updated = fst (store_merge_ops reference_dte fork_delta fork_replica)"

lemma fork_delta_blocks: "sp_new_blocks fork_delta = [] \<and> sp_deleted_blocks fork_delta = []"
  by code_simp

lemma fork_delta_headers:
  "map (\<lambda>h. (bh_id h, bh_status h, bh_status_at h)) (sp_updated_headers fork_delta) = [(BlockId 7 2 0, Status.Done, 1)]"
  by code_simp

lemma fork_replica_block:
  "map_option (\<lambda>b. (bc_deleted b, bh_status (bc_header b), bh_status_at (bc_header b)))
     (bt_get (st_blocks fork_replica) (BlockId 7 2 0)) = Some (False, Status.Running, 2)"
  by code_simp

text \<open>
  C38: a status written in a fork can be lost.  The note is done in the fork; its write carries
  timestamp 1, below the timestamp 2 that the copied header already has, so the replica keeps the
  old status: the two stores have exchanged everything and disagree.
\<close>

theorem fork_write_lost:
  "map_option bs_status (get_block_snapshot reference_dte fork_marked (BlockId 7 2 0)) = Some Status.Done
   \<and> map_option (\<lambda>b. bh_status (bc_header b)) (bt_get (st_blocks replica_updated) (BlockId 7 2 0)) = Some Status.Running"
proof
  show "map_option bs_status (get_block_snapshot reference_dte fork_marked (BlockId 7 2 0)) = Some Status.Done"
    by code_simp
  obtain h where h: "sp_updated_headers fork_delta = [h]" "bh_id h = BlockId 7 2 0" "bh_status h = Status.Done"
      "bh_status_at h = 1"
    using fork_delta_headers by (auto simp: map_eq_Cons_conv)
  obtain b where b: "bt_get (st_blocks fork_replica) (bh_id h) = Some b"
      "bh_status (bc_header b) = Status.Running" "bh_status_at (bc_header b) = 2"
    using fork_replica_block h(2) by auto
  have "map_option bc_header (bt_get (st_blocks replica_updated) (BlockId 7 2 0)) = Some (bc_header (merge_header h b))"
    using merge_one_header [OF _ _ h(1) b(1)] fork_delta_blocks h(2) by (simp add: replica_updated_def)
  then have "map_option (\<lambda>b. bh_status (bc_header b)) (bt_get (st_blocks replica_updated) (BlockId 7 2 0))
      = Some (bh_status (bc_header (merge_header h b)))" by auto
  then show "map_option (\<lambda>b. bh_status (bc_header b)) (bt_get (st_blocks replica_updated) (BlockId 7 2 0)) = Some Status.Running"
    by (simp add: merge_header_status field_wins_def h b)
qed

end
