(* ===== verification/Conversation_DAG.thy ===== *)
theory Conversation_DAG
  imports Store_Props
begin

text \<open>
  The tree view of a conversation, \<open>crates/kaijutsu-crdt/src/dag.rs\<close>.  A \<open>ConversationDAG\<close> is
  computed from the ordered snapshots of a store: roots, children per parent, blocks by
  identifier.  Its hash maps are only read by key, so they are modelled as ordered maps.

  The depth-first and the breadth-first iterator run the same loop over a worklist whose front is
  popped; they differ in where the children of a block go.  \<open>walk_next\<close> is that loop; the locale
  \<open>worklist\<close> states what it needs of the way of adding children, and holds the proof that a
  traversal yields every reachable block once, with its depth.
\<close>

section \<open>Model\<close>

record ConversationDAG =
  dag_roots :: "BlockId list"
  dag_children :: "(BlockId, BlockId list) btree"
  dag_blocks :: "(BlockId, BlockSnapshot) btree"

definition dag_get_children :: "ConversationDAG \<Rightarrow> BlockId \<Rightarrow> BlockId list" where
  "dag_get_children dag i = (case bt_get (dag_children dag) i of Some cs \<Rightarrow> cs | None \<Rightarrow> [])"

definition add_snapshot :: "BlockSnapshot \<Rightarrow> ConversationDAG \<Rightarrow> ConversationDAG" where
  "add_snapshot snap dag =
     (let dag = (case bs_parent_id snap of
                   Some p \<Rightarrow> dag\<lparr>dag_children := bt_insert p (dag_get_children dag p @ [bs_id snap]) (dag_children dag)\<rparr>
                 | None \<Rightarrow> dag\<lparr>dag_roots := dag_roots dag @ [bs_id snap]\<rparr>)
      in dag\<lparr>dag_blocks := bt_insert (bs_id snap) snap (dag_blocks dag)\<rparr>)"

definition from_snapshots :: "BlockSnapshot list \<Rightarrow> ConversationDAG" where
  "from_snapshots snaps = fold add_snapshot snaps \<lparr>dag_roots = [], dag_children = [], dag_blocks = []\<rparr>"

definition from_store :: "('d, 'o, 'f) dte \<Rightarrow> 'd BlockStore \<Rightarrow> ConversationDAG" where
  "from_store D s = from_snapshots (blocks_ordered D s)"

definition dag_get :: "ConversationDAG \<Rightarrow> BlockId \<Rightarrow> BlockSnapshot option" where
  "dag_get dag i = bt_get (dag_blocks dag) i"

definition dag_is_empty :: "ConversationDAG \<Rightarrow> bool" where
  "dag_is_empty dag \<longleftrightarrow> dag_blocks dag = []"

definition dag_len :: "ConversationDAG \<Rightarrow> usize" where
  "dag_len dag = length (dag_blocks dag)"

subsection \<open>Iterators\<close>

type_synonym work = "(usize \<times> BlockId) list"

text \<open>
  One call of \<open>next\<close>: the item, the remaining work (front first) and the visited identifiers.
\<close>

fun walk_next ::
  "(work \<Rightarrow> work \<Rightarrow> work) \<Rightarrow> ConversationDAG \<Rightarrow> work \<Rightarrow> BlockId list
    \<Rightarrow> (usize \<times> BlockSnapshot) option \<times> work \<times> BlockId list" where
  "walk_next push dag [] visited = (None, [], visited)"
| "walk_next push dag ((d, i) # w) visited =
     (if i \<in> set visited then walk_next push dag w visited
      else if MAX_DAG_DEPTH < length (i # visited) then (None, w, i # visited)
      else case dag_get dag i of
             Some b \<Rightarrow> (Some (d, b), push (map (\<lambda>c. (d + 1, c)) (dag_get_children dag i)) w, i # visited)
           | None \<Rightarrow> walk_next push dag w (i # visited))"

lemma walk_next_visited:
  "walk_next push dag w visited = (Some x, w', visited') \<Longrightarrow>
   length visited < length visited' \<and> length visited' \<le> MAX_DAG_DEPTH"
  by (induction push dag w visited rule: walk_next.induct) (auto split: if_splits option.splits)

text \<open>Collecting an iterator: every item adds a visited identifier, of which there are at most
  \<^const>\<open>MAX_DAG_DEPTH\<close>.\<close>

function walk_all ::
  "(work \<Rightarrow> work \<Rightarrow> work) \<Rightarrow> ConversationDAG \<Rightarrow> work \<Rightarrow> BlockId list \<Rightarrow> (usize \<times> BlockSnapshot) list" where
  "walk_all push dag w visited =
     (case walk_next push dag w visited of
        (None, _, _) \<Rightarrow> []
      | (Some x, w', visited') \<Rightarrow> x # walk_all push dag w' visited')"
  by pat_completeness auto
termination
  by (relation "measure (\<lambda>(_, _, _, visited). MAX_DAG_DEPTH - length visited)")
    (auto dest!: walk_next_visited [OF sym])

text \<open>
  The depth-first stack is kept with its top in front: pushing the children in reverse leaves
  them in order before the rest.
\<close>

definition dfs_push :: "work \<Rightarrow> work \<Rightarrow> work" where
  "dfs_push cs stack = fold (\<lambda>c st. c # st) (rev cs) stack"

definition bfs_push :: "work \<Rightarrow> work \<Rightarrow> work" where
  "bfs_push cs queue = fold (\<lambda>c q. q @ [c]) cs queue"

definition iter_dfs :: "ConversationDAG \<Rightarrow> (usize \<times> BlockSnapshot) list" where
  "iter_dfs dag = walk_all dfs_push dag (dfs_push (map (\<lambda>i. (0, i)) (dag_roots dag)) []) []"

definition iter_bfs :: "ConversationDAG \<Rightarrow> (usize \<times> BlockSnapshot) list" where
  "iter_bfs dag = walk_all bfs_push dag (map (\<lambda>i. (0, i)) (dag_roots dag)) []"

function subtree_loop :: "ConversationDAG \<Rightarrow> BlockId list \<Rightarrow> BlockId list \<Rightarrow> BlockSnapshot list" where
  "subtree_loop dag [] visited = []"
| "subtree_loop dag (i # stack) visited =
     (if i \<in> set visited then subtree_loop dag stack visited
      else if MAX_DAG_DEPTH < length (i # visited) then []
      else case dag_get dag i of
             Some b \<Rightarrow> b # subtree_loop dag (fold (\<lambda>c st. c # st) (rev (dag_get_children dag i)) stack) (i # visited)
           | None \<Rightarrow> subtree_loop dag stack (i # visited))"
  by pat_completeness auto
termination
  by (relation "measures [\<lambda>(_, _, visited). Suc MAX_DAG_DEPTH - length visited, \<lambda>(_, stack, _). length stack]") auto

definition subtree :: "ConversationDAG \<Rightarrow> BlockId \<Rightarrow> BlockSnapshot list" where
  "subtree dag root = subtree_loop dag [root] []"

subsection \<open>Ancestry\<close>

text \<open>The loops of \<open>depth\<close> and \<open>ancestors\<close>; the first number counts down from \<^const>\<open>MAX_DAG_DEPTH\<close>.\<close>

fun depth_loop :: "ConversationDAG \<Rightarrow> nat \<Rightarrow> BlockSnapshot option \<Rightarrow> usize" where
  "depth_loop dag n None = 0"
| "depth_loop dag 0 (Some b) = 0"
| "depth_loop dag (Suc n) (Some b) =
     (case bs_parent_id b of Some p \<Rightarrow> depth_loop dag n (dag_get dag p) + 1 | None \<Rightarrow> 0)"

definition dag_depth :: "ConversationDAG \<Rightarrow> BlockId \<Rightarrow> usize" where
  "dag_depth dag i = depth_loop dag MAX_DAG_DEPTH (dag_get dag i)"

fun dag_ancestors_loop :: "ConversationDAG \<Rightarrow> nat \<Rightarrow> BlockSnapshot option \<Rightarrow> BlockSnapshot list" where
  "dag_ancestors_loop dag n None = []"
| "dag_ancestors_loop dag 0 (Some b) = []"
| "dag_ancestors_loop dag (Suc n) (Some b) =
     (case bs_parent_id b of
        Some p \<Rightarrow>
          (case dag_get dag p of
             Some parent \<Rightarrow> parent # dag_ancestors_loop dag n (Some parent)
           | None \<Rightarrow> [])
      | None \<Rightarrow> [])"

definition dag_ancestors :: "ConversationDAG \<Rightarrow> BlockId \<Rightarrow> BlockSnapshot list" where
  "dag_ancestors dag i = dag_ancestors_loop dag MAX_DAG_DEPTH (dag_get dag i)"

section \<open>The index\<close>

lemma dag_children_get: "bt_get (dag_children dag) i = Some cs \<Longrightarrow> dag_get_children dag i = cs"
  by (simp add: dag_get_children_def)

text \<open>What the three maps hold, in terms of the snapshots.\<close>

lemma from_snapshots_spec:
  "dag_roots (from_snapshots snaps) = map bs_id (filter (\<lambda>x. bs_parent_id x = None) snaps)
   \<and> dag_get_children (from_snapshots snaps) p = map bs_id (filter (\<lambda>x. bs_parent_id x = Some p) snaps)
   \<and> dag_get (from_snapshots snaps) i = map_of (map (\<lambda>x. (bs_id x, x)) (rev snaps)) i"
proof (induction snaps arbitrary: p i rule: rev_induct)
  case Nil
  show ?case by (simp add: from_snapshots_def dag_get_children_def dag_get_def bt_get_def)
next
  case (snoc x snaps)
  let ?dag = "from_snapshots snaps"
  have step: "from_snapshots (snaps @ [x]) = add_snapshot x ?dag" by (simp add: from_snapshots_def)
  have blocks: "dag_blocks (add_snapshot x ?dag) = bt_insert (bs_id x) x (dag_blocks ?dag)"
    by (simp add: add_snapshot_def Let_def split: option.split)
  have "dag_get_children (add_snapshot x ?dag) p =
      dag_get_children ?dag p @ (if bs_parent_id x = Some p then [bs_id x] else [])"
    by (auto simp: dag_get_children_def add_snapshot_def Let_def bt_get_insert split: option.splits)
  moreover have "dag_roots (add_snapshot x ?dag) = dag_roots ?dag @ (if bs_parent_id x = None then [bs_id x] else [])"
    by (simp add: add_snapshot_def Let_def split: option.split)
  moreover have "dag_get (add_snapshot x ?dag) i = (if i = bs_id x then Some x else dag_get ?dag i)"
    by (simp add: dag_get_def blocks bt_get_insert)
  ultimately show ?case using snoc [of p i] by (simp add: step)
qed

lemma dag_get_snapshots:
  assumes "distinct (map bs_id snaps)"
  shows "dag_get (from_snapshots snaps) i = Some x \<longleftrightarrow> x \<in> set snaps \<and> bs_id x = i"
proof -
  have "distinct (map fst (map (\<lambda>x. (bs_id x, x)) (rev snaps)))"
    using assms by (simp add: o_def flip: rev_map)
  then show ?thesis by (auto simp: from_snapshots_spec map_of_eq_Some_iff)
qed

section \<open>Traversals\<close>

declare walk_all.simps [simp del]

text \<open>Reachability from a list of starting points along children of present blocks, with the distance.\<close>

inductive reach :: "ConversationDAG \<Rightarrow> BlockId list \<Rightarrow> nat \<Rightarrow> BlockId \<Rightarrow> bool" for dag starts where
  start: "i \<in> set starts \<Longrightarrow> reach dag starts 0 i"
| child: "reach dag starts d i \<Longrightarrow> dag_get dag i \<noteq> None \<Longrightarrow> c \<in> set (dag_get_children dag i)
    \<Longrightarrow> reach dag starts (Suc d) c"

definition walk_inv :: "ConversationDAG \<Rightarrow> BlockId list \<Rightarrow> work \<Rightarrow> BlockId list \<Rightarrow> bool" where
  "walk_inv dag S w visited \<longleftrightarrow>
     (\<forall>(d, i) \<in> set w. reach dag S d i \<and> d \<le> length visited)
     \<and> distinct visited
     \<and> set S \<subseteq> set visited \<union> snd ` set w
     \<and> (\<forall>v \<in> set visited. dag_get dag v \<noteq> None \<longrightarrow> set (dag_get_children dag v) \<subseteq> set visited \<union> snd ` set w)
     \<and> (\<forall>v \<in> set visited. \<exists>d. reach dag S d v)"

lemma walk_inv_start: "walk_inv dag S (map (\<lambda>i. (0, i)) S) []"
  by (auto simp: walk_inv_def image_image intro: reach.start)

lemma walk_inv_skip:
  assumes "walk_inv dag S ((d, i) # w) visited" and "i \<in> set visited"
  shows "walk_inv dag S w visited"
proof -
  have "set visited \<union> snd ` set ((d, i) # w) = set visited \<union> snd ` set w" using assms(2) by auto
  with assms(1) show ?thesis unfolding walk_inv_def by simp
qed

lemma walk_inv_dangling:
  assumes "walk_inv dag S ((d, i) # w) visited" and "i \<notin> set visited" and "dag_get dag i = None"
  shows "walk_inv dag S w (i # visited)"
  using assms unfolding walk_inv_def by fastforce

lemma walk_inv_done:
  assumes "walk_inv dag S [] visited" and "reach dag S d j"
  shows "j \<in> set visited"
  using assms(2,1) by induction (auto simp: walk_inv_def)

locale worklist =
  fixes push :: "work \<Rightarrow> work \<Rightarrow> work"
  assumes set_push: "set (push cs w) = set cs \<union> set w"
begin

lemma walk_inv_visit:
  assumes inv: "walk_inv dag S ((d, i) # w) visited" and new: "i \<notin> set visited" and b: "dag_get dag i = Some b"
  shows "walk_inv dag S (push (map (\<lambda>c. (d + 1, c)) (dag_get_children dag i)) w) (i # visited)"
proof -
  let ?w = "push (map (\<lambda>c. (d + 1, c)) (dag_get_children dag i)) w"
  have i: "reach dag S d i" "d \<le> length visited" using inv by (auto simp: walk_inv_def)
  have ids: "snd ` set ?w = set (dag_get_children dag i) \<union> snd ` set w"
    by (simp add: set_push image_Un image_image)
  have "reach dag S (d + 1) c" if "c \<in> set (dag_get_children dag i)" for c
    using reach.child [OF i(1) _ that] b by simp
  then have "\<forall>(e, j) \<in> set ?w. reach dag S e j \<and> e \<le> length (i # visited)"
    using inv i(2) by (auto simp: walk_inv_def set_push intro: le_SucI)
  moreover have "set S \<subseteq> set (i # visited) \<union> snd ` set ?w"
    using inv unfolding ids by (auto simp: walk_inv_def)
  moreover have "\<forall>v \<in> set (i # visited). dag_get dag v \<noteq> None \<longrightarrow>
      set (dag_get_children dag v) \<subseteq> set (i # visited) \<union> snd ` set ?w"
    using inv unfolding ids by (auto simp: walk_inv_def)
  ultimately show ?thesis using inv new i(1) unfolding walk_inv_def by auto
qed

lemma walk_next_Some:
  assumes "walk_next push dag w visited = (Some (d, b), w', visited')" and "walk_inv dag S w visited"
  shows "walk_inv dag S w' visited' \<and> d < length visited' \<and> reach dag S d (hd visited')
     \<and> dag_get dag (hd visited') = Some b
     \<and> (\<exists>skipped. visited' = hd visited' # skipped @ visited \<and> (\<forall>j \<in> set skipped. dag_get dag j = None))"
  using assms
proof (induction w arbitrary: visited)
  case (Cons di w)
  obtain e i where di: "di = (e, i)" by force
  show ?case
  proof (cases "i \<in> set visited")
    case True
    with Cons di show ?thesis using walk_inv_skip by fastforce
  next
    case new: False
    show ?thesis
    proof (cases "dag_get dag i")
      case None
      note inv = walk_inv_dangling [OF Cons.prems(2) [unfolded di] new None]
      have "walk_next push dag w (i # visited) = (Some (d, b), w', visited')"
        using Cons.prems(1) di new None by (auto split: if_splits)
      from Cons.IH [OF this inv] obtain skipped where
        IH: "walk_inv dag S w' visited'" "d < length visited'" "reach dag S d (hd visited')"
          "dag_get dag (hd visited') = Some b"
          "visited' = hd visited' # skipped @ i # visited" "\<forall>j \<in> set skipped. dag_get dag j = None"
        by blast
      have "visited' = hd visited' # (skipped @ [i]) @ visited" using IH(5) by simp
      moreover have "\<forall>j \<in> set (skipped @ [i]). dag_get dag j = None" using IH(6) None by simp
      ultimately show ?thesis using IH(1-4) by blast
    next
      case (Some c)
      have eq: "c = b" "e = d" "w' = push (map (\<lambda>c. (d + 1, c)) (dag_get_children dag i)) w" "visited' = i # visited"
        using Cons.prems(1) di new Some by (auto split: if_splits)
      have "reach dag S d i" "d \<le> length visited" using Cons.prems(2) di eq(2) by (auto simp: walk_inv_def)
      with walk_inv_visit [OF Cons.prems(2) [unfolded di] new Some] Some eq show ?thesis by simp
    qed
  qed
qed simp

lemma walk_next_None:
  assumes "walk_next push dag w visited = (None, w', visited')" and "walk_inv dag S w visited"
  shows "(MAX_DAG_DEPTH < length visited' \<and> distinct visited' \<and> (\<forall>v \<in> set visited'. \<exists>d. reach dag S d v))
     \<or> (\<forall>d j. reach dag S d j \<and> dag_get dag j \<noteq> None \<longrightarrow> j \<in> set visited)"
  using assms
proof (induction w arbitrary: visited)
  case Nil
  then show ?case using walk_inv_done by blast
next
  case (Cons di w)
  obtain e i where di: "di = (e, i)" by force
  show ?case
  proof (cases "i \<in> set visited")
    case True
    with Cons di show ?thesis using walk_inv_skip by fastforce
  next
    case new: False
    have i: "reach dag S e i" using Cons.prems(2) di by (simp add: walk_inv_def)
    show ?thesis
    proof (cases "MAX_DAG_DEPTH < length (i # visited)")
      case True
      then have "visited' = i # visited" using Cons.prems(1) di new by simp
      with True Cons.prems(2) new i show ?thesis by (auto simp: walk_inv_def)
    next
      case False
      then have None: "dag_get dag i = None" and "walk_next push dag w (i # visited) = (None, w', visited')"
        using Cons.prems(1) di new by (auto split: option.splits)
      from Cons.IH [OF this(2) walk_inv_dangling [OF Cons.prems(2) [unfolded di] new None]]
      show ?thesis
      proof (rule disj_forward)
        assume "\<forall>d j. reach dag S d j \<and> dag_get dag j \<noteq> None \<longrightarrow> j \<in> set (i # visited)"
        with None show "\<forall>d j. reach dag S d j \<and> dag_get dag j \<noteq> None \<longrightarrow> j \<in> set visited"
          by (metis set_ConsD)
      qed
    qed
  qed
qed

text \<open>The items of a whole traversal.\<close>

lemma walk_all_cases:
  obtains (stop) w' visited' where "walk_next push dag w visited = (None, w', visited')"
      "walk_all push dag w visited = []"
  | (item) d b w' visited' where "walk_next push dag w visited = (Some (d, b), w', visited')"
      "walk_all push dag w visited = (d, b) # walk_all push dag w' visited'"
      "MAX_DAG_DEPTH - length visited' < MAX_DAG_DEPTH - length visited" "length visited' \<le> MAX_DAG_DEPTH"
proof (cases "walk_next push dag w visited")
  case (fields x w' visited')
  show thesis
  proof (cases x)
    case None
    with fields show thesis by (intro stop) (simp_all add: walk_all.simps [of push dag w visited])
  next
    case (Some db)
    obtain d b where "db = (d, b)" by force
    with fields Some have nx: "walk_next push dag w visited = (Some (d, b), w', visited')" by simp
    then have "length visited < length visited'" "length visited' \<le> MAX_DAG_DEPTH"
      using walk_next_visited by blast+
    then show thesis using nx by (intro item) (auto simp: walk_all.simps [of push dag w visited])
  qed
qed

lemma walk_all_sound:
  assumes "walk_inv dag S w visited" and keyed: "\<And>i b. dag_get dag i = Some b \<Longrightarrow> bs_id b = i"
  shows "distinct (map (\<lambda>x. bs_id (snd x)) (walk_all push dag w visited))
     \<and> (\<forall>(d, b) \<in> set (walk_all push dag w visited).
          d < MAX_DAG_DEPTH \<and> reach dag S d (bs_id b) \<and> dag_get dag (bs_id b) = Some b \<and> bs_id b \<notin> set visited)"
  using assms(1)
proof (induction "MAX_DAG_DEPTH - length visited" arbitrary: w visited rule: less_induct)
  case less
  show ?case
  proof (cases w visited rule: walk_all_cases [where dag = dag])
    case (item d b w' visited')
    obtain i skipped where v: "visited' = i # skipped @ visited" "reach dag S d i" "dag_get dag i = Some b"
        "d < length visited'" "walk_inv dag S w' visited'"
      using walk_next_Some [OF item(1) less.prems] by (metis list.sel(1))
    have i: "i = bs_id b" using keyed [OF v(3)] by simp
    have "i \<notin> set visited" using v(1,5) by (simp add: walk_inv_def)
    moreover have rest: "bs_id c \<notin> set visited'" if "(e, c) \<in> set (walk_all push dag w' visited')" for e c
      using less.hyps [OF item(3) v(5)] that by blast
    then have "bs_id b \<notin> (\<lambda>x. bs_id (snd x)) ` set (walk_all push dag w' visited')"
      using v(1) i by force
    moreover have "d < MAX_DAG_DEPTH" using v(4) item(4) by simp
    ultimately show ?thesis
      using less.hyps [OF item(3) v(5)] v(1-3) unfolding item(2) i by auto
  qed simp
qed

lemma walk_all_complete:
  assumes "walk_inv dag S w visited" and keyed: "\<And>i b. dag_get dag i = Some b \<Longrightarrow> bs_id b = i"
    and fin: "finite {i. \<exists>d. reach dag S d i}" and few: "card {i. \<exists>d. reach dag S d i} \<le> MAX_DAG_DEPTH"
    and "reach dag S d j" and "dag_get dag j = Some b" and "j \<notin> set visited"
  shows "b \<in> snd ` set (walk_all push dag w visited)"
  using assms(1,7)
proof (induction "MAX_DAG_DEPTH - length visited" arbitrary: w visited rule: less_induct)
  case less
  show ?case
  proof (cases w visited rule: walk_all_cases [where dag = dag])
    case (stop w' visited')
    have "\<not> (MAX_DAG_DEPTH < length visited' \<and> distinct visited' \<and> (\<forall>v \<in> set visited'. \<exists>d. reach dag S d v))"
    proof
      assume *: "MAX_DAG_DEPTH < length visited' \<and> distinct visited' \<and> (\<forall>v \<in> set visited'. \<exists>d. reach dag S d v)"
      then have "card (set visited') \<le> card {i. \<exists>d. reach dag S d i}" by (intro card_mono [OF fin]) blast
      with * few show False by (simp add: distinct_card)
    qed
    with walk_next_None [OF stop(1) less.prems(1)] assms(5,6) less.prems(2) show ?thesis by blast
  next
    case (item d' b' w' visited')
    obtain i skipped where v: "visited' = i # skipped @ visited" "dag_get dag i = Some b'"
        "\<forall>k \<in> set skipped. dag_get dag k = None" "walk_inv dag S w' visited'"
      using walk_next_Some [OF item(1) less.prems(1)] by (metis list.sel(1))
    show ?thesis
    proof (cases "j = i")
      case True
      with v(2) assms(6) item(2) show ?thesis by simp
    next
      case False
      with v(1,3) assms(6) less.prems(2) have "j \<notin> set visited'" by auto
      from less.hyps [OF item(3) v(4) this] item(2) show ?thesis by simp
    qed
  qed
qed

end

lemma dfs_push_eq: "dfs_push cs w = cs @ w"
  by (simp add: dfs_push_def fold_Cons_rev)

lemma bfs_push_eq: "bfs_push cs w = w @ cs"
  unfolding bfs_push_def by (induction cs arbitrary: w) simp_all

interpretation dfs: worklist dfs_push
  by unfold_locales (simp add: dfs_push_eq)

interpretation bfs: worklist bfs_push
  by unfold_locales (auto simp: bfs_push_eq)

lemma walk_all_Nil [simp]: "walk_all push dag [] visited = []"
  by (simp add: walk_all.simps)

lemma walk_all_Cons [simp]:
  "walk_all push dag ((d, i) # w) visited =
     (if i \<in> set visited then walk_all push dag w visited
      else if MAX_DAG_DEPTH < length (i # visited) then []
      else case dag_get dag i of
             Some b \<Rightarrow> (d, b) # walk_all push dag (push (map (\<lambda>c. (d + 1, c)) (dag_get_children dag i)) w) (i # visited)
           | None \<Rightarrow> walk_all push dag w (i # visited))"
  by (simp add: walk_all.simps [of push dag "(d, i) # w"] walk_all.simps [of push dag w] split: option.split)

lemma subtree_walk:
  "subtree_loop dag (map snd w) visited = map snd (walk_all dfs_push dag w visited)"
proof (induction dag "map snd w" visited arbitrary: w rule: subtree_loop.induct)
  case (1 dag visited)
  then show ?case by simp
next
  case (2 dag i stack visited)
  then obtain d w' where w: "w = (d, i) # w'" "stack = map snd w'" by (cases w) auto
  let ?cs = "map (\<lambda>c. (d + 1, c)) (dag_get_children dag i)"
  have "fold (\<lambda>c st. c # st) (rev (dag_get_children dag i)) stack = map snd (dfs_push ?cs w')"
    by (simp add: dfs_push_eq w(2) fold_Cons_rev o_def)
  with 2(1-3) w show ?case by (auto split: option.split)
qed

section \<open>Rooted blocks\<close>

text \<open>The specification, on the snapshots alone: blocks with a complete chain of parents to a root.\<close>

inductive rooted :: "BlockSnapshot list \<Rightarrow> nat \<Rightarrow> BlockSnapshot \<Rightarrow> bool" for snaps where
  root: "b \<in> set snaps \<Longrightarrow> bs_parent_id b = None \<Longrightarrow> rooted snaps 0 b"
| child: "rooted snaps d p \<Longrightarrow> b \<in> set snaps \<Longrightarrow> bs_parent_id b = Some (bs_id p) \<Longrightarrow> rooted snaps (Suc d) b"

inductive descends :: "BlockSnapshot list \<Rightarrow> BlockId \<Rightarrow> nat \<Rightarrow> BlockSnapshot \<Rightarrow> bool" for snaps anchor where
  self: "b \<in> set snaps \<Longrightarrow> bs_id b = anchor \<Longrightarrow> descends snaps anchor 0 b"
| below: "descends snaps anchor d p \<Longrightarrow> b \<in> set snaps \<Longrightarrow> bs_parent_id b = Some (bs_id p) \<Longrightarrow> descends snaps anchor (Suc d) b"

inductive_simps rooted_0: "rooted snaps 0 b"
inductive_simps rooted_Suc: "rooted snaps (Suc d) b"

lemma rooted_mem: "rooted snaps d b \<Longrightarrow> b \<in> set snaps"
  by (cases rule: rooted.cases)

lemma descends_mem: "descends snaps anchor d b \<Longrightarrow> b \<in> set snaps"
  by (cases rule: descends.cases)

lemma unique_ids: "distinct (map bs_id snaps) \<Longrightarrow> x \<in> set snaps \<Longrightarrow> y \<in> set snaps \<Longrightarrow> bs_id x = bs_id y \<Longrightarrow> x = y"
  by (auto simp: distinct_map inj_on_def)

lemma child_ids: "c \<in> set (dag_get_children (from_snapshots snaps) p) \<longleftrightarrow>
    (\<exists>b \<in> set snaps. bs_id b = c \<and> bs_parent_id b = Some p)"
  by (auto simp: from_snapshots_spec)

lemma reach_rooted:
  assumes d: "distinct (map bs_id snaps)"
  shows "reach (from_snapshots snaps) (dag_roots (from_snapshots snaps)) n i \<longleftrightarrow> (\<exists>b. rooted snaps n b \<and> bs_id b = i)"
proof
  let ?dag = "from_snapshots snaps"
  assume "reach ?dag (dag_roots ?dag) n i"
  then show "\<exists>b. rooted snaps n b \<and> bs_id b = i"
  proof induction
    case (start i)
    then show ?case by (auto simp: from_snapshots_spec intro: rooted.root)
  next
    case (child n i c)
    then show ?case by (auto simp: child_ids intro: rooted.child)
  qed
next
  let ?dag = "from_snapshots snaps"
  have "reach ?dag (dag_roots ?dag) n (bs_id b)" if "rooted snaps n b" for b
    using that
  proof induction
    case (root b)
    then show ?case by (intro reach.start) (auto simp: from_snapshots_spec)
  next
    case (child n p b)
    have "dag_get ?dag (bs_id p) = Some p" using dag_get_snapshots [OF d] rooted_mem [OF child(1)] by simp
    with child show ?case by (intro reach.child [of _ _ n "bs_id p"]) (auto simp: child_ids)
  qed
  then show "\<exists>b. rooted snaps n b \<and> bs_id b = i \<Longrightarrow> reach ?dag (dag_roots ?dag) n i" by blast
qed

lemma reach_descends:
  assumes d: "distinct (map bs_id snaps)" and anchor: "anchor \<in> bs_id ` set snaps"
  shows "reach (from_snapshots snaps) [anchor] n i \<longleftrightarrow> (\<exists>b. descends snaps anchor n b \<and> bs_id b = i)"
proof
  let ?dag = "from_snapshots snaps"
  assume "reach ?dag [anchor] n i"
  then show "\<exists>b. descends snaps anchor n b \<and> bs_id b = i"
  proof induction
    case (start i)
    then show ?case using anchor by (auto intro: descends.self)
  next
    case (child n i c)
    then show ?case by (auto simp: child_ids intro: descends.below)
  qed
next
  let ?dag = "from_snapshots snaps"
  have "reach ?dag [anchor] n (bs_id b)" if "descends snaps anchor n b" for b
    using that
  proof induction
    case (self b)
    then show ?case by (intro reach.start) simp
  next
    case (below n p b)
    have "dag_get ?dag (bs_id p) = Some p" using dag_get_snapshots [OF d] descends_mem [OF below(1)] by simp
    with below show ?case by (intro reach.child [of _ _ n "bs_id p"]) (auto simp: child_ids)
  qed
  then show "\<exists>b. descends snaps anchor n b \<and> bs_id b = i \<Longrightarrow> reach ?dag [anchor] n i" by blast
qed

lemma rooted_depth:
  assumes d: "distinct (map bs_id snaps)" and "rooted snaps n b" and "n \<le> k"
  shows "depth_loop (from_snapshots snaps) k (Some b) = n
     \<and> length (dag_ancestors_loop (from_snapshots snaps) k (Some b)) = n"
  using assms(2,3)
proof (induction arbitrary: k)
  case (root b)
  then show ?case by (cases k) simp_all
next
  case (child n p b)
  then obtain m where k: "k = Suc m" "n \<le> m" by (cases k) auto
  have "dag_get (from_snapshots snaps) (bs_id p) = Some p"
    using dag_get_snapshots [OF d] rooted_mem [OF child(1)] by simp
  with child k show ?case by simp
qed

lemma rooted_set:
  assumes d: "distinct (map bs_id snaps)"
  defines "dag \<equiv> from_snapshots snaps"
  shows "{i. \<exists>n. reach dag (dag_roots dag) n i} \<subseteq> bs_id ` set snaps"
  using reach_rooted [OF d] rooted_mem by (force simp: dag_def)

lemma card_ids: "A \<subseteq> bs_id ` set snaps \<Longrightarrow> finite A \<and> card A \<le> length snaps"
  by (metis List.finite_set card_image_le card_length card_mono finite_imageI finite_subset le_trans)

text \<open>Both traversals, as the interpretations of the worklist contract give them.\<close>

lemma traversal_set:
  assumes walk: "worklist push" and d: "distinct (map bs_id snaps)" and few: "length snaps \<le> MAX_DAG_DEPTH"
  defines "dag \<equiv> from_snapshots snaps"
  defines "xs \<equiv> walk_all push dag (map (\<lambda>i. (0, i)) (dag_roots dag)) []"
  shows "set xs = {(n, b). rooted snaps n b}" and "distinct (map (\<lambda>x. bs_id (snd x)) xs)"
    and "\<forall>(n, b) \<in> set xs. dag_depth dag (bs_id b) = n \<and> length (dag_ancestors dag (bs_id b)) = n"
proof -
  have keyed: "bs_id b = i" if "dag_get dag i = Some b" for i b
    using that dag_get_snapshots [OF d] by (simp add: dag_def)
  note inv = walk_inv_start [of dag "dag_roots dag"]
  note sound = worklist.walk_all_sound [OF walk inv keyed, folded xs_def]
  show "distinct (map (\<lambda>x. bs_id (snd x)) xs)" using sound by blast
  have item: "rooted snaps n b \<and> n < MAX_DAG_DEPTH \<and> dag_get dag (bs_id b) = Some b" if "(n, b) \<in> set xs" for n b
  proof -
    from that sound have r: "reach dag (dag_roots dag) n (bs_id b)" and g: "dag_get dag (bs_id b) = Some b"
      and n: "n < MAX_DAG_DEPTH" by auto
    then obtain c where "rooted snaps n c" "bs_id c = bs_id b" using reach_rooted [OF d] by (auto simp: dag_def)
    moreover have "b \<in> set snaps" using g dag_get_snapshots [OF d] by (simp add: dag_def)
    ultimately show ?thesis using unique_ids [OF d rooted_mem] n g by metis
  qed
  have "dag_depth dag (bs_id b) = n \<and> length (dag_ancestors dag (bs_id b)) = n" if "(n, b) \<in> set xs" for n b
    using rooted_depth [OF d, of n b MAX_DAG_DEPTH] item [OF that] by (simp add: dag_depth_def dag_ancestors_def dag_def)
  then show "\<forall>(n, b) \<in> set xs. dag_depth dag (bs_id b) = n \<and> length (dag_ancestors dag (bs_id b)) = n" by blast
  have "(n, b) \<in> set xs" if r: "rooted snaps n b" for n b
  proof -
    have g: "dag_get dag (bs_id b) = Some b"
      using dag_get_snapshots [OF d] rooted_mem [OF r] by (simp add: dag_def)
    have "reach dag (dag_roots dag) n (bs_id b)" using reach_rooted [OF d] r by (auto simp: dag_def)
    moreover have "finite {i. \<exists>n. reach dag (dag_roots dag) n i}" "card {i. \<exists>n. reach dag (dag_roots dag) n i} \<le> MAX_DAG_DEPTH"
      using card_ids [OF rooted_set [OF d]] few by (simp_all add: dag_def)
    ultimately have "b \<in> snd ` set xs"
      using worklist.walk_all_complete [OF walk inv keyed _ _ _ g] by (simp add: xs_def)
    then obtain m where m: "(m, b) \<in> set xs" by force
    then have "rooted snaps m b" "m < MAX_DAG_DEPTH" using item by blast+
    then have "m = n" using rooted_depth [OF d, of _ b "max m n"] r by (metis max.cobounded1 max.cobounded2)
    with m show ?thesis by simp
  qed
  with item show "set xs = {(n, b). rooted snaps n b}" by auto
qed

text \<open>Breadth-first items come by increasing depth: the queue holds at most two levels, in order.\<close>

definition levels :: "work \<Rightarrow> bool" where
  "levels w \<longleftrightarrow> sorted (map fst w) \<and> (\<forall>x \<in> set w. fst x \<le> fst (hd w) + 1)"

lemma levels_tl: "levels (x # w) \<Longrightarrow> levels w"
  by (cases w) (auto simp: levels_def)

lemma levels_push:
  assumes "levels ((d, i) # w)"
  shows "levels (w @ map (\<lambda>c. (d + 1, c)) cs)"
proof -
  have "map fst (map (\<lambda>c. (d + 1, c)) cs) = replicate (length cs) (d + 1)" by (induction cs) simp_all
  then have "sorted (map fst (map (\<lambda>c. (d + 1, c)) cs))" by (simp only: sorted_replicate)
  then show ?thesis using assms by (cases w; cases cs) (auto simp: levels_def sorted_append)
qed

lemma bfs_levels:
  "levels w \<Longrightarrow> sorted (map fst (walk_all bfs_push dag w visited))
     \<and> (\<forall>x \<in> set (walk_all bfs_push dag w visited). fst (hd w) \<le> fst x)"
proof (induction "MAX_DAG_DEPTH - length visited" arbitrary: w visited rule: less_induct)
  case less
  note more = less.hyps
  show ?case using less.prems
  proof (induction w)
    case (Cons di w)
    obtain d i where di: "di = (d, i)" by force
    have le: "d \<le> fst (hd w')" if "w' \<noteq> []" "levels w'" "set w' \<subseteq> set w \<union> (\<lambda>c. (d + 1, c)) ` A" for w' A
      using that Cons.prems hd_in_set [OF that(1)] by (force simp: di levels_def)
    show ?case
    proof (cases "i \<in> set visited \<or> MAX_DAG_DEPTH < length (i # visited)")
      case True
      have "w = [] \<or> d \<le> fst (hd w)" using le [of w "{}"] levels_tl [OF Cons.prems] by auto
      with True Cons.IH [OF levels_tl [OF Cons.prems]] show ?thesis by (auto simp: di) 
    next
      case False
      then have dec: "MAX_DAG_DEPTH - length (i # visited) < MAX_DAG_DEPTH - length visited" by auto
      let ?w = "case dag_get dag i of Some b \<Rightarrow> w @ map (\<lambda>c. (d + 1, c)) (dag_get_children dag i) | None \<Rightarrow> w"
      have lv: "levels ?w"
        using Cons.prems levels_tl levels_push by (auto simp: di split: option.split)
      have "?w = [] \<or> d \<le> fst (hd ?w)"
        using le [of ?w "set (dag_get_children dag i)"] lv by (cases "?w = []") (auto split: option.split)
      moreover have "walk_all bfs_push dag ((d, i) # w) visited =
          (case dag_get dag i of Some b \<Rightarrow> [(d, b)] | None \<Rightarrow> []) @ walk_all bfs_push dag ?w (i # visited)"
        using False bfs_push_eq [of "map (\<lambda>c. (d + 1, c)) (dag_get_children dag i)" w] by (simp split: option.split)
      ultimately show ?thesis using more [OF dec lv] by (force simp: di split: option.splits)
    qed
  qed simp
qed

section \<open>Properties\<close>

text \<open>
  C36: the two traversals of a conversation of at most \<open>MAX_DAG_DEPTH\<close> blocks list the same items,
  each block with a complete chain of parents exactly once, with its depth, which is also what
  \<open>depth\<close> computes and the number of its ancestors; the breadth-first one lists them by depth.
\<close>

theorem dag_traversals:
  assumes "distinct (map bs_id snaps)" and "length snaps \<le> MAX_DAG_DEPTH"
  shows "set (iter_dfs (from_snapshots snaps)) = {(d, b). rooted snaps d b}
     \<and> distinct (map (\<lambda>x. bs_id (snd x)) (iter_dfs (from_snapshots snaps)))
     \<and> mset (iter_bfs (from_snapshots snaps)) = mset (iter_dfs (from_snapshots snaps))
     \<and> sorted (map fst (iter_bfs (from_snapshots snaps)))
     \<and> (\<forall>(d, b) \<in> set (iter_dfs (from_snapshots snaps)).
          dag_depth (from_snapshots snaps) (bs_id b) = d
          \<and> length (dag_ancestors (from_snapshots snaps) (bs_id b)) = d)"
proof -
  let ?dag = "from_snapshots snaps"
  have dfs: "iter_dfs ?dag = walk_all dfs_push ?dag (map (\<lambda>i. (0, i)) (dag_roots ?dag)) []"
    by (simp add: iter_dfs_def dfs_push_eq)
  note D = traversal_set [OF dfs.worklist_axioms assms, folded dfs]
  note B = traversal_set [OF bfs.worklist_axioms assms, folded iter_bfs_def]
  have "distinct (iter_dfs ?dag)" "distinct (iter_bfs ?dag)"
    using D(2) B(2) by (simp_all add: distinct_map)
  then have "mset (iter_bfs ?dag) = mset (iter_dfs ?dag)"
    using D(1) B(1) by (simp add: set_eq_iff_mset_eq_distinct [symmetric])
  moreover have "levels (map (\<lambda>i. (0, i)) (dag_roots ?dag))"
    by (auto simp: levels_def sorted_iff_nth_mono)
  then have "sorted (map fst (iter_bfs ?dag))" unfolding iter_bfs_def using bfs_levels by blast
  ultimately show ?thesis using D by blast
qed

text \<open>A thread of three notes under one root, and a second root.\<close>

definition thread :: "BlockSnapshot list" where
  "thread = map (\<lambda>(n, p). (builder_new 0 (BlockId 1 2 n) BlockKind.Text)\<lparr>bs_parent_id := map_option (BlockId 1 2) p\<rparr>)
     [(0, None), (1, Some 0), (2, None), (3, Some 1)]"

theorem dag_traversals_witness:
  "map (\<lambda>(d, b). (d, seq (bs_id b))) (iter_dfs (from_snapshots thread)) = [(0, 0), (1, 1), (2, 3), (0, 2)]
   \<and> mset (iter_bfs (from_snapshots thread)) = mset (iter_dfs (from_snapshots thread))"
proof
  show "map (\<lambda>(d, b). (d, seq (bs_id b))) (iter_dfs (from_snapshots thread)) = [(0, 0), (1, 1), (2, 3), (0, 2)]"
    by code_simp
  have "distinct (map bs_id thread)" "length thread \<le> MAX_DAG_DEPTH" by code_simp+
  then show "mset (iter_bfs (from_snapshots thread)) = mset (iter_dfs (from_snapshots thread))"
    using dag_traversals by blast
qed

text \<open>
  The subtree of a block is the block and everything below it, each once.
\<close>

theorem subtree_spec:
  assumes d: "distinct (map bs_id snaps)" and few: "length snaps \<le> MAX_DAG_DEPTH"
    and r: "r \<in> bs_id ` set snaps"
  shows "set (subtree (from_snapshots snaps) r) = {b. \<exists>d. descends snaps r d b}
     \<and> distinct (map bs_id (subtree (from_snapshots snaps) r))"
proof -
  let ?dag = "from_snapshots snaps"
  let ?xs = "walk_all dfs_push ?dag [(0, r)] []"
  have sub: "subtree ?dag r = map snd ?xs" using subtree_walk [of ?dag "[(0, r)]" "[]"] by (simp add: subtree_def)
  have keyed: "bs_id b = i" if "dag_get ?dag i = Some b" for i b using that dag_get_snapshots [OF d] by simp
  have inv: "walk_inv ?dag [r] [(0, r)] []" using walk_inv_start [of ?dag "[r]"] by simp
  note sound = dfs.walk_all_sound [OF inv keyed]
  note reach = reach_descends [OF d r]
  have "{i. \<exists>n. reach ?dag [r] n i} \<subseteq> bs_id ` set snaps"
    using reach descends_mem by force
  from card_ids [OF this] few have fin: "finite {i. \<exists>n. reach ?dag [r] n i}"
    "card {i. \<exists>n. reach ?dag [r] n i} \<le> MAX_DAG_DEPTH" by simp_all
  have "\<exists>n. descends snaps r n b" if "(m, b) \<in> set ?xs" for m b
  proof -
    from that sound have g: "dag_get ?dag (bs_id b) = Some b" and "reach ?dag [r] m (bs_id b)" by auto
    then obtain c where c: "descends snaps r m c" "bs_id c = bs_id b" using reach by auto
    moreover have "b \<in> set snaps" using g dag_get_snapshots [OF d] by simp
    ultimately show ?thesis using unique_ids [OF d descends_mem] by metis
  qed
  moreover have "b \<in> snd ` set ?xs" if b: "descends snaps r n b" for n b
  proof -
    have "dag_get ?dag (bs_id b) = Some b" using dag_get_snapshots [OF d] descends_mem [OF b] by simp
    moreover have "reach ?dag [r] n (bs_id b)" using reach b by auto
    ultimately show ?thesis using dfs.walk_all_complete [OF inv keyed fin] by simp
  qed
  ultimately have "set (subtree ?dag r) = {b. \<exists>n. descends snaps r n b}" unfolding sub by force
  moreover have "distinct (map bs_id (subtree ?dag r))" using sound by (simp add: sub o_def)
  ultimately show ?thesis by simp
qed

theorem subtree_spec_witness:
  "map (\<lambda>b. seq (bs_id b)) (subtree (from_snapshots thread) (BlockId 1 2 1)) = [1, 3]
   \<and> set (subtree (from_snapshots thread) (BlockId 1 2 1)) = {b. \<exists>d. descends thread (BlockId 1 2 1) d b}"
proof
  show "map (\<lambda>b. seq (bs_id b)) (subtree (from_snapshots thread) (BlockId 1 2 1)) = [1, 3]" by code_simp
  have "distinct (map bs_id thread)" "length thread \<le> MAX_DAG_DEPTH" "BlockId 1 2 1 \<in> bs_id ` set thread"
    by code_simp+
  then show "set (subtree (from_snapshots thread) (BlockId 1 2 1)) = {b. \<exists>d. descends thread (BlockId 1 2 1) d b}"
    using subtree_spec by blast
qed

text \<open>A note, a reply to it, and then the note deleted.\<close>

definition orphaned :: "string option BlockStore" where
  "orphaned = fst (delete_block (BlockId 1 2 0)
     (fst (insert_block reference_dte 7 (Some (BlockId 1 2 0)) None Role.User BlockKind.Text ''re'' Status.Done Plain
       (fst (insert_note 2 None (store_new 1 2))))))"

text \<open>
  Deleting a block hides its replies from the tree view.  The reply is live and the store lists
  it, but no traversal of the view reaches it; the view counts it as a block at depth one without
  ancestors.
\<close>

theorem deleted_parent_hides_reply:
  "block_ids_ordered orphaned = [BlockId 1 2 1]
   \<and> iter_dfs (from_store reference_dte orphaned) = []
   \<and> iter_bfs (from_store reference_dte orphaned) = []
   \<and> dag_len (from_store reference_dte orphaned) = 1
   \<and> dag_depth (from_store reference_dte orphaned) (BlockId 1 2 1) = 1
   \<and> dag_ancestors (from_store reference_dte orphaned) (BlockId 1 2 1) = []"
  by code_simp

end
