(* ===== verification/Hyoushigi_Cells.thy ===== *)
theory Hyoushigi_Cells
  imports Blocks
begin

text \<open>
  The data of the timeline engine: \<open>crates/kaijutsu-hyoushigi/src/cell.rs\<close>, \<open>content.rs\<close>,
  \<open>resolver.rs\<close>.

  A cell has a span, a body and a state; a deferred body is a recipe that names a resolver.
  Resolvers are the code of others: the record \<open>Resolver\<close> holds the three methods of the trait,
  which see a context only through the three methods of \<open>ResolverCtx\<close>.  The JSON parameters of a
  recipe are opaque, of type \<open>'j\<close>.  Byte strings are \<^typ>\<open>string\<close>s.
\<close>

section \<open>Content\<close>

type_synonym bytes = string
type_synonym ContentHash = string
type_synonym ContextHash = string

record ContentRef =
  cr_hash :: ContentHash
  cr_mime :: string

section \<open>Cells\<close>

type_synonym ResolverId = string

record ContextQuery =
  cq_lookback :: TickDelta
  cq_ambient_keys :: "string list"

datatype Fallback = Skip | UseLastGood | Literal ContentRef

record 'j Recipe =
  rp_resolver :: ResolverId
  rp_params :: 'j
  rp_query :: ContextQuery
  rp_fallback :: Fallback

datatype 'j Body = Concrete ContentRef | Deferred "'j Recipe"

datatype CellState = Pending | Speculating | Speculated | Committed | Squashed | Failed

definition can_advance_to :: "CellState \<Rightarrow> CellState \<Rightarrow> bool" where
  "can_advance_to s t \<longleftrightarrow>
     (s, t) \<in> {(CellState.Pending, Speculating), (Speculating, Speculated), (Speculating, Squashed),
       (Speculated, Committed), (Speculated, Squashed), (Squashed, Speculating),
       (CellState.Pending, CellState.Failed), (Speculating, CellState.Failed),
       (Speculated, CellState.Failed), (Squashed, CellState.Failed)}"

definition cell_is_terminal :: "CellState \<Rightarrow> bool" where
  "cell_is_terminal s \<longleftrightarrow> s = Committed \<or> s = CellState.Failed"

record 'j Cell =
  cell_span :: Span
  cell_body :: "'j Body"
  cell_state :: CellState
  cell_track :: TrackId
  cell_played_by :: PrincipalId

definition concrete_on :: "Span \<Rightarrow> ContentRef \<Rightarrow> TrackId \<Rightarrow> PrincipalId \<Rightarrow> 'j Cell" where
  "concrete_on sp c tr p =
     \<lparr>cell_span = sp, cell_body = Concrete c, cell_state = Committed, cell_track = tr, cell_played_by = p\<rparr>"

definition deferred_on :: "Span \<Rightarrow> 'j Recipe \<Rightarrow> TrackId \<Rightarrow> PrincipalId \<Rightarrow> 'j Cell" where
  "deferred_on sp r tr p =
     \<lparr>cell_span = sp, cell_body = Deferred r, cell_state = CellState.Pending, cell_track = tr, cell_played_by = p\<rparr>"

definition is_deferred :: "'j Cell \<Rightarrow> bool" where
  "is_deferred c \<longleftrightarrow> (case cell_body c of Deferred _ \<Rightarrow> True | Concrete _ \<Rightarrow> False)"

section \<open>Resolvers\<close>

type_synonym Duration = nat

record 'j Resolution =
  rs_bytes :: bytes
  rs_mime :: string
  rs_emitted :: "'j Cell list"

record ResolverCtx =
  rc_now :: Tick
  rc_ambient :: "string \<Rightarrow> bytes option"
  rc_content_before :: "Tick \<Rightarrow> ContentRef option"

text \<open>\<open>resolve\<close> returns its resolution or the text of \<open>ResolveError::Failed\<close>.\<close>

record 'j Resolver =
  estimate_cost :: "'j \<Rightarrow> ResolverCtx \<Rightarrow> Duration"
  compute_basis :: "'j \<Rightarrow> ResolverCtx \<Rightarrow> ContextHash"
  resolve :: "'j \<Rightarrow> ResolverCtx \<Rightarrow> string + 'j Resolution"

text \<open>
  What the engine takes from outside its crate: the digest of the content store, the identity of
  the transport, and the operations of \<open>f64\<close> and of \<open>Duration\<close> on floating-point numbers, of
  which nothing is assumed.  \<open>Duration::mul_f64\<close> panics on a product that is negative, not finite or too
  large: \<^const>\<open>None\<close>.
\<close>

record 'f engine_env =
  ev_hash :: "bytes \<Rightarrow> ContentHash"
  ev_beat :: PrincipalId
  as_secs_f64 :: "Duration \<Rightarrow> 'f"
  mul_f64 :: "Duration \<Rightarrow> 'f \<Rightarrow> Duration option"
  f_mul :: "'f \<Rightarrow> 'f \<Rightarrow> 'f"
  f_add :: "'f \<Rightarrow> 'f \<Rightarrow> 'f"
  f_sub :: "'f \<Rightarrow> 'f \<Rightarrow> 'f"
  f_floor :: "'f \<Rightarrow> 'f"
  f_ceil :: "'f \<Rightarrow> 'f"
  f_to_i64 :: "'f \<Rightarrow> i64"
  f_zero :: 'f

definition content_ref :: "'f engine_env \<Rightarrow> 'j Resolution \<Rightarrow> ContentRef" where
  "content_ref E r = \<lparr>cr_hash = ev_hash E (rs_bytes r), cr_mime = rs_mime r\<rparr>"

text \<open>The most recent content among cells, as \<open>max_by_key\<close> finds it: the last of the greatest.\<close>

fun max_by_start :: "(Tick \<times> 'a) list \<Rightarrow> (Tick \<times> 'a) option" where
  "max_by_start [] = None"
| "max_by_start (x # xs) =
     (case max_by_start xs of
        None \<Rightarrow> Some x
      | Some y \<Rightarrow> if fst x \<le> fst y then Some y else Some x)"

definition contents :: "'j Cell list \<Rightarrow> (Tick \<times> ContentRef) list" where
  "contents cs = List.map_filter (\<lambda>c. case cell_body c of
       Concrete r \<Rightarrow> Some (span_start (cell_span c), r) | Deferred _ \<Rightarrow> None) cs"

definition content_before :: "'j Cell list \<Rightarrow> Tick \<Rightarrow> ContentRef option" where
  "content_before committed t =
     map_option snd (max_by_start (contents (filter (\<lambda>c. span_start (cell_span c) \<le> t) committed)))"

section \<open>Facts\<close>

lemma committed_is_final: "can_advance_to s t \<Longrightarrow> \<not> cell_is_terminal s"
  by (auto simp: can_advance_to_def cell_is_terminal_def)

lemma max_by_start_None [simp]: "max_by_start xs = None \<longleftrightarrow> xs = []"
  by (cases xs) (auto split: option.splits)

lemma max_by_start_mem: "max_by_start xs = Some x \<Longrightarrow> x \<in> set xs \<and> (\<forall>y \<in> set xs. fst y \<le> fst x)"
  by (induction xs arbitrary: x) (auto split: option.splits if_splits)

lemma mem_contents: "(t, r) \<in> set (contents cs) \<longleftrightarrow>
    (\<exists>c \<in> set cs. cell_body c = Concrete r \<and> span_start (cell_span c) = t)"
  by (force simp: contents_def map_filter_def split: Body.splits)

end
