(* ===== verification/Hyoushigi_Engine.thy ===== *)
theory Hyoushigi_Engine
  imports Hyoushigi_Cells
begin

text \<open>
  The speculative timeline engine, \<open>crates/kaijutsu-hyoushigi/src/engine.rs\<close>, and the
  materialisation of committed cells, \<open>materialize.rs\<close>.

  Operations on a timeline pass it explicitly.  \<^const>\<open>None\<close> is a panic (a failed \<open>expect\<close> or
  \<open>unreachable!\<close>, a duration out of range); debug-only assertions and logging are left out.  Ticks are
  integers: the program's are \<open>i64\<close>, and the model is the program's for as long as a start less its lead or
  margin fits.  The loop of \<open>advance_to\<close> need
  not end, so it is a partial function: no result means that it runs forever.
\<close>

section \<open>State\<close>

record 'f TickClock =
  ticks_per_sec :: 'f
  safety_factor :: 'f
  commit_margin :: TickDelta

definition beats_for :: "'f engine_env \<Rightarrow> 'f TickClock \<Rightarrow> Duration \<Rightarrow> TickDelta" where
  "beats_for E c d = f_to_i64 E (f_ceil E (f_mul E (as_secs_f64 E d) (ticks_per_sec c)))"

datatype Recovery = ReSpeculated | FellBack

record SquashEvent =
  sq_at :: Tick
  sq_start :: Tick
  sq_predicted :: ContextHash
  sq_actual :: ContextHash
  sq_recovery :: Recovery

record FailureEvent =
  fe_at :: Tick
  fe_start :: Tick
  fe_resolver :: ResolverId
  fe_error :: string
  fe_played_by :: PrincipalId

record 'j Scheduled =
  sc_cell :: "'j Cell"
  sc_start :: Tick
  sc_speculate_at :: Tick
  sc_commit_deadline :: Tick
  sc_est_cost :: TickDelta
  sc_predicted_basis :: "ContextHash option"
  sc_resolution :: "'j Resolution option"
  sc_final_attempt :: bool

definition next_at :: "'j Scheduled \<Rightarrow> Tick option" where
  "next_at s =
     (case cell_state (sc_cell s) of
        CellState.Pending \<Rightarrow> Some (sc_speculate_at s)
      | Speculated \<Rightarrow> Some (if sc_final_attempt s then sc_start s else sc_commit_deadline s)
      | _ \<Rightarrow> None)"

datatype ScheduleError = NotDeferred | InThePast Tick Tick | UnknownResolver string

datatype SeedError = NotVirgin Tick Tick usize usize

record ('j, 'f) Timeline =
  tl_clock :: "'f TickClock"
  tl_playhead :: Tick
  tl_resolvers :: "ResolverId \<rightharpoonup> 'j Resolver"
  tl_ambient :: "string \<rightharpoonup> bytes"
  tl_future :: "'j Scheduled list"
  tl_committed :: "'j Cell list"
  tl_cas :: "ContentHash \<rightharpoonup> bytes"
  tl_squashes :: "SquashEvent list"
  tl_failures :: "FailureEvent list"
  tl_last_pump :: Duration
  tl_pump_phase_frac :: 'f

definition timeline_new :: "'f engine_env \<Rightarrow> 'f TickClock \<Rightarrow> ('j, 'f) Timeline" where
  "timeline_new E c =
     \<lparr>tl_clock = c, tl_playhead = 0, tl_resolvers = Map.empty, tl_ambient = Map.empty, tl_future = [],
      tl_committed = [], tl_cas = Map.empty, tl_squashes = [], tl_failures = [], tl_last_pump = 0,
      tl_pump_phase_frac = f_zero E\<rparr>"

definition register_resolver :: "ResolverId \<Rightarrow> 'j Resolver \<Rightarrow> ('j, 'f) Timeline \<Rightarrow> ('j, 'f) Timeline" where
  "register_resolver i r tml = tml\<lparr>tl_resolvers := (tl_resolvers tml)(i \<mapsto> r)\<rparr>"

definition set_clock :: "'f TickClock \<Rightarrow> ('j, 'f) Timeline \<Rightarrow> ('j, 'f) Timeline" where
  "set_clock c tml = tml\<lparr>tl_clock := c\<rparr>"

definition set_ambient :: "string \<Rightarrow> bytes \<Rightarrow> ('j, 'f) Timeline \<Rightarrow> ('j, 'f) Timeline" where
  "set_ambient k v tml = tml\<lparr>tl_ambient := (tl_ambient tml)(k \<mapsto> v)\<rparr>"

definition rehydrate_committed :: "'j Cell list \<Rightarrow> ('j, 'f) Timeline \<Rightarrow> ('j, 'f) Timeline option" where
  "rehydrate_committed cells tml =
     (if tl_committed tml \<noteq> [] then None else Some (tml\<lparr>tl_committed := cells\<rparr>))"

definition seed_playhead :: "Tick \<Rightarrow> ('j, 'f) Timeline \<Rightarrow> SeedError + ('j, 'f) Timeline" where
  "seed_playhead at tml =
     (if tl_playhead tml \<noteq> 0 \<or> tl_future tml \<noteq> [] \<or> tl_committed tml \<noteq> []
      then Inl (NotVirgin at (tl_playhead tml) (length (tl_future tml)) (length (tl_committed tml)))
      else Inr (tml\<lparr>tl_playhead := at\<rparr>))"

section \<open>Scheduling\<close>

definition ctx_at :: "Tick \<Rightarrow> ('j, 'f) Timeline \<Rightarrow> ResolverCtx" where
  "ctx_at now tml =
     \<lparr>rc_now = now, rc_ambient = tl_ambient tml, rc_content_before = content_before (tl_committed tml)\<rparr>"

definition schedule ::
  "'f engine_env \<Rightarrow> 'j Cell \<Rightarrow> ('j, 'f) Timeline \<Rightarrow> (ScheduleError + ('j, 'f) Timeline) option" where
  "schedule E cell tml =
     (case cell_body cell of
        Concrete _ \<Rightarrow> Some (Inl NotDeferred)
      | Deferred recipe \<Rightarrow>
          (let start = span_start (cell_span cell) in
           if start \<le> tl_playhead tml then Some (Inl (InThePast start (tl_playhead tml)))
           else case tl_resolvers tml (rp_resolver recipe) of
                  None \<Rightarrow> Some (Inl (UnknownResolver (rp_resolver recipe)))
                | Some resolver \<Rightarrow>
                    (let est = estimate_cost resolver (rp_params recipe) (ctx_at start tml);
                         est_cost = beats_for E (tl_clock tml) est
                     in case mul_f64 E est (safety_factor (tl_clock tml)) of
                          None \<Rightarrow> None
                        | Some padded \<Rightarrow>
                            (let lead = beats_for E (tl_clock tml) padded
                             in Some (Inr (tml\<lparr>tl_future := tl_future tml @
                                  [\<lparr>sc_cell = cell, sc_start = start, sc_speculate_at = start - lead,
                                    sc_commit_deadline = start - commit_margin (tl_clock tml),
                                    sc_est_cost = est_cost, sc_predicted_basis = None, sc_resolution = None,
                                    sc_final_attempt = False\<rparr>]\<rparr>))))))"

section \<open>The lifecycle of a cell\<close>

text \<open>\<open>Vec::swap_remove\<close>; the index is in range where the engine uses it.\<close>

definition swap_remove :: "nat \<Rightarrow> 'a list \<Rightarrow> 'a list" where
  "swap_remove i xs = (if i + 1 = length xs then butlast xs else (butlast xs)[i := last xs])"

definition deferred_recipe :: "('j, 'f) Timeline \<Rightarrow> nat \<Rightarrow> 'j Recipe option" where
  "deferred_recipe tml idx =
     (case cell_body (sc_cell (tl_future tml ! idx)) of Deferred r \<Rightarrow> Some r | Concrete _ \<Rightarrow> None)"

definition set_state :: "CellState \<Rightarrow> 'j Scheduled \<Rightarrow> 'j Scheduled" where
  "set_state st s = s\<lparr>sc_cell := (sc_cell s)\<lparr>cell_state := st\<rparr>\<rparr>"

definition speculate :: "nat \<Rightarrow> ('j, 'f) Timeline \<Rightarrow> ('j, 'f) Timeline option" where
  "speculate idx tml =
     (case deferred_recipe tml idx of
        None \<Rightarrow> None
      | Some recipe \<Rightarrow>
          (case tl_resolvers tml (rp_resolver recipe) of
             None \<Rightarrow> None
           | Some resolver \<Rightarrow>
               (let s = tl_future tml ! idx;
                    ctx = ctx_at (sc_start s) tml;
                    basis = compute_basis resolver (rp_params recipe) ctx
                in case resolve resolver (rp_params recipe) ctx of
                     Inr res \<Rightarrow>
                       Some (tml\<lparr>tl_future := (tl_future tml)[idx :=
                         set_state Speculated (s\<lparr>sc_predicted_basis := Some basis, sc_resolution := Some res\<rparr>)]\<rparr>)
                   | Inl err \<Rightarrow>
                       Some (tml\<lparr>tl_failures := tl_failures tml @
                           [\<lparr>fe_at = tl_playhead tml, fe_start = sc_start s, fe_resolver = rp_resolver recipe,
                             fe_error = err, fe_played_by = cell_played_by (sc_cell s)\<rparr>],
                         tl_future := swap_remove idx (tl_future tml)\<rparr>))))"

definition last_committed_content_in :: "('j, 'f) Timeline \<Rightarrow> TrackId \<Rightarrow> Tick \<Rightarrow> ContentRef option" where
  "last_committed_content_in tml track before =
     map_option snd (max_by_start (contents
       (filter (\<lambda>c. cell_track c = track) (filter (\<lambda>c. span_start (cell_span c) \<le> before) (tl_committed tml)))))"

definition push_committed :: "'j Cell \<Rightarrow> ('j, 'f) Timeline \<Rightarrow> ('j, 'f) Timeline" where
  "push_committed c tml = tml\<lparr>tl_committed := tl_committed tml @ [c]\<rparr>"

definition fire_fallback :: "'f engine_env \<Rightarrow> nat \<Rightarrow> ('j, 'f) Timeline \<Rightarrow> ('j, 'f) Timeline option" where
  "fire_fallback E idx tml =
     (case deferred_recipe tml idx of
        None \<Rightarrow> None
      | Some recipe \<Rightarrow>
          (let cell = sc_cell (tl_future tml ! idx); span = cell_span cell; track = cell_track cell;
               tml' = tml\<lparr>tl_future := swap_remove idx (tl_future tml)\<rparr>
           in case rp_fallback recipe of
                Skip \<Rightarrow> Some tml'
              | UseLastGood \<Rightarrow>
                  (case last_committed_content_in tml track (span_start span) of
                     Some cref \<Rightarrow> Some (push_committed (concrete_on span cref track (ev_beat E)) tml')
                   | None \<Rightarrow> Some tml')
              | Literal cref \<Rightarrow> Some (push_committed (concrete_on span cref track (ev_beat E)) tml')))"

definition absorb_emitted :: "'f engine_env \<Rightarrow> 'j Cell \<Rightarrow> ('j, 'f) Timeline \<Rightarrow> ('j, 'f) Timeline option" where
  "absorb_emitted E cell tml =
     (case cell_body cell of
        Concrete _ \<Rightarrow> Some (push_committed cell tml)
      | Deferred _ \<Rightarrow>
          (case schedule E cell tml of
             None \<Rightarrow> None
           | Some (Inl _) \<Rightarrow> Some tml
           | Some (Inr tml') \<Rightarrow> Some tml'))"

text \<open>The loop of \<open>commit\<close> over what a resolution emitted.\<close>

fun absorb_all :: "'f engine_env \<Rightarrow> 'j Cell list \<Rightarrow> ('j, 'f) Timeline \<Rightarrow> ('j, 'f) Timeline option" where
  "absorb_all E [] tml = Some tml"
| "absorb_all E (c # cs) tml =
     (case absorb_emitted E c tml of None \<Rightarrow> None | Some tml' \<Rightarrow> absorb_all E cs tml')"

definition commit :: "'f engine_env \<Rightarrow> nat \<Rightarrow> ('j, 'f) Timeline \<Rightarrow> ('j, 'f) Timeline option" where
  "commit E idx tml =
     (let s = tl_future tml ! idx; tml = tml\<lparr>tl_future := swap_remove idx (tl_future tml)\<rparr> in
      case sc_resolution s of
        None \<Rightarrow> None
      | Some res \<Rightarrow>
          (let cref = content_ref E res;
               tml = tml\<lparr>tl_cas := (case tl_cas tml (cr_hash cref) of
                                   Some _ \<Rightarrow> tl_cas tml
                                 | None \<Rightarrow> (tl_cas tml)(cr_hash cref \<mapsto> rs_bytes res))\<rparr>;
               cell = (sc_cell s)\<lparr>cell_body := Concrete cref, cell_state := Committed\<rparr>;
               tml = push_committed cell tml
           in absorb_all E (map (\<lambda>e. e\<lparr>cell_track := cell_track cell, cell_played_by := cell_played_by cell\<rparr>)
                (rs_emitted res)) tml))"

definition commit_or_squash :: "'f engine_env \<Rightarrow> nat \<Rightarrow> ('j, 'f) Timeline \<Rightarrow> ('j, 'f) Timeline option" where
  "commit_or_squash E idx tml =
     (case deferred_recipe tml idx of
        None \<Rightarrow> None
      | Some recipe \<Rightarrow>
          (case tl_resolvers tml (rp_resolver recipe) of
             None \<Rightarrow> None
           | Some resolver \<Rightarrow>
               (let current_tick = tl_playhead tml; s = tl_future tml ! idx; start = sc_start s;
                    actual = compute_basis resolver (rp_params recipe) (ctx_at start tml)
                in case sc_predicted_basis s of
                     None \<Rightarrow> None
                   | Some predicted \<Rightarrow>
                       (if actual = predicted then commit E idx tml
                        else
                          (let budget = start - current_tick;
                               can_respeculate = (\<not> sc_final_attempt s \<and> sc_est_cost s \<le> budget);
                               tml = tml\<lparr>tl_squashes := tl_squashes tml @
                                 [\<lparr>sq_at = current_tick, sq_start = start, sq_predicted = predicted,
                                   sq_actual = actual,
                                   sq_recovery = (if can_respeculate then ReSpeculated else FellBack)\<rparr>],
                                 tl_future := (tl_future tml)[idx := set_state Squashed s]\<rparr>
                           in if can_respeculate then
                                speculate idx (tml\<lparr>tl_future := (tl_future tml)[idx :=
                                  (tl_future tml ! idx)\<lparr>sc_final_attempt := True, sc_predicted_basis := None,
                                                       sc_resolution := None\<rparr>]\<rparr>)
                              else fire_fallback E idx tml)))))"

section \<open>The playhead\<close>

text \<open>The scan of \<open>advance_to\<close>: the first of the earliest actions due at or before the target.\<close>

definition scan_step :: "Tick \<Rightarrow> nat \<times> 'j Scheduled \<Rightarrow> (nat \<times> Tick) option \<Rightarrow> (nat \<times> Tick) option" where
  "scan_step target ix best =
     (case next_at (snd ix) of
        Some at \<Rightarrow>
          (if at \<le> target \<and> (case best of None \<Rightarrow> True | Some (_, b) \<Rightarrow> at < b)
           then Some (fst ix, at) else best)
      | None \<Rightarrow> best)"

definition next_action :: "Tick \<Rightarrow> ('j, 'f) Timeline \<Rightarrow> (nat \<times> Tick) option" where
  "next_action target tml = fold (scan_step target) (enumerate 0 (tl_future tml)) None"

definition act :: "'f engine_env \<Rightarrow> nat \<Rightarrow> Tick \<Rightarrow> ('j, 'f) Timeline \<Rightarrow> ('j, 'f) Timeline option" where
  "act E idx at tml =
     (let tml = tml\<lparr>tl_playhead := at\<rparr> in
      case cell_state (sc_cell (tl_future tml ! idx)) of
        CellState.Pending \<Rightarrow> speculate idx tml
      | Speculated \<Rightarrow> commit_or_squash E idx tml
      | _ \<Rightarrow> None)"

text \<open>The loop; the inner option is a panic, the outer one an endless run.\<close>

partial_function (option) advance_loop ::
  "'f engine_env \<Rightarrow> Tick \<Rightarrow> ('j, 'f) Timeline \<Rightarrow> ('j, 'f) Timeline option option" where
  "advance_loop E target tml =
     (case next_action target tml of
        None \<Rightarrow> Some (Some (tml\<lparr>tl_playhead := target\<rparr>))
      | Some (idx, at) \<Rightarrow>
          (case act E idx at tml of
             None \<Rightarrow> Some None
           | Some tml' \<Rightarrow> advance_loop E target tml'))"

definition advance_to :: "'f engine_env \<Rightarrow> Tick \<Rightarrow> ('j, 'f) Timeline \<Rightarrow> ('j, 'f) Timeline option option" where
  "advance_to E target tml =
     (if target \<le> tl_playhead tml then Some (Some tml) else advance_loop E target tml)"

definition pump :: "'f engine_env \<Rightarrow> Duration \<Rightarrow> ('j, 'f) Timeline \<Rightarrow> ('j, 'f) Timeline option option" where
  "pump E since_epoch tml =
     (if since_epoch \<le> tl_last_pump tml then Some (Some tml)
      else
        (let delta = since_epoch - tl_last_pump tml;
             adv = f_add E (f_mul E (as_secs_f64 E delta) (ticks_per_sec (tl_clock tml))) (tl_pump_phase_frac tml);
             whole = f_floor E adv;
             tml = tml\<lparr>tl_last_pump := since_epoch, tl_pump_phase_frac := f_sub E adv whole\<rparr>;
             target = tl_playhead tml + f_to_i64 E whole
         in if tl_playhead tml < target then advance_to E target tml else Some (Some tml)))"

section \<open>Materialisation\<close>

text \<open>\<open>String::from_utf8_lossy\<close> of the standard library is the argument \<open>lossy\<close>.\<close>

definition materialize ::
  "(bytes \<Rightarrow> string) \<Rightarrow> u64 \<Rightarrow> ('j, 'f) Timeline \<Rightarrow> 'j Cell \<Rightarrow> BlockId \<Rightarrow> BlockSnapshot option" where
  "materialize lossy now tml cell i =
     (case cell_body cell of
        Deferred _ \<Rightarrow> None
      | Concrete cref \<Rightarrow>
          (let b = builder_content_type (from_mime (cr_mime cref))
                     (builder_track (cell_track cell)
                       (builder_tick (span_start (cell_span cell)) (builder_new now i BlockKind.Text)))
           in Some (if starts_with (cr_mime cref) ''text/'' then
                      (let b = builder_role Role.Model b
                       in case tl_cas tml (cr_hash cref) of
                            Some bytes \<Rightarrow> builder_content (lossy bytes) b
                          | None \<Rightarrow> b)
                    else builder_content (cr_hash cref) (builder_role Role.Asset b))))"

end
