(* ===== verification/Hyoushigi_Props.thy ===== *)
theory Hyoushigi_Props
  imports Hyoushigi_Engine "HOL-Library.Multiset" "HOL-Library.Sublist"
begin

text \<open>
  The properties of the timeline engine.

  Every operation takes one scheduled cell out of the open future and puts a multiset of cells back
  (\<open>effect\<close>); the invariant \<open>tl_ok\<close>, the growth of the logs (\<open>later\<close>) and the measure of the loop
  all follow from what it puts back.  The engine is an instance of \<open>monotone_system\<close>.
\<close>

section \<open>The invariant\<close>

text \<open>
  A deferred cell is scheduled in the state \<open>Pending\<close>.  With \<open>fwd\<close>, a cell that a resolution
  emits starts after the cell it was resolved for.
\<close>

definition emission_ok :: "bool \<Rightarrow> Tick \<Rightarrow> 'j Cell \<Rightarrow> bool" where
  "emission_ok fwd start c \<longleftrightarrow>
     (is_deferred c \<longrightarrow> cell_state c = CellState.Pending \<and> (fwd \<longrightarrow> start < span_start (cell_span c)))"

definition resolver_ok :: "bool \<Rightarrow> 'j Resolver \<Rightarrow> bool" where
  "resolver_ok fwd r \<longleftrightarrow>
     (\<forall>p ctx res. resolve r p ctx = Inr res \<longrightarrow> (\<forall>c \<in> set (rs_emitted res). emission_ok fwd (rc_now ctx) c))"

text \<open>The clock pads every estimate of the resolver without a panic.\<close>

definition affordable :: "'f engine_env \<Rightarrow> 'f TickClock \<Rightarrow> 'j Resolver \<Rightarrow> bool" where
  "affordable E clk r \<longleftrightarrow> (\<forall>p ctx. mul_f64 E (estimate_cost r p ctx) (safety_factor clk) \<noteq> None)"

definition speculated_ok :: "bool \<Rightarrow> 'j Scheduled \<Rightarrow> bool" where
  "speculated_ok fwd s \<longleftrightarrow>
     (\<exists>b. sc_predicted_basis s = Some b) \<and>
     (\<exists>res. sc_resolution s = Some res \<and> (\<forall>c \<in> set (rs_emitted res). emission_ok fwd (sc_start s) c))"

definition sched_ok :: "bool \<Rightarrow> (ResolverId \<rightharpoonup> 'j Resolver) \<Rightarrow> 'j Scheduled \<Rightarrow> bool" where
  "sched_ok fwd rs s \<longleftrightarrow>
     sc_start s = span_start (cell_span (sc_cell s)) \<and>
     (\<exists>rc r. cell_body (sc_cell s) = Deferred rc \<and> rs (rp_resolver rc) = Some r) \<and>
     (cell_state (sc_cell s) = CellState.Pending \<or> cell_state (sc_cell s) = Speculated \<and> speculated_ok fwd s)"

definition cas_ok :: "'f engine_env \<Rightarrow> ('j, 'f) Timeline \<Rightarrow> bool" where
  "cas_ok E tml \<longleftrightarrow> (\<forall>h b. tl_cas tml h = Some b \<longrightarrow> ev_hash E b = h)"

definition past_ok :: "('j, 'f) Timeline \<Rightarrow> bool" where
  "past_ok tml \<longleftrightarrow> (\<forall>c \<in> set (tl_committed tml). \<not> is_deferred c)"

definition tl_ok :: "'f engine_env \<Rightarrow> bool \<Rightarrow> ('j, 'f) Timeline \<Rightarrow> bool" where
  "tl_ok E fwd tml \<longleftrightarrow>
     (\<forall>i r. tl_resolvers tml i = Some r \<longrightarrow> resolver_ok fwd r \<and> affordable E (tl_clock tml) r) \<and>
     (\<forall>s \<in> set (tl_future tml). sched_ok fwd (tl_resolvers tml) s) \<and>
     cas_ok E tml \<and> past_ok tml"

text \<open>The logs only grow: what is committed, squashed, failed or stored stays.\<close>

definition log_grows :: "('j, 'f) Timeline \<Rightarrow> ('j, 'f) Timeline \<Rightarrow> bool" where
  "log_grows a b \<longleftrightarrow>
     prefix (tl_committed a) (tl_committed b) \<and> prefix (tl_squashes a) (tl_squashes b) \<and>
     prefix (tl_failures a) (tl_failures b) \<and> tl_cas a \<subseteq>\<^sub>m tl_cas b"

definition later :: "('j, 'f) Timeline \<Rightarrow> ('j, 'f) Timeline \<Rightarrow> bool" where
  "later a b \<longleftrightarrow> log_grows a b \<and> tl_playhead a \<le> tl_playhead b"

definition frame :: "('j, 'f) Timeline \<Rightarrow> ('j, 'f) Timeline \<Rightarrow> bool" where
  "frame a b \<longleftrightarrow> tl_clock b = tl_clock a \<and> tl_resolvers b = tl_resolvers a \<and>
     tl_playhead b = tl_playhead a \<and> tl_ambient b = tl_ambient a"

lemma log_grows_refl [simp]: "log_grows a a"
  by (simp add: log_grows_def)

lemma log_grows_trans: "log_grows a b \<Longrightarrow> log_grows b c \<Longrightarrow> log_grows a c"
  unfolding log_grows_def by (meson map_le_trans prefix_order.trans)

lemma frame_refl [simp]: "frame a a"
  by (simp add: frame_def)

lemma frame_trans: "frame a b \<Longrightarrow> frame b c \<Longrightarrow> frame a c"
  by (simp add: frame_def)

text \<open>What an operation does: it exchanges \<open>s\<close> for the cells of \<open>N\<close>, and the logs grow.\<close>

definition effect :: "'f engine_env \<Rightarrow> 'j Scheduled multiset \<Rightarrow> 'j Scheduled multiset \<Rightarrow>
    ('j, 'f) Timeline \<Rightarrow> ('j, 'f) Timeline \<Rightarrow> bool" where
  "effect E S N a b \<longleftrightarrow>
     mset (tl_future b) + S = mset (tl_future a) + N \<and> log_grows a b \<and> frame a b \<and>
     (cas_ok E a \<longrightarrow> cas_ok E b) \<and> (past_ok a \<longrightarrow> past_ok b)"

lemma effect_trans:
  assumes "effect E S N a b" and "effect E S' N' b c"
  shows "effect E (S + S') (N + N') a c"
proof -
  have "mset (tl_future c) + (S + S') = mset (tl_future a) + (N + N')"
    using assms unfolding effect_def by (metis add.assoc add.commute)
  then show ?thesis
    using assms log_grows_trans frame_trans unfolding effect_def by blast
qed

lemma effect_tl_ok:
  assumes "effect E {#s#} N a b" and "tl_ok E fwd a" and "\<forall>n \<in># N. sched_ok fwd (tl_resolvers a) n"
  shows "tl_ok E fwd b"
proof -
  have "set_mset (mset (tl_future b)) \<subseteq> set_mset (mset (tl_future a) + N)"
    using assms(1) unfolding effect_def by (metis mset_subset_eq_add_left set_mset_mono)
  then have "\<forall>n \<in> set (tl_future b). sched_ok fwd (tl_resolvers a) n"
    using assms(2,3) by (auto simp: tl_ok_def)
  then show ?thesis using assms(1,2) by (simp add: tl_ok_def effect_def frame_def)
qed

section \<open>The steps\<close>

lemma mset_swap_remove:
  assumes "i < length xs"
  shows "mset (swap_remove i xs) + {#xs ! i#} = mset xs"
proof -
  obtain ys y where xs: "xs = ys @ [y]" using assms by (metis gr_implies_not0 list.size(3) rev_exhaust)
  show ?thesis
  proof (cases "i = length ys")
    case True
    then show ?thesis by (simp add: swap_remove_def xs)
  next
    case False
    then have "i < length ys" using assms xs by simp
    moreover then have "{#ys ! i#} \<subseteq># mset ys" by simp
    ultimately show ?thesis
      by (simp add: swap_remove_def xs mset_update nth_append)
  qed
qed

lemma effect_remove:
  assumes "i < length (tl_future tml)"
  shows "effect E {#tl_future tml ! i#} {#} tml (tml\<lparr>tl_future := swap_remove i (tl_future tml)\<rparr>)"
  using mset_swap_remove [OF assms]
  by (simp add: effect_def log_grows_def frame_def cas_ok_def past_ok_def)

lemma effect_update:
  assumes "i < length (tl_future tml)"
  shows "effect E {#tl_future tml ! i#} {#s#} tml (tml\<lparr>tl_future := (tl_future tml)[i := s]\<rparr>)"
  using assms by (simp add: effect_def log_grows_def frame_def cas_ok_def past_ok_def mset_update)

lemma effect_push:
  assumes "\<not> is_deferred c"
  shows "effect E {#} {#} tml (push_committed c tml)"
  using assms
  by (simp add: effect_def log_grows_def frame_def cas_ok_def past_ok_def push_committed_def)

lemma not_deferred_Concrete [simp]: "cell_body c = Concrete r \<Longrightarrow> \<not> is_deferred c"
  by (simp add: is_deferred_def)

lemma not_deferred_concrete_on [simp]: "\<not> is_deferred (concrete_on sp r tr p)"
  by (simp add: is_deferred_def concrete_on_def)

text \<open>Scheduling adds one cell, whose times follow from its start.\<close>

definition fresh_for :: "'f TickClock \<Rightarrow> 'j Cell \<Rightarrow> 'j Scheduled \<Rightarrow> bool" where
  "fresh_for clk c s \<longleftrightarrow> sc_cell s = c \<and> sc_start s = span_start (cell_span c) \<and>
     sc_commit_deadline s = sc_start s - commit_margin clk \<and> \<not> sc_final_attempt s"

lemma schedule_returns:
  assumes "\<forall>i r. tl_resolvers tml i = Some r \<longrightarrow> affordable E (tl_clock tml) r"
  shows "\<exists>r. schedule E c tml = Some r"
  using assms by (auto simp: schedule_def Let_def split: Body.split option.split) (metis affordable_def)

lemma schedule_Inr:
  assumes "schedule E c tml = Some (Inr tml')"
  obtains s where "effect E {#} {#s#} tml tml'" and "fresh_for (tl_clock tml) c s"
    and "\<exists>rc r. cell_body c = Deferred rc \<and> tl_resolvers tml (rp_resolver rc) = Some r"
    and "tl_playhead tml < sc_start s"
proof -
  obtain rc r where rc: "cell_body c = Deferred rc" "tl_resolvers tml (rp_resolver rc) = Some r"
      "tl_playhead tml < span_start (cell_span c)"
    using assms by (auto simp: schedule_def Let_def split: Body.splits if_splits option.splits)
  show ?thesis
    by (rule that [of "last (tl_future tml')"])
      (use assms rc in \<open>auto simp: schedule_def Let_def effect_def log_grows_def frame_def cas_ok_def
         past_ok_def fresh_for_def split: option.splits\<close>)
qed

lemma fresh_sched_ok:
  assumes "fresh_for clk c s" and "\<exists>rc r. cell_body c = Deferred rc \<and> rs (rp_resolver rc) = Some r"
    and "cell_state c = CellState.Pending"
  shows "sched_ok fwd rs s"
  using assms by (auto simp: fresh_for_def sched_ok_def)

text \<open>What a commit releases into the future: fresh cells for emitted ones.\<close>

definition released :: "bool \<Rightarrow> 'f TickClock \<Rightarrow> (ResolverId \<rightharpoonup> 'j Resolver) \<Rightarrow> Tick \<Rightarrow> 'j Scheduled multiset \<Rightarrow> bool"
  where
  "released fwd clk rs start N \<longleftrightarrow>
     (\<forall>n \<in># N. sched_ok fwd rs n \<and> cell_state (sc_cell n) = CellState.Pending \<and> \<not> sc_final_attempt n \<and>
        sc_commit_deadline n = sc_start n - commit_margin clk \<and> (fwd \<longrightarrow> start < sc_start n))"

lemma absorb_effect:
  assumes "emission_ok fwd start c" and "\<forall>i r. tl_resolvers tml i = Some r \<longrightarrow> affordable E (tl_clock tml) r"
  shows "\<exists>tml' N. absorb_emitted E c tml = Some tml' \<and> effect E {#} N tml tml' \<and>
           released fwd (tl_clock tml) (tl_resolvers tml) start N"
proof (cases "cell_body c")
  case (Concrete r)
  then show ?thesis
    by (intro exI [of _ "push_committed c tml"] exI [of _ "{#}"]) (simp add: absorb_emitted_def released_def effect_push)
next
  case (Deferred rc)
  obtain r where r: "schedule E c tml = Some r" using schedule_returns [OF assms(2)] by blast
  show ?thesis
  proof (cases r)
    case (Inl e)
    then show ?thesis using Deferred r
      by (intro exI [of _ tml] exI [of _ "{#}"]) (simp add: absorb_emitted_def released_def effect_def)
  next
    case (Inr tml')
    with r have "schedule E c tml = Some (Inr tml')" by simp
    then obtain s where s: "effect E {#} {#s#} tml tml'" "fresh_for (tl_clock tml) c s"
        "\<exists>rc r. cell_body c = Deferred rc \<and> tl_resolvers tml (rp_resolver rc) = Some r"
      by (rule schedule_Inr)
    have "cell_state c = CellState.Pending" "fwd \<longrightarrow> start < span_start (cell_span c)"
      using assms(1) Deferred by (auto simp: emission_ok_def is_deferred_def)
    then show ?thesis using s Inr r Deferred fresh_sched_ok [OF s(2,3)]
      by (intro exI [of _ tml'] exI [of _ "{#s#}"]) (auto simp: absorb_emitted_def released_def fresh_for_def)
  qed
qed

lemma absorb_all_effect:
  assumes "\<forall>c \<in> set cs. emission_ok fwd start c" and "\<forall>i r. tl_resolvers tml i = Some r \<longrightarrow> affordable E (tl_clock tml) r"
  shows "\<exists>tml' N. absorb_all E cs tml = Some tml' \<and> effect E {#} N tml tml' \<and>
           released fwd (tl_clock tml) (tl_resolvers tml) start N"
  using assms
proof (induction cs arbitrary: tml)
  case Nil
  then show ?case by (intro exI [of _ tml] exI [of _ "{#}"]) (simp add: released_def effect_def)
next
  case (Cons c cs)
  have "emission_ok fwd start c" using Cons.prems by simp
  from absorb_effect [OF this Cons.prems(2)] obtain t N where N: "absorb_emitted E c tml = Some t" "effect E {#} N tml t"
      "released fwd (tl_clock tml) (tl_resolvers tml) start N" by blast
  have fr: "tl_clock t = tl_clock tml" "tl_resolvers t = tl_resolvers tml" using N(2) by (simp_all add: effect_def frame_def)
  from Cons obtain u M where M: "absorb_all E cs t = Some u" "effect E {#} M t u"
      "released fwd (tl_clock tml) (tl_resolvers tml) start M"
    using Cons.IH [of t] fr by auto
  show ?case using effect_trans [OF N(2) M(2)] N(1,3) M(1,3)
    by (intro exI [of _ u] exI [of _ "N + M"]) (auto simp: released_def)
qed

lemma commit_effect:
  assumes i: "i < length (tl_future tml)" and s: "tl_future tml ! i = s"
    and sp: "speculated_ok fwd s" and af: "\<forall>i r. tl_resolvers tml i = Some r \<longrightarrow> affordable E (tl_clock tml) r"
  obtains tml' N where "commit E i tml = Some tml'" and "effect E {#s#} N tml tml'"
    and "released fwd (tl_clock tml) (tl_resolvers tml) (sc_start s) N"
proof -
  obtain res where res: "sc_resolution s = Some res"
      "\<forall>c \<in> set (rs_emitted res). emission_ok fwd (sc_start s) c"
    using sp by (auto simp: speculated_ok_def)
  let ?cref = "content_ref E res"
  let ?cell = "(sc_cell s)\<lparr>cell_body := Concrete ?cref, cell_state := Committed\<rparr>"
  let ?f = "\<lambda>e. e\<lparr>cell_track := cell_track ?cell, cell_played_by := cell_played_by ?cell\<rparr>"
  let ?t1 = "tml\<lparr>tl_future := swap_remove i (tl_future tml)\<rparr>"
  let ?t2 = "?t1\<lparr>tl_cas := (case tl_cas ?t1 (cr_hash ?cref) of Some _ \<Rightarrow> tl_cas ?t1
                          | None \<Rightarrow> (tl_cas ?t1)(cr_hash ?cref \<mapsto> rs_bytes res))\<rparr>"
  let ?t3 = "push_committed ?cell ?t2"
  have 1: "effect E {#s#} {#} tml ?t1" using effect_remove [OF i] s by simp
  have 2: "effect E {#} {#} ?t1 ?t2"
    by (auto simp: effect_def log_grows_def frame_def cas_ok_def past_ok_def content_ref_def map_le_def
        split: option.splits)
  have 3: "effect E {#} {#} ?t2 ?t3" by (rule effect_push) simp
  have em: "\<forall>c \<in> set (map ?f (rs_emitted res)). emission_ok fwd (sc_start s) c"
    using res(2) by (auto simp: emission_ok_def is_deferred_def)
  have "\<forall>i r. tl_resolvers ?t3 i = Some r \<longrightarrow> affordable E (tl_clock ?t3) r"
    using af by (simp add: push_committed_def)
  from absorb_all_effect [OF em this] obtain t4 N where t4: "absorb_all E (map ?f (rs_emitted res)) ?t3 = Some t4"
    and N: "effect E {#} N ?t3 t4" "released fwd (tl_clock ?t3) (tl_resolvers ?t3) (sc_start s) N" by blast
  have "effect E {#s#} N tml t4"
    using effect_trans [OF effect_trans [OF effect_trans [OF 1 2] 3] N(1)] by simp
  moreover have "commit E i tml = Some t4"
    using t4 by (simp add: commit_def Let_def s res(1))
  moreover have "released fwd (tl_clock tml) (tl_resolvers tml) (sc_start s) N"
    using N(2) by (simp add: push_committed_def)
  ultimately show ?thesis using that by blast
qed

definition respeculated :: "bool \<Rightarrow> (ResolverId \<rightharpoonup> 'j Resolver) \<Rightarrow> 'j Scheduled \<Rightarrow> 'j Scheduled \<Rightarrow> bool" where
  "respeculated fwd rs s s' \<longleftrightarrow> sched_ok fwd rs s' \<and> cell_state (sc_cell s') = Speculated \<and>
     sc_start s' = sc_start s \<and> sc_commit_deadline s' = sc_commit_deadline s \<and>
     sc_final_attempt s' = sc_final_attempt s"

lemma speculate_effect:
  assumes i: "i < length (tl_future tml)" and s: "tl_future tml ! i = s"
    and rc: "cell_body (sc_cell s) = Deferred rc" and r: "tl_resolvers tml (rp_resolver rc) = Some r"
    and ok: "resolver_ok fwd r" and st: "sc_start s = span_start (cell_span (sc_cell s))"
  obtains tml' N where "speculate i tml = Some tml'" and "effect E {#s#} N tml tml'"
    and "N = {#} \<or> (\<exists>s'. N = {#s'#} \<and> respeculated fwd (tl_resolvers tml) s s')"
proof (cases "resolve r (rp_params rc) (ctx_at (sc_start s) tml)")
  case (Inl e)
  let ?t1 = "tml\<lparr>tl_failures := tl_failures tml @ [\<lparr>fe_at = tl_playhead tml, fe_start = sc_start s,
       fe_resolver = rp_resolver rc, fe_error = e, fe_played_by = cell_played_by (sc_cell s)\<rparr>]\<rparr>"
  have "effect E {#} {#} tml ?t1"
    by (simp add: effect_def log_grows_def frame_def cas_ok_def past_ok_def)
  from effect_trans [OF this effect_remove [of i ?t1 E]]
  have "effect E {#s#} {#} tml (?t1\<lparr>tl_future := swap_remove i (tl_future tml)\<rparr>)"
    using i s by simp
  then show ?thesis
    by (rule that [rotated]) (simp_all add: speculate_def deferred_recipe_def s rc r Let_def Inl)
next
  case (Inr res)
  let ?s' = "set_state Speculated (s\<lparr>sc_predicted_basis := Some (compute_basis r (rp_params rc) (ctx_at (sc_start s) tml)),
       sc_resolution := Some res\<rparr>)"
  have "\<forall>c \<in> set (rs_emitted res). emission_ok fwd (sc_start s) c"
    using ok [unfolded resolver_ok_def, rule_format, OF Inr] by (simp add: ctx_at_def)
  then have "respeculated fwd (tl_resolvers tml) s ?s'"
    using rc r st by (simp add: respeculated_def sched_ok_def speculated_ok_def set_state_def)
  then show ?thesis
    using effect_update [OF i, of E ?s'] s
    by (intro that [rotated]) (auto simp: speculate_def deferred_recipe_def rc r Let_def Inr)
qed

lemma fire_fallback_effect:
  assumes i: "i < length (tl_future tml)" and s: "tl_future tml ! i = s"
    and rc: "cell_body (sc_cell s) = Deferred rc"
  obtains tml' where "fire_fallback E i tml = Some tml'" and "effect E {#s#} {#} tml tml'"
proof -
  let ?t = "tml\<lparr>tl_future := swap_remove i (tl_future tml)\<rparr>"
  have 1: "effect E {#s#} {#} tml ?t" using effect_remove [OF i] s by simp
  have 2: "effect E {#s#} {#} tml (push_committed (concrete_on sp c tr p) ?t)" for sp c tr p
    using effect_trans [OF 1 effect_push [OF not_deferred_concrete_on]] by simp
  show ?thesis
    by (cases "rp_fallback rc"; cases "last_committed_content_in tml (cell_track (sc_cell s)) (span_start (cell_span (sc_cell s)))")
      (use 1 2 s rc in \<open>auto intro: that simp: fire_fallback_def deferred_recipe_def Let_def\<close>)
qed

text \<open>What one action of the loop puts back for the cell it takes.\<close>

inductive act_outcome :: "bool \<Rightarrow> 'f TickClock \<Rightarrow> (ResolverId \<rightharpoonup> 'j Resolver) \<Rightarrow> 'j Scheduled \<Rightarrow>
    'j Scheduled multiset \<Rightarrow> bool" for fwd clk rs s where
  dropped: "act_outcome fwd clk rs s {#}"
| speculated: "cell_state (sc_cell s) = CellState.Pending \<Longrightarrow> respeculated fwd rs s s' \<Longrightarrow>
    act_outcome fwd clk rs s {#s'#}"
| retried: "cell_state (sc_cell s) = Speculated \<Longrightarrow> \<not> sc_final_attempt s \<Longrightarrow>
    respeculated fwd rs (s\<lparr>sc_final_attempt := True\<rparr>) s' \<Longrightarrow> act_outcome fwd clk rs s {#s'#}"
| committed: "cell_state (sc_cell s) = Speculated \<Longrightarrow> released fwd clk rs (sc_start s) N \<Longrightarrow>
    act_outcome fwd clk rs s N"

lemma act_outcome_sched_ok: "act_outcome fwd clk rs s N \<Longrightarrow> n \<in># N \<Longrightarrow> sched_ok fwd rs n"
  by (auto simp: respeculated_def released_def elim!: act_outcome.cases)

lemma commit_or_squash_effect:
  assumes i: "i < length (tl_future tml)" and s: "tl_future tml ! i = s" and ok: "tl_ok E fwd tml"
    and st: "cell_state (sc_cell s) = Speculated"
  obtains tml' N where "commit_or_squash E i tml = Some tml'" and "effect E {#s#} N tml tml'"
    and "act_outcome fwd (tl_clock tml) (tl_resolvers tml) s N"
proof -
  have "sched_ok fwd (tl_resolvers tml) s" using ok i s by (auto simp: tl_ok_def)
  then obtain rc r b where rc: "cell_body (sc_cell s) = Deferred rc"
      and r: "tl_resolvers tml (rp_resolver rc) = Some r" and b: "sc_predicted_basis s = Some b"
      and sp: "speculated_ok fwd s" and start: "sc_start s = span_start (cell_span (sc_cell s))"
    using st by (auto simp: sched_ok_def speculated_ok_def)
  have rok: "resolver_ok fwd r" using ok r by (auto simp: tl_ok_def)
  have af: "\<forall>i r. tl_resolvers tml i = Some r \<longrightarrow> affordable E (tl_clock tml) r" using ok by (auto simp: tl_ok_def)
  let ?actual = "compute_basis r (rp_params rc) (ctx_at (sc_start s) tml)"
  let ?can = "\<not> sc_final_attempt s \<and> sc_est_cost s \<le> sc_start s - tl_playhead tml"
  let ?t0 = "tml\<lparr>tl_squashes := tl_squashes tml @ [\<lparr>sq_at = tl_playhead tml, sq_start = sc_start s,
       sq_predicted = b, sq_actual = ?actual, sq_recovery = (if ?can then ReSpeculated else FellBack)\<rparr>]\<rparr>"
  let ?t1 = "?t0\<lparr>tl_future := (tl_future tml)[i := set_state Squashed s]\<rparr>"
  let ?s2 = "set_state Squashed s\<lparr>sc_final_attempt := True, sc_predicted_basis := None, sc_resolution := None\<rparr>"
  let ?t2 = "?t0\<lparr>tl_future := (tl_future tml)[i := ?s2]\<rparr>"
  note eqs = commit_or_squash_def deferred_recipe_def Let_def
  have 0: "effect E {#} {#} tml ?t0"
    by (simp add: effect_def log_grows_def frame_def cas_ok_def past_ok_def)
  have put: "effect E {#s#} {#s'#} tml (?t0\<lparr>tl_future := (tl_future tml)[i := s']\<rparr>)" for s'
    using effect_trans [OF 0 effect_update [of i ?t0 E s']] i s by simp
  consider (same) "?actual = b" | (retry) "?actual \<noteq> b" ?can | (fall) "?actual \<noteq> b" "\<not> ?can" by blast
  then show ?thesis
  proof cases
    case same
    obtain tml' N where "commit E i tml = Some tml'" "effect E {#s#} N tml tml'"
        "released fwd (tl_clock tml) (tl_resolvers tml) (sc_start s) N"
      using commit_effect [OF i s sp af] by blast
    then show ?thesis using s rc r b same st
      by (intro that [of tml' N] act_outcome.committed) (simp_all add: eqs)
  next
    case retry
    have props: "i < length (tl_future ?t2)" "tl_future ?t2 ! i = ?s2" "cell_body (sc_cell ?s2) = Deferred rc"
        "tl_resolvers ?t2 (rp_resolver rc) = Some r" "sc_start ?s2 = span_start (cell_span (sc_cell ?s2))"
      using i rc r start by (simp_all add: set_state_def)
    obtain tml' N where t: "speculate i ?t2 = Some tml'" and e: "effect E {#?s2#} N ?t2 tml'"
        and N: "N = {#} \<or> (\<exists>s'. N = {#s'#} \<and> respeculated fwd (tl_resolvers ?t2) ?s2 s')"
      using speculate_effect [OF props(1-4) rok props(5), of E] by metis
    have "effect E ({#s#} + {#?s2#}) ({#?s2#} + N) tml tml'" by (rule effect_trans [OF put e])
    then have "effect E {#s#} N tml tml'" by (simp add: effect_def)
    moreover have "act_outcome fwd (tl_clock tml) (tl_resolvers tml) s N"
      using N st retry(2) by (auto simp: respeculated_def set_state_def intro: act_outcome.dropped act_outcome.retried)
    moreover have "commit_or_squash E i tml = speculate i ?t2"
      using s rc r b retry i by (simp add: eqs set_state_def)
    ultimately show ?thesis using t that by simp
  next
    case fall
    have props: "i < length (tl_future ?t1)" "tl_future ?t1 ! i = set_state Squashed s"
        "cell_body (sc_cell (set_state Squashed s)) = Deferred rc"
      using i rc by (simp_all add: set_state_def)
    obtain tml' where t: "fire_fallback E i ?t1 = Some tml'"
        and e: "effect E {#set_state Squashed s#} {#} ?t1 tml'"
      using fire_fallback_effect [OF props] by blast
    have "effect E ({#s#} + {#set_state Squashed s#}) ({#set_state Squashed s#} + {#}) tml tml'"
      by (rule effect_trans [OF put e])
    then have "effect E {#s#} {#} tml tml'" by (simp add: effect_def)
    moreover have "commit_or_squash E i tml = fire_fallback E i ?t1"
      using s rc r b fall by (auto simp: eqs)
    ultimately show ?thesis using t that act_outcome.dropped by metis
  qed
qed

lemma act_effect:
  assumes i: "i < length (tl_future tml)" and s: "tl_future tml ! i = s" and ok: "tl_ok E fwd tml"
    and due: "next_at s = Some at"
  obtains tml' N where "act E i at tml = Some tml'" and "effect E {#s#} N (tml\<lparr>tl_playhead := at\<rparr>) tml'"
    and "act_outcome fwd (tl_clock tml) (tl_resolvers tml) s N"
proof -
  let ?t = "tml\<lparr>tl_playhead := at\<rparr>"
  have ok': "tl_ok E fwd ?t" using ok by (simp add: tl_ok_def cas_ok_def past_ok_def)
  have i': "i < length (tl_future ?t)" "tl_future ?t ! i = s" using i s by simp_all
  have so: "sched_ok fwd (tl_resolvers tml) s" using ok i s by (auto simp: tl_ok_def)
  show ?thesis
  proof (cases "cell_state (sc_cell s) = Speculated")
    case True
    then show ?thesis
      using commit_or_squash_effect [OF i' ok' True] s that by (auto simp: act_def Let_def)
  next
    case False
    then have pend: "cell_state (sc_cell s) = CellState.Pending" using so by (auto simp: sched_ok_def)
    obtain rc r where rc: "cell_body (sc_cell s) = Deferred rc" "tl_resolvers ?t (rp_resolver rc) = Some r"
        "sc_start s = span_start (cell_span (sc_cell s))"
      using so by (auto simp: sched_ok_def)
    have rok: "resolver_ok fwd r" using ok rc(2) by (auto simp: tl_ok_def)
    obtain tml' N where "speculate i ?t = Some tml'" "effect E {#s#} N ?t tml'"
        "N = {#} \<or> (\<exists>s'. N = {#s'#} \<and> respeculated fwd (tl_resolvers ?t) s s')"
      using speculate_effect [OF i' rc(1,2) rok rc(3), of E] by metis
    then show ?thesis using pend s
      by (intro that [of tml' N]) (auto simp: act_def Let_def intro: act_outcome.intros)
  qed
qed

section \<open>The loop\<close>

definition due :: "Tick \<Rightarrow> 'j Scheduled \<Rightarrow> Tick \<Rightarrow> bool" where
  "due target s at \<longleftrightarrow> next_at s = Some at \<and> at \<le> target"

lemma scan_some:
  assumes "fold (scan_step target) xs best = Some (i, at)"
  shows "(best = Some (i, at) \<or> (\<exists>s. (i, s) \<in> set xs \<and> due target s at)) \<and>
         (\<forall>j a. best = Some (j, a) \<longrightarrow> at \<le> a) \<and> (\<forall>x \<in> set xs. \<forall>a. due target (snd x) a \<longrightarrow> at \<le> a)"
  using assms
proof (induction xs arbitrary: best)
  case Nil
  then show ?case by simp
next
  case (Cons x xs)
  note IH = Cons.IH [OF Cons.prems [simplified]]
  show ?case
  proof (cases "scan_step target x best = best")
    case True
    then have "due target (snd x) a \<Longrightarrow> (\<exists>j b. best = Some (j, b) \<and> b \<le> a)" for a
      by (cases best) (auto simp: scan_step_def due_def split: if_splits)
    moreover have "at \<le> a" if "due target (snd x) a" for a
      using that calculation IH True by (metis order_trans)
    ultimately show ?thesis using IH True by auto
  next
    case False
    then obtain a where a: "scan_step target x best = Some (fst x, a)" "due target (snd x) a"
        "\<forall>j b. best = Some (j, b) \<longrightarrow> a < b"
      by (auto simp: scan_step_def due_def split: option.splits if_splits)
    then have "at \<le> a" "\<And>b. due target (snd x) b \<Longrightarrow> b = a" using IH by (auto simp: due_def)
    then show ?thesis using IH a by (cases x) (force simp: due_def)
  qed
qed

lemma scan_none:
  assumes "fold (scan_step target) xs best = None"
  shows "best = None \<and> (\<forall>x \<in> set xs. \<forall>a. \<not> due target (snd x) a)"
  using assms
proof (induction xs arbitrary: best)
  case (Cons x xs)
  from Cons.IH [OF Cons.prems [simplified]] show ?case
    by (auto simp: scan_step_def due_def split: option.splits if_splits)
qed simp

lemma enumerate_mem: "s \<in> set xs \<Longrightarrow> \<exists>j. (j, s) \<in> set (enumerate n xs)"
  by (metis imageE map_snd_enumerate set_map surjective_pairing)

lemma next_action_Some:
  assumes "next_action target tml = Some (i, at)"
  shows "i < length (tl_future tml)" and "due target (tl_future tml ! i) at"
    and "\<forall>s \<in> set (tl_future tml). \<forall>a. due target s a \<longrightarrow> at \<le> a"
proof -
  note scan = scan_some [OF assms [unfolded next_action_def]]
  show "i < length (tl_future tml)" "due target (tl_future tml ! i) at"
    using scan by (auto simp: in_set_enumerate_eq)
  show "\<forall>s \<in> set (tl_future tml). \<forall>a. due target s a \<longrightarrow> at \<le> a"
    using scan enumerate_mem [of _ "tl_future tml" 0] by (metis snd_conv)
qed

lemma next_action_None:
  assumes "next_action target tml = None"
  shows "\<forall>s \<in> set (tl_future tml). \<forall>a. \<not> due target s a"
  using scan_none [OF assms [unfolded next_action_def]]
  by (fastforce dest: enumerate_mem [of _ _ 0])

lemma loop_act:
  assumes "next_action target tml = Some (i, at)" and "tl_ok E fwd tml"
  obtains tml' N where "act E i at tml = Some tml'" and "tl_ok E fwd tml'" and "log_grows tml tml'"
    and "effect E {#tl_future tml ! i#} N (tml\<lparr>tl_playhead := at\<rparr>) tml'"
    and "act_outcome fwd (tl_clock tml) (tl_resolvers tml) (tl_future tml ! i) N"
proof -
  note na = next_action_Some [OF assms(1)]
  from na(2) have "next_at (tl_future tml ! i) = Some at" by (simp add: due_def)
  from act_effect [OF na(1) refl assms(2) this]
  obtain tml' N where t: "act E i at tml = Some tml'"
      "effect E {#tl_future tml ! i#} N (tml\<lparr>tl_playhead := at\<rparr>) tml'"
      "act_outcome fwd (tl_clock tml) (tl_resolvers tml) (tl_future tml ! i) N" by blast
  have "tl_ok E fwd (tml\<lparr>tl_playhead := at\<rparr>)"
    using assms(2) by (simp add: tl_ok_def cas_ok_def past_ok_def)
  then have "tl_ok E fwd tml'"
    using effect_tl_ok [OF t(2)] act_outcome_sched_ok [OF t(3)] by simp
  moreover have "log_grows tml tml'" using t(2) by (simp add: effect_def log_grows_def)
  ultimately show ?thesis using that t by blast
qed

lemma advance_loop_ok:
  assumes "advance_loop E target tml = Some r" and "tl_ok E fwd tml"
  shows "\<exists>tml'. r = Some tml' \<and> tl_ok E fwd tml' \<and> log_grows tml tml' \<and> tl_playhead tml' = target \<and>
           next_action target tml' = None"
  using assms(1,2)
proof (induction rule: advance_loop.raw_induct [rotated 1, consumes 1, case_names step])
  case (step loop E target tml r)
  show ?case
  proof (cases "next_action target tml")
    case None
    then show ?thesis using step
      by (auto simp: tl_ok_def cas_ok_def past_ok_def log_grows_def next_action_def)
  next
    case (Some x)
    then obtain i at where x: "next_action target tml = Some (i, at)" by (cases x) simp
    obtain tml1 N where t: "act E i at tml = Some tml1" "tl_ok E fwd tml1" "log_grows tml tml1"
      using loop_act [OF x step(3)] by blast
    then have "loop E target tml1 = Some r" using step(2) x by simp
    from step(1) [OF this t(2)] t(3) show ?thesis using log_grows_trans by blast
  qed
qed

lemma advance_to_ok:
  assumes "advance_to E target tml = Some r" and "tl_ok E fwd tml"
  shows "\<exists>tml'. r = Some tml' \<and> tl_ok E fwd tml' \<and> later tml tml'"
  using assms advance_loop_ok [of E target tml r fwd]
  by (auto simp: advance_to_def later_def split: if_splits)

lemma pump_ok:
  assumes "pump E t tml = Some r" and "tl_ok E fwd tml"
  shows "\<exists>tml'. r = Some tml' \<and> tl_ok E fwd tml' \<and> later tml tml'"
proof -
  let ?t = "\<lambda>f. tml\<lparr>tl_last_pump := t, tl_pump_phase_frac := f\<rparr>"
  have "tl_ok E fwd (?t f)" for f using assms(2) by (simp add: tl_ok_def cas_ok_def past_ok_def)
  moreover have "later (?t f) x \<longleftrightarrow> later tml x" for f x by (simp add: later_def log_grows_def)
  moreover have "later tml (?t f)" for f by (simp add: later_def log_grows_def)
  ultimately show ?thesis
    using assms advance_to_ok [of E _ "?t _" r fwd]
    by (fastforce simp: pump_def Let_def later_def split: if_splits)
qed

section \<open>Termination\<close>

text \<open>
  A cell has at most three actions: it is speculated, speculated once more, and committed.  A commit
  releases cells that start later, and cells that start beyond \<open>B\<close> are not committed in this call:
  the multiset of ranks decreases.
\<close>

definition stage :: "'j Scheduled \<Rightarrow> nat" where
  "stage s = (if cell_state (sc_cell s) = CellState.Pending then 3 else if sc_final_attempt s then 1 else 2)"

definition rank :: "Tick \<Rightarrow> 'j Scheduled \<Rightarrow> nat" where
  "rank B s = 4 * nat (B - sc_start s) + stage s"

definition bounded_by :: "Tick \<Rightarrow> Tick \<Rightarrow> 'j Scheduled \<Rightarrow> bool" where
  "bounded_by B target s \<longleftrightarrow> sc_start s < B \<or> target < sc_start s \<and> target < sc_commit_deadline s"

lemma stage_bounds: "stage s \<le> 3" "1 \<le> stage s"
  by (simp_all add: stage_def)

lemma act_outcome_rank:
  assumes "act_outcome True clk rs s N" and "due target s at" and "bounded_by B target s"
    and "target < B" and "target + commit_margin clk < B" and n: "n \<in># N"
  shows "rank B n < rank B s \<and> bounded_by B target n"
  using assms(1)
proof cases
  case committed
  then have n: "cell_state (sc_cell n) = CellState.Pending" "sc_start s < sc_start n"
      "sc_commit_deadline n = sc_start n - commit_margin clk" using n by (auto simp: released_def)
  have "sc_start s < B"
    using assms(2,3) committed by (auto simp: due_def next_at_def bounded_by_def split: if_splits)
  then have "nat (B - sc_start n) < nat (B - sc_start s)" using n by linarith
  moreover have "stage n = 3" "1 \<le> stage s" using n stage_bounds by (auto simp: stage_def)
  ultimately show ?thesis using n assms(4,5) by (auto simp: rank_def bounded_by_def)
qed (use n assms(3) in \<open>auto simp: respeculated_def rank_def bounded_by_def stage_def\<close>)

lemma exchange_mult:
  assumes "mset ys + {#s#} = mset xs + N" and "s \<in> set xs" and "\<forall>n \<in># N. f n < (f s :: nat)"
  shows "(image_mset f (mset ys), image_mset f (mset xs)) \<in> mult less_than"
proof -
  obtain I where I: "mset xs = I + {#s#}"
    using assms(2) by (metis add.commute add_mset_add_single insert_DiffM mset_set_set set_mset_mset union_mset_add_mset_left)
  then have "mset ys = I + N" using assms(1) by simp
  then show ?thesis unfolding I
    using one_step_implies_mult [of "{#f s#}" "image_mset f N" less_than "image_mset f I"] assms(3) by auto
qed

lemma advance_loop_returns:
  assumes "tl_ok E True tml" and "target < B" and "target + commit_margin (tl_clock tml) < B"
    and "\<forall>s \<in> set (tl_future tml). bounded_by B target s"
  shows "\<exists>r. advance_loop E target tml = Some r"
  using assms(1,3,4)
proof (induction "image_mset (rank B) (mset (tl_future tml))" arbitrary: tml rule: wf_induct_rule [OF wf_mult [OF wf_less_than]])
  case (1 tml)
  show ?case
  proof (cases "next_action target tml")
    case None
    then show ?thesis by (subst advance_loop.simps) simp
  next
    case (Some x)
    then obtain i at where x: "next_action target tml = Some (i, at)" by (cases x) simp
    let ?s = "tl_future tml ! i"
    obtain tml1 N where t: "act E i at tml = Some tml1" "tl_ok E True tml1"
        "effect E {#?s#} N (tml\<lparr>tl_playhead := at\<rparr>) tml1" "act_outcome True (tl_clock tml) (tl_resolvers tml) ?s N"
      using loop_act [OF x 1(2)] by blast
    have s: "?s \<in> set (tl_future tml)" "due target ?s at" using next_action_Some [OF x] by auto
    have N: "\<forall>n \<in># N. rank B n < rank B ?s \<and> bounded_by B target n"
      using act_outcome_rank [OF t(4) s(2)] 1(3,4) s(1) assms(2) by blast
    have ex: "mset (tl_future tml1) + {#?s#} = mset (tl_future tml) + N"
      using t(3) by (simp add: effect_def)
    have "set (tl_future tml1) \<subseteq> set (tl_future tml) \<union> set_mset N"
      using arg_cong [OF ex, of set_mset] by auto
    then have "\<forall>s \<in> set (tl_future tml1). bounded_by B target s" using N 1(4) by blast
    moreover have "tl_clock tml1 = tl_clock tml" using t(3) by (simp add: effect_def frame_def)
    ultimately have "\<exists>r. advance_loop E target tml1 = Some r"
      using 1(1) [OF exchange_mult [OF ex s(1)] t(2)] N 1(3) by auto
    then show ?thesis using x t(1) by (subst advance_loop.simps) simp
  qed
qed

section \<open>Runs of the engine\<close>

inductive engine_step :: "'f engine_env \<Rightarrow> bool \<Rightarrow> ('j, 'f) Timeline \<Rightarrow> ('j, 'f) Timeline \<Rightarrow> bool"
  for E fwd where
  do_register: "resolver_ok fwd r \<Longrightarrow> affordable E (tl_clock tml) r \<Longrightarrow> engine_step E fwd tml (register_resolver i r tml)"
| do_clock: "\<forall>i r. tl_resolvers tml i = Some r \<longrightarrow> affordable E c r \<Longrightarrow> engine_step E fwd tml (set_clock c tml)"
| do_ambient: "engine_step E fwd tml (set_ambient k v tml)"
| do_schedule: "cell_state c = CellState.Pending \<Longrightarrow> schedule E c tml = Some (Inr tml') \<Longrightarrow> engine_step E fwd tml tml'"
| do_rehydrate: "\<forall>c \<in> set cs. \<not> is_deferred c \<Longrightarrow> rehydrate_committed cs tml = Some tml' \<Longrightarrow>
    engine_step E fwd tml tml'"
| do_seed: "0 \<le> at \<Longrightarrow> seed_playhead at tml = Inr tml' \<Longrightarrow> engine_step E fwd tml tml'"
| do_advance: "advance_to E target tml = Some (Some tml') \<Longrightarrow> engine_step E fwd tml tml'"
| do_pump: "pump E t tml = Some (Some tml') \<Longrightarrow> engine_step E fwd tml tml'"

lemma tl_ok_new: "tl_ok E fwd (timeline_new E c)"
  by (simp add: timeline_new_def tl_ok_def cas_ok_def past_ok_def)

lemma tl_ok_register:
  assumes "tl_ok E fwd tml" and "resolver_ok fwd r" and "affordable E (tl_clock tml) r"
  shows "tl_ok E fwd (register_resolver i r tml)"
proof -
  have "sched_ok fwd ((tl_resolvers tml)(i \<mapsto> r)) s" if "sched_ok fwd (tl_resolvers tml) s" for s
    using that by (auto simp: sched_ok_def)
  then show ?thesis using assms by (auto simp: tl_ok_def register_resolver_def cas_ok_def past_ok_def)
qed

lemma tl_ok_schedule:
  assumes "schedule E c tml = Some (Inr tml')" and "cell_state c = CellState.Pending" and "tl_ok E fwd tml"
  shows "tl_ok E fwd tml' \<and> later tml tml'"
proof -
  obtain s where s: "effect E {#} {#s#} tml tml'" "fresh_for (tl_clock tml) c s"
      "\<exists>rc r. cell_body c = Deferred rc \<and> tl_resolvers tml (rp_resolver rc) = Some r"
    using schedule_Inr [OF assms(1)] .
  have "sched_ok fwd (tl_resolvers tml) s" by (rule fresh_sched_ok [OF s(2,3) assms(2)])
  moreover have "mset (tl_future tml') = add_mset s (mset (tl_future tml))"
    using s(1) by (simp add: effect_def)
  then have "set (tl_future tml') = insert s (set (tl_future tml))"
    by (metis set_mset_add_mset_insert set_mset_mset)
  ultimately show ?thesis using s(1) assms(3) by (simp add: tl_ok_def effect_def frame_def later_def)
qed

lemma engine_step_ok:
  assumes "engine_step E fwd tml tml'" and "tl_ok E fwd tml"
  shows "tl_ok E fwd tml' \<and> later tml tml'"
  using assms
proof cases
  case (do_register r i)
  then show ?thesis using assms(2) tl_ok_register
    by (auto simp: register_resolver_def later_def log_grows_def)
next
  case (do_schedule c)
  then show ?thesis using tl_ok_schedule assms(2) by blast
next
  case (do_advance target)
  then show ?thesis using advance_to_ok assms(2) by blast
next
  case (do_pump t)
  then show ?thesis using pump_ok assms(2) by blast
qed (auto simp: tl_ok_def set_clock_def set_ambient_def rehydrate_committed_def seed_playhead_def cas_ok_def
       past_ok_def later_def log_grows_def split: if_splits)

interpretation engine_run: monotone_system "engine_step E fwd" "tl_ok E fwd" later
  by unfold_locales (use engine_step_ok in \<open>auto simp: later_def intro: log_grows_trans\<close>)

section \<open>Commits\<close>

definition released_past :: "'j Cell \<Rightarrow> 'j Cell list \<Rightarrow> 'j Cell list" where
  "released_past cell es = filter (\<lambda>e. \<not> is_deferred e)
     (map (\<lambda>e. e\<lparr>cell_track := cell_track cell, cell_played_by := cell_played_by cell\<rparr>) es)"

lemma absorb_logs:
  assumes "absorb_emitted E c tml = Some tml'"
  shows "tl_committed tml' = tl_committed tml @ (if is_deferred c then [] else [c]) \<and> tl_cas tml' = tl_cas tml \<and>
    tl_squashes tml' = tl_squashes tml"
  using assms by (auto simp: absorb_emitted_def push_committed_def is_deferred_def schedule_def Let_def
      split: Body.splits sum.splits if_splits option.splits)

lemma absorb_all_logs:
  "absorb_all E cs tml = Some tml' \<Longrightarrow> tl_committed tml' = tl_committed tml @ filter (\<lambda>e. \<not> is_deferred e) cs \<and>
   tl_cas tml' = tl_cas tml \<and> tl_squashes tml' = tl_squashes tml"
  by (induction cs arbitrary: tml) (auto split: option.splits dest!: absorb_logs)

lemma commit_logs:
  assumes "sc_resolution (tl_future tml ! i) = Some res" and "commit E i tml = Some tml'"
  shows "let cell = (sc_cell (tl_future tml ! i))\<lparr>cell_body := Concrete (content_ref E res), cell_state := Committed\<rparr>
         in tl_committed tml' = tl_committed tml @ cell # released_past cell (rs_emitted res) \<and>
            tl_squashes tml' = tl_squashes tml \<and>
            (\<exists>b. tl_cas tml' (ev_hash E (rs_bytes res)) = Some b \<and>
                 (tl_cas tml (ev_hash E (rs_bytes res)) = None \<longrightarrow> b = rs_bytes res))"
  using assms
  by (auto simp: commit_def Let_def push_committed_def released_past_def content_ref_def
      split: option.splits dest!: absorb_all_logs)

text \<open>The branch of \<open>commit_or_squash\<close> behind a basis that changed.\<close>

definition squash :: "'f engine_env \<Rightarrow> nat \<Rightarrow> ContextHash \<Rightarrow> ContextHash \<Rightarrow> ('j, 'f) Timeline \<Rightarrow>
    ('j, 'f) Timeline option" where
  "squash E idx predicted actual tml =
     (let s = tl_future tml ! idx;
          can_respeculate = (\<not> sc_final_attempt s \<and> sc_est_cost s \<le> sc_start s - tl_playhead tml);
          tml = tml\<lparr>tl_squashes := tl_squashes tml @
            [\<lparr>sq_at = tl_playhead tml, sq_start = sc_start s, sq_predicted = predicted, sq_actual = actual,
              sq_recovery = (if can_respeculate then ReSpeculated else FellBack)\<rparr>],
            tl_future := (tl_future tml)[idx := set_state Squashed s]\<rparr>
      in if can_respeculate then
           speculate idx (tml\<lparr>tl_future := (tl_future tml)[idx :=
             (tl_future tml ! idx)\<lparr>sc_final_attempt := True, sc_predicted_basis := None, sc_resolution := None\<rparr>]\<rparr>)
         else fire_fallback E idx tml)"

definition fallback_past :: "'f engine_env \<Rightarrow> ('j, 'f) Timeline \<Rightarrow> 'j Recipe \<Rightarrow> 'j Cell \<Rightarrow> 'j Cell list" where
  "fallback_past E tml rc cell =
     map (\<lambda>c. concrete_on (cell_span cell) c (cell_track cell) (ev_beat E))
       (case rp_fallback rc of
          Skip \<Rightarrow> []
        | UseLastGood \<Rightarrow> (case last_committed_content_in tml (cell_track cell) (span_start (cell_span cell)) of
                          None \<Rightarrow> [] | Some c \<Rightarrow> [c])
        | Literal c \<Rightarrow> [c])"

lemma speculate_logs:
  assumes "speculate i tml = Some tml'"
  shows "tl_committed tml' = tl_committed tml \<and> tl_squashes tml' = tl_squashes tml"
  using assms by (auto simp: speculate_def Let_def split: option.splits sum.splits)

lemma fire_fallback_logs:
  assumes "fire_fallback E i tml = Some tml'" and "cell_body (sc_cell (tl_future tml ! i)) = Deferred rc"
  shows "tl_committed tml' = tl_committed tml @ fallback_past E tml rc (sc_cell (tl_future tml ! i)) \<and>
         tl_squashes tml' = tl_squashes tml"
  using assms
  by (auto simp: fire_fallback_def deferred_recipe_def Let_def fallback_past_def push_committed_def
      split: Fallback.splits option.splits)

lemma squash_logs:
  assumes "squash E i b actual tml = Some tml'" and "i < length (tl_future tml)" and "tl_future tml ! i = s"
    and "cell_body (sc_cell s) = Deferred rc"
  shows "let can = \<not> sc_final_attempt s \<and> sc_est_cost s \<le> sc_start s - tl_playhead tml in
    tl_squashes tml' = tl_squashes tml @ [\<lparr>sq_at = tl_playhead tml, sq_start = sc_start s, sq_predicted = b,
      sq_actual = actual, sq_recovery = (if can then ReSpeculated else FellBack)\<rparr>] \<and>
    tl_committed tml' = tl_committed tml @ (if can then [] else fallback_past E tml rc (sc_cell s))"
proof (cases "\<not> sc_final_attempt s \<and> sc_est_cost s \<le> sc_start s - tl_playhead tml")
  case True
  then show ?thesis using assms by (auto simp: squash_def Let_def dest!: speculate_logs)
next
  case False
  let ?t = "tml\<lparr>tl_squashes := tl_squashes tml @ [\<lparr>sq_at = tl_playhead tml, sq_start = sc_start s, sq_predicted = b,
      sq_actual = actual, sq_recovery = FellBack\<rparr>], tl_future := (tl_future tml)[i := set_state Squashed s]\<rparr>"
  have "fire_fallback E i ?t = Some tml'" using assms(1,3) False by (auto simp: squash_def Let_def)
  moreover have "fallback_past E ?t rc (sc_cell (set_state Squashed s)) = fallback_past E tml rc (sc_cell s)"
    by (cases "rp_fallback rc") (simp_all add: fallback_past_def last_committed_content_in_def set_state_def)
  ultimately show ?thesis
    using fire_fallback_logs [of E i ?t tml' rc] assms(2,4) False by (simp add: Let_def set_state_def)
qed

section \<open>Concrete engines\<close>

text \<open>
  An environment over the integers, and three resolvers: one whose content is the basis it was given,
  one that fails, and one that emits a cell at its own start.
\<close>

definition demo_env :: "int engine_env" where
  "demo_env = \<lparr>ev_hash = \<lambda>b. b, ev_beat = 1, as_secs_f64 = int, mul_f64 = \<lambda>d f. if f < 0 then None else Some (d * nat f),
     f_mul = (*), f_add = (+), f_sub = (-), f_floor = (\<lambda>x. x), f_ceil = (\<lambda>x. x), f_to_i64 = (\<lambda>x. x), f_zero = 0\<rparr>"

definition demo_clock :: "int TickClock" where
  "demo_clock = \<lparr>ticks_per_sec = 1, safety_factor = 1, commit_margin = 1\<rparr>"

definition demo_cell :: "string \<Rightarrow> Fallback \<Rightarrow> Tick \<Rightarrow> nat Cell" where
  "demo_cell i fb t = deferred_on \<lparr>span_start = t, span_len = 1\<rparr>
     \<lparr>rp_resolver = i, rp_params = 1, rp_query = \<lparr>cq_lookback = 0, cq_ambient_keys = []\<rparr>, rp_fallback = fb\<rparr>
     ''main'' 7"

definition key_of :: "ResolverCtx \<Rightarrow> ContextHash" where
  "key_of ctx = (case rc_ambient ctx ''key'' of Some k \<Rightarrow> k | None \<Rightarrow> ''none'')"

definition echo_resolver :: "nat Resolver" where
  "echo_resolver = \<lparr>estimate_cost = \<lambda>p ctx. p, compute_basis = \<lambda>p. key_of,
     resolve = \<lambda>p ctx. Inr \<lparr>rs_bytes = key_of ctx, rs_mime = ''text/plain'', rs_emitted = []\<rparr>\<rparr>"

definition failing_resolver :: "nat Resolver" where
  "failing_resolver = \<lparr>estimate_cost = \<lambda>p ctx. 10, compute_basis = \<lambda>p. key_of, resolve = \<lambda>p ctx. Inl ''down''\<rparr>"

definition again_resolver :: "nat Resolver" where
  "again_resolver = \<lparr>estimate_cost = \<lambda>p ctx. 0, compute_basis = \<lambda>p. key_of,
     resolve = \<lambda>p ctx. Inr \<lparr>rs_bytes = ''x'', rs_mime = ''text/plain'',
                           rs_emitted = [demo_cell ''r'' Skip (rc_now ctx)]\<rparr>\<rparr>"

definition demo_timeline :: "nat Resolver \<Rightarrow> Fallback \<Rightarrow> Tick \<Rightarrow> (nat, int) Timeline" where
  "demo_timeline r fb t = (case schedule demo_env (demo_cell ''r'' fb t)
       (register_resolver ''r'' r (timeline_new demo_env demo_clock)) of Some (Inr tml) \<Rightarrow> tml
     | _ \<Rightarrow> timeline_new demo_env demo_clock)"

lemmas demo_defs = demo_env_def demo_clock_def demo_cell_def deferred_on_def demo_timeline_def
  schedule_def register_resolver_def timeline_new_def beats_for_def Let_def

lemma resolver_ok_echo: "resolver_ok fwd echo_resolver" and resolver_ok_failing: "resolver_ok fwd failing_resolver"
  by (auto simp: resolver_ok_def echo_resolver_def failing_resolver_def)

lemma affordable_demo: "affordable demo_env demo_clock r"
  by (simp add: affordable_def demo_env_def demo_clock_def)

lemma demo_reachable:
  assumes "resolver_ok fwd r" and "0 < t"
  shows "(engine_step demo_env fwd)\<^sup>*\<^sup>* (timeline_new demo_env demo_clock) (demo_timeline r fb t)"
proof -
  let ?a = "timeline_new demo_env demo_clock :: (nat, int) Timeline" and ?c = "demo_cell ''r'' fb t"
  have 1: "engine_step demo_env fwd ?a (register_resolver ''r'' r ?a)"
    using assms(1) affordable_demo by (intro engine_step.do_register) (simp_all add: timeline_new_def)
  have "schedule demo_env ?c (register_resolver ''r'' r ?a) = Some (Inr (demo_timeline r fb t))"
    using assms(2) by (simp add: demo_defs)
  moreover have "cell_state ?c = CellState.Pending" by (simp add: demo_cell_def deferred_on_def)
  ultimately have "engine_step demo_env fwd (register_resolver ''r'' r ?a) (demo_timeline r fb t)"
    by (rule engine_step.do_schedule [rotated])
  with 1 show ?thesis by (meson converse_rtranclp_into_rtranclp r_into_rtranclp)
qed

definition demo_speculated :: "(nat, int) Timeline" where
  "demo_speculated = (let tml = demo_timeline echo_resolver Skip 5 in
     set_ambient ''key'' ''b'' (tml\<lparr>tl_future := map (\<lambda>s. s\<lparr>sc_cell := (sc_cell s)\<lparr>cell_state := Speculated\<rparr>,
       sc_predicted_basis := Some ''none'',
       sc_resolution := Some \<lparr>rs_bytes = ''none'', rs_mime = ''text/plain'', rs_emitted = []\<rparr>\<rparr>) (tl_future tml)\<rparr>))"

lemma demo_timeline_playhead: "tl_playhead (demo_timeline r fb t) = 0"
  by (simp add: demo_defs)

lemma advance_loop_idle:
  "tl_future tml = [] \<Longrightarrow> advance_loop E target tml = Some (Some (tml\<lparr>tl_playhead := target\<rparr>))"
  by (subst advance_loop.simps) (simp add: next_action_def)

text \<open>The two states between which the resolver that emits at its own start swings.\<close>

definition again_pending :: "nat Scheduled" where
  "again_pending = \<lparr>sc_cell = demo_cell ''r'' Skip 2, sc_start = 2, sc_speculate_at = 2, sc_commit_deadline = 1,
     sc_est_cost = 0, sc_predicted_basis = None, sc_resolution = None, sc_final_attempt = False\<rparr>"

definition again_speculated :: "nat Scheduled" where
  "again_speculated = set_state Speculated (again_pending\<lparr>sc_predicted_basis := Some ''none'',
     sc_resolution := Some \<lparr>rs_bytes = ''x'', rs_mime = ''text/plain'', rs_emitted = [demo_cell ''r'' Skip 2]\<rparr>\<rparr>)"

definition stuck :: "(nat, int) Timeline \<Rightarrow> bool" where
  "stuck tml \<longleftrightarrow> tl_clock tml = demo_clock \<and> tl_resolvers tml = [''r'' \<mapsto> again_resolver] \<and>
     tl_ambient tml = Map.empty \<and> (tl_future tml = [again_pending] \<or> tl_future tml = [again_speculated])"

lemma stuck_step:
  assumes "stuck tml"
  obtains i at tml' where "next_action 2 tml = Some (i, at)" and "act demo_env i at tml = Some tml'" and "stuck tml'"
proof (cases "tl_future tml = [again_pending]")
  case True
  have "next_action 2 tml = Some (0, 2)"
    using True by (simp add: next_action_def scan_step_def next_at_def again_pending_def demo_defs)
  moreover have "act demo_env 0 2 tml = Some (tml\<lparr>tl_playhead := 2, tl_future := [again_speculated]\<rparr>)"
    using True assms
    by (simp add: act_def speculate_def deferred_recipe_def again_pending_def again_speculated_def stuck_def
        demo_defs ctx_at_def again_resolver_def key_of_def)
  ultimately show ?thesis using that assms by (simp add: stuck_def)
next
  case False
  then have fut: "tl_future tml = [again_speculated]" using assms by (simp add: stuck_def)
  have "next_action 2 tml = Some (0, 1)"
    using fut by (simp add: next_action_def scan_step_def next_at_def again_speculated_def again_pending_def
        set_state_def demo_defs)
  moreover have "\<exists>tml'. act demo_env 0 1 tml = Some tml' \<and> stuck tml'"
    using fut assms
    by (simp add: act_def commit_or_squash_def commit_def deferred_recipe_def again_speculated_def again_pending_def
        stuck_def set_state_def demo_defs ctx_at_def again_resolver_def key_of_def swap_remove_def
        push_committed_def absorb_emitted_def)
  ultimately show ?thesis using that by blast
qed

lemma stuck_forever:
  assumes "stuck tml"
  shows "advance_loop demo_env 2 tml = None"
proof -
  have "E = demo_env \<Longrightarrow> target = 2 \<Longrightarrow> stuck tml \<Longrightarrow> False"
    if "advance_loop E target tml = Some y" for E target tml y
    using that
  proof (induction rule: advance_loop.raw_induct [rotated 1, consumes 1, case_names step])
    case (step loop E target tml y)
    obtain i at tml' where t: "next_action 2 tml = Some (i, at)" "act demo_env i at tml = Some tml'" "stuck tml'"
      using stuck_step [OF step(5)] by blast
    then have "loop E target tml' = Some y" using step(2-4) by simp
    from step(1) [OF this step(3,4) t(3)] show ?case .
  qed
  then show ?thesis using assms by (metis option.exhaust)
qed

definition demo_past :: "(nat, int) Timeline" where
  "demo_past = timeline_new demo_env demo_clock\<lparr>tl_committed := [concrete_on \<lparr>span_start = 3, span_len = 1\<rparr>
     \<lparr>cr_hash = ''h'', cr_mime = ''image/png''\<rparr> ''main'' 7]\<rparr>"

lemma demo_past_reachable: "(engine_step demo_env True)\<^sup>*\<^sup>* (timeline_new demo_env demo_clock) demo_past"
proof (rule r_into_rtranclp, rule engine_step.do_rehydrate)
  show "rehydrate_committed (tl_committed demo_past) (timeline_new demo_env demo_clock) = Some demo_past"
    by (simp add: rehydrate_committed_def demo_past_def timeline_new_def)
qed (simp add: demo_past_def)

section \<open>Properties\<close>

text \<open>
  C25: Through every run of the engine the invariant holds (scheduled cells are pending or hold a basis
  and a resolution, their resolvers are registered, the content store maps every hash to bytes with
  that hash, the past holds no recipe), advancing and pumping never panic, and the write barrier
  holds: no later step takes back what is committed, recorded as squashed or failed, or stored.  A run
  is made of the operations as the engine's callers use them, which \<open>engine_step\<close> spells out: what is
  scheduled, or emitted by a resolver, is pending; what is rehydrated is concrete; a new timeline is
  seeded at a tick that is not negative; and the clock can multiply the estimates of the registered
  resolvers by its safety factor, where \<open>Duration::mul_f64\<close> panics otherwise.  Ticks are numbers here:
  a subtraction of a lead or a margin that leaves the range of \<open>i64\<close>, which a debug build answers with a
  panic, is outside the statement.
\<close>

theorem engine_invariant:
  assumes "(engine_step E fwd)\<^sup>*\<^sup>* (timeline_new E c) tml"
  shows "tl_ok E fwd tml \<and> advance_to E target tml \<noteq> Some None \<and> pump E t tml \<noteq> Some None \<and>
    (\<forall>tml'. (engine_step E fwd)\<^sup>*\<^sup>* tml tml' \<longrightarrow> later tml tml')"
proof -
  have ok: "tl_ok E fwd tml" using engine_run.run_invariant [OF assms tl_ok_new] by simp
  then show ?thesis using advance_to_ok pump_ok engine_run.run_invariant by fastforce
qed

theorem engine_invariant_witness:
  "tl_ok demo_env True (demo_timeline echo_resolver Skip 5) \<and>
   advance_to demo_env 9 (demo_timeline echo_resolver Skip 5) \<noteq> Some None"
  using engine_invariant [OF demo_reachable [OF resolver_ok_echo [of True], of 5 Skip], of 9 0] by simp

text \<open>
  C26: When the resolvers only emit cells that start after the one they resolve, \<open>advance_to\<close> returns:
  the playhead arrives at the target, and no action that was due by then is left.
\<close>

theorem advance_returns:
  assumes "(engine_step E True)\<^sup>*\<^sup>* (timeline_new E c) tml"
  shows "\<exists>tml'. advance_to E target tml = Some (Some tml') \<and> later tml tml' \<and>
    tl_playhead tml' = max (tl_playhead tml) target \<and>
    (tl_playhead tml < target \<longrightarrow> (\<forall>s \<in> set (tl_future tml'). \<forall>at. next_at s = Some at \<longrightarrow> target < at))"
proof (cases "target \<le> tl_playhead tml")
  case True
  then show ?thesis by (simp add: advance_to_def later_def)
next
  case False
  have ok: "tl_ok E True tml" using engine_run.run_invariant [OF assms tl_ok_new] by simp
  define B where "B = Max (insert (target + \<bar>commit_margin (tl_clock tml)\<bar>) (sc_start ` set (tl_future tml))) + 1"
  have le: "x < B" if "x \<in> insert (target + \<bar>commit_margin (tl_clock tml)\<bar>) (sc_start ` set (tl_future tml))" for x
    using Max_ge [OF _ that] by (simp add: B_def)
  have "target + \<bar>commit_margin (tl_clock tml)\<bar> < B" using le by blast
  moreover have "\<forall>s \<in> set (tl_future tml). bounded_by B target s" using le by (simp add: bounded_by_def)
  ultimately obtain r where r: "advance_loop E target tml = Some r"
    using advance_loop_returns [OF ok, of target B] by fastforce
  from advance_loop_ok [OF r ok] obtain tml' where t: "r = Some tml'" "log_grows tml tml'"
      "tl_playhead tml' = target" "next_action target tml' = None" by blast
  from next_action_None [OF t(4)] have "\<forall>s \<in> set (tl_future tml'). \<forall>at. next_at s = Some at \<longrightarrow> target < at"
    by (auto simp: due_def)
  then show ?thesis using False r t by (simp add: advance_to_def later_def)
qed

theorem advance_returns_witness:
  "\<exists>tml'. advance_to demo_env 9 (demo_timeline echo_resolver Skip 5) = Some (Some tml') \<and> tl_playhead tml' = 9"
proof -
  have "tl_playhead (demo_timeline echo_resolver Skip 5) = 0" by (simp add: demo_defs)
  then show ?thesis
    using advance_returns [OF demo_reachable [OF resolver_ok_echo [of True], of 5 Skip], of 9] by auto
qed

text \<open>
  C27: A cell that reaches its deadline is committed exactly when the basis recomputed now is the one
  its speculation saw: then the past gains the cell with its content, in the same lane and by the same
  player, followed by the concrete cells it emitted, and the content is in the store.  Otherwise a
  squash is recorded; with budget for another try the past stays as it is, without it the past gains at
  most the fallback's content.
\<close>

theorem commit_or_squash_spec:
  assumes "tl_ok E fwd tml" and "i < length (tl_future tml)" and "tl_future tml ! i = s"
    and "cell_state (sc_cell s) = Speculated"
  shows "\<exists>rc r b res tml'. cell_body (sc_cell s) = Deferred rc \<and> tl_resolvers tml (rp_resolver rc) = Some r \<and>
    sc_predicted_basis s = Some b \<and> sc_resolution s = Some res \<and> commit_or_squash E i tml = Some tml' \<and>
    (let actual = compute_basis r (rp_params rc) (ctx_at (sc_start s) tml);
         cell = (sc_cell s)\<lparr>cell_body := Concrete (content_ref E res), cell_state := Committed\<rparr>;
         can = \<not> sc_final_attempt s \<and> sc_est_cost s \<le> sc_start s - tl_playhead tml
     in if actual = b
        then tl_committed tml' = tl_committed tml @ cell # released_past cell (rs_emitted res) \<and>
             tl_squashes tml' = tl_squashes tml \<and>
             (\<exists>bytes. tl_cas tml' (ev_hash E (rs_bytes res)) = Some bytes \<and> ev_hash E bytes = ev_hash E (rs_bytes res))
        else tl_squashes tml' = tl_squashes tml @ [\<lparr>sq_at = tl_playhead tml, sq_start = sc_start s,
               sq_predicted = b, sq_actual = actual, sq_recovery = (if can then ReSpeculated else FellBack)\<rparr>] \<and>
             tl_committed tml' = tl_committed tml @
               (if can then [] else fallback_past E tml rc (sc_cell s)))"
proof -
  have so: "sched_ok fwd (tl_resolvers tml) s" using assms(1-3) by (auto simp: tl_ok_def)
  then obtain rc r b res where f: "cell_body (sc_cell s) = Deferred rc" "tl_resolvers tml (rp_resolver rc) = Some r"
      "sc_predicted_basis s = Some b" "sc_resolution s = Some res"
    using assms(4) by (auto simp: sched_ok_def speculated_ok_def)
  obtain tml' N where t: "commit_or_squash E i tml = Some tml'" "effect E {#s#} N tml tml'"
    using commit_or_squash_effect [OF assms(2,3,1,4)] by blast
  let ?actual = "compute_basis r (rp_params rc) (ctx_at (sc_start s) tml)"
  have branch: "commit_or_squash E i tml = (if ?actual = b then commit E i tml else squash E i b ?actual tml)"
    using assms(3) f by (simp add: commit_or_squash_def deferred_recipe_def squash_def Let_def)
  show ?thesis
  proof (cases "?actual = b")
    case True
    then have "commit E i tml = Some tml'" using branch t(1) by simp
    note logs = commit_logs [OF _ this, of res, unfolded assms(3), OF f(4)]
    have "cas_ok E tml'" using t(2) assms(1) by (simp add: effect_def tl_ok_def)
    then show ?thesis using f t(1) True logs by (auto simp: Let_def cas_ok_def)
  next
    case False
    then have "squash E i b ?actual tml = Some tml'" using branch t(1) by simp
    note logs = squash_logs [OF this assms(2,3) f(1)]
    show ?thesis using f t(1) False logs by (simp add: Let_def)
  qed
qed

theorem commit_or_squash_spec_witness:
  "\<exists>tml'. commit_or_squash demo_env 0 demo_speculated = Some tml' \<and>
     tl_squashes tml' = [\<lparr>sq_at = 0, sq_start = 5, sq_predicted = ''none'', sq_actual = ''b'', sq_recovery = ReSpeculated\<rparr>] \<and>
     tl_committed tml' = []"
proof -
  have ok: "tl_ok demo_env True demo_speculated"
    by (auto simp: demo_speculated_def demo_defs tl_ok_def cas_ok_def past_ok_def sched_ok_def speculated_ok_def
        resolver_ok_echo set_ambient_def affordable_def)
  have f: "0 < length (tl_future demo_speculated)" "cell_state (sc_cell (tl_future demo_speculated ! 0)) = Speculated"
    by (simp_all add: demo_speculated_def demo_defs set_ambient_def)
  show ?thesis
    using commit_or_squash_spec [OF ok f(1) refl f(2)]
    by (auto simp: demo_speculated_def demo_defs set_ambient_def echo_resolver_def key_of_def ctx_at_def)
qed

text \<open>
  A cell scheduled with less lead than its cost is due in the past: advancing to tick 3 moves the
  playhead from 0 back to tick -5 to speculate it, and the failure is recorded as having happened there.
\<close>

theorem playhead_rewinds:
  "tl_playhead (demo_timeline failing_resolver Skip 5) = 0 \<and>
   (\<exists>tml'. advance_to demo_env 3 (demo_timeline failing_resolver Skip 5) = Some (Some tml') \<and>
     map fe_at (tl_failures tml') = [-5])"
proof -
  have "next_action 3 (demo_timeline failing_resolver Skip 5) = Some (0, -5)"
    by (simp add: demo_defs next_action_def scan_step_def next_at_def failing_resolver_def)
  moreover have "\<exists>tml. act demo_env 0 (-5) (demo_timeline failing_resolver Skip 5) = Some tml \<and>
      map fe_at (tl_failures tml) = [-5] \<and> tl_future tml = []"
    by (simp add: demo_defs act_def speculate_def deferred_recipe_def failing_resolver_def swap_remove_def)
  ultimately show ?thesis
    by (auto simp: advance_to_def advance_loop.simps [of _ _ "demo_timeline _ _ _"] demo_timeline_playhead
        advance_loop_idle)
qed

text \<open>
  C39: A resolver that emits a cell at its own start keeps the clock: the commit happens a margin before
  the start, so the new cell is accepted, is due at once, and \<open>advance_to\<close> never returns.
\<close>

theorem advance_may_not_return:
  "advance_to demo_env 2 (demo_timeline again_resolver Skip 2) = None"
proof -
  have "stuck (demo_timeline again_resolver Skip 2)"
    by (simp add: stuck_def again_pending_def demo_defs again_resolver_def)
  then have "advance_loop demo_env 2 (demo_timeline again_resolver Skip 2) = None"
    by (rule stuck_forever)
  then show ?thesis by (simp add: advance_to_def demo_timeline_playhead)
qed

text \<open>
  Every cell in the past of a running engine becomes a block: at the tick where it starts, on its
  track, under the given id; text carries the stored bytes, anything else the hash of the content.
\<close>

theorem materialize_committed:
  assumes "(engine_step E fwd)\<^sup>*\<^sup>* (timeline_new E c) tml" and "cell \<in> set (tl_committed tml)"
  shows "\<exists>cref b. cell_body cell = Concrete cref \<and> materialize lossy now tml cell i = Some b \<and> bs_id b = i \<and>
    bs_kind b = BlockKind.Text \<and> bs_tick b = Some (span_start (cell_span cell)) \<and> bs_track b = Some (cell_track cell) \<and>
    bs_content_type b = from_mime (cr_mime cref) \<and>
    (if starts_with (cr_mime cref) ''text/''
     then bs_role b = Role.Model \<and>
          (case tl_cas tml (cr_hash cref) of Some bytes \<Rightarrow> bs_content b = lossy bytes \<and> ev_hash E bytes = cr_hash cref
           | None \<Rightarrow> bs_content b = [])
     else bs_role b = Role.Asset \<and> bs_content b = cr_hash cref)"
proof -
  have ok: "tl_ok E fwd tml" using engine_run.run_invariant [OF assms(1) tl_ok_new] by simp
  then obtain cref where "cell_body cell = Concrete cref"
    using assms(2) by (cases "cell_body cell") (auto simp: tl_ok_def past_ok_def is_deferred_def)
  then show ?thesis using ok
    by (auto simp: materialize_def Let_def tl_ok_def cas_ok_def builder_new_def builder_tick_def builder_track_def
        builder_content_type_def builder_role_def builder_content_def split: option.splits)
qed

theorem materialize_committed_witness:
  "bs_track (the (materialize (\<lambda>b. b) 0 demo_past (concrete_on \<lparr>span_start = 3, span_len = 1\<rparr>
     \<lparr>cr_hash = ''h'', cr_mime = ''image/png''\<rparr> ''main'' 7) (BlockId 1 7 0))) = Some ''main''"
proof -
  have "cell \<in> set (tl_committed demo_past) \<longleftrightarrow>
      cell = concrete_on \<lparr>span_start = 3, span_len = 1\<rparr> \<lparr>cr_hash = ''h'', cr_mime = ''image/png''\<rparr> ''main'' 7" for cell
    by (simp add: demo_past_def)
  then show ?thesis
    using materialize_committed [OF demo_past_reachable, of _ "\<lambda>b. b" 0 "BlockId 1 7 0"] by (fastforce simp: concrete_on_def)
qed

end
