(* ===== verification/Client_Sync.thy ===== *)
theory Client_Sync
  imports Store_Restore
begin

text \<open>
  The client's copy of a document: \<open>crates/kaijutsu-client/src/sync.rs\<close> (\<open>SyncManager\<close>) and
  \<open>synced_document.rs\<close> (\<open>SyncedDocument\<close>).

  The two decoders of \<open>kaijutsu_types::codec\<close> (CBOR, a third-party format), the texts of errors and
  contexts and the wall clock are the record \<open>client_env\<close>.  A method that takes the manager and the
  store by mutable reference passes both.  Logging is left out.
\<close>

section \<open>The manager\<close>

type_synonym payload_bytes = string

record 'o client_env =
  decode_snapshot :: "payload_bytes \<Rightarrow> string + 'o StoreSnapshot"
  decode_payload :: "payload_bytes \<Rightarrow> string + 'o SyncPayload"
  context_text :: "ContextId \<Rightarrow> string"
  crdt_text :: "CrdtError \<Rightarrow> string"
  wall_clock :: u64

definition MAX_PENDING_OPS :: usize where
  "MAX_PENDING_OPS = 200"

datatype SkipReason =
    EmptyOplog
  | DocumentIdMismatch string string
  | BlockAlreadyExists
  | ProtocolViolation string

datatype SyncResult = FullSync usize | IncrementalMerge | Skipped SkipReason

datatype SyncError = FromOplog string | Deserialize string | Merge string

record 'f SyncManager =
  sm_frontier :: "(BlockId \<rightharpoonup> 'f) option"
  sm_context_id :: "ContextId option"
  sm_version :: u64
  sm_pending_ops :: "(BlockId option \<times> payload_bytes) list"

text \<open>A call on the manager and the store.\<close>

type_synonym ('d, 'f, 'a) sync_call = "'f SyncManager \<times> 'd BlockStore \<times> (SyncError + 'a)"

definition manager_new :: "'f SyncManager" where
  "manager_new = \<lparr>sm_frontier = None, sm_context_id = None, sm_version = 0, sm_pending_ops = []\<rparr>"

definition with_state :: "ContextId option \<Rightarrow> (BlockId \<rightharpoonup> 'f) option \<Rightarrow> 'f SyncManager" where
  "with_state ctx f = \<lparr>sm_frontier = f, sm_context_id = ctx, sm_version = 0, sm_pending_ops = []\<rparr>"

definition needs_full_sync :: "ContextId \<Rightarrow> 'f SyncManager \<Rightarrow> bool" where
  "needs_full_sync ctx m \<longleftrightarrow> sm_frontier m = None \<or> sm_context_id m \<noteq> Some ctx"

definition bump_version :: "'f SyncManager \<Rightarrow> 'f SyncManager" where
  "bump_version m = m\<lparr>sm_version := (sm_version m + 1) mod 2 ^ 64\<rparr>"

definition manager_reset :: "'f SyncManager \<Rightarrow> 'f SyncManager" where
  "manager_reset m = m\<lparr>sm_frontier := None\<rparr>"

definition manager_reset_frontier :: "'f SyncManager \<Rightarrow> 'f SyncManager" where
  "manager_reset_frontier m = m\<lparr>sm_frontier := None, sm_pending_ops := []\<rparr>"

definition buffer_failed_ops :: "BlockId option \<Rightarrow> payload_bytes \<Rightarrow> 'f SyncManager \<Rightarrow> 'f SyncManager" where
  "buffer_failed_ops i ops m =
     (if MAX_PENDING_OPS \<le> length (sm_pending_ops m) then manager_reset (m\<lparr>sm_pending_ops := []\<rparr>)
      else m\<lparr>sm_pending_ops := sm_pending_ops m @ [(i, ops)]\<rparr>)"

definition do_incremental_merge ::
  "('d, 'o, 'f) dte \<Rightarrow> 'o client_env \<Rightarrow> payload_bytes \<Rightarrow> 'f SyncManager \<Rightarrow> 'd BlockStore
    \<Rightarrow> ('d, 'f, SyncResult) sync_call" where
  "do_incremental_merge D C ops m doc =
     (case decode_payload C ops of
        Inl e \<Rightarrow> (m\<lparr>sm_frontier := None\<rparr>, doc, Inl (Deserialize e))
      | Inr payload \<Rightarrow>
          (case store_merge_ops D payload doc of
             (doc, Inr _) \<Rightarrow> (bump_version (m\<lparr>sm_frontier := Some (store_frontier D doc)\<rparr>), doc, Inr IncrementalMerge)
           | (doc, Inl e) \<Rightarrow> (m\<lparr>sm_frontier := None\<rparr>, doc, Inl (Merge (crdt_text C e)))))"

definition do_full_sync ::
  "('d, 'o, 'f) dte \<Rightarrow> 'o client_env \<Rightarrow> ContextId \<Rightarrow> payload_bytes \<Rightarrow> 'f SyncManager \<Rightarrow> 'd BlockStore
    \<Rightarrow> ('d, 'f, SyncResult) sync_call" where
  "do_full_sync D C ctx bytes m doc =
     (case decode_snapshot C bytes of
        Inl e \<Rightarrow> (m, doc, Inl (FromOplog (''snapshot deserialization failed: '' @ e)))
      | Inr snap \<Rightarrow>
          (case store_from_snapshot D (wall_clock C) snap (st_principal_id doc) of
             Inl e \<Rightarrow> (m, doc, Inl (FromOplog (''snapshot restore failed: '' @ crdt_text C e)))
           | Inr new \<Rightarrow>
               (bump_version (m\<lparr>sm_frontier := Some (store_frontier D new), sm_context_id := Some ctx\<rparr>), new,
                Inr (FullSync (block_count new)))))"

text \<open>The loop of \<open>replay_pending_ops\<close>; the last component collects what stays pending.\<close>

fun replay_ops ::
  "('d, 'o, 'f) dte \<Rightarrow> 'o client_env \<Rightarrow> (BlockId option \<times> payload_bytes) list \<Rightarrow> 'f SyncManager \<Rightarrow> 'd BlockStore
    \<Rightarrow> 'f SyncManager \<times> 'd BlockStore \<times> (BlockId option \<times> payload_bytes) list" where
  "replay_ops D C [] m doc = (m, doc, [])"
| "replay_ops D C ((i, ops) # rest) m doc =
     (let (m, doc, r) = do_incremental_merge D C ops m doc;
          (m', doc', still) = replay_ops D C rest m doc
      in (m', doc', (case r of Inl (Merge _) \<Rightarrow> (i, ops) # still | _ \<Rightarrow> still)))"

definition replay_pending_ops ::
  "('d, 'o, 'f) dte \<Rightarrow> 'o client_env \<Rightarrow> 'f SyncManager \<Rightarrow> 'd BlockStore \<Rightarrow> 'f SyncManager \<times> 'd BlockStore" where
  "replay_pending_ops D C m doc =
     (if sm_pending_ops m = [] then (m, doc)
      else
        (let (m', doc', still) = replay_ops D C (sm_pending_ops m) (m\<lparr>sm_pending_ops := []\<rparr>) doc
         in (m'\<lparr>sm_pending_ops := still\<rparr>, doc')))"

text \<open>Every successful call replays.\<close>

definition then_replay ::
  "('d, 'o, 'f) dte \<Rightarrow> 'o client_env \<Rightarrow> ('d, 'f, SyncResult) sync_call \<Rightarrow> ('d, 'f, SyncResult) sync_call" where
  "then_replay D C r =
     (case r of
        (m, doc, Inr x) \<Rightarrow> (let (m, doc) = replay_pending_ops D C m doc in (m, doc, Inr x))
      | (m, doc, Inl e) \<Rightarrow> (m, doc, Inl e))"

definition apply_initial_state ::
  "('d, 'o, 'f) dte \<Rightarrow> 'o client_env \<Rightarrow> ContextId \<Rightarrow> payload_bytes \<Rightarrow> 'f SyncManager \<Rightarrow> 'd BlockStore
    \<Rightarrow> ('d, 'f, SyncResult) sync_call" where
  "apply_initial_state D C ctx bytes m doc =
     (if bytes = [] then (m, doc, Inr (Skipped EmptyOplog))
      else then_replay D C (do_full_sync D C ctx bytes m doc))"

definition apply_block_inserted ::
  "('d, 'o, 'f) dte \<Rightarrow> 'o client_env \<Rightarrow> ContextId \<Rightarrow> BlockSnapshot \<Rightarrow> payload_bytes \<Rightarrow> 'f SyncManager
    \<Rightarrow> 'd BlockStore \<Rightarrow> ('d, 'f, SyncResult) sync_call" where
  "apply_block_inserted D C ctx block ops m doc =
     (if ctx \<noteq> st_context_id doc then
        (m, doc, Inr (Skipped (DocumentIdMismatch (context_text C (st_context_id doc)) (context_text C ctx))))
      else if get_block_snapshot D doc (bs_id block) \<noteq> None then (m, doc, Inr (Skipped BlockAlreadyExists))
      else if ops = [] then
        (m, doc, Inr (Skipped (ProtocolViolation ''BlockInserted has no ops - server must send creation ops'')))
      else then_replay D C
        (if needs_full_sync ctx m then
           (case do_incremental_merge D C ops m doc of
              (m, doc, Inr x) \<Rightarrow> (m, doc, Inr x)
            | (m, doc, Inl _) \<Rightarrow>
                (case do_full_sync D C ctx ops m doc of
                   (m, doc, Inr x) \<Rightarrow> (m, doc, Inr x)
                 | (m, doc, Inl e) \<Rightarrow> (buffer_failed_ops (Some (bs_id block)) ops m, doc, Inl e)))
         else do_incremental_merge D C ops m doc))"

definition apply_text_ops ::
  "('d, 'o, 'f) dte \<Rightarrow> 'o client_env \<Rightarrow> ContextId \<Rightarrow> payload_bytes \<Rightarrow> 'f SyncManager \<Rightarrow> 'd BlockStore
    \<Rightarrow> ('d, 'f, SyncResult) sync_call" where
  "apply_text_ops D C ctx ops m doc =
     (if ctx \<noteq> st_context_id doc then
        (m, doc, Inr (Skipped (DocumentIdMismatch (context_text C (st_context_id doc)) (context_text C ctx))))
      else if needs_full_sync ctx m then (m, doc, Inr (Skipped EmptyOplog))
      else if ops = [] then (m, doc, Inr (Skipped EmptyOplog))
      else case do_incremental_merge D C ops m doc of
             (m, doc, Inr x) \<Rightarrow> then_replay D C (m, doc, Inr x)
           | (m, doc, Inl (Merge e)) \<Rightarrow> (buffer_failed_ops None ops m, doc, Inl (Merge e))
           | (m, doc, Inl e) \<Rightarrow> (m, doc, Inl e))"

subsection \<open>Direct changes\<close>

definition apply_change ::
  "'o client_env \<Rightarrow> ('d BlockStore \<Rightarrow> ('d, unit) outcome) \<Rightarrow> 'f SyncManager \<Rightarrow> 'd BlockStore
    \<Rightarrow> ('d, 'f, unit) sync_call" where
  "apply_change C f m doc =
     (case f doc of
        (doc, Inr _) \<Rightarrow> (bump_version m, doc, Inr ())
      | (doc, Inl e) \<Rightarrow> (m, doc, Inl (Merge (crdt_text C e))))"

definition and_then ::
  "('d BlockStore \<Rightarrow> ('d, unit) outcome) \<Rightarrow> ('d BlockStore \<Rightarrow> ('d, unit) outcome) \<Rightarrow> 'd BlockStore \<Rightarrow> ('d, unit) outcome" where
  "and_then f g s = (case f s of (s, Inr _) \<Rightarrow> g s | (s, Inl e) \<Rightarrow> (s, Inl e))"

definition apply_status_change ::
  "'o client_env \<Rightarrow> BlockId \<Rightarrow> Status \<Rightarrow> 'f SyncManager \<Rightarrow> 'd BlockStore \<Rightarrow> ('d, 'f, unit) sync_call" where
  "apply_status_change C i v = apply_change C (store_set_status i v)"

definition apply_output_change ::
  "'o client_env \<Rightarrow> BlockId \<Rightarrow> OutputData option \<Rightarrow> 'f SyncManager \<Rightarrow> 'd BlockStore \<Rightarrow> ('d, 'f, unit) sync_call" where
  "apply_output_change C i v = apply_change C (store_set_output i v)"

definition apply_metadata_change ::
  "'o client_env \<Rightarrow> BlockId \<Rightarrow> BlockMetadata \<Rightarrow> 'f SyncManager \<Rightarrow> 'd BlockStore \<Rightarrow> ('d, 'f, unit) sync_call" where
  "apply_metadata_change C i v = apply_change C
     (and_then (store_set_exit_code i (bm_exit_code v))
     (and_then (store_set_stderr i (bm_stderr v))
     (and_then (store_set_content_type i (bm_content_type v))
     (and_then (store_set_ephemeral i (bm_ephemeral v))
       (store_set_tool_use_id i (bm_tool_use_id v))))))"

definition apply_delete ::
  "'o client_env \<Rightarrow> BlockId \<Rightarrow> 'f SyncManager \<Rightarrow> 'd BlockStore \<Rightarrow> ('d, 'f, unit) sync_call" where
  "apply_delete C i = apply_change C (delete_block i)"

definition apply_collapsed_change ::
  "'o client_env \<Rightarrow> BlockId \<Rightarrow> bool \<Rightarrow> 'f SyncManager \<Rightarrow> 'd BlockStore \<Rightarrow> ('d, 'f, unit) sync_call" where
  "apply_collapsed_change C i v = apply_change C (store_set_collapsed i v)"

definition apply_excluded_change ::
  "'o client_env \<Rightarrow> BlockId \<Rightarrow> bool \<Rightarrow> 'f SyncManager \<Rightarrow> 'd BlockStore \<Rightarrow> ('d, 'f, unit) sync_call" where
  "apply_excluded_change C i v = apply_change C (store_set_excluded i v)"

definition apply_move ::
  "'o client_env \<Rightarrow> BlockId \<Rightarrow> BlockId option \<Rightarrow> 'f SyncManager \<Rightarrow> 'd BlockStore \<Rightarrow> ('d, 'f, unit) sync_call" where
  "apply_move C i after = apply_change C (move_block i after)"

section \<open>Events of the server\<close>

record SyncState =
  ss_state_context :: ContextId
  ss_state_ops :: payload_bytes
  ss_state_version :: u64

text \<open>Payloads that the document never looks into (editor states, cues, digests) are of type \<open>'x\<close>.\<close>

datatype 'x ServerEvent =
    BlockInserted ContextId BlockSnapshot payload_bytes
  | BlockTextOps ContextId BlockId payload_bytes u64
  | BlockStatusChanged ContextId BlockId Status
  | BlockOutputChanged ContextId BlockId "OutputData option"
  | BlockMetadataChanged ContextId BlockId BlockMetadata
  | BlockDeleted ContextId BlockId
  | BlockCollapsedChanged ContextId BlockId bool
  | BlockExcludedChanged ContextId BlockId bool
  | BlockMoved ContextId BlockId "BlockId option"
  | SyncReset ContextId u64
  | InputTextOps ContextId payload_bytes u64
  | InputCleared ContextId
  | ResourceUpdated string string
  | ResourceListChanged string
  | ContextSwitched ContextId
  | EditorStateChanged 'x
  | EditorClosed u64
  | Reconnected
  | ContextResynced SyncState
  | RenderCue ContextId 'x
  | BeatSync ContextId 'x
  | VfsActivity 'x u64

datatype SyncEffect = Updated usize | FullySynced usize | Ignored | NeedsResync

fun event_block_id :: "'x ServerEvent \<Rightarrow> BlockId option" where
  "event_block_id (BlockTextOps _ i _ _) = Some i"
| "event_block_id (BlockStatusChanged _ i _) = Some i"
| "event_block_id (BlockOutputChanged _ i _) = Some i"
| "event_block_id (BlockMetadataChanged _ i _) = Some i"
| "event_block_id (BlockDeleted _ i) = Some i"
| "event_block_id (BlockCollapsedChanged _ i _) = Some i"
| "event_block_id (BlockExcludedChanged _ i _) = Some i"
| "event_block_id (BlockMoved _ i _) = Some i"
| "event_block_id _ = None"

fun event_context_id :: "'x ServerEvent \<Rightarrow> ContextId option" where
  "event_context_id (BlockInserted c _ _) = Some c"
| "event_context_id (BlockTextOps c _ _ _) = Some c"
| "event_context_id (BlockStatusChanged c _ _) = Some c"
| "event_context_id (BlockOutputChanged c _ _) = Some c"
| "event_context_id (BlockMetadataChanged c _ _) = Some c"
| "event_context_id (BlockDeleted c _) = Some c"
| "event_context_id (BlockCollapsedChanged c _ _) = Some c"
| "event_context_id (BlockExcludedChanged c _ _) = Some c"
| "event_context_id (BlockMoved c _ _) = Some c"
| "event_context_id (SyncReset c _) = Some c"
| "event_context_id (InputTextOps c _ _) = Some c"
| "event_context_id (InputCleared c) = Some c"
| "event_context_id (ContextSwitched c) = Some c"
| "event_context_id (RenderCue c _) = Some c"
| "event_context_id (BeatSync c _) = Some c"
| "event_context_id (ContextResynced st) = Some (ss_state_context st)"
| "event_context_id _ = None"

section \<open>The document\<close>

text \<open>The pending events are a \<open>HashMap\<close>; its order is not observed.\<close>

record ('d, 'f, 'x) SyncedDocument =
  sd_doc :: "'d BlockStore"
  sd_sync :: "'f SyncManager"
  sd_context_id :: ContextId
  sd_pending_events :: "(BlockId, 'x ServerEvent list) btree"

definition MAX_PENDING_BLOCKS :: usize where
  "MAX_PENDING_BLOCKS = 64"

definition MAX_EVENTS_PER_BLOCK :: usize where
  "MAX_EVENTS_PER_BLOCK = 128"

definition synced_new :: "ContextId \<Rightarrow> PrincipalId \<Rightarrow> ('d, 'f, 'x) SyncedDocument" where
  "synced_new ctx p =
     \<lparr>sd_doc = store_new ctx p, sd_sync = manager_new, sd_context_id = ctx, sd_pending_events = []\<rparr>"

definition from_sync_state ::
  "('d, 'o, 'f) dte \<Rightarrow> 'o client_env \<Rightarrow> SyncState \<Rightarrow> PrincipalId \<Rightarrow> SyncError + ('d, 'f, 'x) SyncedDocument" where
  "from_sync_state D C st p =
     (let sd = synced_new (ss_state_context st) p
      in if ss_state_ops st = [] then Inr sd
         else case apply_initial_state D C (ss_state_context st) (ss_state_ops st) (sd_sync sd) (sd_doc sd) of
                (m, doc, Inl e) \<Rightarrow> Inl e
              | (m, doc, Inr _) \<Rightarrow> Inr (sd\<lparr>sd_sync := m, sd_doc := doc\<rparr>))"

definition is_synced :: "('d, 'f, 'x) SyncedDocument \<Rightarrow> bool" where
  "is_synced sd \<longleftrightarrow> \<not> needs_full_sync (sd_context_id sd) (sd_sync sd)"

definition buffer_event :: "BlockId \<Rightarrow> 'x ServerEvent \<Rightarrow> ('d, 'f, 'x) SyncedDocument \<Rightarrow> ('d, 'f, 'x) SyncedDocument" where
  "buffer_event i ev sd =
     (let pending = sd_pending_events sd in
      if MAX_PENDING_BLOCKS \<le> length pending \<and> \<not> bt_contains pending i then sd
      else
        (let buf = (case bt_get pending i of Some evs \<Rightarrow> evs | None \<Rightarrow> [])
         in if MAX_EVENTS_PER_BLOCK \<le> length buf then sd\<lparr>sd_pending_events := bt_insert i buf pending\<rparr>
            else sd\<lparr>sd_pending_events := bt_insert i (buf @ [ev]) pending\<rparr>))"

text \<open>
  \<open>apply_event_inner\<close>.  Its arm for an insertion ends in \<open>replay_pending\<close>, which takes the buffered
  events of the block out and applies each by \<open>apply_event_inner\<close> again: \<open>handle_event\<close> returns them,
  and \<open>drain\<close> is the recursion over this work list.
\<close>

definition updated :: "'f SyncManager \<times> 'd BlockStore \<times> 'r \<Rightarrow> ('d, 'f, 'x) SyncedDocument
    \<Rightarrow> ('d, 'f, 'x) SyncedDocument \<times> 'x ServerEvent list \<times> SyncEffect" where
  "updated r sd = (case r of (m, doc, _) \<Rightarrow> (sd\<lparr>sd_sync := m, sd_doc := doc\<rparr>, [], Updated (block_count doc)))"

definition handle_event ::
  "('d, 'o, 'f) dte \<Rightarrow> 'o client_env \<Rightarrow> 'x ServerEvent \<Rightarrow> ('d, 'f, 'x) SyncedDocument
    \<Rightarrow> ('d, 'f, 'x) SyncedDocument \<times> 'x ServerEvent list \<times> SyncEffect" where
  "handle_event D C ev sd =
     (let m = sd_sync sd; doc = sd_doc sd; pending = sd_pending_events sd; ours = sd_context_id sd in
      case ev of
        BlockInserted ctx block ops \<Rightarrow>
          (if ctx \<noteq> ours then (sd, [], Ignored)
           else
             (let (m, doc, r) = apply_block_inserted D C ctx block ops m doc;
                  effect = (case r of Inr (FullSync n) \<Rightarrow> FullySynced n | _ \<Rightarrow> Updated (block_count doc))
              in (sd\<lparr>sd_sync := m, sd_doc := doc, sd_pending_events := bt_remove (bs_id block) pending\<rparr>,
                  (case bt_get pending (bs_id block) of Some evs \<Rightarrow> evs | None \<Rightarrow> []), effect)))
      | BlockTextOps ctx i ops _ \<Rightarrow>
          (if ctx \<noteq> ours then (sd, [], Ignored) else updated (apply_text_ops D C ctx ops m doc) sd)
      | BlockStatusChanged ctx i v \<Rightarrow>
          (if ctx \<noteq> ours then (sd, [], Ignored) else updated (apply_status_change C i v m doc) sd)
      | BlockOutputChanged ctx i v \<Rightarrow>
          (if ctx \<noteq> ours then (sd, [], Ignored) else updated (apply_output_change C i v m doc) sd)
      | BlockMetadataChanged ctx i v \<Rightarrow>
          (if ctx \<noteq> ours then (sd, [], Ignored) else updated (apply_metadata_change C i v m doc) sd)
      | BlockDeleted ctx i \<Rightarrow>
          (if ctx \<noteq> ours then (sd, [], Ignored)
           else (case updated (apply_delete C i m doc) sd of
                   (sd, es, effect) \<Rightarrow> (sd\<lparr>sd_pending_events := bt_remove i pending\<rparr>, es, effect)))
      | BlockCollapsedChanged ctx i v \<Rightarrow>
          (if ctx \<noteq> ours then (sd, [], Ignored) else updated (apply_collapsed_change C i v m doc) sd)
      | BlockExcludedChanged ctx i v \<Rightarrow>
          (if ctx \<noteq> ours then (sd, [], Ignored) else updated (apply_excluded_change C i v m doc) sd)
      | BlockMoved ctx i after \<Rightarrow>
          (if ctx \<noteq> ours then (sd, [], Ignored) else updated (apply_move C i after m doc) sd)
      | SyncReset ctx _ \<Rightarrow>
          (if ctx \<noteq> ours then (sd, [], Ignored)
           else (sd\<lparr>sd_sync := manager_reset_frontier m, sd_pending_events := []\<rparr>, [], NeedsResync))
      | _ \<Rightarrow> (sd, [], Ignored))"

definition pending_total :: "(BlockId, 'x ServerEvent list) btree \<Rightarrow> nat" where
  "pending_total p = sum_list (map (\<lambda>(_, evs). length evs) p)"

lemma pending_total_remove:
  "pending_total (bt_remove i p) + length (case bt_get p i of Some evs \<Rightarrow> evs | None \<Rightarrow> []) \<le> pending_total p"
proof (induction p)
  case (Cons e p)
  then show ?case by (cases e) (auto simp: bt_remove_def bt_get_def pending_total_def)
qed (simp add: bt_remove_def bt_get_def pending_total_def)

lemmas pending_total_removed = add_leD1 [OF pending_total_remove]

lemma handle_event_waiting:
  assumes "handle_event D C ev sd = (sd', es, effect)"
  shows "pending_total (sd_pending_events sd') + length es \<le> pending_total (sd_pending_events sd)"
  using assms pending_total_remove [of _ "sd_pending_events sd"]
  by (cases ev) (auto simp: handle_event_def Let_def updated_def pending_total_def [of "[]"]
      intro: pending_total_removed split: if_splits prod.splits)

function (sequential) drain ::
  "('d, 'o, 'f) dte \<Rightarrow> 'o client_env \<Rightarrow> 'x ServerEvent list \<Rightarrow> ('d, 'f, 'x) SyncedDocument \<Rightarrow> ('d, 'f, 'x) SyncedDocument" where
  "drain D C [] sd = sd"
| "drain D C (ev # rest) sd = (case handle_event D C ev sd of (sd, es, _) \<Rightarrow> drain D C (es @ rest) sd)"
  by pat_completeness auto

termination drain
  by (relation "measure (\<lambda>(D, C, es, sd). pending_total (sd_pending_events sd) + length es)")
    (auto dest!: sym [THEN handle_event_waiting])

definition apply_event_inner ::
  "('d, 'o, 'f) dte \<Rightarrow> 'o client_env \<Rightarrow> 'x ServerEvent \<Rightarrow> ('d, 'f, 'x) SyncedDocument
    \<Rightarrow> ('d, 'f, 'x) SyncedDocument \<times> SyncEffect" where
  "apply_event_inner D C ev sd = (case handle_event D C ev sd of (sd, es, effect) \<Rightarrow> (drain D C es sd, effect))"

definition apply_event ::
  "('d, 'o, 'f) dte \<Rightarrow> 'o client_env \<Rightarrow> 'x ServerEvent \<Rightarrow> ('d, 'f, 'x) SyncedDocument
    \<Rightarrow> ('d, 'f, 'x) SyncedDocument \<times> SyncEffect" where
  "apply_event D C ev sd =
     (case event_block_id ev of
        Some i \<Rightarrow>
          (if event_context_id ev = Some (sd_context_id sd) \<and> get_block_snapshot D (sd_doc sd) i = None
           then (buffer_event i ev sd, Updated (block_count (sd_doc sd)))
           else apply_event_inner D C ev sd)
      | None \<Rightarrow> apply_event_inner D C ev sd)"

definition apply_sync_state ::
  "('d, 'o, 'f) dte \<Rightarrow> 'o client_env \<Rightarrow> SyncState \<Rightarrow> ('d, 'f, 'x) SyncedDocument
    \<Rightarrow> ('d, 'f, 'x) SyncedDocument \<times> (SyncError + SyncEffect)" where
  "apply_sync_state D C st sd =
     (if ss_state_ops st = [] then (sd, Inr Ignored)
      else case apply_initial_state D C (ss_state_context st) (ss_state_ops st) (sd_sync sd) (sd_doc sd) of
             (m, doc, Inl e) \<Rightarrow> (sd\<lparr>sd_sync := m, sd_doc := doc\<rparr>, Inl e)
           | (m, doc, Inr (FullSync n)) \<Rightarrow>
               (sd\<lparr>sd_sync := m, sd_doc := doc, sd_context_id := ss_state_context st, sd_pending_events := []\<rparr>,
                Inr (FullySynced n))
           | (m, doc, Inr _) \<Rightarrow> (sd\<lparr>sd_sync := m, sd_doc := doc\<rparr>, Inr (Updated (block_count doc))))"

definition synced_reset :: "('d, 'f, 'x) SyncedDocument \<Rightarrow> ('d, 'f, 'x) SyncedDocument" where
  "synced_reset sd = sd\<lparr>sd_sync := manager_reset (sd_sync sd)\<rparr>"

definition synced_reset_frontier :: "('d, 'f, 'x) SyncedDocument \<Rightarrow> ('d, 'f, 'x) SyncedDocument" where
  "synced_reset_frontier sd = sd\<lparr>sd_sync := manager_reset_frontier (sd_sync sd)\<rparr>"

end
