(* ===== verification/Client_Props.thy ===== *)
theory Client_Props
  imports Client_Sync
begin

text \<open>
  The properties of the client's copy of a document.  Whatever the server sends, the copy keeps the
  invariant of the block store, its frontier is the frontier of the copy, and the two buffers keep
  their bounds; an initial state makes the copy show what the server shows; events that overtake the
  insertion of their block are applied as if they had come after it.
\<close>

section \<open>The manager\<close>

definition sync_ok :: "('d, 'o, 'f) dte \<Rightarrow> 'f SyncManager \<Rightarrow> 'd BlockStore \<Rightarrow> bool" where
  "sync_ok D m doc \<longleftrightarrow> store_ok doc \<and> length (sm_pending_ops m) \<le> MAX_PENDING_OPS \<and>
     (\<forall>f. sm_frontier m = Some f \<longrightarrow> f = store_frontier D doc)"

lemma bump_version_frame [simp]:
  "sm_frontier (bump_version m) = sm_frontier m" "sm_pending_ops (bump_version m) = sm_pending_ops m"
  "sm_context_id (bump_version m) = sm_context_id m"
  by (simp_all add: bump_version_def)

lemma sync_ok_buffer: "sync_ok D m doc \<Longrightarrow> sync_ok D (buffer_failed_ops i ops m) doc"
  by (simp add: sync_ok_def buffer_failed_ops_def manager_reset_def)

lemma merge_result:
  assumes "store_merge_ops D p doc = (doc', r)" and "store_ok doc"
  shows "store_ok doc' \<and> st_context_id doc' = st_context_id doc"
  using safe_store_merge_ops [of doc D p] assms by (simp add: safe_def grows_def)

lemma incremental_merge_ok:
  assumes "do_incremental_merge D C ops m doc = (m', doc', r)" and "sync_ok D m doc"
  shows "sync_ok D m' doc'" and "sm_pending_ops m' = sm_pending_ops m" and "sm_context_id m' = sm_context_id m"
    and "st_context_id doc' = st_context_id doc"
  using assms
  by (auto simp: do_incremental_merge_def sync_ok_def dest: merge_result split: sum.splits prod.splits)

lemma full_sync_ok:
  assumes "do_full_sync D C ctx bytes m doc = (m', doc', r)" and "sync_ok D m doc"
  shows "sync_ok D m' doc'"
  using assms store_from_snapshot_ok
  by (fastforce simp: do_full_sync_def sync_ok_def split: sum.splits)

lemma replay_ops_ok:
  assumes "replay_ops D C ps m doc = (m', doc', still)" and "sync_ok D m doc"
  shows "sync_ok D m' doc' \<and> length still \<le> length ps \<and> sm_context_id m' = sm_context_id m \<and>
         st_context_id doc' = st_context_id doc"
  using assms
proof (induction D C ps m doc arbitrary: m' doc' still rule: replay_ops.induct)
  case (2 D C i ops rest m doc)
  obtain m1 doc1 r where one: "do_incremental_merge D C ops m doc = (m1, doc1, r)" by (metis prod_cases3)
  obtain m2 doc2 st where two: "replay_ops D C rest m1 doc1 = (m2, doc2, st)" by (metis prod_cases3)
  note IH = 2(1) [OF one [symmetric] refl refl two incremental_merge_ok(1) [OF one 2(3)]]
  then show ?case using 2(2) one two incremental_merge_ok(3,4) [OF one 2(3)]
    by (auto split: sum.splits SyncError.splits)
qed simp

lemma replay_pending_ok:
  assumes "replay_pending_ops D C m doc = (m', doc')" and "sync_ok D m doc"
  shows "sync_ok D m' doc' \<and> sm_context_id m' = sm_context_id m \<and> st_context_id doc' = st_context_id doc"
proof (cases "sm_pending_ops m = []")
  case False
  obtain m1 doc1 still where r: "replay_ops D C (sm_pending_ops m) (m\<lparr>sm_pending_ops := []\<rparr>) doc = (m1, doc1, still)"
    by (metis prod_cases3)
  have "sync_ok D (m\<lparr>sm_pending_ops := []\<rparr>) doc" using assms(2) by (simp add: sync_ok_def)
  from replay_ops_ok [OF r this] show ?thesis
    using assms r False by (auto simp: replay_pending_ops_def sync_ok_def)
qed (use assms in \<open>simp add: replay_pending_ops_def\<close>)

lemma then_replay_ok:
  assumes "then_replay D C (m, doc, r) = (m', doc', r')" and "sync_ok D m doc"
  shows "sync_ok D m' doc'"
proof (cases r)
  case (Inr x)
  obtain m1 doc1 where "replay_pending_ops D C m doc = (m1, doc1)" by fastforce
  with replay_pending_ok [OF this assms(2)] Inr assms show ?thesis by (simp add: then_replay_def)
qed (use assms in \<open>simp add: then_replay_def\<close>)

lemma initial_state_ok:
  assumes "apply_initial_state D C ctx bytes m doc = (m', doc', r)" and "sync_ok D m doc"
  shows "sync_ok D m' doc'"
proof (cases "do_full_sync D C ctx bytes m doc")
  case (fields m1 doc1 r1)
  from then_replay_ok [OF _ full_sync_ok [OF this assms(2)]] show ?thesis
    using assms fields by (auto simp: apply_initial_state_def split: if_splits)
qed

lemma block_inserted_ok:
  assumes "apply_block_inserted D C ctx b ops m doc = (m', doc', r)" and ok: "sync_ok D m doc"
  shows "sync_ok D m' doc'"
proof -
  obtain m1 doc1 r1 where 1: "do_incremental_merge D C ops m doc = (m1, doc1, r1)" by (metis prod_cases3)
  obtain m2 doc2 r2 where 2: "do_full_sync D C ctx ops m1 doc1 = (m2, doc2, r2)" by (metis prod_cases3)
  note ok1 = incremental_merge_ok(1) [OF 1 ok]
  note ok2 = full_sync_ok [OF 2 ok1]
  show ?thesis
    using assms(1) 1 2 ok ok1 ok2 sync_ok_buffer [OF ok2] then_replay_ok [of D C _ _ _ m' doc' r]
    by (auto simp: apply_block_inserted_def split: if_splits sum.splits)
qed

lemma text_ops_ok:
  assumes "apply_text_ops D C ctx ops m doc = (m', doc', r)" and ok: "sync_ok D m doc"
  shows "sync_ok D m' doc'"
proof -
  obtain m1 doc1 r1 where 1: "do_incremental_merge D C ops m doc = (m1, doc1, r1)" by (metis prod_cases3)
  note ok1 = incremental_merge_ok(1) [OF 1 ok]
  show ?thesis
    using assms 1 ok1 sync_ok_buffer [OF ok1] then_replay_ok [OF _ ok1]
    by (auto simp: apply_text_ops_def split: if_splits sum.splits SyncError.splits)
qed

text \<open>A direct change writes header fields; it never touches a text document.\<close>

definition header_change :: "('d, 'o, 'f) dte \<Rightarrow> ('d BlockStore \<Rightarrow> ('d, unit) outcome) \<Rightarrow> bool" where
  "header_change D f \<longleftrightarrow> (\<forall>s. safe s (fst (f s)) \<and> store_frontier D (fst (f s)) = store_frontier D s)"

lemma frontier_modify:
  "(\<And>b. bc_doc (f b) = bc_doc b) \<Longrightarrow> store_frontier D (s\<lparr>st_blocks := bt_modify i f (st_blocks s)\<rparr>) = store_frontier D s"
  by (rule ext) (simp add: store_frontier_def bt_get_modify content_frontier_def [abs_def] option.map_comp o_def)

lemma frontier_cong: "st_blocks s = st_blocks s' \<Longrightarrow> store_frontier D s = store_frontier D s'"
  by (simp add: store_frontier_def)

lemma frontier_on_block:
  assumes "\<And>b. bc_doc (f b) = bc_doc b"
  shows "store_frontier D (fst (on_block i f s)) = store_frontier D s"
    and "store_frontier D (fst (on_live_block i f s)) = store_frontier D s"
  using frontier_modify [where f = f and D = D and s = s and i = i, OF assms]
    frontier_cong [of "update_block i f s" "s\<lparr>st_blocks := bt_modify i f (st_blocks s)\<rparr>" D]
  by (auto simp: on_block_def on_live_block_def update_block_def)

lemma frontier_clock_tick: "store_frontier D (fst (clock_tick s)) = store_frontier D s"
  by (rule frontier_cong) (simp add: clock_tick_def Let_def)

lemmas setter_defs = store_set_status_def store_set_output_def store_set_exit_code_def store_set_stderr_def
  store_set_content_type_def store_set_ephemeral_def store_set_tool_use_id_def delete_block_def
  store_set_collapsed_def store_set_excluded_def

lemmas content_setter_defs = content_set_status_def content_set_output_def content_set_exit_code_def
  content_set_stderr_def content_set_content_type_def content_set_ephemeral_def content_set_tool_use_id_def
  mark_deleted_def content_set_collapsed_def content_set_excluded_def set_order_key_def

lemma header_changes [simp]:
  "header_change D (store_set_status i v1)" "header_change D (store_set_output i v2)"
  "header_change D (store_set_exit_code i v3)" "header_change D (store_set_stderr i v4)"
  "header_change D (store_set_content_type i v5)" "header_change D (store_set_ephemeral i v6)"
  "header_change D (store_set_tool_use_id i v4)" "header_change D (delete_block i)"
  "header_change D (store_set_collapsed i v6)" "header_change D (store_set_excluded i v6)"
  unfolding header_change_def
  by (simp_all add: safe_clocked_setters safe_live_setters safe_delete_block)
    (simp_all add: setter_defs Let_def case_prod_unfold frontier_on_block frontier_clock_tick content_setter_defs)

lemma header_change_move [simp]: "header_change D (move_block i after)"
proof -
  have "store_frontier D (fst (move_block i after s)) = store_frontier D s" for s
    using frontier_on_block(2) [of "set_order_key _" D i s]
    by (auto simp: move_block_def on_live_block_def set_order_key_def split: option.split)
  then show ?thesis by (simp add: header_change_def safe_move_block)
qed

lemma header_change_and_then [intro]:
  assumes "header_change D f" and "header_change D g"
  shows "header_change D (and_then f g)"
  using assms unfolding header_change_def and_then_def
  by (auto split: prod.splits sum.splits) (metis fst_conv safe_trans)+

lemma change_ok:
  assumes "apply_change C f m doc = (m', doc', r)" and "header_change D f" and "sync_ok D m doc"
  shows "sync_ok D m' doc'"
proof -
  have "store_ok (fst (f doc))" "store_frontier D (fst (f doc)) = store_frontier D doc"
    using assms(2,3) by (auto simp: header_change_def sync_ok_def dest: safe_okD)
  then show ?thesis using assms(1,3)
    by (auto simp: apply_change_def sync_ok_def split: prod.splits sum.splits)
qed

section \<open>The buffered events\<close>

definition pending_ok :: "ContextId \<Rightarrow> (BlockId, 'x ServerEvent list) btree \<Rightarrow> bool" where
  "pending_ok ctx p \<longleftrightarrow> bt_ok p \<and> length p \<le> MAX_PENDING_BLOCKS \<and>
     (\<forall>i evs. bt_get p i = Some evs \<longrightarrow> evs \<noteq> [] \<and> length evs \<le> MAX_EVENTS_PER_BLOCK \<and>
        (\<forall>e \<in> set evs. event_block_id e = Some i \<and> event_context_id e = Some ctx))"

definition synced_ok :: "('d, 'o, 'f) dte \<Rightarrow> ('d, 'f, 'x) SyncedDocument \<Rightarrow> bool" where
  "synced_ok D sd \<longleftrightarrow> sync_ok D (sd_sync sd) (sd_doc sd) \<and> pending_ok (sd_context_id sd) (sd_pending_events sd)"

lemma length_bt_insert: "length (bt_insert k v m) \<le> length m + 1"
  by (induction k v m rule: bt_insert.induct) auto

lemma length_bt_insert_old: "bt_contains m k \<Longrightarrow> bt_ok m \<Longrightarrow> length (bt_insert k v m) = length m"
  by (induction k v m rule: bt_insert.induct)
    (force simp: bt_contains_def bt_get_def bt_ok_def split: if_splits dest: map_of_SomeD)+

lemma length_bt_remove: "length (bt_remove k m) \<le> length m"
  by (simp add: bt_remove_def)

lemma pending_ok_remove: "pending_ok ctx p \<Longrightarrow> pending_ok ctx (bt_remove i p)"
  by (auto simp: pending_ok_def bt_get_remove bt_ok_remove intro: order_trans [OF length_bt_remove] split: if_splits)

lemma pending_ok_empty [simp]: "pending_ok ctx []"
  by (simp add: pending_ok_def bt_ok_def bt_get_def)

lemma pending_ok_buffer:
  assumes ok: "pending_ok (sd_context_id sd) (sd_pending_events sd)"
    and ev: "event_block_id ev = Some i" "event_context_id ev = Some (sd_context_id sd)"
  shows "pending_ok (sd_context_id sd) (sd_pending_events (buffer_event i ev sd))"
proof -
  let ?p = "sd_pending_events sd"
  let ?buf = "case bt_get ?p i of Some evs \<Rightarrow> evs | None \<Rightarrow> []"
  have len: "length (bt_insert i v ?p) \<le> MAX_PENDING_BLOCKS"
    if "\<not> (MAX_PENDING_BLOCKS \<le> length ?p \<and> \<not> bt_contains ?p i)" for v
    using that length_bt_insert [of i v ?p] length_bt_insert_old [of ?p i v] ok by (cases "bt_contains ?p i") (auto simp: pending_ok_def)
  have buf: "\<forall>e \<in> set ?buf. event_block_id e = Some i \<and> event_context_id e = Some (sd_context_id sd)"
      "length ?buf \<le> MAX_EVENTS_PER_BLOCK" "MAX_EVENTS_PER_BLOCK \<le> length ?buf \<Longrightarrow> ?buf \<noteq> []"
    using ok by (cases "bt_get ?p i"; auto simp: pending_ok_def MAX_EVENTS_PER_BLOCK_def)+
  show ?thesis using ok ev len buf
    by (auto simp: buffer_event_def Let_def pending_ok_def bt_get_insert bt_ok_insert)
qed

section \<open>Events\<close>

lemma updated_ok:
  assumes "updated (m, doc, r) sd = (sd', es, effect)" and "sync_ok D m doc"
    and "pending_ok (sd_context_id sd) (sd_pending_events sd)"
  shows "synced_ok D sd' \<and> es = [] \<and> sd_context_id sd' = sd_context_id sd"
  using assms by (auto simp: updated_def synced_ok_def)

lemma updated_change_ok:
  assumes "updated (apply_change C f (sd_sync sd) (sd_doc sd)) sd = (sd', es, effect)" and "header_change D f"
    and "synced_ok D sd"
  shows "synced_ok D sd' \<and> es = [] \<and> sd_context_id sd' = sd_context_id sd"
proof (cases "apply_change C f (sd_sync sd) (sd_doc sd)")
  case (fields m doc r)
  have "sync_ok D m doc" using change_ok [OF fields assms(2)] assms(3) by (simp add: synced_ok_def)
  then show ?thesis using updated_ok [of m doc r sd sd' es effect D] assms(1,3) fields
    unfolding synced_ok_def by metis
qed

lemmas change_defs = apply_status_change_def apply_output_change_def apply_metadata_change_def apply_delete_def
  apply_collapsed_change_def apply_excluded_change_def apply_move_def

lemma handle_event_ok:
  assumes h: "handle_event D C ev sd = (sd', es, effect)" and ok: "synced_ok D sd"
  shows "synced_ok D sd' \<and> sd_context_id sd' = sd_context_id sd"
proof (cases "ev")
  case (BlockInserted ctx b ops)
  obtain m doc r where r: "apply_block_inserted D C ctx b ops (sd_sync sd) (sd_doc sd) = (m, doc, r)"
    by (metis prod_cases3)
  have "sync_ok D m doc" using block_inserted_ok [OF r] ok by (simp add: synced_ok_def)
  then show ?thesis using h ok r BlockInserted
    by (auto simp: handle_event_def Let_def synced_ok_def pending_ok_remove split: if_splits)
next
  case (BlockTextOps ctx i ops n)
  obtain m doc r where r: "apply_text_ops D C ctx ops (sd_sync sd) (sd_doc sd) = (m, doc, r)"
    by (metis prod_cases3)
  have "sync_ok D m doc" using text_ops_ok [OF r] ok by (simp add: synced_ok_def)
  then show ?thesis using h ok r BlockTextOps
    by (auto simp: handle_event_def Let_def synced_ok_def updated_def split: if_splits)
next
  case (BlockMetadataChanged ctx i v)
  have "header_change D (and_then (store_set_exit_code i (bm_exit_code v)) (and_then (store_set_stderr i (bm_stderr v))
     (and_then (store_set_content_type i (bm_content_type v)) (and_then (store_set_ephemeral i (bm_ephemeral v))
       (store_set_tool_use_id i (bm_tool_use_id v))))))"
    by (intro header_change_and_then header_changes)
  note change = updated_change_ok [OF _ this ok]
  show ?thesis using h ok change BlockMetadataChanged
    by (fastforce simp: handle_event_def Let_def apply_metadata_change_def split: if_splits)
next
  case (BlockDeleted ctx i)
  obtain sd1 es1 e1 where u: "updated (apply_change C (delete_block i) (sd_sync sd) (sd_doc sd)) sd = (sd1, es1, e1)"
    by (metis prod_cases3)
  then have "synced_ok D sd1 \<and> sd_context_id sd1 = sd_context_id sd" using updated_change_ok [OF u _ ok] by simp
  moreover have "pending_ok (sd_context_id sd) (bt_remove i (sd_pending_events sd))"
    using ok by (simp add: synced_ok_def pending_ok_remove)
  ultimately show ?thesis using h ok u BlockDeleted
    by (auto simp: handle_event_def Let_def apply_delete_def synced_ok_def split: if_splits)
next
  case (SyncReset ctx n)
  then show ?thesis using h ok
    by (auto simp: handle_event_def Let_def synced_ok_def sync_ok_def manager_reset_frontier_def split: if_splits)
qed (use h ok updated_change_ok [OF _ _ ok] in \<open>fastforce simp: handle_event_def Let_def change_defs split: if_splits\<close>)+

lemma drain_ok: "synced_ok D sd \<Longrightarrow> synced_ok D (drain D C es sd)"
proof (induction D C es sd rule: drain.induct)
  case (2 D C ev rest sd)
  then show ?case using handle_event_ok [of D C ev sd] by (cases "handle_event D C ev sd") fastforce
qed simp

lemma apply_event_ok:
  assumes "apply_event D C ev sd = (sd', effect)" and "synced_ok D sd"
  shows "synced_ok D sd'"
proof (cases "\<exists>i. event_block_id ev = Some i \<and> event_context_id ev = Some (sd_context_id sd) \<and>
    get_block_snapshot D (sd_doc sd) i = None")
  case True
  then obtain i where i: "event_block_id ev = Some i" "event_context_id ev = Some (sd_context_id sd)"
      "sd' = buffer_event i ev sd"
    using assms(1) by (auto simp: apply_event_def)
  have "sd_sync sd' = sd_sync sd" "sd_doc sd' = sd_doc sd" "sd_context_id sd' = sd_context_id sd"
    by (auto simp: i(3) buffer_event_def Let_def)
  then show ?thesis using pending_ok_buffer [OF _ i(1,2)] assms(2) i(3) by (simp add: synced_ok_def)
next
  case False
  then have "apply_event_inner D C ev sd = (sd', effect)" using assms(1) by (auto simp: apply_event_def split: option.splits)
  then show ?thesis using handle_event_ok [OF _ assms(2)] drain_ok
    by (cases "handle_event D C ev sd") (fastforce simp: apply_event_inner_def)
qed

lemma apply_sync_state_ok:
  assumes "apply_sync_state D C st sd = (sd', r)" and "synced_ok D sd"
  shows "synced_ok D sd'"
proof (cases "apply_initial_state D C (ss_state_context st) (ss_state_ops st) (sd_sync sd) (sd_doc sd)")
  case (fields m doc x)
  have "sync_ok D m doc" using initial_state_ok [OF fields] assms(2) by (simp add: synced_ok_def)
  then show ?thesis using assms fields
    by (auto simp: apply_sync_state_def synced_ok_def split: if_splits sum.splits SyncResult.splits)
qed

text \<open>What a client may do with its document.\<close>

inductive client_step :: "('d, 'o, 'f) dte \<Rightarrow> 'o client_env \<Rightarrow> ('d, 'f, 'x) SyncedDocument
    \<Rightarrow> ('d, 'f, 'x) SyncedDocument \<Rightarrow> bool" for D C where
  receive: "apply_event D C ev sd = (sd', effect) \<Longrightarrow> client_step D C sd sd'"
| resync: "apply_sync_state D C st sd = (sd', r) \<Longrightarrow> client_step D C sd sd'"
| reset: "client_step D C sd (synced_reset sd)"
| reset_frontier: "client_step D C sd (synced_reset_frontier sd)"

lemma client_step_ok: "synced_ok D sd \<Longrightarrow> client_step D C sd sd' \<Longrightarrow> synced_ok D sd'"
  by (erule client_step.cases)
    (auto dest: apply_event_ok apply_sync_state_ok simp: synced_ok_def sync_ok_def synced_reset_def
      synced_reset_frontier_def manager_reset_def manager_reset_frontier_def)

text \<open>A step that leaves the counters of the copy within their width.\<close>

definition fitting_step :: "('d, 'o, 'f) dte \<Rightarrow> 'o client_env \<Rightarrow> ('d, 'f, 'x) SyncedDocument
    \<Rightarrow> ('d, 'f, 'x) SyncedDocument \<Rightarrow> bool" where
  "fitting_step D C sd sd' \<longleftrightarrow> client_step D C sd sd' \<and> fits (sd_doc sd')"

interpretation fitting_run: invariant_system "fitting_step D C" "\<lambda>sd. synced_ok D sd \<and> fits (sd_doc sd)"
  by unfold_locales (auto simp: fitting_step_def dest: client_step_ok)

lemma synced_ok_new: "synced_ok D (synced_new ctx p)"
  by (simp add: synced_ok_def sync_ok_def synced_new_def manager_new_def store_ok_new)

section \<open>Reordered events\<close>

definition receive_all ::
  "('d, 'o, 'f) dte \<Rightarrow> 'o client_env \<Rightarrow> 'x ServerEvent list \<Rightarrow> ('d, 'f, 'x) SyncedDocument \<Rightarrow> ('d, 'f, 'x) SyncedDocument" where
  "receive_all D C evs sd = fold (\<lambda>ev sd. fst (apply_event D C ev sd)) evs sd"

lemma receive_all_simps [simp]:
  "receive_all D C [] sd = sd"
  "receive_all D C (ev # evs) sd = receive_all D C evs (fst (apply_event D C ev sd))"
  "receive_all D C (xs @ ys) sd = receive_all D C ys (receive_all D C xs sd)"
  by (simp_all add: receive_all_def)

lemma block_event_no_replay:
  assumes "event_block_id ev = Some i" and "handle_event D C ev sd = (sd', es, effect)"
  shows "es = []"
  using assms by (cases ev) (auto simp: handle_event_def Let_def updated_def split: if_splits prod.splits)

lemma visible_event:
  assumes "event_block_id ev = Some i" and "get_block_snapshot D (sd_doc sd) i \<noteq> None"
  shows "fst (apply_event D C ev sd) = fst (handle_event D C ev sd)"
  using assms block_event_no_replay [OF assms(1), of D C sd]
  by (cases "handle_event D C ev sd") (auto simp: apply_event_def apply_event_inner_def)

lemma drain_in_order:
  assumes "\<forall>ev \<in> set es. event_block_id ev = Some i"
    and "\<forall>n < length es. get_block_snapshot D (sd_doc (receive_all D C (take n es) sd)) i \<noteq> None"
  shows "drain D C es sd = receive_all D C es sd"
  using assms
proof (induction es arbitrary: sd)
  case (Cons ev es)
  have ev: "event_block_id ev = Some i" using Cons.prems(1) by simp
  have vis: "get_block_snapshot D (sd_doc sd) i \<noteq> None" using Cons.prems(2) [rule_format, of 0] by simp
  note step = visible_event [OF ev vis, of C]
  obtain sd' rest effect where h: "handle_event D C ev sd = (sd', rest, effect)" by (metis prod_cases3)
  have "\<forall>n < length es. get_block_snapshot D (sd_doc (receive_all D C (take n es) sd')) i \<noteq> None"
  proof (intro allI impI)
    fix n assume "n < length es"
    then show "get_block_snapshot D (sd_doc (receive_all D C (take n es) sd')) i \<noteq> None"
      using Cons.prems(2) [rule_format, of "Suc n"] step h by simp
  qed
  from Cons.IH [OF _ this] Cons.prems(1) show ?case
    using h step block_event_no_replay [OF ev h] by simp
qed simp

lemma bt_insert_insert: "bt_insert k w (bt_insert k v m) = bt_insert k w m"
  by (induction k v m rule: bt_insert.induct) auto

lemma bt_remove_insert: "bt_get m k = None \<Longrightarrow> bt_remove k (bt_insert k v m) = m"
  by (induction k v m rule: bt_insert.induct)
    (force simp: bt_remove_def bt_get_def map_of_eq_None_iff filter_id_conv split: if_splits)+

lemma bt_remove_absent: "bt_get m k = None \<Longrightarrow> bt_remove k m = m"
  by (force simp: bt_remove_def bt_get_def map_of_eq_None_iff filter_id_conv)

lemma buffering:
  assumes "\<forall>ev \<in> set es. event_block_id ev = Some i \<and> event_context_id ev = Some (sd_context_id sd)"
    and "get_block_snapshot D (sd_doc sd) i = None" and "bt_get (sd_pending_events sd) i = None"
    and "length (sd_pending_events sd) < MAX_PENDING_BLOCKS" and "length es \<le> MAX_EVENTS_PER_BLOCK"
  shows "receive_all D C es sd =
    (if es = [] then sd else sd\<lparr>sd_pending_events := bt_insert i es (sd_pending_events sd)\<rparr>)"
  using assms(1,5)
proof (induction es rule: rev_induct)
  case (snoc ev es)
  let ?sd = "receive_all D C es sd"
  have IH: "?sd = (if es = [] then sd else sd\<lparr>sd_pending_events := bt_insert i es (sd_pending_events sd)\<rparr>)"
    using snoc by simp
  have "fst (apply_event D C ev ?sd) = buffer_event i ev ?sd"
    using snoc.prems assms(2) by (auto simp: apply_event_def IH)
  moreover have "buffer_event i ev ?sd = sd\<lparr>sd_pending_events := bt_insert i (es @ [ev]) (sd_pending_events sd)\<rparr>"
    using snoc.prems assms(3,4)
    by (auto simp: IH buffer_event_def Let_def bt_get_insert bt_contains_def bt_insert_insert)
  ultimately show ?case by simp
qed simp

section \<open>A concrete client\<close>

text \<open>A server with one note, a client that decodes its snapshot and its payload, and a document library that rejects.\<close>

definition note_store :: "string option BlockStore" where
  "note_store = fst (insert_note 2 None (store_new 1 2))"

definition note_id :: BlockId where
  "note_id = BlockId 1 2 0"

definition note_snapshot :: BlockSnapshot where
  "note_snapshot = builder_order_key ''V'' (builder_tick 0 (builder_content ''hi'' (builder_new 3 note_id BlockKind.Text)))"

definition note_payload :: "string option SyncPayload" where
  "note_payload = \<lparr>sp_block_ops = [(note_id, Some ''hi'')], sp_new_blocks = [note_snapshot],
     sp_updated_headers = [], sp_deleted_blocks = []\<rparr>"

definition note_client :: "string option client_env" where
  "note_client = \<lparr>decode_snapshot = \<lambda>_. Inr (store_snapshot reference_dte note_store),
     decode_payload = \<lambda>_. Inr note_payload,
     context_text = \<lambda>_. ''context'', crdt_text = \<lambda>_. ''crdt'', wall_clock = 5\<rparr>"

definition rejecting_dte :: "(string option, string option, unit) dte" where
  "rejecting_dte = reference_dte\<lparr>doc_merge_ops := \<lambda>d u. (d, Rejected ''data missing'')\<rparr>"

definition note_insertion :: "unit ServerEvent" where
  "note_insertion = BlockInserted 1 note_snapshot ''p''"

definition note_manager :: "unit SyncManager" where
  "note_manager = with_state (Some 1) (Some (store_frontier reference_dte note_store))"

lemma note_store_ok: "store_ok note_store"
  using store_run.run_invariant [OF insert_note_run [of "store_new 1 2" 2 None] store_ok_new] by (simp add: note_store_def)

lemma note_snapshot_id: "bs_id note_snapshot = note_id"
  by (simp add: note_snapshot_def builder_order_key_def builder_tick_def builder_content_def builder_new_def)

lemma store_new_frame: "st_context_id (store_new ctx p) = ctx" "st_principal_id (store_new ctx p) = p"
  "get_block_snapshot D (store_new ctx p) i = None"
  by (simp_all add: store_new_def get_block_snapshot_def bt_get_def)

lemma note_merge:
  obtains doc where "store_merge_ops reference_dte note_payload (store_new 1 9) = (doc, Inr ())"
    and "get_block_snapshot reference_dte doc note_id \<noteq> None" and "fits doc"
proof -
  let ?r = "store_merge_ops reference_dte note_payload (store_new 1 9)"
  have "snd ?r = Inr ()" "get_block_snapshot reference_dte (fst ?r) note_id \<noteq> None" by code_simp+
  moreover have "fits (fst ?r)"
  proof (rule fits_small)
    show "next_seq_for (fst ?r) p \<le> 1" for p by code_simp simp
    show "st_lamport_clock (fst ?r) \<le> 9" "st_next_tick (fst ?r) \<le> 9" by code_simp+
  qed
  ultimately show ?thesis using that by (metis prod.collapse)
qed

lemma note_inserted:
  obtains doc where "get_block_snapshot reference_dte doc note_id \<noteq> None" and "fits doc"
    and "apply_block_inserted reference_dte note_client 1 note_snapshot ''p'' manager_new (store_new 1 9) =
      (bump_version (manager_new\<lparr>sm_frontier := Some (store_frontier reference_dte doc)\<rparr>), doc, Inr IncrementalMerge)"
proof -
  obtain doc where doc: "store_merge_ops reference_dte note_payload (store_new 1 9) = (doc, Inr ())"
      "get_block_snapshot reference_dte doc note_id \<noteq> None" "fits doc" by (rule note_merge)
  then show ?thesis
    by (intro that [of doc])
      (simp_all add: apply_block_inserted_def store_new_frame needs_full_sync_def manager_new_def
        do_incremental_merge_def note_client_def then_replay_def replay_pending_ops_def)
qed

section \<open>Properties\<close>

text \<open>
  C28: Whatever events, snapshots and payloads a client receives, in whatever order, as long as they do
  not overflow the counters of its document, the document satisfies the invariant of the block store,
  the frontier the client holds is the frontier of its document, at most 200 operations and at most 128
  events for each of at most 64 blocks are buffered, and every buffered event is one for its block and
  this context.

  The condition on the counters is that after every step the lanes and the clock are below \<open>2 ^ 64\<close> and
  the next tick is below \<open>2 ^ 63\<close>: a payload with a sequence number, timestamp or tick at the end of its
  range wraps them around in a release build and panics in a debug build.
\<close>

theorem client_invariant:
  assumes "(fitting_step D C)\<^sup>*\<^sup>* (synced_new ctx p) sd"
  shows "store_ok (sd_doc sd) \<and> fits (sd_doc sd) \<and>
    (\<forall>f. sm_frontier (sd_sync sd) = Some f \<longrightarrow> f = store_frontier D (sd_doc sd)) \<and>
    length (sm_pending_ops (sd_sync sd)) \<le> MAX_PENDING_OPS \<and>
    length (sd_pending_events sd) \<le> MAX_PENDING_BLOCKS \<and>
    (\<forall>i evs. bt_get (sd_pending_events sd) i = Some evs \<longrightarrow> length evs \<le> MAX_EVENTS_PER_BLOCK \<and>
       (\<forall>ev \<in> set evs. event_block_id ev = Some i \<and> event_context_id ev = Some (sd_context_id sd)))"
proof -
  have "synced_ok D (synced_new ctx p) \<and> fits (sd_doc (synced_new ctx p))"
    by (simp add: synced_ok_new) (simp add: synced_new_def)
  from fitting_run.run_inv [OF assms this] show ?thesis
    by (auto simp: synced_ok_def sync_ok_def pending_ok_def)
qed

theorem client_invariant_witness:
  "store_ok (sd_doc (fst (apply_event reference_dte note_client note_insertion (synced_new 1 9))))"
proof -
  have "client_step reference_dte note_client (synced_new 1 9)
      (fst (apply_event reference_dte note_client note_insertion (synced_new 1 9)))"
    by (rule client_step.receive) (rule surjective_pairing)
  moreover have "fits (sd_doc (fst (apply_event reference_dte note_client note_insertion (synced_new 1 9))))"
    by (rule note_inserted) (simp add: note_insertion_def apply_event_def apply_event_inner_def handle_event_def synced_new_def bt_get_def)
  ultimately have "(fitting_step reference_dte note_client)\<^sup>*\<^sup>* (synced_new 1 9)
      (fst (apply_event reference_dte note_client note_insertion (synced_new 1 9)))" by (blast intro: fitting_step_def [THEN iffD2])
  from client_invariant [OF this] show ?thesis by simp
qed

text \<open>
  C29: Events for a block that arrive, one after another, right before the event that inserts it are kept
  and applied after it: the client ends in the same state as if the insertion had come first.  The
  conditions: all these events are for that one block and for the document's context; there are at most
  128 of them; nothing is buffered for the block yet, and events of fewer than 64 other blocks are
  buffered; the block is not in the document before; and when the events come in order, the insertion
  succeeds and the block is still visible before each of them, so that no event follows a deletion.
\<close>

theorem reordered_delivery:
  assumes es: "\<forall>ev \<in> set es. event_block_id ev = Some (bs_id b) \<and> event_context_id ev = Some (sd_context_id sd)"
    and new: "get_block_snapshot D (sd_doc sd) (bs_id b) = None" "bt_get (sd_pending_events sd) (bs_id b) = None"
    and room: "length (sd_pending_events sd) < MAX_PENDING_BLOCKS" "length es \<le> MAX_EVENTS_PER_BLOCK"
    and visible: "\<forall>n < length es. get_block_snapshot D
       (sd_doc (receive_all D C (BlockInserted (sd_context_id sd) b ops # take n es) sd)) (bs_id b) \<noteq> None"
  shows "receive_all D C (es @ [BlockInserted (sd_context_id sd) b ops]) sd =
         receive_all D C (BlockInserted (sd_context_id sd) b ops # es) sd"
proof -
  let ?ins = "BlockInserted (sd_context_id sd) b ops"
  obtain m doc r where r: "apply_block_inserted D C (sd_context_id sd) b ops (sd_sync sd) (sd_doc sd) = (m, doc, r)"
    by (metis prod_cases3)
  let ?sd = "sd\<lparr>sd_sync := m, sd_doc := doc\<rparr>"
  have ordered: "fst (apply_event D C ?ins sd) = ?sd"
    using r new(2) by (simp add: apply_event_def apply_event_inner_def handle_event_def Let_def bt_remove_absent)
  have "fst (apply_event D C ?ins (receive_all D C es sd)) = drain D C es ?sd"
    using r new(2) unfolding buffering [OF es new room]
    by (auto simp: apply_event_def apply_event_inner_def handle_event_def Let_def bt_get_insert bt_remove_insert
        bt_remove_absent)
  also have "\<dots> = receive_all D C es ?sd"
    using es visible ordered by (intro drain_in_order [of es "bs_id b"]) auto
  finally show ?thesis using ordered by simp
qed

theorem reordered_delivery_witness:
  "receive_all reference_dte note_client
     ([BlockStatusChanged 1 note_id Status.Error] @ [BlockInserted 1 note_snapshot ''p'']) (synced_new 1 9 :: (string option, unit, unit) SyncedDocument) =
   receive_all reference_dte note_client
     (BlockInserted 1 note_snapshot ''p'' # [BlockStatusChanged 1 note_id Status.Error]) (synced_new 1 9)"
proof -
  let ?sd = "synced_new 1 9 :: (string option, unit, unit) SyncedDocument"
  obtain doc where doc: "get_block_snapshot reference_dte doc note_id \<noteq> None" "fits doc"
      "apply_block_inserted reference_dte note_client 1 note_snapshot ''p'' manager_new (store_new 1 9) =
      (bump_version (manager_new\<lparr>sm_frontier := Some (store_frontier reference_dte doc)\<rparr>), doc, Inr IncrementalMerge)"
    by (rule note_inserted)
  have "get_block_snapshot reference_dte (sd_doc (receive_all reference_dte note_client
      [BlockInserted 1 note_snapshot ''p''] ?sd)) note_id \<noteq> None"
    using doc by (simp add: apply_event_def apply_event_inner_def handle_event_def synced_new_def bt_get_def)
  then have "\<forall>n < length [BlockStatusChanged 1 note_id Status.Error]. get_block_snapshot reference_dte
      (sd_doc (receive_all reference_dte note_client (BlockInserted (sd_context_id ?sd) note_snapshot ''p''
        # take n [BlockStatusChanged 1 note_id Status.Error]) ?sd)) (bs_id note_snapshot) \<noteq> None"
    by (simp add: note_snapshot_id synced_new_def)
  moreover have "sd_context_id ?sd = 1" "sd_pending_events ?sd = []" "sd_doc ?sd = store_new 1 9"
    by (simp_all add: synced_new_def)
  ultimately show ?thesis
    using reordered_delivery [of "[BlockStatusChanged 1 note_id Status.Error]" note_snapshot ?sd reference_dte note_client "''p''"]
    by (simp add: note_snapshot_id MAX_PENDING_BLOCKS_def MAX_EVENTS_PER_BLOCK_def bt_get_def store_new_frame)
qed

text \<open>
  A client that is given the server's snapshot shows what the server shows: the same blocks in the
  same order with the same content.  It counts as synchronised, and satisfies its invariant.
\<close>

theorem initial_state_mirrors:
  assumes "dte_ok D" and "store_ok s" and "has_text D s"
    and "list_all (\<lambda>(i, b). bc_tick b \<noteq> None) (live_entries s)"
    and "decode_snapshot C bytes = Inr (store_snapshot D s)" and "bytes \<noteq> []"
  shows "\<exists>sd. from_sync_state D C \<lparr>ss_state_context = st_context_id s, ss_state_ops = bytes, ss_state_version = v\<rparr> p = Inr sd \<and>
    blocks_ordered D (sd_doc sd) = blocks_ordered D s \<and>
    (\<forall>i. get_block_snapshot D (sd_doc sd) i = get_block_snapshot D s i) \<and>
    is_synced sd \<and> sd_context_id sd = st_context_id s \<and> synced_ok D sd"
proof -
  obtain t where t: "store_from_snapshot D (wall_clock C) (store_snapshot D s) p = Inr t" "store_ok t"
      "\<forall>i. get_block_snapshot D t i = get_block_snapshot D s i" "blocks_ordered D t = blocks_ordered D s"
    using snapshot_restores [OF assms(1-4), of "wall_clock C" p] by blast
  let ?m = "bump_version (manager_new\<lparr>sm_frontier := Some (store_frontier D t), sm_context_id := Some (st_context_id s)\<rparr>)"
  have "apply_initial_state D C (st_context_id s) bytes manager_new (store_new (st_context_id s) p) =
      (?m, t, Inr (FullSync (block_count t)))"
    using t(1) assms(5,6)
    by (simp add: apply_initial_state_def do_full_sync_def then_replay_def replay_pending_ops_def manager_new_def
        store_new_frame)
  then show ?thesis using t(2-4) assms(6)
    by (simp add: from_sync_state_def Let_def synced_new_def is_synced_def needs_full_sync_def synced_ok_def
        sync_ok_def manager_new_def)
qed

theorem initial_state_mirrors_witness:
  "\<exists>sd :: (string option, unit, unit) SyncedDocument.
     from_sync_state reference_dte note_client \<lparr>ss_state_context = 1, ss_state_ops = ''s'', ss_state_version = 1\<rparr> 9 = Inr sd \<and>
     blocks_ordered reference_dte (sd_doc sd) = blocks_ordered reference_dte note_store"
proof -
  have "has_text reference_dte note_store" "list_all (\<lambda>(i, b). bc_tick b \<noteq> None) (live_entries note_store)"
    "st_context_id note_store = 1" by code_simp+
  moreover have "decode_snapshot note_client ''s'' = Inr (store_snapshot reference_dte note_store)"
    by (simp add: note_client_def)
  ultimately show ?thesis
    using initial_state_mirrors [OF reference_dte_ok note_store_ok, of note_client "''s''" 1 9] by fastforce
qed

text \<open>
  A text operation that cannot be merged makes the manager forget its frontier, although the
  operation itself is kept for a retry: every later text operation is then skipped and not kept.
\<close>

theorem text_merge_failure_resets:
  assumes "\<not> needs_full_sync (st_context_id doc) m" and "ops \<noteq> []" and "decode_payload C ops = Inr payload"
    and "store_merge_ops D payload doc = (doc', Inl e)" and "st_context_id doc' = st_context_id doc"
    and "length (sm_pending_ops m) < MAX_PENDING_OPS"
  shows "\<exists>m'. apply_text_ops D C (st_context_id doc) ops m doc = (m', doc', Inl (Merge (crdt_text C e))) \<and>
    sm_pending_ops m' = sm_pending_ops m @ [(None, ops)] \<and> sm_frontier m' = None \<and>
    (\<forall>later. apply_text_ops D C (st_context_id doc) later m' doc' = (m', doc', Inr (Skipped EmptyOplog)))"
  using assms
  by (auto simp: apply_text_ops_def do_incremental_merge_def buffer_failed_ops_def needs_full_sync_def)

theorem text_merge_failure_resets_witness:
  "\<exists>m' doc'. apply_text_ops rejecting_dte note_client 1 ''t'' note_manager note_store = (m', doc', Inl (Merge ''crdt'')) \<and>
     sm_frontier m' = None \<and>
     apply_text_ops rejecting_dte note_client 1 ''u'' m' doc' = (m', doc', Inr (Skipped EmptyOplog))"
proof -
  let ?p = note_payload
  have ctx: "st_context_id note_store = 1" by code_simp
  have "case snd (store_merge_ops rejecting_dte ?p note_store) of Inl _ \<Rightarrow> True | Inr _ \<Rightarrow> False" by code_simp
  then obtain doc' e where m: "store_merge_ops rejecting_dte ?p note_store = (doc', Inl e)"
    by (cases "store_merge_ops rejecting_dte ?p note_store") (auto split: sum.splits)
  have "\<not> needs_full_sync (st_context_id note_store) note_manager" "length (sm_pending_ops note_manager) < MAX_PENDING_OPS"
    by (simp_all add: needs_full_sync_def note_manager_def with_state_def ctx MAX_PENDING_OPS_def)
  from text_merge_failure_resets [OF this(1) _ _ m _ this(2), of "''t''" note_client]
  show ?thesis using merge_result [OF m note_store_ok] ctx by (auto simp: note_client_def)
qed

text \<open>
  A block insertion that is merged into a document whose manager has not had an initial state does
  not synchronise it: the manager still wants a full sync, and the text operations of the new block are
  skipped.
\<close>

theorem insert_leaves_unsynced:
  assumes "sync_ok D m doc" and "sm_context_id m \<noteq> Some ctx"
    and "apply_block_inserted D C ctx b ops m doc = (m', doc', Inr IncrementalMerge)"
  shows "needs_full_sync ctx m' \<and>
    (\<exists>reason. apply_text_ops D C ctx text_ops m' doc' = (m', doc', Inr (Skipped reason)))"
proof -
  obtain m1 doc1 r1 where 1: "do_incremental_merge D C ops m doc = (m1, doc1, r1)" by (metis prod_cases3)
  note ok1 = incremental_merge_ok [OF 1 assms(1)]
  have full: "do_full_sync D C ctx ops m1 doc1 \<noteq> (m2, doc2, Inr IncrementalMerge)" for m2 doc2
    by (auto simp: do_full_sync_def split: sum.splits)
  obtain m2 doc2 r2 where 2: "do_full_sync D C ctx ops m1 doc1 = (m2, doc2, r2)" by (metis prod_cases3)
  have "replay_pending_ops D C m1 doc1 = (m', doc')"
    using assms(2,3) 1 2 full
    by (auto simp: apply_block_inserted_def needs_full_sync_def then_replay_def split: if_splits sum.splits prod.splits)
  from replay_pending_ok [OF this ok1(1)] have "sm_context_id m' \<noteq> Some ctx" using ok1(3) assms(2) by simp
  then show ?thesis by (auto simp: needs_full_sync_def apply_text_ops_def)
qed


theorem insert_leaves_unsynced_witness:
  "needs_full_sync 1 (fst (apply_block_inserted reference_dte note_client 1 note_snapshot ''p'' manager_new (store_new 1 9)))"
proof -
  obtain m' doc' where "apply_block_inserted reference_dte note_client 1 note_snapshot ''p'' manager_new (store_new 1 9)
      = (m', doc', Inr IncrementalMerge)" using note_inserted by metis
  moreover have "sync_ok reference_dte manager_new (store_new 1 9)"
    by (simp add: sync_ok_def manager_new_def store_ok_new)
  ultimately show ?thesis
    using insert_leaves_unsynced [of reference_dte manager_new "store_new 1 9" 1 note_client note_snapshot "''p''" m' doc']
    by (simp add: manager_new_def)
qed
end
