(* ===== verification/Hydration.thy ===== *)
theory Hydration
  imports Blocks Selection
begin

text \<open>
  From the block log to the conversation a model sees: \<open>crates/kaijutsu-kernel/src/llm/hydrate.rs\<close>,
  \<open>splice.rs\<close>, \<open>mailbox.rs\<close> and the message types and \<open>hydrate_from_blocks\<close> of \<open>llm/mod.rs\<close>.

  JSON values are of type \<open>'j\<close>; parsing them and reading the field \<open>code\<close> belong to \<open>serde_json\<close> and
  are the record \<open>hydrate_env\<close>, with the identifier library.  Warnings are left out.
\<close>

section \<open>Messages\<close>

record 'j hydrate_env =
  he_uuid :: uuid_lib
  json_from_str :: "string \<Rightarrow> 'j option"
  json_code :: "'j \<Rightarrow> string option"
  json_null :: 'j

datatype MessageRole = User | Assistant

datatype 'j ContentBlock =
    Text string
  | ToolUse string string 'j
  | ToolResult string string bool
  | Image string string "string option"
  | Reasoning string "string option"

datatype 'j MessageContent = Text string | Blocks "'j ContentBlock list"

record 'j Message =
  m_role :: MessageRole
  m_content :: "'j MessageContent"

definition message_user :: "string \<Rightarrow> 'j Message" where
  "message_user c = \<lparr>m_role = MessageRole.User, m_content = MessageContent.Text c\<rparr>"

definition message_assistant :: "string \<Rightarrow> 'j Message" where
  "message_assistant c = \<lparr>m_role = Assistant, m_content = MessageContent.Text c\<rparr>"

definition message_tool_results :: "'j ContentBlock list \<Rightarrow> 'j Message" where
  "message_tool_results rs = \<lparr>m_role = MessageRole.User, m_content = Blocks rs\<rparr>"

definition with_reasoning_text_and_tool_uses ::
  "(string \<times> string option) list \<Rightarrow> string option \<Rightarrow> 'j ContentBlock list \<Rightarrow> 'j Message" where
  "with_reasoning_text_and_tool_uses reasoning txt uses =
     \<lparr>m_role = Assistant, m_content = Blocks
        (map (\<lambda>(t, s). Reasoning t s) (filter (\<lambda>(t, _). t \<noteq> []) reasoning)
         @ (case txt of Some t \<Rightarrow> [ContentBlock.Text t] | None \<Rightarrow> []) @ uses)\<rparr>"

text \<open>\<open>str::trim\<close>: the scalar values of the property \<open>White_Space\<close>, in UTF-8.\<close>

definition WHITE_SPACE :: "string list" where
  "WHITE_SPACE =
     [[CHR 0x09], [CHR 0x0A], [CHR 0x0B], [CHR 0x0C], [CHR 0x0D], [CHR 0x20], [CHR 0xC2, CHR 0x85],
      [CHR 0xC2, CHR 0xA0], [CHR 0xE1, CHR 0x9A, CHR 0x80]]
     @ map (\<lambda>n. [CHR 0xE2, CHR 0x80, char_of (0x80 + n :: nat)]) [0..<11]
     @ [[CHR 0xE2, CHR 0x80, CHR 0xA8], [CHR 0xE2, CHR 0x80, CHR 0xA9], [CHR 0xE2, CHR 0x80, CHR 0xAF],
        [CHR 0xE2, CHR 0x81, CHR 0x9F], [CHR 0xE3, CHR 0x80, CHR 0x80]]"

fun strip_white :: "nat \<Rightarrow> string list \<Rightarrow> string \<Rightarrow> string" where
  "strip_white 0 ws s = s"
| "strip_white (Suc n) ws s =
     (case List.find (starts_with s) ws of None \<Rightarrow> s | Some w \<Rightarrow> strip_white n ws (drop (length w) s))"

definition trim :: "string \<Rightarrow> string" where
  "trim s =
     (let t = strip_white (length s) WHITE_SPACE s
      in rev (strip_white (length t) (map rev WHITE_SPACE) (rev t)))"

section \<open>The accumulator\<close>

record 'j HydrationState =
  hs_messages :: "'j Message list"
  hs_assistant_text :: "string option"
  hs_assistant_reasoning :: "(string \<times> string option) list"
  hs_tool_uses :: "'j ContentBlock list"
  hs_tool_results :: "'j ContentBlock list"
  hs_user_shell_pending :: "BlockId \<rightharpoonup> string"

definition hydration_new :: "'j HydrationState" where
  "hydration_new = \<lparr>hs_messages = [], hs_assistant_text = None, hs_assistant_reasoning = [], hs_tool_uses = [],
     hs_tool_results = [], hs_user_shell_pending = Map.empty\<rparr>"

definition push_message :: "'j Message \<Rightarrow> 'j HydrationState \<Rightarrow> 'j HydrationState" where
  "push_message m s = s\<lparr>hs_messages := hs_messages s @ [m]\<rparr>"

definition flush_assistant :: "'j HydrationState \<Rightarrow> 'j HydrationState" where
  "flush_assistant s =
     (let reasoning = hs_assistant_reasoning s; s = s\<lparr>hs_assistant_reasoning := []\<rparr> in
      if hs_assistant_text s = None \<and> hs_tool_uses s = [] then s
      else
        (let txt = hs_assistant_text s; uses = hs_tool_uses s;
             s = s\<lparr>hs_assistant_text := None, hs_tool_uses := []\<rparr>
         in if reasoning = [] \<and> uses = [] then
              (case txt of Some t \<Rightarrow> push_message (message_assistant t) s | None \<Rightarrow> s)
            else push_message (with_reasoning_text_and_tool_uses reasoning txt uses) s))"

definition flush_tool_results :: "'j HydrationState \<Rightarrow> 'j HydrationState" where
  "flush_tool_results s =
     (if hs_tool_results s = [] then s
      else push_message (message_tool_results (hs_tool_results s)) (s\<lparr>hs_tool_results := []\<rparr>))"

definition flush_all :: "'j HydrationState \<Rightarrow> 'j HydrationState" where
  "flush_all s = flush_tool_results (flush_assistant s)"

definition push_seam :: "usize \<Rightarrow> 'j HydrationState \<Rightarrow> 'j HydrationState" where
  "push_seam archived s = push_message (message_user (''['' @ show_nat archived @ '' blocks archived]'')) (flush_all s)"

definition say :: "'j Message \<Rightarrow> 'j HydrationState \<Rightarrow> 'j HydrationState" where
  "say m s = push_message m (flush_all s)"

text \<open>Which blocks never reach the model.\<close>

definition hidden :: "BlockSnapshot \<Rightarrow> bool" where
  "hidden b \<longleftrightarrow> bs_compacted b \<or> bs_ephemeral b \<or> bs_excluded b \<or> bs_kind b \<in> {BlockKind.File, BlockKind.Trace} \<or>
     bs_role b = Role.System \<and> bs_kind b \<notin> {BlockKind.Drift, BlockKind.Error, BlockKind.Notification, BlockKind.Resource} \<or>
     bs_content b = [] \<and> bs_kind b \<notin> {BlockKind.ToolCall, BlockKind.ToolResult, BlockKind.Error,
       BlockKind.Notification, BlockKind.Resource}"

definition shell_code :: "'j hydrate_env \<Rightarrow> BlockSnapshot \<Rightarrow> string" where
  "shell_code H b =
     (case Option.bind (Option.bind (bs_tool_input b) (json_from_str H)) (json_code H) of
        Some code \<Rightarrow> code
      | None \<Rightarrow> bs_content b)"

definition tool_use_of :: "'j hydrate_env \<Rightarrow> BlockSnapshot \<Rightarrow> 'j ContentBlock" where
  "tool_use_of H b = ToolUse
     (case bs_tool_use_id b of Some i \<Rightarrow> i | None \<Rightarrow> to_key (he_uuid H) (bs_id b))
     (case bs_tool_name b of Some n \<Rightarrow> n | None \<Rightarrow> [])
     (case Option.bind (bs_tool_input b) (json_from_str H) of Some v \<Rightarrow> v | None \<Rightarrow> json_null H)"

definition tool_result_of :: "'j hydrate_env \<Rightarrow> BlockSnapshot \<Rightarrow> 'j ContentBlock" where
  "tool_result_of H b = ContentBlock.ToolResult
     (case bs_tool_use_id b of
        Some i \<Rightarrow> i
      | None \<Rightarrow> (case bs_tool_call_id b of Some i \<Rightarrow> to_key (he_uuid H) i | None \<Rightarrow> to_key (he_uuid H) (bs_id b)))
     (case bs_stderr b of
        Some err \<Rightarrow>
          (if err \<noteq> [] \<and> bs_content b \<noteq> [] then bs_content b @ newline @ err
           else if err \<noteq> [] then err else bs_content b)
      | None \<Rightarrow> bs_content b)
     (bs_is_error b)"

definition translate_tool_result :: "'j hydrate_env \<Rightarrow> BlockSnapshot \<Rightarrow> 'j HydrationState \<Rightarrow> 'j HydrationState" where
  "translate_tool_result H b s =
     (case Option.bind (bs_tool_call_id b) (hs_user_shell_pending s) of
        Some code \<Rightarrow>
          (let s = s\<lparr>hs_user_shell_pending := (hs_user_shell_pending s)(the (bs_tool_call_id b) := None)\<rparr>;
               output = trim (bs_content b)
           in say (message_user (''[User ran `'' @ code @ ''`]'' @ (if output = [] then [] else newline @ output))) s)
      | None \<Rightarrow>
          (let s = flush_assistant s in s\<lparr>hs_tool_results := hs_tool_results s @ [tool_result_of H b]\<rparr>))"

text \<open>The search of \<open>find_map\<close>: the first result of the tool use gets the envelope appended.\<close>

fun fold_error :: "string \<Rightarrow> string \<Rightarrow> 'j ContentBlock list \<Rightarrow> 'j ContentBlock list option" where
  "fold_error target envelope [] = None"
| "fold_error target envelope (r # rs) =
     (case r of
        ContentBlock.ToolResult i c e \<Rightarrow>
          (if i = target then Some (ContentBlock.ToolResult i (c @ newline @ newline @ envelope) e # rs)
           else map_option ((#) r) (fold_error target envelope rs))
      | _ \<Rightarrow> map_option ((#) r) (fold_error target envelope rs))"

definition translate_error :: "BlockSnapshot \<Rightarrow> BlockSnapshot option \<Rightarrow> 'j HydrationState \<Rightarrow> 'j HydrationState" where
  "translate_error b parent s =
     (let envelope = format_error_for_llm b;
          target = Option.bind parent (\<lambda>p. if bs_kind p = BlockKind.ToolResult then bs_tool_use_id p else None)
      in case Option.bind target (\<lambda>t. fold_error t envelope (hs_tool_results s)) of
           Some rs \<Rightarrow> s\<lparr>hs_tool_results := rs\<rparr>
         | None \<Rightarrow> say (message_user envelope) s)"

definition drift_text :: "'j hydrate_env \<Rightarrow> BlockSnapshot \<Rightarrow> string" where
  "drift_text H b =
     ''['' @ (case bs_drift_kind b of Some k \<Rightarrow> DriftKind_as_str k | None \<Rightarrow> ''drift'') @ '' from context '' @
     (case bs_source_context b of Some i \<Rightarrow> short (he_uuid H) i | None \<Rightarrow> ''unknown'') @ '']'' @
     newline @ newline @ bs_content b"

definition translate_block ::
  "'j hydrate_env \<Rightarrow> BlockSnapshot \<Rightarrow> BlockSnapshot option \<Rightarrow> 'j HydrationState \<Rightarrow> 'j HydrationState" where
  "translate_block H b parent s =
     (if hidden b then s
      else case (bs_role b, bs_kind b) of
        (Role.User, BlockKind.Text) \<Rightarrow> say (message_user (bs_content b)) s
      | (Role.User, BlockKind.ToolCall) \<Rightarrow>
          (let s = flush_all s
           in s\<lparr>hs_user_shell_pending := (hs_user_shell_pending s)(bs_id b \<mapsto> shell_code H b)\<rparr>)
      | (_, BlockKind.Thinking) \<Rightarrow>
          (case bs_signature b of
             None \<Rightarrow> s
           | Some sig \<Rightarrow>
               (let s = flush_tool_results s
                in s\<lparr>hs_assistant_reasoning := hs_assistant_reasoning s @ [(bs_content b, Some sig)]\<rparr>))
      | (Role.Model, BlockKind.Text) \<Rightarrow>
          (let s = flush_tool_results s
           in s\<lparr>hs_assistant_text := Some (case hs_assistant_text s of
                  Some t \<Rightarrow> t @ newline @ bs_content b | None \<Rightarrow> bs_content b)\<rparr>)
      | (Role.Model, BlockKind.ToolCall) \<Rightarrow>
          (let s = flush_tool_results s in s\<lparr>hs_tool_uses := hs_tool_uses s @ [tool_use_of H b]\<rparr>)
      | (Role.Asset, BlockKind.Text) \<Rightarrow>
          (if bs_content_type b = ContentType.Image
           then say \<lparr>m_role = MessageRole.User, m_content = Blocks [ContentBlock.Image (bs_content b)
                  (as_mime ContentType.Image) None]\<rparr> s
           else s)
      | (Role.Tool, BlockKind.Text) \<Rightarrow>
          (if bs_content_type b \<in> {ContentType.Svg, ContentType.Abc}
           then say (message_user (format_tool_content_for_llm (he_uuid H) b)) s else s)
      | (Role.Tool, BlockKind.ToolResult) \<Rightarrow> translate_tool_result H b s
      | (_, BlockKind.Drift) \<Rightarrow> say (message_user (drift_text H b)) s
      | (_, BlockKind.Error) \<Rightarrow> translate_error b parent s
      | (_, BlockKind.Notification) \<Rightarrow> say (message_user (format_notification_for_llm b)) s
      | (_, BlockKind.Resource) \<Rightarrow> say (message_user (format_resource_for_llm b)) s
      | _ \<Rightarrow> s)"

section \<open>Repair\<close>

definition use_ids :: "'j ContentBlock list \<Rightarrow> string list" where
  "use_ids bs = List.map_filter (\<lambda>b. case b of ToolUse i _ _ \<Rightarrow> Some i | _ \<Rightarrow> None) bs"

definition result_ids :: "'j ContentBlock list \<Rightarrow> string list" where
  "result_ids bs = List.map_filter (\<lambda>b. case b of ContentBlock.ToolResult i _ _ \<Rightarrow> Some i | _ \<Rightarrow> None) bs"

definition message_uses :: "'j Message \<Rightarrow> string list" where
  "message_uses m = (case (m_role m, m_content m) of (Assistant, Blocks bs) \<Rightarrow> use_ids bs | _ \<Rightarrow> [])"

definition message_results :: "'j Message \<Rightarrow> string list" where
  "message_results m = (case (m_role m, m_content m) of (MessageRole.User, Blocks bs) \<Rightarrow> result_ids bs | _ \<Rightarrow> [])"

definition interrupted :: "string \<Rightarrow> 'j ContentBlock" where
  "interrupted i = ContentBlock.ToolResult i ''Tool execution was interrupted (context was forked or pruned)'' True"

definition extend_blocks :: "'j ContentBlock list \<Rightarrow> 'j Message \<Rightarrow> 'j Message" where
  "extend_blocks rs m = (case m_content m of Blocks bs \<Rightarrow> m\<lparr>m_content := Blocks (bs @ rs)\<rparr> | _ \<Rightarrow> m)"

text \<open>The first pass: a result for every tool use without one.\<close>

fun forward_repair :: "'j Message list \<Rightarrow> 'j Message list" where
  "forward_repair [] = []"
| "forward_repair [m] =
     (if message_uses m = [] then [m] else [m, message_tool_results (map interrupted (message_uses m))])"
| "forward_repair (m # n # ms) =
     (let covered = message_results n; missing = filter (\<lambda>i. i \<notin> set covered) (message_uses m) in
      if message_uses m = [] \<or> missing = [] then m # forward_repair (n # ms)
      else if covered = [] then m # message_tool_results (map interrupted missing) # forward_repair (n # ms)
      else m # extend_blocks (map interrupted missing) n # forward_repair ms)"

text \<open>
  The second pass; \<open>idx\<close> is the position in the first pass's output, and the message before is looked
  up at \<open>idx - 1\<close> in what has been kept so far.
\<close>

definition preceding_uses :: "nat \<Rightarrow> 'j Message list \<Rightarrow> string list" where
  "preceding_uses idx cleaned =
     (if 0 < idx \<and> idx - 1 < length cleaned then message_uses (cleaned ! (idx - 1)) else [])"

definition answers :: "string list \<Rightarrow> 'j ContentBlock \<Rightarrow> bool" where
  "answers uses b = (case b of ContentBlock.ToolResult i _ _ \<Rightarrow> i \<in> set uses | _ \<Rightarrow> True)"

definition clean_step :: "nat \<Rightarrow> 'j Message \<Rightarrow> 'j Message list \<Rightarrow> 'j Message list" where
  "clean_step idx m cleaned =
     (case (m_role m, m_content m) of
        (MessageRole.User, Blocks bs) \<Rightarrow>
          (let filtered = filter (answers (preceding_uses idx cleaned)) bs in
           if filtered = [] then cleaned
           else if length filtered < length bs then cleaned @ [message_tool_results filtered]
           else cleaned @ [m])
      | _ \<Rightarrow> cleaned @ [m])"

definition reverse_repair :: "'j Message list \<Rightarrow> 'j Message list" where
  "reverse_repair ms = fold (\<lambda>(idx, m). clean_step idx m) (enumerate 0 ms) []"

definition into_messages :: "'j HydrationState \<Rightarrow> 'j Message list" where
  "into_messages s = reverse_repair (forward_repair (hs_messages (flush_all s)))"

text \<open>A \<open>HashMap\<close> collected from pairs keeps the last of equal keys.\<close>

definition parent_in :: "BlockSnapshot list \<Rightarrow> BlockSnapshot \<Rightarrow> BlockSnapshot option" where
  "parent_in blocks b = Option.bind (bs_parent_id b) (map_of (rev (map (\<lambda>b. (bs_id b, b)) blocks)))"

definition hydrate_from_blocks :: "'j hydrate_env \<Rightarrow> BlockSnapshot list \<Rightarrow> 'j Message list" where
  "hydrate_from_blocks H blocks =
     into_messages (fold (\<lambda>b. translate_block H b (parent_in blocks b)) blocks hydration_new)"

section \<open>Splicing\<close>

datatype SpliceItem = Keep usize | Seam usize

definition is_turn_start :: "BlockSnapshot \<Rightarrow> bool" where
  "is_turn_start b \<longleftrightarrow> bs_role b = Role.User"

fun snap_start :: "BlockSnapshot list \<Rightarrow> usize \<Rightarrow> usize" where
  "snap_start blocks 0 = 0"
| "snap_start blocks (Suc i) = (if is_turn_start (blocks ! Suc i) then Suc i else snap_start blocks i)"

function snap_end_loop :: "BlockSnapshot list \<Rightarrow> usize \<Rightarrow> usize" where
  "snap_end_loop blocks i =
     (if i < length blocks \<and> \<not> is_turn_start (blocks ! i) then snap_end_loop blocks (i + 1) else i)"
  by pat_completeness auto

termination snap_end_loop
  by (relation "measure (\<lambda>(blocks, i). length blocks - i)") auto

definition snap_end :: "BlockSnapshot list \<Rightarrow> usize \<Rightarrow> usize" where
  "snap_end blocks hi = snap_end_loop blocks (min hi (length blocks))"

definition snap_run :: "BlockSnapshot list \<Rightarrow> run \<Rightarrow> run option" where
  "snap_run blocks r =
     (let lo = min (fst r) (length blocks); hi = min (snd r) (length blocks)
      in if hi \<le> lo then None else Some (snap_start blocks lo, snap_end blocks hi))"

fun flatten_runs :: "usize option \<Rightarrow> run list \<Rightarrow> SpliceItem list" where
  "flatten_runs prev [] = []"
| "flatten_runs prev (r # rs) =
     (case prev of
        Some e \<Rightarrow> (if 0 < fst r - e then [Seam (fst r - e)] else [])
      | None \<Rightarrow> [])
     @ map Keep [fst r..<snd r] @ flatten_runs (Some (snd r)) rs"

definition plan_splice :: "BlockSnapshot list \<Rightarrow> run list \<Rightarrow> SpliceItem list" where
  "plan_splice blocks keep_set =
     flatten_runs None (fold push_run (sort (List.map_filter (snap_run blocks) keep_set)) [])"

section \<open>The mailbox\<close>

record 'j ConversationMailbox =
  cm_state :: "'j HydrationState"
  cm_seen :: "BlockId set"
  cm_materialized :: bool
  cm_windowed :: bool

definition mailbox_new :: "'j ConversationMailbox" where
  "mailbox_new = \<lparr>cm_state = hydration_new, cm_seen = {}, cm_materialized = False, cm_windowed = False\<rparr>"

definition feed :: "'j hydrate_env \<Rightarrow> BlockSnapshot \<Rightarrow> BlockSnapshot option \<Rightarrow> 'j ConversationMailbox \<Rightarrow> 'j ConversationMailbox" where
  "feed H b parent cm =
     (if bs_id b \<in> cm_seen cm then cm
      else cm\<lparr>cm_state := translate_block H b parent (cm_state cm), cm_seen := insert (bs_id b) (cm_seen cm),
              cm_materialized := True\<rparr>)"

definition take_in :: "'j hydrate_env \<Rightarrow> BlockSnapshot list \<Rightarrow> BlockSnapshot \<Rightarrow> 'j ConversationMailbox \<Rightarrow> 'j ConversationMailbox" where
  "take_in H blocks b cm =
     cm\<lparr>cm_state := translate_block H b (parent_in blocks b) (cm_state cm), cm_seen := insert (bs_id b) (cm_seen cm)\<rparr>"

definition cleared :: "'j ConversationMailbox \<Rightarrow> 'j ConversationMailbox" where
  "cleared cm = cm\<lparr>cm_state := hydration_new, cm_seen := {}\<rparr>"

definition catch_up :: "'j hydrate_env \<Rightarrow> BlockSnapshot list \<Rightarrow> 'j ConversationMailbox \<Rightarrow> 'j ConversationMailbox \<times> usize" where
  "catch_up H blocks cm =
     (let cm = (if cm_windowed cm then (cleared cm)\<lparr>cm_windowed := False\<rparr> else cm);
          (cm, n) = fold (\<lambda>b (cm, n). if bs_id b \<in> cm_seen cm then (cm, n) else (take_in H blocks b cm, n + 1))
                      blocks (cm, 0)
      in (cm\<lparr>cm_materialized := True\<rparr>, n))"

definition bootstrap :: "'j hydrate_env \<Rightarrow> BlockSnapshot list \<Rightarrow> 'j ConversationMailbox \<Rightarrow> 'j ConversationMailbox" where
  "bootstrap H blocks cm = fst (catch_up H blocks cm)"

definition hydration_keep_set :: "BlockSnapshot list \<Rightarrow> BlockId option \<Rightarrow> usize \<Rightarrow> run list" where
  "hydration_keep_set blocks marker window =
     window_base (length blocks) (Option.bind marker (\<lambda>m. position (\<lambda>b. bs_id b = m) blocks)) window"

definition follow :: "'j hydrate_env \<Rightarrow> BlockSnapshot list \<Rightarrow> SpliceItem \<Rightarrow> 'j ConversationMailbox \<Rightarrow> 'j ConversationMailbox" where
  "follow H blocks item cm =
     (case item of
        Keep i \<Rightarrow> take_in H blocks (blocks ! i) cm
      | Seam n \<Rightarrow> cm\<lparr>cm_state := push_seam n (cm_state cm)\<rparr>)"

definition rehydrate_windowed ::
  "'j hydrate_env \<Rightarrow> BlockSnapshot list \<Rightarrow> BlockId \<Rightarrow> usize \<Rightarrow> 'j ConversationMailbox \<Rightarrow> 'j ConversationMailbox" where
  "rehydrate_windowed H blocks marker window cm =
     (fold (follow H blocks) (plan_splice blocks (hydration_keep_set blocks (Some marker) window)) (cleared cm))
       \<lparr>cm_materialized := True, cm_windowed := True\<rparr>"

definition mailbox_snapshot :: "'j ConversationMailbox \<Rightarrow> 'j Message list" where
  "mailbox_snapshot cm = into_messages (cm_state cm)"

end
