(* ===== verification/Hydration_Props.thy ===== *)
theory Hydration_Props
  imports Hydration
begin

text \<open>
  The properties of hydration: the pairing of tool uses and tool results that the model interface
  requires, the agreement of the incremental mailbox with hydration from scratch, and the splice plan
  of a windowed conversation.
\<close>

section \<open>Pairing\<close>

text \<open>Every result answers a use of the message before; every use is answered by the message after.\<close>

definition results_paired :: "'j Message list \<Rightarrow> bool" where
  "results_paired ms \<longleftrightarrow>
     (\<forall>k < length ms. \<forall>i \<in> set (message_results (ms ! k)). 0 < k \<and> i \<in> set (message_uses (ms ! (k - 1))))"

definition uses_answered :: "'j Message list \<Rightarrow> bool" where
  "uses_answered ms \<longleftrightarrow>
     (\<forall>k < length ms. \<forall>i \<in> set (message_uses (ms ! k)). k + 1 < length ms \<and> i \<in> set (message_results (ms ! (k + 1))))"

lemma reverse_repair_snoc: "reverse_repair (ms @ [m]) = clean_step (length ms) m (reverse_repair ms)"
  by (simp add: reverse_repair_def enumerate_append_eq)

lemma clean_step_cases:
  obtains (dropped) "clean_step idx m cleaned = cleaned"
  | (kept) n where "clean_step idx m cleaned = cleaned @ [n]" and "message_uses n = message_uses m"
      and "message_results n = filter (\<lambda>i. i \<in> set (preceding_uses idx cleaned)) (message_results m)"
proof (cases "\<exists>bs. m_role m = MessageRole.User \<and> m_content m = Blocks bs")
  case True
  then obtain bs where bs: "m_role m = MessageRole.User" "m_content m = Blocks bs" by blast
  let ?f = "filter (answers (preceding_uses idx cleaned)) bs"
  have res: "result_ids ?f = filter (\<lambda>i. i \<in> set (preceding_uses idx cleaned)) (result_ids bs)"
    by (induction bs) (auto simp: result_ids_def answers_def map_filter_def split: ContentBlock.splits)
  have same: "\<not> length ?f < length bs \<Longrightarrow> ?f = bs"
    by (metis filter_True length_filter_less)
  consider "?f = []" | "?f \<noteq> []" "length ?f < length bs" | "?f \<noteq> []" "\<not> length ?f < length bs" by blast
  then show ?thesis
  proof cases
    case 1
    then show ?thesis using bs by (intro dropped) (simp add: clean_step_def Let_def)
  next
    case 2
    then show ?thesis using bs res
      by (intro kept [of "message_tool_results ?f"])
        (simp_all add: clean_step_def Let_def message_tool_results_def message_uses_def message_results_def)
  next
    case 3
    then show ?thesis using bs res same
      by (intro kept [of m]) (simp_all add: clean_step_def Let_def message_results_def)
  qed
next
  case False
  then have "message_results m = []" "clean_step idx m cleaned = cleaned @ [m]"
    by (auto simp: message_results_def clean_step_def split: MessageRole.splits MessageContent.splits)
  then show ?thesis by (intro kept [of m]) simp_all
qed

lemma length_reverse_repair: "length (reverse_repair ms) \<le> length ms"
proof (induction ms rule: rev_induct)
  case (snoc m ms)
  then show ?case unfolding reverse_repair_snoc
    by (cases rule: clean_step_cases [of "length ms" m "reverse_repair ms"]) auto
qed (simp add: reverse_repair_def)

lemma results_paired_snoc:
  assumes "results_paired ms" and "\<forall>i \<in> set (message_results m). ms \<noteq> [] \<and> i \<in> set (message_uses (last ms))"
  shows "results_paired (ms @ [m])"
  unfolding results_paired_def
proof (intro allI impI ballI)
  fix k i assume k: "k < length (ms @ [m])" and i: "i \<in> set (message_results ((ms @ [m]) ! k))"
  show "0 < k \<and> i \<in> set (message_uses ((ms @ [m]) ! (k - 1)))"
  proof (cases "k < length ms")
    case True
    then show ?thesis using assms(1) i by (auto simp: results_paired_def nth_append)
  next
    case False
    then have "k = length ms" using k by simp
    then show ?thesis using assms(2) i by (auto simp: nth_append last_conv_nth)
  qed
qed

lemma results_paired_reverse_repair: "results_paired (reverse_repair ms)"
proof (induction ms rule: rev_induct)
  case (snoc m ms)
  let ?c = "reverse_repair ms"
  show ?case unfolding reverse_repair_snoc
  proof (cases rule: clean_step_cases [of "length ms" m ?c])
    case (kept n)
    have "?c \<noteq> [] \<and> i \<in> set (message_uses (last ?c))" if "i \<in> set (preceding_uses (length ms) ?c)" for i
    proof -
      have "0 < length ms" "length ms - 1 < length ?c" using that by (auto simp: preceding_uses_def split: if_splits)
      then have "length ?c = length ms" using length_reverse_repair [of ms] by linarith
      moreover then have "last ?c = ?c ! (length ms - 1)" using \<open>0 < length ms\<close> by (metis last_conv_nth length_greater_0_conv)
      ultimately show ?thesis using that by (auto simp: preceding_uses_def split: if_splits)
    qed
    then show "results_paired (clean_step (length ms) m ?c)"
      unfolding kept(1) using snoc kept(3) by (intro results_paired_snoc) auto
  qed (use snoc in simp)
qed (simp add: reverse_repair_def results_paired_def)

lemma reverse_repair_aligned:
  assumes "length (reverse_repair ms) = length ms" and "k < length ms"
  shows "message_uses (reverse_repair ms ! k) = message_uses (ms ! k) \<and>
    message_results (reverse_repair ms ! k) =
      filter (\<lambda>i. 0 < k \<and> i \<in> set (message_uses (ms ! (k - 1)))) (message_results (ms ! k))"
  using assms
proof (induction ms arbitrary: k rule: rev_induct)
  case (snoc m ms)
  let ?c = "reverse_repair ms"
  have len: "length ?c = length ms" and grow: "clean_step (length ms) m ?c \<noteq> ?c"
    using snoc.prems(1) length_reverse_repair [of ms] unfolding reverse_repair_snoc
    by (cases rule: clean_step_cases [of "length ms" m ?c]; simp)+
  obtain n where n: "clean_step (length ms) m ?c = ?c @ [n]" "message_uses n = message_uses m"
      "message_results n = filter (\<lambda>i. i \<in> set (preceding_uses (length ms) ?c)) (message_results m)"
    using grow by (cases rule: clean_step_cases [of "length ms" m ?c]) auto
  show ?case
  proof (cases "k < length ms")
    case True
    then show ?thesis using snoc.IH [OF len True] n(1) len
      by (auto simp: reverse_repair_snoc nth_append)
  next
    case False
    then have k: "k = length ms" using snoc.prems(2) by simp
    have "set (preceding_uses (length ms) ?c) = (if 0 < k then set (message_uses (ms ! (k - 1))) else {})"
      using snoc.IH [OF len, of "k - 1"] len k by (auto simp: preceding_uses_def)
    then show ?thesis using n k len by (auto simp: reverse_repair_snoc nth_append intro: filter_cong)
  qed
qed simp

lemma message_results_user: "message_results m \<noteq> [] \<Longrightarrow> message_uses m = []"
  by (auto simp: message_results_def message_uses_def split: MessageRole.splits)

lemma tool_results_message [simp]:
  "message_uses (message_tool_results rs) = []" "message_results (message_tool_results rs) = result_ids rs"
  by (simp_all add: message_tool_results_def message_uses_def message_results_def)

lemma result_ids_interrupted [simp]: "result_ids (map interrupted is) = is"
  by (induction "is") (simp_all add: result_ids_def interrupted_def map_filter_def)

lemma result_ids_append: "result_ids (xs @ ys) = result_ids xs @ result_ids ys"
  by (simp add: result_ids_def map_filter_def)

lemma message_results_extend:
  "message_results m \<noteq> [] \<Longrightarrow> message_results (extend_blocks rs m) = message_results m @ result_ids rs"
  by (auto simp: message_results_def extend_blocks_def result_ids_append split: MessageRole.splits MessageContent.splits)

lemma forward_repair_head: "\<exists>ms'. forward_repair (m # ms) = m # ms'"
  by (cases ms) (auto simp: Let_def)

lemma uses_answered_Cons:
  "uses_answered (m # ms) \<longleftrightarrow>
     (\<forall>i \<in> set (message_uses m). ms \<noteq> [] \<and> i \<in> set (message_results (hd ms))) \<and> uses_answered ms"
proof -
  have "(\<forall>k < Suc (length ms). P k) \<longleftrightarrow> P 0 \<and> (\<forall>k < length ms. P (Suc k))" for P
    by (metis Suc_less_eq gr0_conv_Suc not_gr_zero zero_less_Suc)
  then show ?thesis
    unfolding uses_answered_def by (cases ms) (auto simp: hd_conv_nth)
qed

lemma uses_answered_forward_repair: "uses_answered (forward_repair ms)"
proof (induction ms rule: forward_repair.induct)
  case 1
  then show ?case by (simp add: uses_answered_def)
next
  case (2 m)
  then show ?case by (auto simp: uses_answered_Cons) (simp_all add: uses_answered_def)
next
  case (3 m n ms)
  let ?missing = "filter (\<lambda>i. i \<notin> set (message_results n)) (message_uses m)"
  obtain ms' where hd: "forward_repair (n # ms) = n # ms'" using forward_repair_head by blast
  consider (all) "message_uses m = [] \<or> ?missing = []" | (none) "message_uses m \<noteq> []" "?missing \<noteq> []" "message_results n = []"
    | (some) "message_uses m \<noteq> []" "?missing \<noteq> []" "message_results n \<noteq> []" by blast
  then show ?case
  proof cases
    case all
    then show ?thesis using 3(1) [OF refl refl] hd
      by (auto simp: uses_answered_Cons filter_empty_conv)
  next
    case none
    then show ?thesis using 3(2) [OF refl refl] hd by (auto simp: uses_answered_Cons)
  next
    case some
    let ?e = "extend_blocks (map interrupted ?missing) n"
    have e: "message_results ?e = message_results n @ ?missing" using message_results_extend [OF some(3)] by simp
    then have "message_uses ?e = []" using some(2) message_results_user by (metis append_is_Nil_conv)
    then show ?thesis using 3(3) [OF refl refl] some e by (auto simp: uses_answered_Cons)
  qed
qed

section \<open>The mailbox\<close>

text \<open>
  The log: identifiers are unique, and the parent of an error block, when it is in the log, stands
  before it.  The parent is looked at for error blocks only.
\<close>

fun parents_first :: "BlockSnapshot list \<Rightarrow> bool" where
  "parents_first [] = True"
| "parents_first (b # l) \<longleftrightarrow>
     (bs_kind b = BlockKind.Error \<longrightarrow>
        (case bs_parent_id b of Some p \<Rightarrow> p \<notin> set (map bs_id (b # l)) | None \<Rightarrow> True)) \<and> parents_first l"

definition log_ok :: "BlockSnapshot list \<Rightarrow> bool" where
  "log_ok l \<longleftrightarrow> distinct (map bs_id l) \<and> parents_first l"

lemma parents_first_append:
  "parents_first (xs @ ys) \<Longrightarrow> parents_first xs \<and>
     (\<forall>b \<in> set xs. \<forall>p. bs_kind b = BlockKind.Error \<longrightarrow> bs_parent_id b = Some p \<longrightarrow> p \<notin> bs_id ` set ys)"
  by (induction xs) (auto split: option.splits)

lemma log_ok_prefix: "log_ok (xs @ ys) \<Longrightarrow> log_ok xs"
  using parents_first_append by (auto simp: log_ok_def)

lemma parent_in_prefix:
  assumes "log_ok (xs @ ys)" and "b \<in> set xs" and "bs_kind b = BlockKind.Error"
  shows "parent_in (xs @ ys) b = parent_in xs b"
proof (cases "bs_parent_id b")
  case (Some p)
  then have "p \<notin> bs_id ` set ys" using assms parents_first_append [of xs ys] by (auto simp: log_ok_def)
  then have "map_of (rev (map (\<lambda>b. (bs_id b, b)) ys)) p = None" by (auto simp: map_of_eq_None_iff)
  then show ?thesis using Some by (simp add: parent_in_def map_add_def)
qed (simp add: parent_in_def)

lemma translate_parent:
  "bs_kind b \<noteq> BlockKind.Error \<or> p = q \<Longrightarrow> translate_block H b p s = translate_block H b q s"
  by (cases "bs_role b"; cases "bs_kind b") (auto simp: translate_block_def)

lemma translate_prefix:
  "log_ok (xs @ ys) \<Longrightarrow> b \<in> set xs \<Longrightarrow>
     translate_block H b (parent_in (xs @ ys) b) s = translate_block H b (parent_in xs b) s"
  by (rule translate_parent) (auto simp: parent_in_prefix)

definition hydrated :: "'j hydrate_env \<Rightarrow> BlockSnapshot list \<Rightarrow> 'j HydrationState" where
  "hydrated H l = fold (\<lambda>b. translate_block H b (parent_in l b)) l hydration_new"

lemma hydrated_append:
  assumes "log_ok (xs @ ys)"
  shows "hydrated H (xs @ ys) = fold (\<lambda>b. translate_block H b (parent_in (xs @ ys) b)) ys (hydrated H xs)"
proof -
  have "fold (\<lambda>b. translate_block H b (parent_in (xs @ ys) b)) xs s = fold (\<lambda>b. translate_block H b (parent_in xs b)) xs s" for s
    by (rule fold_cong) (auto simp: translate_prefix [OF assms])
  then show ?thesis by (simp add: hydrated_def)
qed

definition caught_up :: "'j hydrate_env \<Rightarrow> BlockSnapshot list \<Rightarrow> 'j ConversationMailbox \<Rightarrow> bool" where
  "caught_up H l cm \<longleftrightarrow> cm_state cm = hydrated H l \<and> cm_seen cm = bs_id ` set l"

abbreviation catch_step :: "'j hydrate_env \<Rightarrow> BlockSnapshot list \<Rightarrow> BlockSnapshot \<Rightarrow>
    'j ConversationMailbox \<times> nat \<Rightarrow> 'j ConversationMailbox \<times> nat" where
  "catch_step H blocks b \<equiv> (\<lambda>(cm, n). if bs_id b \<in> cm_seen cm then (cm, n) else (take_in H blocks b cm, n + 1))"

lemma catch_seen:
  "bs_id ` set bs \<subseteq> cm_seen cm \<Longrightarrow> fold (catch_step H l) bs (cm, n) = (cm, n)"
  by (induction bs) auto

lemma catch_fresh:
  assumes "distinct (map bs_id bs)" and "bs_id ` set bs \<inter> cm_seen cm = {}"
  shows "fold (catch_step H l) bs (cm, n) =
    (cm\<lparr>cm_state := fold (\<lambda>b. translate_block H b (parent_in l b)) bs (cm_state cm), cm_seen := cm_seen cm \<union> bs_id ` set bs\<rparr>,
     n + length bs)"
  using assms
proof (induction bs arbitrary: cm n)
  case (Cons b bs)
  have "bs_id ` set bs \<inter> cm_seen (take_in H l b cm) = {}" using Cons.prems by (auto simp: take_in_def)
  with Cons.IH [of "take_in H l b cm" "n + 1"] Cons.prems show ?case by (simp add: take_in_def)
qed simp

lemma catch_up_correct:
  assumes ok: "log_ok (xs @ ys)" and cm: "\<not> cm_windowed cm \<Longrightarrow> caught_up H xs cm"
  shows "caught_up H (xs @ ys) (fst (catch_up H (xs @ ys) cm)) \<and> \<not> cm_windowed (fst (catch_up H (xs @ ys) cm)) \<and>
    cm_materialized (fst (catch_up H (xs @ ys) cm)) \<and>
    snd (catch_up H (xs @ ys) cm) = (if cm_windowed cm then length (xs @ ys) else length ys)"
proof (cases "cm_windowed cm")
  case True
  let ?cm = "(cleared cm)\<lparr>cm_windowed := False\<rparr>"
  have "distinct (map bs_id (xs @ ys))" using ok unfolding log_ok_def by blast
  note fresh = catch_fresh [OF this, of ?cm H "xs @ ys" 0]
  have "cm_seen ?cm = {}" "cm_state ?cm = hydration_new" by (simp_all add: cleared_def)
  then show ?thesis using True fresh
    by (simp add: catch_up_def caught_up_def hydrated_def Let_def case_prod_unfold)
next
  case False
  have seen: "fold (catch_step H (xs @ ys)) xs (cm, 0) = (cm, 0)"
    using cm [OF False] by (intro catch_seen) (simp add: caught_up_def)
  have "distinct (map bs_id ys)" "bs_id ` set ys \<inter> cm_seen cm = {}"
    using ok cm [OF False] by (auto simp: log_ok_def caught_up_def)
  note fresh = catch_fresh [OF this, of H "xs @ ys" 0]
  have "fold (catch_step H (xs @ ys)) (xs @ ys) (cm, 0) =
      (cm\<lparr>cm_state := hydrated H (xs @ ys), cm_seen := bs_id ` set (xs @ ys)\<rparr>, length ys)"
    using seen fresh hydrated_append [OF ok, of H] cm [OF False] by (simp add: caught_up_def image_Un)
  then have "catch_up H (xs @ ys) cm =
      (cm\<lparr>cm_state := hydrated H (xs @ ys), cm_seen := bs_id ` set (xs @ ys), cm_materialized := True\<rparr>, length ys)"
    using False unfolding catch_up_def Let_def by (simp del: fold_append)
  then show ?thesis using False by (simp add: caught_up_def)
qed

text \<open>
  The mailboxes of a log that grows at its end: by a batch, by a fed block, by nothing when a block is
  fed again, by anything when the mailbox is rebuilt around a window.  A fed block comes with any
  parent, as a windowed mailbox is rebuilt by the next batch; an error block fed to a mailbox that is
  not windowed comes with the parent the log has for it.
\<close>

inductive mailbox_at :: "'j hydrate_env \<Rightarrow> BlockSnapshot list \<Rightarrow> 'j ConversationMailbox \<Rightarrow> bool" for H where
  fresh: "mailbox_at H [] mailbox_new"
| catching: "mailbox_at H xs cm \<Longrightarrow> mailbox_at H (xs @ ys) (fst (catch_up H (xs @ ys) cm))"
| feeding: "mailbox_at H xs cm \<Longrightarrow>
    cm_windowed cm \<or> bs_kind b \<noteq> BlockKind.Error \<or> parent = parent_in (xs @ [b]) b \<Longrightarrow>
    mailbox_at H (xs @ [b]) (feed H b parent cm)"
| again: "mailbox_at H xs cm \<Longrightarrow> b \<in> set xs \<Longrightarrow> mailbox_at H xs (feed H b parent cm)"
| windowing: "mailbox_at H xs cm \<Longrightarrow> mailbox_at H (xs @ ys) (rehydrate_windowed H (xs @ ys) marker window cm)"

lemma mailbox_caught_up:
  assumes "mailbox_at H l cm" and "log_ok l" and "\<not> cm_windowed cm"
  shows "caught_up H l cm"
  using assms
proof (induction rule: mailbox_at.induct)
  case fresh
  then show ?case by (simp add: caught_up_def hydrated_def mailbox_new_def)
next
  case (catching xs cm ys)
  then show ?case using catch_up_correct [OF catching.prems(1), of cm H] log_ok_prefix [OF catching.prems(1)] by blast
next
  case (feeding xs cm b parent)
  have nw: "\<not> cm_windowed cm" using feeding.prems(2) by (simp add: feed_def split: if_splits)
  then have "caught_up H xs cm" using feeding log_ok_prefix by blast
  moreover have "bs_id b \<notin> bs_id ` set xs" using feeding.prems(1) by (auto simp: log_ok_def)
  moreover have "translate_block H b parent s = translate_block H b (parent_in (xs @ [b]) b) s" for s
    using feeding.hyps(2) nw by (intro translate_parent) blast
  ultimately show ?case using hydrated_append [OF feeding.prems(1), of H]
    by (auto simp: caught_up_def feed_def)
next
  case (again xs cm b parent)
  have "\<not> cm_windowed cm" using again.prems(2) by (simp add: feed_def split: if_splits)
  then have "caught_up H xs cm" using again by blast
  then show ?case using again.hyps(2) by (simp add: caught_up_def feed_def)
next
  case (windowing xs cm ys marker window)
  then show ?case by (simp add: rehydrate_windowed_def)
qed

section \<open>The splice plan\<close>

definition kept :: "SpliceItem list \<Rightarrow> nat set" where
  "kept plan = {i. Keep i \<in> set plan}"

text \<open>The plan spelled out: a seam of \<open>n\<close> blocks stands for \<open>n\<close> missing positions.\<close>

definition spelled :: "SpliceItem list \<Rightarrow> nat option list" where
  "spelled plan = concat (map (\<lambda>x. case x of Keep i \<Rightarrow> [Some i] | Seam n \<Rightarrow> replicate n None) plan)"

lemma snap_start_le: "snap_start blocks i \<le> i"
  by (induction blocks i rule: snap_start.induct) auto

lemma snap_start_turn: "snap_start blocks i = 0 \<or> is_turn_start (blocks ! snap_start blocks i)"
  by (induction blocks i rule: snap_start.induct) auto

declare snap_end_loop.simps [simp del]

lemma snap_end_loop:
  "i \<le> length blocks \<Longrightarrow> i \<le> snap_end_loop blocks i \<and> snap_end_loop blocks i \<le> length blocks \<and>
     (snap_end_loop blocks i < length blocks \<longrightarrow> is_turn_start (blocks ! snap_end_loop blocks i))"
proof (induction blocks i rule: snap_end_loop.induct)
  case (1 blocks i)
  have eq: "snap_end_loop blocks i =
      (if i < length blocks \<and> \<not> is_turn_start (blocks ! i) then snap_end_loop blocks (i + 1) else i)"
    by (rule snap_end_loop.simps)
  show ?case
  proof (cases "i < length blocks \<and> \<not> is_turn_start (blocks ! i)")
    case True
    then show ?thesis using 1(1) [OF True] eq by auto
  next
    case False
    then show ?thesis using 1(2) eq by auto
  qed
qed

lemma snap_run_Some:
  assumes "snap_run blocks r = Some (a, b)"
  shows "a < b" and "b \<le> length blocks" and "{fst r..<min (snd r) (length blocks)} \<subseteq> {a..<b}"
    and "a = 0 \<or> is_turn_start (blocks ! a)" and "b < length blocks \<longrightarrow> is_turn_start (blocks ! b)"
proof -
  let ?lo = "min (fst r) (length blocks)" and ?hi = "min (snd r) (length blocks)"
  have ab: "a = snap_start blocks ?lo" "b = snap_end blocks ?hi" "?lo < ?hi"
    using assms by (auto simp: snap_run_def Let_def split: if_splits)
  note hi = snap_end_loop [of ?hi blocks]
  have b: "b = snap_end_loop blocks ?hi" using ab(2) by (simp add: snap_end_def)
  show "a < b" "b \<le> length blocks" "{fst r..<min (snd r) (length blocks)} \<subseteq> {a..<b}"
    "b < length blocks \<longrightarrow> is_turn_start (blocks ! b)"
    using hi b ab(1,3) snap_start_le [of blocks ?lo] by auto
  show "a = 0 \<or> is_turn_start (blocks ! a)" using snap_start_turn ab(1) by simp
qed

definition plan_runs :: "BlockSnapshot list \<Rightarrow> run list \<Rightarrow> run list" where
  "plan_runs blocks ks = from_ranges (List.map_filter (snap_run blocks) ks)"

lemma plan_splice_runs: "plan_splice blocks ks = flatten_runs None (plan_runs blocks ks)"
proof -
  have "filter (\<lambda>r. fst r < snd r) (List.map_filter (snap_run blocks) ks) = List.map_filter (snap_run blocks) ks"
    by (intro filter_True) (auto simp: map_filter_def dest: snap_run_Some(1))
  then show ?thesis by (simp add: plan_splice_def plan_runs_def from_ranges_def)
qed

lemma in_plan_runs:
  "i \<in> positions (plan_runs blocks ks) \<longleftrightarrow> (\<exists>r \<in> set ks. \<exists>a b. snap_run blocks r = Some (a, b) \<and> a \<le> i \<and> i < b)"
  unfolding plan_runs_def positions_from_ranges unfolding positions_def by (force simp: map_filter_def)

lemma kept_flatten: "kept (flatten_runs prev rs) = positions rs"
  by (induction prev rs rule: flatten_runs.induct)
    (auto simp: kept_def split: option.splits)

lemma spelled_simps [simp]:
  "spelled [] = []" "spelled (xs @ ys) = spelled xs @ spelled ys" "spelled (Seam n # xs) = replicate n None @ spelled xs"
  "spelled (map Keep is) = map Some is"
  by (induction "is") (simp_all add: spelled_def)

lemma upt_split: "a \<le> b \<Longrightarrow> b \<le> c \<Longrightarrow> [a..<c] = [a..<b] @ [b..<c]"
  by (metis le_iff_add upt_add_eq_append)

lemma spelled_flatten:
  assumes "canonical rs" and "rs \<noteq> []" and "e < fst (hd rs)"
  shows "spelled (flatten_runs (Some e) rs) = map (\<lambda>i. if i \<in> positions rs then Some i else None) [e..<snd (last rs)]"
  using assms
proof (induction rs arbitrary: e)
  case (Cons r rs)
  let ?g = "\<lambda>i. if i \<in> positions (r # rs) then Some i else None"
  have r: "fst r < snd r" "e < fst r" using Cons.prems by (simp_all add: canonical_Cons)
  have gap: "map ?g [e..<fst r] = replicate (fst r - e) None"
  proof (rule nth_equalityI)
    fix k assume "k < length (map ?g [e..<fst r])"
    moreover then have "e + k \<notin> positions (r # rs)"
      using canonical_bounds(3) [OF Cons.prems(1), of "e + k"] by auto
    ultimately show "map ?g [e..<fst r] ! k = replicate (fst r - e) None ! k" by simp
  qed simp
  have run: "map ?g [fst r..<snd r] = map Some [fst r..<snd r]" by auto
  have rest: "spelled (flatten_runs (Some (snd r)) rs) = map ?g [snd r..<snd (last (r # rs))]"
    if "rs \<noteq> []"
  proof -
    have "canonical rs" "snd r < fst (hd rs)" using Cons.prems(1) that by (auto simp: canonical_Cons)
    from Cons.IH [OF this(1) that this(2)] show ?thesis using that by (auto intro!: map_cong)
  qed
  have "e \<le> fst r" "fst r \<le> snd r" using r by simp_all
  moreover have "snd r \<le> snd (last (r # rs))"
  proof (cases "rs = []")
    case False
    then have "snd r < fst (last rs)" "fst (last rs) < snd (last rs)"
      using Cons.prems(1) by (auto simp: canonical_Cons canonical_def list_all_iff)
    then show ?thesis using False by simp
  qed simp
  ultimately have split: "[e..<snd (last (r # rs))] = [e..<fst r] @ [fst r..<snd r] @ [snd r..<snd (last (r # rs))]"
    using upt_split [of e "fst r" "snd (last (r # rs))"] upt_split [of "fst r" "snd r" "snd (last (r # rs))"]
    by simp
  show ?case
  proof (cases "rs = []")
    case True
    then show ?thesis using r gap run unfolding split by (simp cong: map_cong)
  next
    case False
    then show ?thesis using r gap run rest unfolding split by simp
  qed
qed simp

text \<open>Two positions lie in the same turn when no turn starts between them.\<close>

definition same_turn :: "BlockSnapshot list \<Rightarrow> nat \<Rightarrow> nat \<Rightarrow> bool" where
  "same_turn blocks i j \<longleftrightarrow> (\<forall>t \<in> {min i j<..max i j}. \<not> is_turn_start (blocks ! t))"

lemma snap_start_gap: "snap_start blocks i < t \<Longrightarrow> t \<le> i \<Longrightarrow> \<not> is_turn_start (blocks ! t)"
  by (induction blocks i rule: snap_start.induct) (auto split: if_splits simp: le_Suc_eq)

lemma snap_end_gap: "i \<le> t \<Longrightarrow> t < snap_end_loop blocks i \<Longrightarrow> \<not> is_turn_start (blocks ! t)"
proof (induction blocks i rule: snap_end_loop.induct)
  case (1 blocks i)
  have eq: "snap_end_loop blocks i =
      (if i < length blocks \<and> \<not> is_turn_start (blocks ! i) then snap_end_loop blocks (i + 1) else i)"
    by (rule snap_end_loop.simps)
  then have c: "i < length blocks \<and> \<not> is_turn_start (blocks ! i)" using 1 by (auto split: if_splits)
  show ?case
  proof (cases "t = i")
    case False
    then show ?thesis using 1(1) [OF c] 1(2,3) c eq by simp
  qed (use c in simp)
qed

lemma snap_run_same_turn:
  assumes "snap_run blocks r = Some (a, b)"
  shows "i \<in> {a..<b} \<longleftrightarrow> i < length blocks \<and> (\<exists>j. fst r \<le> j \<and> j < snd r \<and> j < length blocks \<and> same_turn blocks i j)"
    (is "?L \<longleftrightarrow> ?R")
proof
  let ?lo = "min (fst r) (length blocks)" and ?hi = "min (snd r) (length blocks)"
  have ab: "a = snap_start blocks ?lo" "b = snap_end_loop blocks ?hi" "?lo < ?hi"
    using assms by (auto simp: snap_run_def snap_end_def Let_def split: if_splits)
  have b: "b \<le> length blocks" using snap_run_Some(2) [OF assms] .
  assume ?L
  then have i: "a \<le> i" "i < b" by auto
  consider "i < ?lo" | "?lo \<le> i" "i < ?hi" | "?hi \<le> i" by linarith
  then show ?R
  proof cases
    case 1
    then have "same_turn blocks i ?lo" using snap_start_gap [of blocks ?lo] i ab(1) by (auto simp: same_turn_def)
    then show ?thesis using 1 ab(3) i b by (intro conjI exI [of _ ?lo]) auto
  next
    case 2
    then show ?thesis using i b by (intro conjI exI [of _ i]) (auto simp: same_turn_def)
  next
    case 3
    then have "same_turn blocks i (?hi - 1)" using snap_end_gap [of ?hi _ blocks] i ab(2,3) by (auto simp: same_turn_def)
    then show ?thesis using 3 ab(3) i b by (intro conjI exI [of _ "?hi - 1"]) auto
  qed
next
  assume ?R
  then obtain j where i: "i < length blocks" and j: "fst r \<le> j" "j < snd r" "j < length blocks" and
    same: "\<And>t. min i j < t \<Longrightarrow> t \<le> max i j \<Longrightarrow> \<not> is_turn_start (blocks ! t)"
    by (auto simp: same_turn_def)
  have "j \<in> {a..<b}" using snap_run_Some(3) [OF assms] j by auto
  moreover have "a \<le> i" using snap_run_Some(4) [OF assms] same [of a] calculation by force
  moreover have "i < b" using snap_run_Some(2,5) [OF assms] same [of b] calculation i by force
  ultimately show ?L by simp
qed

lemma snap_run_None: "snap_run blocks r = None \<longleftrightarrow> \<not> (\<exists>j. fst r \<le> j \<and> j < snd r \<and> j < length blocks)"
  by (auto simp: snap_run_def Let_def intro!: exI [of _ "fst r"])

lemma positions_plan_runs:
  "positions (plan_runs blocks ks) =
     {i. i < length blocks \<and> (\<exists>j \<in> positions ks. j < length blocks \<and> same_turn blocks i j)}"
proof (intro set_eqI iffI)
  fix i assume "i \<in> positions (plan_runs blocks ks)"
  then obtain r a b where r: "r \<in> set ks" "snap_run blocks r = Some (a, b)" "i \<in> {a..<b}" by (auto simp: in_plan_runs)
  then show "i \<in> {i. i < length blocks \<and> (\<exists>j \<in> positions ks. j < length blocks \<and> same_turn blocks i j)}"
    using snap_run_same_turn [OF r(2), of i] by (fastforce simp: positions_def)
next
  fix i assume "i \<in> {i. i < length blocks \<and> (\<exists>j \<in> positions ks. j < length blocks \<and> same_turn blocks i j)}"
  then obtain r j where r: "r \<in> set ks" "fst r \<le> j" "j < snd r" "i < length blocks" "j < length blocks" "same_turn blocks i j"
    by (auto simp: positions_def)
  then obtain a b where ab: "snap_run blocks r = Some (a, b)"
    using snap_run_None [of blocks r] by (metis option.exhaust surj_pair)
  then show "i \<in> positions (plan_runs blocks ks)"
    using snap_run_same_turn [OF ab, of i] r by (auto simp: in_plan_runs)
qed

lemma flatten_first: "flatten_runs None (r # rs) = map Keep [fst r..<snd r] @ flatten_runs (Some (snd r)) rs"
  by simp

lemma spelled_plan:
  assumes "canonical rs" and "rs \<noteq> []"
  shows "spelled (flatten_runs None rs) =
    map (\<lambda>i. if i \<in> positions rs then Some i else None) [fst (hd rs)..<snd (last rs)]"
proof (cases rs)
  case (Cons r rs')
  let ?g = "\<lambda>i. if i \<in> positions (r # rs') then Some i else None"
  show ?thesis
  proof (cases "rs' = []")
    case False
    have c: "canonical rs'" "snd r < fst (hd rs')" "fst r < snd r" using assms Cons False by (auto simp: canonical_Cons)
    then have "snd r < fst (last rs')" "fst (last rs') < snd (last rs')"
      using assms Cons False by (auto simp: canonical_Cons canonical_def list_all_iff)
    then have "[fst r..<snd (last rs')] = [fst r..<snd r] @ [snd r..<snd (last rs')]"
      using c by (intro upt_split) auto
    then show ?thesis using Cons False spelled_flatten [OF c(1) False c(2)] by (simp cong: map_cong)
  qed (use Cons in \<open>simp cong: map_cong\<close>)
qed (use assms in simp)

lemma canonical_ends:
  assumes "canonical rs" and "rs \<noteq> []"
  shows "fst (hd rs) \<in> positions rs" and "snd (last rs) - 1 \<in> positions rs" and "0 < snd (last rs)"
proof -
  have "fst (hd rs) < snd (hd rs)" "fst (last rs) < snd (last rs)"
    using assms by (auto simp: canonical_def list_all_iff)
  moreover have "hd rs \<in> set rs" "last rs \<in> set rs" using assms(2) by simp_all
  ultimately show "fst (hd rs) \<in> positions rs" "snd (last rs) - 1 \<in> positions rs" "0 < snd (last rs)"
    unfolding positions_def by force+
qed

section \<open>Properties\<close>

text \<open>
  C30: a hydrated conversation never carries an orphan tool result: every tool result in a message names
  a tool use of the message directly before it, whatever the block log.
\<close>

theorem hydrated_results_paired: "results_paired (hydrate_from_blocks H blocks)"
  by (simp add: hydrate_from_blocks_def into_messages_def results_paired_reverse_repair)

text \<open>
  When the second repair pass drops no message, every tool use of the hydrated conversation is
  answered by the message directly after it.
\<close>

theorem tool_uses_answered:
  assumes "length (into_messages s) = length (forward_repair (hs_messages (flush_all s)))"
  shows "uses_answered (into_messages s)"
proof -
  let ?r = "forward_repair (hs_messages (flush_all s))"
  have aligned: "message_uses (into_messages s ! k) = message_uses (?r ! k) \<and>
      message_results (into_messages s ! k) = filter (\<lambda>i. 0 < k \<and> i \<in> set (message_uses (?r ! (k - 1)))) (message_results (?r ! k))"
    if "k < length ?r" for k
    using reverse_repair_aligned [of ?r k] assms that by (simp add: into_messages_def)
  show ?thesis
    using uses_answered_forward_repair [of "hs_messages (flush_all s)"] aligned assms
    by (auto simp: uses_answered_def)
qed

text \<open>A model call and its result, with no other message.\<close>

definition plain_env :: "unit hydrate_env" where
  "plain_env = \<lparr>he_uuid = reference_uuid_lib, json_from_str = (\<lambda>_. Some ()), json_code = (\<lambda>_. None), json_null = ()\<rparr>"

definition call_block :: "nat \<Rightarrow> string \<Rightarrow> BlockSnapshot" where
  "call_block n i = builder_tool_use_id i (builder_role Role.Model (builder_new 0 (BlockId 1 2 n) BlockKind.ToolCall))"

definition result_block :: "nat \<Rightarrow> string \<Rightarrow> BlockSnapshot" where
  "result_block n i = builder_content ''done'' (builder_tool_use_id i
     (builder_role Role.Tool (builder_new 0 (BlockId 1 2 n) BlockKind.ToolResult)))"

definition user_block :: "nat \<Rightarrow> string \<Rightarrow> BlockSnapshot" where
  "user_block n t = builder_content t (builder_role Role.User (builder_new 0 (BlockId 1 2 n) BlockKind.Text))"

definition half_answered :: "unit HydrationState" where
  "half_answered =
     (let l = [user_block 0 ''hello'', call_block 1 ''t1'', call_block 2 ''t2'', result_block 3 ''t1'']
      in fold (\<lambda>b. translate_block plain_env b (parent_in l b)) l hydration_new)"

theorem tool_uses_answered_witness:
  "uses_answered (into_messages half_answered) \<and>
   map message_uses (into_messages half_answered) = [[], [''t1'', ''t2''], []]"
proof (rule conjI)
  have "length (into_messages half_answered) = length (forward_repair (hs_messages (flush_all half_answered)))"
    by code_simp
  then show "uses_answered (into_messages half_answered)" by (rule tool_uses_answered)
  show "map message_uses (into_messages half_answered) = [[], [''t1'', ''t2''], []]" by code_simp
qed

text \<open>
  The second repair pass reads the preceding message at the position of the first pass's output.
  After one dropped message the two lists are out of step, and the result of a later tool call is
  dropped with it: here the call \<open>t2\<close> and its own result are adjacent in the log, and the hydrated
  conversation ends with the call unanswered.
\<close>

theorem later_result_dropped:
  "map (\<lambda>m. (message_uses m, message_results m)) (hydrate_from_blocks plain_env
     [call_block 0 ''t1'', user_block 1 ''wait'', result_block 2 ''t1'', call_block 3 ''t2'', result_block 4 ''t2'']) =
   [([''t1''], []), ([], [''t1'']), ([], []), ([''t2''], [])]"
  by code_simp

text \<open>
  C31: the incremental mailbox agrees with hydration from scratch on a log that grows at its end.  By
  whatever batches, single blocks, repeated blocks and windowed re-hydrations a mailbox took in a log,
  blocks fed to a windowed mailbox with any parent included, catching up with a longer log gives the messages
  that \<open>hydrate_from_blocks\<close> computes from it.  The log keeps the blocks it had, with their snapshots and
  their order, and gets new ones at its end only; identifiers are unique; an error block stands after
  its parent, and when it is fed alone to a mailbox that is not windowed it comes with that parent
  (\<open>log_ok\<close>, \<open>mailbox_at\<close>).  A block that lands in the middle of the log, or one whose content changes
  after it was taken in, is outside the statement: the mailbox skips the blocks it has seen and does not
  translate them again.
\<close>

theorem mailbox_incremental:
  assumes "mailbox_at H xs cm" and "log_ok (xs @ ys)"
  shows "mailbox_snapshot (fst (catch_up H (xs @ ys) cm)) = hydrate_from_blocks H (xs @ ys)"
proof -
  have "caught_up H xs cm" if "\<not> cm_windowed cm"
    using mailbox_caught_up [OF assms(1) log_ok_prefix [OF assms(2)] that] .
  from catch_up_correct [OF assms(2) this]
  show ?thesis by (simp add: caught_up_def mailbox_snapshot_def hydrate_from_blocks_def hydrated_def)
qed

definition short_log :: "BlockSnapshot list" where
  "short_log = [user_block 0 ''hello'', call_block 1 ''t1'']"

theorem mailbox_incremental_witness:
  "mailbox_snapshot (fst (catch_up plain_env (short_log @ [result_block 2 ''t1''])
       (rehydrate_windowed plain_env short_log (BlockId 1 2 0) 1 (bootstrap plain_env short_log mailbox_new)))) =
     hydrate_from_blocks plain_env (short_log @ [result_block 2 ''t1'']) \<and>
   map message_results (hydrate_from_blocks plain_env (short_log @ [result_block 2 ''t1''])) = [[], [], [''t1'']]"
proof -
  have "mailbox_at plain_env short_log (bootstrap plain_env short_log mailbox_new)"
    using mailbox_at.catching [OF mailbox_at.fresh, of plain_env short_log] by (simp add: bootstrap_def)
  from mailbox_at.windowing [OF this, of "[]"]
  have at: "mailbox_at plain_env short_log
      (rehydrate_windowed plain_env short_log (BlockId 1 2 0) 1 (bootstrap plain_env short_log mailbox_new))"
    by simp
  have "log_ok (short_log @ [result_block 2 ''t1''])" by code_simp
  moreover have "map message_results (hydrate_from_blocks plain_env (short_log @ [result_block 2 ''t1''])) = [[], [], [''t1'']]"
    by code_simp
  ultimately show ?thesis using mailbox_incremental [OF at] by blast
qed

text \<open>
  The splice plan keeps whole turns: a block is kept exactly when it lies in the turn of a requested
  block of the log.  Spelled out, with \<open>n\<close> missing positions for a seam of \<open>n\<close> blocks, the plan lists
  every position from the first kept block to the last, in order, the dropped ones as missing.
\<close>

theorem plan_splice_spec:
  "kept (plan_splice blocks ks) = {i. i < length blocks \<and> (\<exists>j \<in> positions ks. j < length blocks \<and> same_turn blocks i j)} \<and>
   (plan_splice blocks ks = [] \<or>
    (\<exists>a b. a \<in> kept (plan_splice blocks ks) \<and> b \<in> kept (plan_splice blocks ks) \<and>
       spelled (plan_splice blocks ks) =
         map (\<lambda>i. if i \<in> kept (plan_splice blocks ks) then Some i else None) [a..<Suc b]))"
proof (rule conjI)
  let ?rs = "plan_runs blocks ks" and ?p = "plan_splice blocks ks"
  have k: "kept ?p = positions ?rs" by (simp add: plan_splice_runs kept_flatten)
  then show "kept ?p = {i. i < length blocks \<and> (\<exists>j \<in> positions ks. j < length blocks \<and> same_turn blocks i j)}"
    using positions_plan_runs by simp
  have can: "canonical ?rs" by (simp add: plan_runs_def)
  show "?p = [] \<or> (\<exists>a b. a \<in> kept ?p \<and> b \<in> kept ?p \<and>
      spelled ?p = map (\<lambda>i. if i \<in> kept ?p then Some i else None) [a..<Suc b])"
  proof (cases "?rs = []")
    case False
    note ends = canonical_ends [OF can False]
    have eq: "Suc (snd (last ?rs) - 1) = snd (last ?rs)" using ends(3) by simp
    have "spelled ?p = map (\<lambda>i. if i \<in> kept ?p then Some i else None) [fst (hd ?rs)..<Suc (snd (last ?rs) - 1)]"
      using spelled_plan [OF can False] unfolding k eq plan_splice_runs [symmetric] .
    then show ?thesis using ends(1,2) unfolding k by blast
  qed (simp add: plan_splice_runs)
qed

end
