(* ===== verification/Journal_Replay.thy ===== *)
theory Journal_Replay
  imports Store_Sync
begin

text \<open>
  Replaying the journal.  The kernel journals, for every change, the payload of what changed since the
  frontier before it, and rebuilds a document by merging the payloads into an empty store.  The
  reconstruction has the blocks, the order, the text, the headers and the tombstones of the document.
\<close>

section \<open>Text documents and their replicas\<close>

text \<open>Local edits of a document, within its text.\<close>

inductive edited :: "('d, 'o, 'f) dte \<Rightarrow> 'd \<Rightarrow> 'd \<Rightarrow> bool" for D where
  same: "edited D d d"
| ins: "edited D d d' \<Longrightarrow> get_text D d' = Some u \<Longrightarrow> pos \<le> char_count u \<Longrightarrow> edited D d (text_insert D d' a pos t)"
| del: "edited D d d' \<Longrightarrow> get_text D d' = Some u \<Longrightarrow> pos + n \<le> char_count u \<Longrightarrow> edited D d (text_delete D d' a pos n)"

text \<open>
  What is expected of the document library: a replica of a document that receives the operations made
  since the replicated version is a replica of the current document; so is a fresh document that
  receives all of them; replicas have the same text; a document that has a text has operations.
\<close>

definition replica_ok :: "('d, 'o, 'f) dte \<Rightarrow> ('d \<Rightarrow> 'd \<Rightarrow> bool) \<Rightarrow> bool" where
  "replica_ok D rep \<longleftrightarrow>
     (\<forall>d c. rep d c \<longrightarrow> get_text D c = get_text D d)
     \<and> (\<forall>d u. get_text D d \<noteq> None \<longrightarrow> \<not> ops_is_empty D (ops_since_owned D d (frontier_root D))
          \<and> (case doc_merge_ops D (fst (create_agent D (document_new D) u)) (ops_since_owned D d (frontier_root D))
               of (c, r) \<Rightarrow> r = Merged \<and> rep d c))
     \<and> (\<forall>d d' c. rep d c \<and> edited D d d' \<longrightarrow>
          (if ops_is_empty D (ops_since_owned D d' (doc_version D d)) then rep d' c
           else case doc_merge_ops D c (ops_since_owned D d' (doc_version D d))
                  of (c', r) \<Rightarrow> r = Merged \<and> rep d' c'))"

lemma replica_okD:
  assumes "replica_ok D rep"
  shows "rep d c \<Longrightarrow> get_text D c = get_text D d"
    and "get_text D d \<noteq> None \<Longrightarrow> \<not> ops_is_empty D (ops_since_owned D d (frontier_root D))"
    and "get_text D d \<noteq> None \<Longrightarrow>
      \<exists>c. doc_merge_ops D (fst (create_agent D (document_new D) u)) (ops_since_owned D d (frontier_root D)) = (c, Merged) \<and> rep d c"
    and "rep d c \<Longrightarrow> edited D d d' \<Longrightarrow> ops_is_empty D (ops_since_owned D d' (doc_version D d)) \<Longrightarrow> rep d' c"
    and "rep d c \<Longrightarrow> edited D d d' \<Longrightarrow> \<not> ops_is_empty D (ops_since_owned D d' (doc_version D d)) \<Longrightarrow>
      \<exists>c'. doc_merge_ops D c (ops_since_owned D d' (doc_version D d)) = (c', Merged) \<and> rep d' c'"
proof -
  have agree: "\<forall>d c. rep d c \<longrightarrow> get_text D c = get_text D d"
    and fresh: "\<forall>d u. get_text D d \<noteq> None \<longrightarrow> \<not> ops_is_empty D (ops_since_owned D d (frontier_root D))
          \<and> (case doc_merge_ops D (fst (create_agent D (document_new D) u)) (ops_since_owned D d (frontier_root D))
               of (c, r) \<Rightarrow> r = Merged \<and> rep d c)"
    and later: "\<forall>d d' c. rep d c \<and> edited D d d' \<longrightarrow>
          (if ops_is_empty D (ops_since_owned D d' (doc_version D d)) then rep d' c
           else case doc_merge_ops D c (ops_since_owned D d' (doc_version D d))
                  of (c', r) \<Rightarrow> r = Merged \<and> rep d' c')"
    using assms unfolding replica_ok_def by - (elim conjE, assumption)+
  show "rep d c \<Longrightarrow> get_text D c = get_text D d" using agree by blast
  show "get_text D d \<noteq> None \<Longrightarrow> \<not> ops_is_empty D (ops_since_owned D d (frontier_root D))" using fresh by blast
  show "get_text D d \<noteq> None \<Longrightarrow>
      \<exists>c. doc_merge_ops D (fst (create_agent D (document_new D) u)) (ops_since_owned D d (frontier_root D)) = (c, Merged) \<and> rep d c"
    using fresh [rule_format, of d u] by (auto split: prod.splits)
  show "rep d c \<Longrightarrow> edited D d d' \<Longrightarrow> ops_is_empty D (ops_since_owned D d' (doc_version D d)) \<Longrightarrow> rep d' c"
    using later [rule_format, of d c d'] by simp
  show "rep d c \<Longrightarrow> edited D d d' \<Longrightarrow> \<not> ops_is_empty D (ops_since_owned D d' (doc_version D d)) \<Longrightarrow>
      \<exists>c'. doc_merge_ops D c (ops_since_owned D d' (doc_version D d)) = (c', Merged) \<and> rep d' c'"
    using later [rule_format, of d c d'] by (auto split: prod.splits)
qed

section \<open>Twins\<close>

text \<open>A block and its reconstruction: equal but for the document, which is a replica.\<close>

definition twin :: "('d \<Rightarrow> 'd \<Rightarrow> bool) \<Rightarrow> 'd BlockContent \<Rightarrow> 'd BlockContent \<Rightarrow> bool" where
  "twin rep b c \<longleftrightarrow> c = b\<lparr>bc_doc := bc_doc c, bc_agent := bc_agent c\<rparr> \<and> rep (bc_doc b) (bc_doc c)"

definition mirrored :: "('d \<Rightarrow> 'd \<Rightarrow> bool) \<Rightarrow> 'd BlockStore \<Rightarrow> 'd BlockStore \<Rightarrow> bool" where
  "mirrored rep s r \<longleftrightarrow> bt_ok (st_blocks r) \<and>
     (\<forall>i. case bt_get (st_blocks s) i of
            None \<Rightarrow> bt_get (st_blocks r) i = None
          | Some b \<Rightarrow> (\<exists>c. bt_get (st_blocks r) i = Some c \<and> bc_deleted c = bc_deleted b \<and> (\<not> bc_deleted b \<longrightarrow> twin rep b c)))"

lemma twin_snapshot: "replica_ok D rep \<Longrightarrow> twin rep b c \<Longrightarrow> content_snapshot D c = content_snapshot D b"
  unfolding twin_def
proof (elim conjE)
  assume R: "replica_ok D rep" and c: "c = b\<lparr>bc_doc := bc_doc c, bc_agent := bc_agent c\<rparr>" and d: "rep (bc_doc b) (bc_doc c)"
  have "get_text D (bc_doc c) = get_text D (bc_doc b)" using replica_okD(1) [OF R d] .
  then have "content_snapshot D (b\<lparr>bc_doc := bc_doc c, bc_agent := bc_agent c\<rparr>) = content_snapshot D b"
    by (simp add: content_snapshot_def content_text_def)
  then show "content_snapshot D c = content_snapshot D b" using c by simp
qed

lemma mirrored_view:
  assumes "replica_ok D rep" and "mirrored rep s r"
  shows "get_block_snapshot D r i = get_block_snapshot D s i"
  using assms(2) [unfolded mirrored_def, THEN conjunct2, rule_format, of i] twin_snapshot [OF assms(1)]
  by (auto simp: get_block_snapshot_def split: option.splits)

lemma merge_fields_doc:
  "merge_status h (b\<lparr>bc_doc := d, bc_agent := a\<rparr>) = (merge_status h b)\<lparr>bc_doc := d, bc_agent := a\<rparr>"
  "merge_collapsed h (b\<lparr>bc_doc := d, bc_agent := a\<rparr>) = (merge_collapsed h b)\<lparr>bc_doc := d, bc_agent := a\<rparr>"
  "merge_ephemeral h (b\<lparr>bc_doc := d, bc_agent := a\<rparr>) = (merge_ephemeral h b)\<lparr>bc_doc := d, bc_agent := a\<rparr>"
  "merge_excluded h (b\<lparr>bc_doc := d, bc_agent := a\<rparr>) = (merge_excluded h b)\<lparr>bc_doc := d, bc_agent := a\<rparr>"
  "merge_compacted h (b\<lparr>bc_doc := d, bc_agent := a\<rparr>) = (merge_compacted h b)\<lparr>bc_doc := d, bc_agent := a\<rparr>"
  "merge_tool_meta h (b\<lparr>bc_doc := d, bc_agent := a\<rparr>) = (merge_tool_meta h b)\<lparr>bc_doc := d, bc_agent := a\<rparr>"
  "merge_content_type h (b\<lparr>bc_doc := d, bc_agent := a\<rparr>) = (merge_content_type h b)\<lparr>bc_doc := d, bc_agent := a\<rparr>"
  by (simp_all add: merge_status_def merge_collapsed_def merge_ephemeral_def merge_excluded_def
      merge_compacted_def merge_tool_meta_def merge_content_type_def)

lemma merge_header_doc:
  "merge_header h (b\<lparr>bc_doc := d, bc_agent := a\<rparr>) = (merge_header h b)\<lparr>bc_doc := d, bc_agent := a\<rparr>"
  by (simp add: merge_header_def Let_def merge_fields_doc)

lemma merge_fields_deleted:
  "bc_deleted (merge_status h b) = bc_deleted b" "bc_deleted (merge_collapsed h b) = bc_deleted b"
  "bc_deleted (merge_ephemeral h b) = bc_deleted b" "bc_deleted (merge_excluded h b) = bc_deleted b"
  "bc_deleted (merge_compacted h b) = bc_deleted b" "bc_deleted (merge_tool_meta h b) = bc_deleted b"
  "bc_deleted (merge_content_type h b) = bc_deleted b"
  by (simp_all add: merge_status_def merge_collapsed_def merge_ephemeral_def merge_excluded_def
      merge_compacted_def merge_tool_meta_def merge_content_type_def)

lemma merge_header_deleted [simp]: "bc_deleted (merge_header h b) = bc_deleted b"
  by (simp add: merge_header_def Let_def merge_fields_deleted)

section \<open>The payload of a change\<close>

abbreviation known :: "'d BlockStore \<Rightarrow> BlockId \<Rightarrow> bool" where
  "known s i \<equiv> bt_get (st_blocks s) i \<noteq> None"

definition known_ops :: "('d, 'o, 'f) dte \<Rightarrow> 'd BlockStore \<Rightarrow> BlockId \<Rightarrow> 'd BlockContent \<Rightarrow> 'o" where
  "known_ops D s i b =
     (case bt_get (st_blocks s) i of
        Some b0 \<Rightarrow> ops_since_owned D (bc_doc b) (doc_version D (bc_doc b0))
      | None \<Rightarrow> root_ops D b)"

lemma payload_fold:
  "fold (ops_for_block D (store_frontier D s)) es p =
     \<lparr>sp_block_ops = sp_block_ops p
        @ map (\<lambda>(i, b). (i, known_ops D s i b)) (filter (\<lambda>(i, b). \<not> bc_deleted b \<and> \<not> ops_is_empty D (known_ops D s i b)) es),
      sp_new_blocks = sp_new_blocks p @ map (\<lambda>(i, b). content_snapshot D b) (filter (\<lambda>(i, b). \<not> bc_deleted b \<and> \<not> known s i) es),
      sp_updated_headers = sp_updated_headers p @ map (\<lambda>(i, b). bc_header b) (filter (\<lambda>(i, b). \<not> bc_deleted b \<and> known s i) es),
      sp_deleted_blocks = sp_deleted_blocks p @ map fst (filter (\<lambda>(i, b). bc_deleted b \<and> known s i) es)\<rparr>"
  by (induction es arbitrary: p)
    (auto simp: ops_for_block_def Let_def store_frontier_def known_ops_def root_ops_def content_ops_since_def
      content_frontier_def split: option.splits)

lemma payload_parts:
  "sp_block_ops (store_ops_since D (store_frontier D s) s') = map (\<lambda>(i, b). (i, known_ops D s i b))
      (filter (\<lambda>(i, b). \<not> bc_deleted b \<and> \<not> ops_is_empty D (known_ops D s i b)) (st_blocks s'))"
  "sp_new_blocks (store_ops_since D (store_frontier D s) s') = map (\<lambda>(i, b). content_snapshot D b) (filter (\<lambda>(i, b). \<not> bc_deleted b \<and> \<not> known s i) (st_blocks s'))"
  "sp_updated_headers (store_ops_since D (store_frontier D s) s') = map (\<lambda>(i, b). bc_header b) (filter (\<lambda>(i, b). \<not> bc_deleted b \<and> known s i) (st_blocks s'))"
  "sp_deleted_blocks (store_ops_since D (store_frontier D s) s') = map fst (filter (\<lambda>(i, b). bc_deleted b \<and> known s i) (st_blocks s'))"
  unfolding store_ops_since_def payload_fold by simp_all

section \<open>Merging headers and tombstones\<close>

lemma merge_headers_get:
  assumes "distinct (map bh_id hs)" and "fold merge_remote_header hs (s, m) = (s', m')"
  shows "bt_get (st_blocks s') i =
      (case map_of (map (\<lambda>h. (bh_id h, h)) hs) i of
         Some h \<Rightarrow> map_option (merge_header h) (bt_get (st_blocks s) i)
       | None \<Rightarrow> bt_get (st_blocks s) i)"
    and "bt_ok (st_blocks s) \<Longrightarrow> bt_ok (st_blocks s')"
proof -
  have "bt_get (st_blocks s') i = (case map_of (map (\<lambda>h. (bh_id h, h)) hs) i of
         Some h \<Rightarrow> map_option (merge_header h) (bt_get (st_blocks s) i) | None \<Rightarrow> bt_get (st_blocks s) i)
    \<and> (bt_ok (st_blocks s) \<longrightarrow> bt_ok (st_blocks s'))"
    using assms
  proof (induction hs arbitrary: s m)
    case (Cons h hs)
    let ?s1 = "s\<lparr>st_blocks := bt_modify (bh_id h) (merge_header h) (st_blocks s)\<rparr>"
    have "fold merge_remote_header hs (?s1, max m (bh_updated_at h)) = (s', m')"
      using Cons.prems(2) by (simp add: merge_remote_header_def [of h])
    note IH = Cons.IH [OF _ this]
    have "map_of (map (\<lambda>h. (bh_id h, h)) hs) (bh_id h) = None"
      using Cons.prems(1) by (auto simp: map_of_eq_None_iff)
    then show ?case using IH Cons.prems(1) by (auto simp: bt_get_modify bt_ok_modify split: option.splits)
  qed simp
  then show "bt_get (st_blocks s') i = (case map_of (map (\<lambda>h. (bh_id h, h)) hs) i of
         Some h \<Rightarrow> map_option (merge_header h) (bt_get (st_blocks s) i) | None \<Rightarrow> bt_get (st_blocks s) i)"
    "bt_ok (st_blocks s) \<Longrightarrow> bt_ok (st_blocks s')" by blast+
qed

lemma apply_tombstone_get:
  "bt_get (st_blocks (apply_tombstone i s)) j =
     (if j = i \<and> is_live s i then map_option (mark_deleted (st_lamport_clock s + 1)) (bt_get (st_blocks s) j)
      else bt_get (st_blocks s) j)"
  "bt_ok (st_blocks s) \<Longrightarrow> bt_ok (st_blocks (apply_tombstone i s))"
  by (auto simp: apply_tombstone_def clock_tick_def is_live_def bt_get_modify bt_ok_modify Let_def split: option.splits)

lemma mark_deleted_deleted [simp]: "bc_deleted (mark_deleted ts b)"
  by (simp add: mark_deleted_def)

lemma tombstones_get:
  "(i \<notin> set is \<longrightarrow> bt_get (st_blocks (fold apply_tombstone is s)) i = bt_get (st_blocks s) i)
   \<and> (i \<in> set is \<longrightarrow> (case bt_get (st_blocks s) i of
        None \<Rightarrow> bt_get (st_blocks (fold apply_tombstone is s)) i = None
      | Some b \<Rightarrow> (\<exists>c. bt_get (st_blocks (fold apply_tombstone is s)) i = Some c \<and> bc_deleted c)))
   \<and> (bt_ok (st_blocks s) \<longrightarrow> bt_ok (st_blocks (fold apply_tombstone is s)))"
proof (induction "is" arbitrary: s)
  case (Cons j "is")
  note IH = Cons.IH [of "apply_tombstone j s"]
  have dead: "\<exists>c. bt_get (st_blocks (fold apply_tombstone is s)) i = Some c \<and> bc_deleted c"
    if "bt_get (st_blocks s) i = Some b" "bc_deleted b" for s :: "'a BlockStore" and b
    using that
  proof (induction "is" arbitrary: s)
    case (Cons k "is")
    then show ?case by (simp, intro Cons.IH) (auto simp: apply_tombstone_get is_live_def split: option.splits)
  qed simp
  show ?case
  proof (cases "i = j")
    case True
    show ?thesis
    proof (cases "bt_get (st_blocks s) j")
      case None
      then show ?thesis using IH True by (auto simp: apply_tombstone_get is_live_def split: option.splits)
    next
      case (Some b)
      have "\<exists>c. bt_get (st_blocks (apply_tombstone j s)) j = Some c \<and> bc_deleted c"
        using Some by (auto simp: apply_tombstone_get is_live_def)
      then show ?thesis using IH dead True Some by (auto simp: apply_tombstone_get(2))
    qed
  next
    case False
    then show ?thesis using IH by (auto simp: apply_tombstone_get split: option.splits)
  qed
qed simp

section \<open>Replaying one payload\<close>

text \<open>
  A change that the payload carries: a known block that is still live has been edited and its header
  is what merging the new header gives; a new block is live and has a text.
\<close>

definition stepped :: "('d, 'o, 'f) dte \<Rightarrow> 'd BlockContent \<Rightarrow> 'd BlockContent \<Rightarrow> bool" where
  "stepped D b b' \<longleftrightarrow> edited D (bc_doc b) (bc_doc b') \<and> b' = (merge_header (bc_header b') b)\<lparr>bc_doc := bc_doc b'\<rparr>"

definition carried :: "('d, 'o, 'f) dte \<Rightarrow> 'd BlockStore \<Rightarrow> 'd BlockStore \<Rightarrow> bool" where
  "carried D s s' \<longleftrightarrow>
     (\<forall>i b. bt_get (st_blocks s) i = Some b \<longrightarrow>
        (\<exists>b'. bt_get (st_blocks s') i = Some b' \<and> (bc_deleted b' \<or> \<not> bc_deleted b \<and> stepped D b b')))
     \<and> (\<forall>i b'. bt_get (st_blocks s) i = None \<longrightarrow> bt_get (st_blocks s') i = Some b' \<longrightarrow>
          \<not> bc_deleted b' \<and> get_text D (bc_doc b') \<noteq> None)"

lemma carriedD:
  assumes "carried D s s'"
  shows "bt_get (st_blocks s) i = Some b \<Longrightarrow>
      \<exists>b'. bt_get (st_blocks s') i = Some b' \<and> (bc_deleted b' \<or> \<not> bc_deleted b \<and> stepped D b b')"
    and "bt_get (st_blocks s) i = None \<Longrightarrow> bt_get (st_blocks s') i = Some b' \<Longrightarrow>
      \<not> bc_deleted b' \<and> get_text D (bc_doc b') \<noteq> None"
  using assms unfolding carried_def by blast+

lemma for_sync_shape:
  assumes "mirrors_ok b" and "\<not> bc_deleted b"
  shows "content_from_snapshot_for_sync D (content_snapshot D b) p [] =
    b\<lparr>bc_doc := fst (fresh_document D p), bc_agent := snd (fresh_document D p)\<rparr>"
proof -
  have "header_from_snapshot (content_snapshot D b) = bc_header b"
    using assms(1) by (simp add: header_from_snapshot_def content_snapshot_def mirrors_ok_def Let_def)
  then show ?thesis using assms(2)
    by (simp add: content_from_snapshot_for_sync_def Let_def case_prod_unfold) (simp add: content_snapshot_def Let_def)
qed

lemma new_twin:
  assumes R: "replica_ok D rep" and b: "mirrors_ok b" "\<not> bc_deleted b" "get_text D (bc_doc b) \<noteq> None"
  shows "\<exists>c. content_merge_ops D (root_ops D b) (content_from_snapshot_for_sync D (content_snapshot D b) p []) = (c, Inr ())
     \<and> twin rep b c \<and> \<not> bc_deleted c"
proof -
  obtain d where "doc_merge_ops D (fst (fresh_document D p)) (root_ops D b) = (d, Merged)" "rep (bc_doc b) d"
    using replica_okD(3) [OF R b(3), of p] by (auto simp: fresh_document_def root_ops_def)
  then show ?thesis using b(2)
    by (simp add: for_sync_shape [OF b(1,2)] content_merge_ops_def twin_def)
qed

lemma known_twin:
  assumes R: "replica_ok D rep" and t: "twin rep b c" and st: "stepped D b b'" and live: "\<not> bc_deleted b"
  defines "ops \<equiv> ops_since_owned D (bc_doc b') (doc_version D (bc_doc b))" and "c1 \<equiv> merge_header (bc_header b') c"
  shows "ops_is_empty D ops \<Longrightarrow> twin rep b' c1"
    and "\<not> ops_is_empty D ops \<Longrightarrow> \<exists>c2. content_merge_ops D ops c1 = (c2, Inr ()) \<and> twin rep b' c2"
proof -
  have c: "c = b\<lparr>bc_doc := bc_doc c, bc_agent := bc_agent c\<rparr>" and rep: "rep (bc_doc b) (bc_doc c)"
    using t by (auto simp: twin_def)
  have b': "b' = (merge_header (bc_header b') b)\<lparr>bc_doc := bc_doc b'\<rparr>" and ed: "edited D (bc_doc b) (bc_doc b')"
    using st by (auto simp: stepped_def)
  have "c1 = merge_header (bc_header b') (b\<lparr>bc_doc := bc_doc c, bc_agent := bc_agent c\<rparr>)"
    unfolding c1_def by (rule arg_cong [OF c])
  also have "\<dots> = (merge_header (bc_header b') b)\<lparr>bc_doc := bc_doc c, bc_agent := bc_agent c\<rparr>"
    by (rule merge_header_doc)
  also have "\<dots> = b'\<lparr>bc_doc := bc_doc c, bc_agent := bc_agent c\<rparr>"
    using arg_cong [OF b', of "\<lambda>z. z\<lparr>bc_doc := bc_doc c, bc_agent := bc_agent c\<rparr>"] by simp
  finally have c1: "c1 = b'\<lparr>bc_doc := bc_doc c, bc_agent := bc_agent c\<rparr>" .
  show "ops_is_empty D ops \<Longrightarrow> twin rep b' c1"
    using replica_okD(4) [OF R rep ed] by (simp add: ops_def twin_def c1)
  show "\<not> ops_is_empty D ops \<Longrightarrow> \<exists>c2. content_merge_ops D ops c1 = (c2, Inr ()) \<and> twin rep b' c2"
    using replica_okD(5) [OF R rep ed] by (auto simp: ops_def twin_def c1 content_merge_ops_def)
qed

lemma map_of_entries_filter:
  assumes "bt_ok m"
  shows "map_of (map (\<lambda>(i, b). (i, g i b)) (filter (\<lambda>(i, b). P i b) m)) i =
     (case bt_get m i of Some b \<Rightarrow> if P i b then Some (g i b) else None | None \<Rightarrow> None)"
  unfolding bt_get_def using bt.entries_distinct [OF assms]
proof (induction m)
  case (Cons e m)
  then have "map_of m (fst e) = None" by (simp add: map_of_eq_None_iff)
  with Cons show ?case by (cases e) (auto split: option.splits)
qed simp

lemma distinct_entries_filter: "bt_ok m \<Longrightarrow> distinct (map fst (filter P m))"
  using bt.entries_distinct [of m] by (simp add: distinct_map_filter)

lemma merge_pipeline:
  assumes "fold (merge_new_block D (fst ` set (sp_block_ops p))) (sp_new_blocks p) (s, 0, None) = (s1, m1, h1)"
    and "s2 = (case h1 of Some t \<Rightarrow> s1\<lparr>st_next_tick := max (st_next_tick s1) (t + 1)\<rparr> | None \<Rightarrow> s1)"
    and "fold merge_remote_header (sp_updated_headers p) (s2, m1) = (s3, m3)"
    and "merge_block_ops D (sp_block_ops p) s3 False = (s4, had, None)"
  shows "\<exists>r. store_merge_ops D p s = (r, Inr ()) \<and> st_blocks r = st_blocks (fold apply_tombstone (sp_deleted_blocks p) s4)"
  using assms(1,3,4) by (simp add: store_merge_ops_def Let_def flip: assms(2)) (simp add: merge_clock_def)

lemma replay_step:
  assumes R: "replica_ok D rep" and ok: "store_ok s" "store_ok s'" and m: "mirrored rep s r" and c: "carried D s s'"
  shows "\<exists>r'. store_merge_ops D (store_ops_since D (store_frontier D s) s') r = (r', Inr ()) \<and> mirrored rep s' r'"
proof -
  let ?new = "filter (\<lambda>(i, b). \<not> bc_deleted b \<and> \<not> known s i) (st_blocks s')"
  define p where "p = store_ops_since D (store_frontier D s) s'"
  note parts = payload_parts [of D s s', folded p_def]
  let ?H = "fst ` set (sp_block_ops p)"
  have bt': "bt_ok (st_blocks s')" and btr: "bt_ok (st_blocks r)"
    using ok m by (auto simp: store_ok_def mirrored_def)
  have id: "bh_id (bc_header b) = i \<and> mirrors_ok b" if "bt_get (st_blocks s') i = Some b" for i b
    using ok(2) that by (auto simp: store_ok_def entry_ok_def)
  have mem: "(i, b) \<in> set (st_blocks s') \<longleftrightarrow> bt_get (st_blocks s') i = Some b" for i b
    using bt.get_in_entries [OF bt'] by auto
  have at: "case bt_get (st_blocks s) i of
            None \<Rightarrow> bt_get (st_blocks r) i = None
          | Some b \<Rightarrow> (\<exists>c. bt_get (st_blocks r) i = Some c \<and> bc_deleted c = bc_deleted b \<and> (\<not> bc_deleted b \<longrightarrow> twin rep b c))" for i
    using m unfolding mirrored_def by blast
  text \<open>New blocks.\<close>
  obtain s1 m1 h1 where 1: "fold (merge_new_block D ?H) (sp_new_blocks p) (r, 0, None) = (s1, m1, h1)"
    by (metis prod_cases3)
  have "distinct (map fst ?new)" by (rule distinct_entries_filter [OF bt'])
  from merge_new_blocks_get [OF this _ 1 [unfolded parts(2)]]
  have get1: "bt_get (st_blocks s1) i = (case map_of ?new i of
        Some b \<Rightarrow> Some (rebuilt D ?H (st_principal_id r) b) | None \<Rightarrow> bt_get (st_blocks r) i)" for i
    using id at by (fastforce simp: mem split: option.splits)
  have ok1: "bt_ok (st_blocks s1)"
    using merge_new_blocks_ok [OF btr, of D ?H "sp_new_blocks p" 0 None] 1 by simp
  define s2 where "s2 = (case h1 of Some t \<Rightarrow> s1\<lparr>st_next_tick := max (st_next_tick s1) (t + 1)\<rparr> | None \<Rightarrow> s1)"
  have s2: "st_blocks s2 = st_blocks s1" by (simp add: s2_def split: option.split)
  text \<open>Headers.\<close>
  obtain s3 m3 where 3: "fold merge_remote_header (sp_updated_headers p) (s2, m1) = (s3, m3)" by force
  have hs: "map (\<lambda>h. (bh_id h, h)) (sp_updated_headers p) =
      map (\<lambda>(i, b). (i, bc_header b)) (filter (\<lambda>(i, b). \<not> bc_deleted b \<and> known s i) (st_blocks s'))"
    unfolding parts(3) using id by (auto simp: mem case_prod_unfold)
  have "map bh_id (sp_updated_headers p) = map fst (map (\<lambda>h. (bh_id h, h)) (sp_updated_headers p))" by simp
  also have "\<dots> = map fst (filter (\<lambda>(i, b). \<not> bc_deleted b \<and> known s i) (st_blocks s'))"
    unfolding hs by (simp add: case_prod_unfold)
  finally have "distinct (map bh_id (sp_updated_headers p))" using distinct_entries_filter [OF bt'] by simp
  note hdr = merge_headers_get [OF this 3]
  have get3: "bt_get (st_blocks s3) i = (case bt_get (st_blocks s') i of
        Some b \<Rightarrow> if \<not> bc_deleted b \<and> known s i then map_option (merge_header (bc_header b)) (bt_get (st_blocks s1) i)
                  else bt_get (st_blocks s1) i
      | None \<Rightarrow> bt_get (st_blocks s1) i)" for i
    unfolding hdr(1) hs map_of_entries_filter [OF bt', of "\<lambda>i b. bc_header b" "\<lambda>i b. \<not> bc_deleted b \<and> known s i"] s2
    by (simp split: option.split)
  have ok3: "bt_ok (st_blocks s3)" using hdr(2) ok1 s2 by simp
  have new_of: "map_of ?new i = (case bt_get (st_blocks s') i of
        Some b \<Rightarrow> if \<not> bc_deleted b \<and> \<not> known s i then Some b else None | None \<Rightarrow> None)" for i
    using map_of_entries_filter [OF bt', of "\<lambda>i b. b" "\<lambda>i b. \<not> bc_deleted b \<and> \<not> known s i" i] by simp
  have got: "bt_get (st_blocks s1) i = (case bt_get (st_blocks s') i of
        Some b \<Rightarrow> if \<not> bc_deleted b \<and> \<not> known s i then Some (rebuilt D ?H (st_principal_id r) b) else bt_get (st_blocks r) i
      | None \<Rightarrow> bt_get (st_blocks r) i)" for i
    unfolding get1 new_of by (auto split: option.split)
  text \<open>What a live block becomes.\<close>
  have live: "\<exists>c c2. bt_get (st_blocks s3) i = Some c \<and> twin rep b c2 \<and>
      (if ops_is_empty D (known_ops D s i b) then c2 = c else content_merge_ops D (known_ops D s i b) c = (c2, Inr ()))"
    if b: "bt_get (st_blocks s') i = Some b" "\<not> bc_deleted b" for i b
  proof (cases "bt_get (st_blocks s) i")
    case None
    then have tx: "get_text D (bc_doc b) \<noteq> None" and ops: "known_ops D s i b = root_ops D b"
      using carriedD(2) [OF c None b(1)] by (auto simp: known_ops_def)
    have ne: "\<not> ops_is_empty D (root_ops D b)" using replica_okD(2) [OF R tx] by (simp add: root_ops_def)
    have "i \<in> ?H" unfolding parts(1) using b ne ops by (force simp: mem)
    then have "bt_get (st_blocks s3) i = Some (content_from_snapshot_for_sync D (content_snapshot D b) (st_principal_id r) [])"
      using None b id [OF b(1)] by (simp add: get3 got rebuilt_def)
    with new_twin [OF R _ b(2) tx, of "st_principal_id r"] id [OF b(1)] ne ops show ?thesis by auto
  next
    case (Some b0)
    then have st: "\<not> bc_deleted b0" "stepped D b0 b" using carriedD(1) [OF c Some] b by auto
    obtain c0 where c0: "bt_get (st_blocks r) i = Some c0" "twin rep b0 c0" using at [of i] Some st(1) by auto
    have "bt_get (st_blocks s3) i = Some (merge_header (bc_header b) c0)"
      using Some b c0 by (simp add: get3 got)
    moreover have "known_ops D s i b = ops_since_owned D (bc_doc b) (doc_version D (bc_doc b0))"
      using Some by (simp add: known_ops_def)
    ultimately show ?thesis using known_twin [OF R c0(2) st(2,1)] by auto
  qed
  text \<open>Text operations.\<close>
  have dops: "distinct (map fst (sp_block_ops p))"
    unfolding parts(1) using distinct_entries_filter [OF bt'] by (simp add: case_prod_unfold o_def)
  have "\<forall>(i, u) \<in> set (sp_block_ops p). \<exists>c. bt_get (st_blocks s3) i = Some c \<and> snd (content_merge_ops D u c) = Inr ()"
    unfolding parts(1) using live by (fastforce simp: mem split: if_splits)
  from merge_block_ops_get [OF dops this, of False]
  obtain s4 had where 4: "merge_block_ops D (sp_block_ops p) s3 False = (s4, had, None)" "bt_ok (st_blocks s4)"
    "\<And>i. bt_get (st_blocks s4) i = (case map_of (sp_block_ops p) i of
            Some u \<Rightarrow> map_option (\<lambda>c. fst (content_merge_ops D u c)) (bt_get (st_blocks s3) i)
          | None \<Rightarrow> bt_get (st_blocks s3) i)"
    using ok3 by blast
  have ops_of: "map_of (sp_block_ops p) i = (case bt_get (st_blocks s') i of
        Some b \<Rightarrow> if \<not> bc_deleted b \<and> \<not> ops_is_empty D (known_ops D s i b) then Some (known_ops D s i b) else None
      | None \<Rightarrow> None)" for i
    unfolding parts(1)
    by (rule map_of_entries_filter [OF bt', of "known_ops D s" "\<lambda>i b. \<not> bc_deleted b \<and> \<not> ops_is_empty D (known_ops D s i b)"])
  obtain r' where r': "store_merge_ops D p r = (r', Inr ())"
      "st_blocks r' = st_blocks (fold apply_tombstone (sp_deleted_blocks p) s4)"
    using merge_pipeline [OF 1 s2_def 3 4(1)] by blast
  have "mirrored rep s' r'" unfolding mirrored_def r'(2)
  proof (intro conjI allI)
    show "bt_ok (st_blocks (fold apply_tombstone (sp_deleted_blocks p) s4))" using tombstones_get 4(2) by blast
    fix i
    have dead: "i \<in> set (sp_deleted_blocks p) \<longleftrightarrow> (\<exists>b. bt_get (st_blocks s') i = Some b \<and> bc_deleted b \<and> known s i)"
      unfolding parts(4) by (force simp: mem)
    note fin = tombstones_get [of i "sp_deleted_blocks p" s4]
    show "case bt_get (st_blocks s') i of
        None \<Rightarrow> bt_get (st_blocks (fold apply_tombstone (sp_deleted_blocks p) s4)) i = None
      | Some b \<Rightarrow> \<exists>c. bt_get (st_blocks (fold apply_tombstone (sp_deleted_blocks p) s4)) i = Some c
          \<and> bc_deleted c = bc_deleted b \<and> (\<not> bc_deleted b \<longrightarrow> twin rep b c)"
    proof (cases "bt_get (st_blocks s') i")
      case None
      then have "bt_get (st_blocks s) i = None" using carriedD(1) [OF c, of i] by (metis not_None_eq option.distinct(1))
      then have "bt_get (st_blocks s4) i = None" using None at [of i] by (simp add: 4(3) ops_of get3 got)
      then show ?thesis using None fin dead by auto
    next
      case (Some b)
      show ?thesis
      proof (cases "bc_deleted b")
        case True
        then obtain b0 where b0: "bt_get (st_blocks s) i = Some b0" using carriedD(2) [OF c _ Some] by fastforce
        then obtain c0 where "bt_get (st_blocks r) i = Some c0" using at [of i] by auto
        then have "bt_get (st_blocks s4) i = Some c0" using Some True by (simp add: 4(3) ops_of get3 got)
        then show ?thesis using fin dead Some True b0 by auto
      next
        case False
        obtain c1 c2 where c2: "bt_get (st_blocks s3) i = Some c1" "twin rep b c2"
          "if ops_is_empty D (known_ops D s i b) then c2 = c1 else content_merge_ops D (known_ops D s i b) c1 = (c2, Inr ())"
          using live [OF Some False] by blast
        then have "bt_get (st_blocks s4) i = Some c2"
          using Some False by (auto simp: 4(3) ops_of split: if_splits)
        moreover have "bc_deleted c2 = bc_deleted b"
          using c2(2) unfolding twin_def by (metis BlockContent.ext_inject BlockContent.surjective BlockContent.update_convs(2,3))
        ultimately show ?thesis using fin dead Some False c2(2) by auto
      qed
    qed
  qed
  then show ?thesis using r'(1) p_def by blast
qed

end
