(* ===== verification/Journal_Ops.thy ===== *)
theory Journal_Ops
  imports Journal_Replay
begin

text \<open>
  The operations whose effect the journal carries, and the replay of a whole journal.  Carried are the
  insertions (a new block travels whole), text edits, deletions and the writes of replicated header
  fields.  The writes of the order key, the output, the error stream, the signature and the tool-use
  id of a known block leave no trace in the payload.
\<close>

section \<open>Header writes win\<close>

text \<open>The clock is at or above every timestamp of a live block, and the aggregate is up to date.\<close>

definition fresh_header :: "u64 \<Rightarrow> BlockHeader \<Rightarrow> bool" where
  "fresh_header t h \<longleftrightarrow> bh_updated_at h = max_field_ts h \<and> max_field_ts h \<le> t"

definition clocked :: "'d BlockStore \<Rightarrow> bool" where
  "clocked s \<longleftrightarrow> (\<forall>i b. bt_get (st_blocks s) i = Some b \<longrightarrow> \<not> bc_deleted b \<longrightarrow> fresh_header (st_lamport_clock s) (bc_header b))"

lemma clockedD: "clocked s \<Longrightarrow> bt_get (st_blocks s) i = Some b \<Longrightarrow> \<not> bc_deleted b \<Longrightarrow> fresh_header (st_lamport_clock s) (bc_header b)"
  by (auto simp: clocked_def)

lemma fresh_header_mono: "fresh_header t h \<Longrightarrow> t \<le> t' \<Longrightarrow> fresh_header t' h"
  by (auto simp: fresh_header_def)

lemmas merge_defs = merge_header_def merge_status_def merge_collapsed_def merge_ephemeral_def merge_excluded_def
  merge_compacted_def merge_tool_meta_def merge_content_type_def

lemma merge_own_header: "fresh_header t (bc_header b) \<Longrightarrow> merge_header (bc_header b) b = b"
  by (simp add: fresh_header_def merge_defs Let_def field_wins_def)

lemma stepped_refl: "fresh_header t (bc_header b) \<Longrightarrow> stepped D b b"
  by (simp add: stepped_def edited.same merge_own_header)

lemma stepped_doc: "fresh_header t (bc_header b) \<Longrightarrow> edited D (bc_doc b) d \<Longrightarrow> stepped D b (b\<lparr>bc_doc := d\<rparr>)"
  by (simp add: stepped_def merge_own_header)

lemma edited_edit:
  assumes "dte_ok D" and t: "get_text D (bc_doc b) = Some t" and le: "pos + del \<le> char_count t"
  shows "edited D (bc_doc b) (bc_doc (content_edit_text D pos ins del b))"
proof -
  let ?d = "if 0 < del then text_delete D (bc_doc b) (bc_agent b) pos del else bc_doc b"
  let ?u = "take_chars pos t @ drop_chars (pos + del) t"
  have d: "edited D (bc_doc b) ?d" using t le by (auto intro: edited.intros)
  moreover have "get_text D ?d = Some ?u" using dte_okD(5) [OF assms(1) t le] t by simp
  moreover have "pos \<le> char_count ?u" using le by (simp add: char_count_take_chars char_count_drop_chars)
  ultimately have "edited D (bc_doc b) (text_insert D ?d (bc_agent b) pos ins)" by (rule edited.ins)
  then show ?thesis using d t by (simp add: content_edit_text_def Let_def)
qed

lemma content_edit_text_shape: "content_edit_text D pos ins del b = b\<lparr>bc_doc := bc_doc (content_edit_text D pos ins del b)\<rparr>"
  by (simp add: content_edit_text_def Let_def)

lemma stepped_edit:
  assumes "fresh_header t (bc_header b)" and "dte_ok D" and "get_text D (bc_doc b) = Some u" and "pos + del \<le> char_count u"
  shows "stepped D b (content_edit_text D pos ins del b)"
  using stepped_doc [OF assms(1) edited_edit [OF assms(2-4)], of ins] content_edit_text_shape [of D pos ins del b] by simp

lemma merge_same:
  "bh_status_at r = bh_status_at (bc_header b) \<Longrightarrow> bh_status r = bh_status (bc_header b) \<Longrightarrow> merge_status r b = b"
  "bh_collapsed_at r = bh_collapsed_at (bc_header b) \<Longrightarrow> bh_collapsed r = bh_collapsed (bc_header b) \<Longrightarrow> merge_collapsed r b = b"
  "bh_ephemeral_at r = bh_ephemeral_at (bc_header b) \<Longrightarrow> bh_ephemeral r = bh_ephemeral (bc_header b) \<Longrightarrow> merge_ephemeral r b = b"
  "bh_excluded_at r = bh_excluded_at (bc_header b) \<Longrightarrow> bh_excluded r = bh_excluded (bc_header b) \<Longrightarrow> merge_excluded r b = b"
  "bh_compacted_at r = bh_compacted_at (bc_header b) \<Longrightarrow> bh_compacted r = bh_compacted (bc_header b) \<Longrightarrow> merge_compacted r b = b"
  "bh_tool_meta_at r = bh_tool_meta_at (bc_header b) \<Longrightarrow> bh_tool_kind r = bh_tool_kind (bc_header b) \<Longrightarrow> merge_tool_meta r b = b"
  "bh_content_type_at r = bh_content_type_at (bc_header b) \<Longrightarrow> bh_content_type r = bh_content_type (bc_header b) \<Longrightarrow> merge_content_type r b = b"
  by (simp_all add: merge_defs field_wins_def)

lemma field_wins_later [simp]: "l < r \<Longrightarrow> field_wins r l x y"
  by (simp add: field_wins_def)

lemma bump_fields [simp]:
  "bh_status (bump_updated_at h) = bh_status h" "bh_status_at (bump_updated_at h) = bh_status_at h"
  "bh_collapsed_at (bump_updated_at h) = bh_collapsed_at h" "bh_ephemeral_at (bump_updated_at h) = bh_ephemeral_at h"
  "bh_excluded_at (bump_updated_at h) = bh_excluded_at h" "bh_compacted (bump_updated_at h) = bh_compacted h"
  "bh_compacted_at (bump_updated_at h) = bh_compacted_at h" "bh_tool_kind (bump_updated_at h) = bh_tool_kind h"
  "bh_exit_code (bump_updated_at h) = bh_exit_code h" "bh_is_error (bump_updated_at h) = bh_is_error h"
  "bh_tool_meta_at (bump_updated_at h) = bh_tool_meta_at h" "bh_content_type (bump_updated_at h) = bh_content_type h"
  "bh_content_type_at (bump_updated_at h) = bh_content_type_at h" "max_field_ts (bump_updated_at h) = max_field_ts h"
  by (simp_all add: bump_updated_at_def max_field_ts_def)

lemma max_field_ts_le:
  "max_field_ts h \<le> t \<longleftrightarrow> bh_status_at h \<le> t \<and> bh_collapsed_at h \<le> t \<and> bh_ephemeral_at h \<le> t \<and> bh_excluded_at h \<le> t
     \<and> bh_compacted_at h \<le> t \<and> bh_tool_meta_at h \<le> t \<and> bh_content_type_at h \<le> t"
  by (simp add: max_field_ts_def)

lemma bump_updated [simp]: "bh_updated_at (bump_updated_at h) = max_field_ts h"
  by (simp add: bump_updated_at_def)

lemma fresh_setters:
  assumes "fresh_header t (bc_header b)" and "t < ts"
  shows "fresh_header ts (bc_header (content_set_status st ts b))" and "fresh_header ts (bc_header (content_set_collapsed v ts b))"
    and "fresh_header ts (bc_header (content_set_ephemeral v ts b))" and "fresh_header ts (bc_header (content_set_excluded v ts b))"
    and "fresh_header ts (bc_header (content_set_compacted v ts b))" and "fresh_header ts (bc_header (content_set_exit_code code ts b))"
    and "fresh_header ts (bc_header (content_set_content_type ct ts b))"
  using assms
  by (simp_all add: content_set_status_def content_set_collapsed_def content_set_ephemeral_def content_set_excluded_def
    content_set_compacted_def content_set_exit_code_def content_set_content_type_def fresh_header_def max_field_ts_le)

lemma stepped_setters:
  assumes "fresh_header t (bc_header b)" and "t < ts"
  shows "stepped D b (content_set_status st ts b)" and "stepped D b (content_set_collapsed v ts b)"
    and "stepped D b (content_set_ephemeral v ts b)" and "stepped D b (content_set_excluded v ts b)"
    and "stepped D b (content_set_compacted v ts b)" and "stepped D b (content_set_exit_code code ts b)"
    and "stepped D b (content_set_content_type ct ts b)"
proof -
  have le: "bh_status_at (bc_header b) < ts" "bh_collapsed_at (bc_header b) < ts" "bh_ephemeral_at (bc_header b) < ts"
    "bh_excluded_at (bc_header b) < ts" "bh_compacted_at (bc_header b) < ts" "bh_tool_meta_at (bc_header b) < ts"
    "bh_content_type_at (bc_header b) < ts"
    using assms by (auto simp: fresh_header_def max_field_ts_le)
  note base = stepped_def edited.same merge_header_def Let_def merge_same
  show "stepped D b (content_set_status st ts b)"
    using le by (simp add: base content_set_status_def merge_status_def)
  show "stepped D b (content_set_collapsed v ts b)"
    using le by (simp add: base content_set_collapsed_def merge_collapsed_def)
  show "stepped D b (content_set_ephemeral v ts b)"
    using le by (simp add: base content_set_ephemeral_def merge_ephemeral_def)
  show "stepped D b (content_set_excluded v ts b)"
    using le by (simp add: base content_set_excluded_def merge_excluded_def)
  show "stepped D b (content_set_compacted v ts b)"
    using le by (simp add: base content_set_compacted_def merge_compacted_def)
  show "stepped D b (content_set_exit_code code ts b)"
    using le by (simp add: base content_set_exit_code_def merge_tool_meta_def)
  show "stepped D b (content_set_content_type ct ts b)"
    using le by (simp add: base content_set_content_type_def merge_content_type_def)
qed

section \<open>Changes the payload carries\<close>

text \<open>What the operations below keep: the clock is ahead, and every live block has a text.\<close>

definition texted :: "('d, 'o, 'f) dte \<Rightarrow> 'd BlockStore \<Rightarrow> bool" where
  "texted D s \<longleftrightarrow> (\<forall>i b. bt_get (st_blocks s) i = Some b \<longrightarrow> \<not> bc_deleted b \<longrightarrow> get_text D (bc_doc b) \<noteq> None)"

definition carries :: "('d, 'o, 'f) dte \<Rightarrow> 'd BlockStore \<Rightarrow> 'd BlockStore \<Rightarrow> bool" where
  "carries D s s' \<longleftrightarrow> (clocked s \<longrightarrow> texted D s \<longrightarrow> carried D s s' \<and> clocked s' \<and> texted D s')"

lemma carries_modify:
  assumes clock: "t = st_lamport_clock s" "t \<le> st_lamport_clock s'"
    and blocks: "st_blocks s' = bt_modify i f (st_blocks s)"
    and f: "\<And>b. bt_get (st_blocks s) i = Some b \<Longrightarrow> \<not> bc_deleted b \<Longrightarrow> fresh_header t (bc_header b) \<Longrightarrow> get_text D (bc_doc b) \<noteq> None \<Longrightarrow>
        \<not> bc_deleted (f b) \<Longrightarrow> stepped D b (f b) \<and> fresh_header (st_lamport_clock s') (bc_header (f b)) \<and> get_text D (bc_doc (f b)) \<noteq> None"
    and keep: "\<And>b. bc_deleted b \<Longrightarrow> bc_deleted (f b)"
  shows "carries D s s'"
  unfolding carries_def
proof (intro impI conjI)
  assume c: "clocked s" and tx: "texted D s"
  have fresh: "fresh_header t (bc_header b)" if "bt_get (st_blocks s) j = Some b" "\<not> bc_deleted b" for j b
    using clockedD [OF c that] clock(1) by simp
  have has: "get_text D (bc_doc b) \<noteq> None" if "bt_get (st_blocks s) j = Some b" "\<not> bc_deleted b" for j b
    using tx that by (auto simp: texted_def)
  have get: "bt_get (st_blocks s') j = (if j = i then map_option f (bt_get (st_blocks s) i) else bt_get (st_blocks s) j)" for j
    by (simp add: blocks bt_get_modify)
  have at: "\<not> bc_deleted b0 \<and> stepped D b0 b \<and> fresh_header (st_lamport_clock s') (bc_header b) \<and> get_text D (bc_doc b) \<noteq> None"
    if "bt_get (st_blocks s) j = Some b0" "bt_get (st_blocks s') j = Some b" "\<not> bc_deleted b" for j b0 b
  proof (cases "j = i")
    case True
    then have b: "b = f b0" using that get by simp
    then have "\<not> bc_deleted b0" using keep that(3) by blast
    with f [of b0] fresh [OF that(1)] has [OF that(1)] b True that show ?thesis by blast
  next
    case False
    then have "b = b0" using that get by simp
    then show ?thesis using stepped_refl [OF fresh] fresh_header_mono [OF fresh clock(2)] has that by blast
  qed
  have known: "\<exists>b'. bt_get (st_blocks s') j = Some b'" if "bt_get (st_blocks s) j = Some b0" for j b0
    using that get by (cases "j = i") simp_all
  have old: "\<exists>b0. bt_get (st_blocks s) j = Some b0" if "bt_get (st_blocks s') j = Some b" for j b
    using that get by (cases "j = i") auto
  show "carried D s s'" unfolding carried_def
  proof (intro conjI allI impI)
    fix j b0 assume b0: "bt_get (st_blocks s) j = Some b0"
    then obtain b where "bt_get (st_blocks s') j = Some b" using known by blast
    then show "\<exists>b'. bt_get (st_blocks s') j = Some b' \<and> (bc_deleted b' \<or> \<not> bc_deleted b0 \<and> stepped D b0 b')"
      using at [OF b0] by blast
  next
    fix j b assume "bt_get (st_blocks s) j = None" "bt_get (st_blocks s') j = Some b"
    with old have False by fastforce
    then show "\<not> bc_deleted b" "get_text D (bc_doc b) \<noteq> None" by blast+
  qed
  show "clocked s'" unfolding clocked_def using at old by blast
  show "texted D s'" unfolding texted_def using at old by blast
qed

lemma carries_update:
  assumes "st_blocks s1 = st_blocks s" and "st_lamport_clock s \<le> st_lamport_clock s1"
    and "\<And>b. bt_get (st_blocks s) i = Some b \<Longrightarrow> \<not> bc_deleted b \<Longrightarrow> fresh_header (st_lamport_clock s) (bc_header b) \<Longrightarrow> get_text D (bc_doc b) \<noteq> None \<Longrightarrow>
        \<not> bc_deleted (f b) \<Longrightarrow> stepped D b (f b) \<and> fresh_header (st_lamport_clock s1) (bc_header (f b)) \<and> get_text D (bc_doc (f b)) \<noteq> None"
    and "\<And>b. bc_deleted b \<Longrightarrow> bc_deleted (f b)"
  shows "carries D s (update_block i f s1)"
  by (rule carries_modify [OF refl, of _ _ i f]) (use assms in \<open>auto simp: update_block_def\<close>)

section \<open>New blocks\<close>

definition newborn :: "('d, 'o, 'f) dte \<Rightarrow> u64 \<Rightarrow> 'd BlockContent \<Rightarrow> bool" where
  "newborn D t b \<longleftrightarrow> \<not> bc_deleted b \<and> fresh_header t (bc_header b) \<and> get_text D (bc_doc b) \<noteq> None"

lemma carries_new:
  assumes get: "\<And>j. bt_get (st_blocks s') j = (if j = i then Some b else bt_get (st_blocks s) j)" and new: "bt_get (st_blocks s) i = None"
    and clock: "st_lamport_clock s \<le> st_lamport_clock s'" and b: "newborn D (st_lamport_clock s') b"
  shows "carries D s s'"
  unfolding carries_def
proof (intro impI conjI)
  assume c: "clocked s" and tx: "texted D s"
  have at: "newborn D (st_lamport_clock s') x" if "bt_get (st_blocks s') j = Some x" "\<not> bc_deleted x" for j x
    using that b fresh_header_mono [OF clockedD [OF c] clock] tx by (auto simp: get newborn_def texted_def split: if_splits)
  show "carried D s s'" unfolding carried_def
    using new b stepped_refl [OF clockedD [OF c]] by (auto simp: get newborn_def split: if_splits)
  show "clocked s'" "texted D s'" unfolding clocked_def texted_def using at by (auto simp: newborn_def)
qed

lemma carries_same:
  assumes "st_blocks s' = st_blocks s" and "st_lamport_clock s \<le> st_lamport_clock s'"
  shows "carries D s s'"
  unfolding carries_def
proof (intro impI conjI)
  assume c: "clocked s" and tx: "texted D s"
  show "carried D s s'" unfolding carried_def assms(1) using stepped_refl [OF clockedD [OF c]] by auto
  show "clocked s'" unfolding clocked_def assms(1) using fresh_header_mono [OF clockedD [OF c] assms(2)] by blast
  show "texted D s'" using tx by (simp add: texted_def assms(1))
qed

lemma with_content_has_text: "dte_ok D \<Longrightarrow> get_text D (bc_doc (with_content D h c p key t)) \<noteq> None"
  using dte_okD [of D]
  by (auto simp: with_content_def content_new_def fresh_document_def Let_def case_prod_unfold)

lemma fresh_stamped: "fresh_header ts (stamped_header now ts i p r k st tk code err ct)"
  by (simp add: fresh_header_def stamped_header_def max_field_ts_def)

lemma fresh_zero:
  assumes "bs_updated_at sn = 0" "bs_status_at sn = 0" "bs_collapsed_at sn = 0" "bs_ephemeral_at sn = 0" "bs_excluded_at sn = 0"
    "bs_compacted_at sn = 0" "bs_tool_meta_at sn = 0" "bs_content_type_at sn = 0"
  shows "fresh_header t (header_from_snapshot sn)"
  using assms by (simp add: fresh_header_def header_from_snapshot_def max_field_ts_def)

lemma fresh_constructed:
  "snapshot_drift now i p c src m dk = Some sn \<Longrightarrow> fresh_header t (header_from_snapshot sn)"
  "snapshot_file now i p path c = Some sn \<Longrightarrow> fresh_header t (header_from_snapshot sn)"
  "snapshot_error_for now i q ep c = Some sn \<Longrightarrow> fresh_header t (header_from_snapshot sn)"
  "snapshot_notification_block now i p np c = Some sn \<Longrightarrow> fresh_header t (header_from_snapshot sn)"
  "snapshot_resource_block now i p rp c = Some sn \<Longrightarrow> fresh_header t (header_from_snapshot sn)"
  by (rule fresh_zero; force simp: snapshot_drift_def snapshot_file_def snapshot_error_for_def
      snapshot_notification_block_def snapshot_resource_block_def builder_new_def split: if_splits)+

lemma newborn_restored:
  assumes "dte_ok D" and "fresh_header t (header_from_snapshot sn)"
  shows "newborn D t (content_from_snapshot D sn p key)"
  using assms(2) with_content_has_text [OF assms(1)]
  by (simp add: newborn_def content_from_snapshot_def Let_def)

lemma insert_step_newborn:
  assumes "dte_ok D" and "insert_step D after refs s (s', Inr i)" and "bt_get (st_blocks s') i = Some b"
  shows "fresh_header (st_lamport_clock s') (bc_header b) \<and> get_text D (bc_doc b) \<noteq> None"
  using assms(2)
proof (cases rule: insert_step.cases)
  case (block p now r k c st ct)
  with assms(3) with_content_has_text [OF assms(1)] show ?thesis
    by (auto simp: insert_block_def Let_def case_prod_unfold put_block_def bt_get_insert fresh_stamped clock_tick_def
        split: option.splits)
next
  case (tool_call p js now n inp tk ro)
  with assms(3) with_content_has_text [OF assms(1)] show ?thesis
    by (auto simp: insert_tool_call_def Let_def case_prod_unfold put_block_def bt_get_insert fresh_stamped clock_tick_def
        set_tool_name_def set_tool_input_def split: option.splits sum.splits)
next
  case (tool_result after' call now c err code tk)
  with assms(3) with_content_has_text [OF assms(1)] show ?thesis
    by (auto simp: insert_tool_result_block_def Let_def case_prod_unfold put_block_def bt_get_insert fresh_stamped
        clock_tick_def set_tool_call_id_def split: option.splits)
qed (use assms(3) newborn_restored [OF assms(1) fresh_constructed(1)] newborn_restored [OF assms(1) fresh_constructed(2)]
    newborn_restored [OF assms(1) fresh_constructed(3)] newborn_restored [OF assms(1) fresh_constructed(4)]
    newborn_restored [OF assms(1) fresh_constructed(5)] in
  \<open>auto simp: insert_drift_block_def insert_file_block_def insert_error_block_def insert_notification_block_def
    insert_resource_block_def insert_constructed_def Let_def case_prod_unfold put_block_def bt_get_insert newborn_def
    set_tick_def split: option.splits\<close>)

lemma insert_step_clock: "insert_step D after refs s (s', r) \<Longrightarrow> store_ok s \<Longrightarrow> st_lamport_clock s \<le> st_lamport_clock s'"
  using safe_local_call [OF local_call.ins] by (fastforce simp: safe_def grows_def)

lemma carries_insert:
  assumes "dte_ok D" and "store_ok s" and "insert_step D after refs s (s', Inr i)"
  shows "carries D s s'"
proof -
  obtain b where ins: "inserted after s s' i b" by (rule insert_step_inserted [OF assms(2,3)])
  note b = insertedD [OF assms(2) ins]
  have "bt_get (st_blocks s') i = Some b" by (simp add: b(4) bt_get_insert)
  from insert_step_newborn [OF assms(1,3) this]
  show ?thesis using b insert_step_clock [OF assms(3,2)] by (intro carries_new [of s' i b]) (auto simp: newborn_def bt_get_insert)
qed

lemma carries_tagged:
  assumes "dte_ok D" and "store_ok s" and "insert_step D after refs s (s1, Inr i)"
    and "store_set_tool_use_id i x s1 = (s', r)"
  shows "carries D s s'"
proof -
  obtain b where ins: "inserted after s s1 i b" by (rule insert_step_inserted [OF assms(2,3)])
  note b = insertedD [OF assms(2) ins]
  have get: "bt_get (st_blocks s1) i = Some b" by (simp add: b(4) bt_get_insert)
  have s': "s' = update_block i (content_set_tool_use_id x) s1"
    using assms(4) get b(2) by (auto simp: store_set_tool_use_id_def on_live_block_def is_live_def split: if_splits)
  have "bt_get (st_blocks s') j = (if j = i then Some (content_set_tool_use_id x b) else bt_get (st_blocks s) j)" for j
    by (simp add: s' update_block_def b(4) bt_get_modify bt_get_insert)
  then show ?thesis
    using b insert_step_clock [OF assms(3,2)] insert_step_newborn [OF assms(1,3) get]
    by (intro carries_new [of s' i "content_set_tool_use_id x b"]) (auto simp: newborn_def s' update_block_def content_set_tool_use_id_def)
qed

lemma clock_tick_pair: "clock_tick s = (s\<lparr>st_lamport_clock := st_lamport_clock s + 1\<rparr>, st_lamport_clock s + 1)"
  by (simp add: clock_tick_def Let_def)

lemma setter_deleted [simp]:
  "bc_deleted (content_set_status a ts b) = bc_deleted b" "bc_deleted (content_set_collapsed v ts b) = bc_deleted b"
  "bc_deleted (content_set_ephemeral v ts b) = bc_deleted b" "bc_deleted (content_set_excluded v ts b) = bc_deleted b"
  "bc_deleted (content_set_compacted v ts b) = bc_deleted b" "bc_deleted (content_set_exit_code c ts b) = bc_deleted b"
  "bc_deleted (content_set_content_type ct ts b) = bc_deleted b" "bc_deleted (content_edit_text D pos ins del b) = bc_deleted b"
  "bc_doc (content_set_status a ts b) = bc_doc b" "bc_doc (content_set_collapsed v ts b) = bc_doc b"
  "bc_doc (content_set_ephemeral v ts b) = bc_doc b" "bc_doc (content_set_excluded v ts b) = bc_doc b"
  "bc_doc (content_set_compacted v ts b) = bc_doc b" "bc_doc (content_set_exit_code c ts b) = bc_doc b"
  "bc_doc (content_set_content_type ct ts b) = bc_doc b"
  by (simp_all add: content_set_status_def content_set_collapsed_def content_set_ephemeral_def content_set_excluded_def
    content_set_compacted_def content_set_exit_code_def content_set_content_type_def content_edit_text_def Let_def)

lemma carries_clocked:
  assumes f: "\<And>b t ts. fresh_header t (bc_header b) \<Longrightarrow> t < ts \<Longrightarrow> stepped D b (f ts b) \<and> fresh_header ts (bc_header (f ts b))"
    and doc: "\<And>ts b. bc_doc (f ts b) = bc_doc b" "\<And>ts b. bc_deleted (f ts b) = bc_deleted b"
  shows "(case clock_tick s of (s, ts) \<Rightarrow> on_block i (f ts) s) = (s', r) \<Longrightarrow> carries D s s'"
    and "(case clock_tick s of (s, ts) \<Rightarrow> on_live_block i (f ts) s) = (s', r) \<Longrightarrow> carries D s s'"
proof -
  let ?s = "s\<lparr>st_lamport_clock := st_lamport_clock s + 1\<rparr>" and ?t = "st_lamport_clock s + 1"
  have upd: "carries D s (update_block i (f ?t) ?s)"
    by (rule carries_update) (use f doc in auto)
  have same: "carries D s ?s" by (rule carries_same) simp_all
  show "(case clock_tick s of (s, ts) \<Rightarrow> on_block i (f ts) s) = (s', r) \<Longrightarrow> carries D s s'"
    and "(case clock_tick s of (s, ts) \<Rightarrow> on_live_block i (f ts) s) = (s', r) \<Longrightarrow> carries D s s'"
    using upd same by (auto simp: clock_tick_pair on_block_def on_live_block_def split: if_splits)
qed

lemma carries_setters:
  "store_set_status i v1 s = (s', r) \<Longrightarrow> carries D s s'" "store_set_collapsed i v2 s = (s', r) \<Longrightarrow> carries D s s'"
  "store_set_content_type i v3 s = (s', r) \<Longrightarrow> carries D s s'" "store_set_exit_code i v4 s = (s', r) \<Longrightarrow> carries D s s'"
  "store_set_ephemeral i v2 s = (s', r) \<Longrightarrow> carries D s s'" "store_set_excluded i v2 s = (s', r) \<Longrightarrow> carries D s s'"
  "store_set_compacted i v2 s = (s', r) \<Longrightarrow> carries D s s'"
  unfolding store_set_status_def store_set_collapsed_def store_set_content_type_def store_set_exit_code_def
    store_set_ephemeral_def store_set_excluded_def store_set_compacted_def Let_def
  by (rule carries_clocked; (assumption | rule conjI | erule (1) stepped_setters fresh_setters | simp)+)+

lemma carries_delete: "delete_block i s = (s', r) \<Longrightarrow> carries D s s'"
proof -
  let ?s = "s\<lparr>st_lamport_clock := st_lamport_clock s + 1\<rparr>"
  have "carries D s (update_block i (mark_deleted ts) ?s)" for ts
    by (rule carries_update) simp_all
  moreover have "carries D s ?s" by (rule carries_same) simp_all
  ultimately show "delete_block i s = (s', r) \<Longrightarrow> carries D s s'"
    by (auto simp: delete_block_def Let_def clock_tick_pair on_block_def split: if_splits)
qed

lemma edited_has_text:
  assumes "dte_ok D"
  shows "edited D d d' \<Longrightarrow> get_text D d \<noteq> None \<Longrightarrow> get_text D d' \<noteq> None"
  by (induction rule: edited.induct) (auto simp: dte_okD [OF assms])

lemma carries_text:
  assumes "dte_ok D"
  shows "store_edit_text D i pos ins del s = (s', r) \<Longrightarrow> carries D s s'"
    and "store_append_text D i ins s = (s', r) \<Longrightarrow> carries D s s'"
proof -
  have upd: "carries D s (update_block i f s)"
    if f: "\<And>b u. bt_get (st_blocks s) i = Some b \<Longrightarrow> get_text D (bc_doc b) = Some u \<Longrightarrow>
        \<exists>pos ins del. f b = content_edit_text D pos ins del b \<and> pos + del \<le> char_count u"
      and "\<And>b. bc_deleted b \<Longrightarrow> bc_deleted (f b)" for f
  proof (rule carries_update)
    fix b assume b: "bt_get (st_blocks s) i = Some b" and fr: "fresh_header (st_lamport_clock s) (bc_header b)"
      and "get_text D (bc_doc b) \<noteq> None"
    then obtain u where u: "get_text D (bc_doc b) = Some u" by blast
    from f [OF b this] obtain pos ins del where f: "f b = content_edit_text D pos ins del b" "pos + del \<le> char_count u" by blast
    have "bc_header (f b) = bc_header b" by (simp add: f(1) content_edit_text_def Let_def)
    then show "stepped D b (f b) \<and> fresh_header (st_lamport_clock s) (bc_header (f b)) \<and> get_text D (bc_doc (f b)) \<noteq> None"
      using fr u stepped_edit [OF fr assms u f(2)] edited_has_text [OF assms edited_edit [OF assms u f(2)]] by (auto simp: f(1))
  qed (use that in auto)
  show "carries D s s'" if "store_edit_text D i pos ins del s = (s', r)"
  proof -
    have "s' = s \<or> s' = update_block i (content_edit_text D pos ins del) s
        \<and> (\<forall>b u. bt_get (st_blocks s) i = Some b \<longrightarrow> get_text D (bc_doc b) = Some u \<longrightarrow> pos + del \<le> char_count u)"
      using that by (auto simp: store_edit_text_def Let_def content_len_def content_text_def split: if_splits)
    moreover have "carries D s (update_block i (content_edit_text D pos ins del) s)"
      if "\<forall>b u. bt_get (st_blocks s) i = Some b \<longrightarrow> get_text D (bc_doc b) = Some u \<longrightarrow> pos + del \<le> char_count u"
      by (rule upd) (use that in \<open>blast, simp\<close>)
    ultimately show ?thesis using carries_same [of s s] by blast
  qed
  show "carries D s s'" if "store_append_text D i ins s = (s', r)"
  proof -
    have "s' = s \<or> s' = update_block i (content_append_text D ins) s"
      using that by (auto simp: store_append_text_def on_live_block_def split: if_splits)
    moreover have "carries D s (update_block i (content_append_text D ins) s)"
      by (rule upd) (force simp: content_append_text_def content_text_def)+
    ultimately show ?thesis using carries_same [of s s] by auto
  qed
qed

lemma carries_snapshot:
  assumes "dte_ok D" and "insert_from_snapshot D sn after s = (s', Inr i)"
    and "fresh_header (st_lamport_clock s) (header_from_snapshot sn)"
  shows "carries D s s'"
  using assms(2) newborn_restored [OF assms(1,3)]
  by (intro carries_new [of s' i "the (bt_get (st_blocks s') i)"])
    (auto simp: insert_from_snapshot_def Let_def put_block_def bt_get_insert observe_seq_def bt_contains_def split: if_splits option.splits)

section \<open>The journal of a document\<close>

text \<open>
  The operations the journal carries.  An insertion may be followed, before the change is journalled,
  by the tool-use id of the new block; a snapshot is inserted under its own timestamps, which must not
  be ahead of the clock.
\<close>

inductive durable :: "('d, 'o, 'f) dte \<Rightarrow> 'd BlockStore \<Rightarrow> 'd BlockStore \<Rightarrow> bool" for D where
  ins: "insert_step D after refs s (s', Inr i) \<Longrightarrow> durable D s s'"
| tagged: "insert_step D after refs s (s1, Inr i) \<Longrightarrow> store_set_tool_use_id i x s1 = (s', r) \<Longrightarrow> durable D s s'"
| snap: "insert_from_snapshot D sn after s = (s', Inr i) \<Longrightarrow>
    fresh_header (st_lamport_clock s) (header_from_snapshot sn) \<Longrightarrow> durable D s s'"
| edit: "store_edit_text D i pos t n s = (s', r) \<Longrightarrow> durable D s s'"
| app: "store_append_text D i t s = (s', r) \<Longrightarrow> durable D s s'"
| del: "delete_block i s = (s', r) \<Longrightarrow> durable D s s'"
| status: "store_set_status i st s = (s', r) \<Longrightarrow> durable D s s'"
| collapsed: "store_set_collapsed i v s = (s', r) \<Longrightarrow> durable D s s'"
| content_type: "store_set_content_type i ct s = (s', r) \<Longrightarrow> durable D s s'"
| exit_code: "store_set_exit_code i code s = (s', r) \<Longrightarrow> durable D s s'"
| ephemeral: "store_set_ephemeral i v s = (s', r) \<Longrightarrow> durable D s s'"
| excluded: "store_set_excluded i v s = (s', r) \<Longrightarrow> durable D s s'"
| compacted: "store_set_compacted i v s = (s', r) \<Longrightarrow> durable D s s'"

lemma durable_safe: "durable D s s' \<Longrightarrow> safe s s'"
proof (induction rule: durable.induct)
  case (tagged after refs s s1 i x s' r)
  then show ?case by (meson local_call.intros safe_local_call safe_trans)
qed (auto intro: safe_local_call local_call.intros)

lemma durable_carries: "dte_ok D \<Longrightarrow> store_ok s \<Longrightarrow> durable D s s' \<Longrightarrow> carries D s s'"
  by (erule durable.cases) (auto intro: carries_insert carries_tagged carries_snapshot carries_text carries_delete carries_setters)

text \<open>
  A document with the payloads journalled for it: every durable change adds what changed since the
  frontier before it; other calls (a refused operation, a reserved identifier, another principal or
  version) leave the blocks alone.
\<close>

inductive journalled :: "('d, 'o, 'f) dte \<Rightarrow> ContextId \<Rightarrow> 'd BlockStore \<Rightarrow> 'o SyncPayload list \<Rightarrow> bool"
  for D :: "('d, 'o, 'f) dte" and ctx where
  start: "journalled D ctx (store_new ctx p) []"
| quiet: "journalled D ctx s js \<Longrightarrow> store_step D s s' \<Longrightarrow> st_blocks s' = st_blocks s \<Longrightarrow> journalled D ctx s' js"
| change: "journalled D ctx s js \<Longrightarrow> durable D s s' \<Longrightarrow> journalled D ctx s' (js @ [store_ops_since D (store_frontier D s) s'])"

lemma journalled_ok: "journalled D ctx s js \<Longrightarrow> store_ok s"
  by (induction rule: journalled.induct)
    (auto simp: store_ok_new dest: safe_store_step durable_safe dest!: safe_okD)

lemma journalled_clock:
  assumes "dte_ok D"
  shows "journalled D ctx s js \<Longrightarrow> clocked s \<and> texted D s"
proof (induction rule: journalled.induct)
  case (start p)
  then show ?case by (simp add: clocked_def texted_def store_new_def bt_get_def)
next
  case (quiet s js s')
  have "st_lamport_clock s \<le> st_lamport_clock s'"
    using safe_store_step [OF quiet(2)] journalled_ok [OF quiet(1)] by (simp add: safe_def grows_def)
  from carries_same [OF quiet(3) this, of D] quiet.IH show ?case by (simp add: carries_def)
next
  case (change s js s')
  from durable_carries [OF assms journalled_ok [OF change(1)] change(2)] change.IH show ?case by (simp add: carries_def)
qed

text \<open>One more payload keeps the replica in step.\<close>

lemma durable_replayed:
  assumes "dte_ok D" and "replica_ok D rep" and "journalled D ctx s js" and "durable D s s'" and "mirrored rep s r"
  shows "\<exists>r'. store_merge_ops D (store_ops_since D (store_frontier D s) s') r = (r', Inr ()) \<and> mirrored rep s' r'"
proof (rule replay_step [OF assms(2) _ _ assms(5)])
  show ok: "store_ok s" by (rule journalled_ok [OF assms(3)])
  show "store_ok s'" by (rule journalled_ok [OF journalled.change [OF assms(3,4)]])
  show "carried D s s'"
    using durable_carries [OF assms(1) ok assms(4)] journalled_clock [OF assms(1,3)] by (simp add: carries_def)
qed

end
