(* ===== verification/Kernel_Db.thy ===== *)
theory Kernel_Db
  imports Blocks
begin

text \<open>
  The journal tables of the kernel database, \<open>crates/kaijutsu-kernel/src/kernel_db.rs\<close>: the documents,
  their append-only operation log and their compaction snapshots, with the queries the block store
  issues.  A table is the list of its rows; the statements follow the SQL of the source, with the
  primary keys, the unique index on paths, the foreign keys and the cascade of the schema.

  SQLite can fail at any call.  The outcome of the calls is the argument \<open>fault\<close>, which gives the
  error of the n-th call or nothing; the tables count the calls.  Sequence numbers are natural numbers.
\<close>

datatype KernelDbError =
    Db string
  | NotFound string
  | LabelConflict string
  | InvalidLabel string
  | CycleDetected
  | Validation string

definition KernelDbError_to_string :: "KernelDbError \<Rightarrow> string" where
  "KernelDbError_to_string e =
     (case e of
        KernelDbError.Db m \<Rightarrow> ''database error: '' @ m
      | KernelDbError.NotFound m \<Rightarrow> ''not found: '' @ m
      | LabelConflict m \<Rightarrow> ''label conflict: '' @ m
      | InvalidLabel m \<Rightarrow> ''invalid label: '' @ m
      | CycleDetected \<Rightarrow> ''cycle detected: adding this edge would create a cycle''
      | KernelDbError.Validation m \<Rightarrow> ''validation error: '' @ m)"

type_synonym WorkspaceId = uuid
type_synonym bytes = string

record DocumentRow =
  dr_document_id :: ContextId
  dr_workspace_id :: WorkspaceId
  dr_doc_kind :: DocKind
  dr_language :: "string option"
  dr_path :: "string option"
  dr_created_at :: i64
  dr_created_by :: PrincipalId

record DocSnapshotRow =
  sr_document_id :: ContextId
  sr_seq :: nat
  sr_version :: nat
  sr_state :: bytes
  sr_content :: string

record OplogRow =
  or_document_id :: ContextId
  or_seq :: nat
  or_payload :: bytes

record KernelDb =
  kd_workspaces :: "WorkspaceId set"
  kd_documents :: "DocumentRow list"
  kd_oplog :: "OplogRow list"
  kd_snapshots :: "DocSnapshotRow list"
  kd_activity :: "ContextId \<rightharpoonup> i64 option"
  kd_calls :: nat

type_synonym fault = "nat \<Rightarrow> string option"
type_synonym 'a dbres = "KernelDb \<times> (KernelDbError + 'a)"

definition db_call :: "fault \<Rightarrow> (KernelDb \<Rightarrow> 'a dbres) \<Rightarrow> KernelDb \<Rightarrow> 'a dbres" where
  "db_call fault f db =
     (let db' = db\<lparr>kd_calls := kd_calls db + 1\<rparr>
      in case fault (kd_calls db) of Some m \<Rightarrow> (db', Inl (KernelDbError.Db m)) | None \<Rightarrow> f db')"

definition document_exists :: "KernelDb \<Rightarrow> ContextId \<Rightarrow> bool" where
  "document_exists db ctx \<longleftrightarrow> ctx \<in> dr_document_id ` set (kd_documents db)"

definition path_taken :: "KernelDb \<Rightarrow> DocumentRow \<Rightarrow> bool" where
  "path_taken db row \<longleftrightarrow>
     dr_path row \<noteq> None \<and>
     (\<exists>r \<in> set (kd_documents db). dr_workspace_id r = dr_workspace_id row \<and> dr_path r = dr_path row)"

definition insert_document :: "fault \<Rightarrow> DocumentRow \<Rightarrow> KernelDb \<Rightarrow> unit dbres" where
  "insert_document fault row = db_call fault (\<lambda>db.
     if document_exists db (dr_document_id row) \<or> path_taken db row
     then (db, Inl (LabelConflict ''document already exists or path conflict''))
     else if dr_workspace_id row \<notin> kd_workspaces db
     then (db, Inl (KernelDbError.Validation ''FOREIGN KEY constraint failed''))
     else (db\<lparr>kd_documents := kd_documents db @ [row]\<rparr>, Inr ()))"

definition get_document :: "fault \<Rightarrow> ContextId \<Rightarrow> KernelDb \<Rightarrow> DocumentRow option dbres" where
  "get_document fault ctx = db_call fault (\<lambda>db.
     (db, Inr (List.find (\<lambda>r. dr_document_id r = ctx) (kd_documents db))))"

definition list_documents :: "fault \<Rightarrow> KernelDb \<Rightarrow> DocumentRow list dbres" where
  "list_documents fault = db_call fault (\<lambda>db. (db, Inr (sort_key dr_created_at (kd_documents db))))"

definition delete_document_row :: "fault \<Rightarrow> ContextId \<Rightarrow> KernelDb \<Rightarrow> bool dbres" where
  "delete_document_row fault ctx = db_call fault (\<lambda>db.
     (db\<lparr>kd_documents := filter (\<lambda>r. dr_document_id r \<noteq> ctx) (kd_documents db),
         kd_oplog := filter (\<lambda>r. or_document_id r \<noteq> ctx) (kd_oplog db),
         kd_snapshots := filter (\<lambda>r. sr_document_id r \<noteq> ctx) (kd_snapshots db),
         kd_activity := (kd_activity db)(ctx := None)\<rparr>,
      Inr (document_exists db ctx)))"

definition append_op :: "fault \<Rightarrow> ContextId \<Rightarrow> nat \<Rightarrow> bytes \<Rightarrow> KernelDb \<Rightarrow> unit dbres" where
  "append_op fault ctx n payload = db_call fault (\<lambda>db.
     if \<exists>r \<in> set (kd_oplog db). or_document_id r = ctx \<and> or_seq r = n
     then (db, Inl (KernelDbError.Db ''UNIQUE constraint failed: oplog.document_id, oplog.seq''))
     else if \<not> document_exists db ctx
     then (db, Inl (KernelDbError.Db ''FOREIGN KEY constraint failed''))
     else (db\<lparr>kd_oplog := kd_oplog db @ [\<lparr>or_document_id = ctx, or_seq = n, or_payload = payload\<rparr>]\<rparr>, Inr ()))"

definition load_oplog_since :: "fault \<Rightarrow> ContextId \<Rightarrow> nat \<Rightarrow> KernelDb \<Rightarrow> (nat \<times> bytes) list dbres" where
  "load_oplog_since fault ctx after_seq = db_call fault (\<lambda>db.
     (db, Inr (map (\<lambda>r. (or_seq r, or_payload r))
        (sort_key or_seq (filter (\<lambda>r. or_document_id r = ctx \<and> after_seq < or_seq r) (kd_oplog db))))))"

definition load_latest_snapshot :: "fault \<Rightarrow> ContextId \<Rightarrow> KernelDb \<Rightarrow> DocSnapshotRow option dbres" where
  "load_latest_snapshot fault ctx = db_call fault (\<lambda>db.
     (db, Inr (List.find (\<lambda>r. sr_document_id r = ctx) (kd_snapshots db))))"

definition write_snapshot_and_truncate ::
  "fault \<Rightarrow> ContextId \<Rightarrow> nat \<Rightarrow> nat \<Rightarrow> bytes \<Rightarrow> string \<Rightarrow> KernelDb \<Rightarrow> unit dbres" where
  "write_snapshot_and_truncate fault ctx n v state content = db_call fault (\<lambda>db.
     if \<not> document_exists db ctx then (db, Inl (KernelDbError.Db ''FOREIGN KEY constraint failed''))
     else
       (db\<lparr>kd_snapshots := filter (\<lambda>r. sr_document_id r \<noteq> ctx) (kd_snapshots db)
             @ [\<lparr>sr_document_id = ctx, sr_seq = n, sr_version = v, sr_state = state, sr_content = content\<rparr>],
           kd_oplog := filter (\<lambda>r. \<not> (or_document_id r = ctx \<and> or_seq r \<le> n)) (kd_oplog db)\<rparr>, Inr ()))"

definition touch_context_activity :: "fault \<Rightarrow> ContextId \<Rightarrow> i64 \<Rightarrow> KernelDb \<Rightarrow> unit dbres" where
  "touch_context_activity fault ctx ts = db_call fault (\<lambda>db.
     (if kd_activity db ctx \<noteq> None then db\<lparr>kd_activity := (kd_activity db)(ctx \<mapsto> Some ts)\<rparr> else db, Inr ()))"

end
