(* ===== verification/Kernel_Store.thy ===== *)
theory Kernel_Store
  imports Block_Store Kernel_Db
begin

text \<open>
  The kernel's block store, \<open>crates/kaijutsu-kernel/src/block_store.rs\<close>: the documents of all contexts,
  each a replicated block store, with the journal that makes them durable and the flow events that
  announce every change.

  An operation of type \<open>kop\<close> takes a state to the state it leaves and a result, or to \<open>None\<close> when it
  panics.  An error keeps what was changed before it.  The codec (CBOR), the ABC and SVG parsers, the
  pretty printer of tool inputs, the system principal and a freshly drawn workspace id are the record \<open>kernel_env\<close>.  An operation
  reads the clock once, its argument \<open>now\<close>; operations are atomic.  Input documents, logging and
  test-only code are left out.
\<close>

section \<open>Operations\<close>

datatype BlockStoreError =
    DocumentNotFound ContextId
  | DocumentAlreadyExists ContextId
  | BlockNotFoundAfterInsert
  | Crdt CrdtError
  | Db string
  | Serialization string
  | NoDatabaseConfigured
  | Validation string

type_synonym ('s, 'a) kop = "'s \<Rightarrow> ('s \<times> (BlockStoreError + 'a)) option"

definition kret :: "'a \<Rightarrow> ('s, 'a) kop" where
  "kret a s = Some (s, Inr a)"

definition kfail :: "BlockStoreError \<Rightarrow> ('s, 'a) kop" where
  "kfail e s = Some (s, Inl e)"

definition kbind :: "('s, 'a) kop \<Rightarrow> ('a \<Rightarrow> ('s, 'b) kop) \<Rightarrow> ('s, 'b) kop" where
  "kbind m f s =
     (case m s of
        None \<Rightarrow> None
      | Some (s', Inl e) \<Rightarrow> Some (s', Inl e)
      | Some (s', Inr a) \<Rightarrow> f a s')"

section \<open>State\<close>

datatype FeedbackLevel = Error | Warning | Info

record Feedback =
  fb_level :: FeedbackLevel
  fb_message :: string
  fb_line :: usize
  fb_column :: usize
  fb_span :: "(usize \<times> usize) option"
  fb_suggestion :: "string option"

datatype UsvgOutcome = Parsed | ParseFailed string | ParserPanicked

record ('d, 'o, 'f, 'json) kernel_env =
  ke_dte :: "('d, 'o, 'f) dte"
  ke_uuid :: uuid_lib
  encode_payload :: "'o SyncPayload \<Rightarrow> string + bytes"
  decode_payload :: "bytes \<Rightarrow> string + 'o SyncPayload"
  encode_snapshot :: "'o StoreSnapshot \<Rightarrow> string + bytes"
  decode_snapshot :: "bytes \<Rightarrow> string + 'o StoreSnapshot"
  ke_fault :: fault
  abc_parse :: "string \<Rightarrow> Feedback list"
  usvg_parse :: "string \<Rightarrow> UsvgOutcome"
  json_pretty :: "'json \<Rightarrow> string + string"
  ke_system :: PrincipalId
  ke_new_workspace :: WorkspaceId

datatype OpSource = Local | Remote

datatype BlockFlow =
    Inserted ContextId BlockSnapshot "BlockId option" bytes OpSource
  | TextOps ContextId BlockId bytes OpSource u64
  | Deleted ContextId BlockId OpSource
  | StatusChanged ContextId BlockId Status OpSource
  | CollapsedChanged ContextId BlockId bool OpSource
  | ExcludedChanged ContextId BlockId bool OpSource
  | Moved ContextId BlockId "BlockId option" OpSource
  | OutputChanged ContextId BlockId "OutputData option" OpSource
  | MetadataChanged ContextId BlockId BlockMetadata OpSource

record 'd DocumentEntry =
  de_doc :: "'d BlockStore"
  de_kind :: DocKind
  de_language :: "string option"
  de_version :: u64
  de_last_agent :: PrincipalId
  de_sync_generation :: u64
  de_next_journal_seq :: u64
  de_uncompacted_count :: u64
  de_uncompacted_bytes :: u64

text \<open>The published events, newest last, when a bus is configured.\<close>

record 'd KernelStore =
  ks_documents :: "ContextId \<rightharpoonup> 'd DocumentEntry"
  ks_block_text_seqs :: "ContextId \<rightharpoonup> u64"
  ks_db :: "KernelDb option"
  ks_persistent :: bool
  ks_default_workspace_id :: "WorkspaceId option"
  ks_principal_id :: PrincipalId
  ks_block_flows :: "BlockFlow list option"
  ks_live_status :: "ContextId \<rightharpoonup> Status"

definition COMPACTION_OP_THRESHOLD :: u64 where
  "COMPACTION_OP_THRESHOLD = 500"

definition COMPACTION_BYTE_THRESHOLD :: u64 where
  "COMPACTION_BYTE_THRESHOLD = 1048576"

definition entry_new :: "ContextId \<Rightarrow> DocKind \<Rightarrow> string option \<Rightarrow> PrincipalId \<Rightarrow> 'd DocumentEntry" where
  "entry_new ctx kind language p =
     \<lparr>de_doc = store_new ctx p, de_kind = kind, de_language = language, de_version = 0, de_last_agent = p,
      de_sync_generation = 0, de_next_journal_seq = 0, de_uncompacted_count = 0, de_uncompacted_bytes = 0\<rparr>"

definition entry_of_store ::
  "'d BlockStore \<Rightarrow> DocKind \<Rightarrow> string option \<Rightarrow> PrincipalId \<Rightarrow> u64 \<Rightarrow> u64 \<Rightarrow> u64 \<Rightarrow> 'd DocumentEntry" where
  "entry_of_store doc kind language p journal_seq cnt nbytes =
     \<lparr>de_doc = doc, de_kind = kind, de_language = language, de_version = st_version doc, de_last_agent = p,
      de_sync_generation = 0, de_next_journal_seq = journal_seq, de_uncompacted_count = cnt,
      de_uncompacted_bytes = nbytes\<rparr>"

definition entry_touch :: "PrincipalId \<Rightarrow> 'd DocumentEntry \<Rightarrow> 'd DocumentEntry" where
  "entry_touch p e = e\<lparr>de_version := de_version e + 1, de_last_agent := p\<rparr>"

definition kernel_new :: "PrincipalId \<Rightarrow> 'd KernelStore" where
  "kernel_new p =
     \<lparr>ks_documents = Map.empty, ks_block_text_seqs = Map.empty, ks_db = None, ks_persistent = False,
      ks_default_workspace_id = None, ks_principal_id = p, ks_block_flows = None, ks_live_status = Map.empty\<rparr>"

definition kernel_with_flows :: "PrincipalId \<Rightarrow> 'd KernelStore" where
  "kernel_with_flows p = (kernel_new p)\<lparr>ks_block_flows := Some []\<rparr>"

definition kernel_with_db :: "KernelDb \<Rightarrow> WorkspaceId \<Rightarrow> PrincipalId \<Rightarrow> 'd KernelStore" where
  "kernel_with_db db ws p =
     (kernel_new p)\<lparr>ks_db := Some db, ks_persistent := True, ks_default_workspace_id := Some ws\<rparr>"

definition kernel_with_db_and_flows :: "KernelDb \<Rightarrow> WorkspaceId \<Rightarrow> PrincipalId \<Rightarrow> 'd KernelStore" where
  "kernel_with_db_and_flows db ws p = (kernel_with_db db ws p)\<lparr>ks_block_flows := Some []\<rparr>"

definition emit :: "BlockFlow \<Rightarrow> ('d KernelStore, unit) kop" where
  "emit flow k = kret () (k\<lparr>ks_block_flows := map_option (\<lambda>fs. fs @ [flow]) (ks_block_flows k)\<rparr>)"

definition next_block_text_seq :: "ContextId \<Rightarrow> 'd KernelStore \<Rightarrow> 'd KernelStore \<times> u64" where
  "next_block_text_seq ctx k =
     (let n = (case ks_block_text_seqs k ctx of Some n \<Rightarrow> n | None \<Rightarrow> 0)
      in (k\<lparr>ks_block_text_seqs := (ks_block_text_seqs k)(ctx \<mapsto> n + 1)\<rparr>, n))"

definition set_kernel_principal :: "PrincipalId \<Rightarrow> 'd KernelStore \<Rightarrow> 'd KernelStore" where
  "set_kernel_principal p k = k\<lparr>ks_principal_id := p\<rparr>"

section \<open>Documents\<close>

text \<open>\<open>str::contains\<close>.\<close>

fun str_contains :: "string \<Rightarrow> string \<Rightarrow> bool" where
  "str_contains [] p \<longleftrightarrow> p = []"
| "str_contains (c # s) p \<longleftrightarrow> starts_with (c # s) p \<or> str_contains s p"

definition on_db :: "(KernelDb \<Rightarrow> 'a dbres) \<Rightarrow> KernelDb \<Rightarrow> ('d KernelStore, 'a) kop" where
  "on_db f db k =
     (case f db of
        (db', Inl e) \<Rightarrow> Some (k\<lparr>ks_db := Some db'\<rparr>, Inl (Db (KernelDbError_to_string e)))
      | (db', Inr a) \<Rightarrow> Some (k\<lparr>ks_db := Some db'\<rparr>, Inr a))"

definition put_entry :: "ContextId \<Rightarrow> 'd DocumentEntry \<Rightarrow> ('d KernelStore, unit) kop" where
  "put_entry ctx e k = kret () (k\<lparr>ks_documents := (ks_documents k)(ctx \<mapsto> e)\<rparr>)"

definition document_row ::
  "('d, 'o, 'f, 'json) kernel_env \<Rightarrow> u64 \<Rightarrow> ContextId \<Rightarrow> DocKind \<Rightarrow> string option \<Rightarrow> string option \<Rightarrow> 'd KernelStore \<Rightarrow> DocumentRow" where
  "document_row E now ctx kind language path k =
     \<lparr>dr_document_id = ctx,
      dr_workspace_id = (case ks_default_workspace_id k of Some w \<Rightarrow> w | None \<Rightarrow> ke_new_workspace E),
      dr_doc_kind = kind, dr_language = language, dr_path = path, dr_created_at = int now,
      dr_created_by = ks_principal_id k\<rparr>"

definition persist_row ::
  "('d, 'o, 'f, 'json) kernel_env \<Rightarrow> DocumentRow \<Rightarrow> ('d KernelStore, unit) kop" where
  "persist_row E row k =
     (case ks_db k of
        None \<Rightarrow> kret () k
      | Some db \<Rightarrow>
          (case insert_document (ke_fault E) row db of
             (db', Inr _) \<Rightarrow> kret () (k\<lparr>ks_db := Some db'\<rparr>)
           | (db', Inl e) \<Rightarrow>
               (let m = KernelDbError_to_string e; k = k\<lparr>ks_db := Some db'\<rparr>
                in if str_contains m ''UNIQUE constraint'' \<or> str_contains m ''already exists''
                   then kret () k else kfail (Db m) k)))"

definition create_document_at ::
  "('d, 'o, 'f, 'json) kernel_env \<Rightarrow> u64 \<Rightarrow> ContextId \<Rightarrow> DocKind \<Rightarrow> string option \<Rightarrow> string option
    \<Rightarrow> ('d KernelStore, unit) kop" where
  "create_document_at E now ctx kind language path k =
     (if ks_documents k ctx \<noteq> None then kfail (DocumentAlreadyExists ctx) k
      else kbind (persist_row E (document_row E now ctx kind language path k))
             (\<lambda>_. put_entry ctx (entry_new ctx kind language (ks_principal_id k))) k)"

definition create_document ::
  "('d, 'o, 'f, 'json) kernel_env \<Rightarrow> u64 \<Rightarrow> ContextId \<Rightarrow> DocKind \<Rightarrow> string option \<Rightarrow> ('d KernelStore, unit) kop" where
  "create_document E now ctx kind language = create_document_at E now ctx kind language None"

definition create_document_with_path ::
  "('d, 'o, 'f, 'json) kernel_env \<Rightarrow> u64 \<Rightarrow> ContextId \<Rightarrow> DocKind \<Rightarrow> string option \<Rightarrow> string
    \<Rightarrow> ('d KernelStore, unit) kop" where
  "create_document_with_path E now ctx kind language path =
     create_document_at E now ctx kind language (Some path)"

definition create_document_from_snapshot ::
  "('d, 'o, 'f, 'json) kernel_env \<Rightarrow> u64 \<Rightarrow> ContextId \<Rightarrow> DocKind \<Rightarrow> string option \<Rightarrow> bytes
    \<Rightarrow> ('d KernelStore, unit) kop" where
  "create_document_from_snapshot E now ctx kind language bs k =
     (if ks_documents k ctx \<noteq> None then kfail (DocumentAlreadyExists ctx) k
      else case decode_snapshot E bs of
        Inl m \<Rightarrow> kfail (Serialization m) k
      | Inr snap \<Rightarrow>
          (case store_from_snapshot (ke_dte E) now snap (ks_principal_id k) of
             Inl e \<Rightarrow> kfail (Crdt e) k
           | Inr doc \<Rightarrow> put_entry ctx (entry_of_store doc kind language (ks_principal_id k) 0 0 0) k))"

definition kernel_delete_document ::
  "('d, 'o, 'f, 'json) kernel_env \<Rightarrow> ContextId \<Rightarrow> ('d KernelStore, unit) kop" where
  "kernel_delete_document E ctx k =
     kbind (case ks_db k of
              Some db \<Rightarrow> kbind (on_db (delete_document_row (ke_fault E) ctx) db) (\<lambda>_. kret ())
            | None \<Rightarrow> kret ())
       (\<lambda>_ k. kret () (k\<lparr>ks_documents := (ks_documents k)(ctx := None)\<rparr>)) k"

definition get_entry :: "ContextId \<Rightarrow> ('d KernelStore, 'd DocumentEntry) kop" where
  "get_entry ctx k = (case ks_documents k ctx of None \<Rightarrow> kfail (DocumentNotFound ctx) k | Some e \<Rightarrow> kret e k)"

definition on_entry :: "ContextId \<Rightarrow> ('d DocumentEntry, 'a) kop \<Rightarrow> ('d KernelStore, 'a) kop" where
  "on_entry ctx f k =
     (case ks_documents k ctx of
        None \<Rightarrow> kfail (DocumentNotFound ctx) k
      | Some e \<Rightarrow>
          (case f e of
             None \<Rightarrow> None
           | Some (e', r) \<Rightarrow> Some (k\<lparr>ks_documents := (ks_documents k)(ctx \<mapsto> e')\<rparr>, r)))"

definition entry_version :: "ContextId \<Rightarrow> ('d KernelStore, u64) kop" where
  "entry_version ctx = kbind (get_entry ctx) (\<lambda>e. kret (de_version e))"

definition document_kind :: "'d KernelStore \<Rightarrow> ContextId \<Rightarrow> DocKind option" where
  "document_kind k ctx = map_option de_kind (ks_documents k ctx)"

definition last_block_id :: "('d, 'o, 'f, 'json) kernel_env \<Rightarrow> 'd KernelStore \<Rightarrow> ContextId \<Rightarrow> BlockId option" where
  "last_block_id E k ctx =
     Option.bind (ks_documents k ctx) (\<lambda>e.
       let bs = blocks_ordered (ke_dte E) (de_doc e) in if bs = [] then None else Some (bs_id (last bs)))"

definition kernel_reserve_block_id :: "ContextId \<Rightarrow> PrincipalId \<Rightarrow> ('d KernelStore, BlockId) kop" where
  "kernel_reserve_block_id ctx p =
     on_entry ctx (\<lambda>e. let (doc, i) = reserve_block_id p (de_doc e) in kret i (e\<lparr>de_doc := doc\<rparr>))"

definition kernel_max_tick :: "ContextId \<Rightarrow> ('d KernelStore, Tick option) kop" where
  "kernel_max_tick ctx = kbind (get_entry ctx) (\<lambda>e. kret (max_tick (de_doc e)))"

section \<open>Journal\<close>

definition derive_context_live_status :: "Status list \<Rightarrow> Status" where
  "derive_context_live_status statuses =
     (if \<exists>s \<in> set statuses. s = Status.Running then Status.Running
      else if statuses \<noteq> [] \<and> last statuses = Status.Error then Status.Error
      else Status.Pending)"

definition document_status :: "('d, 'o, 'f, 'json) kernel_env \<Rightarrow> 'd DocumentEntry \<Rightarrow> Status" where
  "document_status E e = derive_context_live_status (map bs_status (blocks_ordered (ke_dte E) (de_doc e)))"

definition live_status :: "('d, 'o, 'f, 'json) kernel_env \<Rightarrow> ContextId \<Rightarrow> 'd KernelStore \<Rightarrow> 'd KernelStore \<times> Status" where
  "live_status E ctx k =
     (case ks_live_status k ctx of
        Some s \<Rightarrow> (k, s)
      | None \<Rightarrow>
          (let s = (case ks_documents k ctx of Some e \<Rightarrow> document_status E e | None \<Rightarrow> Status.Pending)
           in (k\<lparr>ks_live_status := (ks_live_status k)(ctx \<mapsto> s)\<rparr>, s)))"

definition recompute_live_status ::
  "('d, 'o, 'f, 'json) kernel_env \<Rightarrow> ContextId \<Rightarrow> ('d KernelStore, unit) kop" where
  "recompute_live_status E ctx k =
     kret () (case ks_documents k ctx of
                Some e \<Rightarrow> k\<lparr>ks_live_status := (ks_live_status k)(ctx \<mapsto> document_status E e)\<rparr>
              | None \<Rightarrow> k)"

definition journaling_db :: "('d KernelStore, KernelDb option) kop" where
  "journaling_db k =
     (case ks_db k of
        Some db \<Rightarrow> kret (Some db) k
      | None \<Rightarrow> if ks_persistent k then kfail NoDatabaseConfigured k else kret None k)"

definition lift_codec :: "string + 'a \<Rightarrow> ('s, 'a) kop" where
  "lift_codec r = (case r of Inl m \<Rightarrow> kfail (Serialization m) | Inr a \<Rightarrow> kret a)"

text \<open>The call of the checkpoint after a compaction counts as a database call; its result is ignored.\<close>

definition compact_document :: "('d, 'o, 'f, 'json) kernel_env \<Rightarrow> ContextId \<Rightarrow> ('d KernelStore, unit) kop" where
  "compact_document E ctx = kbind journaling_db (\<lambda>db.
     case db of
       None \<Rightarrow> kret ()
     | Some db \<Rightarrow>
         kbind (get_entry ctx) (\<lambda>e.
         kbind (lift_codec (encode_snapshot E (store_snapshot (ke_dte E) (de_doc e)))) (\<lambda>bs.
         kbind (on_db (write_snapshot_and_truncate (ke_fault E) ctx (de_next_journal_seq e) (de_version e) bs
                  (full_text (ke_dte E) (de_doc e))) db) (\<lambda>_ k.
         let k = k\<lparr>ks_db := map_option (\<lambda>db. db\<lparr>kd_calls := kd_calls db + 1\<rparr>) (ks_db k)\<rparr>
         in put_entry ctx (e\<lparr>de_uncompacted_count := 0, de_uncompacted_bytes := 0\<rparr>) k))))"

definition journal_op ::
  "('d, 'o, 'f, 'json) kernel_env \<Rightarrow> u64 \<Rightarrow> ContextId \<Rightarrow> 'o SyncPayload \<Rightarrow> ('d KernelStore, unit) kop" where
  "journal_op E now ctx payload =
     kbind (recompute_live_status E ctx) (\<lambda>_.
     kbind journaling_db (\<lambda>db.
     case db of
       None \<Rightarrow> kret ()
     | Some db \<Rightarrow>
         kbind (lift_codec (encode_payload E payload)) (\<lambda>bs.
         kbind (on_entry ctx (\<lambda>e.
           let e = e\<lparr>de_next_journal_seq := de_next_journal_seq e + 1,
                     de_uncompacted_count := de_uncompacted_count e + 1,
                     de_uncompacted_bytes := de_uncompacted_bytes e + length bs\<rparr>
           in kret (de_next_journal_seq e, de_uncompacted_count e, de_uncompacted_bytes e) e)) (\<lambda>(n, cnt, nbytes).
         kbind (on_db (append_op (ke_fault E) ctx n bs) db) (\<lambda>_ k.
         (case ks_db k of
            None \<Rightarrow> kret () k
          | Some db \<Rightarrow>
              kbind (on_db (touch_context_activity (ke_fault E) ctx (int now)) db) (\<lambda>_.
              if COMPACTION_OP_THRESHOLD \<le> cnt \<or> COMPACTION_BYTE_THRESHOLD \<le> nbytes
              then compact_document E ctx else kret ()) k))))))"

definition write_initial_snapshot :: "('d, 'o, 'f, 'json) kernel_env \<Rightarrow> ContextId \<Rightarrow> ('d KernelStore, unit) kop" where
  "write_initial_snapshot E ctx = kbind journaling_db (\<lambda>db.
     case db of
       None \<Rightarrow> kret ()
     | Some db \<Rightarrow>
         kbind (get_entry ctx) (\<lambda>e.
         kbind (lift_codec (encode_snapshot E (store_snapshot (ke_dte E) (de_doc e)))) (\<lambda>bs.
         on_db (write_snapshot_and_truncate (ke_fault E) ctx 0 (de_version e) bs
                  (full_text (ke_dte E) (de_doc e))) db)))"

end
