(* ===== verification/Kernel_Ops.thy ===== *)
theory Kernel_Ops
  imports Kernel_Store
begin

text \<open>
  The block operations of the kernel's store: insertions, edits, header writes, moves and deletions,
  each journalled and announced; merging and its events; validation of rich content; queries; forks;
  and loading from the database.
\<close>

section \<open>The common shapes\<close>

definition effective_agent :: "PrincipalId option \<Rightarrow> 'd KernelStore \<Rightarrow> PrincipalId" where
  "effective_agent p k = (case p of Some a \<Rightarrow> a | None \<Rightarrow> ks_principal_id k)"

text \<open>A call into the document: its errors are the transparent \<open>Crdt\<close> errors.\<close>

definition crdt :: "('d BlockStore \<Rightarrow> ('d, 'a) outcome option) \<Rightarrow> ('d DocumentEntry, 'a) kop" where
  "crdt f e =
     (case f (de_doc e) of
        None \<Rightarrow> None
      | Some (doc, Inl err) \<Rightarrow> Some (e\<lparr>de_doc := doc\<rparr>, Inl (Crdt err))
      | Some (doc, Inr a) \<Rightarrow> Some (e\<lparr>de_doc := doc\<rparr>, Inr a))"

definition as_agent :: "PrincipalId \<Rightarrow> 'd DocumentEntry \<Rightarrow> 'd DocumentEntry" where
  "as_agent p e = e\<lparr>de_doc := set_principal_id p (de_doc e)\<rparr>"

text \<open>Insertions: insert, read the block back, encode what changed, touch; journal; announce.\<close>

definition insert_body ::
  "('d, 'o, 'f, 'json) kernel_env \<Rightarrow> PrincipalId \<Rightarrow> ('d BlockStore \<Rightarrow> ('d, BlockId) outcome option)
    \<Rightarrow> ('d DocumentEntry, BlockId \<times> BlockSnapshot \<times> 'o SyncPayload \<times> bytes) kop" where
  "insert_body E agent op e0 =
     (let e1 = as_agent agent e0; frontier_before = store_frontier (ke_dte E) (de_doc e1)
      in kbind (crdt op) (\<lambda>i e.
           case get_block_snapshot (ke_dte E) (de_doc e) i of
             None \<Rightarrow> kfail BlockNotFoundAfterInsert e
           | Some snap \<Rightarrow>
               (let ops = store_ops_since (ke_dte E) frontier_before (de_doc e)
                in kbind (lift_codec (encode_payload E ops)) (\<lambda>bs e.
                     kret (i, snap, ops, bs) (entry_touch agent e)) e)) e1)"

definition insert_with ::
  "('d, 'o, 'f, 'json) kernel_env \<Rightarrow> u64 \<Rightarrow> ContextId \<Rightarrow> BlockId option \<Rightarrow> PrincipalId option
    \<Rightarrow> ('d BlockStore \<Rightarrow> ('d, BlockId) outcome option) \<Rightarrow> ('d KernelStore, BlockId) kop" where
  "insert_with E now ctx after_id p op k =
     kbind (on_entry ctx (insert_body E (effective_agent p k) op)) (\<lambda>(i, snap, ops, bs).
     kbind (journal_op E now ctx ops) (\<lambda>_.
     kbind (emit (BlockFlow.Inserted ctx snap after_id bs Local)) (\<lambda>_. kret i))) k"

text \<open>Header writes and the like: change, touch, diff; journal; announce.\<close>

definition mutate_body ::
  "('d, 'o, 'f, 'json) kernel_env \<Rightarrow> PrincipalId \<Rightarrow> ('d BlockStore \<Rightarrow> ('d, unit) outcome)
    \<Rightarrow> ('d DocumentEntry, 'o SyncPayload) kop" where
  "mutate_body E agent op e0 =
     kbind (crdt (\<lambda>s. Some (op s))) (\<lambda>_ e.
       kret (store_ops_since (ke_dte E) (store_frontier (ke_dte E) (de_doc e0)) (de_doc e)) (entry_touch agent e)) e0"

definition mutate_with ::
  "('d, 'o, 'f, 'json) kernel_env \<Rightarrow> u64 \<Rightarrow> ContextId \<Rightarrow> ('d BlockStore \<Rightarrow> ('d, unit) outcome)
    \<Rightarrow> ('d KernelStore, unit) kop" where
  "mutate_with E now ctx op k =
     kbind (on_entry ctx (mutate_body E (ks_principal_id k) op)) (journal_op E now ctx) k"

text \<open>Text edits: under the agent, with the encoded operations and a sequence number in the event.\<close>

definition text_body ::
  "('d, 'o, 'f, 'json) kernel_env \<Rightarrow> PrincipalId \<Rightarrow> ('d BlockStore \<Rightarrow> ('d, unit) outcome)
    \<Rightarrow> ('d DocumentEntry, 'o SyncPayload \<times> bytes) kop" where
  "text_body E agent op e0 =
     kbind (mutate_body E agent op) (\<lambda>ops.
     kbind (lift_codec (encode_payload E ops)) (\<lambda>bs. kret (ops, bs))) (as_agent agent e0)"

definition text_with ::
  "('d, 'o, 'f, 'json) kernel_env \<Rightarrow> u64 \<Rightarrow> ContextId \<Rightarrow> BlockId \<Rightarrow> PrincipalId option
    \<Rightarrow> ('d BlockStore \<Rightarrow> ('d, unit) outcome) \<Rightarrow> ('d KernelStore, unit) kop" where
  "text_with E now ctx i p op k =
     kbind (on_entry ctx (text_body E (effective_agent p k) op)) (\<lambda>(ops, bs).
     kbind (journal_op E now ctx ops) (\<lambda>_ k.
       let (k, n) = next_block_text_seq ctx k in emit (BlockFlow.TextOps ctx i bs Local n) k)) k"

section \<open>Insertions\<close>

definition kernel_insert_block_as where
  "kernel_insert_block_as E now ctx parent after role kind content status ct p =
     insert_with E now ctx after p
       (\<lambda>s. Some (insert_block (ke_dte E) now parent after role kind content status ct s))"

definition kernel_insert_block where
  "kernel_insert_block E now ctx parent after role kind content status ct =
     kernel_insert_block_as E now ctx parent after role kind content status ct None"

text \<open>The tool-use id is written after the insertion, before the block is read back.\<close>

definition with_tool_use_id ::
  "string option \<Rightarrow> ('d, BlockId) outcome \<Rightarrow> ('d, BlockId) outcome" where
  "with_tool_use_id tui r =
     (case r of
        (s, Inr i) \<Rightarrow>
          (case tui of
             None \<Rightarrow> (s, Inr i)
           | Some t \<Rightarrow>
               (case store_set_tool_use_id i (Some t) s of
                  (s, Inl e) \<Rightarrow> (s, Inl e)
                | (s, Inr _) \<Rightarrow> (s, Inr i)))
      | (s, Inl e) \<Rightarrow> (s, Inl e))"

definition kernel_insert_tool_call_as where
  "kernel_insert_tool_call_as E now ctx parent after tool_name tool_input tk p tui role =
     insert_with E now ctx after p (\<lambda>s. Some (with_tool_use_id tui
       (insert_tool_call (ke_dte E) (json_pretty E) now parent after tool_name tool_input tk role s)))"

definition kernel_insert_tool_call where
  "kernel_insert_tool_call E now ctx parent after tool_name tool_input tk =
     kernel_insert_tool_call_as E now ctx parent after tool_name tool_input tk None None None"

definition kernel_insert_tool_result_as where
  "kernel_insert_tool_result_as E now ctx tool_call after content err code tk p tui =
     insert_with E now ctx after p (\<lambda>s. Some (with_tool_use_id tui
       (insert_tool_result_block (ke_dte E) now tool_call after content err code tk s)))"

definition kernel_insert_tool_result where
  "kernel_insert_tool_result E now ctx tool_call after content err code tk =
     kernel_insert_tool_result_as E now ctx tool_call after content err code tk None None"

definition kernel_insert_from_snapshot_as where
  "kernel_insert_from_snapshot_as E now ctx snap after p =
     insert_with E now ctx after p (\<lambda>s. Some (insert_from_snapshot (ke_dte E) snap after s))"

definition kernel_insert_from_snapshot where
  "kernel_insert_from_snapshot E now ctx snap after = kernel_insert_from_snapshot_as E now ctx snap after None"

definition kernel_insert_drift_block_as where
  "kernel_insert_drift_block_as E now ctx parent after content src model dk p =
     insert_with E now ctx after p (insert_drift_block (ke_dte E) now parent after content src model dk)"

definition kernel_insert_drift_block where
  "kernel_insert_drift_block E now ctx parent after content src model dk =
     kernel_insert_drift_block_as E now ctx parent after content src model dk None"

definition kernel_insert_notification_block_as where
  "kernel_insert_notification_block_as E now ctx parent payload summary p =
     insert_with E now ctx parent p (insert_notification_block (ke_dte E) now parent None payload summary)"

definition kernel_insert_resource_block_as where
  "kernel_insert_resource_block_as E now ctx parent payload summary p =
     insert_with E now ctx parent p (insert_resource_block (ke_dte E) now parent None payload summary)"

definition kernel_insert_error_block_as where
  "kernel_insert_error_block_as E now ctx parent payload summary p =
     insert_with E now ctx (Some parent) p (insert_error_block (ke_dte E) now parent (Some parent) payload summary)"

section \<open>Changes\<close>

definition kernel_get_block_snapshot ::
  "('d, 'o, 'f, 'json) kernel_env \<Rightarrow> ContextId \<Rightarrow> BlockId \<Rightarrow> ('d KernelStore, BlockSnapshot option) kop" where
  "kernel_get_block_snapshot E ctx i =
     kbind (get_entry ctx) (\<lambda>e. kret (get_block_snapshot (ke_dte E) (de_doc e) i))"

definition default_metadata :: BlockMetadata where
  "default_metadata = \<lparr>bm_exit_code = None, bm_is_error = False, bm_content_type = ContentType.Plain,
     bm_ephemeral = False, bm_tool_use_id = None, bm_stderr = None\<rparr>"

definition emit_metadata ::
  "('d, 'o, 'f, 'json) kernel_env \<Rightarrow> ContextId \<Rightarrow> BlockId \<Rightarrow> ('d KernelStore, unit) kop" where
  "emit_metadata E ctx i k =
     (let m = (case Option.bind (ks_documents k ctx) (\<lambda>e. get_block_snapshot (ke_dte E) (de_doc e) i) of
                 Some s \<Rightarrow> metadata s | None \<Rightarrow> default_metadata)
      in emit (BlockFlow.MetadataChanged ctx i m Local) k)"

definition kernel_edit_text_as where
  "kernel_edit_text_as E now ctx i pos ins del p =
     text_with E now ctx i p (store_edit_text (ke_dte E) i pos ins del)"

definition kernel_edit_text where
  "kernel_edit_text E now ctx i pos ins del = kernel_edit_text_as E now ctx i pos ins del None"

definition kernel_append_text_as where
  "kernel_append_text_as E now ctx i text p = text_with E now ctx i p (store_append_text (ke_dte E) i text)"

definition kernel_append_text where
  "kernel_append_text E now ctx i text = kernel_append_text_as E now ctx i text None"

definition kernel_set_ephemeral where
  "kernel_set_ephemeral E now ctx i v =
     kbind (mutate_with E now ctx (store_set_ephemeral i v)) (\<lambda>_. emit_metadata E ctx i)"

definition kernel_set_excluded where
  "kernel_set_excluded E now ctx i v =
     kbind (mutate_with E now ctx (store_set_excluded i v)) (\<lambda>_. emit (BlockFlow.ExcludedChanged ctx i v Local))"

definition kernel_move_block where
  "kernel_move_block E now ctx i after =
     kbind (mutate_with E now ctx (move_block i after)) (\<lambda>_. emit (BlockFlow.Moved ctx i after Local))"

definition kernel_set_compacted where
  "kernel_set_compacted E now ctx i v =
     kbind (mutate_with E now ctx (store_set_compacted i v)) (\<lambda>_. emit_metadata E ctx i)"

definition kernel_set_content_type where
  "kernel_set_content_type E now ctx i v =
     kbind (mutate_with E now ctx (store_set_content_type i v)) (\<lambda>_. emit_metadata E ctx i)"

definition kernel_set_exit_code where
  "kernel_set_exit_code E now ctx i v =
     kbind (mutate_with E now ctx (store_set_exit_code i v)) (\<lambda>_. emit_metadata E ctx i)"

definition kernel_set_stderr where
  "kernel_set_stderr E now ctx i v =
     kbind (mutate_with E now ctx (store_set_stderr i v)) (\<lambda>_. emit_metadata E ctx i)"

definition kernel_set_signature where
  "kernel_set_signature E now ctx i v = mutate_with E now ctx (store_set_signature i v)"

definition kernel_set_output where
  "kernel_set_output E now ctx i v =
     kbind (mutate_with E now ctx (store_set_output i v)) (\<lambda>_. emit (BlockFlow.OutputChanged ctx i v Local))"

definition kernel_set_tool_use_id where
  "kernel_set_tool_use_id E now ctx i v =
     kbind (mutate_with E now ctx (store_set_tool_use_id i v)) (\<lambda>_. emit_metadata E ctx i)"

definition kernel_set_collapsed where
  "kernel_set_collapsed E now ctx i v =
     kbind (mutate_with E now ctx (store_set_collapsed i v)) (\<lambda>_. emit (BlockFlow.CollapsedChanged ctx i v Local))"

definition kernel_delete_block where
  "kernel_delete_block E now ctx i =
     kbind (mutate_with E now ctx (delete_block i)) (\<lambda>_. emit (BlockFlow.Deleted ctx i Local))"

section \<open>Validation of rich content\<close>

definition u32_of :: "usize \<Rightarrow> nat" where
  "u32_of n = n mod 2 ^ 32"

definition abc_error :: "Feedback \<Rightarrow> ErrorPayload \<times> string" where
  "abc_error f =
     (\<lparr>ep_category = ErrorCategory.Parse,
       ep_severity = (if fb_level f = FeedbackLevel.Error then ErrorSeverity.Error else ErrorSeverity.Warning),
       ep_code = None, ep_detail = Some (fb_message f),
       ep_span = Some \<lparr>es_line = u32_of (fb_line f), es_column = u32_of (fb_column f),
         es_length = (case fb_span f of Some (a, b) \<Rightarrow> u32_of (b - a) | None \<Rightarrow> 0)\<rparr>,
       ep_source_kind = Some BlockKind.Text\<rparr>,
      (case fb_suggestion f of
         Some h \<Rightarrow> fb_message f @ '' (hint: '' @ h @ '')''
       | None \<Rightarrow> fb_message f))"

definition validate_abc :: "('d, 'o, 'f, 'json) kernel_env \<Rightarrow> string \<Rightarrow> (ErrorPayload \<times> string) list" where
  "validate_abc E content =
     map abc_error (filter (\<lambda>f. fb_level f \<in> {FeedbackLevel.Error, FeedbackLevel.Warning}) (abc_parse E content))"

definition validate_svg :: "('d, 'o, 'f, 'json) kernel_env \<Rightarrow> string \<Rightarrow> (ErrorPayload \<times> string) list" where
  "validate_svg E content =
     (case usvg_parse E content of
        Parsed \<Rightarrow> []
      | ParseFailed m \<Rightarrow>
          [(\<lparr>ep_category = ErrorCategory.Parse, ep_severity = ErrorSeverity.Error, ep_code = None,
             ep_detail = Some m, ep_span = None, ep_source_kind = Some BlockKind.Text\<rparr>,
            ''SVG parse error: '' @ m)]
      | ParserPanicked \<Rightarrow>
          [(\<lparr>ep_category = ErrorCategory.Kernel, ep_severity = ErrorSeverity.Fatal,
             ep_code = Some ''svg.validator_panic'',
             ep_detail = Some (''usvg::Tree::from_str panicked '' @ [CHR 0xE2, CHR 0x80, CHR 0x94] @
               '' the SVG content is likely severely malformed''),
             ep_span = None, ep_source_kind = Some BlockKind.Text\<rparr>,
            ''SVG validator panicked (malformed input)'')])"

definition error_key :: "ErrorPayload \<Rightarrow> string \<Rightarrow> string option \<times> nat \<times> string" where
  "error_key e content = (ep_code e, (case ep_span e of Some s \<Rightarrow> es_line s | None \<Rightarrow> 0), content)"

text \<open>\<open>let _ = ...\<close>: the state changes stay, the result is dropped.\<close>

definition ignored :: "('s, 'a) kop \<Rightarrow> ('s, unit) kop" where
  "ignored m s = (case m s of None \<Rightarrow> None | Some (s', _) \<Rightarrow> kret () s')"

fun each :: "('a \<Rightarrow> ('s, unit) kop) \<Rightarrow> 'a list \<Rightarrow> ('s, unit) kop" where
  "each f [] = kret ()"
| "each f (x # xs) = kbind (f x) (\<lambda>_. each f xs)"

definition error_children ::
  "('d, 'o, 'f, 'json) kernel_env \<Rightarrow> BlockId \<Rightarrow> 'd DocumentEntry \<Rightarrow> BlockSnapshot list" where
  "error_children E i e =
     filter (\<lambda>b. bs_kind b = BlockKind.Error \<and> bs_parent_id b = Some i \<and> \<not> bs_compacted b)
       (blocks_ordered (ke_dte E) (de_doc e))"

definition sync_errors ::
  "('d, 'o, 'f, 'json) kernel_env \<Rightarrow> u64 \<Rightarrow> ContextId \<Rightarrow> BlockId \<Rightarrow> (ErrorPayload \<times> string) list
    \<Rightarrow> BlockSnapshot list \<Rightarrow> ('d KernelStore, unit) kop" where
  "sync_errors E now ctx i new_errors existing =
     (let existing_keys = List.map_filter (\<lambda>b. map_option (\<lambda>e. error_key e (bs_content b)) (bs_error b)) existing;
          new_keys = map (\<lambda>(e, s). error_key e s) new_errors
      in kbind (each (\<lambda>b.
                case bs_error b of
                  Some e \<Rightarrow>
                    (if error_key e (bs_content b) \<notin> set new_keys
                     then ignored (kernel_delete_block E now ctx (bs_id b)) else kret ())
                | None \<Rightarrow> kret ()) existing)
           (\<lambda>_. each (\<lambda>(e, s).
                if error_key e s \<notin> set existing_keys
                then ignored (kernel_insert_error_block_as E now ctx i e s (Some (ke_system E))) else kret ()) new_errors))"

definition validate_content_and_attach_errors ::
  "('d, 'o, 'f, 'json) kernel_env \<Rightarrow> u64 \<Rightarrow> ContextId \<Rightarrow> BlockId \<Rightarrow> ('d KernelStore, unit) kop" where
  "validate_content_and_attach_errors E now ctx i =
     kbind (get_entry ctx) (\<lambda>e.
       case get_block_snapshot (ke_dte E) (de_doc e) i of
         None \<Rightarrow> kfail BlockNotFoundAfterInsert
       | Some snap \<Rightarrow>
           (case bs_content_type snap of
              ContentType.Abc \<Rightarrow> sync_errors E now ctx i (validate_abc E (bs_content snap)) (error_children E i e)
            | ContentType.Svg \<Rightarrow> sync_errors E now ctx i (validate_svg E (bs_content snap)) (error_children E i e)
            | _ \<Rightarrow> kret ()))"

definition kernel_set_status ::
  "('d, 'o, 'f, 'json) kernel_env \<Rightarrow> u64 \<Rightarrow> ContextId \<Rightarrow> BlockId \<Rightarrow> Status \<Rightarrow> ('d KernelStore, unit) kop" where
  "kernel_set_status E now ctx i status =
     kbind (mutate_with E now ctx (store_set_status i status)) (\<lambda>_.
     kbind (emit (BlockFlow.StatusChanged ctx i status Local)) (\<lambda>_ k.
       let ct = map_option bs_content_type
                  (Option.bind (ks_documents k ctx) (\<lambda>e. get_block_snapshot (ke_dte E) (de_doc e) i))
       in if status = Status.Done \<and> ct \<in> {Some ContentType.Abc, Some ContentType.Svg}
          then ignored (validate_content_and_attach_errors E now ctx i) k else kret () k))"

section \<open>Merging\<close>

definition kernel_ops_since where
  "kernel_ops_since E ctx frontier = kbind (get_entry ctx) (\<lambda>e. kret (store_ops_since (ke_dte E) frontier (de_doc e)))"

definition inserted_events :: "ContextId \<Rightarrow> BlockSnapshot list \<Rightarrow> BlockSnapshot list \<Rightarrow> bytes \<Rightarrow> BlockFlow list" where
  "inserted_events ctx before after ops =
     List.map_filter (\<lambda>(n, s).
       if bs_id s \<notin> bs_id ` set before
       then Some (BlockFlow.Inserted ctx s (if 0 < n then Some (bs_id (after ! (n - 1))) else None) ops Remote)
       else None) (enumerate 0 after)"

definition deleted_events :: "ContextId \<Rightarrow> BlockSnapshot list \<Rightarrow> BlockSnapshot list \<Rightarrow> BlockFlow list" where
  "deleted_events ctx before after =
     map (\<lambda>s. BlockFlow.Deleted ctx (bs_id s) Remote) (filter (\<lambda>s. bs_id s \<notin> bs_id ` set after) before)"

definition changed_events ::
  "ContextId \<Rightarrow> bytes \<Rightarrow> BlockSnapshot \<Rightarrow> BlockSnapshot \<Rightarrow> 'd KernelStore \<Rightarrow> 'd KernelStore \<times> BlockFlow list" where
  "changed_events ctx ops old s k =
     (let es = (if bs_status old \<noteq> bs_status s then [BlockFlow.StatusChanged ctx (bs_id s) (bs_status s) Remote] else [])
             @ (if bs_output old \<noteq> bs_output s then [BlockFlow.OutputChanged ctx (bs_id s) (bs_output s) Remote] else [])
             @ (if bs_collapsed old \<noteq> bs_collapsed s then [BlockFlow.CollapsedChanged ctx (bs_id s) (bs_collapsed s) Remote] else [])
      in if bs_content old \<noteq> bs_content s
         then (let (k, n) = next_block_text_seq ctx k in (k, es @ [BlockFlow.TextOps ctx (bs_id s) ops Remote n]))
         else (k, es))"

definition diff_block_events ::
  "ContextId \<Rightarrow> BlockSnapshot list \<Rightarrow> BlockSnapshot list \<Rightarrow> bytes \<Rightarrow> 'd KernelStore \<Rightarrow> 'd KernelStore \<times> BlockFlow list" where
  "diff_block_events ctx before after ops k =
     fold (\<lambda>s (k, es).
         case map_of (rev (map (\<lambda>b. (bs_id b, b)) before)) (bs_id s) of
           Some old \<Rightarrow> (let (k, new) = changed_events ctx ops old s k in (k, es @ new))
         | None \<Rightarrow> (k, es))
       after (k, inserted_events ctx before after ops @ deleted_events ctx before after)"

definition merge_body ::
  "('d, 'o, 'f, 'json) kernel_env \<Rightarrow> 'o SyncPayload
    \<Rightarrow> ('d DocumentEntry, u64 \<times> BlockSnapshot list \<times> BlockSnapshot list \<times> 'o SyncPayload \<times> bytes) kop" where
  "merge_body E payload e0 =
     kbind (crdt (\<lambda>s. Some (store_merge_ops (ke_dte E) payload s))) (\<lambda>_ e.
       let v = st_version (de_doc e);
           ops = store_ops_since (ke_dte E) (store_frontier (ke_dte E) (de_doc e0)) (de_doc e)
       in kbind (lift_codec (encode_payload E ops)) (\<lambda>bs.
            kret (v, blocks_ordered (ke_dte E) (de_doc e0), blocks_ordered (ke_dte E) (de_doc e), ops, bs))
          (e\<lparr>de_version := v\<rparr>)) e0"

definition kernel_merge_ops ::
  "('d, 'o, 'f, 'json) kernel_env \<Rightarrow> u64 \<Rightarrow> ContextId \<Rightarrow> 'o SyncPayload \<Rightarrow> ('d KernelStore, u64) kop" where
  "kernel_merge_ops E now ctx payload =
     kbind (on_entry ctx (merge_body E payload)) (\<lambda>(v, before, after, ops, bs) k.
       let (k, events) = diff_block_events ctx before after bs k
       in kbind (each emit events) (\<lambda>_. kbind (journal_op E now ctx ops) (\<lambda>_. kret v)) k)"

section \<open>Queries\<close>

definition block_snapshots where
  "block_snapshots E ctx = kbind (get_entry ctx) (\<lambda>e. kret (blocks_ordered (ke_dte E) (de_doc e)))"

definition get_blocks_by_ids where
  "get_blocks_by_ids E ctx ids =
     kbind (get_entry ctx) (\<lambda>e. kret (List.map_filter (get_block_snapshot (ke_dte E) (de_doc e)) ids))"

definition fresh_children :: "'d BlockStore \<Rightarrow> BlockId \<Rightarrow> BlockId set \<Rightarrow> BlockId list" where
  "fresh_children s i seen = rev (remdups (rev (filter (\<lambda>c. c \<notin> seen) (get_children s i))))"

lemma fresh_children_props:
  "distinct (fresh_children s i seen)" "set (fresh_children s i seen) \<subseteq> fst ` set (st_blocks s) - seen"
  "set (fresh_children s i seen) = set (get_children s i) - seen"
  by (force simp: fresh_children_def get_children_def live_entries_def)+

function descend :: "'d BlockStore \<Rightarrow> nat \<Rightarrow> (BlockId \<times> nat) list \<Rightarrow> BlockId set \<Rightarrow> BlockId set" where
  "descend s max_depth [] seen = seen"
| "descend s max_depth ((i, depth) # queue) seen =
     (if 0 < max_depth \<and> max_depth \<le> depth then descend s max_depth queue seen
      else
        (let new = fresh_children s i seen
         in descend s max_depth (queue @ map (\<lambda>c. (c, depth + 1)) new) (seen \<union> set new)))"
  by pat_completeness auto

termination descend
proof (relation "measure (\<lambda>(s, m, queue, seen). 2 * card (fst ` set (st_blocks s) - seen) + length queue)", goal_cases)
  case (3 s m i depth queue seen new)
  note f = fresh_children_props [of s i seen]
  have "fst ` set (st_blocks s) - seen - set new = fst ` set (st_blocks s) - (seen \<union> set new)" by auto
  then have "card (fst ` set (st_blocks s) - (seen \<union> set new)) = card (fst ` set (st_blocks s) - seen) - length new"
    using f(1,2) 3(2) by (metis List.finite_set card_Diff_subset distinct_card)
  moreover have "length new \<le> card (fst ` set (st_blocks s) - seen)"
    using f(1,2) 3(2) by (metis List.finite_set card_mono distinct_card finite_Diff finite_imageI)
  ultimately show ?case by simp
qed auto

definition compute_descendants :: "'d BlockStore \<Rightarrow> BlockId \<Rightarrow> nat \<Rightarrow> BlockId set" where
  "compute_descendants s root max_depth = descend s max_depth [(root, 0)] {root}"

definition query_blocks ::
  "('d, 'o, 'f, 'json) kernel_env \<Rightarrow> ContextId \<Rightarrow> BlockFilter \<Rightarrow> ('d KernelStore, BlockSnapshot list) kop" where
  "query_blocks E ctx f =
     kbind (get_entry ctx) (\<lambda>e.
       let within = (case bf_parent_id f of
                       Some root \<Rightarrow> (\<lambda>b. bs_id b \<in> compute_descendants (de_doc e) root (bf_max_depth f))
                     | None \<Rightarrow> (\<lambda>b. True));
           hits = filter (\<lambda>b. within b \<and> filter_matches f b) (blocks_ordered (ke_dte E) (de_doc e))
       in kret (if 0 < bf_limit f then take (bf_limit f) hits else hits))"

definition context_sync_state where
  "context_sync_state E ctx =
     kbind (get_entry ctx) (\<lambda>e.
     kbind (lift_codec (encode_snapshot E (store_snapshot (ke_dte E) (de_doc e)))) (\<lambda>bs. kret (bs, de_version e)))"

definition get_content where
  "get_content E ctx = kbind (get_entry ctx) (\<lambda>e. kret (full_text (ke_dte E) (de_doc e)))"

definition get_document_state where
  "get_document_state E ctx =
     kbind (get_entry ctx) (\<lambda>e. kret (de_kind e, de_language e, blocks_ordered (ke_dte E) (de_doc e), de_version e))"

section \<open>Forks\<close>

definition install_fork ::
  "('d, 'o, 'f, 'json) kernel_env \<Rightarrow> u64 \<Rightarrow> ContextId \<Rightarrow> 'd DocumentEntry \<Rightarrow> 'd BlockStore \<Rightarrow> ('d KernelStore, unit) kop" where
  "install_fork E now new_id src forked k =
     kbind (case ks_db k of
              None \<Rightarrow> kret ()
            | Some db \<Rightarrow> on_db (insert_document (ke_fault E) (document_row E now new_id (de_kind src) (de_language src) None k)) db)
       (\<lambda>_. kbind (put_entry new_id (entry_of_store forked (de_kind src) (de_language src) (ks_principal_id k) 0 0 0))
       (\<lambda>_. write_initial_snapshot E new_id)) k"

definition fork_with ::
  "('d, 'o, 'f, 'json) kernel_env \<Rightarrow> u64 \<Rightarrow> ContextId \<Rightarrow> ContextId \<Rightarrow> u64 option \<Rightarrow> ('d BlockStore \<Rightarrow> 'd BlockStore)
    \<Rightarrow> ('d KernelStore, unit) kop" where
  "fork_with E now source_id new_id before build k =
     (if ks_documents k new_id \<noteq> None then kfail (DocumentAlreadyExists new_id) k
      else kbind (get_entry source_id) (\<lambda>src.
        case before of
          Some b \<Rightarrow>
            (if now < b
             then kfail (Validation (''Requested timestamp '' @ show_nat b @ '' is in the future (now: '' @ show_nat now @ '')''))
             else install_fork E now new_id src (build (de_doc src)))
        | None \<Rightarrow> install_fork E now new_id src (build (de_doc src))) k)"

definition fork_document where
  "fork_document E now source_id new_id k =
     fork_with E now source_id new_id None (fork (ke_dte E) new_id (ks_principal_id k)) k"

definition fork_document_at_version where
  "fork_document_at_version E now source_id new_id before k =
     fork_with E now source_id new_id (Some before)
       (fork_at_version (ke_dte E) new_id (ks_principal_id k) before) k"

definition fork_document_filtered where
  "fork_document_filtered E now source_id new_id before f k =
     fork_with E now source_id new_id (Some before)
       (fork_filtered (ke_dte E) (ke_uuid E) new_id (ks_principal_id k) before f) k"

section \<open>Loading\<close>

fun replay_oplog ::
  "('d, 'o, 'f, 'json) kernel_env \<Rightarrow> (nat \<times> bytes) list \<Rightarrow> 'd BlockStore \<Rightarrow> 'd BlockStore option" where
  "replay_oplog E [] s = Some s"
| "replay_oplog E ((n, bs) # rest) s =
     (case decode_payload E bs of
        Inl _ \<Rightarrow> None
      | Inr p \<Rightarrow>
          (case store_merge_ops (ke_dte E) p s of
             (_, Inl _) \<Rightarrow> None
           | (s', Inr _) \<Rightarrow> replay_oplog E rest s'))"

definition base_store ::
  "('d, 'o, 'f, 'json) kernel_env \<Rightarrow> u64 \<Rightarrow> ContextId \<Rightarrow> PrincipalId \<Rightarrow> DocSnapshotRow option
    \<Rightarrow> ('d BlockStore \<times> nat) option" where
  "base_store E now ctx p row =
     (case row of
        None \<Rightarrow> Some (store_new ctx p, 0)
      | Some r \<Rightarrow>
          (case decode_snapshot E (sr_state r) of
             Inl _ \<Rightarrow> None
           | Inr snap \<Rightarrow>
               (case store_from_snapshot (ke_dte E) now snap p of
                  Inl _ \<Rightarrow> None
                | Inr s \<Rightarrow> Some (s, sr_seq r))))"

text \<open>One document: \<open>None\<close> when its snapshot or its log cannot be read and it is left out.\<close>

definition load_document ::
  "('d, 'o, 'f, 'json) kernel_env \<Rightarrow> u64 \<Rightarrow> PrincipalId \<Rightarrow> DocumentRow \<Rightarrow> KernelDb \<Rightarrow> 'd DocumentEntry option dbres" where
  "load_document E now p row db =
     (let ctx = dr_document_id row; (db, r) = load_latest_snapshot (ke_fault E) ctx db in
      case (case r of Inl _ \<Rightarrow> None | Inr sr \<Rightarrow> base_store E now ctx p sr) of
        None \<Rightarrow> (db, Inr None)
      | Some (s, base_seq) \<Rightarrow>
          (case load_oplog_since (ke_fault E) ctx base_seq db of
             (db, Inl e) \<Rightarrow> (db, Inl e)
           | (db, Inr es) \<Rightarrow>
               (db, Inr (map_option (\<lambda>s.
                  entry_of_store s (dr_doc_kind row) (dr_language row) p (fold max (map fst es) base_seq)
                    (length es) (sum_list (map (length \<circ> snd) es)))
                  (replay_oplog E es s)))))"

fun load_documents ::
  "('d, 'o, 'f, 'json) kernel_env \<Rightarrow> u64 \<Rightarrow> DocumentRow list \<Rightarrow> KernelDb \<Rightarrow> ('d KernelStore, unit) kop" where
  "load_documents E now [] db k = kret () (k\<lparr>ks_db := Some db\<rparr>)"
| "load_documents E now (row # rows) db k =
     (case load_document E now (ks_principal_id k) row db of
        (db, Inl e) \<Rightarrow> kfail (Db (KernelDbError_to_string e)) (k\<lparr>ks_db := Some db\<rparr>)
      | (db, Inr None) \<Rightarrow> load_documents E now rows db k
      | (db, Inr (Some e)) \<Rightarrow>
          load_documents E now rows db (k\<lparr>ks_documents := (ks_documents k)(dr_document_id row \<mapsto> e)\<rparr>))"

definition load_from_db :: "('d, 'o, 'f, 'json) kernel_env \<Rightarrow> u64 \<Rightarrow> ('d KernelStore, unit) kop" where
  "load_from_db E now k =
     (case ks_db k of
        None \<Rightarrow> kret () k
      | Some db \<Rightarrow>
          (case list_documents (ke_fault E) db of
             (db, Inl e) \<Rightarrow> kfail (Db (KernelDbError_to_string e)) (k\<lparr>ks_db := Some db\<rparr>)
           | (db, Inr rows) \<Rightarrow> load_documents E now rows db k))"

definition load_one_from_db :: "('d, 'o, 'f, 'json) kernel_env \<Rightarrow> u64 \<Rightarrow> ContextId \<Rightarrow> ('d KernelStore, bool) kop" where
  "load_one_from_db E now ctx k =
     (case ks_db k of
        None \<Rightarrow> kfail NoDatabaseConfigured k
      | Some db \<Rightarrow>
          if ks_documents k ctx \<noteq> None then kret False k
          else kbind (on_db (get_document (ke_fault E) ctx) db) (\<lambda>row k.
            case (row, ks_db k) of
              (Some row, Some db) \<Rightarrow>
                kbind (on_db (load_document E now (ks_principal_id k) row) db) (\<lambda>r.
                  case r of None \<Rightarrow> kret False | Some e \<Rightarrow> kbind (put_entry ctx e) (\<lambda>_. kret True)) k
            | _ \<Rightarrow> kret False k) k)"

end
