(* ===== verification/Journal.thy ===== *)
theory Journal
  imports Journal_Ops Kernel_Ops
begin

text \<open>
  The document log of the kernel.  Replaying the log of a document on an empty store, as
  \<open>load_from_db\<close> does, gives the document back when every change was one the payload carries; changes
  the payload does not carry are lost.
\<close>

section \<open>Replaying the log\<close>

text \<open>The codec decodes what it encoded.\<close>

definition codec_ok :: "('d, 'o, 'f, 'json) kernel_env \<Rightarrow> bool" where
  "codec_ok E \<longleftrightarrow> (\<forall>p bs. encode_payload E p = Inr bs \<longrightarrow> decode_payload E bs = Inr p)
     \<and> (\<forall>sn bs. encode_snapshot E sn = Inr bs \<longrightarrow> decode_snapshot E bs = Inr sn)"

definition logged :: "('d, 'o, 'f, 'json) kernel_env \<Rightarrow> (nat \<times> bytes) list \<Rightarrow> 'o SyncPayload list \<Rightarrow> bool" where
  "logged E rows js \<longleftrightarrow> list_all2 (\<lambda>r p. encode_payload E p = Inr (snd r)) rows js"

lemma replay_snoc:
  assumes "replay_oplog E rows s = Some s1" and "decode_payload E bs = Inr p" and "store_merge_ops (ke_dte E) p s1 = (s2, Inr ())"
  shows "replay_oplog E (rows @ [(n, bs)]) s = Some s2"
  using assms by (induction E rows s rule: replay_oplog.induct) (auto split: sum.splits prod.splits)

lemma replay_keeps_ok: "replay_oplog E rows s = Some s1 \<Longrightarrow> store_ok s \<Longrightarrow> store_ok s1"
proof (induction E rows s rule: replay_oplog.induct)
  case (2 E n bs rest s)
  obtain p s2 u where p: "decode_payload E bs = Inr p" "store_merge_ops (ke_dte E) p s = (s2, Inr u)" "replay_oplog E rest s2 = Some s1"
    using 2(2) by (auto split: sum.splits prod.splits)
  have "store_ok s2" using safe_okD [OF safe_store_merge_ops 2(3), of "ke_dte E" p] p(2) by simp
  from 2(1) [OF p(1) p(2) [symmetric] refl p(3) this] show ?case .
qed simp

lemma journal_mirrored:
  assumes D: "dte_ok (ke_dte E)" "replica_ok (ke_dte E) rep" and E: "codec_ok E"
  shows "journalled (ke_dte E) ctx s js \<Longrightarrow> logged E rows js \<Longrightarrow>
    \<exists>r. replay_oplog E rows (store_new ctx q) = Some r \<and> mirrored rep s r"
proof (induction arbitrary: rows rule: journalled.induct)
  case (start p)
  then show ?case by (simp add: logged_def mirrored_def store_new_def bt_get_def bt_ok_def)
next
  case (quiet s js s')
  then show ?case by (simp add: mirrored_def)
next
  case (change s js s')
  let ?p = "store_ops_since (ke_dte E) (store_frontier (ke_dte E) s) s'"
  from change.prems obtain rows0 n bs where rows: "rows = rows0 @ [(n, bs)]" "logged E rows0 js" "encode_payload E ?p = Inr bs"
    by (auto simp: logged_def list_all2_append2 list_all2_Cons2)
  from change.IH [OF rows(2)] obtain r where r: "replay_oplog E rows0 (store_new ctx q) = Some r" "mirrored rep s r" by blast
  from durable_replayed [OF D change.hyps r(2)] obtain r' where
    r': "store_merge_ops (ke_dte E) ?p r = (r', Inr ())" "mirrored rep s' r'" by blast
  have "decode_payload E bs = Inr ?p" using E rows(3) by (simp add: codec_ok_def)
  from replay_snoc [OF r(1) this r'(1)] r'(2) rows(1) show ?case by blast
qed

text \<open>
  Replaying the log of a document on an empty store succeeds, and the result satisfies the store
  invariant and has the document's live blocks with their text and headers, its order and its
  tombstones.
\<close>

theorem journal_replays:
  assumes "dte_ok (ke_dte E)" and "replica_ok (ke_dte E) rep" and "codec_ok E"
    and "journalled (ke_dte E) ctx s js" and "logged E rows js"
  shows "\<exists>r. replay_oplog E rows (store_new ctx q) = Some r \<and> store_ok r
     \<and> (\<forall>i. get_block_snapshot (ke_dte E) r i = get_block_snapshot (ke_dte E) s i)
     \<and> block_ids_ordered r = block_ids_ordered s
     \<and> (\<forall>i. map_option bc_deleted (bt_get (st_blocks r) i) = map_option bc_deleted (bt_get (st_blocks s) i))"
proof -
  obtain r where r: "replay_oplog E rows (store_new ctx q) = Some r" "mirrored rep s r"
    using journal_mirrored [OF assms, of q] by blast
  have ok: "store_ok r" by (rule replay_keeps_ok [OF r(1) store_ok_new])
  have view: "get_block_snapshot (ke_dte E) r i = get_block_snapshot (ke_dte E) s i" for i
    by (rule mirrored_view [OF assms(2) r(2)])
  have "block_ids_ordered r = block_ids_ordered s"
    using view_determines_order(1) [OF _ _ view] ok journalled_ok [OF assms(4)] by (simp add: store_ok_def)
  moreover have "map_option bc_deleted (bt_get (st_blocks r) i) = map_option bc_deleted (bt_get (st_blocks s) i)" for i
    using r(2) [unfolded mirrored_def, THEN conjunct2, rule_format, of i] by (auto split: option.splits)
  ultimately show ?thesis using r(1) ok view by blast
qed

text \<open>A codec for the witnesses: a payload is written as its place in a list.\<close>

definition journal_env :: "string option SyncPayload list \<Rightarrow> (string option, string option, unit, string) kernel_env" where
  "journal_env ps = \<lparr>ke_dte = reference_dte, ke_uuid = reference_uuid_lib,
     encode_payload = (\<lambda>x. case position (\<lambda>y. y = x) ps of Some n \<Rightarrow> Inr (replicate n CHR ''x'') | None \<Rightarrow> Inl ''too large''),
     decode_payload = (\<lambda>bs. if length bs < length ps then Inr (ps ! length bs) else Inl ''not a payload''),
     encode_snapshot = (\<lambda>_. Inl ''too large''), decode_snapshot = (\<lambda>_. Inl ''not a snapshot''),
     ke_fault = (\<lambda>_. None), abc_parse = (\<lambda>_. []), usvg_parse = (\<lambda>_. Parsed), json_pretty = Inr, ke_system = 0, ke_new_workspace = 0\<rparr>"

definition journal_rows :: "string option SyncPayload list \<Rightarrow> (nat \<times> bytes) list" where
  "journal_rows ps = map (\<lambda>p. (0, projr (encode_payload (journal_env ps) p))) ps"

lemma journal_env_ok: "ke_dte (journal_env ps) = reference_dte" "codec_ok (journal_env ps)" "logged (journal_env ps) (journal_rows ps) ps"
proof -
  show "ke_dte (journal_env ps) = reference_dte" by (simp add: journal_env_def)
  show "codec_ok (journal_env ps)"
    by (auto simp: codec_ok_def journal_env_def dest: position_SomeD split: option.splits)
  show "logged (journal_env ps) (journal_rows ps) ps"
    by (auto simp: logged_def journal_rows_def list_all2_conv_all_nth journal_env_def position_None_iff split: option.splits)
qed

lemma reference_dte_sel:
  "get_text reference_dte d = d" "text_insert reference_dte d a pos t = map_option (\<lambda>u. take_chars pos u @ t @ drop_chars pos u) d"
  "text_delete reference_dte d a pos n = map_option (\<lambda>u. take_chars pos u @ drop_chars (pos + n) u) d"
  "create_agent reference_dte d u = (d, 0)" "document_new reference_dte = None"
  "ops_since_owned reference_dte d f = d" "ops_is_empty reference_dte x = (x = None)"
  "doc_merge_ops reference_dte d x = (if x = None then d else x, Merged)"
  by (simp_all add: reference_dte_def)

lemma reference_replica: "replica_ok reference_dte (=)"
proof -
  have "edited reference_dte d d' \<Longrightarrow> d' = None \<Longrightarrow> d = None" for d d'
    by (induction rule: edited.induct) (simp_all add: reference_dte_sel)
  then show ?thesis unfolding replica_ok_def reference_dte_sel by auto
qed

text \<open>A document with one note of a given status.\<close>

definition posted :: "Status \<Rightarrow> (string option, BlockId) outcome" where
  "posted st = insert_block reference_dte 7 None None Role.User BlockKind.Text ''hi'' st Plain (store_new 1 2)"

abbreviation noted :: "Status \<Rightarrow> string option BlockStore" where
  "noted st \<equiv> fst (posted st)"

abbreviation note_payload :: "Status \<Rightarrow> string option SyncPayload" where
  "note_payload st \<equiv> store_ops_since reference_dte (store_frontier reference_dte (store_new 1 2)) (noted st)"

lemma posted_run: "posted st = (noted st, Inr (BlockId 1 2 0))"
  by (simp add: posted_def insert_block_def new_block_id_def reserve_block_id_def next_seq_for_def store_new_def Let_def case_prod_unfold)

lemma noted_journalled: "journalled reference_dte 1 (noted st) [note_payload st]"
proof -
  have "insert_step reference_dte None [None, None] (store_new 1 2) (noted st, Inr (BlockId 1 2 0))"
    using insert_step.block [of reference_dte None None "store_new 1 2"] posted_run [of st] unfolding posted_def by metis
  from journalled.change [OF journalled.start durable.ins [OF this]] show ?thesis by simp
qed

theorem journal_replays_witness:
  "map_option block_ids_ordered (replay_oplog (journal_env [note_payload Status.Done]) (journal_rows [note_payload Status.Done]) (store_new 1 9))
     = Some [BlockId 1 2 0]"
proof -
  let ?js = "[note_payload Status.Done]"
  obtain r where "replay_oplog (journal_env ?js) (journal_rows ?js) (store_new 1 9) = Some r"
      "block_ids_ordered r = block_ids_ordered (noted Status.Done)"
    using journal_replays [of "journal_env ?js" "(=)" 1 "noted Status.Done" ?js "journal_rows ?js" 9]
      journal_env_ok [of ?js] noted_journalled reference_dte_ok reference_replica by auto
  moreover have "block_ids_ordered (noted Status.Done) = [BlockId 1 2 0]" by code_simp
  ultimately show ?thesis by simp
qed

section \<open>Changes that leave no trace\<close>

inductive untraced :: "'d BlockStore \<Rightarrow> 'd BlockStore \<Rightarrow> bool" where
  move: "move_block i after s = (s', r) \<Longrightarrow> untraced s s'"
| set_output: "store_set_output i od s = (s', r) \<Longrightarrow> untraced s s'"
| stderr: "store_set_stderr i x s = (s', r) \<Longrightarrow> untraced s s'"
| signature: "store_set_signature i x s = (s', r) \<Longrightarrow> untraced s s'"
| tool_use: "store_set_tool_use_id i x s = (s', r) \<Longrightarrow> untraced s s'"

lemma untraced_shape:
  assumes "untraced s s'"
  obtains i f where "st_blocks s' = bt_modify i f (st_blocks s)"
    and "\<And>b. bc_header (f b) = bc_header b" "\<And>b. bc_doc (f b) = bc_doc b" "\<And>b. bc_deleted (f b) = bc_deleted b"
proof -
  have same: "st_blocks s = bt_modify i (\<lambda>b. b) (st_blocks s)" for i by (simp add: bt_modify_def case_prod_unfold)
  from assms show ?thesis
  proof (cases rule: untraced.cases)
    case (move i after r)
    then have "s' = s \<or> s' = update_block i (set_order_key (calc_order_key s after None)) s"
      by (auto simp: move_block_def split: if_splits option.splits)
    then show ?thesis using same that by (fastforce simp: update_block_def set_order_key_def)
  next
    case (set_output i od r)
    then have "s' = s \<or> s' = update_block i (content_set_output od) s"
      by (auto simp: store_set_output_def on_live_block_def split: if_splits)
    then show ?thesis using same that by (fastforce simp: update_block_def content_set_output_def)
  next
    case (stderr i x r)
    then have "s' = s \<or> s' = update_block i (content_set_stderr x) s"
      by (auto simp: store_set_stderr_def on_live_block_def split: if_splits)
    then show ?thesis using same that by (fastforce simp: update_block_def content_set_stderr_def)
  next
    case (signature i x r)
    then have "s' = s \<or> s' = update_block i (content_set_signature x) s"
      by (auto simp: store_set_signature_def on_live_block_def split: if_splits)
    then show ?thesis using same that by (fastforce simp: update_block_def content_set_signature_def)
  next
    case (tool_use i x r)
    then have "s' = s \<or> s' = update_block i (content_set_tool_use_id x) s"
      by (auto simp: store_set_tool_use_id_def on_live_block_def split: if_splits)
    then show ?thesis using same that by (fastforce simp: update_block_def content_set_tool_use_id_def)
  qed
qed

lemma filter_modify:
  assumes "\<And>i b. P i (f b) = P i b" "\<And>i b. P i b \<Longrightarrow> g i (f b) = g i b"
  shows "map (\<lambda>(i, b). g i b) (filter (\<lambda>(i, b). P i b) (bt_modify j f m)) = map (\<lambda>(i, b). g i b) (filter (\<lambda>(i, b). P i b) m)"
  using assms by (induction m) (simp_all add: bt_modify_def case_prod_unfold)

lemma untraced_payload:
  assumes "untraced s s'"
  shows "store_ops_since D (store_frontier D s) s' = store_ops_since D (store_frontier D s) s"
proof -
  obtain i f where s': "st_blocks s' = bt_modify i f (st_blocks s)" and f: "\<And>b. bc_header (f b) = bc_header b"
      "\<And>b. bc_doc (f b) = bc_doc b" "\<And>b. bc_deleted (f b) = bc_deleted b"
    using untraced_shape [OF assms] by blast
  have mem: "known s j" if "(j, b) \<in> set (st_blocks s)" for j b
    using weak_map_of_SomeI [OF that] by (auto simp: bt_get_def)
  have new: "filter (\<lambda>(i, b). \<not> bc_deleted b \<and> \<not> known s i) (bt_modify i f (st_blocks s)) = []"
    "filter (\<lambda>(i, b). \<not> bc_deleted b \<and> \<not> known s i) (st_blocks s) = []"
    using mem by (fastforce simp: filter_empty_conv bt_modify_def split: if_splits)+
  have same: "known_ops D s j (f b) = known_ops D s j b" for j b
    by (simp add: known_ops_def root_ops_def f split: option.split)
  note parts = payload_parts [of D s]
  have "sp_block_ops (store_ops_since D (store_frontier D s) s') = sp_block_ops (store_ops_since D (store_frontier D s) s)"
    unfolding parts s' by (rule filter_modify) (simp_all add: f same)
  moreover have "sp_updated_headers (store_ops_since D (store_frontier D s) s') = sp_updated_headers (store_ops_since D (store_frontier D s) s)"
    unfolding parts s' by (rule filter_modify) (simp_all add: f)
  moreover have "sp_deleted_blocks (store_ops_since D (store_frontier D s) s') = sp_deleted_blocks (store_ops_since D (store_frontier D s) s)"
    unfolding parts s' using filter_modify [of "\<lambda>i b. bc_deleted b \<and> known s i" f "\<lambda>i b. i" i "st_blocks s"] f
    by (simp add: case_prod_unfold)
  moreover have "sp_new_blocks (store_ops_since D (store_frontier D s) s') = sp_new_blocks (store_ops_since D (store_frontier D s) s)"
    unfolding parts s' new by simp
  ultimately show ?thesis by (rule_tac SyncPayload.equality) simp_all
qed

text \<open>
  C40: A block move, and a write of a known block's output, error stream, signature or tool-use id, is
  journalled like every change, and the log then replays to the document as it was before the change.
\<close>

theorem untraced_lost:
  assumes "dte_ok (ke_dte E)" and "replica_ok (ke_dte E) rep" and "codec_ok E"
    and "journalled (ke_dte E) ctx s js" and "untraced s s'"
    and "logged E rows (js @ [store_ops_since (ke_dte E) (store_frontier (ke_dte E) s) s'])"
  shows "\<exists>r. replay_oplog E rows (store_new ctx q) = Some r
     \<and> (\<forall>i. get_block_snapshot (ke_dte E) r i = get_block_snapshot (ke_dte E) s i)
     \<and> block_ids_ordered r = block_ids_ordered s"
proof -
  let ?D = "ke_dte E" and ?p = "store_ops_since (ke_dte E) (store_frontier (ke_dte E) s) s'"
  obtain rows0 n bs where rows: "rows = rows0 @ [(n, bs)]" "logged E rows0 js" "encode_payload E ?p = Inr bs"
    using assms(6) by (auto simp: logged_def list_all2_append2 list_all2_Cons2)
  obtain r where r: "replay_oplog E rows0 (store_new ctx q) = Some r" "mirrored rep s r"
    using journal_mirrored [OF assms(1-4) rows(2)] by blast
  have ok: "store_ok s" by (rule journalled_ok [OF assms(4)])
  have "carried ?D s s"
    using carries_same [of s s ?D] journalled_clock [OF assms(1,4)] by (simp add: carries_def)
  from replay_step [OF assms(2) ok ok r(2) this]
  obtain r' where r': "store_merge_ops ?D ?p r = (r', Inr ())" "mirrored rep s r'"
    using untraced_payload [OF assms(5), of ?D] by metis
  have "decode_payload E bs = Inr ?p" using assms(3) rows(3) by (simp add: codec_ok_def)
  then have rep: "replay_oplog E rows (store_new ctx q) = Some r'"
    unfolding rows(1) by (rule replay_snoc [OF r(1) _ r'(1)])
  have view: "get_block_snapshot ?D r' i = get_block_snapshot ?D s i" for i
    by (rule mirrored_view [OF assms(2) r'(2)])
  have "bt_ok (st_blocks s)" "bt_ok (st_blocks r')" using ok r'(2) by (simp_all add: store_ok_def mirrored_def)
  from view_determines_order(1) [OF this view] show ?thesis using rep view by blast
qed

theorem untraced_lost_witness:
  "let s' = fst (store_set_stderr (BlockId 1 2 0) (Some ''warning'') (noted Status.Done));
       js = [note_payload Status.Done, store_ops_since reference_dte (store_frontier reference_dte (noted Status.Done)) s']
   in map_option bs_stderr (get_block_snapshot reference_dte s' (BlockId 1 2 0)) = Some (Some ''warning'')
    \<and> map_option (\<lambda>r. map_option bs_stderr (get_block_snapshot reference_dte r (BlockId 1 2 0)))
         (replay_oplog (journal_env js) (journal_rows js) (store_new 1 9)) = Some (Some None)"
proof -
  define s' where "s' = fst (store_set_stderr (BlockId 1 2 0) (Some ''warning'') (noted Status.Done))"
  define js where "js = [note_payload Status.Done, store_ops_since reference_dte (store_frontier reference_dte (noted Status.Done)) s']"
  have "untraced (noted Status.Done) s'" unfolding s'_def by (rule untraced.stderr) (rule prod.collapse [symmetric])
  then obtain r where "replay_oplog (journal_env js) (journal_rows js) (store_new 1 9) = Some r"
      "get_block_snapshot reference_dte r (BlockId 1 2 0) = get_block_snapshot reference_dte (noted Status.Done) (BlockId 1 2 0)"
    using untraced_lost [of "journal_env js" "(=)" 1 "noted Status.Done" "[note_payload Status.Done]" s' "journal_rows js" 9]
      journal_env_ok [of js] noted_journalled reference_dte_ok reference_replica by (auto simp: js_def)
  moreover have "map_option bs_stderr (get_block_snapshot reference_dte (noted Status.Done) (BlockId 1 2 0)) = Some None" by code_simp
  moreover have "map_option bs_stderr (get_block_snapshot reference_dte s' (BlockId 1 2 0)) = Some (Some ''warning'')"
    unfolding s'_def by code_simp
  ultimately show ?thesis by (simp add: js_def s'_def)
qed

end
