(* ===== verification/Kernel_Session.thy ===== *)
theory Kernel_Session
  imports Journal
begin

text \<open>
  A persistent kernel and its restart.  A session creates a document and applies journalled operations
  to it; until the first compaction, a kernel started on the same database reads the document back.
\<close>

section \<open>Running operations\<close>

lemma kbind_Some:
  "kbind m f s = Some (s', r) \<longleftrightarrow>
     (\<exists>s1 e. m s = Some (s1, Inl e) \<and> s' = s1 \<and> r = Inl e) \<or> (\<exists>s1 a. m s = Some (s1, Inr a) \<and> f a s1 = Some (s', r))"
  by (auto simp: kbind_def split: option.splits sum.splits)

lemma kret_Some [simp]: "kret a s = Some (s', r) \<longleftrightarrow> s' = s \<and> r = Inr a"
  by (auto simp: kret_def)

lemma kfail_Some [simp]: "kfail e s = Some (s', r) \<longleftrightarrow> s' = s \<and> r = Inl e"
  by (auto simp: kfail_def)

lemma kbind_ok: "kbind m f s = Some (s', Inr b) \<longleftrightarrow> (\<exists>s1 a. m s = Some (s1, Inr a) \<and> f a s1 = Some (s', Inr b))"
  by (auto simp: kbind_Some)

lemma on_entry_ok:
  "on_entry ctx f k = Some (k', Inr a) \<longleftrightarrow>
     (\<exists>e e'. ks_documents k ctx = Some e \<and> f e = Some (e', Inr a) \<and> k' = k\<lparr>ks_documents := (ks_documents k)(ctx \<mapsto> e')\<rparr>)"
  by (auto simp: on_entry_def kfail_def split: option.splits)

lemma on_db_ok:
  "on_db f db k = Some (k', Inr a) \<longleftrightarrow> (\<exists>db'. f db = (db', Inr a) \<and> k' = k\<lparr>ks_db := Some db'\<rparr>)"
  by (auto simp: on_db_def split: prod.splits sum.splits)

lemma lift_codec_ok: "lift_codec r s = Some (s', Inr a) \<longleftrightarrow> r = Inr a \<and> s' = s"
  by (auto simp: lift_codec_def split: sum.splits)

lemma db_call_ok: "db_call fault f db = (db', Inr a) \<longleftrightarrow> fault (kd_calls db) = None \<and> f (db\<lparr>kd_calls := kd_calls db + 1\<rparr>) = (db', Inr a)"
  by (auto simp: db_call_def Let_def split: option.splits)

lemmas run_ok = kbind_ok on_entry_ok on_db_ok lift_codec_ok db_call_ok

section \<open>What is on disk\<close>

definition log_rows :: "ContextId \<Rightarrow> KernelDb \<Rightarrow> (nat \<times> bytes) list" where
  "log_rows ctx d = map (\<lambda>r. (or_seq r, or_payload r)) (filter (\<lambda>r. or_document_id r = ctx) (kd_oplog d))"

definition compacted :: "ContextId \<Rightarrow> KernelDb \<Rightarrow> bool" where
  "compacted ctx d \<longleftrightarrow> ctx \<in> sr_document_id ` set (kd_snapshots d)"

lemma compact_ok:
  assumes "compact_document E ctx k = Some (k', Inr ())" and "ks_db k = Some d"
  shows "(\<exists>d'. ks_db k' = Some d' \<and> compacted ctx d' \<and> document_exists d' ctx)
    \<and> map_option de_doc (ks_documents k' ctx) = map_option de_doc (ks_documents k ctx)"
  using assms
  by (auto simp: compact_document_def run_ok journaling_db_def get_entry_def put_entry_def write_snapshot_and_truncate_def
      compacted_def document_exists_def Let_def split: if_splits option.splits)

lemma append_ok:
  "append_op fault ctx n bs d = (d', Inr ()) \<Longrightarrow>
     document_exists d' ctx \<and> compacted ctx d' = compacted ctx d \<and> log_rows ctx d' = log_rows ctx d @ [(n, bs)]"
  by (auto simp: append_op_def db_call_ok log_rows_def compacted_def document_exists_def split: if_splits)

lemma touch_ok:
  "touch_context_activity fault ctx ts d = (d', Inr ()) \<Longrightarrow>
     document_exists d' x = document_exists d x \<and> compacted x d' = compacted x d \<and> log_rows x d' = log_rows x d"
  by (auto simp: touch_context_activity_def db_call_ok log_rows_def compacted_def document_exists_def split: if_splits)

text \<open>The state after the payload has been appended, and the compaction that may follow.\<close>

definition appended :: "('d, 'o, 'f, 'json) kernel_env \<Rightarrow> ContextId \<Rightarrow> 'd DocumentEntry \<Rightarrow> bytes \<Rightarrow> KernelDb \<Rightarrow> 'd KernelStore \<Rightarrow> 'd KernelStore" where
  "appended E ctx e bs d k = k\<lparr>ks_live_status := (ks_live_status k)(ctx \<mapsto> document_status E e),
     ks_documents := (ks_documents k)(ctx \<mapsto> e\<lparr>de_next_journal_seq := de_next_journal_seq e + 1,
       de_uncompacted_count := de_uncompacted_count e + 1, de_uncompacted_bytes := de_uncompacted_bytes e + length bs\<rparr>),
     ks_db := Some d\<rparr>"

lemma journal_shape:
  assumes "journal_op E now ctx p k = Some (k', Inr ())" and "ks_db k = Some d" and "ks_documents k ctx = Some e"
  obtains bs d1 d2 where "encode_payload E p = Inr bs"
    and "append_op (ke_fault E) ctx (de_next_journal_seq e + 1) bs d = (d1, Inr ())"
    and "touch_context_activity (ke_fault E) ctx (int now) d1 = (d2, Inr ())"
    and "compact_document E ctx (appended E ctx e bs d2 k) = Some (k', Inr ()) \<or> k' = appended E ctx e bs d2 k"
  using assms
  by (auto simp: journal_op_def run_ok recompute_live_status_def journaling_db_def appended_def Let_def split: if_splits)

lemma journal_ok:
  assumes j: "journal_op E now ctx p k = Some (k', Inr ())" and k: "ks_db k = Some d" "ks_documents k ctx = Some e"
  obtains d' e' bs where "ks_db k' = Some d'" "ks_documents k' ctx = Some e'" "de_doc e' = de_doc e" "document_exists d' ctx"
    and "compacted ctx d' \<or> \<not> compacted ctx d \<and> encode_payload E p = Inr bs
       \<and> log_rows ctx d' = log_rows ctx d @ [(de_next_journal_seq e + 1, bs)] \<and> de_next_journal_seq e' = de_next_journal_seq e + 1"
proof -
  obtain bs d1 d2 where enc: "encode_payload E p = Inr bs"
    and ap: "append_op (ke_fault E) ctx (de_next_journal_seq e + 1) bs d = (d1, Inr ())"
    and tc: "touch_context_activity (ke_fault E) ctx (int now) d1 = (d2, Inr ())"
    and c: "compact_document E ctx (appended E ctx e bs d2 k) = Some (k', Inr ()) \<or> k' = appended E ctx e bs d2 k"
    by (rule journal_shape [OF j k])
  note a = append_ok [OF ap] and t = touch_ok [OF tc]
  have k1: "ks_db (appended E ctx e bs d2 k) = Some d2" by (simp add: appended_def)
  from c show ?thesis
  proof
    assume "compact_document E ctx (appended E ctx e bs d2 k) = Some (k', Inr ())"
    from compact_ok [OF this k1] obtain d' where "ks_db k' = Some d'" "compacted ctx d'" "document_exists d' ctx"
      and "map_option de_doc (ks_documents k' ctx) = Some (de_doc e)" by (auto simp: appended_def)
    then show thesis using that by auto
  next
    assume "k' = appended E ctx e bs d2 k"
    then show thesis using that [of d2 _ bs] a t enc by (auto simp: appended_def)
  qed
qed

section \<open>Sessions\<close>

text \<open>
  The log mirrors the document in memory, unless the document has been compacted into a snapshot.
\<close>

definition backed :: "('d, 'o, 'f, 'json) kernel_env \<Rightarrow> ContextId \<Rightarrow> 'd KernelStore \<Rightarrow> bool" where
  "backed E ctx k \<longleftrightarrow> (\<exists>d e. ks_db k = Some d \<and> ks_documents k ctx = Some e \<and> document_exists d ctx \<and>
     (compacted ctx d \<or> (\<exists>js. journalled (ke_dte E) ctx (de_doc e) js \<and> logged E (log_rows ctx d) js
        \<and> map fst (log_rows ctx d) = [1..<Suc (de_next_journal_seq e)])))"

lemma journalled_principal: "journalled D ctx s js \<Longrightarrow> journalled D ctx (set_principal_id p s) js"
  by (rule journalled.quiet [OF _ store_step.principal]) (simp_all add: set_principal_id_def)

lemma backed_journal:
  assumes b: "backed E ctx k" and e: "ks_documents k ctx = Some e"
    and s: "s = de_doc e \<or> s = set_principal_id p (de_doc e)" and d: "durable (ke_dte E) s (de_doc e1)"
    and e1: "de_next_journal_seq e1 = de_next_journal_seq e"
    and j: "journal_op E now ctx (store_ops_since (ke_dte E) (store_frontier (ke_dte E) s) (de_doc e1))
              (k\<lparr>ks_documents := (ks_documents k)(ctx \<mapsto> e1)\<rparr>) = Some (k', Inr ())"
  shows "backed E ctx k'"
proof -
  let ?k = "k\<lparr>ks_documents := (ks_documents k)(ctx \<mapsto> e1)\<rparr>"
    and ?p = "store_ops_since (ke_dte E) (store_frontier (ke_dte E) s) (de_doc e1)"
  from b e obtain db where db: "ks_db k = Some db" "document_exists db ctx"
    "compacted ctx db \<or> (\<exists>js. journalled (ke_dte E) ctx (de_doc e) js \<and> logged E (log_rows ctx db) js
        \<and> map fst (log_rows ctx db) = [1..<Suc (de_next_journal_seq e)])"
    by (auto simp: backed_def)
  from journal_ok [OF j, of db e1] db(1) obtain d' e' bs where k': "ks_db k' = Some d'" "ks_documents k' ctx = Some e'"
      "de_doc e' = de_doc e1" "document_exists d' ctx"
    and or: "compacted ctx d' \<or> \<not> compacted ctx db \<and> encode_payload E ?p = Inr bs
       \<and> log_rows ctx d' = log_rows ctx db @ [(de_next_journal_seq e + 1, bs)] \<and> de_next_journal_seq e' = de_next_journal_seq e + 1"
    using e1 by auto
  from or show ?thesis
  proof
    assume "compacted ctx d'"
    then show ?thesis using k' by (auto simp: backed_def)
  next
    assume rows: "\<not> compacted ctx db \<and> encode_payload E ?p = Inr bs
       \<and> log_rows ctx d' = log_rows ctx db @ [(de_next_journal_seq e + 1, bs)] \<and> de_next_journal_seq e' = de_next_journal_seq e + 1"
    with db(3) obtain js where js: "journalled (ke_dte E) ctx (de_doc e) js" "logged E (log_rows ctx db) js"
      "map fst (log_rows ctx db) = [1..<Suc (de_next_journal_seq e)]" by blast
    have "journalled (ke_dte E) ctx s js" using s js(1) journalled_principal by blast
    from journalled.change [OF this d] have "journalled (ke_dte E) ctx (de_doc e') (js @ [?p])" by (simp add: k'(3))
    moreover have "logged E (log_rows ctx d') (js @ [?p])" using rows js(2) by (simp add: logged_def list_all2_appendI)
    moreover have "map fst (log_rows ctx d') = [1..<Suc (de_next_journal_seq e')]" using rows js(3) by simp
    ultimately show ?thesis using k' by (auto simp: backed_def)
  qed
qed

lemma crdt_ok: "crdt f e = Some (e', Inr a) \<longleftrightarrow> (\<exists>s. f (de_doc e) = Some (s, Inr a) \<and> e' = e\<lparr>de_doc := s\<rparr>)"
  by (auto simp: crdt_def split: option.splits sum.splits)

lemma backed_cong:
  "backed E ctx k \<Longrightarrow> ks_db k' = ks_db k \<Longrightarrow> ks_documents k' = ks_documents k \<Longrightarrow> backed E ctx k'"
  by (simp add: backed_def)

lemma emit_frame: "emit flow k = Some (k', r) \<Longrightarrow> ks_db k' = ks_db k \<and> ks_documents k' = ks_documents k \<and> r = Inr ()"
  by (auto simp: emit_def)

lemma backed_insert_at:
  assumes "\<And>e s s' i. ks_documents k ctx = Some e \<Longrightarrow> st_lamport_clock s = st_lamport_clock (de_doc e) \<Longrightarrow>
      op s = Some (s', Inr i) \<Longrightarrow> durable (ke_dte E) s s'"
    and "insert_with E now ctx after p op k = Some (k', Inr i)" and "backed E ctx k"
  shows "backed E ctx k'"
proof -
  from assms(2) obtain e e1 k1 snap ops bs where e: "ks_documents k ctx = Some e"
    and body: "insert_body E (effective_agent p k) op e = Some (e1, Inr (i, snap, ops, bs))"
    and j: "journal_op E now ctx ops (k\<lparr>ks_documents := (ks_documents k)(ctx \<mapsto> e1)\<rparr>) = Some (k1, Inr ())"
    and em: "emit (BlockFlow.Inserted ctx snap after bs Local) k1 = Some (k', Inr ())"
    by (auto simp: insert_with_def run_ok)
  let ?s = "set_principal_id (effective_agent p k) (de_doc e)"
  from body obtain s' where op: "op ?s = Some (s', Inr i)" and e1: "de_doc e1 = s'" "de_next_journal_seq e1 = de_next_journal_seq e"
    and ops: "ops = store_ops_since (ke_dte E) (store_frontier (ke_dte E) ?s) s'"
    by (auto simp: insert_body_def run_ok crdt_ok as_agent_def entry_touch_def Let_def split: option.splits)
  have "backed E ctx k1"
    by (rule backed_journal [OF assms(3) e, of ?s "effective_agent p k" e1])
      (use assms(1) [OF e _ op] e1 ops j in \<open>simp_all add: set_principal_id_def\<close>)
  then show ?thesis using emit_frame [OF em] backed_cong by blast
qed

lemma backed_insert_with:
  assumes "\<And>s s' i. op s = Some (s', Inr i) \<Longrightarrow> durable (ke_dte E) s s'"
    and "insert_with E now ctx after p op k = Some (k', Inr i)" and "backed E ctx k"
  shows "backed E ctx k'"
  using assms(1) by (rule backed_insert_at [OF _ assms(2,3)])

lemma backed_mutate_with:
  assumes "\<And>s s' r. op s = (s', Inr r) \<Longrightarrow> durable (ke_dte E) s s'"
    and "mutate_with E now ctx op k = Some (k', Inr r)" and "backed E ctx k"
  shows "backed E ctx k'"
proof -
  from assms(2) obtain e e1 ops where e: "ks_documents k ctx = Some e"
    and body: "mutate_body E (ks_principal_id k) op e = Some (e1, Inr ops)"
    and j: "journal_op E now ctx ops (k\<lparr>ks_documents := (ks_documents k)(ctx \<mapsto> e1)\<rparr>) = Some (k', Inr ())"
    by (auto simp: mutate_with_def run_ok)
  from body obtain s' where op: "op (de_doc e) = (s', Inr ())" and e1: "de_doc e1 = s'" "de_next_journal_seq e1 = de_next_journal_seq e"
    and ops: "ops = store_ops_since (ke_dte E) (store_frontier (ke_dte E) (de_doc e)) s'"
    by (auto simp: mutate_body_def run_ok crdt_ok entry_touch_def)
  show ?thesis
    by (rule backed_journal [OF assms(3) e, of "de_doc e" _ e1]) (use assms(1) [OF op] e1 ops j in simp_all)
qed

lemma backed_text_with:
  assumes "\<And>s s' r. op s = (s', Inr r) \<Longrightarrow> durable (ke_dte E) s s'"
    and "text_with E now ctx i p op k = Some (k', Inr r)" and "backed E ctx k"
  shows "backed E ctx k'"
proof -
  from assms(2) obtain e e1 k1 ops bs where e: "ks_documents k ctx = Some e"
    and body: "text_body E (effective_agent p k) op e = Some (e1, Inr (ops, bs))"
    and j: "journal_op E now ctx ops (k\<lparr>ks_documents := (ks_documents k)(ctx \<mapsto> e1)\<rparr>) = Some (k1, Inr ())"
    and k': "ks_db k' = ks_db k1" "ks_documents k' = ks_documents k1"
    by (auto simp: text_with_def run_ok next_block_text_seq_def Let_def dest!: emit_frame)
  let ?s = "set_principal_id (effective_agent p k) (de_doc e)"
  from body obtain s' where op: "op ?s = (s', Inr ())" and e1: "de_doc e1 = s'" "de_next_journal_seq e1 = de_next_journal_seq e"
    and ops: "ops = store_ops_since (ke_dte E) (store_frontier (ke_dte E) ?s) s'"
    by (auto simp: text_body_def mutate_body_def run_ok crdt_ok as_agent_def entry_touch_def)
  have "backed E ctx k1"
    by (rule backed_journal [OF assms(3) e, of ?s "effective_agent p k" e1]) (use assms(1) [OF op] e1 ops j in simp_all)
  then show ?thesis using k' backed_cong by blast
qed

text \<open>
  The operations of the kernel that the journal carries, when they succeed.  A snapshot is inserted with
  the timestamps it brings, which must not be ahead of the document's clock.  Left out are the journalled
  operations that the journal does not carry, a move and the writes of the output, the error output, the
  signature and the tool-use id of a block, whose loss \<open>Journal\<close> shows; the merge of a remote payload; and
  marking an ABC or SVG block done, which runs the validator that inserts and deletes blocks and ignores
  failures.
\<close>

definition rich :: "('d, 'o, 'f, 'json) kernel_env \<Rightarrow> ContextId \<Rightarrow> BlockId \<Rightarrow> 'd KernelStore \<Rightarrow> bool" where
  "rich E ctx i k \<longleftrightarrow>
     map_option bs_content_type (Option.bind (ks_documents k ctx) (\<lambda>e. get_block_snapshot (ke_dte E) (de_doc e) i))
       \<in> {Some ContentType.Abc, Some ContentType.Svg}"

inductive durable_call :: "('d, 'o, 'f, 'json) kernel_env \<Rightarrow> ContextId \<Rightarrow> 'd KernelStore \<Rightarrow> 'd KernelStore \<Rightarrow> bool"
  for E :: "('d, 'o, 'f, 'json) kernel_env" and ctx where
  block: "kernel_insert_block_as E now ctx par after role kind content status ct p k = Some (k', Inr i) \<Longrightarrow> durable_call E ctx k k'"
| tool_call: "kernel_insert_tool_call_as E now ctx par after n inp tk p tui role k = Some (k', Inr i) \<Longrightarrow> durable_call E ctx k k'"
| tool_result: "kernel_insert_tool_result_as E now ctx call after content err code tk p tui k = Some (k', Inr i) \<Longrightarrow> durable_call E ctx k k'"
| drift: "kernel_insert_drift_block_as E now ctx par after content src m dk p k = Some (k', Inr i) \<Longrightarrow> durable_call E ctx k k'"
| notification: "kernel_insert_notification_block_as E now ctx par np c p k = Some (k', Inr i) \<Longrightarrow> durable_call E ctx k k'"
| resource: "kernel_insert_resource_block_as E now ctx par rp c p k = Some (k', Inr i) \<Longrightarrow> durable_call E ctx k k'"
| error: "kernel_insert_error_block_as E now ctx q ep c p k = Some (k', Inr i) \<Longrightarrow> durable_call E ctx k k'"
| snapshot: "kernel_insert_from_snapshot_as E now ctx sn after p k = Some (k', Inr i) \<Longrightarrow> ks_documents k ctx = Some e \<Longrightarrow>
    fresh_header (st_lamport_clock (de_doc e)) (header_from_snapshot sn) \<Longrightarrow> durable_call E ctx k k'"
| edit: "kernel_edit_text_as E now ctx i pos ins del p k = Some (k', Inr ()) \<Longrightarrow> durable_call E ctx k k'"
| app: "kernel_append_text_as E now ctx i c p k = Some (k', Inr ()) \<Longrightarrow> durable_call E ctx k k'"
| del: "kernel_delete_block E now ctx i k = Some (k', Inr ()) \<Longrightarrow> durable_call E ctx k k'"
| status: "kernel_set_status E now ctx i st k = Some (k', Inr ()) \<Longrightarrow> st \<noteq> Status.Done \<or> \<not> rich E ctx i k \<Longrightarrow> durable_call E ctx k k'"
| collapsed: "kernel_set_collapsed E now ctx i v k = Some (k', Inr ()) \<Longrightarrow> durable_call E ctx k k'"
| content_type: "kernel_set_content_type E now ctx i ct k = Some (k', Inr ()) \<Longrightarrow> durable_call E ctx k k'"
| exit_code: "kernel_set_exit_code E now ctx i code k = Some (k', Inr ()) \<Longrightarrow> durable_call E ctx k k'"
| ephemeral: "kernel_set_ephemeral E now ctx i v k = Some (k', Inr ()) \<Longrightarrow> durable_call E ctx k k'"
| excluded: "kernel_set_excluded E now ctx i v k = Some (k', Inr ()) \<Longrightarrow> durable_call E ctx k k'"
| compacted: "kernel_set_compacted E now ctx i v k = Some (k', Inr ()) \<Longrightarrow> durable_call E ctx k k'"

lemma with_tool_use_id_durable:
  assumes "with_tool_use_id tui out = (s', Inr i)" and "insert_step D after refs s out"
  shows "durable D s s'"
proof (cases out)
  case (Pair s1 r)
  with assms show ?thesis
    by (cases r; cases tui) (auto simp: with_tool_use_id_def intro: durable.ins durable.tagged split: prod.splits sum.splits)
qed

lemma emit_metadata_frame:
  "emit_metadata E ctx i k = Some (k', r) \<Longrightarrow> ks_db k' = ks_db k \<and> ks_documents k' = ks_documents k"
  by (auto simp: emit_metadata_def Let_def dest: emit_frame)

lemma backed_then_emit:
  "kbind m (\<lambda>_. emit flow) k = Some (k', Inr r) \<Longrightarrow> (\<And>k1 u. m k = Some (k1, Inr u) \<Longrightarrow> backed E ctx k1) \<Longrightarrow> backed E ctx k'"
  "kbind m (\<lambda>_. emit_metadata E ctx2 i) k = Some (k', Inr r) \<Longrightarrow> (\<And>k1 u. m k = Some (k1, Inr u) \<Longrightarrow> backed E ctx k1) \<Longrightarrow> backed E ctx k'"
  by (auto simp: kbind_ok dest!: emit_frame emit_metadata_frame intro: backed_cong)

lemma journal_doc:
  assumes "journal_op E now ctx p k = Some (k', Inr ())" and "ks_documents k ctx = Some e"
  obtains e' where "ks_documents k' ctx = Some e'" and "de_doc e' = de_doc e"
proof (cases "ks_db k")
  case None
  with assms that show thesis
    by (auto simp: journal_op_def run_ok recompute_live_status_def journaling_db_def split: if_splits)
next
  case (Some d)
  show thesis by (rule journal_ok [OF assms(1) Some assms(2)]) (use that in blast)
qed

lemma mutate_doc:
  assumes "mutate_with E now ctx op k = Some (k', Inr r)" and "ks_documents k ctx = Some e"
  obtains e' where "ks_documents k' ctx = Some e'" and "op (de_doc e) = (de_doc e', Inr ())"
proof -
  from assms obtain e1 ops where body: "mutate_body E (ks_principal_id k) op e = Some (e1, Inr ops)"
    and j: "journal_op E now ctx ops (k\<lparr>ks_documents := (ks_documents k)(ctx \<mapsto> e1)\<rparr>) = Some (k', Inr ())"
    by (auto simp: mutate_with_def run_ok)
  from body have "op (de_doc e) = (de_doc e1, Inr ())" by (auto simp: mutate_body_def run_ok crdt_ok entry_touch_def)
  moreover obtain e' where "ks_documents k' ctx = Some e'" "de_doc e' = de_doc e1"
    by (rule journal_doc [OF j]) simp
  ultimately show thesis using that [of e'] by simp
qed

lemma status_keeps_type:
  assumes "store_set_status i st s = (s', Inr ())"
  shows "map_option bs_content_type (get_block_snapshot D s' i) = map_option bs_content_type (get_block_snapshot D s i)"
proof -
  have type: "bs_content_type (content_snapshot D b) = bh_content_type (bc_header b)" for b :: "'a BlockContent"
    by (simp add: content_snapshot_def Let_def)
  have "st_blocks s' = bt_modify i (content_set_status st (st_lamport_clock s + 1)) (st_blocks s)"
    using assms by (auto simp: store_set_status_def clock_tick_pair on_live_block_def update_block_def split: if_splits)
  then have "bt_get (st_blocks s') i = map_option (content_set_status st (st_lamport_clock s + 1)) (bt_get (st_blocks s) i)"
    by (simp add: bt_get_modify)
  moreover have "bh_content_type (bc_header (content_set_status st ts b)) = bh_content_type (bc_header b)" for ts and b :: "'a BlockContent"
    by (simp add: content_set_status_def)
  ultimately show ?thesis by (simp add: get_block_snapshot_def type split: option.split)
qed

lemma status_plain:
  assumes "kernel_set_status E now ctx i st k = Some (k', Inr ())" and "st \<noteq> Status.Done \<or> \<not> rich E ctx i k"
  shows "kbind (mutate_with E now ctx (store_set_status i st)) (\<lambda>_. emit (BlockFlow.StatusChanged ctx i st Local)) k = Some (k', Inr ())"
proof -
  from assms(1) obtain k1 u k2 where m: "mutate_with E now ctx (store_set_status i st) k = Some (k1, Inr u)"
    and em: "emit (BlockFlow.StatusChanged ctx i st Local) k1 = Some (k2, Inr ())"
    and fin: "(if st = Status.Done \<and> rich E ctx i k2 then ignored (validate_content_and_attach_errors E now ctx i) k2 else kret () k2)
        = Some (k', Inr ())"
    by (auto simp: kernel_set_status_def run_ok rich_def Let_def)
  obtain e where k: "ks_documents k ctx = Some e" using m by (auto simp: mutate_with_def run_ok)
  obtain e' where "ks_documents k1 ctx = Some e'" "store_set_status i st (de_doc e) = (de_doc e', Inr ())"
    by (rule mutate_doc [OF m k])
  then have "rich E ctx i k1 = rich E ctx i k" using k by (simp add: rich_def status_keeps_type)
  then have "rich E ctx i k2 = rich E ctx i k" using emit_frame [OF em] by (simp add: rich_def)
  then have "k' = k2" using fin assms(2) by auto
  with m em show ?thesis by (auto simp: kbind_ok)
qed

lemma backed_status:
  assumes "kernel_set_status E now ctx i st k = Some (k', Inr ())" and "st \<noteq> Status.Done \<or> \<not> rich E ctx i k" and "backed E ctx k"
  shows "backed E ctx k'"
  using status_plain [OF assms(1,2)]
  by (rule backed_then_emit) (erule backed_mutate_with [rotated], rule assms(3), rule durable.status)

lemmas insertion_defs = kernel_insert_block_as_def kernel_insert_tool_call_as_def kernel_insert_tool_result_as_def
  kernel_insert_drift_block_as_def kernel_insert_notification_block_as_def kernel_insert_resource_block_as_def
  kernel_insert_error_block_as_def

lemma insert_tool_call_json:
  "insert_tool_call D pp now par after n x tk role s = insert_tool_call D (\<lambda>_ :: string. pp x) now par after n [] tk role s"
  by (simp add: insert_tool_call_def)

lemma backed_insertions:
  "kernel_insert_block_as E now ctx par after role kind content status ct p k = Some (k', Inr i) \<Longrightarrow> backed E ctx k \<Longrightarrow> backed E ctx k'"
  "kernel_insert_drift_block_as E now ctx par after content src m dk p k = Some (k', Inr i) \<Longrightarrow> backed E ctx k \<Longrightarrow> backed E ctx k'"
  "kernel_insert_notification_block_as E now ctx par np c p k = Some (k', Inr i) \<Longrightarrow> backed E ctx k \<Longrightarrow> backed E ctx k'"
  "kernel_insert_resource_block_as E now ctx par rp c p k = Some (k', Inr i) \<Longrightarrow> backed E ctx k \<Longrightarrow> backed E ctx k'"
  "kernel_insert_error_block_as E now ctx q ep c p k = Some (k', Inr i) \<Longrightarrow> backed E ctx k \<Longrightarrow> backed E ctx k'"
  "kernel_insert_tool_call_as E now ctx par after n inp tk p tui ro k = Some (k', Inr i) \<Longrightarrow> backed E ctx k \<Longrightarrow> backed E ctx k'"
  "kernel_insert_tool_result_as E now ctx call after content err code tk p tui k = Some (k', Inr i) \<Longrightarrow> backed E ctx k \<Longrightarrow> backed E ctx k'"
  unfolding insertion_defs
        apply (erule backed_insert_with [rotated], assumption, metis durable.ins insert_step.block option.inject)
       apply (erule backed_insert_with [rotated], assumption, erule durable.ins [OF insert_step.drift])
      apply (erule backed_insert_with [rotated], assumption, erule durable.ins [OF insert_step.notification])
     apply (erule backed_insert_with [rotated], assumption, erule durable.ins [OF insert_step.resource])
    apply (erule backed_insert_with [rotated], assumption, erule durable.ins [OF insert_step.error])
   apply (erule backed_insert_with [rotated], assumption)
   apply (auto simp: insert_tool_call_json [of _ "json_pretty E"] intro: with_tool_use_id_durable insert_step.tool_call) [1]
  apply (erule backed_insert_with [rotated], assumption)
  apply (auto intro: with_tool_use_id_durable insert_step.tool_result [OF refl])
  done

lemma backed_setters:
  "kernel_delete_block E now ctx i k = Some (k', Inr ()) \<Longrightarrow> backed E ctx k \<Longrightarrow> backed E ctx k'"
  "kernel_set_collapsed E now ctx i v k = Some (k', Inr ()) \<Longrightarrow> backed E ctx k \<Longrightarrow> backed E ctx k'"
  "kernel_set_excluded E now ctx i v k = Some (k', Inr ()) \<Longrightarrow> backed E ctx k \<Longrightarrow> backed E ctx k'"
  "kernel_set_content_type E now ctx i ct k = Some (k', Inr ()) \<Longrightarrow> backed E ctx k \<Longrightarrow> backed E ctx k'"
  "kernel_set_exit_code E now ctx i code k = Some (k', Inr ()) \<Longrightarrow> backed E ctx k \<Longrightarrow> backed E ctx k'"
  "kernel_set_ephemeral E now ctx i v k = Some (k', Inr ()) \<Longrightarrow> backed E ctx k \<Longrightarrow> backed E ctx k'"
  "kernel_set_compacted E now ctx i v k = Some (k', Inr ()) \<Longrightarrow> backed E ctx k \<Longrightarrow> backed E ctx k'"
  unfolding kernel_delete_block_def kernel_set_collapsed_def kernel_set_content_type_def kernel_set_exit_code_def
    kernel_set_ephemeral_def kernel_set_excluded_def kernel_set_compacted_def
  by (erule backed_then_emit, erule backed_mutate_with [rotated], assumption, erule durable.intros)+

lemma backed_texts:
  "kernel_edit_text_as E now ctx i pos ins del p k = Some (k', Inr ()) \<Longrightarrow> backed E ctx k \<Longrightarrow> backed E ctx k'"
  "kernel_append_text_as E now ctx i c p k = Some (k', Inr ()) \<Longrightarrow> backed E ctx k \<Longrightarrow> backed E ctx k'"
  unfolding kernel_edit_text_as_def kernel_append_text_as_def
  by (erule backed_text_with [rotated], assumption, erule durable.intros)+

lemma backed_snapshot:
  assumes "kernel_insert_from_snapshot_as E now ctx sn after p k = Some (k', Inr i)" and "ks_documents k ctx = Some e"
    and "fresh_header (st_lamport_clock (de_doc e)) (header_from_snapshot sn)" and "backed E ctx k"
  shows "backed E ctx k'"
  using assms(2,3)
  by (intro backed_insert_at [OF _ assms(1) [unfolded kernel_insert_from_snapshot_as_def] assms(4)]) (auto intro: durable.snap)

lemma backed_call: "durable_call E ctx k k' \<Longrightarrow> backed E ctx k \<Longrightarrow> backed E ctx k'"
  by (erule durable_call.cases) (auto intro: backed_insertions backed_snapshot backed_setters backed_texts backed_status)

section \<open>Restart\<close>

inductive session :: "('d, 'o, 'f, 'json) kernel_env \<Rightarrow> ContextId \<Rightarrow> 'd KernelStore \<Rightarrow> bool"
  for E :: "('d, 'o, 'f, 'json) kernel_env" and ctx where
  created: "\<not> document_exists d ctx \<Longrightarrow> log_rows ctx d = [] \<Longrightarrow> \<not> compacted ctx d \<Longrightarrow>
    create_document E now ctx kind language (kernel_with_db_and_flows d ws p) = Some (k, Inr ()) \<Longrightarrow> session E ctx k"
| call: "session E ctx k \<Longrightarrow> durable_call E ctx k k' \<Longrightarrow> session E ctx k'"

lemma insert_document_ok:
  "insert_document fault row d = (d', Inr ()) \<Longrightarrow> document_exists d' (dr_document_id row)
     \<and> log_rows ctx d' = log_rows ctx d \<and> compacted ctx d' = compacted ctx d"
  by (auto simp: insert_document_def db_call_ok log_rows_def compacted_def document_exists_def split: if_splits)

lemma foreign_key_not_recovered:
  "\<not> str_contains (KernelDbError_to_string (KernelDbError.Validation ''FOREIGN KEY constraint failed'')) ''UNIQUE constraint''"
  "\<not> str_contains (KernelDbError_to_string (KernelDbError.Validation ''FOREIGN KEY constraint failed'')) ''already exists''"
  by code_simp+

lemma created_document:
  fixes E :: "('d, 'o, 'f, 'json) kernel_env"
  assumes "ke_fault E = (\<lambda>_. None)" and "\<not> document_exists d ctx"
    and "create_document E now ctx kind language (kernel_with_db_and_flows d ws p) = Some (k, Inr ())"
  obtains row d' where "ks_db k = Some d'" "ks_documents k ctx = Some (entry_new ctx kind language p)"
    and "insert_document (ke_fault E) row d = (d', Inr ())" and "dr_document_id row = ctx"
proof -
  let ?k = "kernel_with_db_and_flows d ws p :: 'd KernelStore"
  let ?row = "document_row E now ctx kind language None ?k"
  have db: "ks_db ?k = Some d" "ks_principal_id ?k = p" and new: "ks_documents ?k ctx = None"
    by (simp_all add: kernel_with_db_and_flows_def kernel_with_db_def kernel_new_def)
  have row: "dr_document_id ?row = ctx" "dr_path ?row = None" by (simp_all add: document_row_def)
  from assms(3) new obtain k1 where k1: "persist_row E ?row ?k = Some (k1, Inr ())"
      "k = k1\<lparr>ks_documents := (ks_documents k1)(ctx \<mapsto> entry_new ctx kind language (ks_principal_id ?k))\<rparr>"
    by (auto simp: create_document_def create_document_at_def run_ok put_entry_def split: if_splits)
  obtain d' r where ins: "insert_document (ke_fault E) ?row d = (d', r)" by force
  have "r = Inr ()"
  proof (rule ccontr)
    assume "r \<noteq> Inr ()"
    then have "r = Inl (KernelDbError.Validation ''FOREIGN KEY constraint failed'')"
      using ins assms(1,2) row
      by (auto simp: insert_document_def db_call_def document_exists_def path_taken_def Let_def split: if_splits)
    then show False using k1(1) ins db foreign_key_not_recovered by (auto simp: persist_row_def Let_def)
  qed
  with k1 ins db row show thesis
    by (intro that [of d' ?row]) (auto simp: persist_row_def)
qed

lemma session_backed:
  assumes "ke_fault E = (\<lambda>_. None)"
  shows "session E ctx k \<Longrightarrow> backed E ctx k"
proof (induction rule: session.induct)
  case (created d now kind language ws p k)
  obtain row d' where k: "ks_db k = Some d'" "ks_documents k ctx = Some (entry_new ctx kind language p)"
    and ins: "insert_document (ke_fault E) row d = (d', Inr ())" "dr_document_id row = ctx"
    by (rule created_document [OF assms created(1,4)])
  from insert_document_ok [OF ins(1), of ctx] ins(2) created(2) k show ?case
    by (auto simp: backed_def entry_new_def logged_def intro!: exI [of _ "[]"] journalled.start)
qed (rule backed_call)

lemma sorted_rows:
  assumes "map fst (log_rows ctx d) = [1..<Suc n]"
  shows "map (\<lambda>r. (or_seq r, or_payload r)) (sort_key or_seq (filter (\<lambda>r. or_document_id r = ctx \<and> 0 < or_seq r) (kd_oplog d))) = log_rows ctx d"
proof -
  let ?rs = "filter (\<lambda>r. or_document_id r = ctx) (kd_oplog d)"
  have seqs: "map or_seq ?rs = [1..<Suc n]" using assms by (simp add: log_rows_def comp_def)
  have pos: "0 < or_seq r" if "r \<in> set ?rs" for r
  proof -
    have "or_seq r \<in> set (map or_seq ?rs)" using that by simp
    then show ?thesis unfolding seqs by auto
  qed
  have "filter (\<lambda>r. or_document_id r = ctx \<and> 0 < or_seq r) (kd_oplog d) = ?rs"
    using pos by (intro filter_cong refl) auto
  moreover have "sort_key or_seq ?rs = ?rs"
    by (intro sort_key_id_if_sorted) (simp only: seqs sorted_upt)
  ultimately show ?thesis by (simp add: log_rows_def)
qed

lemma fold_max_upt: "fold max [1..<Suc n] 0 = n"
  by (induction n) simp_all

lemma session_reloads:
  fixes E :: "('d, 'o, 'f, 'json) kernel_env"
  assumes "dte_ok (ke_dte E)" and "replica_ok (ke_dte E) rep" and "codec_ok E" and "ke_fault E = (\<lambda>_. None)"
    and "session E ctx k" and "ks_documents k ctx = Some e" and "ks_db k = Some d" and "\<not> compacted ctx d"
    and k0: "ks_documents k0 ctx = None" "ks_db k0 = Some d" "ks_principal_id k0 = q"
  shows "\<exists>k' e'. load_one_from_db E now ctx k0 = Some (k', Inr True)
     \<and> ks_documents k' ctx = Some e' \<and> store_ok (de_doc e')
     \<and> (\<forall>i. get_block_snapshot (ke_dte E) (de_doc e') i = get_block_snapshot (ke_dte E) (de_doc e) i)
     \<and> block_ids_ordered (de_doc e') = block_ids_ordered (de_doc e)
     \<and> de_next_journal_seq e' = de_next_journal_seq e"
proof -
  let ?D = "ke_dte E"
  from session_backed [OF assms(4,5)] assms(6-8) obtain js where ex: "document_exists d ctx"
    and j: "journalled ?D ctx (de_doc e) js" "logged E (log_rows ctx d) js"
    and seqs: "map fst (log_rows ctx d) = [1..<Suc (de_next_journal_seq e)]"
    by (auto simp: backed_def)
  obtain r where r: "replay_oplog E (log_rows ctx d) (store_new ctx q) = Some r" "mirrored rep (de_doc e) r"
    using journal_mirrored [OF assms(1-3) j] by blast
  have ok: "store_ok r" by (rule replay_keeps_ok [OF r(1) store_ok_new])
  have view: "get_block_snapshot ?D r i = get_block_snapshot ?D (de_doc e) i" for i
    by (rule mirrored_view [OF assms(2) r(2)])
  have order: "block_ids_ordered r = block_ids_ordered (de_doc e)"
    using view_determines_order(1) [OF _ _ view] ok journalled_ok [OF j(1)] by (simp add: store_ok_def)
  obtain row where row: "List.find (\<lambda>r. dr_document_id r = ctx) (kd_documents d) = Some row" "dr_document_id row = ctx"
    using ex by (cases "List.find (\<lambda>r. dr_document_id r = ctx) (kd_documents d)")
      (auto simp: document_exists_def find_None_iff find_Some_iff)
  have nosnap: "List.find (\<lambda>r. sr_document_id r = ctx) (kd_snapshots d) = None"
    using assms(8) by (auto simp: find_None_iff compacted_def)
  have last: "fold max (map fst (log_rows ctx d)) 0 = de_next_journal_seq e"
    unfolding seqs by (rule fold_max_upt)
  define e' where "e' = entry_of_store r (dr_doc_kind row) (dr_language row) q (de_next_journal_seq e)
      (length (log_rows ctx d)) (sum_list (map (length \<circ> snd) (log_rows ctx d)))"
  have rows: "load_oplog_since (\<lambda>_. None) ctx 0 d1 = (d1\<lparr>kd_calls := kd_calls d1 + 1\<rparr>, Inr (log_rows ctx d))"
    if "kd_oplog d1 = kd_oplog d" for d1
    unfolding load_oplog_since_def db_call_def using that sorted_rows [OF seqs] by (simp add: Let_def)
  have "\<exists>k'. load_one_from_db E now ctx k0 = Some (k', Inr True) \<and> ks_documents k' ctx = Some e'"
    using k0 row nosnap r(1) last
    by (simp add: load_one_from_db_def kbind_def on_db_def get_document_def load_document_def load_latest_snapshot_def
        rows base_store_def db_call_def assms(4) Let_def put_entry_def kret_def e'_def)
  moreover have "de_doc e' = r" "de_next_journal_seq e' = de_next_journal_seq e" by (simp_all add: e'_def entry_of_store_def)
  ultimately show ?thesis using ok view order by metis
qed

text \<open>
  C4: A document created on a kernel with a database and changed by operations that the journal carries is
  read back by a kernel that starts on that database: the load succeeds, and the loaded document satisfies
  the store invariant, has the same blocks in the same order, and continues the journal at the same
  sequence number.

  The operations are those of \<open>durable_call\<close>: the eight insertions (a snapshot with timestamps that are
  not ahead of the clock), text edits and appends, deletions, and the writes of the status (when it does not
  start a validation), of the collapsed, ephemeral, excluded and compacted flags, of the content type and
  of the exit code.  Other journalled operations are excluded, moves and the writes of output, error
  output, signature and tool-use id because their effect is lost (theory \<open>Journal\<close>), and merges of remote
  payloads.  The calls succeed and are all for this document; the database never fails; the codec reads
  back what it wrote; the document library replays its operations (\<open>replica_ok\<close>); and no compaction has
  replaced the log by a snapshot yet.
\<close>

theorem restart_restores:
  fixes E :: "('d, 'o, 'f, 'json) kernel_env"
  assumes "dte_ok (ke_dte E)" and "replica_ok (ke_dte E) rep" and "codec_ok E" and "ke_fault E = (\<lambda>_. None)"
    and "session E ctx k" and "ks_documents k ctx = Some e" and "ks_db k = Some d" and "\<not> compacted ctx d"
  shows "\<exists>k' e'. load_one_from_db E now ctx (kernel_with_db d ws q) = Some (k', Inr True)
     \<and> ks_documents k' ctx = Some e' \<and> store_ok (de_doc e')
     \<and> (\<forall>i. get_block_snapshot (ke_dte E) (de_doc e') i = get_block_snapshot (ke_dte E) (de_doc e) i)
     \<and> block_ids_ordered (de_doc e') = block_ids_ordered (de_doc e)
     \<and> de_next_journal_seq e' = de_next_journal_seq e"
  by (rule session_reloads [OF assms, where q = q]) (simp_all add: kernel_with_db_def kernel_new_def)

text \<open>A session for the witness: a document with one note.\<close>

definition empty_db :: KernelDb where
  "empty_db = \<lparr>kd_workspaces = {7}, kd_documents = [], kd_oplog = [], kd_snapshots = [], kd_activity = Map.empty, kd_calls = 0\<rparr>"

abbreviation note_env :: "Status \<Rightarrow> (string option, string option, unit, string) kernel_env" where
  "note_env st \<equiv> journal_env [note_payload st]"

definition kernel_created :: "Status \<Rightarrow> string option KernelStore" where
  "kernel_created st = fst (the (create_document (note_env st) 5 1 DocKind.Conversation None (kernel_with_db_and_flows empty_db 7 2)))"

abbreviation insert_hi :: "Status \<Rightarrow> (string option KernelStore, BlockId) kop" where
  "insert_hi st \<equiv> kernel_insert_block_as (note_env st) 7 1 None None Role.User BlockKind.Text ''hi'' st Plain (Some 2)"

definition kernel_noted :: "Status \<Rightarrow> string option KernelStore" where
  "kernel_noted st = fst (the (insert_hi st (kernel_created st)))"

lemma kernel_created_run:
  "create_document (note_env st) 5 1 DocKind.Conversation None (kernel_with_db_and_flows empty_db 7 2) = Some (kernel_created st, Inr ())"
  by (simp add: kernel_created_def create_document_def create_document_at_def kbind_def persist_row_def insert_document_def db_call_def
      kernel_with_db_and_flows_def kernel_with_db_def kernel_new_def document_exists_def path_taken_def document_row_def
      empty_db_def put_entry_def journal_env_def kret_def)

lemma noted_readable: "get_block_snapshot reference_dte (noted st) (BlockId 1 2 0) \<noteq> None"
  by (simp add: posted_def insert_block_def new_block_id_def reserve_block_id_def next_seq_for_def store_new_def Let_def case_prod_unfold put_block_def
      get_block_snapshot_def bt_get_insert)

lemma kernel_noted_run: "insert_hi st (kernel_created st) = Some (kernel_noted st, Inr (BlockId 1 2 0))"
  "map_option de_doc (ks_documents (kernel_noted st) 1) = Some (noted st)"
  "\<not> compacted 1 (the (ks_db (kernel_noted st)))" "ks_db (kernel_noted st) \<noteq> None"
  "ks_documents (kernel_noted st) ctx = Some e \<Longrightarrow> de_doc e = noted st \<and> de_next_journal_seq e = 1"
  "ks_documents (kernel_created st) ctx = Some e \<Longrightarrow> de_doc e = store_new 1 2 \<and> de_next_journal_seq e = 0"
proof -
  have a: "insert_block reference_dte 7 None None Role.User BlockKind.Text ''hi'' st Plain (store_new 1 2) = (noted st, Inr (BlockId 1 2 0))"
    using posted_run by (simp add: posted_def)
  obtain snap where b: "get_block_snapshot reference_dte (noted st) (BlockId 1 2 0) = Some snap" using noted_readable by blast
  have c: "encode_payload (note_env st) (note_payload st) = Inr []" "ke_dte (note_env st) = reference_dte" "ke_fault (note_env st) = (\<lambda>_. None)"
    by (simp_all add: journal_env_def)
  have p: "set_principal_id 2 (store_new 1 2) = store_new 1 2" by (simp add: set_principal_id_def store_new_def)
  note defs = kernel_noted_def kernel_created_def create_document_def create_document_at_def kbind_def persist_row_def insert_document_def
    db_call_def kernel_with_db_and_flows_def kernel_with_db_def kernel_new_def document_exists_def path_taken_def document_row_def
    empty_db_def put_entry_def kret_def kernel_insert_block_as_def insert_with_def on_entry_def insert_body_def as_agent_def crdt_def
    lift_codec_def journal_op_def recompute_live_status_def journaling_db_def on_db_def append_op_def touch_context_activity_def
    effective_agent_def entry_new_def entry_touch_def emit_def COMPACTION_OP_THRESHOLD_def COMPACTION_BYTE_THRESHOLD_def compacted_def
  show "insert_hi st (kernel_created st) = Some (kernel_noted st, Inr (BlockId 1 2 0))"
    "map_option de_doc (ks_documents (kernel_noted st) 1) = Some (noted st)"
    "\<not> compacted 1 (the (ks_db (kernel_noted st)))" "ks_db (kernel_noted st) \<noteq> None"
    by (simp_all add: defs a b c p Let_def)
  show "de_doc e = noted st \<and> de_next_journal_seq e = 1" if "ks_documents (kernel_noted st) ctx = Some e" for e
    using that by (simp add: defs a b c p Let_def split: if_splits) auto
  show "de_doc e = store_new 1 2 \<and> de_next_journal_seq e = 0" if "ks_documents (kernel_created st) ctx = Some e" for e
    using that by (simp add: defs a b c p Let_def split: if_splits) auto
qed

lemma noted_session: "session (note_env st) 1 (kernel_noted st)"
proof -
  have "session (note_env st) 1 (kernel_created st)"
    by (rule session.created [OF _ _ _ kernel_created_run])
      (simp_all add: empty_db_def document_exists_def log_rows_def compacted_def)
  then show ?thesis by (rule session.call [OF _ durable_call.block [OF kernel_noted_run(1)]])
qed

lemma note_env_ok: "dte_ok (ke_dte (note_env st))" "replica_ok (ke_dte (note_env st)) (=)" "codec_ok (note_env st)" "ke_fault (note_env st) = (\<lambda>_. None)"
  by (simp_all add: journal_env_ok reference_dte_ok reference_replica) (simp add: journal_env_def)

theorem restart_restores_witness:
  "map_option (\<lambda>(k, r). (r, map_option (block_ids_ordered \<circ> de_doc) (ks_documents k 1)))
     (load_one_from_db (note_env Status.Done) 9 1 (kernel_with_db (the (ks_db (kernel_noted Status.Done))) 7 5))
     = Some (Inr True, Some [BlockId 1 2 0])"
proof -
  obtain d e where k: "ks_db (kernel_noted Status.Done) = Some d" "ks_documents (kernel_noted Status.Done) 1 = Some e"
      "de_doc e = noted Status.Done" "\<not> compacted 1 d"
    using kernel_noted_run(2-4) [of Status.Done] by auto
  have "block_ids_ordered (noted Status.Done) = [BlockId 1 2 0]" by code_simp
  with restart_restores [OF note_env_ok noted_session k(2,1,4), of 9 7 5] k show ?thesis by auto
qed

end
