(* ===== verification/Kernel_Props.thy ===== *)
theory Kernel_Props
  imports Kernel_Session Store_Fork
begin

text \<open>
  What the kernel's store keeps.  Every operation leaves each resident document well formed and only
  lets it grow, whatever the database does and wherever the operation fails; the cached status of a
  context follows its blocks through journalled operations.
\<close>

section \<open>Relations that operations respect\<close>

definition framed :: "('s \<Rightarrow> 's \<Rightarrow> bool) \<Rightarrow> ('s, 'a) kop \<Rightarrow> bool" where
  "framed R m \<longleftrightarrow> (\<forall>s s' r. m s = Some (s', r) \<longrightarrow> R s s')"

lemma framedD: "framed R m \<Longrightarrow> m s = Some (s', r) \<Longrightarrow> R s s'"
  by (simp add: framed_def)

text \<open>A reflexive and transitive relation on states passes through the operations' combinators.\<close>

locale kop_frame =
  fixes R :: "'s \<Rightarrow> 's \<Rightarrow> bool"
  assumes refl: "R s s" and trans: "R s t \<Longrightarrow> R t u \<Longrightarrow> R s u"
begin

lemma framed_kret: "framed R (kret a)" "framed R (kfail e)"
  by (auto simp: framed_def refl)

lemma framed_kbind:
  assumes "framed R m" and "\<And>a. framed R (f a)"
  shows "framed R (kbind m f)"
  unfolding framed_def
proof (intro allI impI)
  fix s s' r assume "kbind m f s = Some (s', r)"
  then consider "\<exists>e. m s = Some (s', Inl e)" | s1 a where "m s = Some (s1, Inr a)" "f a s1 = Some (s', r)"
    by (auto simp: kbind_Some)
  then show "R s s'"
    by cases (blast dest: framedD [OF assms(1)] framedD [OF assms(2)] intro: trans)+
qed

lemma framed_ignored: "framed R m \<Longrightarrow> framed R (ignored m)"
  by (auto simp: framed_def ignored_def split: option.splits)

lemma framed_each: "(\<And>x. framed R (f x)) \<Longrightarrow> framed R (each f xs)"
  by (induction xs) (auto intro: framed_kret framed_kbind)

lemma framed_reader:
  assumes "\<And>s. framed R (m s)"
  shows "framed R (\<lambda>s. m s s)"
  using assms by (auto simp: framed_def)

lemma framed_after:
  assumes "framed R m" and "\<And>s. R s (g s)"
  shows "framed R (\<lambda>s. m (g s))"
  unfolding framed_def using framedD [OF assms(1)] assms(2) trans by blast

lemmas framed_intros = framed_kret framed_kbind framed_ignored framed_each framed_reader framed_after

end

section \<open>Documents only grow\<close>

definition entry_kept :: "'d DocumentEntry \<Rightarrow> 'd DocumentEntry \<Rightarrow> bool" where
  "entry_kept e e' \<longleftrightarrow> safe (de_doc e) (de_doc e') \<and> de_kind e' = de_kind e \<and> de_language e' = de_language e
     \<and> de_next_journal_seq e \<le> de_next_journal_seq e'"

definition kernel_ok :: "'d KernelStore \<Rightarrow> bool" where
  "kernel_ok k \<longleftrightarrow> (\<forall>ctx e. ks_documents k ctx = Some e \<longrightarrow> store_ok (de_doc e))"

definition kept :: "'d KernelStore \<Rightarrow> 'd KernelStore \<Rightarrow> bool" where
  "kept k k' \<longleftrightarrow> (kernel_ok k \<longrightarrow> kernel_ok k') \<and>
     (\<forall>ctx e. ks_documents k ctx = Some e \<longrightarrow> (\<exists>e'. ks_documents k' ctx = Some e' \<and> entry_kept e e'))"

lemma entry_kept_trans: "entry_kept d e \<Longrightarrow> entry_kept e f \<Longrightarrow> entry_kept d f"
  by (auto simp: entry_kept_def intro: safe_trans)

interpretation entry_frame: kop_frame entry_kept
  by unfold_locales (auto simp: entry_kept_def intro: safe_trans)

interpretation kernel_frame: kop_frame kept
proof
  fix j k l :: "'d KernelStore"
  show "kept k k" by (auto simp: kept_def entry_kept_def)
  assume "kept j k" "kept k l"
  then show "kept j l" unfolding kept_def by (meson entry_kept_trans)
qed

lemma kept_same: "ks_documents k' = ks_documents k \<Longrightarrow> kept k k'"
  by (auto simp: kept_def kernel_ok_def entry_kept_def)

lemma kept_put:
  assumes "ks_documents k ctx = None \<or> (\<exists>e. ks_documents k ctx = Some e \<and> entry_kept e e')" and "ks_documents k ctx = None \<Longrightarrow> store_ok (de_doc e')"
  shows "kept k (k\<lparr>ks_documents := (ks_documents k)(ctx \<mapsto> e')\<rparr>)"
  using assms by (auto simp: kept_def kernel_ok_def entry_kept_def safe_def)

lemma framed_same: "(\<And>k k' r. m k = Some (k', r) \<Longrightarrow> ks_documents k' = ks_documents k) \<Longrightarrow> framed kept m"
  by (auto simp: framed_def intro: kept_same)

lemma framed_store: "framed kept (emit flow)" "framed kept (on_db f db)" "framed kept (recompute_live_status E ctx)"
    "framed kept journaling_db" "framed kept (lift_codec r)" "framed kept (get_entry ctx)" "framed kept (emit_metadata E ctx i)"
  by (rule framed_same; auto simp: emit_def on_db_def recompute_live_status_def journaling_db_def lift_codec_def get_entry_def
      emit_metadata_def Let_def split: prod.splits sum.splits option.splits if_splits)+

lemma framed_db_case:
  assumes "framed kept m" and "\<And>db. framed kept (f db)"
  shows "framed kept (\<lambda>k. case ks_db k of None \<Rightarrow> m k | Some db \<Rightarrow> f db k)"
  unfolding framed_def using framedD [OF assms(1)] framedD [OF assms(2)] by (auto split: option.splits)

lemma framed_on_entry: "framed entry_kept f \<Longrightarrow> framed kept (on_entry ctx f)"
  by (auto simp: framed_def on_entry_def intro!: kept_put kernel_frame.refl split: option.splits)

lemma framed_crdt: "(\<And>s s' r. op s = Some (s', r) \<Longrightarrow> safe s s') \<Longrightarrow> framed entry_kept (crdt op)"
  by (fastforce simp: framed_def crdt_def entry_kept_def split: option.splits sum.splits)

lemma kept_agent: "entry_kept e (as_agent p e)" "entry_kept e (entry_touch p e)" "entry_kept e (e\<lparr>de_version := v\<rparr>)"
    "entry_kept e (e\<lparr>de_uncompacted_count := a, de_uncompacted_bytes := b\<rparr>)"
  by (simp_all add: entry_kept_def as_agent_def entry_touch_def safe_principal)

lemma framed_codec: "framed entry_kept (lift_codec r)"
  by (auto simp: framed_def lift_codec_def entry_frame.refl split: sum.splits)

lemma framed_ret_after: "(\<And>e. entry_kept e (g e)) \<Longrightarrow> framed entry_kept (\<lambda>e. kret a (g e))"
  by (auto simp: framed_def)

lemma framed_insert_body:
  assumes "\<And>s s' r. op s = Some (s', r) \<Longrightarrow> safe s s'"
  shows "framed entry_kept (insert_body E agent op)"
proof -
  have rest: "framed entry_kept (\<lambda>e. case get_block_snapshot (ke_dte E) (de_doc e) i of
        None \<Rightarrow> kfail BlockNotFoundAfterInsert e
      | Some snap \<Rightarrow> (let ops = store_ops_since (ke_dte E) f (de_doc e)
          in kbind (lift_codec (encode_payload E ops)) (\<lambda>bs e. kret (i, snap, ops, bs) (entry_touch agent e)) e))" for i f
    by (auto simp: framed_def Let_def kbind_Some lift_codec_def intro: entry_frame.refl kept_agent split: option.splits sum.splits)
  have "framed entry_kept (\<lambda>e0. kbind (crdt op) (\<lambda>i e. case get_block_snapshot (ke_dte E) (de_doc e) i of
        None \<Rightarrow> kfail BlockNotFoundAfterInsert e
      | Some snap \<Rightarrow> (let ops = store_ops_since (ke_dte E) (store_frontier (ke_dte E) (de_doc (as_agent agent e0))) (de_doc e)
          in kbind (lift_codec (encode_payload E ops)) (\<lambda>bs e. kret (i, snap, ops, bs) (entry_touch agent e)) e)) (as_agent agent e0))"
    by (rule entry_frame.framed_reader, rule entry_frame.framed_after, rule entry_frame.framed_kbind, rule framed_crdt [OF assms], assumption, rule rest, rule kept_agent)
  then show ?thesis by (simp add: insert_body_def Let_def framed_def)
qed

lemma framed_mutate_body:
  assumes "\<And>s s' r. op s = (s', r) \<Longrightarrow> safe s s'"
  shows "framed entry_kept (mutate_body E agent op)"
  unfolding mutate_body_def [abs_def]
  by (rule entry_frame.framed_reader, rule entry_frame.framed_kbind, rule framed_crdt)
    (auto intro: assms framed_ret_after kept_agent simp: framed_def)

lemma framed_text_body:
  assumes "\<And>s s' r. op s = (s', r) \<Longrightarrow> safe s s'"
  shows "framed entry_kept (text_body E agent op)"
  unfolding text_body_def [abs_def]
  by (rule entry_frame.framed_after, intro entry_frame.framed_kbind framed_mutate_body framed_codec entry_frame.framed_kret)
    (auto intro: assms kept_agent)

lemma on_db_shape: "on_db f db k = Some (k', r) \<Longrightarrow> \<exists>db'. k' = k\<lparr>ks_db := Some db'\<rparr>"
  by (auto simp: on_db_def split: prod.splits sum.splits)

lemma lift_codec_shape: "lift_codec c s = Some (s', r) \<Longrightarrow> s' = s \<and> (\<forall>a. r = Inr a \<longrightarrow> c = Inr a)"
  by (auto simp: lift_codec_def split: sum.splits)

lemma compact_shape:
  assumes "compact_document E ctx k = Some (k', r)"
  shows "ks_documents k' = ks_documents k \<or>
    (\<exists>e. ks_documents k ctx = Some e \<and>
       ks_documents k' = (ks_documents k)(ctx \<mapsto> e\<lparr>de_uncompacted_count := 0, de_uncompacted_bytes := 0\<rparr>))"
proof (cases "ks_db k")
  case None
  with assms show ?thesis by (auto simp: compact_document_def kbind_Some journaling_db_def split: if_splits)
next
  case (Some db)
  show ?thesis
  proof (cases "ks_documents k ctx")
    case None
    with Some assms show ?thesis by (auto simp: compact_document_def kbind_Some journaling_db_def get_entry_def)
  next
    case e: (Some e)
    from assms Some e consider "k' = k"
      | bs m where "on_db (write_snapshot_and_truncate (ke_fault E) ctx (de_next_journal_seq e) (de_version e) bs
            (full_text (ke_dte E) (de_doc e))) db k = Some (k', Inl m)"
      | bs k1 where "on_db (write_snapshot_and_truncate (ke_fault E) ctx (de_next_journal_seq e) (de_version e) bs
            (full_text (ke_dte E) (de_doc e))) db k = Some (k1, Inr ())"
          "ks_documents k' = (ks_documents k1)(ctx \<mapsto> e\<lparr>de_uncompacted_count := 0, de_uncompacted_bytes := 0\<rparr>)"
      by (auto simp: compact_document_def kbind_Some journaling_db_def get_entry_def put_entry_def Let_def dest!: lift_codec_shape)
    then show ?thesis
      by cases (use e in \<open>auto dest!: lift_codec_shape on_db_shape\<close>)
  qed
qed

lemma framed_compact: "framed kept (compact_document E ctx)"
  unfolding framed_def
proof (intro allI impI)
  fix k k' r assume "compact_document E ctx k = Some (k', r)"
  from compact_shape [OF this] show "kept k k'"
  proof (elim disjE exE conjE)
    fix e assume e: "ks_documents k ctx = Some e"
      "ks_documents k' = (ks_documents k)(ctx \<mapsto> e\<lparr>de_uncompacted_count := 0, de_uncompacted_bytes := 0\<rparr>)"
    have "kept k (k\<lparr>ks_documents := (ks_documents k)(ctx \<mapsto> e\<lparr>de_uncompacted_count := 0, de_uncompacted_bytes := 0\<rparr>)\<rparr>)"
      using e(1) kept_agent(4) by (intro kept_put) auto
    moreover have "kept (k\<lparr>ks_documents := (ks_documents k)(ctx \<mapsto> e\<lparr>de_uncompacted_count := 0, de_uncompacted_bytes := 0\<rparr>)\<rparr>) k'"
      by (rule kept_same) (simp add: e(2))
    ultimately show "kept k k'" by (rule kernel_frame.trans)
  qed (rule kept_same)
qed

lemma framed_journal: "framed kept (journal_op E now ctx p)"
proof -
  have entry: "framed entry_kept (\<lambda>e. let e = e\<lparr>de_next_journal_seq := de_next_journal_seq e + 1,
       de_uncompacted_count := de_uncompacted_count e + 1, de_uncompacted_bytes := de_uncompacted_bytes e + length bs\<rparr>
     in kret (de_next_journal_seq e, de_uncompacted_count e, de_uncompacted_bytes e) e)" for bs
    by (auto simp: framed_def entry_kept_def Let_def)
  have tail: "framed kept (\<lambda>k. case ks_db k of None \<Rightarrow> kret () k
       | Some db \<Rightarrow> kbind (on_db f db) (\<lambda>_. if b then compact_document E ctx else kret ()) k)" for f :: "KernelDb \<Rightarrow> unit dbres" and b
    by (rule framed_db_case) (auto intro: kernel_frame.framed_kret kernel_frame.framed_kbind framed_store framed_compact)
  show ?thesis unfolding journal_op_def
    by (auto intro!: kernel_frame.framed_kbind kernel_frame.framed_kret framed_store framed_on_entry entry [simplified Let_def, simplified] tail split: option.split)
qed

text \<open>The three shapes.\<close>

lemma framed_insert_with:
  assumes "\<And>s s' r. op s = Some (s', r) \<Longrightarrow> safe s s'"
  shows "framed kept (insert_with E now ctx after p op)"
proof -
  have "framed kept (kbind (on_entry ctx (insert_body E a op)) (\<lambda>(i, snap, ops, bs).
     kbind (journal_op E now ctx ops) (\<lambda>_. kbind (emit (BlockFlow.Inserted ctx snap after bs Local)) (\<lambda>_. kret i))))" for a
    by (auto intro!: kernel_frame.framed_kbind kernel_frame.framed_kret framed_store framed_on_entry framed_insert_body framed_journal
        intro: assms split: prod.split)
  then show ?thesis unfolding insert_with_def [abs_def] by (rule kernel_frame.framed_reader)
qed

lemma framed_mutate_with:
  assumes "\<And>s s' r. op s = (s', r) \<Longrightarrow> safe s s'"
  shows "framed kept (mutate_with E now ctx op)"
proof -
  have "framed kept (kbind (on_entry ctx (mutate_body E a op)) (journal_op E now ctx))" for a
    by (intro kernel_frame.framed_kbind framed_on_entry framed_mutate_body framed_journal) (rule assms)
  then show ?thesis unfolding mutate_with_def [abs_def] by (rule kernel_frame.framed_reader)
qed

lemma framed_text_with:
  assumes "\<And>s s' r. op s = (s', r) \<Longrightarrow> safe s s'"
  shows "framed kept (text_with E now ctx i p op)"
proof -
  have tail: "framed kept (\<lambda>k. let (k, n) = next_block_text_seq ctx k in emit (BlockFlow.TextOps ctx i bs Local n) k)" for bs
    by (rule framed_same) (auto simp: next_block_text_seq_def Let_def emit_def)
  have "framed kept (kbind (on_entry ctx (text_body E a op)) (\<lambda>(ops, bs).
     kbind (journal_op E now ctx ops) (\<lambda>_ k. let (k, n) = next_block_text_seq ctx k in emit (BlockFlow.TextOps ctx i bs Local n) k)))" for a
    by (auto intro!: kernel_frame.framed_kbind framed_on_entry framed_text_body framed_journal tail [unfolded Let_def] intro: assms split: prod.split)
  then show ?thesis unfolding text_with_def [abs_def] by (rule kernel_frame.framed_reader)
qed

section \<open>Every operation\<close>

lemma safe_pair: "local_call D s s' (err_of r) \<Longrightarrow> safe s s'"
  by (rule safe_local_call)

lemma safe_with_tool_use_id:
  assumes "with_tool_use_id tui out = (s', r)" and "\<And>s1 r. out = (s1, r) \<Longrightarrow> safe s s1"
  shows "safe s s'"
proof (cases out)
  case (Pair s1 r1)
  have "safe s1 (fst (store_set_tool_use_id i x s1))" for i x by (rule safe_live_setters)
  from safe_trans [OF assms(2) [OF Pair] this] assms(1) Pair assms(2) show ?thesis
    by (auto simp: with_tool_use_id_def dest: fst_eqD split: sum.splits option.splits prod.splits)
qed

lemma framed_insertions:
  "framed kept (kernel_insert_block_as E now ctx par after role kind content status ct p)"
  "framed kept (kernel_insert_tool_call_as E now ctx par after n inp tk p tui ro)"
  "framed kept (kernel_insert_tool_result_as E now ctx call after content err code tk p tui)"
  "framed kept (kernel_insert_from_snapshot_as E now ctx snap after p)"
  "framed kept (kernel_insert_drift_block_as E now ctx par after content src m dk p)"
  "framed kept (kernel_insert_notification_block_as E now ctx par np c p)"
  "framed kept (kernel_insert_resource_block_as E now ctx par rp c p)"
  "framed kept (kernel_insert_error_block_as E now ctx q ep c p)"
  unfolding insertion_defs kernel_insert_from_snapshot_as_def
proof -
  note step = safe_pair [OF local_call.ins]
  show "framed kept (insert_with E now ctx after p (\<lambda>s. Some (insert_block (ke_dte E) now par after role kind content status ct s)))"
    by (rule framed_insert_with) (metis step insert_step.block option.inject)
  show "framed kept (insert_with E now ctx after p (\<lambda>s. Some (with_tool_use_id tui
       (insert_tool_call (ke_dte E) (json_pretty E) now par after n inp tk ro s))))"
    by (rule framed_insert_with)
      (metis insert_tool_call_json safe_with_tool_use_id step insert_step.tool_call option.inject)
  show "framed kept (insert_with E now ctx after p (\<lambda>s. Some (with_tool_use_id tui
       (insert_tool_result_block (ke_dte E) now call after content err code tk s))))"
    by (rule framed_insert_with)
      (metis safe_with_tool_use_id step insert_step.tool_result option.inject)
  show "framed kept (insert_with E now ctx after p (\<lambda>s. Some (insert_from_snapshot (ke_dte E) snap after s)))"
    by (rule framed_insert_with) (metis safe_insert_from_snapshot fst_conv option.inject)
qed (rule framed_insert_with, metis safe_pair local_call.ins insert_step.drift insert_step.notification insert_step.resource insert_step.error)+

lemma framed_edits:
  "framed kept (kernel_edit_text_as E now ctx i pos ins del p)" "framed kept (kernel_append_text_as E now ctx i text p)"
  "framed kept (kernel_set_ephemeral E now ctx i v)" "framed kept (kernel_set_excluded E now ctx i v)"
  "framed kept (kernel_move_block E now ctx i after)" "framed kept (kernel_set_compacted E now ctx i v)"
  "framed kept (kernel_set_content_type E now ctx i ct)" "framed kept (kernel_set_exit_code E now ctx i code)"
  "framed kept (kernel_set_stderr E now ctx i x)" "framed kept (kernel_set_signature E now ctx i x)"
  "framed kept (kernel_set_output E now ctx i od)" "framed kept (kernel_set_tool_use_id E now ctx i x)"
  "framed kept (kernel_set_collapsed E now ctx i v)" "framed kept (kernel_delete_block E now ctx i)"
  unfolding kernel_edit_text_as_def kernel_append_text_as_def kernel_set_ephemeral_def kernel_set_excluded_def kernel_move_block_def
    kernel_set_compacted_def kernel_set_content_type_def kernel_set_exit_code_def kernel_set_stderr_def kernel_set_signature_def
    kernel_set_output_def kernel_set_tool_use_id_def kernel_set_collapsed_def kernel_delete_block_def
  by (intro kernel_frame.framed_kbind framed_store framed_mutate_with framed_text_with;
    erule local_call.intros [THEN safe_pair])+

lemma framed_entry_case:
  assumes "\<And>e. framed kept (f e)"
  shows "framed kept (kbind (get_entry ctx) f)"
  by (intro kernel_frame.framed_kbind framed_store assms)

lemma framed_validate: "framed kept (validate_content_and_attach_errors E now ctx i)"
proof -
  have "framed kept (sync_errors E now ctx i errs olds)" for errs olds
    unfolding sync_errors_def Let_def
    by (auto intro!: kernel_frame.framed_kbind kernel_frame.framed_each kernel_frame.framed_ignored kernel_frame.framed_kret
        framed_edits framed_insertions split: option.split prod.split)
  then show ?thesis unfolding validate_content_and_attach_errors_def
    by (auto intro!: framed_entry_case kernel_frame.framed_kret split: option.split ContentType.split)
qed

lemma framed_set_status: "framed kept (kernel_set_status E now ctx i st)"
proof -
  have "framed kept (\<lambda>k. let ct = map_option bs_content_type
                  (Option.bind (ks_documents k ctx) (\<lambda>e. get_block_snapshot (ke_dte E) (de_doc e) i))
       in if st = Status.Done \<and> ct \<in> {Some ContentType.Abc, Some ContentType.Svg}
          then ignored (validate_content_and_attach_errors E now ctx i) k else kret () k)"
    using framedD [OF kernel_frame.framed_ignored [OF framed_validate]] kernel_frame.refl
    by (auto simp: framed_def Let_def split: if_splits)
  then show ?thesis unfolding kernel_set_status_def
    by (intro kernel_frame.framed_kbind framed_mutate_with framed_store) (erule local_call.status [THEN safe_pair])
qed

lemma diff_events_frame:
  fixes k :: "'d KernelStore"
  shows "ks_documents (fst (diff_block_events ctx bef aft bs k)) = ks_documents k"
proof -
  have step: "ks_documents (fst (changed_events ctx bs old s k)) = ks_documents k" for old s and k :: "'d KernelStore"
    by (simp add: changed_events_def next_block_text_seq_def Let_def)
  have "ks_documents (fst (fold (\<lambda>s (k, es). case g (bs_id s) of
       Some old \<Rightarrow> (let (k, new) = changed_events ctx bs old s k in (k, es @ new)) | None \<Rightarrow> (k, es)) xs (k, es))) = ks_documents k"
    for g xs es and k :: "'d KernelStore"
    by (induction xs arbitrary: k es) (auto simp: Let_def case_prod_unfold step split: option.split)
  then show ?thesis by (simp add: diff_block_events_def)
qed

lemma framed_merge_ops: "framed kept (kernel_merge_ops E now ctx payload)"
proof -
  have merge: "safe s s'" if "Some (store_merge_ops (ke_dte E) payload s) = Some (s', r)" for s s' r
    using safe_store_merge_ops [of s "ke_dte E" payload] that by simp
  have body: "framed entry_kept (merge_body E payload)"
  proof -
    have inner: "framed entry_kept (\<lambda>e. let v = st_version (de_doc e); ops = store_ops_since (ke_dte E) f (de_doc e)
       in kbind (lift_codec (encode_payload E ops)) (\<lambda>bs. kret (v, bef, blocks_ordered (ke_dte E) (de_doc e), ops, bs)) (e\<lparr>de_version := v\<rparr>))"
      for f bef
      by (auto simp: framed_def Let_def kbind_Some dest!: lift_codec_shape intro: kept_agent)
    have "framed entry_kept (kbind (crdt (\<lambda>s. Some (store_merge_ops (ke_dte E) payload s))) (\<lambda>_ e.
       let v = st_version (de_doc e); ops = store_ops_since (ke_dte E) f (de_doc e)
       in kbind (lift_codec (encode_payload E ops)) (\<lambda>bs. kret (v, bef, blocks_ordered (ke_dte E) (de_doc e), ops, bs)) (e\<lparr>de_version := v\<rparr>)))"
      for f bef
      by (rule entry_frame.framed_kbind [OF framed_crdt inner]) (rule merge)
    then show ?thesis unfolding merge_body_def [abs_def] by (rule entry_frame.framed_reader)
  qed
  have tail: "framed kept (\<lambda>k. let (k, events) = diff_block_events ctx bef aft bs k
       in kbind (each emit events) (\<lambda>_. kbind (journal_op E now ctx ops) (\<lambda>_. kret v)) k)" for bef aft bs ops v
  proof -
    have "framed kept (kbind (each emit events) (\<lambda>_. kbind (journal_op E now ctx ops) (\<lambda>_. kret v)))" for events
      by (intro kernel_frame.framed_kbind kernel_frame.framed_each framed_store framed_journal kernel_frame.framed_kret)
    note rest = framedD [OF this]
    show ?thesis unfolding framed_def
      by (intro allI impI, rule kernel_frame.trans [OF kept_same [OF diff_events_frame] rest]) (simp add: Let_def case_prod_unfold)
  qed
  then show ?thesis unfolding kernel_merge_ops_def
    by (auto intro!: kernel_frame.framed_kbind framed_on_entry body simp: Let_def split: prod.split)
qed

lemma kept_new: "ks_documents k ctx = None \<Longrightarrow> store_ok (de_doc e) \<Longrightarrow> kept k (k\<lparr>ks_documents := (ks_documents k)(ctx \<mapsto> e)\<rparr>)"
  by (rule kept_put) auto

lemma persist_shape: "persist_row E row k = Some (k', r) \<Longrightarrow> ks_documents k' = ks_documents k"
  by (auto simp: persist_row_def Let_def split: option.splits prod.splits sum.splits if_splits)

lemma framed_create: "framed kept (create_document_at E now ctx kind language path)"
  unfolding framed_def
proof (intro allI impI)
  fix k k' r assume run: "create_document_at E now ctx kind language path k = Some (k', r)"
  show "kept k k'"
  proof (cases "ks_documents k ctx")
    case None
    with run consider "ks_documents k' = ks_documents k"
      | k1 p where "ks_documents k1 = ks_documents k" "k' = k1\<lparr>ks_documents := (ks_documents k1)(ctx \<mapsto> entry_new ctx kind language p)\<rparr>"
      by (auto simp: create_document_at_def kbind_Some put_entry_def dest!: persist_shape)
    then show ?thesis
    proof cases
      case 2
      then have "kept k1 k'" using None unfolding 2(2) by (intro kept_new) (simp_all add: entry_new_def store_ok_new)
      with kept_same [OF 2(1)] show ?thesis by (rule kernel_frame.trans)
    qed (rule kept_same)
  next
    case (Some e)
    with run show ?thesis by (auto simp: create_document_at_def intro: kernel_frame.refl)
  qed
qed

lemma framed_restore: "framed kept (create_document_from_snapshot E now ctx kind language bs)"
  by (auto simp: framed_def create_document_from_snapshot_def put_entry_def entry_of_store_def
      dest: store_from_snapshot_ok intro!: kept_new kernel_frame.refl split: if_splits sum.splits)

lemma write_initial_shape: "write_initial_snapshot E ctx k = Some (k', r) \<Longrightarrow> ks_documents k' = ks_documents k"
  by (auto simp: write_initial_snapshot_def kbind_Some journaling_db_def get_entry_def dest!: lift_codec_shape on_db_shape
      split: if_splits option.splits)

lemma install_fork_kept:
  assumes "install_fork E now new_id src forked k = Some (k', r)" and "ks_documents k new_id = None" and "store_ok forked"
  shows "kept k k'"
proof -
  let ?e = "entry_of_store forked (de_kind src) (de_language src) (ks_principal_id k) 0 0 0"
  let ?row = "case ks_db k of None \<Rightarrow> kret () | Some db \<Rightarrow>
     on_db (insert_document (ke_fault E) (document_row E now new_id (de_kind src) (de_language src) None k)) db"
  have row: "ks_documents k1 = ks_documents k" if "?row k = Some (k1, u)" for k1 u
    using that by (auto dest: on_db_shape split: option.splits)
  have put: "kept k k1" if "kbind (put_entry new_id ?e) (\<lambda>_. write_initial_snapshot E new_id) k0 = Some (k1, u)"
      and "ks_documents k0 = ks_documents k" for k0 k1 u
  proof -
    have "ks_documents k1 = (ks_documents k)(new_id \<mapsto> ?e)"
      using that by (auto simp: kbind_Some put_entry_def dest: write_initial_shape)
    then have "kept (k\<lparr>ks_documents := (ks_documents k)(new_id \<mapsto> ?e)\<rparr>) k1" by (intro kept_same) simp
    moreover have "kept k (k\<lparr>ks_documents := (ks_documents k)(new_id \<mapsto> ?e)\<rparr>)"
      by (rule kept_new) (simp_all add: assms(2,3) entry_of_store_def)
    ultimately show ?thesis using kernel_frame.trans by blast
  qed
  show ?thesis using assms(1) row put unfolding install_fork_def kbind_Some [of ?row] by (auto intro: kept_same)
qed

lemma framed_fork_with:
  assumes "\<And>s. store_ok (build s)"
  shows "fork_with E now source_id new_id before build k = Some (k', r) \<Longrightarrow> kept k k'"
  using install_fork_kept [OF _ _ assms, of E now new_id]
  by (fastforce simp: fork_with_def kbind_Some get_entry_def intro: kernel_frame.refl split: if_splits option.splits)

lemma framed_forks:
  "framed kept (fork_document E now src new_id)" "framed kept (fork_document_at_version E now src new_id before)"
  "framed kept (fork_document_filtered E now src new_id before f)"
  unfolding framed_def fork_document_def fork_document_at_version_def fork_document_filtered_def
  by (blast intro: framed_fork_with store_ok_forks)+

lemma load_document_ok: "load_document E now p row db = (db', Inr (Some e)) \<Longrightarrow> store_ok (de_doc e)"
  by (auto simp: load_document_def base_store_def entry_of_store_def Let_def dest!: replay_keeps_ok store_from_snapshot_ok
      intro: store_ok_new split: prod.splits option.splits sum.splits)

lemma framed_load_one: "framed kept (load_one_from_db E now ctx)"
  unfolding framed_def
proof (intro allI impI)
  fix k k' r assume run: "load_one_from_db E now ctx k = Some (k', r)"
  have put: "kept k l" if "kbind (on_db (load_document E now p row) db) (\<lambda>r. case r of None \<Rightarrow> kret False
        | Some e \<Rightarrow> kbind (put_entry ctx e) (\<lambda>_. kret True)) k1 = Some (l, u)"
      and "ks_documents k1 = ks_documents k" and "ks_documents k ctx = None" for p row db k1 l u
  proof -
    obtain db1 x where ld: "load_document E now p row db = (db1, x)" by force
    show ?thesis
    proof (cases "\<exists>e. x = Inr (Some e)")
      case True
      then obtain e where e: "x = Inr (Some e)" by blast
      then have "ks_documents l = (ks_documents k)(ctx \<mapsto> e)"
        using that ld by (auto simp: kbind_Some on_db_def put_entry_def)
      then have "kept (k\<lparr>ks_documents := (ks_documents k)(ctx \<mapsto> e)\<rparr>) l" by (intro kept_same) simp
      moreover have "kept k (k\<lparr>ks_documents := (ks_documents k)(ctx \<mapsto> e)\<rparr>)"
        by (rule kept_new [OF that(3)]) (use load_document_ok ld e in blast)
      ultimately show ?thesis using kernel_frame.trans by blast
    next
      case False
      then have "ks_documents l = ks_documents k"
        using that ld by (auto simp: kbind_Some on_db_def split: sum.splits option.splits)
      then show ?thesis by (rule kept_same)
    qed
  qed
  show "kept k k'"
  proof (cases "ks_db k")
    case None
    with run show ?thesis by (auto simp: load_one_from_db_def intro: kernel_frame.refl)
  next
    case (Some db)
    show ?thesis
    proof (cases "ks_documents k ctx")
      case None
      with run Some have "kbind (on_db (get_document (ke_fault E) ctx) db) (\<lambda>row k. case (row, ks_db k) of
          (Some row, Some db) \<Rightarrow> kbind (on_db (load_document E now (ks_principal_id k) row) db) (\<lambda>r. case r of None \<Rightarrow> kret False
            | Some e \<Rightarrow> kbind (put_entry ctx e) (\<lambda>_. kret True)) k
        | _ \<Rightarrow> kret False k) k = Some (k', r)"
        by (simp add: load_one_from_db_def)
      from kbind_Some [THEN iffD1, OF this] show ?thesis
      proof (elim disjE exE conjE)
        fix k1 e assume "on_db (get_document (ke_fault E) ctx) db k = Some (k1, Inl e)" "k' = k1"
        then show ?thesis by (auto dest!: on_db_shape intro!: kept_same)
      next
        fix k1 row assume "on_db (get_document (ke_fault E) ctx) db k = Some (k1, Inr row)"
          and rest: "(case (row, ks_db k1) of
              (Some row, Some db) \<Rightarrow> kbind (on_db (load_document E now (ks_principal_id k1) row) db) (\<lambda>r. case r of None \<Rightarrow> kret False
                | Some e \<Rightarrow> kbind (put_entry ctx e) (\<lambda>_. kret True)) k1
            | _ \<Rightarrow> kret False k1) = Some (k', r)"
        then have "ks_documents k1 = ks_documents k" by (auto dest: on_db_shape)
        with rest None put show ?thesis by (cases row; cases "ks_db k1") (auto intro: kept_same)
      qed
    next
      case (Some e)
      with run \<open>ks_db k = Some db\<close> show ?thesis by (auto simp: load_one_from_db_def intro: kernel_frame.refl)
    qed
  qed
qed

text \<open>The calls on resident documents, each with its outcome, success or failure.\<close>

inductive resident_call :: "('d, 'o, 'f, 'json) kernel_env \<Rightarrow> 'd KernelStore \<Rightarrow> 'd KernelStore \<Rightarrow> bool"
  for E :: "('d, 'o, 'f, 'json) kernel_env" where
  create: "create_document E now ctx kind language k = Some (k', r0) \<Longrightarrow> resident_call E k k'"
| create_path: "create_document_with_path E now ctx kind language path k = Some (k', r0) \<Longrightarrow> resident_call E k k'"
| restore: "create_document_from_snapshot E now ctx kind language bs k = Some (k', r0) \<Longrightarrow> resident_call E k k'"
| insert_block: "kernel_insert_block_as E now ctx par after role kind0 content status ct p k = Some (k', r1) \<Longrightarrow> resident_call E k k'"
| tool_call: "kernel_insert_tool_call_as E now ctx par after n inp tk p tui ro k = Some (k', r1) \<Longrightarrow> resident_call E k k'"
| tool_result: "kernel_insert_tool_result_as E now ctx call after content err code tk p tui k = Some (k', r1) \<Longrightarrow> resident_call E k k'"
| snapshot: "kernel_insert_from_snapshot_as E now ctx snap after p k = Some (k', r1) \<Longrightarrow> resident_call E k k'"
| drift: "kernel_insert_drift_block_as E now ctx par after content src m dk p k = Some (k', r1) \<Longrightarrow> resident_call E k k'"
| notification: "kernel_insert_notification_block_as E now ctx par np c p k = Some (k', r1) \<Longrightarrow> resident_call E k k'"
| resource: "kernel_insert_resource_block_as E now ctx par rp c p k = Some (k', r1) \<Longrightarrow> resident_call E k k'"
| error: "kernel_insert_error_block_as E now ctx q ep c p k = Some (k', r1) \<Longrightarrow> resident_call E k k'"
| edit: "kernel_edit_text_as E now ctx i pos ins del p k = Some (k', r0) \<Longrightarrow> resident_call E k k'"
| app: "kernel_append_text_as E now ctx i c p k = Some (k', r0) \<Longrightarrow> resident_call E k k'"
| ephemeral: "kernel_set_ephemeral E now ctx i v k = Some (k', r0) \<Longrightarrow> resident_call E k k'"
| excluded: "kernel_set_excluded E now ctx i v k = Some (k', r0) \<Longrightarrow> resident_call E k k'"
| move: "kernel_move_block E now ctx i after k = Some (k', r0) \<Longrightarrow> resident_call E k k'"
| compacted: "kernel_set_compacted E now ctx i v k = Some (k', r0) \<Longrightarrow> resident_call E k k'"
| content_type: "kernel_set_content_type E now ctx i ct k = Some (k', r0) \<Longrightarrow> resident_call E k k'"
| exit_code: "kernel_set_exit_code E now ctx i code k = Some (k', r0) \<Longrightarrow> resident_call E k k'"
| stderr: "kernel_set_stderr E now ctx i x k = Some (k', r0) \<Longrightarrow> resident_call E k k'"
| signature: "kernel_set_signature E now ctx i x k = Some (k', r0) \<Longrightarrow> resident_call E k k'"
| set_output: "kernel_set_output E now ctx i od k = Some (k', r0) \<Longrightarrow> resident_call E k k'"
| tool_use: "kernel_set_tool_use_id E now ctx i x k = Some (k', r0) \<Longrightarrow> resident_call E k k'"
| collapsed: "kernel_set_collapsed E now ctx i v k = Some (k', r0) \<Longrightarrow> resident_call E k k'"
| delete_block: "kernel_delete_block E now ctx i k = Some (k', r0) \<Longrightarrow> resident_call E k k'"
| status: "kernel_set_status E now ctx i st k = Some (k', r0) \<Longrightarrow> resident_call E k k'"
| validate: "validate_content_and_attach_errors E now ctx i k = Some (k', r0) \<Longrightarrow> resident_call E k k'"
| merge: "kernel_merge_ops E now ctx payload k = Some (k', r2) \<Longrightarrow> resident_call E k k'"
| reserve: "kernel_reserve_block_id ctx q0 k = Some (k', r1) \<Longrightarrow> resident_call E k k'"
| live: "live_status E ctx k = (k', st) \<Longrightarrow> resident_call E k k'"
| principal: "resident_call E k (set_kernel_principal q0 k)"
| fork: "fork_document E now ctx ctx' k = Some (k', r0) \<Longrightarrow> resident_call E k k'"
| fork_at: "fork_document_at_version E now ctx ctx' before k = Some (k', r0) \<Longrightarrow> resident_call E k k'"
| fork_filtered: "fork_document_filtered E now ctx ctx' before f k = Some (k', r0) \<Longrightarrow> resident_call E k k'"
| load: "load_one_from_db E now ctx k = Some (k', rb) \<Longrightarrow> resident_call E k k'"

lemma resident_call_kept: "resident_call E k k' \<Longrightarrow> kept k k'"
proof (induction rule: resident_call.induct)
  case (reserve ctx q0 k k' r1)
  have "framed entry_kept (\<lambda>e. let (doc, i) = reserve_block_id q0 (de_doc e) in kret i (e\<lparr>de_doc := doc\<rparr>))"
    using safe_reserve by (auto simp: framed_def entry_kept_def Let_def case_prod_unfold)
  from framedD [OF framed_on_entry [OF this]] reserve show ?case by (auto simp: kernel_reserve_block_id_def)
next
  case (live ctx k k' st)
  then show ?case by (intro kept_same) (auto simp: live_status_def Let_def split: option.splits)
qed (auto simp: create_document_def create_document_with_path_def set_kernel_principal_def intro: kept_same
    framed_create [THEN framedD] framed_restore [THEN framedD] framed_insertions [THEN framedD] framed_edits [THEN framedD]
    framed_set_status [THEN framedD] framed_validate [THEN framedD] framed_merge_ops [THEN framedD] framed_forks [THEN framedD]
    framed_load_one [THEN framedD])

text \<open>
  All calls of the store: those on resident documents, the deletion of a document, and the load of every
  document of the database, which puts the stored ones in the place of the resident ones.
\<close>

inductive kernel_call :: "('d, 'o, 'f, 'json) kernel_env \<Rightarrow> 'd KernelStore \<Rightarrow> 'd KernelStore \<Rightarrow> bool"
  for E :: "('d, 'o, 'f, 'json) kernel_env" where
  resident: "resident_call E k k' \<Longrightarrow> kernel_call E k k'"
| delete_document: "kernel_delete_document E ctx k = Some (k', r0) \<Longrightarrow> kernel_call E k k'"
| load_all: "load_from_db E now k = Some (k', r0) \<Longrightarrow> kernel_call E k k'"

text \<open>The calls that leave a given document resident.\<close>

inductive sparing_call :: "('d, 'o, 'f, 'json) kernel_env \<Rightarrow> ContextId \<Rightarrow> 'd KernelStore \<Rightarrow> 'd KernelStore \<Rightarrow> bool"
  for E :: "('d, 'o, 'f, 'json) kernel_env" and ctx where
  resident: "resident_call E k k' \<Longrightarrow> sparing_call E ctx k k'"
| delete_other: "kernel_delete_document E ctx' k = Some (k', r0) \<Longrightarrow> ctx' \<noteq> ctx \<Longrightarrow> sparing_call E ctx k k'"

text \<open>The counters of every resident document within their width.\<close>

definition kernel_fits :: "'d KernelStore \<Rightarrow> bool" where
  "kernel_fits k \<longleftrightarrow> (\<forall>ctx e. ks_documents k ctx = Some e \<longrightarrow> fits (de_doc e) \<and> de_next_journal_seq e < 2 ^ 63)"

lemma delete_document_shape:
  "kernel_delete_document E ctx k = Some (k', r) \<Longrightarrow>
     ks_documents k' = ks_documents k \<or> ks_documents k' = (ks_documents k)(ctx := None)"
  by (auto simp: kernel_delete_document_def kbind_Some dest!: on_db_shape split: option.splits)

lemma load_documents_ok: "load_documents E now rows db k = Some (k', r) \<Longrightarrow> kernel_ok k \<Longrightarrow> kernel_ok k'"
proof (induction E now rows db k rule: load_documents.induct)
  case (1 E now db k)
  then show ?case by (auto simp: kernel_ok_def)
next
  case (2 E now row rows db k)
  obtain db1 x where ld: "load_document E now (ks_principal_id k) row db = (db1, x)" by force
  show ?case
  proof (cases x)
    case (Inl e)
    then show ?thesis using 2(3,4) ld by (auto simp: kernel_ok_def)
  next
    case (Inr y)
    show ?thesis
    proof (cases y)
      case None
      then show ?thesis using 2(1) [OF ld [symmetric] Inr None] 2(3,4) ld Inr by simp
    next
      case (Some e)
      let ?k = "k\<lparr>ks_documents := (ks_documents k)(dr_document_id row \<mapsto> e)\<rparr>"
      have "kernel_ok ?k" using 2(4) load_document_ok [of E now _ row db db1 e] ld Inr Some by (auto simp: kernel_ok_def)
      then show ?thesis using 2(2) [OF ld [symmetric] Inr Some] 2(3) ld Inr Some by simp
    qed
  qed
qed

lemma load_from_db_ok: "load_from_db E now k = Some (k', r) \<Longrightarrow> kernel_ok k \<Longrightarrow> kernel_ok k'"
  using load_documents_ok by (fastforce simp: load_from_db_def kernel_ok_def split: option.splits prod.splits sum.splits)

lemma kernel_call_ok: "kernel_call E k k' \<Longrightarrow> kernel_ok k \<Longrightarrow> kernel_ok k'"
proof (induction rule: kernel_call.induct)
  case (resident k k')
  then show ?case using resident_call_kept by (auto simp: kept_def)
next
  case (delete_document ctx k k' r0)
  then show ?case using delete_document_shape by (fastforce simp: kernel_ok_def split: if_splits)
qed (rule load_from_db_ok)

definition kept_at :: "ContextId \<Rightarrow> 'd KernelStore \<Rightarrow> 'd KernelStore \<Rightarrow> bool" where
  "kept_at ctx k k' \<longleftrightarrow>
     (\<forall>e. ks_documents k ctx = Some e \<longrightarrow> (\<exists>e'. ks_documents k' ctx = Some e' \<and> entry_kept e e'))"

interpretation document_frame: kop_frame "kept_at ctx" for ctx
  by unfold_locales (auto simp: kept_at_def entry_kept_def intro: safe_trans, metis entry_kept_def entry_kept_trans)

lemma sparing_call_kept: "sparing_call E ctx k k' \<Longrightarrow> kept_at ctx k k'"
proof (induction rule: sparing_call.induct)
  case (resident k k')
  from resident_call_kept [OF this] show ?case by (simp add: kept_def kept_at_def)
next
  case (delete_other ctx' k k' r0)
  then have "ks_documents k' ctx = ks_documents k ctx" using delete_document_shape [OF delete_other(1)] by auto
  then show ?case using document_frame.refl by (auto simp: kept_at_def entry_kept_def)
qed

definition fitting_call :: "('d, 'o, 'f, 'json) kernel_env \<Rightarrow> 'd KernelStore \<Rightarrow> 'd KernelStore \<Rightarrow> bool" where
  "fitting_call E k k' \<longleftrightarrow> kernel_call E k k' \<and> kernel_fits k'"

interpretation kernel_run: invariant_system "fitting_call E" "\<lambda>k. kernel_ok k \<and> kernel_fits k"
  by unfold_locales (auto simp: fitting_call_def dest: kernel_call_ok)

section \<open>Properties\<close>

definition sparing_run :: "('d, 'o, 'f, 'json) kernel_env \<Rightarrow> ContextId \<Rightarrow> 'd KernelStore \<Rightarrow> 'd KernelStore \<Rightarrow> bool" where
  "sparing_run E ctx = (\<lambda>k k'. sparing_call E ctx k k' \<and> kernel_fits k')\<^sup>*\<^sup>*"

lemma sparing_run_kept: "sparing_run E ctx k k' \<Longrightarrow> kept_at ctx k k' \<and> (kernel_fits k \<longrightarrow> kernel_fits k')"
  unfolding sparing_run_def
  by (induction rule: rtranclp_induct) (auto intro: document_frame.refl document_frame.trans sparing_call_kept)

text \<open>
  C5: Whatever calls are made on a new kernel store, document deletions and loads of the whole database
  included, with whatever outcome and whatever database faults, every resident document satisfies the
  store invariant.  Further calls on resident documents, and deletions of other documents, keep each
  document resident, of the same kind and language, with its blocks, lanes and clocks only growing and
  its journal sequence number never going back; a load of the whole database puts the stored document in
  its place, so it is not among these further calls.

  The calls leave the counters of the documents within their width, 64 bits for lanes and clocks, 63 for
  ticks and journal sequence numbers: a merged payload with a number at the end of its range would wrap
  them around.
\<close>

theorem kernel_invariant:
  assumes "ks_documents k0 = Map.empty" and "(fitting_call E)\<^sup>*\<^sup>* k0 k" and "sparing_run E ctx k k'" and "ks_documents k ctx = Some e"
  shows "store_ok (de_doc e) \<and> fits (de_doc e)
     \<and> (\<exists>e'. ks_documents k' ctx = Some e' \<and> store_ok (de_doc e') \<and> fits (de_doc e') \<and> grows (de_doc e) (de_doc e')
       \<and> de_kind e' = de_kind e \<and> de_language e' = de_language e \<and> de_next_journal_seq e \<le> de_next_journal_seq e')"
proof -
  have "kernel_ok k0 \<and> kernel_fits k0" using assms(1) by (simp add: kernel_ok_def kernel_fits_def)
  from kernel_run.run_inv [OF assms(2) this] have k: "kernel_ok k" "kernel_fits k" by simp_all
  with assms(4) have e: "store_ok (de_doc e)" "fits (de_doc e)" by (auto simp: kernel_ok_def kernel_fits_def)
  note run = sparing_run_kept [OF assms(3)]
  obtain e' where e': "ks_documents k' ctx = Some e'" "entry_kept e e'"
    using run assms(4) unfolding kept_at_def by blast
  have "fits (de_doc e')" using run k(2) e'(1) unfolding kernel_fits_def by blast
  with e e' show ?thesis unfolding entry_kept_def safe_def by blast
qed

lemma kernel_noted_fits: "kernel_fits (kernel_created st)" "kernel_fits (kernel_noted st)"
proof -
  have "fits (noted st)"
    by (rule fits_small) (simp_all add: posted_def insert_block_def new_block_id_def reserve_block_id_def next_seq_for_def
      next_position_def clock_tick_def put_block_def store_new_def Let_def case_prod_unfold)
  then show "kernel_fits (kernel_created st)" "kernel_fits (kernel_noted st)"
    using kernel_noted_run(5,6) [of st] by (fastforce simp: kernel_fits_def)+
qed

theorem kernel_invariant_witness:
  "\<exists>e e'. ks_documents (kernel_created Status.Done) 1 = Some e \<and> ks_documents (kernel_noted Status.Done) 1 = Some e' \<and> store_ok (de_doc e')
     \<and> de_next_journal_seq e \<le> de_next_journal_seq e'"
proof -
  have "resident_call (note_env Status.Done) (kernel_with_db_and_flows empty_db 7 2) (kernel_created Status.Done)"
    by (rule resident_call.create [OF kernel_created_run])
  then have 1: "fitting_call (note_env Status.Done) (kernel_with_db_and_flows empty_db 7 2) (kernel_created Status.Done)"
    using kernel_noted_fits(1) by (simp add: fitting_call_def kernel_call.resident)
  have "resident_call (note_env Status.Done) (kernel_created Status.Done) (kernel_noted Status.Done)"
    by (rule resident_call.insert_block [OF kernel_noted_run(1)])
  then have 2: "sparing_run (note_env Status.Done) 1 (kernel_created Status.Done) (kernel_noted Status.Done)"
    using kernel_noted_fits(2) unfolding sparing_run_def by (blast intro: sparing_call.resident)
  have "ks_documents (kernel_with_db_and_flows empty_db 7 2 :: string option KernelStore) = Map.empty"
    by (simp add: kernel_with_db_and_flows_def kernel_with_db_def kernel_new_def)
  moreover obtain e where "ks_documents (kernel_created Status.Done) 1 = Some e"
    using created_document [OF _ _ kernel_created_run] by (auto simp: journal_env_def empty_db_def document_exists_def)
  ultimately show ?thesis
    using kernel_invariant [of "kernel_with_db_and_flows empty_db 7 2" "note_env Status.Done" "kernel_created Status.Done" 1 "kernel_noted Status.Done"] 1 2 by blast
qed

section \<open>The status of a context\<close>

definition settled :: "('d, 'o, 'f, 'json) kernel_env \<Rightarrow> ContextId \<Rightarrow> 'd KernelStore \<Rightarrow> bool" where
  "settled E ctx k \<longleftrightarrow> (\<exists>e. ks_documents k ctx = Some e \<and> ks_live_status k ctx = Some (document_status E e))"

lemma settled_cong:
  "settled E ctx k \<Longrightarrow> ks_documents k' ctx = ks_documents k ctx \<Longrightarrow> ks_live_status k' = ks_live_status k \<Longrightarrow> settled E ctx k'"
  by (simp add: settled_def)

lemma document_status_cong: "de_doc e' = de_doc e \<Longrightarrow> document_status E e' = document_status E e"
  by (simp add: document_status_def)

lemma settled_compact:
  assumes "compact_document E ctx k = Some (k', r)" and "settled E ctx k"
  shows "settled E ctx k'"
proof -
  have "framed (\<lambda>k k'. ks_live_status k' = ks_live_status k) (compact_document E ctx)"
    by (auto simp: framed_def compact_document_def kbind_Some journaling_db_def get_entry_def put_entry_def Let_def
        dest!: lift_codec_shape on_db_shape split: if_splits option.splits)
  with assms(1) have "ks_live_status k' = ks_live_status k" by (auto simp: framed_def)
  with compact_shape [OF assms(1)] assms(2) show ?thesis by (auto simp: settled_def document_status_def)
qed

lemma settled_journal:
  assumes "journal_op E now ctx p k = Some (k', Inr ())" and "ks_documents k ctx = Some e"
  shows "settled E ctx k'"
proof (cases "ks_db k")
  case None
  with assms show ?thesis
    by (auto simp: journal_op_def run_ok recompute_live_status_def journaling_db_def settled_def split: if_splits)
next
  case (Some db)
  obtain bs d2 where "compact_document E ctx (appended E ctx e bs d2 k) = Some (k', Inr ()) \<or> k' = appended E ctx e bs d2 k"
    by (rule journal_shape [OF assms(1) Some assms(2)])
  moreover have "settled E ctx (appended E ctx e bs d2 k)" by (simp add: settled_def appended_def document_status_def)
  ultimately show ?thesis using settled_compact by blast
qed

lemma settled_emit:
  "kbind m (\<lambda>_. emit flow) k = Some (k', Inr r) \<Longrightarrow> (\<And>k1 u. m k = Some (k1, Inr u) \<Longrightarrow> settled E ctx k1) \<Longrightarrow> settled E ctx k'"
  "kbind m (\<lambda>_. emit_metadata E ctx2 i) k = Some (k', Inr r) \<Longrightarrow> (\<And>k1 u. m k = Some (k1, Inr u) \<Longrightarrow> settled E ctx k1) \<Longrightarrow> settled E ctx k'"
  by (auto simp: kbind_ok emit_def emit_metadata_def Let_def settled_def)

lemma settled_shapes:
  "insert_with E now ctx after p op k = Some (k', Inr i) \<Longrightarrow> settled E ctx k'"
  "mutate_with E now ctx op2 k = Some (k', Inr u) \<Longrightarrow> settled E ctx k'"
  "text_with E now ctx j p op2 k = Some (k', Inr u) \<Longrightarrow> settled E ctx k'"
  by (auto simp: insert_with_def mutate_with_def text_with_def run_ok emit_def next_block_text_seq_def Let_def
      dest!: settled_journal intro: settled_cong split: prod.splits)

lemma settled_call: "durable_call E ctx k k' \<Longrightarrow> settled E ctx k'"
proof (induction rule: durable_call.induct)
  case (status now i st k k')
  from status_plain [OF this] show ?case by (rule settled_emit) (rule settled_shapes)
qed (unfold insertion_defs kernel_edit_text_as_def kernel_append_text_as_def kernel_delete_block_def kernel_set_collapsed_def
    kernel_set_content_type_def kernel_set_exit_code_def kernel_set_ephemeral_def kernel_set_excluded_def kernel_set_compacted_def
    kernel_insert_from_snapshot_as_def,
  (erule settled_shapes | (erule settled_emit, erule settled_shapes))+)

text \<open>
  All operations that go through the journal: those it carries, and those it does not.  A status that
  starts a validation is left out: the failures of the validator are ignored.
\<close>

inductive journalled_call :: "('d, 'o, 'f, 'json) kernel_env \<Rightarrow> ContextId \<Rightarrow> 'd KernelStore \<Rightarrow> 'd KernelStore \<Rightarrow> bool"
  for E :: "('d, 'o, 'f, 'json) kernel_env" and ctx where
  durable: "durable_call E ctx k k' \<Longrightarrow> journalled_call E ctx k k'"
| snapshot: "kernel_insert_from_snapshot_as E now ctx sn after p k = Some (k', Inr i) \<Longrightarrow> journalled_call E ctx k k'"
| move: "kernel_move_block E now ctx i after k = Some (k', Inr ()) \<Longrightarrow> journalled_call E ctx k k'"
| stderr: "kernel_set_stderr E now ctx i x k = Some (k', Inr ()) \<Longrightarrow> journalled_call E ctx k k'"
| signature: "kernel_set_signature E now ctx i x k = Some (k', Inr ()) \<Longrightarrow> journalled_call E ctx k k'"
| set_output: "kernel_set_output E now ctx i od k = Some (k', Inr ()) \<Longrightarrow> journalled_call E ctx k k'"
| tool_use: "kernel_set_tool_use_id E now ctx i x k = Some (k', Inr ()) \<Longrightarrow> journalled_call E ctx k k'"
| merge: "kernel_merge_ops E now ctx payload k = Some (k', Inr v) \<Longrightarrow> journalled_call E ctx k k'"

lemma each_emit_frame: "each emit es k = Some (k', r) \<Longrightarrow> ks_documents k' = ks_documents k"
  by (induction es arbitrary: k) (auto simp: kbind_Some kret_def emit_def)

lemma settled_merge:
  assumes "kernel_merge_ops E now ctx payload k = Some (k', Inr v)"
  shows "settled E ctx k'"
proof -
  from assms obtain k1 v0 before after ops bs where
      on: "on_entry ctx (merge_body E payload) k = Some (k1, Inr (v0, before, after, ops, bs))"
    and rest: "(let (k, events) = diff_block_events ctx before after bs k1
       in kbind (each emit events) (\<lambda>_. kbind (journal_op E now ctx ops) (\<lambda>_. kret v0)) k) = Some (k', Inr v)"
    by (auto simp: kernel_merge_ops_def kbind_ok)
  obtain k2 es where d: "diff_block_events ctx before after bs k1 = (k2, es)" by force
  with rest obtain k3 where em: "each emit es k2 = Some (k3, Inr ())" and j: "journal_op E now ctx ops k3 = Some (k', Inr ())"
    by (auto simp: kbind_ok kret_def)
  from on obtain e1 where k1: "ks_documents k1 ctx = Some e1" by (auto simp: on_entry_ok)
  have "ks_documents k3 ctx = Some e1"
    using each_emit_frame [OF em] diff_events_frame [of ctx before after bs k1] d k1 by simp
  from settled_journal [OF j this] show ?thesis .
qed

lemma settled_journalled: "journalled_call E ctx k k' \<Longrightarrow> settled E ctx k'"
proof (induction rule: journalled_call.induct)
  case (durable k k')
  then show ?case by (rule settled_call)
next
  case (merge now payload k k' v)
  then show ?case by (rule settled_merge)
qed (unfold kernel_insert_from_snapshot_as_def kernel_move_block_def kernel_set_stderr_def kernel_set_signature_def
    kernel_set_output_def kernel_set_tool_use_id_def, (erule settled_shapes | (erule settled_emit, erule settled_shapes))+)

text \<open>
  C23: After a journalled operation on a context succeeds, with or without a database, the status served
  for the context is the one derived from its blocks, and asking for it changes nothing.  The operations
  are all that go through the journal: the eight insertions, text edits and appends, deletions, moves,
  merges of remote payloads, and the writes of every field, except a status that starts the validation of
  an ABC or SVG block, whose failures the code ignores.
\<close>

theorem status_follows_blocks:
  assumes "journalled_call E ctx k k'"
  shows "\<exists>e. ks_documents k' ctx = Some e \<and> live_status E ctx k'
     = (k', derive_context_live_status (map bs_status (blocks_ordered (ke_dte E) (de_doc e))))"
  using settled_journalled [OF assms] by (auto simp: settled_def live_status_def document_status_def)

theorem status_follows_blocks_witness:
  "snd (live_status (note_env Status.Running) 1 (kernel_noted Status.Running)) = Status.Running"
proof -
  from status_follows_blocks [OF journalled_call.durable [OF durable_call.block [OF kernel_noted_run(1) [of Status.Running]]]] kernel_noted_run(2) [of Status.Running]
  have "snd (live_status (note_env Status.Running) 1 (kernel_noted Status.Running))
      = derive_context_live_status (map bs_status (blocks_ordered reference_dte (noted Status.Running)))"
    by (auto simp: journal_env_ok)
  moreover have "derive_context_live_status (map bs_status (blocks_ordered reference_dte (noted Status.Running))) = Status.Running"
    by code_simp
  ultimately show ?thesis by simp
qed

definition same_status :: "'d KernelStore \<Rightarrow> 'd KernelStore \<Rightarrow> bool" where
  "same_status k k' \<longleftrightarrow> ks_live_status k' = ks_live_status k"

interpretation status_frame: kop_frame same_status
  by unfold_locales (simp_all add: same_status_def)

lemma load_keeps_status: "framed same_status (load_one_from_db E now ctx)"
proof -
  have db: "framed same_status (on_db f db)" for f :: "KernelDb \<Rightarrow> 'x dbres" and db
    by (auto simp: framed_def same_status_def dest!: on_db_shape)
  have put: "framed same_status (put_entry ctx e)" for e by (auto simp: framed_def same_status_def put_entry_def)
  have load: "framed same_status (kbind (on_db (load_document E now p row) db) (\<lambda>r. case r of None \<Rightarrow> kret False
        | Some e \<Rightarrow> kbind (put_entry ctx e) (\<lambda>_. kret True)))" for p row db
    by (auto intro!: status_frame.framed_kbind status_frame.framed_kret db put split: option.split)
  have row: "framed same_status (\<lambda>k. case (row, ks_db k) of
        (Some row, Some db) \<Rightarrow> kbind (on_db (load_document E now (ks_principal_id k) row) db) (\<lambda>r. case r of None \<Rightarrow> kret False
          | Some e \<Rightarrow> kbind (put_entry ctx e) (\<lambda>_. kret True)) k
      | _ \<Rightarrow> kret False k)" for row
    unfolding framed_def using framedD [OF load] status_frame.refl by (auto split: option.splits)
  have "framed same_status (kbind (on_db (get_document (ke_fault E) ctx) db) (\<lambda>row k. case (row, ks_db k) of
        (Some row, Some db) \<Rightarrow> kbind (on_db (load_document E now (ks_principal_id k) row) db) (\<lambda>r. case r of None \<Rightarrow> kret False
          | Some e \<Rightarrow> kbind (put_entry ctx e) (\<lambda>_. kret True)) k
      | _ \<Rightarrow> kret False k))" for db
    by (rule status_frame.framed_kbind [OF db row])
  then show ?thesis
    unfolding framed_def load_one_from_db_def using status_frame.refl by (auto split: option.splits if_splits)
qed

text \<open>
  A status asked for before the context is loaded is cached, and is still served after the document
  has been loaded, whatever its blocks say.
\<close>

theorem stale_status:
  assumes "ks_documents k ctx = None" and "ks_live_status k ctx = None" and "live_status E ctx k = (k1, s)"
    and "load_one_from_db E now ctx k1 = Some (k2, Inr True)"
  shows "live_status E ctx k2 = (k2, Status.Pending)"
proof -
  have k1: "ks_live_status k1 ctx = Some Status.Pending" using assms(1-3) by (auto simp: live_status_def)
  have "ks_live_status k2 = ks_live_status k1" using framedD [OF load_keeps_status assms(4)] by (simp add: same_status_def)
  then show ?thesis using k1 by (simp add: live_status_def)
qed

theorem stale_status_witness:
  "let E = note_env Status.Running; k1 = fst (live_status E 1 (kernel_with_db (the (ks_db (kernel_noted Status.Running))) 7 5));
       k2 = fst (the (load_one_from_db E 9 1 k1))
   in map_option (\<lambda>e. map bs_status (blocks_ordered reference_dte (de_doc e))) (ks_documents k2 1) = Some [Status.Running]
     \<and> live_status E 1 k2 = (k2, Status.Pending)"
proof -
  let ?E = "note_env Status.Running"
  obtain d e where k: "ks_db (kernel_noted Status.Running) = Some d" "ks_documents (kernel_noted Status.Running) 1 = Some e"
      "de_doc e = noted Status.Running" "\<not> compacted 1 d"
    using kernel_noted_run(2-4) [of Status.Running] by auto
  define k0 where "k0 = (kernel_with_db d 7 5 :: string option KernelStore)"
  have k0: "ks_documents k0 1 = None" "ks_live_status k0 1 = None" "ks_db k0 = Some d" "ks_principal_id k0 = 5"
    by (simp_all add: k0_def kernel_with_db_def kernel_new_def)
  define k1 where "k1 = fst (live_status ?E 1 k0)"
  have k1: "ks_documents k1 1 = None" "ks_db k1 = Some d" "ks_principal_id k1 = 5"
    using k0 by (simp_all add: k1_def live_status_def Let_def)
  obtain k2 e' where k2: "load_one_from_db ?E 9 1 k1 = Some (k2, Inr True)" "ks_documents k2 1 = Some e'"
      "\<forall>i. get_block_snapshot reference_dte (de_doc e') i = get_block_snapshot reference_dte (noted Status.Running) i"
      "store_ok (de_doc e')"
    using session_reloads [OF note_env_ok noted_session k(2,1,4) k1, of 9] k(3) by (auto simp: journal_env_ok)
  have "blocks_ordered reference_dte (de_doc e') = blocks_ordered reference_dte (noted Status.Running)"
    using view_determines_order(2) [of "noted Status.Running" "de_doc e'" reference_dte] k2(3,4)
      journalled_ok [OF noted_journalled] by (simp add: store_ok_def)
  moreover have "map bs_status (blocks_ordered reference_dte (noted Status.Running)) = [Status.Running]" by code_simp
  moreover have "live_status ?E 1 k2 = (k2, Status.Pending)"
    by (rule stale_status [OF k0(1,2) _ k2(1), of "snd (live_status ?E 1 k0)"]) (simp add: k1_def)
  ultimately show ?thesis using k2 k(1) by (simp add: k1_def k0_def Let_def)
qed

end
