(* ===== verification/Context_Db.thy ===== *)
theory Context_Db
  imports Kernel_Db
begin

text \<open>
  The context registry of the kernel database, \<open>crates/kaijutsu-kernel/src/kernel_db.rs\<close>: contexts with
  their labels, lifecycle stamps and ring placement, the edges between them, workspaces with their
  paths, and presets.  The document and journal tables are those of \<open>Kernel_Db\<close>, in \<open>cd_base\<close>; the
  column \<open>contexts.last_activity_at\<close>, which the journal stamps, is its \<open>kd_activity\<close>, and a row read
  from the table carries it.

  A table is the list of its rows, in the order of insertion; where a statement has no \<open>ORDER BY\<close>
  the rows come in that order.  Constraints are those of the schema: primary keys, the unique label
  indexes, the unique structural edge, foreign keys with their cascades.  SQLite checks uniqueness
  before foreign keys.
\<close>

section \<open>Rows\<close>

type_synonym PresetId = uuid

record ContextRow =
  cr_context_id :: ContextId
  cr_label :: "string option"
  cr_provider :: "string option"
  cr_model :: "string option"
  cr_system_prompt :: "string option"
  cr_consent_mode :: ConsentMode
  cr_context_state :: ContextState
  cr_context_type :: string
  cr_created_at :: i64
  cr_created_by :: PrincipalId
  cr_forked_from :: "ContextId option"
  cr_fork_kind :: "ForkKind option"
  cr_archived_at :: "i64 option"
  cr_concluded_at :: "i64 option"
  cr_workspace_id :: "WorkspaceId option"
  cr_preset_id :: "PresetId option"
  cr_last_activity_at :: "i64 option"
  cr_promoted_at :: "i64 option"
  cr_demoted_at :: "i64 option"
  cr_paused_at :: "i64 option"

record ContextEdgeRow =
  er_edge_id :: uuid
  er_source_id :: ContextId
  er_target_id :: ContextId
  er_kind :: EdgeKind
  er_metadata :: "string option"
  er_created_at :: i64

record WorkspaceRow =
  wr_workspace_id :: WorkspaceId
  wr_label :: string
  wr_description :: "string option"
  wr_created_at :: i64
  wr_created_by :: PrincipalId
  wr_archived_at :: "i64 option"

record WorkspacePathRow =
  wp_workspace_id :: WorkspaceId
  wp_path :: string
  wp_read_only :: bool
  wp_created_at :: i64

record PresetRow =
  pr_preset_id :: PresetId
  pr_label :: string
  pr_description :: "string option"
  pr_provider :: "string option"
  pr_model :: "string option"
  pr_system_prompt :: "string option"
  pr_consent_mode :: ConsentMode
  pr_created_at :: i64
  pr_created_by :: PrincipalId

record PresetArgRow =
  pa_preset_id :: PresetId
  pa_verb :: string
  pa_arg_name :: string
  pa_arg_value :: string

record ContextDb =
  cd_base :: KernelDb
  cd_contexts :: "ContextRow list"
  cd_edges :: "ContextEdgeRow list"
  cd_workspaces :: "WorkspaceRow list"
  cd_workspace_paths :: "WorkspacePathRow list"
  cd_presets :: "PresetRow list"
  cd_preset_args :: "PresetArgRow list"

definition ACTIVE_RING_CAPACITY :: nat where
  "ACTIVE_RING_CAPACITY = 10"

datatype DemoteOutcome = Unpromoted | Demoted | Archived

datatype PromoteOutcome = Promoted | AlreadyPromoted | Resurrected bool

section \<open>Statements\<close>

type_synonym 'a cdop = "ContextDb \<Rightarrow> ContextDb \<times> (KernelDbError + 'a)"

definition dret :: "'a \<Rightarrow> 'a cdop" where
  "dret a d = (d, Inr a)"

definition dfail :: "KernelDbError \<Rightarrow> 'a cdop" where
  "dfail e d = (d, Inl e)"

definition dbind :: "'a cdop \<Rightarrow> ('a \<Rightarrow> 'b cdop) \<Rightarrow> 'b cdop" where
  "dbind m f d = (case m d of (d', Inl e) \<Rightarrow> (d', Inl e) | (d', Inr a) \<Rightarrow> f a d')"

text \<open>One call into SQLite, which can fail by itself.\<close>

definition sql :: "fault \<Rightarrow> 'a cdop \<Rightarrow> 'a cdop" where
  "sql fault f d =
     (let n = kd_calls (cd_base d); d' = d\<lparr>cd_base := (cd_base d)\<lparr>kd_calls := n + 1\<rparr>\<rparr>
      in case fault n of Some m \<Rightarrow> (d', Inl (KernelDbError.Db m)) | None \<Rightarrow> f d')"

definition foreign_key :: KernelDbError where
  "foreign_key = KernelDbError.Db ''FOREIGN KEY constraint failed''"

definition validate_label :: "string \<Rightarrow> unit cdop" where
  "validate_label label =
     (if CHR 0x3A \<in> set label then dfail (InvalidLabel (''label '' @ [CHR 0x27] @ label @ [CHR 0x27] @ '' must not contain '' @ [CHR 0x27, CHR 0x3A, CHR 0x27]))
      else if label = [] then dfail (InvalidLabel ''label must not be empty'')
      else dret ())"

definition quoted_use :: "string \<Rightarrow> string \<Rightarrow> string" where
  "quoted_use what label = what @ '' '' @ [CHR 0x27] @ label @ [CHR 0x27] @ '' already in use''"

text \<open>The contexts table as it is read: every row with the activity stamp of the journal.\<close>

definition read_row :: "ContextDb \<Rightarrow> ContextRow \<Rightarrow> ContextRow" where
  "read_row d r = r\<lparr>cr_last_activity_at := Option.bind (kd_activity (cd_base d) (cr_context_id r)) id\<rparr>"

definition context_rows :: "ContextDb \<Rightarrow> ContextRow list" where
  "context_rows d = map (read_row d) (cd_contexts d)"

definition context_exists :: "ContextDb \<Rightarrow> ContextId \<Rightarrow> bool" where
  "context_exists d i \<longleftrightarrow> i \<in> cr_context_id ` set (cd_contexts d)"

definition not_found_context :: "uuid_lib \<Rightarrow> ContextId \<Rightarrow> KernelDbError" where
  "not_found_context U i = KernelDbError.NotFound (''context '' @ short U i)"

text \<open>\<open>UPDATE contexts SET ... WHERE context_id = ? AND ...\<close>: how many rows it changed.\<close>

definition update_rows :: "fault \<Rightarrow> ContextId \<Rightarrow> (ContextRow \<Rightarrow> bool) \<Rightarrow> (ContextRow \<Rightarrow> ContextRow) \<Rightarrow> nat cdop" where
  "update_rows fault i p f = sql fault (\<lambda>d.
     (d\<lparr>cd_contexts := map (\<lambda>r. if cr_context_id r = i \<and> p r then f r else r) (cd_contexts d)\<rparr>,
      Inr (length (filter (\<lambda>r. cr_context_id r = i \<and> p r) (cd_contexts d)))))"

definition update_found :: "uuid_lib \<Rightarrow> fault \<Rightarrow> ContextId \<Rightarrow> (ContextRow \<Rightarrow> ContextRow) \<Rightarrow> unit cdop" where
  "update_found U fault i f =
     dbind (update_rows fault i (\<lambda>_. True) f) (\<lambda>n. if n = 0 then dfail (not_found_context U i) else dret ())"

section \<open>Contexts\<close>

definition insert_document_or_ignore :: "fault \<Rightarrow> DocumentRow \<Rightarrow> unit cdop" where
  "insert_document_or_ignore fault row = sql fault (\<lambda>d.
     let b = cd_base d in
     if document_exists b (dr_document_id row) \<or> path_taken b row then (d, Inr ())
     else if dr_workspace_id row \<notin> kd_workspaces b then (d, Inl foreign_key)
     else (d\<lparr>cd_base := b\<lparr>kd_documents := kd_documents b @ [row]\<rparr>\<rparr>, Inr ()))"

definition label_taken :: "ContextDb \<Rightarrow> ContextId \<Rightarrow> string option \<Rightarrow> bool" where
  "label_taken d i label \<longleftrightarrow> label \<noteq> None \<and> (\<exists>r \<in> set (cd_contexts d). cr_context_id r \<noteq> i \<and> cr_label r = label)"

definition references_ok :: "ContextDb \<Rightarrow> ContextRow \<Rightarrow> bool" where
  "references_ok d row \<longleftrightarrow>
     document_exists (cd_base d) (cr_context_id row) \<and>
     (case cr_forked_from row of None \<Rightarrow> True | Some p \<Rightarrow> p = cr_context_id row \<or> context_exists d p) \<and>
     (case cr_workspace_id row of None \<Rightarrow> True | Some w \<Rightarrow> w \<in> kd_workspaces (cd_base d)) \<and>
     (case cr_preset_id row of None \<Rightarrow> True | Some p \<Rightarrow> p \<in> pr_preset_id ` set (cd_presets d))"

definition write_context :: "fault \<Rightarrow> ContextRow \<Rightarrow> unit cdop" where
  "write_context fault row =
     dbind (case cr_label row of Some l \<Rightarrow> validate_label l | None \<Rightarrow> dret ()) (\<lambda>_. sql fault (\<lambda>d.
       if context_exists d (cr_context_id row) \<or> label_taken d (cr_context_id row) (cr_label row)
       then (d, Inl (case cr_label row of
                       Some l \<Rightarrow> LabelConflict (quoted_use ''label'' l)
                     | None \<Rightarrow> KernelDbError.Db ''UNIQUE constraint failed: contexts.context_id''))
       else if \<not> references_ok d row
       then (d, Inl (case cr_label row of
                       Some _ \<Rightarrow> KernelDbError.Validation ''FOREIGN KEY constraint failed'' | None \<Rightarrow> foreign_key))
       else
         (d\<lparr>cd_contexts := cd_contexts d @ [row],
            cd_base := (cd_base d)\<lparr>kd_activity := (kd_activity (cd_base d))(cr_context_id row \<mapsto> cr_last_activity_at row)\<rparr>\<rparr>,
          Inr ())))"

definition insert_context :: "fault \<Rightarrow> ContextRow \<Rightarrow> unit cdop" where
  "insert_context fault row = write_context fault row"

definition context_document :: "WorkspaceId \<Rightarrow> ContextRow \<Rightarrow> DocumentRow" where
  "context_document ws row =
     \<lparr>dr_document_id = cr_context_id row,
      dr_workspace_id = (case cr_workspace_id row of Some w \<Rightarrow> w | None \<Rightarrow> ws),
      dr_doc_kind = DocKind.Conversation, dr_language = None, dr_path = None,
      dr_created_at = cr_created_at row, dr_created_by = cr_created_by row\<rparr>"

definition insert_context_with_document :: "fault \<Rightarrow> ContextRow \<Rightarrow> WorkspaceId \<Rightarrow> unit cdop" where
  "insert_context_with_document fault row ws =
     dbind (insert_document_or_ignore fault (context_document ws row)) (\<lambda>_. insert_context fault row)"

definition get_context :: "fault \<Rightarrow> ContextId \<Rightarrow> ContextRow option cdop" where
  "get_context fault i = sql fault (\<lambda>d. (d, Inr (List.find (\<lambda>r. cr_context_id r = i) (context_rows d))))"

definition update_label :: "uuid_lib \<Rightarrow> fault \<Rightarrow> ContextId \<Rightarrow> string option \<Rightarrow> unit cdop" where
  "update_label U fault i label =
     dbind (case label of Some l \<Rightarrow> validate_label l | None \<Rightarrow> dret ()) (\<lambda>_.
     dbind (sql fault (\<lambda>d.
         if context_exists d i \<and> label_taken d i label
         then (d, Inl (LabelConflict (quoted_use ''label'' (the label))))
         else
           (d\<lparr>cd_contexts := map (\<lambda>r. if cr_context_id r = i then r\<lparr>cr_label := label\<rparr> else r) (cd_contexts d)\<rparr>,
            Inr (length (filter (\<lambda>r. cr_context_id r = i) (cd_contexts d))))))
       (\<lambda>n. if n = 0 then dfail (not_found_context U i) else dret ()))"

definition update_model :: "uuid_lib \<Rightarrow> fault \<Rightarrow> ContextId \<Rightarrow> string option \<Rightarrow> string option \<Rightarrow> unit cdop" where
  "update_model U fault i provider model =
     update_found U fault i (\<lambda>r. r\<lparr>cr_provider := provider, cr_model := model\<rparr>)"

definition update_settings :: "uuid_lib \<Rightarrow> fault \<Rightarrow> ContextId \<Rightarrow> string option \<Rightarrow> ConsentMode \<Rightarrow> unit cdop" where
  "update_settings U fault i system_prompt consent_mode =
     update_found U fault i (\<lambda>r. r\<lparr>cr_system_prompt := system_prompt, cr_consent_mode := consent_mode\<rparr>)"

definition update_context_type :: "uuid_lib \<Rightarrow> fault \<Rightarrow> ContextId \<Rightarrow> string \<Rightarrow> unit cdop" where
  "update_context_type U fault i context_type = update_found U fault i (\<lambda>r. r\<lparr>cr_context_type := context_type\<rparr>)"

definition update_workspace :: "uuid_lib \<Rightarrow> fault \<Rightarrow> ContextId \<Rightarrow> WorkspaceId option \<Rightarrow> unit cdop" where
  "update_workspace U fault i ws d =
     (if context_exists d i \<and> (case ws of Some w \<Rightarrow> w \<notin> kd_workspaces (cd_base d) | None \<Rightarrow> False)
      then sql fault (dfail foreign_key) d
      else update_found U fault i (\<lambda>r. r\<lparr>cr_workspace_id := ws\<rparr>) d)"

section \<open>Lifecycle and placement\<close>

definition archive_context :: "fault \<Rightarrow> i64 \<Rightarrow> ContextId \<Rightarrow> bool cdop" where
  "archive_context fault now i =
     dbind (update_rows fault i (\<lambda>r. cr_archived_at r = None)
       (\<lambda>r. r\<lparr>cr_archived_at := Some now, cr_promoted_at := None, cr_demoted_at := None\<rparr>)) (\<lambda>n. dret (0 < n))"

definition update_context_state :: "fault \<Rightarrow> ContextId \<Rightarrow> ContextState \<Rightarrow> bool cdop" where
  "update_context_state fault i state =
     dbind (update_rows fault i (\<lambda>_. True) (\<lambda>r. r\<lparr>cr_context_state := state\<rparr>)) (\<lambda>n. dret (0 < n))"

definition conclude_context :: "fault \<Rightarrow> i64 \<Rightarrow> ContextId \<Rightarrow> bool cdop" where
  "conclude_context fault now i =
     dbind (update_rows fault i (\<lambda>r. cr_archived_at r = None \<and> cr_concluded_at r = None)
       (\<lambda>r. r\<lparr>cr_context_state := ContextState.Concluded, cr_concluded_at := Some now, cr_promoted_at := None\<rparr>))
       (\<lambda>n. dret (0 < n))"

definition seated :: "ContextRow \<Rightarrow> bool" where
  "seated r \<longleftrightarrow> cr_promoted_at r \<noteq> None \<and> cr_archived_at r = None"

definition get_context_or_fail :: "uuid_lib \<Rightarrow> fault \<Rightarrow> ContextId \<Rightarrow> ContextRow cdop" where
  "get_context_or_fail U fault i =
     dbind (get_context fault i) (\<lambda>r. case r of Some r \<Rightarrow> dret r | None \<Rightarrow> dfail (not_found_context U i))"

definition ring_full :: KernelDbError where
  "ring_full = KernelDbError.Validation
     (''active ring full (10 seats) '' @ [CHR 0xE2, CHR 0x80, CHR 0x94] @ '' demote something first'')"

definition promote_context :: "uuid_lib \<Rightarrow> fault \<Rightarrow> i64 \<Rightarrow> ContextId \<Rightarrow> PromoteOutcome cdop" where
  "promote_context U fault now i =
     dbind (get_context_or_fail U fault i) (\<lambda>r.
       if cr_archived_at r = None \<and> cr_promoted_at r \<noteq> None then dret AlreadyPromoted
       else
         dbind (sql fault (\<lambda>d. (d, Inr (length (filter seated (cd_contexts d)))))) (\<lambda>active_count.
           if ACTIVE_RING_CAPACITY \<le> active_count then dfail ring_full
           else if cr_archived_at r \<noteq> None
           then dbind (update_rows fault i (\<lambda>_. True)
                  (\<lambda>r. r\<lparr>cr_archived_at := None, cr_promoted_at := Some now, cr_demoted_at := None\<rparr>))
                  (\<lambda>_. dret (Resurrected (cr_concluded_at r \<noteq> None)))
           else dbind (update_rows fault i (\<lambda>r. cr_promoted_at r = None)
                  (\<lambda>r. r\<lparr>cr_promoted_at := Some now, cr_demoted_at := None\<rparr>))
                  (\<lambda>_. dret Promoted)))"

definition demote_context :: "uuid_lib \<Rightarrow> fault \<Rightarrow> i64 \<Rightarrow> ContextId \<Rightarrow> DemoteOutcome cdop" where
  "demote_context U fault now i =
     dbind (get_context_or_fail U fault i) (\<lambda>r.
       if cr_archived_at r \<noteq> None then dfail (KernelDbError.Validation ''cannot demote an archived context'')
       else if cr_demoted_at r \<noteq> None
       then dbind (archive_context fault now i) (\<lambda>_. dret DemoteOutcome.Archived)
       else if cr_promoted_at r \<noteq> None
       then dbind (update_rows fault i (\<lambda>_. True) (\<lambda>r. r\<lparr>cr_promoted_at := None\<rparr>)) (\<lambda>_. dret Unpromoted)
       else dbind (update_rows fault i (\<lambda>_. True) (\<lambda>r. r\<lparr>cr_demoted_at := Some now\<rparr>)) (\<lambda>_. dret Demoted))"

definition set_context_paused :: "uuid_lib \<Rightarrow> fault \<Rightarrow> i64 \<Rightarrow> ContextId \<Rightarrow> bool \<Rightarrow> unit cdop" where
  "set_context_paused U fault now i paused =
     dbind (update_rows fault i (\<lambda>r. cr_archived_at r = None)
       (\<lambda>r. r\<lparr>cr_paused_at := (if paused then Some now else None)\<rparr>)) (\<lambda>n.
       if n \<noteq> 0 then dret ()
       else dbind (get_context fault i) (\<lambda>r.
         case r of
           Some r \<Rightarrow>
             (if cr_archived_at r \<noteq> None
              then dfail (KernelDbError.Validation (''cannot '' @ (if paused then ''pause'' else ''resume'') @ '' an archived context''))
              else dfail (not_found_context U i))
         | None \<Rightarrow> dfail (not_found_context U i)))"

definition recency :: "ContextRow \<Rightarrow> i64" where
  "recency r = (case cr_last_activity_at r of Some t \<Rightarrow> t | None \<Rightarrow> cr_created_at r)"

definition list_active_contexts :: "fault \<Rightarrow> ContextRow list cdop" where
  "list_active_contexts fault = sql fault (\<lambda>d.
     (d, Inr (sort_key recency (filter (\<lambda>r. cr_archived_at r = None) (context_rows d)))))"

definition list_all_contexts :: "fault \<Rightarrow> ContextRow list cdop" where
  "list_all_contexts fault = sql fault (\<lambda>d. (d, Inr (sort_key recency (context_rows d))))"

text \<open>Rust's \<open>{:?}\<close> of the candidates is the parameter \<open>debug\<close>.\<close>

definition resolve_context ::
  "uuid_lib \<Rightarrow> (string list \<Rightarrow> string) \<Rightarrow> fault \<Rightarrow> string \<Rightarrow> ContextId cdop" where
  "resolve_context U debug fault query =
     dbind (case parse_str U query of
              Some full \<Rightarrow> dbind (get_context fault full) (\<lambda>r. dret (if r \<noteq> None then Some full else None))
            | None \<Rightarrow> dret None) (\<lambda>hit.
       case hit of
         Some full \<Rightarrow> dret full
       | None \<Rightarrow>
           dbind (list_active_contexts fault) (\<lambda>rows.
             case resolve_prefix U (map (\<lambda>r. (cr_context_id r, cr_label r)) rows) query of
               Inr i \<Rightarrow> dret i
             | Inl (NoMatch q) \<Rightarrow>
                 dfail (KernelDbError.NotFound (''no context matches '' @ [CHR 0x27] @ q @ [CHR 0x27]))
             | Inl (Ambiguous prefix candidates) \<Rightarrow>
                 dfail (KernelDbError.Validation
                   (''ambiguous prefix '' @ [CHR 0x27] @ prefix @ [CHR 0x27] @ '': matches '' @ debug candidates))))"

definition find_context_by_label :: "fault \<Rightarrow> string \<Rightarrow> ContextRow option cdop" where
  "find_context_by_label fault label = sql fault (\<lambda>d.
     (d, Inr (List.find (\<lambda>r. cr_label r = Some label) (context_rows d))))"

definition contexts_using_preset :: "fault \<Rightarrow> PresetId \<Rightarrow> nat cdop" where
  "contexts_using_preset fault p = sql fault (\<lambda>d.
     (d, Inr (length (filter (\<lambda>r. cr_preset_id r = Some p \<and> cr_archived_at r = None) (cd_contexts d)))))"

definition contexts_using_workspace :: "fault \<Rightarrow> WorkspaceId \<Rightarrow> nat cdop" where
  "contexts_using_workspace fault w = sql fault (\<lambda>d.
     (d, Inr (length (filter (\<lambda>r. cr_workspace_id r = Some w \<and> cr_archived_at r = None) (cd_contexts d)))))"

end
