(* ===== verification/Context_Graph.thy ===== *)
theory Context_Graph
  imports Context_Db
begin

text \<open>
  The edges between contexts: insertion with cycle detection, the queries that follow them, and the
  deletions that cascade to them.  The recursive queries of SQLite collect, level by level, the rows
  their step yields; on a cycle they do not end, so their model is a partial function whose
  \<open>None\<close> is a query that never returns.
\<close>

section \<open>Edges\<close>

definition structural_targets :: "ContextEdgeRow list \<Rightarrow> ContextId \<Rightarrow> ContextId list" where
  "structural_targets edges i =
     map er_target_id (filter (\<lambda>e. er_source_id e = i \<and> er_kind e = EdgeKind.Structural) edges)"

text \<open>
  The walk of \<open>would_create_cycle\<close>: the top of the stack is the head of the list, every new node
  costs one statement, and there are finitely many identifiers.
\<close>

function cycle_walk :: "fault \<Rightarrow> ContextId \<Rightarrow> ContextId list \<Rightarrow> ContextId set \<Rightarrow> bool cdop" where
  "cycle_walk fault source [] visited d = dret False d"
| "cycle_walk fault source (node # stack) visited d =
     (if node = source then dret True d
      else if node \<in> visited then cycle_walk fault source stack visited d
      else
        (case sql fault (\<lambda>d. (d, Inr (structural_targets (cd_edges d) node))) d of
           (d, Inl e) \<Rightarrow> (d, Inl e)
         | (d, Inr children) \<Rightarrow> cycle_walk fault source (rev children @ stack) (insert node visited) d))"
  by pat_completeness auto

termination
proof (relation "inv_image (finite_psubset <*lex*> measure length) (\<lambda>(fault, source, stack, visited, d). (- visited, stack))",
    goal_cases)
  case 1
  then show ?case by (rule wf_inv_image [OF wf_lex_prod [OF wf_finite_psubset wf_measure]])
next
  case (3 fault source node stack visited d x y children)
  then show ?case by (auto simp: finite_psubset_def)
qed (auto simp: finite_psubset_def)

definition would_create_cycle :: "fault \<Rightarrow> ContextId \<Rightarrow> ContextId \<Rightarrow> bool cdop" where
  "would_create_cycle fault source target =
     (if source = target then dret True else cycle_walk fault source [target] {})"

definition edge_exists_message :: "uuid_lib \<Rightarrow> ContextEdgeRow \<Rightarrow> string" where
  "edge_exists_message U row =
     ''structural edge \"'' @ short U (er_source_id row) @ ''\" '' @ [CHR 0xE2, CHR 0x86, CHR 0x92] @ '' \"''
       @ short U (er_target_id row) @ ''\" already exists''"

definition insert_edge :: "uuid_lib \<Rightarrow> fault \<Rightarrow> ContextEdgeRow \<Rightarrow> unit cdop" where
  "insert_edge U fault row =
     dbind (if er_kind row = EdgeKind.Structural
            then would_create_cycle fault (er_source_id row) (er_target_id row) else dret False) (\<lambda>cycle.
       if cycle then dfail CycleDetected
       else sql fault (\<lambda>d.
         if er_edge_id row \<in> er_edge_id ` set (cd_edges d)
            \<or> er_kind row = EdgeKind.Structural \<and> er_target_id row \<in> set (structural_targets (cd_edges d) (er_source_id row))
         then (d, Inl (LabelConflict (edge_exists_message U row)))
         else if \<not> context_exists d (er_source_id row) \<or> \<not> context_exists d (er_target_id row)
         then (d, Inl (KernelDbError.Validation ''FOREIGN KEY constraint failed''))
         else (d\<lparr>cd_edges := cd_edges d @ [row]\<rparr>, Inr ())))"

definition edges_from :: "fault \<Rightarrow> ContextId \<Rightarrow> EdgeKind option \<Rightarrow> ContextEdgeRow list cdop" where
  "edges_from fault source kind = sql fault (\<lambda>d.
     (d, Inr (sort_key er_created_at
       (filter (\<lambda>e. er_source_id e = source \<and> (case kind of Some k \<Rightarrow> er_kind e = k | None \<Rightarrow> True)) (cd_edges d)))))"

definition edges_to :: "fault \<Rightarrow> ContextId \<Rightarrow> EdgeKind option \<Rightarrow> ContextEdgeRow list cdop" where
  "edges_to fault target kind = sql fault (\<lambda>d.
     (d, Inr (sort_key er_created_at
       (filter (\<lambda>e. er_target_id e = target \<and> (case kind of Some k \<Rightarrow> er_kind e = k | None \<Rightarrow> True)) (cd_edges d)))))"

definition drift_provenance :: "fault \<Rightarrow> ContextId \<Rightarrow> ContextEdgeRow list cdop" where
  "drift_provenance fault i = sql fault (\<lambda>d.
     (d, Inr (sort_key (\<lambda>e. - er_created_at e)
       (filter (\<lambda>e. er_source_id e = i \<and> er_kind e = EdgeKind.Drift) (cd_edges d)))))"

definition delete_structural_edge :: "fault \<Rightarrow> ContextId \<Rightarrow> ContextId \<Rightarrow> bool cdop" where
  "delete_structural_edge fault source target = sql fault (\<lambda>d.
     let hit = (\<lambda>e. er_source_id e = source \<and> er_target_id e = target \<and> er_kind e = EdgeKind.Structural)
     in (d\<lparr>cd_edges := filter (\<lambda>e. \<not> hit e) (cd_edges d)\<rparr>, Inr (\<exists>e \<in> set (cd_edges d). hit e)))"

definition delete_drift_edge :: "fault \<Rightarrow> uuid \<Rightarrow> bool cdop" where
  "delete_drift_edge fault edge_id = sql fault (\<lambda>d.
     let hit = (\<lambda>e. er_edge_id e = edge_id \<and> er_kind e = EdgeKind.Drift)
     in (d\<lparr>cd_edges := filter (\<lambda>e. \<not> hit e) (cd_edges d)\<rparr>, Inr (\<exists>e \<in> set (cd_edges d). hit e)))"

section \<open>Deletion\<close>

text \<open>
  A deleted context takes its edges with it, and the contexts forked from it lose their parent; a
  deleted document takes its journal and its context.
\<close>

definition drop_context :: "ContextId \<Rightarrow> ContextDb \<Rightarrow> ContextDb" where
  "drop_context i d =
     d\<lparr>cd_contexts := map (\<lambda>r. if cr_forked_from r = Some i then r\<lparr>cr_forked_from := None\<rparr> else r)
         (filter (\<lambda>r. cr_context_id r \<noteq> i) (cd_contexts d)),
       cd_edges := filter (\<lambda>e. er_source_id e \<noteq> i \<and> er_target_id e \<noteq> i) (cd_edges d),
       cd_base := (cd_base d)\<lparr>kd_activity := (kd_activity (cd_base d))(i := None)\<rparr>\<rparr>"

definition delete_context :: "fault \<Rightarrow> ContextId \<Rightarrow> bool cdop" where
  "delete_context fault i = sql fault (\<lambda>d. (drop_context i d, Inr (context_exists d i)))"

definition delete_document :: "fault \<Rightarrow> ContextId \<Rightarrow> bool cdop" where
  "delete_document fault i d =
     (case delete_document_row fault i (cd_base d) of
        (b, Inl e) \<Rightarrow> (d\<lparr>cd_base := b\<rparr>, Inl e)
      | (b, Inr found) \<Rightarrow> (drop_context i (d\<lparr>cd_base := b\<rparr>), Inr found))"

section \<open>Recursive queries\<close>

definition structural_parents :: "fault \<Rightarrow> ContextId \<Rightarrow> ContextRow list cdop" where
  "structural_parents fault i = sql fault (\<lambda>d.
     (d, Inr (concat (map (\<lambda>c. map (\<lambda>_. c)
        (filter (\<lambda>e. er_source_id e = cr_context_id c \<and> er_target_id e = i \<and> er_kind e = EdgeKind.Structural) (cd_edges d)))
        (context_rows d)))))"

definition structural_children :: "fault \<Rightarrow> ContextId \<Rightarrow> ContextRow list cdop" where
  "structural_children fault i = sql fault (\<lambda>d.
     (d, Inr (concat (map (\<lambda>c. map (\<lambda>_. c)
        (filter (\<lambda>e. er_target_id e = cr_context_id c \<and> er_source_id e = i \<and> er_kind e = EdgeKind.Structural) (cd_edges d)))
        (filter (\<lambda>c. cr_archived_at c = None) (context_rows d))))))"

partial_function (option) cte :: "('a \<Rightarrow> 'a list) \<Rightarrow> nat \<Rightarrow> 'a list \<Rightarrow> ('a \<times> nat) list option" where
  "cte next depth level =
     (if level = [] then Some []
      else Option.bind (cte next (depth + 1) (concat (map next level)))
             (\<lambda>rest. Some (map (\<lambda>x. (x, depth)) level @ rest)))"

text \<open>Joined with the contexts and ordered by depth and then creation; both sorts are stable.\<close>

definition joined :: "ContextDb \<Rightarrow> (ContextId \<times> nat) list \<Rightarrow> (ContextRow \<times> nat) list" where
  "joined d walk =
     sort_key snd (sort_key (\<lambda>(r, _). cr_created_at r)
       (concat (map (\<lambda>(i, depth). map (\<lambda>r. (r, depth)) (filter (\<lambda>r. cr_context_id r = i) (context_rows d))) walk)))"

definition walk_query ::
  "fault \<Rightarrow> (ContextDb \<Rightarrow> ContextId \<Rightarrow> ContextId list) \<Rightarrow> (ContextDb \<Rightarrow> ContextId list) \<Rightarrow> ContextDb
    \<Rightarrow> (ContextDb \<times> (KernelDbError + (ContextRow \<times> nat) list)) option" where
  "walk_query fault next start d =
     (case sql fault (\<lambda>d. (d, Inr ())) d of
        (d, Inl e) \<Rightarrow> Some (d, Inl e)
      | (d, Inr _) \<Rightarrow> map_option (\<lambda>walk. (d, Inr (joined d walk))) (cte (next d) 0 (start d)))"

definition context_is_active :: "ContextDb \<Rightarrow> ContextId \<Rightarrow> bool" where
  "context_is_active d i \<longleftrightarrow> (\<exists>r \<in> set (cd_contexts d). cr_context_id r = i \<and> cr_archived_at r = None)"

definition dag_roots :: "ContextDb \<Rightarrow> ContextId list" where
  "dag_roots d =
     map cr_context_id (filter (\<lambda>r. cr_archived_at r = None \<and>
       \<not> (\<exists>e \<in> set (cd_edges d). er_target_id e = cr_context_id r \<and> er_kind e = EdgeKind.Structural)) (cd_contexts d))"

definition context_dag where
  "context_dag fault =
     walk_query fault (\<lambda>d i. filter (context_is_active d) (structural_targets (cd_edges d) i)) dag_roots"

definition fork_parent :: "ContextDb \<Rightarrow> ContextId \<Rightarrow> ContextId list" where
  "fork_parent d i = List.map_filter (\<lambda>r. if cr_context_id r = i then cr_forked_from r else None) (cd_contexts d)"

definition fork_lineage where
  "fork_lineage fault i = walk_query fault fork_parent (\<lambda>_. [i])"

definition subtree_snapshot where
  "subtree_snapshot fault i = walk_query fault (\<lambda>d. structural_targets (cd_edges d)) (\<lambda>_. [i])"

end
