(* ===== verification/Workspaces.thy ===== *)
theory Workspaces
  imports Context_Db
begin

text \<open>
  The workspaces of the kernel database with the paths they grant, and the presets with their
  arguments.
\<close>

section \<open>Workspaces\<close>

definition insert_workspace :: "fault \<Rightarrow> WorkspaceRow \<Rightarrow> unit cdop" where
  "insert_workspace fault row =
     dbind (validate_label (wr_label row)) (\<lambda>_. sql fault (\<lambda>d.
       if \<exists>w \<in> set (cd_workspaces d). wr_workspace_id w = wr_workspace_id row \<or> wr_label w = wr_label row
       then (d, Inl (LabelConflict (quoted_use ''workspace label'' (wr_label row))))
       else
         (d\<lparr>cd_workspaces := cd_workspaces d @ [row],
            cd_base := (cd_base d)\<lparr>kd_workspaces := insert (wr_workspace_id row) (kd_workspaces (cd_base d))\<rparr>\<rparr>,
          Inr ())))"

definition get_workspace :: "fault \<Rightarrow> WorkspaceId \<Rightarrow> WorkspaceRow option cdop" where
  "get_workspace fault i = sql fault (\<lambda>d. (d, Inr (List.find (\<lambda>w. wr_workspace_id w = i) (cd_workspaces d))))"

definition get_workspace_by_label :: "fault \<Rightarrow> string \<Rightarrow> WorkspaceRow option cdop" where
  "get_workspace_by_label fault l = sql fault (\<lambda>d. (d, Inr (List.find (\<lambda>w. wr_label w = l) (cd_workspaces d))))"

definition list_workspaces :: "fault \<Rightarrow> WorkspaceRow list cdop" where
  "list_workspaces fault = sql fault (\<lambda>d.
     (d, Inr (sort_key wr_label (filter (\<lambda>w. wr_archived_at w = None) (cd_workspaces d)))))"

definition list_all_workspaces :: "fault \<Rightarrow> WorkspaceRow list cdop" where
  "list_all_workspaces fault = sql fault (\<lambda>d. (d, Inr (sort_key wr_label (cd_workspaces d))))"

definition archive_workspace :: "fault \<Rightarrow> i64 \<Rightarrow> WorkspaceId \<Rightarrow> bool cdop" where
  "archive_workspace fault now i = sql fault (\<lambda>d.
     let hit = (\<lambda>w. wr_workspace_id w = i \<and> wr_archived_at w = None)
     in (d\<lparr>cd_workspaces := map (\<lambda>w. if hit w then w\<lparr>wr_archived_at := Some now\<rparr> else w) (cd_workspaces d)\<rparr>,
         Inr (\<exists>w \<in> set (cd_workspaces d). hit w)))"

text \<open>The built-in workspaces, made on first use under a fresh identifier.\<close>

definition get_or_create_builtin_workspace ::
  "fault \<Rightarrow> i64 \<Rightarrow> WorkspaceId \<Rightarrow> string \<Rightarrow> string \<Rightarrow> PrincipalId \<Rightarrow> WorkspaceId cdop" where
  "get_or_create_builtin_workspace fault now fresh label description created_by =
     dbind (get_workspace_by_label fault label) (\<lambda>found.
       case found of
         Some w \<Rightarrow> dret (wr_workspace_id w)
       | None \<Rightarrow>
           dbind (insert_workspace fault
             \<lparr>wr_workspace_id = fresh, wr_label = label, wr_description = Some description,
              wr_created_at = now, wr_created_by = created_by, wr_archived_at = None\<rparr>) (\<lambda>_. dret fresh))"

definition get_or_create_system_workspace where
  "get_or_create_system_workspace fault now fresh created_by =
     get_or_create_builtin_workspace fault now fresh ''__system'' ''System configuration documents'' created_by"

definition get_or_create_default_workspace where
  "get_or_create_default_workspace fault now fresh created_by =
     get_or_create_builtin_workspace fault now fresh ''__default'' ''Default workspace'' created_by"

section \<open>Workspace paths\<close>

definition insert_workspace_path :: "fault \<Rightarrow> WorkspacePathRow \<Rightarrow> unit cdop" where
  "insert_workspace_path fault row = sql fault (\<lambda>d.
     if \<exists>p \<in> set (cd_workspace_paths d). wp_workspace_id p = wp_workspace_id row \<and> wp_path p = wp_path row
     then (d, Inl (LabelConflict (''workspace path '' @ [CHR 0x27] @ wp_path row @ [CHR 0x27] @ '' already exists'')))
     else if wp_workspace_id row \<notin> kd_workspaces (cd_base d)
     then (d, Inl (KernelDbError.Validation ''FOREIGN KEY constraint failed''))
     else (d\<lparr>cd_workspace_paths := cd_workspace_paths d @ [row]\<rparr>, Inr ()))"

definition list_workspace_paths :: "fault \<Rightarrow> WorkspaceId \<Rightarrow> WorkspacePathRow list cdop" where
  "list_workspace_paths fault i = sql fault (\<lambda>d.
     (d, Inr (sort_key wp_path (filter (\<lambda>p. wp_workspace_id p = i) (cd_workspace_paths d)))))"

definition delete_workspace_path :: "fault \<Rightarrow> WorkspaceId \<Rightarrow> string \<Rightarrow> bool cdop" where
  "delete_workspace_path fault i path = sql fault (\<lambda>d.
     let hit = (\<lambda>p. wp_workspace_id p = i \<and> wp_path p = path)
     in (d\<lparr>cd_workspace_paths := filter (\<lambda>p. \<not> hit p) (cd_workspace_paths d)\<rparr>,
         Inr (\<exists>p \<in> set (cd_workspace_paths d). hit p)))"

definition context_workspace_paths :: "uuid_lib \<Rightarrow> fault \<Rightarrow> ContextId \<Rightarrow> WorkspacePathRow list option cdop" where
  "context_workspace_paths U fault i =
     dbind (get_context_or_fail U fault i) (\<lambda>r.
       case cr_workspace_id r of
         Some w \<Rightarrow> dbind (list_workspace_paths fault w) (\<lambda>paths. dret (Some paths))
       | None \<Rightarrow> dret None)"

definition covers :: "WorkspacePathRow \<Rightarrow> string \<Rightarrow> bool" where
  "covers wp path \<longleftrightarrow> path = wp_path wp \<or> starts_with path (wp_path wp @ ''/'')"

fun best_match :: "string \<Rightarrow> WorkspacePathRow option \<Rightarrow> WorkspacePathRow list \<Rightarrow> WorkspacePathRow option" where
  "best_match path best [] = best"
| "best_match path best (wp # wps) =
     best_match path
       (if covers wp path
        then (case best of
                None \<Rightarrow> Some wp
              | Some prev \<Rightarrow> if length (wp_path prev) < length (wp_path wp) then Some wp else Some prev)
        else best) wps"

definition check_workspace_path :: "uuid_lib \<Rightarrow> fault \<Rightarrow> ContextId \<Rightarrow> string \<Rightarrow> bool option cdop" where
  "check_workspace_path U fault i path =
     dbind (context_workspace_paths U fault i) (\<lambda>ws_paths.
       case ws_paths of
         None \<Rightarrow> dret None
       | Some paths \<Rightarrow>
           (case best_match path None paths of
              Some wp \<Rightarrow> dret (Some (wp_read_only wp))
            | None \<Rightarrow>
                dfail (KernelDbError.Validation
                  (''path '' @ [CHR 0x27] @ path @ [CHR 0x27] @ '' is outside workspace scope''))))"

section \<open>Presets\<close>

definition insert_preset :: "fault \<Rightarrow> PresetRow \<Rightarrow> unit cdop" where
  "insert_preset fault row =
     dbind (validate_label (pr_label row)) (\<lambda>_. sql fault (\<lambda>d.
       if \<exists>p \<in> set (cd_presets d). pr_preset_id p = pr_preset_id row \<or> pr_label p = pr_label row
       then (d, Inl (LabelConflict (quoted_use ''preset label'' (pr_label row))))
       else (d\<lparr>cd_presets := cd_presets d @ [row]\<rparr>, Inr ())))"

definition get_preset :: "fault \<Rightarrow> PresetId \<Rightarrow> PresetRow option cdop" where
  "get_preset fault i = sql fault (\<lambda>d. (d, Inr (List.find (\<lambda>p. pr_preset_id p = i) (cd_presets d))))"

definition get_preset_by_label :: "fault \<Rightarrow> string \<Rightarrow> PresetRow option cdop" where
  "get_preset_by_label fault l = sql fault (\<lambda>d. (d, Inr (List.find (\<lambda>p. pr_label p = l) (cd_presets d))))"

definition list_presets :: "fault \<Rightarrow> PresetRow list cdop" where
  "list_presets fault = sql fault (\<lambda>d. (d, Inr (sort_key pr_label (cd_presets d))))"

text \<open>The update names every column but the key, the creation time and the creator.  The identifier's display form is a parameter.\<close>

definition update_preset :: "(PresetId \<Rightarrow> string) \<Rightarrow> fault \<Rightarrow> PresetRow \<Rightarrow> unit cdop" where
  "update_preset show_id fault row =
     dbind (validate_label (pr_label row)) (\<lambda>_.
     dbind (sql fault (\<lambda>d.
         let hit = (\<lambda>p. pr_preset_id p = pr_preset_id row) in
         if (\<exists>p \<in> set (cd_presets d). hit p) \<and> (\<exists>p \<in> set (cd_presets d). \<not> hit p \<and> pr_label p = pr_label row)
         then (d, Inl (LabelConflict (quoted_use ''preset label'' (pr_label row))))
         else
           (d\<lparr>cd_presets := map (\<lambda>p. if hit p
                then row\<lparr>pr_created_at := pr_created_at p, pr_created_by := pr_created_by p\<rparr> else p) (cd_presets d)\<rparr>,
            Inr (\<exists>p \<in> set (cd_presets d). hit p))))
       (\<lambda>found. if found then dret () else dfail (KernelDbError.NotFound (''preset '' @ show_id (pr_preset_id row)))))"

definition delete_preset :: "fault \<Rightarrow> PresetId \<Rightarrow> bool cdop" where
  "delete_preset fault i = sql fault (\<lambda>d.
     (d\<lparr>cd_presets := filter (\<lambda>p. pr_preset_id p \<noteq> i) (cd_presets d),
        cd_preset_args := filter (\<lambda>a. pa_preset_id a \<noteq> i) (cd_preset_args d),
        cd_contexts := map (\<lambda>r. if cr_preset_id r = Some i then r\<lparr>cr_preset_id := None\<rparr> else r) (cd_contexts d)\<rparr>,
      Inr (i \<in> pr_preset_id ` set (cd_presets d))))"

text \<open>
  Replacing a verb's arguments is one transaction: when a statement of it fails, or the preset is
  not there, the table stays as it was.
\<close>

definition set_preset_args :: "fault \<Rightarrow> PresetId \<Rightarrow> string \<Rightarrow> (string \<times> string) list \<Rightarrow> unit cdop" where
  "set_preset_args fault i verb args = sql fault (\<lambda>d.
     if args \<noteq> [] \<and> i \<notin> pr_preset_id ` set (cd_presets d) then (d, Inl foreign_key)
     else
       (d\<lparr>cd_preset_args := filter (\<lambda>a. \<not> (pa_preset_id a = i \<and> pa_verb a = verb)) (cd_preset_args d)
            @ map (\<lambda>(n, v). \<lparr>pa_preset_id = i, pa_verb = verb, pa_arg_name = n, pa_arg_value = v\<rparr>)
                (rev (remdups (rev args)))\<rparr>, Inr ()))"

definition get_preset_args :: "fault \<Rightarrow> PresetId \<Rightarrow> string \<Rightarrow> (string \<times> string) list cdop" where
  "get_preset_args fault i verb = sql fault (\<lambda>d.
     (d, Inr (sort_key fst (sort_key snd
       (map (\<lambda>a. (pa_arg_name a, pa_arg_value a))
         (filter (\<lambda>a. pa_preset_id a = i \<and> pa_verb a = verb) (cd_preset_args d)))))))"

end
