(* ===== verification/Drift.thy ===== *)
theory Drift
  imports Kernel_Ops Context_Graph Workspaces
begin

text \<open>
  Drift: how content moves between contexts, \<open>crates/kaijutsu-kernel/src/drift.rs\<close> and the drift
  commands of \<open>crates/kaijutsu-kernel/src/kj/drift.rs\<close>.

  The router registers the contexts, resolves names to them, and keeps two queues of staged drifts:
  those to be delivered and the dead letters.  A hash map is an association list sorted by its keys;
  its iteration order shows only in the order of ambiguous candidates and of equally old contexts.
  The clock and the random trace identifier are arguments.
\<close>

section \<open>The router\<close>

record ContextHandle =
  ch_id :: ContextId
  ch_label :: "string option"
  ch_pwd :: "string option"
  ch_provider :: "string option"
  ch_model :: "string option"
  ch_forked_from :: "ContextId option"
  ch_created_by :: PrincipalId
  ch_created_at :: u64
  ch_trace_id :: bytes
  ch_state :: ContextState

definition handle_display_name :: "uuid_lib \<Rightarrow> ContextHandle \<Rightarrow> string" where
  "handle_display_name U h = display_or U (ch_id h) (ch_label h)"

record StagedDrift =
  dt_id :: u64
  dt_source_ctx :: ContextId
  dt_target_ctx :: ContextId
  dt_content :: string
  dt_source_model :: "string option"
  dt_drift_kind :: DriftKind
  dt_created_at :: u64
  dt_retry_count :: nat

definition MAX_DRIFT_RETRIES :: nat where
  "MAX_DRIFT_RETRIES = 5"

record DriftRouter =
  rt_contexts :: "(ContextId, ContextHandle) btree"
  rt_staging :: "StagedDrift list"
  rt_dead_letter :: "StagedDrift list"
  rt_next_staged_id :: u64
  rt_label_to_id :: "(string, ContextId) btree"
  rt_lost_found_id :: "ContextId option"

datatype DriftError =
    UnknownContext string
  | AmbiguousContext string "string list"
  | LabelInUse string string
  | DocumentError string
  | LlmError string

type_synonym 'a rop = "DriftRouter \<Rightarrow> DriftRouter \<times> (DriftError + 'a)"

definition router_new :: DriftRouter where
  "router_new = \<lparr>rt_contexts = [], rt_staging = [], rt_dead_letter = [], rt_next_staged_id = 1,
     rt_label_to_id = [], rt_lost_found_id = None\<rparr>"

definition check_label_available :: "uuid_lib \<Rightarrow> string \<Rightarrow> ContextId \<Rightarrow> DriftRouter \<Rightarrow> DriftError option" where
  "check_label_available U label i r =
     (case bt_get (rt_label_to_id r) label of
        Some existing \<Rightarrow> if existing \<noteq> i then Some (LabelInUse label (short U existing)) else None
      | None \<Rightarrow> None)"

text \<open>What both registrations do once the handle's provider and model are known.\<close>

definition put_handle ::
  "uuid_lib \<Rightarrow> u64 \<Rightarrow> bytes \<Rightarrow> ContextId \<Rightarrow> string option \<Rightarrow> string option \<Rightarrow> string option
    \<Rightarrow> ContextId option \<Rightarrow> PrincipalId \<Rightarrow> unit rop" where
  "put_handle U now trace i label provider model forked_from created_by r =
     (case (case label of Some l \<Rightarrow> check_label_available U l i r | None \<Rightarrow> None) of
        Some e \<Rightarrow> (r, Inl e)
      | None \<Rightarrow>
          (r\<lparr>rt_label_to_id := (case label of Some l \<Rightarrow> bt_insert l i (rt_label_to_id r) | None \<Rightarrow> rt_label_to_id r),
             rt_contexts := bt_insert i
               \<lparr>ch_id = i, ch_label = label, ch_pwd = None, ch_provider = provider, ch_model = model,
                ch_forked_from = forked_from, ch_created_by = created_by, ch_created_at = now,
                ch_trace_id = trace, ch_state = ContextState.Live\<rparr> (rt_contexts r)\<rparr>, Inr ()))"

definition register ::
  "uuid_lib \<Rightarrow> u64 \<Rightarrow> bytes \<Rightarrow> ContextId \<Rightarrow> string option \<Rightarrow> ContextId option \<Rightarrow> PrincipalId \<Rightarrow> unit rop" where
  "register U now trace i label forked_from created_by =
     put_handle U now trace i label None None forked_from created_by"

definition register_fork ::
  "uuid_lib \<Rightarrow> u64 \<Rightarrow> bytes \<Rightarrow> ContextId \<Rightarrow> string option \<Rightarrow> ContextId \<Rightarrow> PrincipalId \<Rightarrow> unit rop" where
  "register_fork U now trace i label forked_from created_by r =
     (case bt_get (rt_contexts r) forked_from of
        None \<Rightarrow> (r, Inl (UnknownContext (short U forked_from)))
      | Some parent \<Rightarrow>
          put_handle U now trace i label (ch_provider parent) (ch_model parent) (Some forked_from) created_by r)"

definition involves :: "ContextId \<Rightarrow> StagedDrift \<Rightarrow> bool" where
  "involves i s \<longleftrightarrow> dt_source_ctx s = i \<or> dt_target_ctx s = i"

definition unregister :: "ContextId \<Rightarrow> DriftRouter \<Rightarrow> DriftRouter" where
  "unregister i r =
     (let index = (case bt_get (rt_contexts r) i of
                     Some h \<Rightarrow> (case ch_label h of Some l \<Rightarrow> bt_remove l (rt_label_to_id r) | None \<Rightarrow> rt_label_to_id r)
                   | None \<Rightarrow> rt_label_to_id r)
      in r\<lparr>rt_contexts := bt_remove i (rt_contexts r), rt_label_to_id := index,
           rt_staging := filter (\<lambda>s. \<not> involves i s) (rt_staging r),
           rt_dead_letter := rt_dead_letter r @ filter (involves i) (rt_staging r)\<rparr>)"

definition router_get :: "DriftRouter \<Rightarrow> ContextId \<Rightarrow> ContextHandle option" where
  "router_get r i = bt_get (rt_contexts r) i"

text \<open>\<open>get_mut\<close> and a write to the handle, or the error.\<close>

definition with_handle :: "uuid_lib \<Rightarrow> ContextId \<Rightarrow> (ContextHandle \<Rightarrow> ContextHandle) \<Rightarrow> unit rop" where
  "with_handle U i f r =
     (case bt_get (rt_contexts r) i of
        None \<Rightarrow> (r, Inl (UnknownContext (short U i)))
      | Some _ \<Rightarrow> (r\<lparr>rt_contexts := bt_modify i f (rt_contexts r)\<rparr>, Inr ()))"

definition rename :: "uuid_lib \<Rightarrow> ContextId \<Rightarrow> string option \<Rightarrow> unit rop" where
  "rename U i new_label r =
     (case (case new_label of Some l \<Rightarrow> check_label_available U l i r | None \<Rightarrow> None) of
        Some e \<Rightarrow> (r, Inl e)
      | None \<Rightarrow>
          (case bt_get (rt_contexts r) i of
             None \<Rightarrow> (r, Inl (UnknownContext (short U i)))
           | Some h \<Rightarrow>
               (let index = (case ch_label h of Some old \<Rightarrow> bt_remove old (rt_label_to_id r) | None \<Rightarrow> rt_label_to_id r)
                in (r\<lparr>rt_contexts := bt_modify i (ch_label_update (\<lambda>_. new_label)) (rt_contexts r),
                      rt_label_to_id := (case new_label of Some l \<Rightarrow> bt_insert l i index | None \<Rightarrow> index)\<rparr>, Inr ()))))"

definition label_entries :: "DriftRouter \<Rightarrow> (ContextId \<times> string option) list" where
  "label_entries r = map (\<lambda>(_, h). (ch_id h, ch_label h)) (rt_contexts r)"

definition router_resolve :: "uuid_lib \<Rightarrow> DriftRouter \<Rightarrow> string \<Rightarrow> DriftError + ContextId" where
  "router_resolve U r query =
     (case resolve_prefix U (label_entries r) query of
        Inr i \<Rightarrow> Inr i
      | Inl (NoMatch q) \<Rightarrow> Inl (UnknownContext q)
      | Inl (Ambiguous prefix candidates) \<Rightarrow> Inl (AmbiguousContext prefix candidates))"

definition configure_llm :: "uuid_lib \<Rightarrow> ContextId \<Rightarrow> string \<Rightarrow> string \<Rightarrow> unit rop" where
  "configure_llm U i provider model =
     with_handle U i (\<lambda>h. h\<lparr>ch_provider := Some provider, ch_model := Some model\<rparr>)"

definition set_pwd :: "uuid_lib \<Rightarrow> ContextId \<Rightarrow> string option \<Rightarrow> unit rop" where
  "set_pwd U i pwd = with_handle U i (ch_pwd_update (\<lambda>_. pwd))"

definition context_state :: "DriftRouter \<Rightarrow> ContextId \<Rightarrow> ContextState option" where
  "context_state r i = map_option ch_state (bt_get (rt_contexts r) i)"

definition set_state :: "uuid_lib \<Rightarrow> ContextId \<Rightarrow> ContextState \<Rightarrow> unit rop" where
  "set_state U i state = with_handle U i (ch_state_update (\<lambda>_. state))"

definition list_contexts :: "DriftRouter \<Rightarrow> ContextHandle list" where
  "list_contexts r = sort_key ch_created_at (map snd (rt_contexts r))"

definition trace_id_for_context :: "DriftRouter \<Rightarrow> ContextId \<Rightarrow> bytes option" where
  "trace_id_for_context r i = map_option ch_trace_id (bt_get (rt_contexts r) i)"

definition adopt_lost_found :: "ContextId \<Rightarrow> DriftRouter \<Rightarrow> DriftRouter" where
  "adopt_lost_found i r =
     (case rt_lost_found_id r of Some _ \<Rightarrow> r | None \<Rightarrow> r\<lparr>rt_lost_found_id := Some i\<rparr>)"

section \<open>The queues\<close>

definition stage ::
  "uuid_lib \<Rightarrow> u64 \<Rightarrow> ContextId \<Rightarrow> ContextId \<Rightarrow> string \<Rightarrow> string option \<Rightarrow> DriftKind \<Rightarrow> u64 rop" where
  "stage U now source_ctx target_ctx content source_model drift_kind r =
     (if \<not> bt_contains (rt_contexts r) source_ctx then (r, Inl (UnknownContext (short U source_ctx)))
      else if \<not> bt_contains (rt_contexts r) target_ctx then (r, Inl (UnknownContext (short U target_ctx)))
      else
        (let n = rt_next_staged_id r
         in (r\<lparr>rt_next_staged_id := n + 1,
               rt_staging := rt_staging r @
                 [\<lparr>dt_id = n, dt_source_ctx = source_ctx, dt_target_ctx = target_ctx, dt_content = content,
                   dt_source_model = source_model, dt_drift_kind = drift_kind, dt_created_at = now,
                   dt_retry_count = 0\<rparr>]\<rparr>, Inr n)))"

definition cancel :: "u64 \<Rightarrow> DriftRouter \<Rightarrow> DriftRouter \<times> bool" where
  "cancel n r =
     (let kept = filter (\<lambda>s. dt_id s \<noteq> n) (rt_staging r)
      in (r\<lparr>rt_staging := kept\<rparr>, length kept < length (rt_staging r)))"

definition drain :: "ContextId option \<Rightarrow> DriftRouter \<Rightarrow> DriftRouter \<times> StagedDrift list" where
  "drain for_context r =
     (case for_context of
        None \<Rightarrow> (r\<lparr>rt_staging := []\<rparr>, rt_staging r)
      | Some ctx \<Rightarrow>
          (r\<lparr>rt_staging := filter (\<lambda>s. \<not> involves ctx s) (rt_staging r)\<rparr>, filter (involves ctx) (rt_staging r)))"

fun requeue :: "StagedDrift list \<Rightarrow> DriftRouter \<Rightarrow> DriftRouter" where
  "requeue [] r = r"
| "requeue (s # ss) r =
     (let s = s\<lparr>dt_retry_count := dt_retry_count s + 1\<rparr>
      in if MAX_DRIFT_RETRIES < dt_retry_count s
         then requeue ss (r\<lparr>rt_dead_letter := rt_dead_letter r @ [s]\<rparr>)
         else requeue ss (r\<lparr>rt_staging := rt_staging r @ [s]\<rparr>))"

definition drain_dead_letter :: "DriftRouter \<Rightarrow> DriftRouter \<times> StagedDrift list" where
  "drain_dead_letter r = (r\<lparr>rt_dead_letter := []\<rparr>, rt_dead_letter r)"

definition replay_dead_letter :: "u64 \<Rightarrow> DriftRouter \<Rightarrow> DriftRouter \<times> StagedDrift option" where
  "replay_dead_letter n r =
     (case position (\<lambda>s. dt_id s = n) (rt_dead_letter r) of
        None \<Rightarrow> (r, None)
      | Some p \<Rightarrow>
          (let s = (rt_dead_letter r ! p)\<lparr>dt_retry_count := 0\<rparr>
           in (r\<lparr>rt_dead_letter := take p (rt_dead_letter r) @ drop (Suc p) (rt_dead_letter r),
                 rt_staging := rt_staging r @ [s]\<rparr>, Some s)))"

text \<open>
  The identifier of lost+found, registered on first use.  The identifier is stored before the
  registration, whose failure is a panic: \<open>None\<close>.
\<close>

definition lost_found_label :: string where
  "lost_found_label = ''lost+found''"

definition ensure_lost_found ::
  "uuid_lib \<Rightarrow> u64 \<Rightarrow> bytes \<Rightarrow> PrincipalId \<Rightarrow> ContextId \<Rightarrow> DriftRouter \<Rightarrow> DriftRouter \<times> (ContextId \<times> bool) option" where
  "ensure_lost_found U now trace system fresh r =
     (case rt_lost_found_id r of
        Some i \<Rightarrow> (r, Some (i, False))
      | None \<Rightarrow>
          (case register U now trace fresh (Some lost_found_label) None system (r\<lparr>rt_lost_found_id := Some fresh\<rparr>) of
             (r, Inl _) \<Rightarrow> (r, None)
           | (r, Inr _) \<Rightarrow> (r, Some (fresh, True))))"

section \<open>Distillation\<close>

definition role_label :: "Role \<Rightarrow> string" where
  "role_label x =
     (case x of Role.User \<Rightarrow> ''User'' | Role.Model \<Rightarrow> ''Assistant'' | Role.System \<Rightarrow> ''System''
      | Role.Tool \<Rightarrow> ''Tool'' | Role.Asset \<Rightarrow> ''Asset'')"

definition kind_suffix :: "BlockKind \<Rightarrow> string" where
  "kind_suffix x =
     (case x of
        BlockKind.Thinking \<Rightarrow> '' (thinking)''
      | BlockKind.ToolCall \<Rightarrow> '' (tool call)''
      | BlockKind.ToolResult \<Rightarrow> '' (tool result)''
      | BlockKind.Drift \<Rightarrow> '' (drift)''
      | BlockKind.File \<Rightarrow> '' (file)''
      | BlockKind.Error \<Rightarrow> '' (error)''
      | BlockKind.Notification \<Rightarrow> '' (notification)''
      | BlockKind.Resource \<Rightarrow> '' (resource)''
      | BlockKind.Trace \<Rightarrow> '' (trace)''
      | BlockKind.Text \<Rightarrow> [])"

definition distilled_content :: "string \<Rightarrow> string" where
  "distilled_content content =
     (if 2000 < length content
      then take (boundary_below content 2000) content @ ''... [truncated, '' @ show_nat (length content) @ '' bytes total]''
      else content)"

definition build_distillation_prompt :: "BlockSnapshot list \<Rightarrow> string option \<Rightarrow> string" where
  "build_distillation_prompt blocks directed_prompt =
     ''# Conversation to summarize'' @ [CHR 0x0A, CHR 0x0A]
     @ concat (map (\<lambda>b.
         if bs_content b = [] then []
         else ''**'' @ role_label (bs_role b) @ kind_suffix (bs_kind b) @ ''**: '' @ distilled_content (bs_content b)
              @ [CHR 0x0A, CHR 0x0A]) blocks)
     @ (case directed_prompt of
          Some p \<Rightarrow> [CHR 0x0A] @ ''---'' @ [CHR 0x0A, CHR 0x0A] @ ''Focus your summary on: '' @ p @ [CHR 0x0A]
        | None \<Rightarrow> [])"

end
