(* ===== verification/Drift_Cmd.thy ===== *)
theory Drift_Cmd
  imports Drift
begin

text \<open>
  The drift commands, \<open>crates/kaijutsu-kernel/src/kj/drift.rs\<close>, with the context references of
  \<open>kj/refs.rs\<close> and the queue listing of \<open>kj/format.rs\<close>: how the router, the block store and the
  context registry work together.

  Parameters: the clock and the source of fresh identifiers, read once each time the code asks; the
  language model, given the caller's provider and model and the prompt; the scripts of the rc
  lifecycle, which may do anything to the state; and the text of an error of the block store.  The
  registry and the store share one database.  \<open>None\<close> is a command that panics.
\<close>

section \<open>The state of the dispatcher\<close>

record 'd KjState =
  kj_router :: DriftRouter
  kj_store :: "'d KernelStore"
  kj_registry :: ContextDb
  kj_reads :: nat

text \<open>\<open>KjResult\<close>; the structured data of these commands are arrays of identifiers.\<close>

datatype KjResult =
    KjOk string ContentType bool "string list option"
  | KjErr string
  | KjSwitch ContextId string
  | KjLatch string string string

definition kj_ok :: "string \<Rightarrow> KjResult" where
  "kj_ok message = KjOk message ContentType.Plain False None"

definition ok_with_data :: "string \<Rightarrow> string list \<Rightarrow> KjResult" where
  "ok_with_data message ids = KjOk message ContentType.Plain False (Some ids)"

record DriftInfo =
  di_kind :: DriftKind
  di_source_ctx :: ContextId
  di_target_ctx :: ContextId
  di_source_model :: "string option"

record ('d, 'o, 'f, 'json) kj_env =
  kj_kernel :: "('d, 'o, 'f, 'json) kernel_env"
  kj_clock :: "nat \<Rightarrow> u64"
  kj_fresh :: "nat \<Rightarrow> uuid"
  kj_trace :: "nat \<Rightarrow> bytes"
  kj_debug :: "string list \<Rightarrow> string"
  kj_llm :: "(string option \<times> string option) option \<Rightarrow> string \<Rightarrow> string + string"
  kj_rc :: "ContextId option \<Rightarrow> DriftInfo \<Rightarrow> 'd KjState \<Rightarrow> 'd KjState"
  kj_show :: "BlockStoreError \<Rightarrow> string"

definition read_tick :: "'d KjState \<Rightarrow> 'd KjState" where
  "read_tick s = s\<lparr>kj_reads := kj_reads s + 1\<rparr>"

text \<open>A statement on the registry, over the database the store journals to.\<close>

definition on_registry :: "'a cdop \<Rightarrow> 'd KjState \<Rightarrow> 'd KjState \<times> (KernelDbError + 'a)" where
  "on_registry op s =
     (let k = kj_store s;
          d = (case ks_db k of Some b \<Rightarrow> (kj_registry s)\<lparr>cd_base := b\<rparr> | None \<Rightarrow> kj_registry s);
          (d', r) = op d
      in (s\<lparr>kj_registry := d',
            kj_store := (case ks_db k of Some _ \<Rightarrow> k\<lparr>ks_db := Some (cd_base d')\<rparr> | None \<Rightarrow> k)\<rparr>, r))"

definition kj_fault :: "('d, 'o, 'f, 'json) kj_env \<Rightarrow> fault" where
  "kj_fault E = ke_fault (kj_kernel E)"

definition kj_uuid :: "('d, 'o, 'f, 'json) kj_env \<Rightarrow> uuid_lib" where
  "kj_uuid E = ke_uuid (kj_kernel E)"

definition DriftError_to_string :: "('d, 'o, 'f, 'json) kj_env \<Rightarrow> DriftError \<Rightarrow> string" where
  "DriftError_to_string E e =
     (case e of
        UnknownContext c \<Rightarrow> ''unknown context: '' @ c
      | AmbiguousContext prefix candidates \<Rightarrow>
          ''ambiguous context prefix '' @ [CHR 0x27] @ prefix @ [CHR 0x27] @ '': matches '' @ kj_debug E candidates
      | LabelInUse label existing \<Rightarrow>
          ''label '' @ [CHR 0x27] @ label @ [CHR 0x27] @ '' already in use by context '' @ existing
      | DocumentError m \<Rightarrow> ''document error: '' @ m
      | LlmError m \<Rightarrow> ''LLM error: '' @ m)"

section \<open>Context references\<close>

datatype ContextRef = Current | Parent nat | Query string

text \<open>\<open>matches(".parent").count()\<close>: the matches that do not overlap, from the left.\<close>

function parent_matches :: "string \<Rightarrow> nat" where
  "parent_matches s =
     (if s = [] then 0
      else if starts_with s ''.parent'' then 1 + parent_matches (drop 7 s)
      else parent_matches (tl s))"
  by pat_completeness auto
termination by (relation "measure length") auto

declare parent_matches.simps [simp del]

definition parse_context_ref :: "string \<Rightarrow> ContextRef" where
  "parse_context_ref s =
     (if s = ''.'' then Current
      else if starts_with s ''.parent''
      then (let depth = parent_matches s
            in if s = concat (replicate depth ''.parent'') then Parent depth else Query s)
      else Query s)"

definition lift_db :: "'a cdop \<Rightarrow> (KernelDbError \<Rightarrow> string) \<Rightarrow> 'd KjState \<Rightarrow> 'd KjState \<times> (string + 'a)" where
  "lift_db op f s = (case on_registry op s of (s, Inl e) \<Rightarrow> (s, Inl (f e)) | (s, Inr a) \<Rightarrow> (s, Inr a))"

fun walk_parents ::
  "('d, 'o, 'f, 'json) kj_env \<Rightarrow> nat \<Rightarrow> nat \<Rightarrow> ContextId \<Rightarrow> 'd KjState \<Rightarrow> 'd KjState \<times> (string + ContextId)" where
  "walk_parents E i 0 current s = (s, Inr current)"
| "walk_parents E i (Suc n) current s =
     (case lift_db (get_context (kj_fault E) current) (\<lambda>e. ''db error: '' @ KernelDbError_to_string e) s of
        (s, Inl m) \<Rightarrow> (s, Inl m)
      | (s, Inr None) \<Rightarrow>
          (s, Inl (''context '' @ short (kj_uuid E) current @ '' not found at parent depth '' @ show_nat i))
      | (s, Inr (Some row)) \<Rightarrow>
          (case cr_forked_from row of
             Some parent \<Rightarrow> walk_parents E (i + 1) n parent s
           | None \<Rightarrow>
               (s, Inl (''context '' @ [CHR 0x27]
                 @ (case cr_label row of Some l \<Rightarrow> l | None \<Rightarrow> short (kj_uuid E) current)
                 @ [CHR 0x27] @ '' has no parent (at depth '' @ show_nat (i + 1) @ '')''))))"

definition resolve_context_ref ::
  "('d, 'o, 'f, 'json) kj_env \<Rightarrow> ContextRef \<Rightarrow> ContextId option \<Rightarrow> 'd KjState \<Rightarrow> 'd KjState \<times> (string + ContextId)" where
  "resolve_context_ref E r caller s =
     (case r of
        Current \<Rightarrow> (case caller of Some c \<Rightarrow> (s, Inr c) | None \<Rightarrow> (s, Inl ''no active context joined''))
      | Parent depth \<Rightarrow>
          (case caller of Some c \<Rightarrow> walk_parents E 0 depth c s | None \<Rightarrow> (s, Inl ''no active context joined''))
      | Query q \<Rightarrow>
          lift_db (resolve_context (kj_uuid E) (kj_debug E) (kj_fault E) q) KernelDbError_to_string s)"

definition resolve_context_arg ::
  "('d, 'o, 'f, 'json) kj_env \<Rightarrow> string option \<Rightarrow> ContextId option \<Rightarrow> 'd KjState \<Rightarrow> 'd KjState \<times> (string + ContextId)" where
  "resolve_context_arg E arg caller =
     resolve_context_ref E (case arg of Some a \<Rightarrow> if a \<noteq> [] then parse_context_ref a else Current | None \<Rightarrow> Current) caller"

definition not_joined :: string where
  "not_joined = ''no active context joined. Use '' @ [CHR 0x27] @ ''kj context switch <label>'' @ [CHR 0x27] @ '' to join one.''"

section \<open>Content from one context to another\<close>

text \<open>The summary of a context: its blocks as a prompt, under the context's own provider and model.\<close>

definition summarize ::
  "('d, 'o, 'f, 'json) kj_env \<Rightarrow> ContextId \<Rightarrow> string option \<Rightarrow> 'd KjState \<Rightarrow> string + string" where
  "summarize E ctx directed_prompt s =
     (case ks_documents (kj_store s) ctx of
        None \<Rightarrow> Inl (kj_show E (DocumentNotFound ctx))
      | Some e \<Rightarrow>
          (let blocks = blocks_ordered (ke_dte (kj_kernel E)) (de_doc e)
           in if blocks = [] then Inl ''context has no blocks to summarize''
              else kj_llm E (map_option (\<lambda>h. (ch_provider h, ch_model h)) (router_get (kj_router s) ctx))
                     (build_distillation_prompt blocks directed_prompt)))"

definition insert_drift ::
  "('d, 'o, 'f, 'json) kj_env \<Rightarrow> ContextId \<Rightarrow> string \<Rightarrow> ContextId \<Rightarrow> string option \<Rightarrow> DriftKind
    \<Rightarrow> 'd KjState \<Rightarrow> ('d KjState \<times> (BlockStoreError + BlockId)) option" where
  "insert_drift E target content source model kind s =
     (let after = last_block_id (kj_kernel E) (kj_store s) target
      in case kernel_insert_drift_block (kj_kernel E) (kj_clock E (kj_reads s)) target None after content source model kind
                (kj_store s) of
           None \<Rightarrow> None
         | Some (k, r) \<Rightarrow> Some ((read_tick s)\<lparr>kj_store := k\<rparr>, r))"

definition record_edge ::
  "('d, 'o, 'f, 'json) kj_env \<Rightarrow> ContextId \<Rightarrow> ContextId \<Rightarrow> string \<Rightarrow> 'd KjState \<Rightarrow> 'd KjState" where
  "record_edge E source target meta s =
     fst (on_registry (insert_edge (kj_uuid E) (kj_fault E)
       \<lparr>er_edge_id = kj_fresh E (kj_reads s), er_source_id = source, er_target_id = target,
        er_kind = EdgeKind.Drift, er_metadata = Some meta, er_created_at = int (kj_clock E (kj_reads s))\<rparr>)
       (read_tick s))"

definition preview :: "string \<Rightarrow> string" where
  "preview summary =
     (if 200 < length summary then take (boundary_below summary 200) summary @ ''...'' else summary)"

definition handle_model :: "'d KjState \<Rightarrow> ContextId \<Rightarrow> string option" where
  "handle_model s i = Option.bind (router_get (kj_router s) i) ch_model"

section \<open>Commands\<close>

definition drift_push ::
  "('d, 'o, 'f, 'json) kj_env \<Rightarrow> ContextId option \<Rightarrow> string \<Rightarrow> bool \<Rightarrow> string list \<Rightarrow> 'd KjState \<Rightarrow> 'd KjState \<times> KjResult" where
  "drift_push E caller dst summarized content s =
     (case router_resolve (kj_uuid E) (kj_router s) dst of
        Inl e \<Rightarrow> (s, KjErr (''kj drift push: '' @ DriftError_to_string E e))
      | Inr target \<Rightarrow>
          (case caller of
             None \<Rightarrow> (s, KjErr not_joined)
           | Some ctx \<Rightarrow>
               (case (if summarized
                      then (case summarize E ctx None s of
                              Inl m \<Rightarrow> Inl (''kj drift push --summarize: '' @ m)
                            | Inr t \<Rightarrow> Inr (t, DriftKind.Distill))
                      else if content = [] then Inl ''kj drift push: requires content (or use --summarize)''
                      else Inr (join '' '' content, DriftKind.Push)) of
                  Inl m \<Rightarrow> (s, KjErr m)
                | Inr (text, kind) \<Rightarrow>
                    (case stage (kj_uuid E) (kj_clock E (kj_reads s)) ctx target text (handle_model s ctx) kind (kj_router s) of
                       (r, Inl e) \<Rightarrow> (s\<lparr>kj_router := r\<rparr>, KjErr (''kj drift push: '' @ DriftError_to_string E e))
                     | (r, Inr n) \<Rightarrow>
                         ((read_tick s)\<lparr>kj_router := r\<rparr>,
                          kj_ok (''staged drift #'' @ show_nat n @ '' '' @ [CHR 0xE2, CHR 0x86, CHR 0x92] @ '' '' @ dst))))))"

text \<open>What \<open>pull\<close> and \<open>merge\<close> share: insert, record the edge, run the scripts.\<close>

definition transfer ::
  "('d, 'o, 'f, 'json) kj_env \<Rightarrow> ContextId option \<Rightarrow> ContextId \<Rightarrow> ContextId \<Rightarrow> DriftKind \<Rightarrow> string \<Rightarrow> string
    \<Rightarrow> 'd KjState \<Rightarrow> ('d KjState \<times> (BlockStoreError + unit)) option" where
  "transfer E caller source target kind meta summary s =
     (let model = handle_model s source
      in case insert_drift E target summary source model kind s of
           None \<Rightarrow> None
         | Some (s, Inl e) \<Rightarrow> Some (s, Inl e)
         | Some (s, Inr _) \<Rightarrow>
             Some (kj_rc E caller
               \<lparr>di_kind = kind, di_source_ctx = source, di_target_ctx = target, di_source_model = model\<rparr>
               (record_edge E source target meta s), Inr ()))"

definition drift_pull ::
  "('d, 'o, 'f, 'json) kj_env \<Rightarrow> ContextId option \<Rightarrow> string \<Rightarrow> string list \<Rightarrow> 'd KjState \<Rightarrow> ('d KjState \<times> KjResult) option" where
  "drift_pull E caller src prompt s =
     (case resolve_context_arg E (Some src) caller s of
        (s, Inl m) \<Rightarrow> Some (s, KjErr (''kj drift pull: '' @ m))
      | (s, Inr source) \<Rightarrow>
          (case caller of
             None \<Rightarrow> Some (s, KjErr not_joined)
           | Some ctx \<Rightarrow>
               (if source = ctx then Some (s, KjErr ''kj drift pull: cannot pull from self'')
                else case summarize E source (if prompt = [] then None else Some (join '' '' prompt)) s of
                  Inl m \<Rightarrow> Some (s, KjErr (''kj drift pull: '' @ m))
                | Inr summary \<Rightarrow>
                    (case transfer E caller source ctx DriftKind.Pull ''pull'' summary s of
                       None \<Rightarrow> None
                     | Some (s, Inl e) \<Rightarrow>
                         Some (s, KjErr (''kj drift pull: failed to insert drift block: '' @ kj_show E e))
                     | Some (s, Inr _) \<Rightarrow>
                         Some (s, kj_ok (''pulled from '' @ src @ '':'' @ [CHR 0x0A] @ preview summary))))))"

definition merge_target ::
  "('d, 'o, 'f, 'json) kj_env \<Rightarrow> ContextId option \<Rightarrow> ContextId \<Rightarrow> string option \<Rightarrow> 'd KjState \<Rightarrow> 'd KjState \<times> (string + ContextId)" where
  "merge_target E caller ctx target_arg s =
     (case target_arg of
        Some q \<Rightarrow>
          (case resolve_context_arg E (Some q) caller s of
             (s, Inl m) \<Rightarrow> (s, Inl (''kj drift merge: '' @ m))
           | (s, Inr i) \<Rightarrow> (s, Inr i))
      | None \<Rightarrow>
          (case lift_db (get_context (kj_fault E) ctx) (\<lambda>e. ''kj drift merge: '' @ KernelDbError_to_string e) s of
             (s, Inl m) \<Rightarrow> (s, Inl m)
           | (s, Inr None) \<Rightarrow> (s, Inl ''kj drift merge: current context not found in db'')
           | (s, Inr (Some row)) \<Rightarrow>
               (case cr_forked_from row of
                  Some parent \<Rightarrow> (s, Inr parent)
                | None \<Rightarrow>
                    (s, Inl (''kj drift merge: not a fork (no parent context); use '' @ [CHR 0x27]
                      @ ''kj drift merge <ctx>'' @ [CHR 0x27] @ '' to specify a target'')))))"

definition drift_merge ::
  "('d, 'o, 'f, 'json) kj_env \<Rightarrow> ContextId option \<Rightarrow> string option \<Rightarrow> 'd KjState \<Rightarrow> ('d KjState \<times> KjResult) option" where
  "drift_merge E caller target_arg s =
     (case caller of
        None \<Rightarrow> Some (s, KjErr not_joined)
      | Some ctx \<Rightarrow>
          (case merge_target E caller ctx target_arg s of
             (s, Inl m) \<Rightarrow> Some (s, KjErr m)
           | (s, Inr target) \<Rightarrow>
               (if target = ctx then Some (s, KjErr ''kj drift merge: cannot merge into self'')
                else case summarize E ctx None s of
                  Inl m \<Rightarrow> Some (s, KjErr (''kj drift merge: '' @ m))
                | Inr summary \<Rightarrow>
                    (case transfer E caller ctx target DriftKind.Merge ''merge'' summary s of
                       None \<Rightarrow> None
                     | Some (s, Inl e) \<Rightarrow>
                         Some (s, KjErr (''kj drift merge: failed to insert drift block: '' @ kj_show E e))
                     | Some (s, Inr _) \<Rightarrow>
                         (case on_registry (get_context (kj_fault E) target) s of
                            (s, row) \<Rightarrow>
                              (let label = (case row of
                                              Inr (Some r) \<Rightarrow> (case cr_label r of Some l \<Rightarrow> l | None \<Rightarrow> short (kj_uuid E) target)
                                            | _ \<Rightarrow> short (kj_uuid E) target)
                               in Some (s, kj_ok (''merged into '' @ [CHR 0x27] @ label @ [CHR 0x27] @ '':'' @ [CHR 0x0A]
                                    @ preview summary))))))))"

section \<open>Flush\<close>

text \<open>One staged drift: its block goes behind the last block of the target.\<close>

definition deliver ::
  "('d, 'o, 'f, 'json) kj_env \<Rightarrow> ContextId option \<Rightarrow> StagedDrift \<Rightarrow> 'd KjState \<Rightarrow> ('d KjState \<times> bool) option" where
  "deliver E caller t s =
     (case insert_drift E (dt_target_ctx t) (dt_content t) (dt_source_ctx t) (dt_source_model t) (dt_drift_kind t) s of
        None \<Rightarrow> None
      | Some (s, Inl _) \<Rightarrow> Some (s, False)
      | Some (s, Inr _) \<Rightarrow>
          Some (kj_rc E caller
            \<lparr>di_kind = dt_drift_kind t, di_source_ctx = dt_source_ctx t, di_target_ctx = dt_target_ctx t,
             di_source_model = dt_source_model t\<rparr>
            (record_edge E (dt_source_ctx t) (dt_target_ctx t)
              (DriftKind_as_str (dt_drift_kind t) @ ''#'' @ show_nat (dt_id t)) s), True))"

fun deliver_all ::
  "('d, 'o, 'f, 'json) kj_env \<Rightarrow> ContextId option \<Rightarrow> StagedDrift list \<Rightarrow> 'd KjState
    \<Rightarrow> ('d KjState \<times> nat \<times> StagedDrift list) option" where
  "deliver_all E caller [] s = Some (s, 0, [])"
| "deliver_all E caller (t # ts) s =
     (case deliver E caller t s of
        None \<Rightarrow> None
      | Some (s, delivered) \<Rightarrow>
          (case deliver_all E caller ts s of
             None \<Rightarrow> None
           | Some (s, n, failed) \<Rightarrow> Some (if delivered then (s, n + 1, failed) else (s, n, t # failed))))"

definition lost_found_row :: "i64 \<Rightarrow> PrincipalId \<Rightarrow> ContextId \<Rightarrow> ContextRow" where
  "lost_found_row now system i =
     \<lparr>cr_context_id = i, cr_label = Some lost_found_label, cr_provider = None, cr_model = None, cr_system_prompt = None,
      cr_consent_mode = ConsentMode.Collaborative, cr_context_state = ContextState.Live, cr_context_type = ''default'',
      cr_created_at = now, cr_created_by = system, cr_forked_from = None, cr_fork_kind = None, cr_archived_at = None,
      cr_concluded_at = None, cr_workspace_id = None, cr_preset_id = None, cr_last_activity_at = None,
      cr_promoted_at = None, cr_demoted_at = None, cr_paused_at = None\<rparr>"

definition DriftKind_debug :: "DriftKind \<Rightarrow> string" where
  "DriftKind_debug k =
     (case k of
        DriftKind.Push \<Rightarrow> ''Push'' | DriftKind.Pull \<Rightarrow> ''Pull'' | DriftKind.Merge \<Rightarrow> ''Merge''
      | DriftKind.Distill \<Rightarrow> ''Distill'' | DriftKind.Notification \<Rightarrow> ''Notification'' | DriftKind.Fork \<Rightarrow> ''Fork'')"

definition arrow :: string where
  "arrow = '' '' @ [CHR 0xE2, CHR 0x86, CHR 0x92] @ '' ''"

definition dead_letter_content :: "uuid_lib \<Rightarrow> StagedDrift \<Rightarrow> string" where
  "dead_letter_content U t =
     ''[DEAD LETTER] '' @ short U (dt_source_ctx t) @ arrow @ short U (dt_target_ctx t)
       @ '' (retries: '' @ show_nat (dt_retry_count t) @ '', kind: '' @ DriftKind_debug (dt_drift_kind t) @ '')''
       @ [CHR 0x0A, CHR 0x0A] @ dt_content t"

text \<open>A dead letter that cannot be written is only logged.\<close>

fun bury_all :: "('d, 'o, 'f, 'json) kj_env \<Rightarrow> ContextId \<Rightarrow> StagedDrift list \<Rightarrow> 'd KjState \<Rightarrow> 'd KjState option" where
  "bury_all E lf [] s = Some s"
| "bury_all E lf (t # ts) s =
     (case insert_drift E lf (dead_letter_content (kj_uuid E) t) (dt_source_ctx t) (dt_source_model t) (dt_drift_kind t) s of
        None \<Rightarrow> None
      | Some (s, _) \<Rightarrow> bury_all E lf ts s)"

definition persist_lost_found :: "('d, 'o, 'f, 'json) kj_env \<Rightarrow> ContextId \<Rightarrow> 'd KjState \<Rightarrow> 'd KjState" where
  "persist_lost_found E lf s =
     (let system = ke_system (kj_kernel E); now = int (kj_clock E (kj_reads s)) in
      case on_registry (get_or_create_default_workspace (kj_fault E) now (kj_fresh E (kj_reads s)) system) (read_tick s) of
        (s, Inl _) \<Rightarrow> s
      | (s, Inr ws) \<Rightarrow>
          fst (on_registry (insert_context_with_document (kj_fault E)
            (lost_found_row (int (kj_clock E (kj_reads s))) system lf) ws) (read_tick s)))"

definition bury_dead ::
  "('d, 'o, 'f, 'json) kj_env \<Rightarrow> StagedDrift list \<Rightarrow> 'd KjState \<Rightarrow> 'd KjState option" where
  "bury_dead E dead s =
     (if dead = [] then Some s
      else
        (case ensure_lost_found (kj_uuid E) (kj_clock E (kj_reads s)) (kj_trace E (kj_reads s)) (ke_system (kj_kernel E))
                (kj_fresh E (kj_reads s)) (kj_router s) of
           (r, None) \<Rightarrow> None
         | (r, Some (lf, is_new)) \<Rightarrow>
             (let s = (read_tick s)\<lparr>kj_router := r\<rparr>;
                  s = (if is_new then persist_lost_found E lf s else s)
              in case create_document (kj_kernel E) (kj_clock E (kj_reads s)) lf DocKind.Conversation None (kj_store s) of
                   None \<Rightarrow> None
                 | Some (k, _) \<Rightarrow> bury_all E lf dead ((read_tick s)\<lparr>kj_store := k\<rparr>))))"

definition drift_flush ::
  "('d, 'o, 'f, 'json) kj_env \<Rightarrow> ContextId option \<Rightarrow> 'd KjState \<Rightarrow> ('d KjState \<times> KjResult) option" where
  "drift_flush E caller s =
     (case drain caller (kj_router s) of
        (r, staged) \<Rightarrow>
          (if staged = [] then Some (s\<lparr>kj_router := r\<rparr>, kj_ok ''nothing to flush'')
           else
             (case deliver_all E caller staged (s\<lparr>kj_router := r\<rparr>) of
                None \<Rightarrow> None
              | Some (s, injected, failed) \<Rightarrow>
                  (case drain_dead_letter (requeue failed (kj_router s)) of
                     (r, dead) \<Rightarrow>
                       (case bury_dead E dead (s\<lparr>kj_router := r\<rparr>) of
                          None \<Rightarrow> None
                        | Some s \<Rightarrow>
                            Some (s, kj_ok
                              (if failed \<noteq> []
                               then ''flushed '' @ show_nat injected @ ''/'' @ show_nat (length staged) @ '' drifts (''
                                 @ show_nat (length failed) @ '' requeued)''
                               else ''flushed '' @ show_nat injected @ '' drift(s)'')))))))"

section \<open>Queue, cancellation, edges\<close>

text \<open>\<open>{:<3}\<close> fills up to three characters.\<close>

definition pad3 :: "string \<Rightarrow> string" where
  "pad3 s = s @ replicate (3 - length s) (CHR 0x20)"

text \<open>The preview slices at byte 57; a slice inside a character panics.\<close>

definition queue_line :: "uuid_lib \<Rightarrow> StagedDrift \<Rightarrow> string option" where
  "queue_line U t =
     map_option (\<lambda>shown. ''#'' @ pad3 (show_nat (dt_id t)) @ '' '' @ short U (dt_source_ctx t) @ arrow
         @ short U (dt_target_ctx t) @ ''  '' @ DriftKind_debug (dt_drift_kind t) @ ''  '' @ shown)
       (if 60 < length (dt_content t)
        then if is_char_boundary (dt_content t) 57 then Some (take 57 (dt_content t) @ ''...'') else None
        else Some (dt_content t))"

definition format_drift_queue :: "uuid_lib \<Rightarrow> StagedDrift list \<Rightarrow> string option" where
  "format_drift_queue U items =
     (if items = [] then Some ''(queue empty)''
      else if \<exists>t \<in> set items. queue_line U t = None then None
      else Some (join [CHR 0x0A] (List.map_filter (queue_line U) items)))"

definition drift_queue :: "('d, 'o, 'f, 'json) kj_env \<Rightarrow> 'd KjState \<Rightarrow> KjResult option" where
  "drift_queue E s =
     map_option (\<lambda>text. ok_with_data text (map (\<lambda>t. show_nat (dt_id t)) (rt_staging (kj_router s))))
       (format_drift_queue (kj_uuid E) (rt_staging (kj_router s)))"

text \<open>
  A time before the epoch becomes, as an unsigned number of seconds, one that the addition to the
  epoch cannot represent: a panic.  A time in the future counts as now.
\<close>

definition format_timestamp :: "u64 \<Rightarrow> i64 \<Rightarrow> string option" where
  "format_timestamp now millis =
     (if millis \<le> -1000 then None
      else
        (let elapsed = now div 1000 - nat (millis div 1000) in
         Some (if elapsed < 60 then ''just now''
               else if elapsed < 3600 then show_nat (elapsed div 60) @ ''m ago''
               else if elapsed < 86400 then show_nat (elapsed div 3600) @ ''h ago''
               else show_nat (elapsed div 86400) @ ''d ago'')))"

text \<open>One line per edge: the other end by its label, and the age.\<close>

fun history_lines ::
  "('d, 'o, 'f, 'json) kj_env \<Rightarrow> string \<Rightarrow> (ContextEdgeRow \<Rightarrow> ContextId) \<Rightarrow> ContextEdgeRow list \<Rightarrow> 'd KjState
    \<Rightarrow> ('d KjState \<times> string list) option" where
  "history_lines E sign other [] s = Some (s, [])"
| "history_lines E sign other (e # es) s =
     (case on_registry (get_context (kj_fault E) (other e)) s of
        (s, row) \<Rightarrow>
          (let label = (case row of
                          Inr (Some r) \<Rightarrow> (case cr_label r of Some l \<Rightarrow> l | None \<Rightarrow> short (kj_uuid E) (other e))
                        | _ \<Rightarrow> short (kj_uuid E) (other e))
           in case format_timestamp (kj_clock E (kj_reads s)) (er_created_at e) of
                None \<Rightarrow> None
              | Some age \<Rightarrow>
                  map_option (\<lambda>(s, ls). (s, (''  '' @ sign @ '' '' @ label @ ''  '' @ age) # ls))
                    (history_lines E sign other es (read_tick s))))"

definition format_drift_history ::
  "('d, 'o, 'f, 'json) kj_env \<Rightarrow> ContextEdgeRow list \<Rightarrow> ContextEdgeRow list \<Rightarrow> 'd KjState \<Rightarrow> ('d KjState \<times> string) option" where
  "format_drift_history E outgoing incoming s =
     (case history_lines E [CHR 0xE2, CHR 0x86, CHR 0x92] er_target_id outgoing s of
        None \<Rightarrow> None
      | Some (s, sent) \<Rightarrow>
          (case history_lines E [CHR 0xE2, CHR 0x86, CHR 0x90] er_source_id incoming s of
             None \<Rightarrow> None
           | Some (s, received) \<Rightarrow>
               (let lines = (if outgoing = [] then [] else ''Sent:'' # sent);
                    lines = lines @ (if incoming = [] then [] else (if lines = [] then [] else [[]]) @ ''Received:'' # received)
                in Some (s, if lines = [] then ''(no drift history)'' else join [CHR 0x0A] lines))))"

text \<open>The display form of an identifier is a parameter.\<close>

definition drift_history ::
  "('d, 'o, 'f, 'json) kj_env \<Rightarrow> (uuid \<Rightarrow> string) \<Rightarrow> ContextId option \<Rightarrow> string option \<Rightarrow> 'd KjState
    \<Rightarrow> ('d KjState \<times> KjResult) option" where
  "drift_history E show_id caller target_arg s =
     (case resolve_context_arg E target_arg caller s of
        (s, Inl m) \<Rightarrow> Some (s, KjErr (''kj drift history: '' @ m))
      | (s, Inr target) \<Rightarrow>
          (case on_registry (drift_provenance (kj_fault E) target) s of
             (s, out) \<Rightarrow>
               (case on_registry (edges_to (kj_fault E) target (Some EdgeKind.Drift)) s of
                  (s, inc) \<Rightarrow>
                    (let outgoing = (case out of Inr es \<Rightarrow> es | Inl _ \<Rightarrow> []);
                         incoming = (case inc of Inr es \<Rightarrow> es | Inl _ \<Rightarrow> [])
                     in map_option (\<lambda>(s, text). (s, ok_with_data text (map (\<lambda>e. show_id (er_edge_id e)) (outgoing @ incoming))))
                          (format_drift_history E outgoing incoming s)))))"

definition drift_cancel :: "string \<Rightarrow> 'd KjState \<Rightarrow> 'd KjState \<times> KjResult" where
  "drift_cancel arg s =
     (case parse_u64 arg of
        None \<Rightarrow> (s, KjErr (''kj drift cancel: '' @ [CHR 0x27] @ arg @ [CHR 0x27] @ '' is not a valid drift ID''))
      | Some n \<Rightarrow>
          (case cancel n (kj_router s) of
             (r, hit) \<Rightarrow>
               (s\<lparr>kj_router := r\<rparr>,
                if hit then kj_ok (''cancelled drift #'' @ show_nat n)
                else KjErr (''kj drift cancel: drift #'' @ show_nat n @ '' not found in queue''))))"

definition drift_edge_rm ::
  "('d, 'o, 'f, 'json) kj_env \<Rightarrow> (uuid \<Rightarrow> string) \<Rightarrow> string \<Rightarrow> 'd KjState \<Rightarrow> 'd KjState \<times> KjResult" where
  "drift_edge_rm E show_id arg s =
     (case parse_str (kj_uuid E) arg of
        None \<Rightarrow> (s, KjErr (''kj drift edge rm: '' @ [CHR 0x27] @ arg @ [CHR 0x27] @ '' is not a valid UUID''))
      | Some e \<Rightarrow>
          (case on_registry (delete_drift_edge (kj_fault E) e) s of
             (s, Inr True) \<Rightarrow> (s, kj_ok (''removed drift edge '' @ show_id e))
           | (s, Inr False) \<Rightarrow>
               (s, KjErr (''kj drift edge rm: no drift edge '' @ show_id e @ '' (already removed, or wrong kind ''
                 @ [CHR 0xE2, CHR 0x80, CHR 0x94] @ '' only drift edges are eligible)''))
           | (s, Inl err) \<Rightarrow> (s, KjErr (''kj drift edge rm: '' @ KernelDbError_to_string err))))"

text \<open>
  The dispatcher of parsed commands.  Only the first group asks for the drift capability, which the
  argument decides; the display form of an identifier is as above.
\<close>

datatype DriftCommand =
    Push string bool "string list"
  | Pull string "string list"
  | Merge "string option"
  | Flush
  | Queue
  | Cancel string
  | History "string option"
  | EdgeRm string

definition needs_drift_cap :: "DriftCommand \<Rightarrow> bool" where
  "needs_drift_cap c =
     (case c of Push _ _ _ \<Rightarrow> True | Pull _ _ \<Rightarrow> True | Merge _ \<Rightarrow> True | Flush \<Rightarrow> True | Cancel _ \<Rightarrow> True | _ \<Rightarrow> False)"

definition dispatch_drift ::
  "('d, 'o, 'f, 'json) kj_env \<Rightarrow> (uuid \<Rightarrow> string) \<Rightarrow> (ContextId option \<Rightarrow> string option) \<Rightarrow> ContextId option
    \<Rightarrow> DriftCommand \<Rightarrow> 'd KjState \<Rightarrow> ('d KjState \<times> KjResult) option" where
  "dispatch_drift E show_id denied caller c s =
     (case (if needs_drift_cap c then denied caller else None) of
        Some m \<Rightarrow> Some (s, KjErr m)
      | None \<Rightarrow>
          (case c of
             Push dst summarized content \<Rightarrow> Some (drift_push E caller dst summarized content s)
           | Pull src prompt \<Rightarrow> drift_pull E caller src prompt s
           | Merge target \<Rightarrow> drift_merge E caller target s
           | Flush \<Rightarrow> drift_flush E caller s
           | Queue \<Rightarrow> map_option (\<lambda>r. (s, r)) (drift_queue E s)
           | History target \<Rightarrow> drift_history E show_id caller target s
           | Cancel arg \<Rightarrow> Some (drift_cancel arg s)
           | EdgeRm arg \<Rightarrow> Some (drift_edge_rm E show_id arg s)))"

end
