(* ===== verification/Drift_Props.thy ===== *)
theory Drift_Props
  imports Drift "HOL-Library.Multiset"
begin

text \<open>
  What the drift router promises whatever calls interleave: labels name one context, a staged drift
  is in exactly one place from the moment it has an identifier, and failed deliveries end.
\<close>

section \<open>Labels\<close>

definition router_ok :: "DriftRouter \<Rightarrow> bool" where
  "router_ok r \<longleftrightarrow>
     bt_ok (rt_contexts r) \<and>
     (\<forall>i h. bt_get (rt_contexts r) i = Some h \<longrightarrow>
        ch_id h = i \<and> (\<forall>l. ch_label h = Some l \<longrightarrow> bt_get (rt_label_to_id r) l = Some i))"

lemma router_okI:
  assumes "bt_ok (rt_contexts r)"
    and "\<And>i h. bt_get (rt_contexts r) i = Some h \<Longrightarrow> ch_id h = i"
    and "\<And>i h l. bt_get (rt_contexts r) i = Some h \<Longrightarrow> ch_label h = Some l \<Longrightarrow> bt_get (rt_label_to_id r) l = Some i"
  shows "router_ok r"
  using assms by (auto simp: router_ok_def)

lemma router_okD:
  assumes "router_ok r" and "bt_get (rt_contexts r) i = Some h"
  shows "ch_id h = i" and "ch_label h = Some l \<Longrightarrow> bt_get (rt_label_to_id r) l = Some i"
  using assms by (auto simp: router_ok_def)

lemma router_ok_maps: "router_ok r \<Longrightarrow> bt_ok (rt_contexts r)"
  by (simp add: router_ok_def)

lemma router_ok_queues:
  "router_ok (r\<lparr>rt_staging := s\<rparr>) = router_ok r" "router_ok (r\<lparr>rt_dead_letter := s\<rparr>) = router_ok r"
  "router_ok (r\<lparr>rt_next_staged_id := n\<rparr>) = router_ok r" "router_ok (r\<lparr>rt_lost_found_id := x\<rparr>) = router_ok r"
  by (simp_all add: router_ok_def)

lemma router_ok_new: "router_ok router_new"
  by (simp add: router_ok_def router_new_def bt_ok_def bt_get_def)

lemma available_index:
  assumes "check_label_available U l i r = None" and "bt_get (rt_label_to_id r) l = Some j"
  shows "j = i"
  using assms by (auto simp: check_label_available_def split: if_splits)

lemma router_ok_put:
  assumes ok: "router_ok r" and "put_handle U now trace i label p m f c r = (r', x)"
  shows "router_ok r'"
proof (cases "case label of Some l \<Rightarrow> check_label_available U l i r | None \<Rightarrow> None")
  case (Some e)
  with assms show ?thesis by (simp add: put_handle_def)
next
  case None
  then have free: "\<And>l j. label = Some l \<Longrightarrow> bt_get (rt_label_to_id r) l = Some j \<Longrightarrow> j = i"
    by (auto dest: available_index)
  from None assms(2) have r': "rt_contexts r' = bt_insert i
      \<lparr>ch_id = i, ch_label = label, ch_pwd = None, ch_provider = p, ch_model = m, ch_forked_from = f,
       ch_created_by = c, ch_created_at = now, ch_trace_id = trace, ch_state = ContextState.Live\<rparr> (rt_contexts r)"
    "rt_label_to_id r' = (case label of Some l \<Rightarrow> bt_insert l i (rt_label_to_id r) | None \<Rightarrow> rt_label_to_id r)"
    by (auto simp: put_handle_def)
  show ?thesis
  proof (rule router_okI)
    show "bt_ok (rt_contexts r')" by (simp add: r' bt_ok_insert router_ok_maps [OF ok])
  next
    fix j h assume "bt_get (rt_contexts r') j = Some h"
    then show "ch_id h = j" using router_okD(1) [OF ok] by (auto simp: r' bt_get_insert split: if_splits)
  next
    fix j h l assume "bt_get (rt_contexts r') j = Some h" "ch_label h = Some l"
    then show "bt_get (rt_label_to_id r') l = Some j"
      using router_okD(2) [OF ok] free by (fastforce simp: r' bt_get_insert split: if_splits option.splits)
  qed
qed

lemma router_ok_unregister:
  assumes ok: "router_ok r"
  shows "router_ok (unregister i r)"
proof (rule router_okI)
  show "bt_ok (rt_contexts (unregister i r))"
    by (simp add: unregister_def Let_def bt_ok_remove router_ok_maps [OF ok])
next
  fix j h assume "bt_get (rt_contexts (unregister i r)) j = Some h"
  then show "ch_id h = j"
    using router_okD(1) [OF ok] by (auto simp: unregister_def Let_def bt_get_remove split: if_splits)
next
  fix j h l assume h: "bt_get (rt_contexts (unregister i r)) j = Some h" "ch_label h = Some l"
  then have j: "j \<noteq> i" "bt_get (rt_contexts r) j = Some h"
    by (auto simp: unregister_def Let_def bt_get_remove split: if_splits)
  then have l: "bt_get (rt_label_to_id r) l = Some j" using router_okD(2) [OF ok] h(2) by blast
  then show "bt_get (rt_label_to_id (unregister i r)) l = Some j"
    using router_okD(2) [OF ok, of i] j(1)
    by (fastforce simp: unregister_def Let_def bt_get_remove split: option.splits)
qed

lemma router_ok_rename:
  assumes ok: "router_ok r" and "rename U i label r = (r', x)"
  shows "router_ok r'"
proof (cases "(case label of Some l \<Rightarrow> check_label_available U l i r | None \<Rightarrow> None) = None
    \<and> bt_get (rt_contexts r) i \<noteq> None")
  case False
  with assms show ?thesis by (auto simp: rename_def split: option.splits)
next
  case True
  then obtain h where h: "bt_get (rt_contexts r) i = Some h" by auto
  have free: "\<And>l j. label = Some l \<Longrightarrow> bt_get (rt_label_to_id r) l = Some j \<Longrightarrow> j = i"
    using True by (auto dest: available_index)
  define index where
    "index = (case ch_label h of Some old \<Rightarrow> bt_remove old (rt_label_to_id r) | None \<Rightarrow> rt_label_to_id r)"
  have r': "rt_contexts r' = bt_modify i (ch_label_update (\<lambda>_. label)) (rt_contexts r)"
    "rt_label_to_id r' = (case label of Some l \<Rightarrow> bt_insert l i index | None \<Rightarrow> index)"
    unfolding index_def using assms(2) True h by (auto simp: rename_def Let_def)
  have index: "bt_get index l = Some j" if "bt_get (rt_label_to_id r) l = Some j" "j \<noteq> i" for l j
    using that router_okD(2) [OF ok h] by (auto simp: index_def bt_get_remove split: option.splits)
  show ?thesis
  proof (rule router_okI)
    show "bt_ok (rt_contexts r')" by (simp add: r' bt_ok_modify router_ok_maps [OF ok])
  next
    fix j g assume "bt_get (rt_contexts r') j = Some g"
    then show "ch_id g = j" using router_okD(1) [OF ok] by (auto simp: r' bt_get_modify split: if_splits)
  next
    fix j g l assume g: "bt_get (rt_contexts r') j = Some g" "ch_label g = Some l"
    show "bt_get (rt_label_to_id r') l = Some j"
    proof (cases "j = i")
      case True
      then show ?thesis using g h by (auto simp: r' bt_get_modify bt_get_insert)
    next
      case False
      then have "bt_get (rt_label_to_id r) l = Some j"
        using g router_okD(2) [OF ok] by (auto simp: r' bt_get_modify)
      then show ?thesis using index False free by (auto simp: r' bt_get_insert split: option.splits)
    qed
  qed
qed

lemma router_ok_with_handle:
  assumes ok: "router_ok r" and "with_handle U i f r = (r', x)"
    and keep: "\<And>h. ch_id (f h) = ch_id h" "\<And>h. ch_label (f h) = ch_label h"
  shows "router_ok r'"
proof (cases "bt_get (rt_contexts r) i")
  case None
  with assms(1,2) show ?thesis by (simp add: with_handle_def)
next
  case (Some h)
  with assms(2) have r': "r' = r\<lparr>rt_contexts := bt_modify i f (rt_contexts r)\<rparr>" by (simp add: with_handle_def)
  show ?thesis
    using router_okD [OF ok] router_ok_maps [OF ok]
    by (intro router_okI) (auto simp: r' bt_ok_modify bt_get_modify keep split: if_splits)
qed

lemma requeue_parts:
  "rt_contexts (requeue items r) = rt_contexts r \<and> rt_label_to_id (requeue items r) = rt_label_to_id r
   \<and> rt_next_staged_id (requeue items r) = rt_next_staged_id r \<and> rt_lost_found_id (requeue items r) = rt_lost_found_id r"
  by (induction items r rule: requeue.induct) (auto simp: Let_def)

lemma router_ok_requeue: "router_ok (requeue items r) = router_ok r"
  by (simp add: router_ok_def requeue_parts)

lemma router_ok_ensure:
  assumes "router_ok r" and "ensure_lost_found U now trace system fresh r = (r', x)"
  shows "router_ok r'"
  using assms router_ok_put [of "r\<lparr>rt_lost_found_id := Some fresh\<rparr>"]
  by (auto simp: ensure_lost_found_def register_def router_ok_queues split: option.splits prod.splits sum.splits)

section \<open>The calls of a running kernel\<close>

text \<open>
  The world of a drift router: the router, the drifts a flush has taken from it and not yet settled,
  the dead letters a flush is writing out, and the identifiers of what has left for good.
\<close>

record drift_world =
  dw_router :: DriftRouter
  dw_flight :: "StagedDrift multiset"
  dw_burial :: "StagedDrift multiset"
  dw_gone :: "u64 multiset"

text \<open>Router calls come one at a time, under its lock, in any order and from any number of flushes.\<close>

inductive drift_step :: "uuid_lib \<Rightarrow> drift_world \<Rightarrow> drift_world \<Rightarrow> bool" for U where
  register: "register U now trace i label parent p (dw_router w) = (r, x) \<Longrightarrow> drift_step U w (w\<lparr>dw_router := r\<rparr>)"
| register_fork: "register_fork U now trace i label par p (dw_router w) = (r, x) \<Longrightarrow> drift_step U w (w\<lparr>dw_router := r\<rparr>)"
| unregister: "drift_step U w (w\<lparr>dw_router := unregister i (dw_router w)\<rparr>)"
| rename: "rename U i label (dw_router w) = (r, x) \<Longrightarrow> drift_step U w (w\<lparr>dw_router := r\<rparr>)"
| configure: "configure_llm U i pr m (dw_router w) = (r, x) \<Longrightarrow> drift_step U w (w\<lparr>dw_router := r\<rparr>)"
| pwd: "set_pwd U i pwd (dw_router w) = (r, x) \<Longrightarrow> drift_step U w (w\<lparr>dw_router := r\<rparr>)"
| state: "set_state U i st (dw_router w) = (r, x) \<Longrightarrow> drift_step U w (w\<lparr>dw_router := r\<rparr>)"
| adopt: "drift_step U w (w\<lparr>dw_router := adopt_lost_found i (dw_router w)\<rparr>)"
| lost_found: "ensure_lost_found U now trace sys fresh (dw_router w) = (r, y) \<Longrightarrow> drift_step U w (w\<lparr>dw_router := r\<rparr>)"
| stage: "stage U now src dst content model kind (dw_router w) = (r, n) \<Longrightarrow> drift_step U w (w\<lparr>dw_router := r\<rparr>)"
| cancel: "cancel n (dw_router w) = (r, b) \<Longrightarrow>
    drift_step U w (w\<lparr>dw_router := r, dw_gone := dw_gone w + (if b then {#n#} else {#})\<rparr>)"
| drain: "drain ctx (dw_router w) = (r, items) \<Longrightarrow>
    drift_step U w (w\<lparr>dw_router := r, dw_flight := dw_flight w + mset items\<rparr>)"
| deliver: "s \<in># dw_flight w \<Longrightarrow>
    drift_step U w (w\<lparr>dw_flight := dw_flight w - {#s#}, dw_gone := add_mset (dt_id s) (dw_gone w)\<rparr>)"
| requeue: "mset items \<subseteq># dw_flight w \<Longrightarrow>
    drift_step U w (w\<lparr>dw_router := requeue items (dw_router w), dw_flight := dw_flight w - mset items\<rparr>)"
| drain_dead: "drain_dead_letter (dw_router w) = (r, items) \<Longrightarrow>
    drift_step U w (w\<lparr>dw_router := r, dw_burial := dw_burial w + mset items\<rparr>)"
| bury: "s \<in># dw_burial w \<Longrightarrow>
    drift_step U w (w\<lparr>dw_burial := dw_burial w - {#s#}, dw_gone := add_mset (dt_id s) (dw_gone w)\<rparr>)"
| replay: "replay_dead_letter n (dw_router w) = (r, y) \<Longrightarrow> drift_step U w (w\<lparr>dw_router := r\<rparr>)"

definition drift_start :: drift_world where
  "drift_start = \<lparr>dw_router = router_new, dw_flight = {#}, dw_burial = {#}, dw_gone = {#}\<rparr>"

definition held :: "drift_world \<Rightarrow> StagedDrift multiset" where
  "held w = mset (rt_staging (dw_router w)) + mset (rt_dead_letter (dw_router w)) + dw_flight w + dw_burial w"

text \<open>Where the identifiers are: in a queue, in the hands of a flush, or gone.\<close>

definition places :: "drift_world \<Rightarrow> u64 multiset" where
  "places w = image_mset dt_id (held w) + dw_gone w"

definition handed_out :: "u64 \<Rightarrow> u64 multiset" where
  "handed_out n = mset [1..<n]"

definition retries_ok :: "drift_world \<Rightarrow> bool" where
  "retries_ok w \<longleftrightarrow>
     (\<forall>s \<in># mset (rt_staging (dw_router w)) + dw_flight w. dt_retry_count s \<le> MAX_DRIFT_RETRIES) \<and>
     (\<forall>s \<in># mset (rt_dead_letter (dw_router w)) + dw_burial w. dt_retry_count s \<le> Suc MAX_DRIFT_RETRIES)"

definition drift_ok :: "drift_world \<Rightarrow> bool" where
  "drift_ok w \<longleftrightarrow>
     router_ok (dw_router w) \<and> 1 \<le> rt_next_staged_id (dw_router w) \<and>
     places w = handed_out (rt_next_staged_id (dw_router w)) \<and> retries_ok w"


section \<open>The invariant of the calls\<close>

text \<open>Calls on the registry leave the queues alone.\<close>

definition quiet :: "DriftRouter \<Rightarrow> DriftRouter \<Rightarrow> bool" where
  "quiet r r' \<longleftrightarrow> rt_staging r' = rt_staging r \<and> rt_dead_letter r' = rt_dead_letter r
     \<and> rt_next_staged_id r' = rt_next_staged_id r"

lemma quiet_put: "put_handle U now trace i label p m f c r = (r', x) \<Longrightarrow> quiet r r'"
  by (auto simp: put_handle_def quiet_def split: option.splits)

lemma quiet_with_handle: "with_handle U i f r = (r', x) \<Longrightarrow> quiet r r'"
  by (auto simp: with_handle_def quiet_def split: option.splits)

lemma quiet_rename: "rename U i label r = (r', x) \<Longrightarrow> quiet r r'"
  by (auto simp: rename_def quiet_def Let_def split: option.splits)

lemma quiet_ensure: "ensure_lost_found U now trace system fresh r = (r', x) \<Longrightarrow> quiet r r'"
  using quiet_put [of U now trace fresh "Some lost_found_label" None None None system "r\<lparr>rt_lost_found_id := Some fresh\<rparr>"]
  by (auto simp: ensure_lost_found_def register_def quiet_def split: option.splits prod.splits sum.splits)

lemma quiet_fork: "register_fork U now trace i label par c r = (r', x) \<Longrightarrow> quiet r r'"
  by (auto simp: register_fork_def quiet_def dest: quiet_put [unfolded quiet_def] split: option.splits)

lemma router_ok_fork: "router_ok r \<Longrightarrow> register_fork U now trace i label par c r = (r', x) \<Longrightarrow> router_ok r'"
  by (auto simp: register_fork_def dest: router_ok_put split: option.splits)

lemma drift_ok_quiet:
  assumes "drift_ok w" and "quiet (dw_router w) r" and "router_ok r"
  shows "drift_ok (w\<lparr>dw_router := r\<rparr>)"
  using assms by (simp add: drift_ok_def quiet_def places_def held_def retries_ok_def)

text \<open>Every identifier is in one place.\<close>

lemma handed_out_Suc: "1 \<le> n \<Longrightarrow> handed_out (Suc n) = add_mset n (handed_out n)"
  by (simp add: handed_out_def del: mset_upt)

lemma places_count:
  "drift_ok w \<Longrightarrow> count (places w) n = (if 1 \<le> n \<and> n < rt_next_staged_id (dw_router w) then 1 else 0)"
  by (simp add: drift_ok_def handed_out_def distinct_count_atmost_1 [THEN iffD1, OF distinct_upt] del: mset_upt)

lemma drift_ok_moved:
  assumes "drift_ok w" and "router_ok (dw_router v)" and "retries_ok v"
    and "rt_next_staged_id (dw_router v) = rt_next_staged_id (dw_router w)" and "places v = places w"
  shows "drift_ok v"
  using assms by (simp add: drift_ok_def)

lemma staged_distinct:
  assumes "drift_ok w"
  shows "distinct (map dt_id (rt_staging (dw_router w)))"
proof -
  have "count (mset (map dt_id (rt_staging (dw_router w)))) n \<le> count (places w) n" for n
    by (simp add: places_def held_def)
  then have "count (mset (map dt_id (rt_staging (dw_router w)))) n \<le> 1" for n
    using places_count [OF assms, of n] by (metis le_trans zero_le_one order_refl)
  then show ?thesis
    by (subst distinct_count_atmost_1) (metis count_mset_0_iff le_neq_implies_less less_one)
qed

lemma filter_id_single:
  assumes "distinct (map dt_id ss)" and "s \<in> set ss" and "dt_id s = n"
  shows "image_mset dt_id (mset (filter (\<lambda>s. dt_id s = n) ss)) = {#n#}"
  using assms by (induction ss) (auto simp: filter_empty_conv, metis image_eqI)

lemma mset_requeue:
  "image_mset dt_id (mset (rt_staging (requeue items r)) + mset (rt_dead_letter (requeue items r)))
   = image_mset dt_id (mset (rt_staging r) + mset (rt_dead_letter r) + mset items)"
  by (induction items r rule: requeue.induct) (auto simp: Let_def)

lemma requeue_retries:
  "\<forall>s \<in> set (rt_staging r). dt_retry_count s \<le> MAX_DRIFT_RETRIES \<Longrightarrow>
   \<forall>s \<in> set (rt_staging (requeue items r)). dt_retry_count s \<le> MAX_DRIFT_RETRIES"
  by (induction items r rule: requeue.induct) (simp_all add: Let_def)

lemma requeue_dead_retries:
  "\<forall>s \<in> set items. dt_retry_count s \<le> MAX_DRIFT_RETRIES \<Longrightarrow>
   \<forall>s \<in> set (rt_dead_letter r). dt_retry_count s \<le> Suc MAX_DRIFT_RETRIES \<Longrightarrow>
   \<forall>s \<in> set (rt_dead_letter (requeue items r)). dt_retry_count s \<le> Suc MAX_DRIFT_RETRIES"
  by (induction items r rule: requeue.induct) (simp_all add: Let_def)

text \<open>The queue operations, one lemma each.\<close>

lemma split_filter: "mset (filter P xs) + mset (filter (\<lambda>x. \<not> P x) xs) = mset xs"
  by (induction xs) auto

lemma drift_ok_unregister:
  assumes "drift_ok w"
  shows "drift_ok (w\<lparr>dw_router := unregister i (dw_router w)\<rparr>)"
proof (rule drift_ok_moved [OF assms])
  let ?r = "dw_router w" and ?P = "involves i"
  have "mset (rt_staging (unregister i ?r)) + mset (rt_dead_letter (unregister i ?r))
      = mset (rt_staging ?r) + mset (rt_dead_letter ?r)"
    using split_filter [of ?P "rt_staging ?r"] by (simp add: unregister_def Let_def ac_simps)
  then show "places (w\<lparr>dw_router := unregister i (dw_router w)\<rparr>) = places w" by (simp add: places_def held_def)
  show "retries_ok (w\<lparr>dw_router := unregister i ?r\<rparr>)"
    using assms by (force simp: drift_ok_def retries_ok_def unregister_def Let_def)
qed (use assms router_ok_unregister in \<open>simp_all add: drift_ok_def unregister_def Let_def\<close>)

lemma drift_ok_stage:
  assumes "drift_ok w" and "stage U now src dst content model kind (dw_router w) = (r, x)"
  shows "drift_ok (w\<lparr>dw_router := r\<rparr>)"
  using assms
  by (auto simp: drift_ok_def stage_def Let_def router_ok_queues places_def held_def retries_ok_def handed_out_Suc split: if_splits)

lemma cancelled_ids:
  assumes "distinct (map dt_id ss)"
  shows "image_mset dt_id (mset (filter (\<lambda>s. dt_id s = n) ss)) = (if n \<in> dt_id ` set ss then {#n#} else {#})"
  using assms filter_id_single by (auto simp: filter_empty_conv)

lemma cancel_hits: "length (filter (\<lambda>s. dt_id s \<noteq> n) ss) < length ss \<longleftrightarrow> n \<in> dt_id ` set ss"
proof
  assume "n \<in> dt_id ` set ss"
  then show "length (filter (\<lambda>s. dt_id s \<noteq> n) ss) < length ss" by (auto intro: length_filter_less)
next
  assume *: "length (filter (\<lambda>s. dt_id s \<noteq> n) ss) < length ss"
  show "n \<in> dt_id ` set ss"
  proof (rule ccontr)
    assume "n \<notin> dt_id ` set ss"
    then have "filter (\<lambda>s. dt_id s \<noteq> n) ss = ss" by (auto simp: filter_id_conv)
    with * show False by simp
  qed
qed

lemma drift_ok_cancel:
  assumes ok: "drift_ok w" and "cancel n (dw_router w) = (r, b)"
  shows "drift_ok (w\<lparr>dw_router := r, dw_gone := dw_gone w + (if b then {#n#} else {#})\<rparr>)"
proof (rule drift_ok_moved [OF ok])
  let ?ss = "rt_staging (dw_router w)"
  from assms(2) have r: "r = (dw_router w)\<lparr>rt_staging := filter (\<lambda>s. dt_id s \<noteq> n) ?ss\<rparr>"
    and b: "b \<longleftrightarrow> n \<in> dt_id ` set ?ss"
    by (auto simp: cancel_def Let_def cancel_hits)
  have "image_mset dt_id (mset ?ss)
      = (if b then {#n#} else {#}) + image_mset dt_id (mset (filter (\<lambda>s. dt_id s \<noteq> n) ?ss))"
    using arg_cong [OF split_filter [of "\<lambda>s. dt_id s = n" ?ss], of "image_mset dt_id"]
    unfolding b image_mset_union cancelled_ids [OF staged_distinct [OF ok]] by (rule sym)
  then show "places (w\<lparr>dw_router := r, dw_gone := dw_gone w + (if b then {#n#} else {#})\<rparr>) = places w"
    by (simp add: places_def held_def r)
  show "router_ok (dw_router (w\<lparr>dw_router := r, dw_gone := dw_gone w + (if b then {#n#} else {#})\<rparr>))"
    using ok by (simp add: r router_ok_queues drift_ok_def)
  show "retries_ok (w\<lparr>dw_router := r, dw_gone := dw_gone w + (if b then {#n#} else {#})\<rparr>)"
    using ok by (auto simp: drift_ok_def retries_ok_def r)
qed (use assms(2) in \<open>auto simp: cancel_def Let_def\<close>)

lemma drain_splits:
  assumes "drain ctx r = (r', items)"
  shows "r' = r\<lparr>rt_staging := rt_staging r'\<rparr>" and "mset (rt_staging r') + mset items = mset (rt_staging r)"
    and "set (rt_staging r') \<union> set items = set (rt_staging r)"
  using assms split_filter [of "\<lambda>s. \<not> involves (the ctx) s" "rt_staging r"]
  by (auto simp: drain_def split: option.splits)

lemma drift_ok_drain:
  assumes ok: "drift_ok w" and "drain ctx (dw_router w) = (r, items)"
  shows "drift_ok (w\<lparr>dw_router := r, dw_flight := dw_flight w + mset items\<rparr>)"
proof -
  define ss where "ss = rt_staging r"
  note d = drain_splits [OF assms(2), folded ss_def]
  have "image_mset dt_id (mset ss) + image_mset dt_id (mset items) = image_mset dt_id (mset (rt_staging (dw_router w)))"
    by (simp flip: image_mset_union d(2))
  then have "places (w\<lparr>dw_router := r, dw_flight := dw_flight w + mset items\<rparr>) = places w"
    by (simp add: places_def held_def d(1) ac_simps)
  moreover have "retries_ok (w\<lparr>dw_router := r, dw_flight := dw_flight w + mset items\<rparr>)"
    using ok by (auto simp: drift_ok_def retries_ok_def d(1) simp flip: d(3))
  ultimately show ?thesis
    using ok by (intro drift_ok_moved [OF ok]) (simp_all add: d(1) router_ok_queues drift_ok_def)
qed

lemma drift_ok_requeue:
  assumes ok: "drift_ok w" and sub: "mset items \<subseteq># dw_flight w"
  shows "drift_ok (w\<lparr>dw_router := requeue items (dw_router w), dw_flight := dw_flight w - mset items\<rparr>)"
proof -
  let ?r = "dw_router w"
  obtain rest where rest: "dw_flight w = mset items + rest" using sub by (auto simp: subset_mset.le_iff_add)
  have "places (w\<lparr>dw_router := requeue items ?r, dw_flight := rest\<rparr>) = places w"
    using mset_requeue [of items ?r] by (simp add: places_def held_def rest ac_simps)
  moreover have "retries_ok (w\<lparr>dw_router := requeue items ?r, dw_flight := rest\<rparr>)"
    using ok requeue_retries [of ?r items] requeue_dead_retries [of items ?r]
    by (auto simp: drift_ok_def retries_ok_def rest)
  ultimately have "drift_ok (w\<lparr>dw_router := requeue items ?r, dw_flight := rest\<rparr>)"
    using ok by (intro drift_ok_moved [OF ok]) (simp_all add: router_ok_requeue requeue_parts drift_ok_def)
  then show ?thesis by (simp add: rest)
qed

lemma drift_ok_settle:
  assumes ok: "drift_ok w"
  shows "s \<in># dw_flight w \<Longrightarrow> drift_ok (w\<lparr>dw_flight := dw_flight w - {#s#}, dw_gone := add_mset (dt_id s) (dw_gone w)\<rparr>)"
    and "s \<in># dw_burial w \<Longrightarrow> drift_ok (w\<lparr>dw_burial := dw_burial w - {#s#}, dw_gone := add_mset (dt_id s) (dw_gone w)\<rparr>)"
proof -
  assume "s \<in># dw_flight w"
  then obtain rest where rest: "dw_flight w = add_mset s rest" by (metis insert_DiffM)
  then show "drift_ok (w\<lparr>dw_flight := dw_flight w - {#s#}, dw_gone := add_mset (dt_id s) (dw_gone w)\<rparr>)"
    using ok by (intro drift_ok_moved [OF ok]) (simp_all add: drift_ok_def places_def held_def retries_ok_def)
next
  assume "s \<in># dw_burial w"
  then obtain rest where rest: "dw_burial w = add_mset s rest" by (metis insert_DiffM)
  then show "drift_ok (w\<lparr>dw_burial := dw_burial w - {#s#}, dw_gone := add_mset (dt_id s) (dw_gone w)\<rparr>)"
    using ok by (intro drift_ok_moved [OF ok]) (simp_all add: drift_ok_def places_def held_def retries_ok_def)
qed

lemma drift_ok_drain_dead:
  assumes ok: "drift_ok w" and "drain_dead_letter (dw_router w) = (r, items)"
  shows "drift_ok (w\<lparr>dw_router := r, dw_burial := dw_burial w + mset items\<rparr>)"
  using assms
  by (intro drift_ok_moved [OF ok])
    (auto simp: drain_dead_letter_def drift_ok_def places_def held_def retries_ok_def router_ok_queues ac_simps)

lemma drift_ok_replay:
  assumes ok: "drift_ok w" and "replay_dead_letter n (dw_router w) = (r, y)"
  shows "drift_ok (w\<lparr>dw_router := r\<rparr>)"
proof (cases "position (\<lambda>s. dt_id s = n) (rt_dead_letter (dw_router w))")
  case None
  with assms have "router_ok r" "quiet (dw_router w) r"
    by (auto simp: replay_dead_letter_def quiet_def drift_ok_def)
  with ok show ?thesis by (simp add: drift_ok_quiet)
next
  case (Some p)
  let ?dead = "rt_dead_letter (dw_router w)"
  obtain s before after where dead: "?dead = before @ s # after" and p: "p = length before"
    using position_SomeD [OF Some] by (metis id_take_nth_drop length_take min.absorb4)
  have r: "r = (dw_router w)\<lparr>rt_dead_letter := before @ after,
      rt_staging := rt_staging (dw_router w) @ [s\<lparr>dt_retry_count := 0\<rparr>]\<rparr>"
    using assms(2) Some by (auto simp: replay_dead_letter_def Let_def dead p)
  show ?thesis
    using ok by (intro drift_ok_moved [OF ok])
      (auto simp: drift_ok_def places_def held_def retries_ok_def router_ok_queues dead r ac_simps)
qed

lemma drift_step_ok: "drift_step U w v \<Longrightarrow> drift_ok w \<Longrightarrow> drift_ok v"
proof (induction rule: drift_step.cases)
  case (register now trace i label parent p w r x)
  then show ?case
    using drift_ok_quiet quiet_put router_ok_put by (metis drift_ok_def register_def)
next
  case (register_fork now trace i label par p w r x)
  then show ?case using drift_ok_quiet quiet_fork router_ok_fork by (metis drift_ok_def)
next
  case (rename i label w r x)
  then show ?case using drift_ok_quiet quiet_rename router_ok_rename by (metis drift_ok_def)
next
  case (configure i pr m w r x)
  then have "router_ok r" "quiet (dw_router w) r"
    by (auto simp: configure_llm_def drift_ok_def quiet_with_handle elim: router_ok_with_handle)
  with configure show ?case by (simp add: drift_ok_quiet)
next
  case (pwd i pwd w r x)
  then have "router_ok r" "quiet (dw_router w) r"
    by (auto simp: set_pwd_def drift_ok_def quiet_with_handle elim: router_ok_with_handle)
  with pwd show ?case by (simp add: drift_ok_quiet)
next
  case (state i st w r x)
  then have "router_ok r" "quiet (dw_router w) r"
    by (auto simp: set_state_def drift_ok_def quiet_with_handle elim: router_ok_with_handle)
  with state show ?case by (simp add: drift_ok_quiet)
next
  case (adopt w i)
  then have "router_ok (adopt_lost_found i (dw_router w))" "quiet (dw_router w) (adopt_lost_found i (dw_router w))"
    by (auto simp: adopt_lost_found_def quiet_def drift_ok_def router_ok_queues split: option.splits)
  with adopt show ?case by (simp add: drift_ok_quiet)
next
  case (lost_found now trace sys fresh w r y)
  then show ?case using drift_ok_quiet quiet_ensure router_ok_ensure by (metis drift_ok_def)
qed (simp_all add: drift_ok_unregister drift_ok_stage drift_ok_cancel drift_ok_drain drift_ok_settle
    drift_ok_requeue drift_ok_drain_dead drift_ok_replay del: One_nat_def)

lemma drift_ok_start: "drift_ok drift_start"
  by (simp add: drift_ok_def drift_start_def router_ok_new places_def held_def handed_out_def retries_ok_def)
    (simp add: router_new_def)

interpretation drift_runs: invariant_system "drift_step U" drift_ok for U
  by unfold_locales (rule drift_step_ok)

section \<open>What holds of every run\<close>

lemma count_place_le:
  "count (mset (map dt_id (rt_staging (dw_router w)))) n \<le> count (places w) n"
  "count (mset (map dt_id (rt_dead_letter (dw_router w)))) n \<le> count (places w) n"
  by (simp_all add: places_def held_def)

text \<open>
  C6: Whatever calls interleave, a staged drift is in exactly one place: the staging queue, the dead
  letters, the hands of a flush or of a burial, or gone (delivered, cancelled or written to
  lost+found); no identifier is handed out twice and none is lost.  A queued drift has failed at most
  five times, a dead letter at most six.
\<close>

theorem drift_conserved:
  assumes "(drift_step U)\<^sup>*\<^sup>* drift_start w"
  shows "(\<forall>n. count (places w) n = (if 1 \<le> n \<and> n < rt_next_staged_id (dw_router w) then 1 else 0))
    \<and> retries_ok w"
  using drift_runs.run_inv [OF assms drift_ok_start] by (simp add: places_count) (simp add: drift_ok_def)

lemma exact_label_unique:
  assumes ok: "router_ok r" and h: "bt_get (rt_contexts r) i = Some h" "ch_label h = Some l"
  shows "exact_labels (label_entries r) l = [(i, l)]"
proof -
  have "List.map_filter (\<lambda>(i, label). case label of None \<Rightarrow> None | Some l' \<Rightarrow> if l' = l then Some (i, l') else None)
      (map (\<lambda>(_, h). (ch_id h, ch_label h)) m) = [(i, l)]"
    if "(i, h) \<in> set m" "distinct (map fst m)" "\<forall>(j, g) \<in> set m. ch_id g = j \<and> (ch_label g = Some l \<longrightarrow> j = i)" for m
    using that
  proof (induction m)
    case (Cons e m)
    have none: "List.map_filter (\<lambda>(i, label). case label of None \<Rightarrow> None | Some l' \<Rightarrow> if l' = l then Some (i, l') else None)
      (map (\<lambda>(_, h). (ch_id h, ch_label h)) m) = []" if "i \<notin> fst ` set m"
      using that Cons.prems(3) by (force simp: map_filter_def filter_empty_conv split: option.splits)
    obtain j g where e: "e = (j, g)" by (cases e)
    show ?case
    proof (cases "j = i")
      case True
      with Cons.prems e have "g = h" by force
      with True Cons.prems e h(2) none show ?thesis by (auto simp: map_filter_def)
    next
      case False
      with Cons e show ?thesis by (auto simp: map_filter_def split: option.splits)
    qed
  qed simp
  moreover have "(i, h) \<in> set (rt_contexts r)" using h(1) by (simp add: bt_get_def map_of_SomeD)
  moreover have d: "distinct (map fst (rt_contexts r))"
    using router_ok_maps [OF ok] by (simp add: bt_ok_def strict_sorted_iff)
  moreover have "ch_id g = j \<and> (ch_label g = Some l \<longrightarrow> j = i)" if "(j, g) \<in> set (rt_contexts r)" for j g
  proof -
    have g: "bt_get (rt_contexts r) j = Some g" using that d by (simp add: bt_get_def)
    show ?thesis using router_okD [OF ok g] router_okD(2) [OF ok h] by auto
  qed
  ultimately show ?thesis unfolding exact_labels_def label_entries_def by blast
qed

text \<open>
  In every router that any calls can produce, the label of a registered context resolves to that
  context, even when it is also a prefix of other labels or of identifiers.
\<close>

theorem label_resolves:
  assumes "(drift_step U)\<^sup>*\<^sup>* drift_start w"
    and "router_get (dw_router w) i = Some h" and "ch_label h = Some l"
  shows "router_resolve U (dw_router w) l = Inr i"
proof -
  have "router_ok (dw_router w)"
    using drift_runs.run_inv [OF assms(1) drift_ok_start] by (simp add: drift_ok_def)
  then show ?thesis
    using exact_label_unique assms(2,3) by (simp add: router_resolve_def resolve_prefix_def router_get_def)
qed

text \<open>A run: a context labelled \<open>a\<close> is registered, and a drift to itself staged.\<close>

definition registered :: DriftRouter where
  "registered = fst (register reference_uuid_lib 7 [] 1 (Some ''a'') None 2 router_new)"

definition staged_once :: DriftRouter where
  "staged_once = fst (stage reference_uuid_lib 9 1 1 ''hi'' None DriftKind.Push registered)"

lemma registered_eq:
  "registered = \<lparr>rt_contexts = [(1, \<lparr>ch_id = 1, ch_label = Some ''a'', ch_pwd = None, ch_provider = None, ch_model = None,
       ch_forked_from = None, ch_created_by = 2, ch_created_at = 7, ch_trace_id = [], ch_state = ContextState.Live\<rparr>)],
     rt_staging = [], rt_dead_letter = [], rt_next_staged_id = 1, rt_label_to_id = [(''a'', 1)], rt_lost_found_id = None\<rparr>"
  by (simp add: registered_def register_def put_handle_def router_new_def check_label_available_def bt_get_def)

lemma staged_once_eq:
  "staged_once = registered\<lparr>rt_next_staged_id := 2, rt_staging :=
     [\<lparr>dt_id = 1, dt_source_ctx = 1, dt_target_ctx = 1, dt_content = ''hi'', dt_source_model = None,
       dt_drift_kind = DriftKind.Push, dt_created_at = 9, dt_retry_count = 0\<rparr>]\<rparr>"
  by (simp add: staged_once_def stage_def Let_def registered_eq bt_contains_def bt_get_def)

lemma registered_reached: "(drift_step reference_uuid_lib)\<^sup>*\<^sup>* drift_start (drift_start\<lparr>dw_router := registered\<rparr>)"
  using drift_step.register [of reference_uuid_lib 7 "[]" 1 "Some ''a''" None 2 drift_start registered]
  by (intro r_into_rtranclp) (simp add: registered_def prod_eq_iff drift_start_def)

lemma staged_reached: "(drift_step reference_uuid_lib)\<^sup>*\<^sup>* drift_start (drift_start\<lparr>dw_router := staged_once\<rparr>)"
proof (rule rtranclp.rtrancl_into_rtrancl [OF registered_reached])
  show "drift_step reference_uuid_lib (drift_start\<lparr>dw_router := registered\<rparr>) (drift_start\<lparr>dw_router := staged_once\<rparr>)"
    using drift_step.stage [of reference_uuid_lib 9 1 1 "''hi''" None DriftKind.Push "drift_start\<lparr>dw_router := registered\<rparr>" staged_once]
    by (simp add: staged_once_def prod_eq_iff)
qed

theorem drift_conserved_witness: "count (places (drift_start\<lparr>dw_router := staged_once\<rparr>)) 1 = 1"
  using drift_conserved [OF staged_reached] by (simp add: staged_once_eq)

theorem label_resolves_witness: "router_resolve reference_uuid_lib registered ''a'' = Inr 1"
  using label_resolves [OF registered_reached, of 1 _ "''a''"] by (simp add: registered_eq router_get_def bt_get_def)

section \<open>Failed deliveries end\<close>

text \<open>A flush of everything in which no delivery succeeds.\<close>

definition failed_flush :: "DriftRouter \<Rightarrow> DriftRouter" where
  "failed_flush r = (case drain None r of (r, items) \<Rightarrow> requeue items r)"

definition retried :: "nat \<Rightarrow> StagedDrift \<Rightarrow> StagedDrift" where
  "retried n s = s\<lparr>dt_retry_count := dt_retry_count s + n\<rparr>"

lemma retried_simps: "retried 0 s = s" "retried m (retried n s) = retried (m + n) s" "dt_id (retried n s) = dt_id s"
  by (simp_all add: retried_def ac_simps)

lemma requeue_filter:
  "requeue items r = r\<lparr>
     rt_staging := rt_staging r @ filter (\<lambda>s. dt_retry_count s \<le> MAX_DRIFT_RETRIES) (map (retried 1) items),
     rt_dead_letter := rt_dead_letter r @ filter (\<lambda>s. MAX_DRIFT_RETRIES < dt_retry_count s) (map (retried 1) items)\<rparr>"
  by (induction items r rule: requeue.induct) (auto simp: Let_def retried_def)

lemma failed_flush_eq:
  "failed_flush r = r\<lparr>
     rt_staging := filter (\<lambda>s. dt_retry_count s \<le> MAX_DRIFT_RETRIES) (map (retried 1) (rt_staging r)),
     rt_dead_letter := rt_dead_letter r @ filter (\<lambda>s. MAX_DRIFT_RETRIES < dt_retry_count s) (map (retried 1) (rt_staging r))\<rparr>"
  by (simp add: failed_flush_def drain_def requeue_filter)

lemma failed_flushes_staging:
  "rt_staging ((failed_flush ^^ n) r) = (if n = 0 then rt_staging r else
     filter (\<lambda>s. dt_retry_count s \<le> MAX_DRIFT_RETRIES) (map (retried n) (rt_staging r)))"
proof (induction n)
  case (Suc n)
  have "filter (\<lambda>s. dt_retry_count s \<le> k) (map (retried 1) (filter (\<lambda>s. dt_retry_count s \<le> k) (map (retried n) ss)))
      = filter (\<lambda>s. dt_retry_count s \<le> k) (map (retried (Suc n)) ss)" for ss k
    by (induction ss) (auto simp: retried_def)
  with Suc show ?case by (cases n) (simp_all add: failed_flush_eq)
qed simp

lemma failed_flush_ids:
  "image_mset dt_id (mset (rt_staging (failed_flush r)) + mset (rt_dead_letter (failed_flush r)))
   = image_mset dt_id (mset (rt_staging r) + mset (rt_dead_letter r))"
  using mset_requeue [of "rt_staging r" "r\<lparr>rt_staging := []\<rparr>"] by (simp add: failed_flush_def drain_def ac_simps)

lemma failed_flushes_ids:
  "image_mset dt_id (mset (rt_staging ((failed_flush ^^ n) r)) + mset (rt_dead_letter ((failed_flush ^^ n) r)))
   = image_mset dt_id (mset (rt_staging r) + mset (rt_dead_letter r))"
  by (induction n) (simp_all only: funpow.simps o_apply id_apply failed_flush_ids)

text \<open>
  Retrying ends: whatever is staged, after six flushes in which every delivery fails the staging
  queue is empty and the dead letters hold every drift that was staged.
\<close>

theorem retries_end:
  "rt_staging ((failed_flush ^^ 6) r) = [] \<and>
   mset (map dt_id (rt_dead_letter ((failed_flush ^^ 6) r))) = mset (map dt_id (rt_staging r)) + mset (map dt_id (rt_dead_letter r))"
proof -
  have s: "rt_staging ((failed_flush ^^ 6) r) = []"
    unfolding failed_flushes_staging by (simp add: filter_empty_conv retried_def MAX_DRIFT_RETRIES_def)
  show ?thesis using failed_flushes_ids [of 6 r] unfolding s by simp
qed

end
