(* ===== verification/Context_Props.thy ===== *)
theory Context_Props
  imports Context_Graph Workspaces
begin

text \<open>
  What the context registry keeps under every sequence of its operations, with any statement failing
  at any time: labels and identifiers are unique, rows refer to rows that exist, structural edges and
  fork parents have no cycle, and the ring has at most ten seats.
\<close>

section \<open>Statements\<close>

lemma dret_eq [simp]: "dret a d = (d, Inr a)"
  by (simp add: dret_def)

lemma dfail_eq [simp]: "dfail e d = (d, Inl e)"
  by (simp add: dfail_def)

lemma dbind_eqE:
  assumes "dbind m f d = (d', x)"
  obtains e where "m d = (d', Inl e)" "x = Inl e" | a d1 where "m d = (d1, Inr a)" "f a d1 = (d', x)"
  using assms by (auto simp: dbind_def split: prod.splits sum.splits)

definition called :: "ContextDb \<Rightarrow> ContextDb" where
  "called d = d\<lparr>cd_base := (cd_base d)\<lparr>kd_calls := kd_calls (cd_base d) + 1\<rparr>\<rparr>"

lemma called_simps [simp]:
  "cd_contexts (called d) = cd_contexts d" "cd_edges (called d) = cd_edges d"
  "cd_workspaces (called d) = cd_workspaces d" "cd_workspace_paths (called d) = cd_workspace_paths d"
  "cd_presets (called d) = cd_presets d" "kd_documents (cd_base (called d)) = kd_documents (cd_base d)"
  "kd_workspaces (cd_base (called d)) = kd_workspaces (cd_base d)"
  "kd_activity (cd_base (called d)) = kd_activity (cd_base d)"
  by (simp_all add: called_def)

lemma sql_eq: "sql fault f d = (case fault (kd_calls (cd_base d)) of Some m \<Rightarrow> (called d, Inl (KernelDbError.Db m)) | None \<Rightarrow> f (called d))"
  unfolding sql_def called_def Let_def by (rule refl)

lemma sql_eqE:
  assumes "sql fault f d = (d', x)"
  obtains m where "d' = called d" "x = Inl (KernelDbError.Db m)" | "f (called d) = (d', x)"
  using assms by (auto simp: sql_eq split: option.splits)

section \<open>The graph of the structural edges\<close>

definition structural :: "ContextEdgeRow list \<Rightarrow> (ContextId \<times> ContextId) set" where
  "structural es = {(er_source_id e, er_target_id e) |e. e \<in> set es \<and> er_kind e = EdgeKind.Structural}"

lemma structural_simps [simp]:
  "structural [] = {}"
  "structural (es @ fs) = structural es \<union> structural fs"
  "structural [e] = (if er_kind e = EdgeKind.Structural then {(er_source_id e, er_target_id e)} else {})"
  by (auto simp: structural_def)

lemma structural_filter: "structural (filter P es) \<subseteq> structural es"
  by (auto simp: structural_def)

lemma finite_structural: "finite (structural es)"
proof -
  have "structural es \<subseteq> (\<lambda>e. (er_source_id e, er_target_id e)) ` set es" by (auto simp: structural_def)
  then show ?thesis by (rule finite_subset) simp
qed

lemma set_structural_targets: "set (structural_targets es i) = structural es `` {i}"
  by (force simp: structural_targets_def structural_def)

lemma cycle_walk_edges: "cycle_walk fault source stack visited d = (d', x) \<Longrightarrow>
  cd_edges d' = cd_edges d \<and> cd_contexts d' = cd_contexts d \<and> cd_workspaces d' = cd_workspaces d
  \<and> cd_presets d' = cd_presets d \<and> kd_documents (cd_base d') = kd_documents (cd_base d)
  \<and> kd_workspaces (cd_base d') = kd_workspaces (cd_base d)"
proof (induction fault source stack visited d rule: cycle_walk.induct)
  case (2 fault source node stack visited d)
  then show ?case by (auto simp: sql_eq split: if_splits option.splits)
qed simp

text \<open>The walk decides whether the source can be reached from the stack.\<close>

lemma cycle_walk_spec:
  assumes "cycle_walk fault source stack visited d = (d', Inr b)"
    and "\<forall>v \<in> visited. structural (cd_edges d) `` {v} \<subseteq> visited \<union> set stack" and "source \<notin> visited"
  shows "b \<longleftrightarrow> (\<exists>n \<in> set stack \<union> visited. (n, source) \<in> (structural (cd_edges d))\<^sup>*)"
  using assms
proof (induction fault source stack visited d rule: cycle_walk.induct)
  case (1 fault source visited d)
  have "m \<in> visited" if "(n, m) \<in> (structural (cd_edges d))\<^sup>*" "n \<in> visited" for n m
    using that 1(2) by (induction rule: rtrancl_induct) auto
  with 1 show ?case by auto
next
  case (2 fault source node stack visited d)
  consider "node = source" | "node \<noteq> source" "node \<in> visited" | "node \<noteq> source" "node \<notin> visited" by blast
  then show ?case
  proof cases
    case 1
    with 2 show ?thesis by auto
  next
    case c: 2
    then have "b \<longleftrightarrow> (\<exists>n \<in> set stack \<union> visited. (n, source) \<in> (structural (cd_edges d))\<^sup>*)"
      using 2(3-5) by (intro 2(1)) auto
    with c show ?thesis by auto
  next
    case c: 3
    let ?R = "structural (cd_edges d)" and ?kids = "structural_targets (cd_edges d) node"
    from c 2(3) have sql: "sql fault (\<lambda>d. (d, Inr (structural_targets (cd_edges d) node))) d = (called d, Inr ?kids)"
      and run: "cycle_walk fault source (rev ?kids @ stack) (insert node visited) (called d) = (d', Inr b)"
      by (auto simp: sql_eq split: option.splits)
    have "b \<longleftrightarrow> (\<exists>n \<in> set (rev ?kids @ stack) \<union> insert node visited. (n, source) \<in> (structural (cd_edges (called d)))\<^sup>*)"
      using 2(4,5) c by (intro 2(2) [OF c sql [symmetric] refl run]) (auto simp: set_structural_targets)
    also have "\<dots> \<longleftrightarrow> (\<exists>n \<in> set (node # stack) \<union> visited. (n, source) \<in> ?R\<^sup>*)"
      by (auto simp: set_structural_targets intro: converse_rtrancl_into_rtrancl)
    finally show ?thesis .
  qed
qed

lemma would_create_cycle_spec:
  assumes "would_create_cycle fault source target d = (d', Inr b)"
  shows "b \<longleftrightarrow> (target, source) \<in> (structural (cd_edges d))\<^sup>*"
  using assms cycle_walk_spec [of fault source "[target]" "{}" d d' b]
  by (auto simp: would_create_cycle_def split: if_splits)

lemma acyclic_insert_iff_new:
  "acyclic R \<Longrightarrow> (t, s) \<notin> R\<^sup>* \<Longrightarrow> acyclic (insert (s, t) R)"
  by (simp add: acyclic_insert)

section \<open>Recursive queries end\<close>

lemma cte_Nil [simp]: "cte next depth [] = Some []"
  by (subst cte.simps) simp

lemma cte_ends:
  assumes "\<And>x y. y \<in> set (next x) \<Longrightarrow> rank y < (rank x :: nat)" and "\<And>x. x \<in> set level \<Longrightarrow> rank x < n"
  shows "\<exists>walk. cte next depth level = Some walk"
  using assms(2)
proof (induction n arbitrary: depth level)
  case 0
  then have "level = []" by (cases level) auto
  then show ?case by simp
next
  case (Suc n)
  have "rank y < n" if "y \<in> set (concat (map next level))" for y
    using that Suc.prems assms(1) by fastforce
  then obtain walk where "cte next (depth + 1) (concat (map next level)) = Some walk" using Suc.IH by blast
  then show ?case by (subst cte.simps) simp
qed

lemma rank_bound: "\<exists>n. \<forall>x \<in> set level. rank x < (n :: nat)"
proof (induction level)
  case (Cons x level)
  then obtain n where "\<forall>y \<in> set level. rank y < n" by blast
  then have "\<forall>y \<in> set (x # level). rank y < Suc (max n (rank x))" by (auto simp: less_Suc_eq_le max_def le_less)
  then show ?case by blast
qed simp

lemma cte_unfold:
  assumes "cte next depth level = Some walk"
  shows "level = [] \<and> walk = [] \<or> (\<exists>rest. cte next (depth + 1) (concat (map next level)) = Some rest
    \<and> walk = map (\<lambda>x. (x, depth)) level @ rest)"
  using assms by (subst (asm) cte.simps) (auto split: if_splits bind_splits)

definition steps_of :: "('a \<Rightarrow> 'a list) \<Rightarrow> ('a \<times> 'a) set" where
  "steps_of next = {(x, y). y \<in> set (next x)}"

text \<open>The walk lists exactly what the steps reach, with the length of the path as depth.\<close>

lemma cte_reaches:
  assumes "\<And>x y. y \<in> set (next x) \<Longrightarrow> rank y < (rank x :: nat)"
    and "cte next depth level = Some walk" and "\<And>x. x \<in> set level \<Longrightarrow> rank x < n"
  shows "set walk = {(y, depth + k) |x y k. x \<in> set level \<and> (x, y) \<in> steps_of next ^^ k}"
  using assms(2,3)
proof (induction n arbitrary: depth level walk)
  case 0
  then have "level = []" by (cases level) auto
  with 0 show ?case by auto
next
  case (Suc n)
  show ?case
  proof (cases "level = []")
    case True
    with Suc.prems(1) show ?thesis by auto
  next
    case False
    then obtain rest where rest: "cte next (depth + 1) (concat (map next level)) = Some rest"
      and walk: "walk = map (\<lambda>x. (x, depth)) level @ rest"
      using cte_unfold [OF Suc.prems(1)] by auto
    have small: "rank y < n" if "y \<in> set (concat (map next level))" for y
      using that Suc.prems(2) assms(1) by fastforce
    have "set rest = {(y, depth + 1 + k) |x y k. x \<in> set (concat (map next level)) \<and> (x, y) \<in> steps_of next ^^ k}"
      by (rule Suc.IH [OF rest small])
    also have "\<dots> = {(y, depth + Suc k) |x y k. x \<in> set level \<and> (x, y) \<in> steps_of next ^^ Suc k}"
      (is "?A = ?B")
    proof
      show "?A \<subseteq> ?B" by (auto simp: steps_of_def simp del: relpow.simps) (metis case_prodI mem_Collect_eq relpow_Suc_I2)
      show "?B \<subseteq> ?A" by (auto simp: steps_of_def simp del: relpow.simps dest!: relpow_Suc_D2)
    qed
    finally have rest': "set rest = \<dots>" .
    show ?thesis
    proof (intro set_eqI iffI; clarify)
      fix y m assume "(y, m) \<in> set walk"
      then consider "y \<in> set level" "m = depth" | "(y, m) \<in> set rest" by (auto simp: walk)
      then show "\<exists>x y' k. (y, m) = (y', depth + k) \<and> x \<in> set level \<and> (x, y') \<in> steps_of next ^^ k"
      proof cases
        case 1
        then have "(y, m) = (y, depth + 0) \<and> y \<in> set level \<and> (y, y) \<in> steps_of next ^^ 0" by simp
        then show ?thesis by blast
      next
        case 2
        then show ?thesis unfolding rest' by blast
      qed
    next
      fix x y k assume "x \<in> set level" "(x, y) \<in> steps_of next ^^ k"
      then show "(y, depth + k) \<in> set walk"
        using rest' by (cases k) (auto simp: walk simp del: relpow.simps(2))
    qed
  qed
qed

lemma cte_returns:
  assumes less: "\<And>x y. y \<in> set (next x) \<Longrightarrow> rank y < (rank x :: nat)"
  obtains walk where "cte next depth level = Some walk"
    "set walk = {(y, depth + k) |x y k. x \<in> set level \<and> (x, y) \<in> steps_of next ^^ k}"
proof -
  obtain n where "\<forall>x \<in> set level. rank x < n" by (rule exE [OF rank_bound])
  then have n: "x \<in> set level \<Longrightarrow> rank x < n" for x by blast
  obtain walk where walk: "cte next depth level = Some walk" by (rule exE [OF cte_ends [OF less n]])
  show ?thesis by (rule that [OF walk cte_reaches [OF less walk n]])
qed

section \<open>The invariant\<close>

text \<open>Rows that refer to rows: documents, fork parents (which stand earlier in the table) and edges.\<close>

definition labels_unique :: "ContextRow list \<Rightarrow> bool" where
  "labels_unique rs \<longleftrightarrow>
     (\<forall>r \<in> set rs. \<forall>s \<in> set rs. cr_label r \<noteq> None \<longrightarrow> cr_label r = cr_label s \<longrightarrow> cr_context_id r = cr_context_id s)"

lemma labels_uniqueI:
  "(\<And>r s. r \<in> set rs \<Longrightarrow> s \<in> set rs \<Longrightarrow> cr_label r \<noteq> None \<Longrightarrow> cr_label r = cr_label s \<Longrightarrow> cr_context_id r = cr_context_id s)
   \<Longrightarrow> labels_unique rs"
  unfolding labels_unique_def by blast

lemma labels_uniqueD:
  "labels_unique rs \<Longrightarrow> r \<in> set rs \<Longrightarrow> s \<in> set rs \<Longrightarrow> cr_label r \<noteq> None \<Longrightarrow> cr_label r = cr_label s \<Longrightarrow> cr_context_id r = cr_context_id s"
  unfolding labels_unique_def by blast

lemma labels_unique_map:
  "(\<And>r. cr_context_id (f r) = cr_context_id r) \<Longrightarrow> (\<And>r. cr_label (f r) = cr_label r) \<Longrightarrow> labels_unique (map f rs) = labels_unique rs"
  by (simp add: labels_unique_def)

lemma context_exists_ids: "context_exists d i \<longleftrightarrow> i \<in> set (map cr_context_id (cd_contexts d))"
  by (simp add: context_exists_def)

lemma context_exists_update: "context_exists (d\<lparr>cd_contexts := rs\<rparr>) i \<longleftrightarrow> i \<in> set (map cr_context_id rs)"
  by (simp add: context_exists_def)

lemma labels_unique_snoc:
  assumes "labels_unique rs" and "\<And>r. cr_label row \<noteq> None \<Longrightarrow> r \<in> set rs \<Longrightarrow> cr_label r \<noteq> cr_label row"
  shows "labels_unique (rs @ [row])"
proof (rule labels_uniqueI)
  fix r s assume *: "r \<in> set (rs @ [row])" "s \<in> set (rs @ [row])" "cr_label r \<noteq> None" "cr_label r = cr_label s"
  consider "r \<in> set rs" "s \<in> set rs" | "r = row" "s \<in> set rs" | "r \<in> set rs" "s = row" | "r = row" "s = row"
    using *(1,2) by auto
  then show "cr_context_id r = cr_context_id s"
  proof cases
    case 1
    then show ?thesis using *(3,4) by (rule labels_uniqueD [OF assms(1)])
  next
    case 2
    then show ?thesis using assms(2) [of s] *(3,4) by simp
  next
    case 3
    then show ?thesis using assms(2) [of r] *(3,4) by simp
  qed simp
qed

definition keys_ok :: "ContextDb \<Rightarrow> bool" where
  "keys_ok d \<longleftrightarrow>
     distinct (map cr_context_id (cd_contexts d)) \<and>
     labels_unique (cd_contexts d) \<and>
     (\<forall>r \<in> set (cd_contexts d). document_exists (cd_base d) (cr_context_id r))"

fun parents_earlier :: "ContextId set \<Rightarrow> ContextRow list \<Rightarrow> bool" where
  "parents_earlier seen [] \<longleftrightarrow> True"
| "parents_earlier seen (r # rs) \<longleftrightarrow>
     (case cr_forked_from r of None \<Rightarrow> True | Some p \<Rightarrow> p \<in> seen) \<and> parents_earlier (insert (cr_context_id r) seen) rs"

definition edges_ok :: "ContextDb \<Rightarrow> bool" where
  "edges_ok d \<longleftrightarrow>
     distinct (map er_edge_id (cd_edges d)) \<and> acyclic (structural (cd_edges d)) \<and>
     (\<forall>e \<in> set (cd_edges d). context_exists d (er_source_id e) \<and> context_exists d (er_target_id e))"

text \<open>The ring: the two stamps exclude each other, an archived context holds neither, ten seats.\<close>

definition placed :: "ContextRow \<Rightarrow> bool" where
  "placed r \<longleftrightarrow>
     (cr_promoted_at r = None \<or> cr_demoted_at r = None) \<and>
     (cr_archived_at r \<noteq> None \<longrightarrow> cr_promoted_at r = None \<and> cr_demoted_at r = None)"

definition seats :: "ContextDb \<Rightarrow> nat" where
  "seats d = length (filter seated (cd_contexts d))"

definition ring_ok :: "ContextDb \<Rightarrow> bool" where
  "ring_ok d \<longleftrightarrow> (\<forall>r \<in> set (cd_contexts d). placed r) \<and> seats d \<le> ACTIVE_RING_CAPACITY"

definition registry_ok :: "ContextDb \<Rightarrow> bool" where
  "registry_ok d \<longleftrightarrow> keys_ok d \<and> parents_earlier {} (cd_contexts d) \<and> edges_ok d \<and> ring_ok d"

text \<open>Nothing the invariant speaks of has changed.\<close>

definition same_registry :: "ContextDb \<Rightarrow> ContextDb \<Rightarrow> bool" where
  "same_registry d d' \<longleftrightarrow>
     cd_contexts d' = cd_contexts d \<and> cd_edges d' = cd_edges d \<and>
     set (kd_documents (cd_base d)) \<subseteq> set (kd_documents (cd_base d'))"

lemma same_registry_ok: "registry_ok d \<Longrightarrow> same_registry d d' \<Longrightarrow> registry_ok d'"
  by (fastforce simp: registry_ok_def same_registry_def keys_ok_def edges_ok_def ring_ok_def seats_def
      context_exists_def document_exists_def)

lemma same_registry_called [simp]: "same_registry d (called d)"
  by (simp add: same_registry_def)

lemma same_registry_trans: "same_registry d e \<Longrightarrow> same_registry e f \<Longrightarrow> same_registry d f"
  by (auto simp: same_registry_def)

subsection \<open>Updates of a context's row\<close>

lemma update_rows_eqE:
  assumes "update_rows fault i p f d = (d', x)"
  obtains (failed) m where "d' = called d" "x = Inl (KernelDbError.Db m)"
  | (ran) "d' = (called d)\<lparr>cd_contexts := map (\<lambda>r. if cr_context_id r = i \<and> p r then f r else r) (cd_contexts d)\<rparr>"
      "x = Inr (length (filter (\<lambda>r. cr_context_id r = i \<and> p r) (cd_contexts d)))"
  using assms unfolding update_rows_def by (elim sql_eqE) auto

lemma parents_earlier_map:
  "\<forall>r. cr_context_id (f r) = cr_context_id r \<and> cr_forked_from (f r) = cr_forked_from r \<Longrightarrow>
   parents_earlier seen (map f rs) = parents_earlier seen rs"
  by (induction rs arbitrary: seen) auto

lemma filter_map_le:
  "(\<And>r. P (f r) \<Longrightarrow> P r) \<Longrightarrow> length (filter P (map f rs)) \<le> length (filter P rs)"
  by (induction rs) (auto intro: le_SucI)

lemma registry_ok_map:
  assumes ok: "registry_ok d"
    and keep: "\<And>r. cr_context_id (f r) = cr_context_id r" "\<And>r. cr_label (f r) = cr_label r"
      "\<And>r. cr_forked_from (f r) = cr_forked_from r"
    and placed: "\<And>r. r \<in> set (cd_contexts d) \<Longrightarrow> placed (f r)"
    and seats: "length (filter seated (map f (cd_contexts d))) \<le> ACTIVE_RING_CAPACITY"
  shows "registry_ok ((called d)\<lparr>cd_contexts := map f (cd_contexts d)\<rparr>)"
proof -
  have ids: "cr_context_id \<circ> f = cr_context_id" using keep(1) by (simp add: fun_eq_iff)
  have ex: "context_exists ((called d)\<lparr>cd_contexts := map f (cd_contexts d)\<rparr>) i = context_exists d i" for i
    by (simp add: context_exists_def image_image keep(1))
  show ?thesis
    using ok placed seats parents_earlier_map [of f "{}" "cd_contexts d"]
    unfolding registry_ok_def keys_ok_def edges_ok_def ring_ok_def seats_def ex
    by (simp add: keep ids document_exists_def labels_unique_map)
qed

lemma registry_ok_update:
  assumes ok: "registry_ok d" and run: "update_rows fault i p f d = (d', x)"
    and keep: "\<And>r. cr_context_id (f r) = cr_context_id r" "\<And>r. cr_label (f r) = cr_label r"
      "\<And>r. cr_forked_from (f r) = cr_forked_from r"
    and placed: "\<And>r. r \<in> set (cd_contexts d) \<Longrightarrow> cr_context_id r = i \<Longrightarrow> p r \<Longrightarrow> placed r \<Longrightarrow> placed (f r)"
    and seated: "\<And>r. p r \<Longrightarrow> seated (f r) \<Longrightarrow> seated r"
  shows "registry_ok d'"
  using run
proof (cases rule: update_rows_eqE)
  case failed
  with ok show ?thesis using same_registry_ok by simp
next
  case ran
  have "length (filter seated (map (\<lambda>r. if cr_context_id r = i \<and> p r then f r else r) (cd_contexts d))) \<le> seats d"
    unfolding seats_def using seated by (intro filter_map_le) (auto split: if_splits)
  also have "\<dots> \<le> ACTIVE_RING_CAPACITY" using ok by (simp add: registry_ok_def ring_ok_def)
  finally show ?thesis
    unfolding ran(1) using keep placed ok by (intro registry_ok_map [OF ok]) (auto simp: registry_ok_def ring_ok_def)
qed

subsection \<open>Operations that keep an invariant\<close>

definition preserves :: "(ContextDb \<Rightarrow> bool) \<Rightarrow> 'a cdop \<Rightarrow> bool" where
  "preserves Inv op \<longleftrightarrow> (\<forall>d d' x. Inv d \<longrightarrow> op d = (d', x) \<longrightarrow> Inv d')"

lemma preservesI: "(\<And>d d' x. Inv d \<Longrightarrow> op d = (d', x) \<Longrightarrow> Inv d') \<Longrightarrow> preserves Inv op"
  unfolding preserves_def by blast

lemma preserves_fst: "preserves Inv op \<Longrightarrow> Inv d \<Longrightarrow> Inv (fst (op d))"
  unfolding preserves_def by (metis prod.collapse)

lemma preservesD: "preserves Inv op \<Longrightarrow> Inv d \<Longrightarrow> op d = (d', x) \<Longrightarrow> Inv d'"
  unfolding preserves_def by blast

named_theorems kept_by

locale cdop_invariant =
  fixes Inv :: "ContextDb \<Rightarrow> bool"
  assumes inv_called: "Inv d \<Longrightarrow> Inv (called d)"
begin

lemma preserves_dret [kept_by]: "preserves Inv (dret a)"
  by (rule preservesI) simp

lemma preserves_dfail [kept_by]: "preserves Inv (dfail e)"
  by (rule preservesI) simp

lemma preserves_dbind [kept_by]:
  assumes "preserves Inv m" and "\<And>a. preserves Inv (f a)"
  shows "preserves Inv (dbind m f)"
  by (rule preservesI) (use assms in \<open>auto elim!: dbind_eqE dest: preservesD\<close>)

lemma preserves_sql:
  assumes "\<And>d d' x. Inv d \<Longrightarrow> f d = (d', x) \<Longrightarrow> Inv d'"
  shows "preserves Inv (sql fault f)"
  by (rule preservesI) (use assms inv_called in \<open>blast elim: sql_eqE\<close>)

lemma preserves_query [kept_by]: "preserves Inv (sql fault (\<lambda>d. (d, Inr (q d))))"
  by (rule preserves_sql) simp

lemma preserves_if [kept_by]: "preserves Inv p \<Longrightarrow> preserves Inv q \<Longrightarrow> preserves Inv (if c then p else q)"
  by simp

lemma preserves_option [kept_by]:
  "preserves Inv p \<Longrightarrow> (\<And>a. preserves Inv (q a)) \<Longrightarrow> preserves Inv (case x of None \<Rightarrow> p | Some a \<Rightarrow> q a)"
  by (cases x) auto

end

interpretation registry: cdop_invariant registry_ok
  by unfold_locales (rule same_registry_ok [OF _ same_registry_called])

lemmas registry_kept = registry.preserves_dret registry.preserves_dfail registry.preserves_dbind
  registry.preserves_query registry.preserves_if registry.preserves_option

lemma registry_same:
  assumes "\<And>d d' x. f d = (d', x) \<Longrightarrow> same_registry d d'"
  shows "preserves registry_ok (sql fault f)"
  using assms by (blast intro: registry.preserves_sql same_registry_ok)

lemma registry_validate_label: "preserves registry_ok (validate_label l)"
  unfolding validate_label_def by (intro registry_kept)

lemma registry_update_rows:
  assumes "\<And>r. cr_context_id (f r) = cr_context_id r" "\<And>r. cr_label (f r) = cr_label r"
    "\<And>r. cr_forked_from (f r) = cr_forked_from r" "\<And>r. p r \<Longrightarrow> placed r \<Longrightarrow> placed (f r)"
    "\<And>r. p r \<Longrightarrow> seated (f r) \<Longrightarrow> seated r"
  shows "preserves registry_ok (update_rows fault i p f)"
  by (rule preservesI) (erule registry_ok_update, assumption, simp_all add: assms)

lemma registry_update_found:
  assumes "\<And>r. cr_context_id (f r) = cr_context_id r" "\<And>r. cr_label (f r) = cr_label r"
    "\<And>r. cr_forked_from (f r) = cr_forked_from r" "\<And>r. placed (f r) = placed r" "\<And>r. seated (f r) = seated r"
  shows "preserves registry_ok (update_found U fault i f)"
  unfolding update_found_def
  by (intro registry_kept registry_update_rows) (simp_all add: assms)

lemma placement_unchanged:
  "placed (r\<lparr>cr_provider := a, cr_model := b\<rparr>) = placed r" "seated (r\<lparr>cr_provider := a, cr_model := b\<rparr>) = seated r"
  "placed (r\<lparr>cr_system_prompt := a, cr_consent_mode := m\<rparr>) = placed r"
  "seated (r\<lparr>cr_system_prompt := a, cr_consent_mode := m\<rparr>) = seated r"
  "placed (r\<lparr>cr_context_type := t\<rparr>) = placed r" "seated (r\<lparr>cr_context_type := t\<rparr>) = seated r"
  "placed (r\<lparr>cr_workspace_id := w\<rparr>) = placed r" "seated (r\<lparr>cr_workspace_id := w\<rparr>) = seated r"
  "placed (r\<lparr>cr_context_state := st\<rparr>) = placed r" "seated (r\<lparr>cr_context_state := st\<rparr>) = seated r"
  "placed (r\<lparr>cr_paused_at := x\<rparr>) = placed r" "seated (r\<lparr>cr_paused_at := x\<rparr>) = seated r"
  "placed (r\<lparr>cr_label := l\<rparr>) = placed r" "seated (r\<lparr>cr_label := l\<rparr>) = seated r"
  "placed (r\<lparr>cr_preset_id := z\<rparr>) = placed r" "seated (r\<lparr>cr_preset_id := z\<rparr>) = seated r"
  "placed (r\<lparr>cr_forked_from := y\<rparr>) = placed r" "seated (r\<lparr>cr_forked_from := y\<rparr>) = seated r"
  by (simp_all add: placed_def seated_def)

lemma registry_update_model: "preserves registry_ok (update_model U fault i p m)"
  unfolding update_model_def by (rule registry_update_found) (simp_all add: placement_unchanged)

lemma registry_update_settings: "preserves registry_ok (update_settings U fault i p c)"
  unfolding update_settings_def by (rule registry_update_found) (simp_all add: placement_unchanged)

lemma registry_update_context_type: "preserves registry_ok (update_context_type U fault i t)"
  unfolding update_context_type_def by (rule registry_update_found) (simp_all add: placement_unchanged)

lemma registry_update_workspace: "preserves registry_ok (update_workspace U fault i w)"
proof -
  have "preserves registry_ok (update_found U fault i (\<lambda>r. r\<lparr>cr_workspace_id := w\<rparr>))"
    by (rule registry_update_found) (simp_all add: placement_unchanged)
  moreover have "preserves registry_ok (sql fault (dfail foreign_key))"
    by (rule registry_same) (simp add: same_registry_def)
  ultimately show ?thesis unfolding preserves_def update_workspace_def by metis
qed

lemma registry_archive: "preserves registry_ok (archive_context fault now i)"
  unfolding archive_context_def
  by (intro registry_kept registry_update_rows) (simp_all add: placed_def seated_def)

lemma registry_update_state: "preserves registry_ok (update_context_state fault i st)"
  unfolding update_context_state_def
  by (intro registry_kept registry_update_rows) (simp_all add: placement_unchanged)

lemma registry_conclude: "preserves registry_ok (conclude_context fault now i)"
  unfolding conclude_context_def
  by (intro registry_kept registry_update_rows) (simp_all add: placed_def seated_def)

lemma registry_get_context: "preserves registry_ok (get_context fault i)"
  unfolding get_context_def by (intro registry_kept)

lemma registry_paused: "preserves registry_ok (set_context_paused U fault now i b)"
  unfolding set_context_paused_def
  by (intro registry_kept registry_get_context registry_update_rows) (simp_all add: placement_unchanged)

text \<open>Promotion and demotion read the row they change.\<close>

lemma read_row_simps [simp]:
  "cr_context_id (read_row d r) = cr_context_id r" "cr_archived_at (read_row d r) = cr_archived_at r"
  "cr_promoted_at (read_row d r) = cr_promoted_at r" "cr_demoted_at (read_row d r) = cr_demoted_at r"
  "cr_concluded_at (read_row d r) = cr_concluded_at r" "cr_workspace_id (read_row d r) = cr_workspace_id r"
  by (simp_all add: read_row_def)

lemma find_context:
  "List.find (\<lambda>r. cr_context_id r = i) (context_rows d) = Some r \<Longrightarrow>
   \<exists>s \<in> set (cd_contexts d). cr_context_id s = i \<and> r = read_row d s"
proof -
  have "List.find (\<lambda>r. cr_context_id r = i) (map (read_row d) rs) = Some r \<Longrightarrow>
    \<exists>s \<in> set rs. cr_context_id s = i \<and> r = read_row d s" for rs
    by (induction rs) (auto split: if_splits)
  then show "List.find (\<lambda>r. cr_context_id r = i) (context_rows d) = Some r \<Longrightarrow> ?thesis" by (simp add: context_rows_def)
qed

lemma get_context_or_fail_eqE:
  assumes "get_context_or_fail U fault i d = (d', x)"
  obtains (failed) e where "d' = called d" "x = Inl e"
  | (found) r where "d' = called d" "x = Inr (read_row (called d) r)" "r \<in> set (cd_contexts d)" "cr_context_id r = i"
proof (cases "fault (kd_calls (cd_base d))")
  case None
  then show ?thesis
    using assms that find_context [of i "called d"]
    by (auto simp: get_context_or_fail_def get_context_def dbind_def sql_eq split: option.splits)
next
  case (Some m)
  then show ?thesis using assms that by (auto simp: get_context_or_fail_def get_context_def dbind_def sql_eq)
qed

lemma row_unique:
  "registry_ok d \<Longrightarrow> r \<in> set (cd_contexts d) \<Longrightarrow> s \<in> set (cd_contexts d) \<Longrightarrow> cr_context_id r = cr_context_id s \<Longrightarrow> r = s"
  by (auto simp: registry_ok_def keys_ok_def distinct_map inj_on_def)

lemma registry_then: "preserves registry_ok m \<Longrightarrow> preserves registry_ok (dbind m (\<lambda>_. dret v))"
  by (intro registry_kept)

lemma after_read:
  assumes ok: "registry_ok d" and run: "dbind (get_context_or_fail U fault i) f d = (d', x)"
    and step: "\<And>r. r \<in> set (cd_contexts d) \<Longrightarrow> (\<And>s. s \<in> set (cd_contexts d) \<Longrightarrow> cr_context_id s = i \<Longrightarrow> s = r)
      \<Longrightarrow> registry_ok (called d) \<Longrightarrow> f (read_row (called d) r) (called d) = (d', x) \<Longrightarrow> registry_ok d'"
  shows "registry_ok d'"
  using run
proof (cases rule: dbind_eqE)
  case (1 e)
  then show ?thesis using ok registry.inv_called by (auto elim: get_context_or_fail_eqE)
next
  case (2 r d1)
  then obtain s where s: "r = read_row (called d) s" "s \<in> set (cd_contexts d)" "cr_context_id s = i" "d1 = called d"
    by (auto elim: get_context_or_fail_eqE)
  show ?thesis
    using 2(2) s row_unique [OF ok] registry.inv_called [OF ok] by (intro step [of s]) auto
qed

lemma after_query:
  assumes "dbind (sql fault (\<lambda>d. (d, Inr (q d)))) f d = (d', x)"
  shows "d' = called d \<or> f (q (called d)) (called d) = (d', x)"
  using assms by (auto simp: dbind_def sql_eq split: option.splits)

lemma dbind_dret_fst: "dbind m (\<lambda>_. dret v) d = (d', x) \<Longrightarrow> \<exists>y. m d = (d', y)"
  by (auto elim: dbind_eqE)

lemma registry_demote: "preserves registry_ok (demote_context U fault now i)"
proof (rule preservesI)
  fix d d' x assume ok: "registry_ok d" and run: "demote_context U fault now i d = (d', x)"
  show "registry_ok d'"
  proof (rule after_read [OF ok run [unfolded demote_context_def]])
    fix r assume r: "r \<in> set (cd_contexts d)" and only: "\<And>s. s \<in> set (cd_contexts d) \<Longrightarrow> cr_context_id s = i \<Longrightarrow> s = r"
      and ok1: "registry_ok (called d)"
      and rest: "(if cr_archived_at (read_row (called d) r) \<noteq> None
         then dfail (KernelDbError.Validation ''cannot demote an archived context'')
         else if cr_demoted_at (read_row (called d) r) \<noteq> None
         then dbind (archive_context fault now i) (\<lambda>_. dret DemoteOutcome.Archived)
         else if cr_promoted_at (read_row (called d) r) \<noteq> None
         then dbind (update_rows fault i (\<lambda>_. True) (\<lambda>r. r\<lparr>cr_promoted_at := None\<rparr>)) (\<lambda>_. dret Unpromoted)
         else dbind (update_rows fault i (\<lambda>_. True) (\<lambda>r. r\<lparr>cr_demoted_at := Some now\<rparr>)) (\<lambda>_. dret Demoted)) (called d) = (d', x)"
    consider "d' = called d" | "\<exists>y. archive_context fault now i (called d) = (d', y)"
      | "\<exists>y. update_rows fault i (\<lambda>_. True) (\<lambda>r. r\<lparr>cr_promoted_at := None\<rparr>) (called d) = (d', y)"
      | "cr_archived_at r = None" "cr_promoted_at r = None"
        "\<exists>y. update_rows fault i (\<lambda>_. True) (\<lambda>r. r\<lparr>cr_demoted_at := Some now\<rparr>) (called d) = (d', y)"
      using rest by (auto dest!: dbind_dret_fst split: if_splits)
    then show "registry_ok d'"
    proof cases
      case 2
      then show ?thesis using registry_archive ok1 by (auto dest: preservesD)
    next
      case 3
      then show ?thesis by (auto intro: ok1 elim!: registry_ok_update [rotated] simp: placed_def seated_def)
    next
      case 4
      then obtain y where "update_rows fault i (\<lambda>_. True) (\<lambda>r. r\<lparr>cr_demoted_at := Some now\<rparr>) (called d) = (d', y)" by blast
      then show ?thesis
        by (rule registry_ok_update [OF ok1]) (use only 4 in \<open>auto simp: placed_def seated_def\<close>)
    qed (use ok1 in simp)
  qed
qed

lemma one_more:
  assumes "distinct (map cr_context_id rs)"
  shows "length (filter P (map (\<lambda>r. if cr_context_id r = i \<and> p r then f r else r) rs)) \<le> Suc (length (filter P rs))"
  using assms
proof (induction rs)
  case (Cons r rs)
  have "map (\<lambda>r. if cr_context_id r = i \<and> p r then f r else r) rs = rs" if "i \<notin> cr_context_id ` set rs"
    using that by (intro map_idI) auto
  with Cons show ?case by (auto simp del: length_filter_map)
qed simp

lemma registry_ok_promoted:
  assumes ok: "registry_ok d" and run: "update_rows fault i p f d = (d', x)"
    and keep: "\<And>r. cr_context_id (f r) = cr_context_id r" "\<And>r. cr_label (f r) = cr_label r"
      "\<And>r. cr_forked_from (f r) = cr_forked_from r"
    and placed: "\<And>r. placed r \<Longrightarrow> cr_context_id r = i \<Longrightarrow> r \<in> set (cd_contexts d) \<Longrightarrow> placed (f r)"
    and room: "seats d < ACTIVE_RING_CAPACITY"
  shows "registry_ok d'"
  using run
proof (cases rule: update_rows_eqE)
  case failed
  with ok show ?thesis using same_registry_ok by simp
next
  case ran
  have "length (filter seated (map (\<lambda>r. if cr_context_id r = i \<and> p r then f r else r) (cd_contexts d))) \<le> Suc (seats d)"
    unfolding seats_def using ok by (intro one_more) (simp add: registry_ok_def keys_ok_def)
  also have "\<dots> \<le> ACTIVE_RING_CAPACITY" using room by simp
  finally show ?thesis
    unfolding ran(1) using keep placed ok by (intro registry_ok_map [OF ok]) (auto simp: registry_ok_def ring_ok_def)
qed

lemma registry_promote: "preserves registry_ok (promote_context U fault now i)"
proof (rule preservesI)
  fix d d' x assume ok: "registry_ok d" and run: "promote_context U fault now i d = (d', x)"
  let ?seat = "\<lambda>r. r\<lparr>cr_promoted_at := Some now, cr_demoted_at := None\<rparr>"
  let ?revive = "\<lambda>r. r\<lparr>cr_archived_at := None, cr_promoted_at := Some now, cr_demoted_at := None\<rparr>"
  show "registry_ok d'"
  proof (rule after_read [OF ok run [unfolded promote_context_def]])
    fix r assume only: "\<And>s. s \<in> set (cd_contexts d) \<Longrightarrow> cr_context_id s = i \<Longrightarrow> s = r"
      and ok1: "registry_ok (called d)"
      and rest: "(if cr_archived_at (read_row (called d) r) = None \<and> cr_promoted_at (read_row (called d) r) \<noteq> None
        then dret AlreadyPromoted
        else dbind (sql fault (\<lambda>d. (d, Inr (length (filter seated (cd_contexts d)))))) (\<lambda>active_count.
           if ACTIVE_RING_CAPACITY \<le> active_count then dfail ring_full
           else if cr_archived_at (read_row (called d) r) \<noteq> None
           then dbind (update_rows fault i (\<lambda>_. True) ?revive) (\<lambda>_. dret (Resurrected (cr_concluded_at (read_row (called d) r) \<noteq> None)))
           else dbind (update_rows fault i (\<lambda>r. cr_promoted_at r = None) ?seat) (\<lambda>_. dret Promoted))) (called d) = (d', x)"
    have ok2: "registry_ok (called (called d))" using ok1 registry.inv_called by simp
    have seats2: "seats (called (called d)) = length (filter seated (cd_contexts d))" by (simp add: seats_def)
    consider "d' = called d" | "d' = called (called d)"
      | "seats (called (called d)) < ACTIVE_RING_CAPACITY"
        "\<exists>y. update_rows fault i (\<lambda>_. True) ?revive (called (called d)) = (d', y)"
      | "seats (called (called d)) < ACTIVE_RING_CAPACITY" "cr_archived_at r = None"
        "\<exists>y. update_rows fault i (\<lambda>r. cr_promoted_at r = None) ?seat (called (called d)) = (d', y)"
      using rest unfolding seats2
      by (auto simp: not_le dest!: after_query dbind_dret_fst split: if_splits)
    then show "registry_ok d'"
    proof cases
      case 3
      then obtain y where "update_rows fault i (\<lambda>_. True) ?revive (called (called d)) = (d', y)" by blast
      then show ?thesis by (rule registry_ok_promoted [OF ok2]) (use 3 in \<open>simp_all add: placed_def\<close>)
    next
      case 4
      then obtain y where "update_rows fault i (\<lambda>r. cr_promoted_at r = None) ?seat (called (called d)) = (d', y)" by blast
      then show ?thesis by (rule registry_ok_promoted [OF ok2]) (use 4 only in \<open>auto simp: placed_def\<close>)
    qed (use ok1 ok2 in simp_all)
  qed
qed

subsection \<open>Insertions and deletions\<close>

text \<open>A row as its callers make it: open, without a seat, and not its own parent.\<close>

definition fresh_row :: "ContextRow \<Rightarrow> bool" where
  "fresh_row r \<longleftrightarrow> cr_archived_at r = None \<and> cr_promoted_at r = None \<and> cr_demoted_at r = None \<and> cr_forked_from r \<noteq> Some (cr_context_id r)"

lemma parents_earlier_append:
  "parents_earlier seen (rs @ [r]) \<longleftrightarrow> parents_earlier seen rs \<and>
     (case cr_forked_from r of None \<Rightarrow> True | Some p \<Rightarrow> p \<in> seen \<union> cr_context_id ` set rs)"
  by (induction rs arbitrary: seen) (auto split: option.splits)

lemma registry_document: "preserves registry_ok (insert_document_or_ignore fault row)"
  unfolding insert_document_or_ignore_def
  by (rule registry_same) (auto simp: same_registry_def Let_def split: if_splits)

lemma write_row_ok:
  assumes ok: "registry_ok d" and fresh: "fresh_row row" and new: "\<not> context_exists d (cr_context_id row)"
    and label: "\<not> label_taken d (cr_context_id row) (cr_label row)" and refs: "references_ok d row"
  shows "registry_ok (d\<lparr>cd_contexts := cd_contexts d @ [row],
    cd_base := (cd_base d)\<lparr>kd_activity := (kd_activity (cd_base d))(cr_context_id row \<mapsto> cr_last_activity_at row)\<rparr>\<rparr>)"
    (is "registry_ok ?d")
proof -
  have "cr_label row \<noteq> None \<Longrightarrow> r \<in> set (cd_contexts d) \<Longrightarrow> cr_label r \<noteq> cr_label row" for r
    using label new unfolding label_taken_def context_exists_def by (metis image_eqI)
  then have "labels_unique (cd_contexts d @ [row])"
    using ok by (intro labels_unique_snoc) (simp_all add: registry_ok_def keys_ok_def)
  then have "keys_ok ?d"
    using ok new refs by (auto simp: registry_ok_def keys_ok_def context_exists_def references_ok_def document_exists_def)
  moreover have "parents_earlier {} (cd_contexts ?d)"
    using ok refs fresh
    by (auto simp: registry_ok_def parents_earlier_append references_ok_def context_exists_def fresh_row_def split: option.splits)
  moreover have "edges_ok ?d" using ok by (auto simp: registry_ok_def edges_ok_def context_exists_def)
  moreover have "ring_ok ?d"
    using ok fresh by (auto simp: registry_ok_def ring_ok_def seats_def fresh_row_def placed_def seated_def)
  ultimately show ?thesis by (simp add: registry_ok_def)
qed

lemma registry_write_context:
  assumes "fresh_row row"
  shows "preserves registry_ok (write_context fault row)"
  unfolding write_context_def
proof (intro registry_kept registry_validate_label registry.preserves_sql)
  fix d d' x assume "registry_ok d" and
    "(if context_exists d (cr_context_id row) \<or> label_taken d (cr_context_id row) (cr_label row)
       then (d, Inl (case cr_label row of
                       Some l \<Rightarrow> LabelConflict (quoted_use ''label'' l)
                     | None \<Rightarrow> KernelDbError.Db ''UNIQUE constraint failed: contexts.context_id''))
       else if \<not> references_ok d row
       then (d, Inl (case cr_label row of
                       Some _ \<Rightarrow> KernelDbError.Validation ''FOREIGN KEY constraint failed'' | None \<Rightarrow> foreign_key))
       else
         (d\<lparr>cd_contexts := cd_contexts d @ [row],
            cd_base := (cd_base d)\<lparr>kd_activity := (kd_activity (cd_base d))(cr_context_id row \<mapsto> cr_last_activity_at row)\<rparr>\<rparr>,
          Inr ())) = (d', x)"
  then show "registry_ok d'" using write_row_ok [OF _ assms] by (auto split: if_splits)
qed

lemma registry_insert_context: "fresh_row row \<Longrightarrow> preserves registry_ok (insert_context fault row)"
  by (simp add: insert_context_def registry_write_context)

lemma registry_insert_with_document: "fresh_row row \<Longrightarrow> preserves registry_ok (insert_context_with_document fault row ws)"
  unfolding insert_context_with_document_def by (intro registry_kept registry_document registry_insert_context)

lemma registry_relabel:
  assumes ok: "registry_ok d" and free: "\<not> (context_exists d i \<and> label_taken d i label)"
  shows "registry_ok (d\<lparr>cd_contexts := map (\<lambda>r. if cr_context_id r = i then r\<lparr>cr_label := label\<rparr> else r) (cd_contexts d)\<rparr>)"
    (is "registry_ok (d\<lparr>cd_contexts := map ?f _\<rparr>)")
proof -
  have ids: "map cr_context_id (map ?f rs) = map cr_context_id rs" for rs by (induction rs) auto
  have same: "placed (?f r) = placed r" "seated (?f r) = seated r" for r by (simp_all add: placement_unchanged)
  have labels: "cr_context_id r = cr_context_id s"
    if "r \<in> set (cd_contexts d)" "s \<in> set (cd_contexts d)" "cr_label (?f r) \<noteq> None" "cr_label (?f r) = cr_label (?f s)" for r s
  proof (cases "cr_context_id r = i \<or> cr_context_id s = i")
    case True
    then have "context_exists d i" using that(1,2) by (auto simp: context_exists_def)
    then have other: "t \<in> set (cd_contexts d) \<Longrightarrow> cr_context_id t \<noteq> i \<Longrightarrow> label \<noteq> None \<Longrightarrow> cr_label t \<noteq> label" for t
      using free unfolding label_taken_def by blast
    show ?thesis
    proof (rule ccontr)
      assume "cr_context_id r \<noteq> cr_context_id s"
      then consider "cr_context_id r = i" "cr_context_id s \<noteq> i" | "cr_context_id s = i" "cr_context_id r \<noteq> i"
        using True by auto
      then show False by cases (use other [OF that(1)] other [OF that(2)] that(3,4) in simp_all)
    qed
  next
    case False
    then have "cr_label r \<noteq> None" "cr_label r = cr_label s" using that(3,4) by simp_all
    then show ?thesis using ok that(1,2) unfolding registry_ok_def keys_ok_def by (blast dest: labels_uniqueD)
  qed
  have "labels_unique (map ?f (cd_contexts d))"
  proof (rule labels_uniqueI)
    fix r s assume "r \<in> set (map ?f (cd_contexts d))" "s \<in> set (map ?f (cd_contexts d))" and *: "cr_label r \<noteq> None" "cr_label r = cr_label s"
    then obtain r0 s0 where r0: "r = ?f r0" "r0 \<in> set (cd_contexts d)" and s0: "s = ?f s0" "s0 \<in> set (cd_contexts d)"
      by (simp only: set_map) blast
    have "cr_context_id r0 = cr_context_id s0" by (rule labels [OF r0(2) s0(2) *(1) [unfolded r0(1)] *(2) [unfolded r0(1) s0(1)]])
    then show "cr_context_id r = cr_context_id s" by (simp add: r0 s0)
  qed
  then have "keys_ok (d\<lparr>cd_contexts := map ?f (cd_contexts d)\<rparr>)"
    using ok arg_cong [OF ids [of "cd_contexts d"], of distinct] by (auto simp: registry_ok_def keys_ok_def)
  moreover have "parents_earlier {} (map ?f (cd_contexts d))"
    using ok parents_earlier_map [of ?f] by (simp add: registry_ok_def)
  moreover have "context_exists (d\<lparr>cd_contexts := map ?f (cd_contexts d)\<rparr>) j = context_exists d j" for j
    by (simp only: context_exists_update context_exists_ids [of d] ids)
  moreover have "length (filter seated (map ?f rs)) = length (filter seated rs)" for rs
    by (induction rs) (auto simp: placement_unchanged)
  moreover have "\<forall>r \<in> set (map ?f (cd_contexts d)). placed r"
    using ok by (auto simp: registry_ok_def ring_ok_def placement_unchanged)
  ultimately show ?thesis
    using ok by (simp add: registry_ok_def edges_ok_def ring_ok_def seats_def del: length_filter_map set_map)
qed

lemma registry_update_label: "preserves registry_ok (update_label U fault i label)"
  unfolding update_label_def
  by (intro registry_kept registry_validate_label registry.preserves_sql)
    (auto dest: registry_relabel split: if_splits)

text \<open>Edges.\<close>

lemma registry_edges:
  assumes "registry_ok d" and "edges_ok (d\<lparr>cd_edges := es\<rparr>)"
  shows "registry_ok (d\<lparr>cd_edges := es\<rparr>)"
  using assms by (simp add: registry_ok_def keys_ok_def ring_ok_def seats_def)

lemma registry_filter_edges:
  assumes ok: "registry_ok d"
  shows "registry_ok (d\<lparr>cd_edges := filter P (cd_edges d)\<rparr>)"
proof (rule registry_edges [OF ok])
  have "acyclic (structural (filter P (cd_edges d)))"
    using ok acyclic_subset [OF _ structural_filter] by (auto simp: registry_ok_def edges_ok_def)
  then show "edges_ok (d\<lparr>cd_edges := filter P (cd_edges d)\<rparr>)"
    using ok by (auto simp: registry_ok_def edges_ok_def context_exists_def distinct_map_filter)
qed

lemma registry_delete_structural_edge: "preserves registry_ok (delete_structural_edge fault a b)"
  unfolding delete_structural_edge_def by (rule registry.preserves_sql) (auto simp: Let_def intro: registry_filter_edges)

lemma registry_delete_drift_edge: "preserves registry_ok (delete_drift_edge fault e)"
  unfolding delete_drift_edge_def by (rule registry.preserves_sql) (auto simp: Let_def intro: registry_filter_edges)

lemma cycle_walk_same: "cycle_walk fault source stack visited d = (d', x) \<Longrightarrow> same_registry d d'"
  by (auto simp: same_registry_def dest: cycle_walk_edges)

lemma would_create_cycle_same: "would_create_cycle fault source target d = (d', x) \<Longrightarrow> same_registry d d'"
  using cycle_walk_same [of fault source "[target]" "{}" d d' x]
  by (cases "source = target") (simp_all add: would_create_cycle_def same_registry_def del: cycle_walk.simps)

lemma registry_insert_edge: "preserves registry_ok (insert_edge U fault row)"
proof (rule preservesI)
  fix d d' x assume ok: "registry_ok d" and run: "insert_edge U fault row d = (d', x)"
  show "registry_ok d'"
    using run unfolding insert_edge_def
  proof (cases rule: dbind_eqE)
    case (1 e)
    then have "same_registry d d'" by (auto dest: would_create_cycle_same split: if_splits)
    with ok show ?thesis by (rule same_registry_ok)
  next
    case (2 cycle d1)
    then have same: "same_registry d d1"
      by (cases "er_kind row = EdgeKind.Structural") (simp_all add: would_create_cycle_same, simp add: same_registry_def)
    then have ok1: "registry_ok d1" by (rule same_registry_ok [OF ok])
    show ?thesis
    proof (cases "d' = called d1 \<or> d' = d1")
      case True
      with ok1 registry.inv_called show ?thesis by auto
    next
      case False
      with 2(2) have new: "\<not> cycle" "d' = (called d1)\<lparr>cd_edges := cd_edges d1 @ [row]\<rparr>"
        "er_edge_id row \<notin> er_edge_id ` set (cd_edges d1)"
        "context_exists d1 (er_source_id row)" "context_exists d1 (er_target_id row)"
        by (auto simp: context_exists_def elim!: sql_eqE split: if_splits)
      have "acyclic (structural (cd_edges d1 @ [row]))"
      proof (cases "er_kind row = EdgeKind.Structural")
        case True
        with 2(1) new(1) have "(er_target_id row, er_source_id row) \<notin> (structural (cd_edges d))\<^sup>*"
          using would_create_cycle_spec [of fault "er_source_id row" "er_target_id row" d d1 cycle] by simp
        then show ?thesis
          using True same ok1 by (simp add: same_registry_def registry_ok_def edges_ok_def acyclic_insert_iff_new)
      qed (use ok1 in \<open>simp add: registry_ok_def edges_ok_def\<close>)
      then show ?thesis
        unfolding new(2) using ok1 new(3-5) registry.inv_called
        by (intro registry_edges) (auto simp: registry_ok_def edges_ok_def context_exists_def)
    qed
  qed
qed

text \<open>A dropped context leaves no reference to it behind.\<close>

lemma parents_earlier_drop:
  "parents_earlier seen rs \<Longrightarrow> parents_earlier (seen - {i})
     (map (\<lambda>r. if cr_forked_from r = Some i then r\<lparr>cr_forked_from := None\<rparr> else r) (filter (\<lambda>r. cr_context_id r \<noteq> i) rs))"
proof (induction rs arbitrary: seen)
  case (Cons r rs)
  then show ?case
    using Cons.IH [of "insert (cr_context_id r) seen"]
    by (cases "cr_context_id r = i") (auto simp: insert_Diff_if split: option.splits)
qed simp

lemma drop_context_rows:
  "set (cd_contexts (drop_context i d)) \<subseteq> (\<lambda>r. if cr_forked_from r = Some i then r\<lparr>cr_forked_from := None\<rparr> else r) ` set (cd_contexts d)"
  by (auto simp: drop_context_def)

lemma drop_context_exists: "context_exists (drop_context i d) j \<longleftrightarrow> context_exists d j \<and> j \<noteq> i"
proof -
  have "map cr_context_id (map (\<lambda>r. if cr_forked_from r = Some i then r\<lparr>cr_forked_from := None\<rparr> else r) rs) = map cr_context_id rs" for rs
    by (induction rs) auto
  then show ?thesis by (auto simp only: context_exists_ids drop_context_def ContextDb.simps) auto
qed

lemma registry_drop:
  assumes ok: "registry_ok d" and docs: "\<And>j. j \<noteq> i \<Longrightarrow> document_exists (cd_base d) j \<Longrightarrow> document_exists (cd_base d') j"
    and d': "cd_contexts d' = cd_contexts d" "cd_edges d' = cd_edges d"
  shows "registry_ok (drop_context i d')"
proof -
  let ?f = "\<lambda>r. if cr_forked_from r = Some i then r\<lparr>cr_forked_from := None\<rparr> else r"
  let ?rs = "filter (\<lambda>r. cr_context_id r \<noteq> i) (cd_contexts d)"
  have rows: "cd_contexts (drop_context i d') = map ?f ?rs" by (simp add: drop_context_def d')
  have keep: "cr_context_id (?f r) = cr_context_id r" "cr_label (?f r) = cr_label r" "placed (?f r) = placed r" "seated (?f r) = seated r" for r
    by (simp_all add: placement_unchanged)
  have "labels_unique (cd_contexts d)" using ok by (simp add: registry_ok_def keys_ok_def)
  then have "labels_unique (map ?f ?rs)"
    unfolding labels_unique_map [of ?f ?rs, OF keep(1,2)] by (rule_tac labels_uniqueI) (auto dest: labels_uniqueD)
  moreover have "distinct (map cr_context_id (map ?f ?rs))"
    using ok by (simp add: registry_ok_def keys_ok_def distinct_map_filter keep(1) o_def)
  moreover have "document_exists (cd_base (drop_context i d')) (cr_context_id r)" if "r \<in> set (map ?f ?rs)" for r
    using that ok docs by (auto simp: drop_context_def document_exists_def registry_ok_def keys_ok_def)
  moreover have "parents_earlier {} (map ?f ?rs)"
    using ok parents_earlier_drop [of "{}" "cd_contexts d" i] by (simp add: registry_ok_def)
  moreover have "edges_ok (drop_context i d')"
    using ok registry_filter_edges [OF ok, of "\<lambda>e. er_source_id e \<noteq> i \<and> er_target_id e \<noteq> i"]
    unfolding edges_ok_def drop_context_exists registry_ok_def by (auto simp: drop_context_def d' context_exists_def)
  moreover have "length (filter seated (map ?f (filter P rs))) \<le> length (filter seated rs)" for P rs
    by (induction rs) (auto simp: o_def keep(4) intro: le_SucI)
  moreover have "\<forall>r \<in> set (map ?f ?rs). placed r"
    using ok by (auto simp: registry_ok_def ring_ok_def placement_unchanged)
  ultimately show ?thesis
    using ok unfolding registry_ok_def keys_ok_def ring_ok_def seats_def rows by (meson order_trans)
qed

lemma registry_delete_context: "preserves registry_ok (delete_context fault i)"
  unfolding delete_context_def by (rule registry.preserves_sql) (auto intro: registry_drop)

lemma registry_delete_document: "preserves registry_ok (delete_document fault i)"
proof (rule preservesI)
  fix d d' x assume ok: "registry_ok d" and run: "delete_document fault i d = (d', x)"
  obtain b y where b: "delete_document_row fault i (cd_base d) = (b, y)" by fastforce
  show "registry_ok d'"
  proof (cases y)
    case (Inl e)
    with run b have "same_registry d d'"
      by (auto simp: delete_document_def delete_document_row_def db_call_def Let_def same_registry_def split: option.splits)
    with ok show ?thesis by (rule same_registry_ok)
  next
    case (Inr found)
    with run b have d': "d' = drop_context i (d\<lparr>cd_base := b\<rparr>)" by (simp add: delete_document_def)
    have "document_exists b j" if "j \<noteq> i" "document_exists (cd_base d) j" for j
      using that b Inr by (auto simp: delete_document_row_def db_call_def Let_def document_exists_def split: option.splits)
    then show ?thesis unfolding d' by (intro registry_drop [OF ok]) simp_all
  qed
qed

text \<open>Workspaces and presets.\<close>

lemma registry_workspaces:
  "preserves registry_ok (insert_workspace fault w)"
  "preserves registry_ok (archive_workspace fault now wi)"
  "preserves registry_ok (insert_workspace_path fault wp)"
  "preserves registry_ok (delete_workspace_path fault wi path)"
  "preserves registry_ok (insert_preset fault pr)"
  "preserves registry_ok (update_preset sh fault pr)"
  "preserves registry_ok (set_preset_args fault pi verb args)"
  unfolding insert_workspace_def archive_workspace_def insert_workspace_path_def delete_workspace_path_def
    insert_preset_def update_preset_def set_preset_args_def
  by (intro registry_kept registry_validate_label registry_same; auto simp: same_registry_def Let_def split: if_splits)+

lemma registry_delete_preset: "preserves registry_ok (delete_preset fault pi)"
proof -
  let ?f = "\<lambda>r. if cr_preset_id r = Some pi then r\<lparr>cr_preset_id := None\<rparr> else r"
  have "registry_ok (d\<lparr>cd_contexts := map ?f (cd_contexts d)\<rparr>)" if ok: "registry_ok d" for d
  proof -
    have "length (filter seated (map ?f rs)) = length (filter seated rs)" for rs
      by (induction rs) (auto simp: placement_unchanged)
    then have "registry_ok ((called d)\<lparr>cd_contexts := map ?f (cd_contexts d)\<rparr>)"
      using ok by (intro registry_ok_map [OF ok]) (auto simp: registry_ok_def ring_ok_def seats_def placement_unchanged)
    then show ?thesis by (rule same_registry_ok) (simp add: same_registry_def)
  qed
  then have "registry_ok (d\<lparr>cd_presets := ps, cd_preset_args := as, cd_contexts := map ?f (cd_contexts d)\<rparr>)"
    if "registry_ok d" for d ps as
    by (rule same_registry_ok) (use that in \<open>auto simp: same_registry_def\<close>)
  then show ?thesis unfolding delete_preset_def by (intro registry.preserves_sql) auto
qed

end
