(* ===== verification/Context_Registry.thy ===== *)
theory Context_Registry
  imports Context_Props
begin

text \<open>
  The properties of the context registry: the invariant of every run, the recursive queries, the
  placement ladder as a refinement, and what a failed insertion leaves behind.
\<close>

section \<open>Runs\<close>

inductive registry_step :: "uuid_lib \<Rightarrow> fault \<Rightarrow> ContextDb \<Rightarrow> ContextDb \<Rightarrow> bool" for U fault where
  query: "registry_step U fault d (fst (sql fault (\<lambda>d. (d, Inr ())) d))"
| document: "registry_step U fault d (fst (insert_document_or_ignore fault doc d))"
| context_row: "fresh_row row \<Longrightarrow> registry_step U fault d (fst (insert_context fault row d))"
| context_with_document: "fresh_row row \<Longrightarrow> registry_step U fault d (fst (insert_context_with_document fault row ws d))"
| label: "registry_step U fault d (fst (update_label U fault i l d))"
| model: "registry_step U fault d (fst (update_model U fault i p m d))"
| settings: "registry_step U fault d (fst (update_settings U fault i p c d))"
| context_type: "registry_step U fault d (fst (update_context_type U fault i t d))"
| workspace_of: "registry_step U fault d (fst (update_workspace U fault i w d))"
| archive: "registry_step U fault d (fst (archive_context fault now i d))"
| state: "registry_step U fault d (fst (update_context_state fault i st d))"
| conclude: "registry_step U fault d (fst (conclude_context fault now i d))"
| promote: "registry_step U fault d (fst (promote_context U fault now i d))"
| demote: "registry_step U fault d (fst (demote_context U fault now i d))"
| pause: "registry_step U fault d (fst (set_context_paused U fault now i pz d))"
| edge: "registry_step U fault d (fst (insert_edge U fault e d))"
| unlink: "registry_step U fault d (fst (delete_structural_edge fault i j d))"
| undrift: "registry_step U fault d (fst (delete_drift_edge fault ei d))"
| remove: "registry_step U fault d (fst (delete_context fault i d))"
| remove_document: "registry_step U fault d (fst (delete_document fault i d))"
| workspace: "registry_step U fault d (fst (insert_workspace fault wr d))"
| workspace_gone: "registry_step U fault d (fst (archive_workspace fault now wi d))"
| path: "registry_step U fault d (fst (insert_workspace_path fault wp d))"
| path_gone: "registry_step U fault d (fst (delete_workspace_path fault wi pth d))"
| preset: "registry_step U fault d (fst (insert_preset fault pr d))"
| preset_row: "registry_step U fault d (fst (update_preset sh fault pr d))"
| preset_gone: "registry_step U fault d (fst (delete_preset fault pi d))"
| preset_args: "registry_step U fault d (fst (set_preset_args fault pi v args d))"

definition registry_start :: ContextDb where
  "registry_start =
     \<lparr>cd_base = \<lparr>kd_workspaces = {}, kd_documents = [], kd_oplog = [], kd_snapshots = [], kd_activity = Map.empty, kd_calls = 0\<rparr>,
      cd_contexts = [], cd_edges = [], cd_workspaces = [], cd_workspace_paths = [], cd_presets = [], cd_preset_args = []\<rparr>"

lemma registry_ok_start: "registry_ok registry_start"
  by (simp add: registry_ok_def keys_ok_def labels_unique_def edges_ok_def ring_ok_def seats_def registry_start_def acyclic_def)

lemmas registry_preserved = registry.preserves_query registry_document registry_insert_context
  registry_insert_with_document registry_update_label registry_update_model registry_update_settings
  registry_update_context_type registry_update_workspace registry_archive registry_update_state
  registry_conclude registry_promote registry_demote registry_paused registry_insert_edge
  registry_delete_structural_edge registry_delete_drift_edge registry_delete_context
  registry_delete_document registry_workspaces registry_delete_preset

lemma registry_step_ok: "registry_step U fault d d' \<Longrightarrow> registry_ok d \<Longrightarrow> registry_ok d'"
  by (induction rule: registry_step.induct) (simp_all add: preserves_fst registry_preserved)

interpretation registry_runs: invariant_system "registry_step U fault" registry_ok for U fault
  by unfold_locales (rule registry_step_ok)

definition table_position :: "ContextRow list \<Rightarrow> ContextId \<Rightarrow> nat" where
  "table_position rs i = length (takeWhile (\<lambda>r. cr_context_id r \<noteq> i) rs)"

lemma table_position_snoc:
  "i \<in> cr_context_id ` set rs \<Longrightarrow> table_position (rs @ [r]) i = table_position rs i \<and> table_position rs i < length rs"
  by (induction rs) (auto simp: table_position_def)

lemma parent_earlier:
  assumes "parents_earlier {} rs" and "distinct (map cr_context_id rs)" and "r \<in> set rs" and "cr_forked_from r = Some p"
  shows "p \<in> cr_context_id ` set rs \<and> table_position rs p < table_position rs (cr_context_id r)"
  using assms
proof (induction rs rule: rev_induct)
  case (snoc s rs)
  show ?case
  proof (cases "r = s")
    case True
    then have p: "p \<in> cr_context_id ` set rs" using snoc.prems by (simp add: parents_earlier_append)
    have "table_position (rs @ [s]) (cr_context_id s) = length rs"
      using snoc.prems(2) unfolding table_position_def by (subst takeWhile_append2) (auto, metis image_eqI)
    with p True show ?thesis using table_position_snoc [OF p, of s] by simp
  next
    case False
    then have "r \<in> set rs" using snoc.prems by simp
    moreover from this have IH: "p \<in> cr_context_id ` set rs \<and> table_position rs p < table_position rs (cr_context_id r)"
      using snoc by (auto simp: parents_earlier_append)
    ultimately show ?thesis using table_position_snoc [of p rs s] table_position_snoc [of "cr_context_id r" rs s] by auto
  qed
qed simp

text \<open>
  C9: Whatever sequence of operations runs, and whichever statements SQLite fails, the registry keeps:
  no two contexts share an identifier or a label, every context has its document row, the parent of a
  fork exists and stands before it in the table, the structural edges join existing contexts and have no
  cycle, the two ring stamps exclude each other and an archived context has neither, and at most ten
  contexts hold a seat.  Rows are inserted as the callers build them (\<open>fresh_row\<close>): with no promotion,
  demotion or archive stamp, and not as their own parent; \<open>write_context\<close> itself checks none of this.
\<close>

theorem registry_invariant:
  assumes "(registry_step U fault)\<^sup>*\<^sup>* registry_start d"
  shows "distinct (map cr_context_id (cd_contexts d)) \<and> labels_unique (cd_contexts d)
    \<and> (\<forall>r \<in> set (cd_contexts d). document_exists (cd_base d) (cr_context_id r) \<and> placed r
        \<and> (\<forall>p. cr_forked_from r = Some p \<longrightarrow> context_exists d p
             \<and> table_position (cd_contexts d) p < table_position (cd_contexts d) (cr_context_id r)))
    \<and> acyclic (structural (cd_edges d))
    \<and> (\<forall>e \<in> set (cd_edges d). context_exists d (er_source_id e) \<and> context_exists d (er_target_id e))
    \<and> seats d \<le> 10"
proof -
  have ok: "registry_ok d" by (rule registry_runs.run_inv [OF assms registry_ok_start])
  then have "\<forall>r \<in> set (cd_contexts d). \<forall>p. cr_forked_from r = Some p \<longrightarrow> context_exists d p
      \<and> table_position (cd_contexts d) p < table_position (cd_contexts d) (cr_context_id r)"
    using parent_earlier by (simp add: registry_ok_def keys_ok_def context_exists_def)
  with ok show ?thesis
    by (auto simp: registry_ok_def keys_ok_def edges_ok_def ring_ok_def ACTIVE_RING_CAPACITY_def)
qed

section \<open>Recursive queries\<close>

lemma structural_rank:
  assumes "registry_ok d" and "y \<in> set (structural_targets (cd_edges d) x)"
  shows "card ((structural (cd_edges d))\<^sup>+ `` {y}) < card ((structural (cd_edges d))\<^sup>+ `` {x})"
proof (rule psubset_card_mono)
  let ?R = "structural (cd_edges d)"
  have step: "(x, y) \<in> ?R" using assms(2) by (simp add: set_structural_targets)
  have "finite (?R\<^sup>+)" by (simp add: finite_structural finite_trancl)
  then show "finite (?R\<^sup>+ `` {x})" by (rule finite_Image)
  have "(y, y) \<notin> ?R\<^sup>+" using assms(1) by (simp add: registry_ok_def edges_ok_def acyclic_def)
  then show "?R\<^sup>+ `` {y} \<subset> ?R\<^sup>+ `` {x}" using step by (auto intro: trancl_into_trancl2)
qed

lemma parent_rank:
  assumes "registry_ok d" and "y \<in> set (fork_parent d x)"
  shows "table_position (cd_contexts d) y < table_position (cd_contexts d) x"
proof -
  obtain r where "r \<in> set (cd_contexts d)" "cr_context_id r = x" "cr_forked_from r = Some y"
    using assms(2) by (auto simp: fork_parent_def map_filter_def split: if_splits)
  then show ?thesis using parent_earlier assms(1) by (auto simp: registry_ok_def keys_ok_def)
qed

lemma walk_query_returns:
  assumes "\<And>x y. y \<in> set (next (called d) x) \<Longrightarrow> rank y < (rank x :: nat)"
  shows "walk_query fault next start d \<noteq> None"
proof (cases "fault (kd_calls (cd_base d))")
  case None
  obtain walk where "cte (next (called d)) 0 (start (called d)) = Some walk" by (rule cte_returns [OF assms])
  with None show ?thesis by (simp add: walk_query_def sql_eq)
qed (simp add: walk_query_def sql_eq)

text \<open>
  C10: The recursive queries return: on every registry that operations can produce, the walk over the
  structural edges from the roots or from any context, and the walk up the fork parents, end; on a
  cycle SQLite's recursion would not.
\<close>

theorem recursive_queries_return:
  assumes "(registry_step U fault)\<^sup>*\<^sup>* registry_start d"
  shows "context_dag fault' d \<noteq> None \<and> subtree_snapshot fault' i d \<noteq> None \<and> fork_lineage fault' i d \<noteq> None"
proof -
  have "registry_ok d" by (rule registry_runs.run_inv [OF assms registry_ok_start])
  then have ok: "registry_ok (called d)" by (rule registry.inv_called)
  have "context_dag fault' d \<noteq> None"
    unfolding context_dag_def
    by (rule walk_query_returns [where rank = "\<lambda>x. card ((structural (cd_edges (called d)))\<^sup>+ `` {x})"])
      (use structural_rank [OF ok] in auto)
  moreover have "subtree_snapshot fault' i d \<noteq> None"
    unfolding subtree_snapshot_def by (rule walk_query_returns [OF structural_rank [OF ok]])
  moreover have "fork_lineage fault' i d \<noteq> None"
    unfolding fork_lineage_def by (rule walk_query_returns [OF parent_rank [OF ok]])
  ultimately show ?thesis by blast
qed

lemma joined_ids:
  "set (map (\<lambda>(r, k). (cr_context_id r, k)) (joined d walk)) = {(i, k) \<in> set walk. context_exists d i}"
  by (force simp: joined_def context_rows_def context_exists_def image_iff)

text \<open>
  A subtree snapshot that SQLite does not fail lists exactly the contexts that structural edges
  reach from the root, each with the lengths of the paths to it.
\<close>

theorem subtree_snapshot_spec:
  assumes "(registry_step U fault)\<^sup>*\<^sup>* registry_start d" and "fault' (kd_calls (cd_base d)) = None"
  shows "\<exists>rows. subtree_snapshot fault' i d = Some (called d, Inr rows) \<and>
    set (map (\<lambda>(r, k). (cr_context_id r, k)) rows)
      = {(j, k). (i, j) \<in> structural (cd_edges d) ^^ k \<and> context_exists d j}"
proof -
  have "registry_ok d" by (rule registry_runs.run_inv [OF assms(1) registry_ok_start])
  then have ok: "registry_ok (called d)" by (rule registry.inv_called)
  have steps: "steps_of (structural_targets (cd_edges d)) = structural (cd_edges d)"
    by (auto simp: steps_of_def set_structural_targets)
  obtain walk where walk: "cte (structural_targets (cd_edges (called d))) 0 [i] = Some walk"
    "set walk = {(y, 0 + k) |x y k. x \<in> set [i] \<and> (x, y) \<in> steps_of (structural_targets (cd_edges (called d))) ^^ k}"
    by (rule cte_returns [OF structural_rank [OF ok]])
  have "subtree_snapshot fault' i d = Some (called d, Inr (joined (called d) walk))"
    using walk(1) assms(2) by (simp add: subtree_snapshot_def walk_query_def sql_eq)
  moreover have "set (map (\<lambda>(r, k). (cr_context_id r, k)) (joined (called d) walk))
      = {(j, k). (i, j) \<in> structural (cd_edges d) ^^ k \<and> context_exists d j}"
    unfolding joined_ids walk(2) by (auto simp: steps context_exists_def)
  ultimately show ?thesis by blast
qed

section \<open>Placement\<close>

text \<open>
  The abstract view of the ring: where each context stands.  Demotion moves a context one step
  outward; promotion seats it while there is a free seat.
\<close>

datatype Placement = Seat | Automatic | DemotedRing | OffRing

definition placement :: "ContextRow \<Rightarrow> Placement" where
  "placement r =
     (if cr_archived_at r \<noteq> None then OffRing else if cr_demoted_at r \<noteq> None then DemotedRing
      else if cr_promoted_at r \<noteq> None then Seat else Automatic)"

definition placements :: "ContextDb \<Rightarrow> ContextId \<rightharpoonup> Placement" where
  "placements d = map_of (map (\<lambda>r. (cr_context_id r, placement r)) (cd_contexts d))"

fun outward :: "Placement \<Rightarrow> Placement" where
  "outward Seat = Automatic"
| "outward Automatic = DemotedRing"
| "outward DemotedRing = OffRing"
| "outward OffRing = OffRing"

fun demote_outcome :: "Placement \<Rightarrow> DemoteOutcome" where
  "demote_outcome Seat = Unpromoted"
| "demote_outcome Automatic = Demoted"
| "demote_outcome DemotedRing = DemoteOutcome.Archived"
| "demote_outcome OffRing = DemoteOutcome.Archived"

lemma placement_row:
  assumes "registry_ok d" and "placements d i = Some p"
  obtains r where "r \<in> set (cd_contexts d)" "cr_context_id r = i" "placement r = p" "placed r"
  using assms that by (auto simp: placements_def registry_ok_def ring_ok_def dest!: map_of_SomeD)

lemma placements_update:
  assumes ok: "registry_ok d" and r: "r \<in> set (cd_contexts d)" "cr_context_id r = i" "p r"
    and keep: "\<And>r. cr_context_id (f r) = cr_context_id r"
  shows "placements (d'\<lparr>cd_contexts := map (\<lambda>r. if cr_context_id r = i \<and> p r then f r else r) (cd_contexts d)\<rparr>)
    = (placements d)(i \<mapsto> placement (f r))"
proof -
  have "map_of (map (\<lambda>r. (cr_context_id r, placement r)) (map (\<lambda>r. if cr_context_id r = i \<and> p r then f r else r) rs))
      = (map_of (map (\<lambda>r. (cr_context_id r, placement r)) rs))(i \<mapsto> placement (f r))"
    if "r \<in> set rs" "distinct (map cr_context_id rs)" for rs
    using that
  proof (induction rs)
    case (Cons s rs)
    show ?case
    proof (cases "s = r")
      case True
      have "map (\<lambda>r. if cr_context_id r = i \<and> p r then f r else r) rs = rs"
        using Cons.prems True r(2) by (intro map_idI) (auto, metis image_eqI)
      with True r keep show ?thesis by (simp add: fun_eq_iff)
    next
      case False
      then have "cr_context_id s \<noteq> i" using Cons.prems r(2) by auto
      with Cons False show ?thesis by (auto simp: fun_eq_iff)
    qed
  qed simp
  then show ?thesis using ok r(1) by (simp add: placements_def registry_ok_def keys_ok_def)
qed

lemma find_row:
  assumes "r \<in> set rs" and "distinct (map cr_context_id rs)"
  shows "List.find (\<lambda>s. cr_context_id s = cr_context_id r) (map (read_row d) rs) = Some (read_row d r)"
  using assms by (induction rs) auto

lemma get_context_found:
  assumes "registry_ok d" and "r \<in> set (cd_contexts d)" and "cr_context_id r = i" and "\<forall>n. fault n = None"
  shows "get_context_or_fail U fault i d = (called d, Inr (read_row (called d) r))"
proof -
  have "List.find (\<lambda>s. cr_context_id s = i) (context_rows (called d)) = Some (read_row (called d) r)"
    using assms find_row [of r "cd_contexts d"] by (auto simp: context_rows_def registry_ok_def keys_ok_def)
  then show ?thesis using assms(4) by (simp add: get_context_or_fail_def get_context_def dbind_def sql_eq)
qed

lemma update_rows_runs:
  "\<forall>n. fault n = None \<Longrightarrow> update_rows fault i p f d =
    ((called d)\<lparr>cd_contexts := map (\<lambda>r. if cr_context_id r = i \<and> p r then f r else r) (cd_contexts d)\<rparr>,
     Inr (length (filter (\<lambda>r. cr_context_id r = i \<and> p r) (cd_contexts d))))"
  by (simp add: update_rows_def sql_eq)

lemma update_moves:
  assumes ok: "registry_ok d" and fault: "\<forall>n. fault n = None" and r: "r \<in> set (cd_contexts d)" "cr_context_id r = i" "p r"
    and keep: "\<And>r. cr_context_id (f r) = cr_context_id r" and same: "cd_contexts d1 = cd_contexts d"
  obtains d' n where "update_rows fault i p f d1 = (d', Inr n)" "placements d' = (placements d)(i \<mapsto> placement (f r))"
  using that placements_update [where p = p and f = f, OF ok r keep, of "called d1"]
  by (simp add: update_rows_runs [OF fault] same)

lemma placements_called [simp]: "placements (called d) = placements d"
  by (simp add: placements_def)

lemma registry_reached: "(registry_step U fault)\<^sup>*\<^sup>* registry_start d \<Longrightarrow> registry_ok d"
  by (rule registry_runs.run_inv [OF _ registry_ok_start])

text \<open>
  Demotion refines the ladder of placements: on any reachable registry, demoting a context that
  is not archived moves it exactly one step outward (seat, automatic, demoted ring, archive), reports
  that step and moves no other context.
\<close>

theorem demote_refines:
  assumes "(registry_step U fault)\<^sup>*\<^sup>* registry_start d" and "\<forall>n. fault' n = None"
    and "placements d i = Some p" and "p \<noteq> OffRing"
  shows "\<exists>d'. demote_context U' fault' now i d = (d', Inr (demote_outcome p))
    \<and> placements d' = (placements d)(i \<mapsto> outward p)"
proof -
  have ok: "registry_ok d" using assms(1) by (rule registry_reached)
  obtain r where r: "r \<in> set (cd_contexts d)" "cr_context_id r = i" "placement r = p" "placed r"
    using placement_row [OF ok assms(3)] .
  have run: "demote_context U' fault' now i d = (if cr_archived_at r \<noteq> None then dfail (KernelDbError.Validation ''cannot demote an archived context'')
       else if cr_demoted_at r \<noteq> None
       then dbind (archive_context fault' now i) (\<lambda>_. dret DemoteOutcome.Archived)
       else if cr_promoted_at r \<noteq> None
       then dbind (update_rows fault' i (\<lambda>_. True) (\<lambda>r. r\<lparr>cr_promoted_at := None\<rparr>)) (\<lambda>_. dret Unpromoted)
       else dbind (update_rows fault' i (\<lambda>_. True) (\<lambda>r. r\<lparr>cr_demoted_at := Some now\<rparr>)) (\<lambda>_. dret Demoted)) (called d)"
    unfolding demote_context_def by (simp add: dbind_def [of "get_context_or_fail _ _ _"] get_context_found [OF ok r(1,2) assms(2)])
  have open_row: "cr_archived_at r = None" using r(3) assms(4) by (auto simp: placement_def split: if_splits)
  consider "cr_demoted_at r \<noteq> None" | "cr_demoted_at r = None" "cr_promoted_at r \<noteq> None"
    | "cr_demoted_at r = None" "cr_promoted_at r = None" by blast
  then show ?thesis
  proof cases
    case 1
    then have p: "p = DemotedRing" using r(3) open_row by (simp add: placement_def)
    obtain d' n where "update_rows fault' i (\<lambda>r. cr_archived_at r = None)
        (\<lambda>r. r\<lparr>cr_archived_at := Some now, cr_promoted_at := None, cr_demoted_at := None\<rparr>) (called d) = (d', Inr n)"
      "placements d' = (placements d)(i \<mapsto> OffRing)"
      by (rule update_moves [OF ok assms(2) r(1,2), of "\<lambda>r. cr_archived_at r = None"
            "\<lambda>r. r\<lparr>cr_archived_at := Some now, cr_promoted_at := None, cr_demoted_at := None\<rparr>" "called d"])
        (use open_row in \<open>simp_all add: placement_def\<close>)
    with 1 run open_row p show ?thesis by (simp add: archive_context_def dbind_def)
  next
    case 2
    then have p: "p = Seat" using r(3) open_row by (simp add: placement_def)
    obtain d' n where "update_rows fault' i (\<lambda>_. True) (\<lambda>r. r\<lparr>cr_promoted_at := None\<rparr>) (called d) = (d', Inr n)"
      "placements d' = (placements d)(i \<mapsto> Automatic)"
      by (rule update_moves [OF ok assms(2) r(1,2), of "\<lambda>_. True" "\<lambda>r. r\<lparr>cr_promoted_at := None\<rparr>" "called d"])
        (use 2 open_row in \<open>simp_all add: placement_def\<close>)
    with 2 run open_row p show ?thesis by (simp add: dbind_def)
  next
    case 3
    then have p: "p = Automatic" using r(3) open_row by (simp add: placement_def)
    obtain d' n where "update_rows fault' i (\<lambda>_. True) (\<lambda>r. r\<lparr>cr_demoted_at := Some now\<rparr>) (called d) = (d', Inr n)"
      "placements d' = (placements d)(i \<mapsto> DemotedRing)"
      by (rule update_moves [OF ok assms(2) r(1,2), of "\<lambda>_. True" "\<lambda>r. r\<lparr>cr_demoted_at := Some now\<rparr>" "called d"])
        (use 3 open_row in \<open>simp_all add: placement_def\<close>)
    with 3 run open_row p show ?thesis by (simp add: dbind_def)
  qed
qed

lemma promote_run:
  assumes ok: "registry_ok d" and fault: "\<forall>n. fault n = None" and r: "r \<in> set (cd_contexts d)" "cr_context_id r = i"
  shows "promote_context U fault now i d =
    (if cr_archived_at r = None \<and> cr_promoted_at r \<noteq> None then (called d, Inr AlreadyPromoted)
     else if ACTIVE_RING_CAPACITY \<le> seats d then (called (called d), Inl ring_full)
     else if cr_archived_at r \<noteq> None
     then dbind (update_rows fault i (\<lambda>_. True)
            (\<lambda>r. r\<lparr>cr_archived_at := None, cr_promoted_at := Some now, cr_demoted_at := None\<rparr>))
            (\<lambda>_. dret (Resurrected (cr_concluded_at r \<noteq> None))) (called (called d))
     else dbind (update_rows fault i (\<lambda>r. cr_promoted_at r = None)
            (\<lambda>r. r\<lparr>cr_promoted_at := Some now, cr_demoted_at := None\<rparr>)) (\<lambda>_. dret Promoted) (called (called d)))"
  unfolding promote_context_def
  by (simp add: dbind_def [of "get_context_or_fail _ _ _"] dbind_def [of "sql _ _"] get_context_found [OF ok r fault]
      sql_eq fault seats_def)

text \<open>
  Promotion seats a context on any reachable registry while a seat is free, wherever it stood
  before, an archived one included, and moves no other; with the ring full it fails and changes no
  row, so that no seat is ever taken from another context.
\<close>

theorem promote_refines:
  assumes "(registry_step U fault)\<^sup>*\<^sup>* registry_start d" and "\<forall>n. fault' n = None"
    and "placements d i = Some p" and "p \<noteq> Seat"
  shows "if seats d < 10
    then \<exists>d' x. promote_context U' fault' now i d = (d', Inr x) \<and> x \<noteq> AlreadyPromoted \<and> placements d' = (placements d)(i \<mapsto> Seat)
    else \<exists>d'. promote_context U' fault' now i d = (d', Inl ring_full) \<and> cd_contexts d' = cd_contexts d"
proof -
  have ok: "registry_ok d" using assms(1) by (rule registry_reached)
  obtain r where r: "r \<in> set (cd_contexts d)" "cr_context_id r = i" "placement r = p" "placed r"
    using placement_row [OF ok assms(3)] .
  note run = promote_run [OF ok assms(2) r(1,2), of U' now]
  have new: "\<not> (cr_archived_at r = None \<and> cr_promoted_at r \<noteq> None)"
    using r(3,4) assms(4) by (auto simp: placement_def placed_def split: if_splits)
  show ?thesis
  proof (cases "seats d < 10")
    case False
    then show ?thesis using run new by (simp add: ACTIVE_RING_CAPACITY_def)
  next
    case room: True
    show ?thesis
    proof (cases "cr_archived_at r = None")
      case True
      obtain d' n where "update_rows fault' i (\<lambda>r. cr_promoted_at r = None)
          (\<lambda>r. r\<lparr>cr_promoted_at := Some now, cr_demoted_at := None\<rparr>) (called (called d)) = (d', Inr n)"
        "placements d' = (placements d)(i \<mapsto> Seat)"
        by (rule update_moves [OF ok assms(2) r(1,2), of "\<lambda>r. cr_promoted_at r = None"
              "\<lambda>r. r\<lparr>cr_promoted_at := Some now, cr_demoted_at := None\<rparr>" "called (called d)"])
          (use new True in \<open>simp_all add: placement_def\<close>)
      with run new True room show ?thesis by (simp add: dbind_def ACTIVE_RING_CAPACITY_def)
    next
      case False
      obtain d' n where "update_rows fault' i (\<lambda>_. True)
          (\<lambda>r. r\<lparr>cr_archived_at := None, cr_promoted_at := Some now, cr_demoted_at := None\<rparr>) (called (called d)) = (d', Inr n)"
        "placements d' = (placements d)(i \<mapsto> Seat)"
        by (rule update_moves [OF ok assms(2) r(1,2), of "\<lambda>_. True"
              "\<lambda>r. r\<lparr>cr_archived_at := None, cr_promoted_at := Some now, cr_demoted_at := None\<rparr>" "called (called d)"])
          (simp_all add: placement_def)
      with run new False room show ?thesis by (simp add: dbind_def ACTIVE_RING_CAPACITY_def)
    qed
  qed
qed

section \<open>Failed insertions\<close>

text \<open>
  A context whose label is taken is refused, but the document row written before it stays: the
  two insertions are not one transaction, and the database is left with a conversation document that
  belongs to no context.
\<close>

theorem orphan_document:
  assumes "\<forall>n. fault n = None" and "cr_label row = Some l" and "l \<noteq> []" and "CHR 0x3A \<notin> set l"
    and "label_taken d (cr_context_id row) (Some l)" and "\<not> document_exists (cd_base d) (cr_context_id row)"
    and "dr_workspace_id (context_document ws row) \<in> kd_workspaces (cd_base d)" and "\<not> context_exists d (cr_context_id row)"
  shows "\<exists>d'. insert_context_with_document fault row ws d = (d', Inl (LabelConflict (quoted_use ''label'' l)))
    \<and> document_exists (cd_base d') (cr_context_id row) \<and> \<not> context_exists d' (cr_context_id row)"
  using assms
  by (simp add: insert_context_with_document_def insert_document_or_ignore_def insert_context_def write_context_def
      validate_label_def dbind_def sql_eq Let_def path_taken_def context_document_def document_exists_def
      label_taken_def context_exists_def)

section \<open>Workspace paths\<close>

lemma best_match_spec:
  assumes "\<forall>b. best = Some b \<longrightarrow> covers b path"
  shows "case best_match path best wps of
      None \<Rightarrow> best = None \<and> (\<forall>q \<in> set wps. \<not> covers q path)
    | Some wp \<Rightarrow> wp \<in> set_option best \<union> set wps \<and> covers wp path \<and>
        (\<forall>q \<in> set_option best \<union> set wps. covers q path \<longrightarrow> length (wp_path q) \<le> length (wp_path wp))"
  using assms
proof (induction wps arbitrary: best)
  case Nil
  then show ?case by (cases best) auto
next
  case (Cons wp wps)
  let ?best = "if covers wp path
        then (case best of
                None \<Rightarrow> Some wp
              | Some prev \<Rightarrow> if length (wp_path prev) < length (wp_path wp) then Some wp else Some prev)
        else best"
  have "\<forall>b. ?best = Some b \<longrightarrow> covers b path" using Cons.prems by (auto split: option.splits)
  from Cons.IH [OF this] Cons.prems show ?case
    by (cases best) (auto split: option.splits if_splits)
qed

definition workspace_rows :: "WorkspaceId \<Rightarrow> ContextDb \<Rightarrow> WorkspacePathRow set" where
  "workspace_rows w d = {q \<in> set (cd_workspace_paths d). wp_workspace_id q = w}"

text \<open>
  For a context bound to a workspace, a path is allowed exactly when one of the workspace's paths
  is the path itself or one of its parent directories; the longest such path decides whether it is
  read-only, and any other path is refused.
\<close>

theorem workspace_path_spec:
  assumes "(registry_step U fault)\<^sup>*\<^sup>* registry_start d" and "\<forall>n. fault' n = None"
    and "r \<in> set (cd_contexts d)" and "cr_workspace_id r = Some w"
  shows "case snd (check_workspace_path U' fault' (cr_context_id r) path d) of
      Inr x \<Rightarrow> \<exists>wp \<in> workspace_rows w d. x = Some (wp_read_only wp) \<and> covers wp path
        \<and> (\<forall>q \<in> workspace_rows w d. covers q path \<longrightarrow> length (wp_path q) \<le> length (wp_path wp))
    | Inl _ \<Rightarrow> \<forall>q \<in> workspace_rows w d. \<not> covers q path"
proof -
  have ok: "registry_ok d" using assms(1) by (rule registry_reached)
  define wps where "wps = sort_key wp_path (filter (\<lambda>p. wp_workspace_id p = w) (cd_workspace_paths d))"
  have "context_workspace_paths U' fault' (cr_context_id r) d = (called (called d), Inr (Some wps))"
    using assms(2,4) by (simp add: context_workspace_paths_def dbind_def get_context_found [OF ok assms(3) refl assms(2)]
        list_workspace_paths_def sql_eq wps_def)
  moreover have "set wps = workspace_rows w d" by (auto simp: wps_def workspace_rows_def)
  ultimately show ?thesis
    using best_match_spec [of None path wps] by (auto simp: check_workspace_path_def dbind_def split: option.splits)
qed

text \<open>
  A workspace path with a trailing slash grants nothing below it: the prefix that is compared has
  the slash twice.  In particular a workspace rooted at \<open>/\<close> refuses every file.
\<close>

theorem trailing_slash_covers_nothing:
  assumes "wp_path wp = p @ ''/''" and "covers wp path"
  shows "path = wp_path wp \<or> (\<exists>rest. path = p @ ''//'' @ rest)"
  using assms by (auto simp: covers_def starts_with_iff)

section \<open>A run\<close>

text \<open>A workspace with one path, and a labelled context in it.\<close>

abbreviation no_fault :: fault where
  "no_fault \<equiv> \<lambda>_. None"

definition demo_row :: "ContextId \<Rightarrow> ContextRow" where
  "demo_row i = \<lparr>cr_context_id = i, cr_label = Some ''a'', cr_provider = None, cr_model = None, cr_system_prompt = None,
     cr_consent_mode = ConsentMode.Collaborative, cr_context_state = ContextState.Live, cr_context_type = ''default'',
     cr_created_at = 3, cr_created_by = 2, cr_forked_from = None, cr_fork_kind = None, cr_archived_at = None,
     cr_concluded_at = None, cr_workspace_id = Some 5, cr_preset_id = None, cr_last_activity_at = None,
     cr_promoted_at = None, cr_demoted_at = None, cr_paused_at = None\<rparr>"

definition demo_path :: WorkspacePathRow where
  "demo_path = \<lparr>wp_workspace_id = 5, wp_path = ''/x'', wp_read_only = True, wp_created_at = 2\<rparr>"

definition demo_workspace :: WorkspaceRow where
  "demo_workspace = \<lparr>wr_workspace_id = 5, wr_label = ''w'', wr_description = None, wr_created_at = 1, wr_created_by = 2, wr_archived_at = None\<rparr>"

definition demo_db :: ContextDb where
  "demo_db =
     fst (insert_context_with_document no_fault (demo_row 1) 5
       (fst (insert_workspace_path no_fault demo_path (fst (insert_workspace no_fault demo_workspace registry_start)))))"

lemma demo_db_eq:
  "demo_db = \<lparr>cd_base = \<lparr>kd_workspaces = {5}, kd_documents = [context_document 5 (demo_row 1)], kd_oplog = [], kd_snapshots = [],
       kd_activity = [1 \<mapsto> None], kd_calls = 4\<rparr>,
     cd_contexts = [demo_row 1], cd_edges = [], cd_workspaces = [demo_workspace], cd_workspace_paths = [demo_path],
     cd_presets = [], cd_preset_args = []\<rparr>"
  by (simp add: demo_db_def insert_context_with_document_def insert_document_or_ignore_def insert_context_def write_context_def
      insert_workspace_path_def insert_workspace_def validate_label_def dbind_def sql_eq called_def Let_def path_taken_def
      document_exists_def label_taken_def context_exists_def references_ok_def context_document_def demo_row_def demo_path_def
      demo_workspace_def registry_start_def)

lemma demo_reached: "(registry_step U no_fault)\<^sup>*\<^sup>* registry_start demo_db"
proof -
  let ?d1 = "fst (insert_workspace no_fault demo_workspace registry_start)"
  let ?d2 = "fst (insert_workspace_path no_fault demo_path ?d1)"
  have a: "registry_step U no_fault registry_start ?d1" by (rule registry_step.workspace)
  have b: "registry_step U no_fault ?d1 ?d2" by (rule registry_step.path)
  have c: "registry_step U no_fault ?d2 demo_db"
    unfolding demo_db_def by (rule registry_step.context_with_document) (simp add: fresh_row_def demo_row_def)
  have "(registry_step U no_fault)\<^sup>*\<^sup>* registry_start ?d2"
    by (rule rtranclp.rtrancl_into_rtrancl, rule r_into_rtranclp, rule a, rule b)
  then show ?thesis by (rule rtranclp.rtrancl_into_rtrancl) (rule c)
qed

theorem registry_invariant_witness: "seats demo_db \<le> 10 \<and> acyclic (structural (cd_edges demo_db))"
  using registry_invariant [OF demo_reached [of reference_uuid_lib]] by simp

theorem recursive_queries_return_witness: "fork_lineage no_fault 1 demo_db \<noteq> None"
  using recursive_queries_return [OF demo_reached [of reference_uuid_lib]] by simp

theorem subtree_snapshot_spec_witness:
  "\<exists>rows. subtree_snapshot no_fault 1 demo_db = Some (called demo_db, Inr rows) \<and>
    set (map (\<lambda>(r, k). (cr_context_id r, k)) rows)
      = {(j, k). (1, j) \<in> structural (cd_edges demo_db) ^^ k \<and> context_exists demo_db j}"
  by (rule subtree_snapshot_spec [OF demo_reached [of reference_uuid_lib]]) simp

lemma demo_placement: "placements demo_db 1 = Some Automatic"
  by (simp add: placements_def demo_db_eq placement_def demo_row_def)

theorem demote_refines_witness:
  "\<exists>d'. demote_context reference_uuid_lib no_fault 9 1 demo_db = (d', Inr Demoted) \<and> placements d' = (placements demo_db)(1 \<mapsto> DemotedRing)"
  using demote_refines [OF demo_reached [of reference_uuid_lib] _ demo_placement, of no_fault] by simp

theorem promote_refines_witness:
  "\<exists>d' x. promote_context reference_uuid_lib no_fault 9 1 demo_db = (d', Inr x) \<and> x \<noteq> AlreadyPromoted \<and> placements d' = (placements demo_db)(1 \<mapsto> Seat)"
  using promote_refines [OF demo_reached [of reference_uuid_lib] _ demo_placement, of no_fault]
  by (simp add: seats_def demo_db_eq seated_def demo_row_def)

theorem orphan_document_witness:
  "\<exists>d'. insert_context_with_document no_fault (demo_row 2) 5 demo_db = (d', Inl (LabelConflict (quoted_use ''label'' ''a'')))
    \<and> document_exists (cd_base d') 2 \<and> \<not> context_exists d' 2"
  using orphan_document [of no_fault "demo_row 2" "''a''" demo_db 5]
  by (simp add: demo_db_eq label_taken_def context_exists_def document_exists_def context_document_def demo_row_def)

theorem workspace_path_spec_witness:
  "snd (check_workspace_path reference_uuid_lib no_fault 1 ''/x/y'' demo_db) = Inr (Some True)"
proof -
  have "workspace_rows 5 demo_db = {demo_path}" by (auto simp: workspace_rows_def demo_db_eq demo_path_def)
  moreover have "covers demo_path ''/x/y''" "wp_read_only demo_path" by (simp_all add: covers_def demo_path_def starts_with_def)
  ultimately show ?thesis
    using workspace_path_spec [OF demo_reached [of reference_uuid_lib], of no_fault "demo_row 1" 5 "''/x/y''" reference_uuid_lib]
    by (simp add: demo_db_eq demo_row_def split: sum.splits)
qed

theorem trailing_slash_covers_nothing_witness: "''//etc'' = [] @ ''//'' @ ''etc''"
  using trailing_slash_covers_nothing [of "demo_path\<lparr>wp_path := ''/''\<rparr>" "[]" "''//etc''"]
  by (simp add: covers_def starts_with_def)

end
