(* ===== verification/Drift_Cmd_Props.thy ===== *)
theory Drift_Cmd_Props
  imports Drift_Cmd Drift_Props Kernel_Props Context_Registry "HOL-Library.Sublist"
begin

text \<open>
  The drift commands over the router, the block store and the registry: where a delivered drift
  lands, what a flush leaves in the queues, and the ways a command fails.
\<close>

section \<open>A delivered drift\<close>

lemma insert_with_doc:
  assumes "insert_with E now ctx after p op k = Some (k', Inr i)" and "ks_documents k ctx = Some e"
  obtains e' where "ks_documents k' ctx = Some e'"
    and "op (set_principal_id (effective_agent p k) (de_doc e)) = Some (de_doc e', Inr i)"
proof -
  from assms obtain e1 k1 snap ops bs
    where body: "insert_body E (effective_agent p k) op e = Some (e1, Inr (i, snap, ops, bs))"
    and j: "journal_op E now ctx ops (k\<lparr>ks_documents := (ks_documents k)(ctx \<mapsto> e1)\<rparr>) = Some (k1, Inr ())"
    and em: "emit (BlockFlow.Inserted ctx snap after bs Local) k1 = Some (k', Inr ())"
    by (auto simp: insert_with_def run_ok)
  from body have "op (set_principal_id (effective_agent p k) (de_doc e)) = Some (de_doc e1, Inr i)"
    by (auto simp: insert_body_def run_ok crdt_ok as_agent_def entry_touch_def Let_def split: option.splits)
  moreover obtain e' where "ks_documents k1 ctx = Some e'" "de_doc e' = de_doc e1" by (rule journal_doc [OF j]) simp
  ultimately show thesis using that [of e'] emit_frame [OF em] by simp
qed

lemma ordered_ids:
  assumes "store_ok s"
  shows "map bs_id (blocks_ordered D s) = block_ids_ordered s"
  by (simp add: blocks_ordered_blocks [OF assms] block_ids_ordered_def order_pairs_blocks [OF assms] block_rank_def
      content_snapshot_def Let_def o_def)

lemma last_block_id_last:
  assumes "store_ok (de_doc e)" and "ks_documents k ctx = Some e"
  shows "last_block_id E k ctx = (if block_ids_ordered (de_doc e) = [] then None else Some (last (block_ids_ordered (de_doc e))))"
  by (simp add: last_block_id_def assms(2) Let_def last_map flip: ordered_ids [OF assms(1), of "ke_dte E"])

lemma same_order:
  "block_ids_ordered (set_principal_id p s) = block_ids_ordered s" "st_blocks (set_principal_id p s) = st_blocks s"
  by (simp_all add: set_principal_id_def block_ids_ordered_def order_pairs_def live_entries_def)

text \<open>The block of a drift, as the store shows it.\<close>

definition drift_block :: "string \<Rightarrow> ContextId \<Rightarrow> string option \<Rightarrow> DriftKind \<Rightarrow> BlockSnapshot \<Rightarrow> bool" where
  "drift_block content source model kind x \<longleftrightarrow>
     bs_kind x = BlockKind.Drift \<and> bs_role x = Role.System \<and> bs_parent_id x = None \<and> bs_content x = content
     \<and> bs_source_context x = Some source \<and> bs_source_model x = model \<and> bs_drift_kind x = Some kind"

lemma inserted_drift_block:
  assumes "dte_ok D" and "insert_drift_block D now None after content src model dk s = Some (s', Inr i)"
  obtains x where "get_block_snapshot D s' i = Some x" and "drift_block content src model dk x"
proof -
  have "\<exists>sn p key b. snapshot_drift now i None content src model dk = Some sn \<and> bt_get (st_blocks s') i = Some b
      \<and> (b = content_from_snapshot D sn p key \<or> (\<exists>u. b = set_tick u (content_from_snapshot D sn p key)))"
    using assms(2)
    by (fastforce simp: insert_drift_block_def insert_constructed_def Let_def put_block_def bt_get_insert split: prod.splits option.splits)
  then obtain sn p key b where sn: "snapshot_drift now i None content src model dk = Some sn" and b: "bt_get (st_blocks s') i = Some b"
      "b = content_from_snapshot D sn p key \<or> (\<exists>u. b = set_tick u (content_from_snapshot D sn p key))" by blast
  from sn have f: "bs_kind sn = BlockKind.Drift" "bs_role sn = Role.System" "bs_parent_id sn = None" "bs_content sn = content"
    "bs_source_context sn = Some src" "bs_source_model sn = model" "bs_drift_kind sn = Some dk"
    by (auto simp: snapshot_drift_def builder_new_def split: if_splits)
  let ?c = "content_from_snapshot D sn p key"
  have c: "drift_block content src model dk (content_snapshot D ?c)" "\<not> bc_deleted ?c"
    by (simp_all add: drift_block_def content_snapshot_def Let_def content_text_def content_from_snapshot_def
        with_content_text [OF assms(1)] header_from_snapshot_def f)
  have "drift_block content src model dk (content_snapshot D (set_tick u ?c))" "\<not> bc_deleted (set_tick u ?c)" for u
    using c by (simp_all add: drift_block_def content_snapshot_def Let_def content_text_def set_tick_def)
  with b c that show thesis by (auto simp: get_block_snapshot_def)
qed

lemma insert_drift_shape:
  "insert_drift E target content source model kind s = Some (s', r) \<Longrightarrow>
   \<exists>k. s' = (read_tick s)\<lparr>kj_store := k\<rparr> \<and> kernel_insert_drift_block (kj_kernel E) (kj_clock E (kj_reads s)) target None
     (last_block_id (kj_kernel E) (kj_store s) target) content source model kind (kj_store s) = Some (k, r)"
  by (auto simp: insert_drift_def Let_def split: option.splits)

text \<open>
  C7: A drift delivered into a context of a sound store becomes the last block of that context: the
  blocks that were there keep their order and their content, and the new block shows the content, the
  source context, its model and the kind of the drift, as a system block without a parent.
\<close>

theorem drift_lands_last:
  assumes "dte_ok (ke_dte (kj_kernel E))" and "ks_documents (kj_store s) target = Some e" and "store_ok (de_doc e)"
    and "insert_drift E target content source model kind s = Some (s', Inr i)"
  shows "\<exists>e' x. ks_documents (kj_store s') target = Some e'
     \<and> block_ids_ordered (de_doc e') = block_ids_ordered (de_doc e) @ [i]
     \<and> get_block_snapshot (ke_dte (kj_kernel E)) (de_doc e') i = Some x \<and> drift_block content source model kind x
     \<and> (\<forall>j. j \<noteq> i \<longrightarrow> bt_get (st_blocks (de_doc e')) j = bt_get (st_blocks (de_doc e)) j)"
proof -
  let ?D = "ke_dte (kj_kernel E)" and ?after = "last_block_id (kj_kernel E) (kj_store s) target"
  from insert_drift_shape [OF assms(4)]
  have "insert_with (kj_kernel E) (kj_clock E (kj_reads s)) target ?after None
      (insert_drift_block ?D (kj_clock E (kj_reads s)) None ?after content source model kind) (kj_store s) = Some (kj_store s', Inr i)"
    by (auto simp: kernel_insert_drift_block_def kernel_insert_drift_block_as_def)
  then obtain e' where e': "ks_documents (kj_store s') target = Some e'"
    and op: "insert_drift_block ?D (kj_clock E (kj_reads s)) None ?after content source model kind
        (set_principal_id (effective_agent None (kj_store s)) (de_doc e)) = Some (de_doc e', Inr i)"
    using assms(2) by (rule insert_with_doc)
  let ?s = "set_principal_id (effective_agent None (kj_store s)) (de_doc e)"
  have ok: "store_ok ?s" using assms(3) safe_principal by (auto simp: safe_def)
  obtain b where ins: "inserted ?after ?s (de_doc e') i b" by (rule insert_step_inserted [OF ok insert_step.drift [OF op]])
  have "block_ids_ordered (de_doc e') = block_ids_ordered ?s @ [i]"
    by (rule append_last [OF ok ins]) (simp add: last_block_id_last [OF assms(3,2)] same_order)
  moreover obtain x where "get_block_snapshot ?D (de_doc e') i = Some x" "drift_block content source model kind x"
    by (rule inserted_drift_block [OF assms(1) op])
  ultimately show ?thesis
    using e' insertedD(4) [OF ok ins] by (intro exI [of _ e'] exI [of _ x]) (simp add: same_order bt_get_insert)
qed

section \<open>Flush\<close>

lemma router_registry: "on_registry op s = (s', r) \<Longrightarrow> kj_router s' = kj_router s"
  by (auto simp: on_registry_def Let_def split: prod.splits)

lemma router_registry_fst: "kj_router (fst (on_registry op s)) = kj_router s"
  by (metis prod.collapse router_registry)

lemma router_insert: "insert_drift E target content source model kind s = Some (s', r) \<Longrightarrow> kj_router s' = kj_router s"
  by (auto dest: insert_drift_shape simp: read_tick_def)

lemma router_edge: "kj_router (record_edge E source target meta s) = kj_router s"
  by (simp add: record_edge_def router_registry_fst read_tick_def)

lemma router_bury: "bury_all E lf dead s = Some s' \<Longrightarrow> kj_router s' = kj_router s"
  by (induction E lf dead s rule: bury_all.induct) (auto split: option.splits dest!: router_insert)

lemma router_persist: "kj_router (persist_lost_found E lf s) = kj_router s"
  by (auto simp: persist_lost_found_def Let_def read_tick_def router_registry_fst split: prod.splits sum.splits dest!: router_registry)

lemma queues_bury_dead:
  assumes "bury_dead E dead s = Some s'"
  shows "quiet (kj_router s) (kj_router s')"
proof (cases "dead = []")
  case True
  with assms show ?thesis by (simp add: bury_dead_def quiet_def)
next
  case False
  with assms obtain r x where "ensure_lost_found (kj_uuid E) (kj_clock E (kj_reads s)) (kj_trace E (kj_reads s)) (ke_system (kj_kernel E))
                (kj_fresh E (kj_reads s)) (kj_router s) = (r, x)" and "kj_router s' = r"
    by (auto simp: bury_dead_def Let_def router_persist read_tick_def split: prod.splits option.splits if_splits dest!: router_bury)
  then show ?thesis by (simp add: quiet_ensure)
qed

text \<open>
  The deliveries of a flush, drift by drift: an insertion that succeeds is recorded as an edge and runs
  the scripts of the target; a drift whose insertion fails is one of the failures.
\<close>

inductive sent :: "('d, 'o, 'f, 'json) kj_env \<Rightarrow> ContextId option \<Rightarrow> StagedDrift list \<Rightarrow> 'd KjState \<Rightarrow> StagedDrift list \<Rightarrow> 'd KjState \<Rightarrow> bool"
  for E caller where
  none: "sent E caller [] s [] s"
| arrived: "insert_drift E (dt_target_ctx t) (dt_content t) (dt_source_ctx t) (dt_source_model t) (dt_drift_kind t) s = Some (s1, Inr i) \<Longrightarrow>
    sent E caller ts (kj_rc E caller \<lparr>di_kind = dt_drift_kind t, di_source_ctx = dt_source_ctx t, di_target_ctx = dt_target_ctx t,
       di_source_model = dt_source_model t\<rparr> (record_edge E (dt_source_ctx t) (dt_target_ctx t)
         (DriftKind_as_str (dt_drift_kind t) @ ''#'' @ show_nat (dt_id t)) s1)) failed s' \<Longrightarrow>
    sent E caller (t # ts) s failed s'"
| refused: "insert_drift E (dt_target_ctx t) (dt_content t) (dt_source_ctx t) (dt_source_model t) (dt_drift_kind t) s = Some (s1, Inl e) \<Longrightarrow>
    sent E caller ts s1 failed s' \<Longrightarrow> sent E caller (t # ts) s (t # failed) s'"

lemma sent_subseq: "sent E caller ts s failed s' \<Longrightarrow> subseq failed ts"
  by (induction rule: sent.induct) auto

lemma deliver_all_sent:
  "deliver_all E caller ts s = Some (s', n, failed) \<Longrightarrow> sent E caller ts s failed s' \<and> n + length failed = length ts"
proof (induction ts arbitrary: s s' n failed)
  case (Cons t ts)
  then show ?case
    by (fastforce simp: deliver_def split: option.splits prod.splits sum.splits if_splits intro: sent.intros)
qed (auto intro: sent.intros)

text \<open>Dead letters, each written once into the document of lost+found.\<close>

inductive buried :: "('d, 'o, 'f, 'json) kj_env \<Rightarrow> ContextId \<Rightarrow> StagedDrift list \<Rightarrow> 'd KjState \<Rightarrow> 'd KjState \<Rightarrow> bool" for E lf where
  none: "buried E lf [] s s"
| letter: "insert_drift E lf (dead_letter_content (kj_uuid E) t) (dt_source_ctx t) (dt_source_model t) (dt_drift_kind t) s = Some (s1, r) \<Longrightarrow>
    buried E lf ts s1 s' \<Longrightarrow> buried E lf (t # ts) s s'"

lemma bury_all_buried: "bury_all E lf dead s = Some s' \<Longrightarrow> buried E lf dead s s'"
  by (induction dead arbitrary: s) (auto split: option.splits intro: buried.intros)

lemma ensured: "snd (ensure_lost_found U now trace system fresh r) = Some (lf, new) \<Longrightarrow>
    rt_lost_found_id (fst (ensure_lost_found U now trace system fresh r)) = Some lf"
  by (auto simp: ensure_lost_found_def register_def put_handle_def split: option.splits)

lemma bury_dead_buried:
  assumes "bury_dead E dead s = Some s'" and "dead \<noteq> []"
  obtains lf s1 where "rt_lost_found_id (kj_router s') = Some lf" and "buried E lf dead s1 s'"
proof -
  from assms obtain r lf new s1 where "ensure_lost_found (kj_uuid E) (kj_clock E (kj_reads s)) (kj_trace E (kj_reads s)) (ke_system (kj_kernel E))
      (kj_fresh E (kj_reads s)) (kj_router s) = (r, Some (lf, new))" and "bury_all E lf dead s1 = Some s'" and "kj_router s1 = r"
    by (auto simp: bury_dead_def Let_def router_persist read_tick_def split: prod.splits option.splits if_splits)
  then have "rt_lost_found_id (kj_router s') = Some lf"
    using ensured [of "kj_uuid E" "kj_clock E (kj_reads s)" "kj_trace E (kj_reads s)" "ke_system (kj_kernel E)" "kj_fresh E (kj_reads s)" "kj_router s"]
      router_bury [of E lf dead s1 s'] by simp
  with that bury_all_buried \<open>bury_all E lf dead s1 = Some s'\<close> show thesis by blast
qed


text \<open>
  Dead letters wait for an unrelated success: a flush that finds nothing staged for its caller
  answers that there is nothing to flush and leaves every dead letter in memory, so the drifts of a
  removed context reach lost+found only when some later flush has something to deliver.
\<close>

theorem dead_letters_wait:
  assumes "drain caller (kj_router s) = (q, [])"
  shows "drift_flush E caller s = Some (s\<lparr>kj_router := q\<rparr>, kj_ok ''nothing to flush'') \<and> rt_dead_letter q = rt_dead_letter (kj_router s)"
  using assms by (auto simp: drift_flush_def drain_def split: option.splits)

text \<open>
  The label of lost+found is not reserved.  While another context holds it and lost+found does not
  exist yet, a flush that has taken dead letters out of the router panics: no outcome is returned, and
  neither are the letters.
\<close>

theorem lost_found_panics:
  assumes "rt_lost_found_id (kj_router s) = None" and "bt_get (rt_label_to_id (kj_router s)) lost_found_label = Some i"
    and "i \<noteq> kj_fresh E (kj_reads s)" and "dead \<noteq> []"
  shows "bury_dead E dead s = None"
  using assms by (simp add: bury_dead_def ensure_lost_found_def register_def put_handle_def check_label_available_def)

section \<open>Queue and edges\<close>

lemma not_continuation: "n < length s \<Longrightarrow> 0 < n \<Longrightarrow> is_char_boundary s n \<longleftrightarrow> \<not> is_continuation (s ! n)"
  by (auto simp: is_char_boundary_def is_continuation_def)

text \<open>
  The listing of the queue panics exactly when some staged content is longer than 60 bytes and byte
  57 lies inside a character; in every other state it answers, with one identifier per staged drift.
\<close>

theorem queue_panics:
  "drift_queue E s = None \<longleftrightarrow>
     (\<exists>t \<in> set (rt_staging (kj_router s)). 60 < length (dt_content t) \<and> is_continuation (dt_content t ! 57))"
  by (auto simp: drift_queue_def format_drift_queue_def queue_line_def not_continuation split: if_splits)

text \<open>
  Removing a provenance edge does not ask for the drift capability: a caller to whom the capability
  is denied cannot push, pull, merge, flush or cancel, and nothing changes, but his \<open>edge rm\<close> does what
  it does for everyone.
\<close>

theorem edge_rm_ungated:
  assumes "denied caller = Some m"
  shows "(needs_drift_cap c \<longrightarrow> dispatch_drift E show_id denied caller c s = Some (s, KjErr m))
    \<and> dispatch_drift E show_id denied caller (EdgeRm arg) s = Some (drift_edge_rm E show_id arg s)"
  using assms by (simp add: dispatch_drift_def needs_drift_cap_def)

section \<open>Context references\<close>

lemma parent_matches_chain: "parent_matches (concat (replicate n ''.parent'')) = n"
proof (induction n)
  case 0
  show ?case by (simp add: parent_matches.simps)
next
  case (Suc n)
  show ?case
    by (subst parent_matches.simps) (simp add: starts_with_def Suc)
qed

text \<open>
  A context reference is a parent reference of depth \<open>n > 0\<close> exactly when it is \<open>n\<close> times
  \<open>.parent\<close> and nothing else, it is the current context exactly when it is a single dot, and
  everything else is a query.
\<close>

theorem context_ref_spec:
  "(parse_context_ref s = Parent n \<longleftrightarrow> 0 < n \<and> s = concat (replicate n ''.parent''))
   \<and> (parse_context_ref s = Current \<longleftrightarrow> s = ''.'')"
proof -
  have "parse_context_ref s = Parent n" if "0 < n" "s = concat (replicate n ''.parent'')"
  proof -
    from that obtain m where m: "s = ''.parent'' @ concat (replicate m ''.parent'')" by (cases n) auto
    then have "s \<noteq> ''.''" "starts_with s ''.parent''" by (simp_all add: starts_with_def)
    then show ?thesis using that(2) by (simp add: parse_context_ref_def parent_matches_chain)
  qed
  moreover have "0 < n \<and> s = concat (replicate n ''.parent'')" if "parse_context_ref s = Parent n"
    using that by (cases n) (auto simp: parse_context_ref_def Let_def starts_with_def split: if_splits)
  moreover have "parse_context_ref s = Current \<longleftrightarrow> s = ''.''"
    by (simp add: parse_context_ref_def Let_def)
  ultimately show ?thesis by blast
qed

section \<open>Witnesses\<close>

definition drift_env :: "(string option, string option, unit, string) kj_env" where
  "drift_env = \<lparr>kj_kernel = (note_env Status.Done)\<lparr>encode_payload := (\<lambda>_. Inr [])\<rparr>, kj_clock = (\<lambda>n. n), kj_fresh = (\<lambda>n. 100 + of_nat n),
     kj_trace = (\<lambda>_. []), kj_debug = (\<lambda>_. []), kj_llm = (\<lambda>_ _. Inl []), kj_rc = (\<lambda>_ _ s. s), kj_show = (\<lambda>_. [])\<rparr>"

definition drift_state :: "string option KernelStore \<Rightarrow> DriftRouter \<Rightarrow> string option KjState" where
  "drift_state k r = \<lparr>kj_router = r, kj_store = k, kj_registry = registry_start, kj_reads = 0\<rparr>"

definition kernel_one_document :: "string option KernelStore" where
  "kernel_one_document = (kernel_new 2)\<lparr>ks_documents := [1 \<mapsto> entry_new 1 DocKind.Conversation None 2]\<rparr>"

definition wide_drift :: StagedDrift where
  "wide_drift = \<lparr>dt_id = 1, dt_source_ctx = 1, dt_target_ctx = 1,
     dt_content = replicate 56 CHR ''a'' @ [CHR 0xE2, CHR 0x86, CHR 0x92, CHR 0xE2, CHR 0x86, CHR 0x92],
     dt_source_model = None, dt_drift_kind = DriftKind.Push, dt_created_at = 9, dt_retry_count = 0\<rparr>"

lemma drift_env_parts [simp]:
  "kj_kernel drift_env = (note_env Status.Done)\<lparr>encode_payload := (\<lambda>_. Inr [])\<rparr>"   "kj_fresh drift_env n = 100 + of_nat n" "kj_clock drift_env n = n"
  by (simp_all add: drift_env_def)

lemma delivered_run:
  "\<exists>s. insert_drift drift_env 1 ''hi'' 5 None DriftKind.Push (drift_state kernel_one_document router_new) = Some (s, Inr (BlockId 1 2 0))"
  by (simp add: insert_drift_def Let_def drift_state_def kernel_one_document_def kernel_new_def last_block_id_def entry_new_def
      store_new_def blocks_ordered_def block_ids_ordered_def order_pairs_def live_entries_def map_filter_def
      kernel_insert_drift_block_def kernel_insert_drift_block_as_def insert_with_def kbind_def on_entry_def insert_body_def
      as_agent_def crdt_def insert_drift_block_def insert_constructed_def new_block_id_def reserve_block_id_def next_seq_for_def
      set_principal_id_def next_position_def snapshot_drift_def parent_ok_def case_prod_unfold put_block_def
      get_block_snapshot_def bt_get_def set_tick_def effective_agent_def journal_env_def lift_codec_def entry_touch_def journal_op_def
      recompute_live_status_def journaling_db_def kret_def emit_def)

theorem drift_lands_last_witness:
  "map_option (\<lambda>(s, r). (r, map_option (block_ids_ordered \<circ> de_doc) (ks_documents (kj_store s) 1)))
     (insert_drift drift_env 1 ''hi'' 5 None DriftKind.Push (drift_state kernel_one_document router_new))
   = Some (Inr (BlockId 1 2 0), Some [BlockId 1 2 0])"
proof -
  let ?s = "drift_state kernel_one_document router_new" and ?e = "entry_new 1 DocKind.Conversation None 2"
  obtain s' where run: "insert_drift drift_env 1 ''hi'' 5 None DriftKind.Push ?s = Some (s', Inr (BlockId 1 2 0))"
    using delivered_run by blast
  have e: "ks_documents (kj_store ?s) 1 = Some ?e" by (simp add: drift_state_def kernel_one_document_def)
  have ok: "store_ok (de_doc ?e)" and ids: "block_ids_ordered (de_doc ?e) = []"
    by (simp_all add: entry_new_def store_new_def store_ok_def bt_ok_def bt_get_def block_ids_ordered_def order_pairs_def live_entries_def)
  have D: "dte_ok (ke_dte (kj_kernel drift_env))" by (simp add: journal_env_def reference_dte_ok)
  from drift_lands_last [OF D e ok run] show ?thesis by (auto simp: run ids)
qed


theorem dead_letters_wait_witness:
  "drift_flush drift_env None (drift_state (kernel_new 2) (router_new\<lparr>rt_dead_letter := [wide_drift]\<rparr>))
   = Some (drift_state (kernel_new 2) (router_new\<lparr>rt_dead_letter := [wide_drift]\<rparr>), kj_ok ''nothing to flush'')"
proof -
  let ?r = "router_new\<lparr>rt_dead_letter := [wide_drift]\<rparr>"
  have "drain None (kj_router (drift_state (kernel_new 2) ?r)) = (?r, [])" by (simp add: drain_def drift_state_def router_new_def)
  from dead_letters_wait [OF this, of drift_env] show ?thesis by (simp add: drift_state_def)
qed

theorem lost_found_panics_witness:
  "bury_dead drift_env [wide_drift]
     (drift_state (kernel_new 2) (fst (register reference_uuid_lib 7 [] 1 (Some lost_found_label) None 2 router_new))) = None"
  by (rule lost_found_panics [where i = 1])
    (simp_all add: drift_state_def register_def put_handle_def router_new_def check_label_available_def bt_get_def)

theorem queue_panics_witness:
  "drift_queue drift_env (drift_state (kernel_new 2) (router_new\<lparr>rt_staging := [wide_drift]\<rparr>)) = None"
  using queue_panics [of drift_env "drift_state (kernel_new 2) (router_new\<lparr>rt_staging := [wide_drift]\<rparr>)"]
  by (simp add: drift_state_def wide_drift_def is_continuation_def nth_append)

theorem edge_rm_ungated_witness:
  "dispatch_drift drift_env (\<lambda>_. []) (\<lambda>_. Some ''denied'') None Flush (drift_state (kernel_new 2) router_new)
     = Some (drift_state (kernel_new 2) router_new, KjErr ''denied'')
   \<and> dispatch_drift drift_env (\<lambda>_. []) (\<lambda>_. Some ''denied'') None (EdgeRm ''x'') (drift_state (kernel_new 2) router_new)
     = Some (drift_edge_rm drift_env (\<lambda>_. []) ''x'' (drift_state (kernel_new 2) router_new))"
  using edge_rm_ungated [of "\<lambda>_. Some ''denied''" None "''denied''" Flush drift_env "\<lambda>_. []" _ "''x''"]
  by (simp add: needs_drift_cap_def)

end
