(* ===== verification/Capabilities.thy ===== *)
theory Capabilities
  imports Ids
begin

text \<open>
  Tool capabilities: what a context may use, \<open>crates/kaijutsu-kernel/src/mcp/binding.rs\<close>, and the text
  form of a capability, \<open>crates/kaijutsu-kernel/src/kj/binding.rs\<close>.

  A binding is an allow-set that denies by default.  Sets and hash maps are ordered maps; the order of
  a hash map shows nowhere, because a pair has at most one visible name.
\<close>

section \<open>Capabilities\<close>

type_synonym InstanceId = string

datatype Capability =
    Instance InstanceId
  | Tool InstanceId string
  | Facade string
  | AllInstances
  | AllFacades
  | Admin
  | RcWrite
  | Drive
  | Fork
  | Drift
  | Transport
  | Operator
  | ConfigWrite
  | Exec

definition authority_name :: "Capability \<Rightarrow> string option" where
  "authority_name c =
     (case c of
        Drive \<Rightarrow> Some ''drive''
      | Fork \<Rightarrow> Some ''fork''
      | Capability.Drift \<Rightarrow> Some ''drift''
      | Transport \<Rightarrow> Some ''transport''
      | Operator \<Rightarrow> Some ''operator''
      | ConfigWrite \<Rightarrow> Some ''config-write''
      | Exec \<Rightarrow> Some ''exec''
      | _ \<Rightarrow> None)"

definition from_authority_name :: "string \<Rightarrow> Capability option" where
  "from_authority_name token =
     (if token = ''drive'' then Some Drive
      else if token = ''fork'' then Some Fork
      else if token = ''drift'' then Some Capability.Drift
      else if token = ''transport'' then Some Transport
      else if token = ''operator'' then Some Operator
      else if token = ''config-write'' then Some ConfigWrite
      else if token = ''exec'' then Some Exec
      else None)"

definition KNOWN_AUTHORITIES :: "string list" where
  "KNOWN_AUTHORITIES = [''drive'', ''fork'', ''drift'', ''transport'', ''operator'', ''config-write'', ''exec'']"

text \<open>Instances of the broker that stand for a facade.\<close>

definition FACADE_PROJECTED_INSTANCES :: "(string \<times> string) list" where
  "FACADE_PROJECTED_INSTANCES = [(''builtin.shell'', ''shell''), (''builtin.shell_readonly'', ''shell_readonly'')]"

section \<open>Bindings\<close>

type_synonym ResolvedName = "InstanceId \<times> string"

record ContextToolBinding =
  tb_all_instances :: bool
  tb_all_facades :: bool
  tb_binding_admin :: bool
  tb_binding_rc_write :: bool
  tb_allowed_instances :: "InstanceId list"
  tb_allowed_tools :: "ResolvedName list"
  tb_allowed_facades :: "string list"
  tb_authorities :: "(string, unit) btree"
  tb_name_map :: "(string, ResolvedName) btree"

definition binding_new :: ContextToolBinding where
  "binding_new = \<lparr>tb_all_instances = False, tb_all_facades = False, tb_binding_admin = False, tb_binding_rc_write = False,
     tb_allowed_instances = [], tb_allowed_tools = [], tb_allowed_facades = [], tb_authorities = [], tb_name_map = []\<rparr>"

definition binding_with_instances :: "InstanceId list \<Rightarrow> ContextToolBinding" where
  "binding_with_instances instances = binding_new\<lparr>tb_allowed_instances := instances\<rparr>"

definition binding_is_empty :: "ContextToolBinding \<Rightarrow> bool" where
  "binding_is_empty b \<longleftrightarrow>
     \<not> tb_all_instances b \<and> \<not> tb_all_facades b \<and> \<not> tb_binding_admin b \<and> \<not> tb_binding_rc_write b
     \<and> tb_allowed_instances b = [] \<and> tb_allowed_tools b = [] \<and> tb_allowed_facades b = [] \<and> tb_authorities b = []"

definition has_authority :: "ContextToolBinding \<Rightarrow> string \<Rightarrow> bool" where
  "has_authority b name = bt_contains (tb_authorities b) name"

definition facade_granted :: "ContextToolBinding \<Rightarrow> string \<Rightarrow> bool" where
  "facade_granted b facade \<longleftrightarrow> tb_all_facades b \<or> facade \<in> set (tb_allowed_facades b)"

definition facade_projection_allows :: "ContextToolBinding \<Rightarrow> InstanceId \<Rightarrow> bool" where
  "facade_projection_allows b i = list_ex (\<lambda>(inst, facade). inst = i \<and> facade_granted b facade) FACADE_PROJECTED_INSTANCES"

definition allows :: "ContextToolBinding \<Rightarrow> Capability \<Rightarrow> bool" where
  "allows b cap =
     (case cap of
        Instance i \<Rightarrow> tb_all_instances b \<or> i \<in> set (tb_allowed_instances b)
      | Capability.Tool i t \<Rightarrow>
          tb_all_instances b \<or> i \<in> set (tb_allowed_instances b) \<or> facade_projection_allows b i
          \<or> (i, t) \<in> set (tb_allowed_tools b)
      | Facade name \<Rightarrow> facade_granted b name
      | AllInstances \<Rightarrow> tb_all_instances b
      | AllFacades \<Rightarrow> tb_all_facades b
      | Admin \<Rightarrow> tb_binding_admin b
      | RcWrite \<Rightarrow> tb_binding_rc_write b
      | _ \<Rightarrow> (case authority_name cap of Some n \<Rightarrow> bt_contains (tb_authorities b) n | None \<Rightarrow> False))"

definition allows_tool :: "ContextToolBinding \<Rightarrow> InstanceId \<Rightarrow> string \<Rightarrow> bool" where
  "allows_tool b i t = allows b (Capability.Tool i t)"

definition is_allowed :: "ContextToolBinding \<Rightarrow> InstanceId \<Rightarrow> bool" where
  "is_allowed b i = allows b (Instance i)"

text \<open>\<open>contains\<close> and \<open>push\<close>.\<close>

definition push_new :: "'a \<Rightarrow> 'a list \<Rightarrow> 'a list" where
  "push_new x xs = (if x \<in> set xs then xs else xs @ [x])"

definition allow :: "InstanceId \<Rightarrow> ContextToolBinding \<Rightarrow> ContextToolBinding" where
  "allow i b = b\<lparr>tb_allowed_instances := push_new i (tb_allowed_instances b)\<rparr>"

definition revoke :: "InstanceId \<Rightarrow> ContextToolBinding \<Rightarrow> ContextToolBinding" where
  "revoke i b = b\<lparr>tb_allowed_instances := filter (\<lambda>j. j \<noteq> i) (tb_allowed_instances b),
     tb_allowed_tools := filter (\<lambda>(j, _). j \<noteq> i) (tb_allowed_tools b),
     tb_name_map := filter (\<lambda>(_, j, _). j \<noteq> i) (tb_name_map b)\<rparr>"

definition grant :: "Capability \<Rightarrow> ContextToolBinding \<Rightarrow> ContextToolBinding" where
  "grant cap b =
     (case cap of
        Instance i \<Rightarrow> allow i b
      | Capability.Tool i t \<Rightarrow> b\<lparr>tb_allowed_tools := push_new (i, t) (tb_allowed_tools b)\<rparr>
      | Facade name \<Rightarrow> b\<lparr>tb_allowed_facades := push_new name (tb_allowed_facades b)\<rparr>
      | AllInstances \<Rightarrow> b\<lparr>tb_all_instances := True\<rparr>
      | AllFacades \<Rightarrow> b\<lparr>tb_all_facades := True\<rparr>
      | Admin \<Rightarrow> b\<lparr>tb_binding_admin := True\<rparr>
      | RcWrite \<Rightarrow> b\<lparr>tb_binding_rc_write := True\<rparr>
      | _ \<Rightarrow> (case authority_name cap of
               Some n \<Rightarrow> b\<lparr>tb_authorities := bt_insert n () (tb_authorities b)\<rparr>
             | None \<Rightarrow> b))"

definition revoke_cap :: "Capability \<Rightarrow> ContextToolBinding \<Rightarrow> ContextToolBinding" where
  "revoke_cap cap b =
     (case cap of
        Instance i \<Rightarrow> revoke i b
      | Capability.Tool i t \<Rightarrow>
          b\<lparr>tb_allowed_tools := filter (\<lambda>p. p \<noteq> (i, t)) (tb_allowed_tools b),
            tb_name_map := filter (\<lambda>(_, p). p \<noteq> (i, t)) (tb_name_map b)\<rparr>
      | Facade name \<Rightarrow> b\<lparr>tb_allowed_facades := filter (\<lambda>f. f \<noteq> name) (tb_allowed_facades b)\<rparr>
      | AllInstances \<Rightarrow> b\<lparr>tb_all_instances := False\<rparr>
      | AllFacades \<Rightarrow> b\<lparr>tb_all_facades := False\<rparr>
      | Admin \<Rightarrow> b\<lparr>tb_binding_admin := False\<rparr>
      | RcWrite \<Rightarrow> b\<lparr>tb_binding_rc_write := False\<rparr>
      | _ \<Rightarrow> (case authority_name cap of
               Some n \<Rightarrow> b\<lparr>tb_authorities := bt_remove n (tb_authorities b)\<rparr>
             | None \<Rightarrow> b))"

definition candidate_instances :: "ContextToolBinding \<Rightarrow> InstanceId list" where
  "candidate_instances b =
     (let out = fold (\<lambda>(i, _). push_new i) (tb_allowed_tools b) (tb_allowed_instances b)
      in fold (\<lambda>(i, facade) out. if facade_granted b facade then push_new i out else out) FACADE_PROJECTED_INSTANCES out)"

definition resolve_name :: "ContextToolBinding \<Rightarrow> string \<Rightarrow> ResolvedName option" where
  "resolve_name b visible = bt_get (tb_name_map b) visible"

text \<open>Sticky names: what has a name keeps it, and a taken name is not given again.\<close>

fun apply_resolutions :: "(ResolvedName \<times> string) list \<Rightarrow> ContextToolBinding \<Rightarrow> ContextToolBinding" where
  "apply_resolutions [] b = b"
| "apply_resolutions ((pair, visible) # rs) b =
     (if pair \<in> snd ` set (tb_name_map b) \<or> bt_contains (tb_name_map b) visible then apply_resolutions rs b
      else apply_resolutions rs (b\<lparr>tb_name_map := bt_insert visible pair (tb_name_map b)\<rparr>))"

section \<open>Text forms\<close>

definition quoted_cap :: "string \<Rightarrow> string" where
  "quoted_cap s = [CHR 0x27] @ s @ [CHR 0x27]"

definition parse_capability :: "string \<Rightarrow> string + Capability" where
  "parse_capability s =
     (if s = ''*'' then Inr AllInstances
      else if s = ''facade:*'' then Inr AllFacades
      else if s = ''admin'' then Inr Admin
      else if s = ''rc-write'' then Inr RcWrite
      else case from_authority_name s of
        Some cap \<Rightarrow> Inr cap
      | None \<Rightarrow>
          (case strip_prefix s ''facade:'' of
             Some rest \<Rightarrow>
               (if rest = [] then Inl (''kj binding: `facade:` needs a name (e.g. facade:shell)'') else Inr (Facade rest))
           | None \<Rightarrow>
               (case split_once (CHR '':'') s of
                  Some (inst, tool) \<Rightarrow>
                    (if inst = [] \<or> tool = []
                     then Inl (''kj binding: invalid capability '' @ quoted_cap s @ '' '' @ [CHR 0xE2, CHR 0x80, CHR 0x94]
                       @ '' expected instance:tool'')
                     else Inr (Capability.Tool inst tool))
                | None \<Rightarrow> if s = [] then Inl ''kj binding: a capability is required'' else Inr (Instance s))))"

definition cap_label :: "Capability \<Rightarrow> string" where
  "cap_label cap =
     (case cap of
        Instance i \<Rightarrow> i
      | Capability.Tool i t \<Rightarrow> i @ '':'' @ t
      | Facade name \<Rightarrow> ''facade:'' @ name
      | AllInstances \<Rightarrow> ''*''
      | AllFacades \<Rightarrow> ''facade:*''
      | Admin \<Rightarrow> ''admin''
      | RcWrite \<Rightarrow> ''rc-write''
      | _ \<Rightarrow> the (authority_name cap))"

end
