(* ===== verification/Binding_Db.thy ===== *)
theory Binding_Db
  imports Capabilities Context_Db
begin

text \<open>
  The tables of the tool bindings, \<open>crates/kaijutsu-kernel/src/kernel_db.rs\<close>: a parent row of flags per
  context and five tables of children.  The children of a context go with its parent row.
\<close>

record BindingRow =
  br_context_id :: ContextId
  br_all_instances :: bool
  br_all_facades :: bool
  br_binding_admin :: bool
  br_binding_rc_write :: bool
  br_updated_at :: i64

record BindingDb =
  bd_registry :: ContextDb
  bd_bindings :: "BindingRow list"
  bd_instances :: "(ContextId \<times> InstanceId \<times> nat) list"
  bd_tools :: "(ContextId \<times> ResolvedName \<times> nat) list"
  bd_facades :: "(ContextId \<times> string \<times> nat) list"
  bd_authorities :: "(ContextId \<times> string) list"
  bd_names :: "(ContextId \<times> string \<times> ResolvedName) list"

type_synonym 'a bop = "BindingDb \<Rightarrow> BindingDb \<times> (KernelDbError + 'a)"

definition bret :: "'a \<Rightarrow> 'a bop" where
  "bret a d = (d, Inr a)"

definition bbind :: "'a bop \<Rightarrow> ('a \<Rightarrow> 'b bop) \<Rightarrow> 'b bop" where
  "bbind m f d = (case m d of (d', Inl e) \<Rightarrow> (d', Inl e) | (d', Inr a) \<Rightarrow> f a d')"

text \<open>One call into SQLite, counted with the other calls of the database.\<close>

definition bsql :: "fault \<Rightarrow> 'a bop \<Rightarrow> 'a bop" where
  "bsql fault f d =
     (case sql fault (\<lambda>r. (r, Inr ())) (bd_registry d) of
        (r, Inl e) \<Rightarrow> (d\<lparr>bd_registry := r\<rparr>, Inl e)
      | (r, Inr _) \<Rightarrow> f (d\<lparr>bd_registry := r\<rparr>))"

definition exec :: "fault \<Rightarrow> (BindingDb \<Rightarrow> BindingDb) \<Rightarrow> unit bop" where
  "exec fault f = bsql fault (\<lambda>d. (f d, Inr ()))"

definition unique_violation :: KernelDbError where
  "unique_violation = KernelDbError.Db ''UNIQUE constraint failed''"

text \<open>The insertion of one row, refused when its key is taken.\<close>

definition insert_row :: "fault \<Rightarrow> (BindingDb \<Rightarrow> bool) \<Rightarrow> (BindingDb \<Rightarrow> BindingDb) \<Rightarrow> unit bop" where
  "insert_row fault taken add = bsql fault (\<lambda>d. if taken d then (d, Inl unique_violation) else (add d, Inr ()))"

fun exec_each :: "('x \<Rightarrow> unit bop) \<Rightarrow> 'x list \<Rightarrow> unit bop" where
  "exec_each f [] = bret ()"
| "exec_each f (x # xs) = bbind (f x) (\<lambda>_. exec_each f xs)"

definition put_flags :: "fault \<Rightarrow> BindingRow \<Rightarrow> unit bop" where
  "put_flags fault row = bsql fault (\<lambda>d.
     if \<not> context_exists (bd_registry d) (br_context_id row) then (d, Inl foreign_key)
     else (d\<lparr>bd_bindings := filter (\<lambda>r. br_context_id r \<noteq> br_context_id row) (bd_bindings d) @ [row]\<rparr>, Inr ()))"

definition put_instance :: "fault \<Rightarrow> ContextId \<Rightarrow> nat \<times> InstanceId \<Rightarrow> unit bop" where
  "put_instance fault ctx = (\<lambda>(n, i). insert_row fault (\<lambda>d. \<exists>r \<in> set (bd_instances d). fst r = ctx \<and> fst (snd r) = i)
     (\<lambda>d. d\<lparr>bd_instances := bd_instances d @ [(ctx, i, n)]\<rparr>))"

definition put_tool :: "fault \<Rightarrow> ContextId \<Rightarrow> nat \<times> ResolvedName \<Rightarrow> unit bop" where
  "put_tool fault ctx = (\<lambda>(n, p). insert_row fault (\<lambda>d. \<exists>r \<in> set (bd_tools d). fst r = ctx \<and> fst (snd r) = p)
     (\<lambda>d. d\<lparr>bd_tools := bd_tools d @ [(ctx, p, n)]\<rparr>))"

definition put_facade :: "fault \<Rightarrow> ContextId \<Rightarrow> nat \<times> string \<Rightarrow> unit bop" where
  "put_facade fault ctx = (\<lambda>(n, f). insert_row fault (\<lambda>d. \<exists>r \<in> set (bd_facades d). fst r = ctx \<and> fst (snd r) = f)
     (\<lambda>d. d\<lparr>bd_facades := bd_facades d @ [(ctx, f, n)]\<rparr>))"

definition put_authority :: "fault \<Rightarrow> ContextId \<Rightarrow> string \<times> unit \<Rightarrow> unit bop" where
  "put_authority fault ctx = (\<lambda>(a, _). insert_row fault (\<lambda>d. (ctx, a) \<in> set (bd_authorities d))
     (\<lambda>d. d\<lparr>bd_authorities := bd_authorities d @ [(ctx, a)]\<rparr>))"

definition put_name :: "fault \<Rightarrow> ContextId \<Rightarrow> string \<times> ResolvedName \<Rightarrow> unit bop" where
  "put_name fault ctx = (\<lambda>(v, p). insert_row fault (\<lambda>d. \<exists>r \<in> set (bd_names d). fst r = ctx \<and> fst (snd r) = v)
     (\<lambda>d. d\<lparr>bd_names := bd_names d @ [(ctx, v, p)]\<rparr>))"

definition binding_row :: "i64 \<Rightarrow> ContextId \<Rightarrow> ContextToolBinding \<Rightarrow> BindingRow" where
  "binding_row now ctx b =
     \<lparr>br_context_id = ctx, br_all_instances = tb_all_instances b, br_all_facades = tb_all_facades b,
      br_binding_admin = tb_binding_admin b, br_binding_rc_write = tb_binding_rc_write b, br_updated_at = now\<rparr>"

definition write_binding :: "fault \<Rightarrow> i64 \<Rightarrow> ContextId \<Rightarrow> ContextToolBinding \<Rightarrow> unit bop" where
  "write_binding fault now ctx b =
     bbind (put_flags fault (binding_row now ctx b)) (\<lambda>_.
     bbind (exec fault (\<lambda>d. d\<lparr>bd_instances := filter (\<lambda>r. fst r \<noteq> ctx) (bd_instances d)\<rparr>)) (\<lambda>_.
     bbind (exec fault (\<lambda>d. d\<lparr>bd_names := filter (\<lambda>r. fst r \<noteq> ctx) (bd_names d)\<rparr>)) (\<lambda>_.
     bbind (exec fault (\<lambda>d. d\<lparr>bd_tools := filter (\<lambda>r. fst r \<noteq> ctx) (bd_tools d)\<rparr>)) (\<lambda>_.
     bbind (exec fault (\<lambda>d. d\<lparr>bd_facades := filter (\<lambda>r. fst r \<noteq> ctx) (bd_facades d)\<rparr>)) (\<lambda>_.
     bbind (exec fault (\<lambda>d. d\<lparr>bd_authorities := filter (\<lambda>r. fst r \<noteq> ctx) (bd_authorities d)\<rparr>)) (\<lambda>_.
     bbind (exec_each (put_instance fault ctx) (enumerate 0 (tb_allowed_instances b))) (\<lambda>_.
     bbind (exec_each (put_tool fault ctx) (enumerate 0 (tb_allowed_tools b))) (\<lambda>_.
     bbind (exec_each (put_facade fault ctx) (enumerate 0 (tb_allowed_facades b))) (\<lambda>_.
     bbind (exec_each (put_authority fault ctx) (tb_authorities b)) (\<lambda>_.
     exec_each (put_name fault ctx) (tb_name_map b)))))))))))"

text \<open>In one transaction: a failure undoes everything, but not the count of calls.\<close>

definition transaction :: "fault \<Rightarrow> unit bop \<Rightarrow> unit bop" where
  "transaction fault m d =
     (case bbind (exec fault id) (\<lambda>_. bbind m (\<lambda>_. exec fault id)) d of
        (d', Inl e) \<Rightarrow> (d\<lparr>bd_registry := bd_registry d'\<rparr>, Inl e)
      | (d', Inr _) \<Rightarrow> (d', Inr ()))"

definition upsert_context_binding :: "fault \<Rightarrow> i64 \<Rightarrow> ContextId \<Rightarrow> ContextToolBinding \<Rightarrow> unit bop" where
  "upsert_context_binding fault now ctx b = transaction fault (write_binding fault now ctx b)"

text \<open>
  The flags are read with \<open>ok()\<close>: a failure there looks like a context that was never bound.  The other
  queries report their failures.
\<close>

definition query :: "fault \<Rightarrow> (BindingDb \<Rightarrow> 'a) \<Rightarrow> 'a bop" where
  "query fault f = bsql fault (\<lambda>d. (d, Inr (f d)))"

definition ordered_rows :: "ContextId \<Rightarrow> (ContextId \<times> 'a \<times> nat) list \<Rightarrow> 'a list" where
  "ordered_rows ctx rows = map (fst \<circ> snd) (sort_key (snd \<circ> snd) (filter (\<lambda>r. fst r = ctx) rows))"

definition get_context_binding :: "fault \<Rightarrow> ContextId \<Rightarrow> ContextToolBinding option bop" where
  "get_context_binding fault ctx d =
     (case query fault (\<lambda>d. List.find (\<lambda>r. br_context_id r = ctx) (bd_bindings d)) d of
        (d, Inl _) \<Rightarrow> (d, Inr None)
      | (d, Inr None) \<Rightarrow> (d, Inr None)
      | (d, Inr (Some row)) \<Rightarrow>
          bbind (query fault (\<lambda>d. ordered_rows ctx (bd_instances d))) (\<lambda>instances.
          bbind (query fault (\<lambda>d. ordered_rows ctx (bd_tools d))) (\<lambda>tools.
          bbind (query fault (\<lambda>d. ordered_rows ctx (bd_facades d))) (\<lambda>facades.
          bbind (query fault (\<lambda>d. map snd (filter (\<lambda>r. fst r = ctx) (bd_authorities d)))) (\<lambda>authorities.
          bbind (query fault (\<lambda>d. map snd (filter (\<lambda>r. fst r = ctx) (bd_names d)))) (\<lambda>names.
          bret (Some \<lparr>tb_all_instances = br_all_instances row, tb_all_facades = br_all_facades row,
            tb_binding_admin = br_binding_admin row, tb_binding_rc_write = br_binding_rc_write row,
            tb_allowed_instances = instances, tb_allowed_tools = tools, tb_allowed_facades = facades,
            tb_authorities = fold (\<lambda>a. bt_insert a ()) authorities [],
            tb_name_map = fold (\<lambda>(v, p). bt_insert v p) names []\<rparr>)))))) d)"

definition drop_binding :: "ContextId \<Rightarrow> BindingDb \<Rightarrow> BindingDb" where
  "drop_binding ctx d = d\<lparr>bd_bindings := filter (\<lambda>r. br_context_id r \<noteq> ctx) (bd_bindings d),
     bd_instances := filter (\<lambda>r. fst r \<noteq> ctx) (bd_instances d), bd_tools := filter (\<lambda>r. fst r \<noteq> ctx) (bd_tools d),
     bd_facades := filter (\<lambda>r. fst r \<noteq> ctx) (bd_facades d), bd_authorities := filter (\<lambda>r. fst r \<noteq> ctx) (bd_authorities d),
     bd_names := filter (\<lambda>r. fst r \<noteq> ctx) (bd_names d)\<rparr>"

definition delete_context_binding :: "fault \<Rightarrow> ContextId \<Rightarrow> bool bop" where
  "delete_context_binding fault ctx = bsql fault (\<lambda>d. (drop_binding ctx d, Inr (ctx \<in> br_context_id ` set (bd_bindings d))))"

definition copy_context_binding :: "fault \<Rightarrow> i64 \<Rightarrow> ContextId \<Rightarrow> ContextId \<Rightarrow> bool bop" where
  "copy_context_binding fault now source target =
     bbind (get_context_binding fault source) (\<lambda>b.
       case b of
         Some b \<Rightarrow> bbind (upsert_context_binding fault now target b) (\<lambda>_. bret True)
       | None \<Rightarrow> bret False)"

end
