(* ===== verification/Tool_Broker.thy ===== *)
theory Tool_Broker
  imports Binding_Db Order_Keys
begin

text \<open>
  The tool broker, \<open>crates/kaijutsu-kernel/src/mcp/broker.rs\<close>: bindings of contexts with their cache over
  the database, the visible tools of a context, the gate of facades, and the pipeline of a tool call
  with its hooks; and the commands that read and write bindings, \<open>kj/binding.rs\<close> and \<open>kj/mod.rs\<close>.

  Parameters: glob matching, the tools a server lists, what a server answers to a call (it may change
  the broker, and it may be cancelled or run into its timeout), what a hook body does, and the printer
  of JSON values.  Awaits are where calls interleave: \<open>list_visible_tools\<close> is given in the two parts
  before and after it asks the servers.
\<close>

section \<open>Types\<close>

record 'j KernelTool =
  kt_instance :: InstanceId
  kt_name :: string
  kt_description :: "string option"
  kt_input_schema :: 'j

datatype 'j ToolContent = Text string | Json 'j

record 'j KernelToolResult =
  tr_is_error :: bool
  tr_content :: "'j ToolContent list"
  tr_structured :: "'j option"

record 'j KernelCallParams =
  cp_instance :: InstanceId
  cp_tool :: string
  cp_arguments :: 'j

record CallContext =
  cc_principal_id :: PrincipalId
  cc_context_id :: ContextId

type_synonym HookId = string

datatype PolicyError =
    Timeout InstanceId nat
  | ConcurrencyCap InstanceId nat
  | ResultTooLarge InstanceId nat nat

datatype McpError =
    Unsupported
  | ToolNotFound InstanceId string
  | InstanceNotFound InstanceId
  | InstanceDown InstanceId string
  | InvalidParams string
  | Protocol string
  | Io string
  | Cancelled
  | Denied HookId
  | CapabilityDenied InstanceId string
  | FacadeDenied string
  | LoadoutDenied ContextId string
  | BindingUnavailable ContextId string
  | HookRecursionLimit nat
  | Coalescer string
  | Policy PolicyError

record InstancePolicy =
  ip_call_timeout_ms :: nat
  ip_max_result_bytes :: nat
  ip_max_concurrency :: nat

definition policy_default :: InstancePolicy where
  "policy_default = \<lparr>ip_call_timeout_ms = 120000, ip_max_result_bytes = 64 * 1024 * 1024, ip_max_concurrency = 16\<rparr>"

datatype McpHookPhase = PreCall | PostCall | OnError | OnNotification | ListTools

datatype HookBody = Builtin string | Kaish string

datatype 'j HookAction = Invoke HookBody | ShortCircuit "'j KernelToolResult" | Deny string | Log string

record 'j HookEntry =
  he_id :: HookId
  he_match_instance :: "string option"
  he_match_tool :: "string option"
  he_match_context :: "ContextId option"
  he_match_principal :: "PrincipalId option"
  he_action :: "'j HookAction"
  he_priority :: int

datatype 'j PhaseOutcome = Continue | ShortCircuited HookId "'j KernelToolResult" | PhaseDenied HookId string

datatype 'j PhasePayload = NoPayload | ResultPayload "'j KernelToolResult" | ErrorPayload McpError

text \<open>The notices that a changed binding announces: the context, the instance, the kind, the tools.\<close>

type_synonym binding_notice = "ContextId \<times> InstanceId \<times> NotificationKind \<times> string list"

text \<open>The permits of an instance.  A registration makes a new semaphore; calls under way keep the old one.\<close>

record Semaphore =
  sm_serial :: nat
  sm_permits :: nat

record 'j Broker =
  bk_instances :: "InstanceId list"
  bk_bindings :: "ContextId \<rightharpoonup> ContextToolBinding"
  bk_policies :: "InstanceId \<rightharpoonup> InstancePolicy"
  bk_semaphores :: "InstanceId \<rightharpoonup> Semaphore"
  bk_serial :: nat
  bk_hooks :: "McpHookPhase \<Rightarrow> 'j HookEntry list"
  bk_tool_snapshots :: "InstanceId \<rightharpoonup> 'j KernelTool list"
  bk_subscriptions :: "ContextId \<rightharpoonup> (InstanceId \<times> string) list"
  bk_resource_parents :: "(ContextId \<times> InstanceId \<times> string) \<rightharpoonup> BlockId"
  bk_db :: "BindingDb option"
  bk_enforce_unbound_deny :: bool
  bk_notices :: "binding_notice list"

definition broker_new :: "'j Broker" where
  "broker_new = \<lparr>bk_instances = [], bk_bindings = Map.empty, bk_policies = Map.empty, bk_semaphores = Map.empty, bk_serial = 0,
     bk_hooks = (\<lambda>_. []), bk_tool_snapshots = Map.empty, bk_subscriptions = Map.empty, bk_resource_parents = Map.empty,
     bk_db = None, bk_enforce_unbound_deny = False, bk_notices = []\<rparr>"

definition engage_unbound_deny :: "'j Broker \<Rightarrow> 'j Broker" where
  "engage_unbound_deny k = k\<lparr>bk_enforce_unbound_deny := True\<rparr>"

datatype 'j call_outcome = Answered "McpError + 'j KernelToolResult" | TimedOut | WasCancelled

record 'j broker_env =
  be_glob :: "string \<Rightarrow> string \<Rightarrow> bool"
  be_list_tools :: "InstanceId \<Rightarrow> McpError + 'j KernelTool list"
  be_call :: "'j KernelCallParams \<Rightarrow> CallContext \<Rightarrow> 'j Broker \<Rightarrow> 'j Broker \<times> 'j call_outcome"
  be_invoke :: "McpHookPhase \<Rightarrow> HookBody \<Rightarrow> nat \<Rightarrow> 'j KernelCallParams \<Rightarrow> CallContext \<Rightarrow> 'j PhasePayload
    \<Rightarrow> 'j Broker \<Rightarrow> 'j Broker \<times> (string + unit)"
  be_json :: "'j \<Rightarrow> string"
  be_fault :: fault

section \<open>Bindings\<close>

text \<open>From the cache, or from the database on a miss; a failed read counts as absent.\<close>

definition broker_binding :: "'j broker_env \<Rightarrow> ContextId \<Rightarrow> 'j Broker \<Rightarrow> 'j Broker \<times> ContextToolBinding option" where
  "broker_binding E ctx k =
     (case bk_bindings k ctx of
        Some b \<Rightarrow> (k, Some b)
      | None \<Rightarrow>
          (case bk_db k of
             None \<Rightarrow> (k, None)
           | Some d \<Rightarrow>
               (case get_context_binding (be_fault E) ctx d of
                  (d, Inl _) \<Rightarrow> (k\<lparr>bk_db := Some d\<rparr>, None)
                | (d, Inr None) \<Rightarrow> (k\<lparr>bk_db := Some d\<rparr>, None)
                | (d, Inr (Some b)) \<Rightarrow> (k\<lparr>bk_db := Some d, bk_bindings := (bk_bindings k)(ctx \<mapsto> b)\<rparr>, Some b))))"

definition binding_checked :: "'j broker_env \<Rightarrow> ContextId \<Rightarrow> 'j Broker \<Rightarrow> 'j Broker \<times> (McpError + ContextToolBinding)" where
  "binding_checked E ctx k =
     (case bk_bindings k ctx of
        Some b \<Rightarrow> (k, Inr b)
      | None \<Rightarrow>
          (case bk_db k of
             None \<Rightarrow> (k, Inr binding_new)
           | Some d \<Rightarrow>
               (case get_context_binding (be_fault E) ctx d of
                  (d, Inl e) \<Rightarrow> (k\<lparr>bk_db := Some d\<rparr>, Inl (BindingUnavailable ctx (KernelDbError_to_string e)))
                | (d, Inr None) \<Rightarrow> (k\<lparr>bk_db := Some d\<rparr>, Inr binding_new)
                | (d, Inr (Some b)) \<Rightarrow> (k\<lparr>bk_db := Some d, bk_bindings := (bk_bindings k)(ctx \<mapsto> b)\<rparr>, Inr b))))"

definition binding_or_default :: "'j broker_env \<Rightarrow> ContextId \<Rightarrow> 'j Broker \<Rightarrow> 'j Broker \<times> ContextToolBinding" where
  "binding_or_default E ctx k =
     (case broker_binding E ctx k of (k, b) \<Rightarrow> (k, case b of Some b \<Rightarrow> b | None \<Rightarrow> binding_new))"

definition binding_visible_tool_pairs :: "ContextToolBinding \<Rightarrow> 'j Broker \<Rightarrow> (InstanceId \<times> string) set" where
  "binding_visible_tool_pairs b k =
     (\<Union>i \<in> set (candidate_instances b).
        case bk_tool_snapshots k i of
          None \<Rightarrow> {}
        | Some tools \<Rightarrow> (\<lambda>t. (i, kt_name t)) ` {t \<in> set tools. allows_tool b i (kt_name t)})"

definition group_pairs_by_instance :: "(InstanceId \<times> string) set \<Rightarrow> (InstanceId \<times> string list) list" where
  "group_pairs_by_instance ps =
     map (\<lambda>i. (i, sorted_list_of_set (snd ` {p \<in> ps. fst p = i}))) (sorted_list_of_set (fst ` ps))"

definition emit_binding_diff :: "ContextId \<Rightarrow> (InstanceId \<times> string) set \<Rightarrow> (InstanceId \<times> string) set \<Rightarrow> 'j Broker \<Rightarrow> 'j Broker" where
  "emit_binding_diff ctx old new k = k\<lparr>bk_notices := bk_notices k
     @ map (\<lambda>(i, ts). (ctx, i, NotificationKind.ToolAdded, ts)) (group_pairs_by_instance (new - old))
     @ map (\<lambda>(i, ts). (ctx, i, NotificationKind.ToolRemoved, ts)) (group_pairs_by_instance (old - new))\<rparr>"

text \<open>A failed write is only logged.\<close>

definition persist_binding :: "'j broker_env \<Rightarrow> i64 \<Rightarrow> ContextId \<Rightarrow> ContextToolBinding \<Rightarrow> 'j Broker \<Rightarrow> 'j Broker" where
  "persist_binding E now ctx b k =
     (case bk_db k of
        None \<Rightarrow> k
      | Some d \<Rightarrow> k\<lparr>bk_db := Some (fst (upsert_context_binding (be_fault E) now ctx b d))\<rparr>)"

definition set_binding :: "'j broker_env \<Rightarrow> i64 \<Rightarrow> ContextId \<Rightarrow> ContextToolBinding \<Rightarrow> 'j Broker \<Rightarrow> 'j Broker" where
  "set_binding E now ctx b k =
     (let old = (case bk_bindings k ctx of Some b \<Rightarrow> b | None \<Rightarrow> binding_new);
          old_pairs = binding_visible_tool_pairs old k;
          new_pairs = binding_visible_tool_pairs b k
      in emit_binding_diff ctx old_pairs new_pairs
           (persist_binding E now ctx b (k\<lparr>bk_bindings := (bk_bindings k)(ctx \<mapsto> b)\<rparr>)))"

definition broker_bind :: "'j broker_env \<Rightarrow> i64 \<Rightarrow> ContextId \<Rightarrow> InstanceId \<Rightarrow> 'j Broker \<Rightarrow> 'j Broker" where
  "broker_bind E now ctx i k = (case binding_or_default E ctx k of (k, b) \<Rightarrow> set_binding E now ctx (allow i b) k)"

definition broker_unbind :: "'j broker_env \<Rightarrow> i64 \<Rightarrow> ContextId \<Rightarrow> InstanceId \<Rightarrow> 'j Broker \<Rightarrow> 'j Broker" where
  "broker_unbind E now ctx i k = (case binding_or_default E ctx k of (k, b) \<Rightarrow> set_binding E now ctx (revoke i b) k)"

text \<open>The servers are told of the dropped subscriptions, and their answers are ignored.\<close>

definition clear_binding :: "ContextId \<Rightarrow> 'j Broker \<Rightarrow> 'j Broker" where
  "clear_binding ctx k = k\<lparr>bk_subscriptions := (bk_subscriptions k)(ctx := None),
     bk_resource_parents := (\<lambda>key. if fst key = ctx then None else bk_resource_parents k key),
     bk_bindings := (bk_bindings k)(ctx := None)\<rparr>"

definition check_facade :: "'j broker_env \<Rightarrow> ContextId \<Rightarrow> string \<Rightarrow> 'j Broker \<Rightarrow> 'j Broker \<times> (McpError + unit)" where
  "check_facade E ctx facade k =
     (case binding_or_default E ctx k of
        (k, b) \<Rightarrow> (k, if allows b (Facade facade) then Inr () else Inl (FacadeDenied facade)))"

section \<open>Hooks\<close>

definition hook_matches :: "'j broker_env \<Rightarrow> 'j HookEntry \<Rightarrow> InstanceId \<Rightarrow> string \<Rightarrow> CallContext \<Rightarrow> bool" where
  "hook_matches E e i t ctx \<longleftrightarrow>
     (case he_match_instance e of Some g \<Rightarrow> be_glob E g i | None \<Rightarrow> True)
     \<and> (case he_match_tool e of Some g \<Rightarrow> be_glob E g t | None \<Rightarrow> True)
     \<and> (case he_match_context e of Some c \<Rightarrow> c = cc_context_id ctx | None \<Rightarrow> True)
     \<and> (case he_match_principal e of Some p \<Rightarrow> p = cc_principal_id ctx | None \<Rightarrow> True)"

text \<open>The entries in the order of evaluation: by priority, and among equals as they were added.\<close>

definition by_priority :: "'j HookEntry list \<Rightarrow> 'j HookEntry list" where
  "by_priority = sort_key he_priority"

definition hides :: "'j HookEntry \<Rightarrow> bool" where
  "hides e = (case he_action e of Deny _ \<Rightarrow> True | _ \<Rightarrow> False)"

definition apply_list_tools_filter ::
  "'j broker_env \<Rightarrow> CallContext \<Rightarrow> 'j Broker \<Rightarrow> 'j KernelTool list \<Rightarrow> 'j KernelTool list" where
  "apply_list_tools_filter E ctx k tools =
     filter (\<lambda>t. \<not> list_ex (\<lambda>e. hook_matches E e (kt_instance t) (kt_name t) ctx \<and> hides e) (by_priority (bk_hooks k ListTools))) tools"

definition MAX_HOOK_DEPTH :: nat where
  "MAX_HOOK_DEPTH = 4"

fun run_hooks ::
  "'j broker_env \<Rightarrow> McpHookPhase \<Rightarrow> nat \<Rightarrow> 'j KernelCallParams \<Rightarrow> CallContext \<Rightarrow> 'j PhasePayload \<Rightarrow> 'j HookEntry list
    \<Rightarrow> 'j Broker \<Rightarrow> 'j Broker \<times> (McpError + 'j PhaseOutcome)" where
  "run_hooks E phase depth ps ctx pl [] k = (k, Inr Continue)"
| "run_hooks E phase depth ps ctx pl (e # es) k =
     (case he_action e of
        Log _ \<Rightarrow> run_hooks E phase depth ps ctx pl es k
      | Deny reason \<Rightarrow> (k, Inr (PhaseDenied (he_id e) reason))
      | ShortCircuit r \<Rightarrow> (k, Inr (ShortCircuited (he_id e) r))
      | Invoke body \<Rightarrow>
          (if MAX_HOOK_DEPTH < depth + 1 then (k, Inl (HookRecursionLimit (depth + 1)))
           else case be_invoke E phase body (depth + 1) ps ctx pl k of
             (k, Inl reason) \<Rightarrow>
               (k, Inr (PhaseDenied (he_id e)
                 (case body of Builtin name \<Rightarrow> ''hook body `'' @ name @ ''` returned error: '' @ reason | Kaish _ \<Rightarrow> reason)))
           | (k, Inr _) \<Rightarrow> run_hooks E phase depth ps ctx pl es k))"

definition evaluate_phase ::
  "'j broker_env \<Rightarrow> McpHookPhase \<Rightarrow> nat \<Rightarrow> 'j KernelCallParams \<Rightarrow> CallContext \<Rightarrow> 'j PhasePayload
    \<Rightarrow> 'j Broker \<Rightarrow> 'j Broker \<times> (McpError + 'j PhaseOutcome)" where
  "evaluate_phase E phase depth ps ctx pl k =
     run_hooks E phase depth ps ctx pl
       (by_priority (filter (\<lambda>e. hook_matches E e (cp_instance ps) (cp_tool ps) ctx) (bk_hooks k phase))) k"

section \<open>Visible tools\<close>

definition is_name_char :: "char \<Rightarrow> bool" where
  "is_name_char c \<longleftrightarrow>
     (let n = (of_char c :: nat) in 48 \<le> n \<and> n \<le> 57 \<or> 65 \<le> n \<and> n \<le> 90 \<or> 97 \<le> n \<and> n \<le> 122 \<or> n = 95 \<or> n = 45)"

text \<open>Every scalar value that is not a letter, a digit, an underscore or a hyphen becomes one underscore.\<close>

definition clean_visible_tool_name :: "string \<Rightarrow> string" where
  "clean_visible_tool_name raw =
     take 128 (map (\<lambda>c. if is_name_char c then c else CHR ''_'') (filter (\<lambda>c. \<not> is_continuation c) raw))"

definition list_servers :: "ContextToolBinding \<Rightarrow> 'j Broker \<Rightarrow> InstanceId list" where
  "list_servers b k =
     (if tb_all_instances b then bk_instances k
      else filter (\<lambda>i. i \<in> set (bk_instances k)) (candidate_instances b))"

fun gather_tools :: "'j broker_env \<Rightarrow> ContextToolBinding \<Rightarrow> InstanceId list \<Rightarrow> McpError + 'j KernelTool list" where
  "gather_tools E b [] = Inr []"
| "gather_tools E b (i # is) =
     (case be_list_tools E i of
        Inl e \<Rightarrow> Inl e
      | Inr tools \<Rightarrow>
          (case gather_tools E b is of
             Inl e \<Rightarrow> Inl e
           | Inr rest \<Rightarrow> Inr (filter (\<lambda>t. allows_tool b (kt_instance t) (kt_name t)) tools @ rest)))"

definition resolutions :: "'j KernelTool list \<Rightarrow> (ResolvedName \<times> string) list" where
  "resolutions tools =
     map (\<lambda>t. ((kt_instance t, kt_name t),
       clean_visible_tool_name
         (if 1 < length (filter (\<lambda>u. kt_name u = kt_name t) tools) then kt_instance t @ ''__'' @ kt_name t else kt_name t))) tools"

text \<open>The part after the servers have answered: names are resolved and the binding written back to the cache.\<close>

definition list_finish ::
  "'j broker_env \<Rightarrow> CallContext \<Rightarrow> ContextId \<Rightarrow> ContextToolBinding \<Rightarrow> 'j KernelTool list \<Rightarrow> 'j Broker
    \<Rightarrow> 'j Broker \<times> (string \<times> 'j KernelTool) list" where
  "list_finish E cc ctx b tools k =
     (let tools = apply_list_tools_filter E cc k tools;
          b = apply_resolutions (resolutions tools) b
      in (k\<lparr>bk_bindings := (bk_bindings k)(ctx \<mapsto> b)\<rparr>,
          List.map_filter (\<lambda>t. map_option (\<lambda>(v, _). (v, t))
            (List.find (\<lambda>(_, p). p = (kt_instance t, kt_name t)) (tb_name_map b))) tools))"

definition list_visible_tools ::
  "'j broker_env \<Rightarrow> CallContext \<Rightarrow> ContextId \<Rightarrow> 'j Broker \<Rightarrow> 'j Broker \<times> (McpError + (string \<times> 'j KernelTool) list)" where
  "list_visible_tools E cc ctx k =
     (case binding_or_default E ctx k of
        (k, b) \<Rightarrow>
          (case gather_tools E b (list_servers b k) of
             Inl e \<Rightarrow> (k, Inl e)
           | Inr tools \<Rightarrow> (case list_finish E cc ctx b tools k of (k, out) \<Rightarrow> (k, Inr out))))"

section \<open>Tool calls\<close>

definition content_text_of :: "'j broker_env \<Rightarrow> 'j ToolContent \<Rightarrow> string" where
  "content_text_of E c = (case c of Text s \<Rightarrow> s | Json v \<Rightarrow> be_json E v)"

definition estimate_result_size :: "'j broker_env \<Rightarrow> 'j KernelToolResult \<Rightarrow> nat" where
  "estimate_result_size E r =
     sum_list (map (\<lambda>c. length (content_text_of E c)) (tr_content r))
     + (case tr_structured r of Some v \<Rightarrow> length (be_json E v) | None \<Rightarrow> 0)"

definition truncation_footer :: "nat \<Rightarrow> string" where
  "truncation_footer dropped = [CHR 0x0A, CHR 0x0A] @ ''[truncated '' @ show_nat dropped @ '' bytes '' @ [CHR 0xE2, CHR 0x80, CHR 0x94]
     @ '' output exceeded max_result_bytes]''"

fun keep_items :: "'j broker_env \<Rightarrow> nat \<Rightarrow> nat \<Rightarrow> 'j ToolContent list \<Rightarrow> 'j ToolContent list" where
  "keep_items E body_budget used [] = []"
| "keep_items E body_budget used (item # items) =
     (let text = content_text_of E item in
      if used + length text \<le> body_budget then item # keep_items E body_budget (used + length text) items
      else
        (let remaining = body_budget - used;
             cut = boundary_below text (min remaining (length text))
         in if 0 < remaining \<and> 0 < cut then [Text (take cut text)] else []))"

definition truncate_result_to_budget :: "'j broker_env \<Rightarrow> 'j KernelToolResult \<Rightarrow> nat \<Rightarrow> nat \<Rightarrow> 'j KernelToolResult" where
  "truncate_result_to_budget E r budget original_size =
     (let footer = truncation_footer (original_size - budget)
      in r\<lparr>tr_structured := None,
           tr_content := keep_items E (budget - length footer) 0 (tr_content r) @ [Text footer]\<rparr>)"

definition run_on_error_then_err ::
  "'j broker_env \<Rightarrow> nat \<Rightarrow> 'j KernelCallParams \<Rightarrow> CallContext \<Rightarrow> McpError \<Rightarrow> 'j Broker
    \<Rightarrow> 'j Broker \<times> (McpError + 'j KernelToolResult)" where
  "run_on_error_then_err E depth ps ctx err k =
     (case evaluate_phase E OnError depth ps ctx (ErrorPayload err) k of
        (k, Inr Continue) \<Rightarrow> (k, Inl err)
      | (k, Inr (ShortCircuited _ r)) \<Rightarrow> (k, Inr r)
      | (k, Inr (PhaseDenied i _)) \<Rightarrow> (k, Inl (Denied i))
      | (k, Inl _) \<Rightarrow> (k, Inl err))"

definition post_call ::
  "'j broker_env \<Rightarrow> nat \<Rightarrow> 'j KernelCallParams \<Rightarrow> CallContext \<Rightarrow> 'j KernelToolResult \<Rightarrow> 'j Broker
    \<Rightarrow> 'j Broker \<times> (McpError + 'j KernelToolResult)" where
  "post_call E depth ps ctx r k =
     (case evaluate_phase E PostCall depth ps ctx (ResultPayload r) k of
        (k, Inl e) \<Rightarrow> (k, Inl e)
      | (k, Inr Continue) \<Rightarrow> (k, Inr r)
      | (k, Inr (ShortCircuited _ r2)) \<Rightarrow> (k, Inr r2)
      | (k, Inr (PhaseDenied i _)) \<Rightarrow> (k, Inl (Denied i)))"

text \<open>What follows once the capability and a permit are there.\<close>

definition call_pipeline ::
  "'j broker_env \<Rightarrow> nat \<Rightarrow> InstancePolicy \<Rightarrow> 'j KernelCallParams \<Rightarrow> CallContext \<Rightarrow> 'j Broker
    \<Rightarrow> 'j Broker \<times> (McpError + 'j KernelToolResult)" where
  "call_pipeline E depth policy ps ctx k =
     (case evaluate_phase E PreCall depth ps ctx NoPayload k of
        (k, Inl e) \<Rightarrow> (k, Inl e)
      | (k, Inr (ShortCircuited _ r)) \<Rightarrow> post_call E depth ps ctx r k
      | (k, Inr (PhaseDenied i _)) \<Rightarrow> (k, Inl (Denied i))
      | (k, Inr Continue) \<Rightarrow>
          (case be_call E ps ctx k of
             (k, Answered (Inr r)) \<Rightarrow>
               (let size = estimate_result_size E r;
                    r = (if ip_max_result_bytes policy < size
                         then truncate_result_to_budget E r (ip_max_result_bytes policy) size else r)
                in post_call E depth ps ctx r k)
           | (k, Answered (Inl e)) \<Rightarrow> run_on_error_then_err E depth ps ctx e k
           | (k, TimedOut) \<Rightarrow>
               run_on_error_then_err E depth ps ctx (Policy (Timeout (cp_instance ps) (ip_call_timeout_ms policy))) k
           | (k, WasCancelled) \<Rightarrow> run_on_error_then_err E depth ps ctx Cancelled k))"

text \<open>
  A permit of the instance is held for the time of the call and given back, on every path, to the
  semaphore it came from.
\<close>

definition with_permit ::
  "InstanceId \<Rightarrow> InstancePolicy \<Rightarrow> ('j Broker \<Rightarrow> 'j Broker \<times> (McpError + 'a)) \<Rightarrow> 'j Broker \<Rightarrow> 'j Broker \<times> (McpError + 'a)" where
  "with_permit i policy f k =
     (case bk_semaphores k i of
        None \<Rightarrow> f k
      | Some s \<Rightarrow>
          (if sm_permits s = 0 then (k, Inl (Policy (ConcurrencyCap i (ip_max_concurrency policy))))
           else
             (case f (k\<lparr>bk_semaphores := (bk_semaphores k)(i \<mapsto> s\<lparr>sm_permits := sm_permits s - 1\<rparr>)\<rparr>) of
                (k, r) \<Rightarrow>
                  (k\<lparr>bk_semaphores := (bk_semaphores k)(i := map_option
                       (\<lambda>c. if sm_serial c = sm_serial s then c\<lparr>sm_permits := sm_permits c + 1\<rparr> else c) (bk_semaphores k i))\<rparr>, r))))"

definition tool_allowed :: "'j broker_env \<Rightarrow> ContextId \<Rightarrow> InstanceId \<Rightarrow> string \<Rightarrow> 'j Broker \<Rightarrow> 'j Broker \<times> bool" where
  "tool_allowed E ctx i t k =
     (case broker_binding E ctx k of
        (k, Some b) \<Rightarrow> (k, allows_tool b i t)
      | (k, None) \<Rightarrow> (k, \<not> bk_enforce_unbound_deny k))"

definition call_tool ::
  "'j broker_env \<Rightarrow> nat \<Rightarrow> 'j KernelCallParams \<Rightarrow> CallContext \<Rightarrow> 'j Broker \<Rightarrow> 'j Broker \<times> (McpError + 'j KernelToolResult)" where
  "call_tool E depth ps ctx k =
     (if cp_instance ps \<notin> set (bk_instances k) then (k, Inl (InstanceNotFound (cp_instance ps)))
      else case tool_allowed E (cc_context_id ctx) (cp_instance ps) (cp_tool ps) k of
        (k, allowed) \<Rightarrow>
          (if \<not> allowed then (k, Inl (CapabilityDenied (cp_instance ps) (cp_tool ps)))
           else
             (let policy = (case bk_policies k (cp_instance ps) of Some p \<Rightarrow> p | None \<Rightarrow> policy_default)
              in with_permit (cp_instance ps) policy (call_pipeline E depth policy ps ctx) k)))"

section \<open>Commands\<close>

record KjCaller =
  kc_context_id :: "ContextId option"
  kc_privileged :: bool

text \<open>The authority that the other commands ask for, read from the database.\<close>

definition require_cap ::
  "uuid_lib \<Rightarrow> fault \<Rightarrow> KjCaller \<Rightarrow> Capability \<Rightarrow> string \<Rightarrow> BindingDb \<Rightarrow> BindingDb \<times> (string + unit)" where
  "require_cap U fault caller cap verb d =
     (if kc_privileged caller then (d, Inr ())
      else case kc_context_id caller of
        None \<Rightarrow>
          (d, Inl (''kj '' @ verb @ '': denied '' @ [CHR 0xE2, CHR 0x80, CHR 0x94]
            @ '' no active context to authorize against; this verb requires the '' @ quoted_cap (cap_label cap) @ '' capability''))
      | Some ctx \<Rightarrow>
          (case get_context_binding fault ctx d of
             (d, r) \<Rightarrow>
               (if (case r of Inr (Some b) \<Rightarrow> allows b cap | _ \<Rightarrow> False) then (d, Inr ())
                else (d, Inl (''kj '' @ verb @ '': denied '' @ [CHR 0xE2, CHR 0x80, CHR 0x94] @ '' context '' @ short U ctx
                  @ '' lacks the '' @ quoted_cap (cap_label cap) @ '' capability (grant with `kj binding allow '' @ [CHR 0x22]
                  @ cap_label cap @ [CHR 0x22] @ ''`)'')))))"

definition authorize_binding_write ::
  "'j broker_env \<Rightarrow> KjCaller \<Rightarrow> ContextId \<Rightarrow> bool \<Rightarrow> 'j Broker \<Rightarrow> 'j Broker \<times> (string + unit)" where
  "authorize_binding_write E caller target widening k =
     (if kc_privileged caller then (k, Inr ())
      else
        (let (k, is_admin) = (case kc_context_id caller of
               Some c \<Rightarrow> (case broker_binding E c k of (k, b) \<Rightarrow> (k, case b of Some b \<Rightarrow> tb_binding_admin b | None \<Rightarrow> False))
             | None \<Rightarrow> (k, False))
         in if is_admin then (k, Inr ())
            else if kc_context_id caller \<noteq> Some target
            then (k, Inl (''kj binding: only a binding-admin context (or the rc lifecycle) may modify another context''
                    @ [CHR 0x27] @ ''s loadout''))
            else if widening
            then (k, Inl (''kj binding: this context may only narrow (revoke) its own loadout; ''
                    @ ''widening needs a binding-admin context or the rc lifecycle''))
            else (k, Inr ())))"

text \<open>\<open>target\<close> is what the context reference of the command resolved to.\<close>

definition binding_mutate ::
  "'j broker_env \<Rightarrow> uuid_lib \<Rightarrow> i64 \<Rightarrow> string \<Rightarrow> string + ContextId \<Rightarrow> KjCaller \<Rightarrow> bool \<Rightarrow> 'j Broker \<Rightarrow> 'j Broker \<times> (string + string)" where
  "binding_mutate E U now cap target caller widen k =
     (case parse_capability cap of
        Inl m \<Rightarrow> (k, Inl m)
      | Inr cap \<Rightarrow>
          (case target of
             Inl m \<Rightarrow> (k, Inl m)
           | Inr ctx \<Rightarrow>
               (case authorize_binding_write E caller ctx widen k of
                  (k, Inl m) \<Rightarrow> (k, Inl m)
                | (k, Inr _) \<Rightarrow>
                    (case binding_or_default E ctx k of
                       (k, b) \<Rightarrow>
                         (set_binding E now ctx (if widen then grant cap b else revoke_cap cap b) k,
                          Inr ((if widen then ''allowed'' else ''revoked'') @ '' '' @ cap_label cap @ '' on context '' @ short U ctx))))))"

definition binding_reset ::
  "'j broker_env \<Rightarrow> uuid_lib \<Rightarrow> string + ContextId \<Rightarrow> KjCaller \<Rightarrow> 'j Broker \<Rightarrow> 'j Broker \<times> (string + string)" where
  "binding_reset E U target caller k =
     (case target of
        Inl m \<Rightarrow> (k, Inl m)
      | Inr ctx \<Rightarrow>
          (case authorize_binding_write E caller ctx False k of
             (k, Inl m) \<Rightarrow> (k, Inl m)
           | (k, Inr _) \<Rightarrow>
               (clear_binding ctx k,
                Inr (''reset context '' @ short U ctx @ '' '' @ [CHR 0xE2, CHR 0x80, CHR 0x94]
                  @ '' now denies all (deny-by-default; grant with `kj binding allow`)''))))"

end
