(* ===== verification/Capability_Props.thy ===== *)
theory Capability_Props
  imports Capabilities "HOL-Library.Multiset"
begin

text \<open>
  A binding is a set of granted capabilities: what it allows, what granting and revoking do to it, and
  the text form of a capability.
\<close>

section \<open>The grants of a binding\<close>

text \<open>The capabilities a binding lists.\<close>

definition grants :: "ContextToolBinding \<Rightarrow> Capability set" where
  "grants b = Instance ` set (tb_allowed_instances b) \<union> (\<lambda>(i, t). Capability.Tool i t) ` set (tb_allowed_tools b)
     \<union> Facade ` set (tb_allowed_facades b)
     \<union> (if tb_all_instances b then {AllInstances} else {}) \<union> (if tb_all_facades b then {AllFacades} else {})
     \<union> (if tb_binding_admin b then {Admin} else {}) \<union> (if tb_binding_rc_write b then {RcWrite} else {})
     \<union> {c. \<exists>n. authority_name c = Some n \<and> bt_contains (tb_authorities b) n}"

text \<open>What a grant is good for.  Authorities, administration and lifecycle scripts stand for themselves only.\<close>

definition implies_cap :: "Capability \<Rightarrow> Capability \<Rightarrow> bool" where
  "implies_cap g c \<longleftrightarrow> g = c \<or>
     (case g of
        Instance i \<Rightarrow> (case c of Capability.Tool j t \<Rightarrow> j = i | _ \<Rightarrow> False)
      | AllInstances \<Rightarrow> (case c of Instance _ \<Rightarrow> True | Capability.Tool _ _ \<Rightarrow> True | _ \<Rightarrow> False)
      | Facade f \<Rightarrow> (case c of Capability.Tool j t \<Rightarrow> (j, f) \<in> set FACADE_PROJECTED_INSTANCES | _ \<Rightarrow> False)
      | AllFacades \<Rightarrow>
          (case c of Facade _ \<Rightarrow> True | Capability.Tool j t \<Rightarrow> j \<in> fst ` set FACADE_PROJECTED_INSTANCES | _ \<Rightarrow> False)
      | _ \<Rightarrow> False)"

definition revoked :: "Capability \<Rightarrow> Capability set" where
  "revoked c = insert c (case c of Instance i \<Rightarrow> range (Capability.Tool i) | _ \<Rightarrow> {})"

text \<open>The contract of an allow-set, as the gates and the commands use it.\<close>

locale allow_set =
  fixes listed :: "'b \<Rightarrow> 'c set" and permits :: "'b \<Rightarrow> 'c \<Rightarrow> bool" and stands_for :: "'c \<Rightarrow> 'c \<Rightarrow> bool"
    and add :: "'c \<Rightarrow> 'b \<Rightarrow> 'b" and drop_of :: "'c \<Rightarrow> 'c set" and remove :: "'c \<Rightarrow> 'b \<Rightarrow> 'b" and none :: 'b and ok :: "'b \<Rightarrow> bool"
  assumes permits_listed: "permits b c \<longleftrightarrow> (\<exists>g \<in> listed b. stands_for g c)"
    and listed_none: "listed none = {}" and ok_none: "ok none"
    and listed_add: "ok b \<Longrightarrow> listed (add c b) = insert c (listed b)" and ok_add: "ok b \<Longrightarrow> ok (add c b)"
    and listed_remove: "ok b \<Longrightarrow> listed (remove c b) = listed b - drop_of c" and ok_remove: "ok b \<Longrightarrow> ok (remove c b)"
begin

lemma permits_none: "\<not> permits none c"
  by (simp add: permits_listed listed_none)

lemma permits_add: "ok b \<Longrightarrow> permits (add g b) c \<longleftrightarrow> permits b c \<or> stands_for g c"
  by (auto simp: permits_listed listed_add)

lemma permits_remove: "ok b \<Longrightarrow> permits (remove g b) c \<Longrightarrow> permits b c"
  by (auto simp: permits_listed listed_remove)

lemma permits_run:
  "ok b \<Longrightarrow> permits (fold remove cs b) c \<Longrightarrow> permits b c"
  by (induction cs arbitrary: b) (auto dest: permits_remove intro: ok_remove)

end

definition binding_ok :: "ContextToolBinding \<Rightarrow> bool" where
  "binding_ok b \<longleftrightarrow> distinct (tb_allowed_instances b) \<and> distinct (tb_allowed_tools b) \<and> distinct (tb_allowed_facades b)
     \<and> bt_ok (tb_authorities b) \<and> bt_ok (tb_name_map b)"

lemma authority_names [simp]:
  "authority_name Drive = Some ''drive''" "authority_name Fork = Some ''fork''" "authority_name Capability.Drift = Some ''drift''"
  "authority_name Transport = Some ''transport''" "authority_name Operator = Some ''operator''"
  "authority_name ConfigWrite = Some ''config-write''" "authority_name Exec = Some ''exec''"
  "authority_name (Instance i) = None" "authority_name (Capability.Tool i t) = None" "authority_name (Facade f) = None"
  "authority_name AllInstances = None" "authority_name AllFacades = None" "authority_name Admin = None" "authority_name RcWrite = None"
  by (simp_all add: authority_name_def)

lemma authority_roundtrip: "authority_name c = Some n \<Longrightarrow> from_authority_name n = Some c"
  by (cases c) (auto simp: from_authority_name_def)

lemma authority_inj: "authority_name c = Some n \<Longrightarrow> authority_name g = Some n \<longleftrightarrow> g = c"
  by (metis authority_roundtrip option.inject)

lemma push_new_facts [simp]: "set (push_new x xs) = insert x (set xs)" "distinct xs \<Longrightarrow> distinct (push_new x xs)"
  by (auto simp: push_new_def)

text \<open>Membership, constructor by constructor.\<close>

lemma grants_mem [simp]:
  "Instance i \<in> grants b \<longleftrightarrow> i \<in> set (tb_allowed_instances b)"
  "Capability.Tool i t \<in> grants b \<longleftrightarrow> (i, t) \<in> set (tb_allowed_tools b)"
  "Facade f \<in> grants b \<longleftrightarrow> f \<in> set (tb_allowed_facades b)"
  "AllInstances \<in> grants b \<longleftrightarrow> tb_all_instances b" "AllFacades \<in> grants b \<longleftrightarrow> tb_all_facades b"
  "Admin \<in> grants b \<longleftrightarrow> tb_binding_admin b" "RcWrite \<in> grants b \<longleftrightarrow> tb_binding_rc_write b"
  by (auto simp: grants_def)

lemma grants_authority:
  assumes "authority_name c = Some n"
  shows "c \<in> grants b \<longleftrightarrow> bt_contains (tb_authorities b) n"
proof -
  have "c \<noteq> Instance i" "c \<noteq> Capability.Tool i t" "c \<noteq> Facade f" "c \<noteq> AllInstances" "c \<noteq> AllFacades" "c \<noteq> Admin" "c \<noteq> RcWrite" for i t f
    using assms by auto
  then show ?thesis using assms by (auto simp: grants_def)
qed

lemma implies_mem:
  "(\<exists>g \<in> grants b. implies_cap g c) \<longleftrightarrow> c \<in> grants b \<or>
     (case c of
        Instance i \<Rightarrow> AllInstances \<in> grants b
      | Capability.Tool i t \<Rightarrow> AllInstances \<in> grants b \<or> Instance i \<in> grants b
          \<or> (\<exists>f. (i, f) \<in> set FACADE_PROJECTED_INSTANCES \<and> (Facade f \<in> grants b \<or> AllFacades \<in> grants b))
      | Facade f \<Rightarrow> AllFacades \<in> grants b
      | _ \<Rightarrow> False)" (is "?l \<longleftrightarrow> ?r")
proof
  assume ?l
  then obtain g where g: "g \<in> grants b" "implies_cap g c" by blast
  show ?r
  proof (cases "g = c")
    case False
    with g show ?thesis
      by (cases g) (auto simp: implies_cap_def simp del: grants_mem split: Capability.splits)
  qed (use g in simp)
next
  assume r: ?r
  have self: "c \<in> grants b \<Longrightarrow> ?l" by (auto simp: implies_cap_def)
  show ?l
  proof (cases c)
    case (Instance i)
    with r self show ?thesis by (auto simp: implies_cap_def simp del: grants_mem intro: bexI [of _ AllInstances])
  next
    case (Tool i t)
    with r self consider ?l | "AllInstances \<in> grants b" | "Instance i \<in> grants b"
      | f where "(i, f) \<in> set FACADE_PROJECTED_INSTANCES" "Facade f \<in> grants b"
      | f where "(i, f) \<in> set FACADE_PROJECTED_INSTANCES" "AllFacades \<in> grants b" by (auto simp del: grants_mem)
    then show ?thesis
    proof cases
      case 2
      have "implies_cap AllInstances c" by (simp add: implies_cap_def Tool)
      with 2 show ?thesis by blast
    next
      case 3
      have "implies_cap (Instance i) c" by (simp add: implies_cap_def Tool)
      with 3 show ?thesis by blast
    next
      case 4
      have "implies_cap (Facade f) c" by (simp add: implies_cap_def Tool 4)
      with 4 show ?thesis by blast
    next
      case 5
      have "implies_cap AllFacades c" using 5(1) by (force simp: implies_cap_def Tool)
      with 5 show ?thesis by blast
    qed
  next
    case (Facade f)
    with r self show ?thesis by (auto simp: implies_cap_def simp del: grants_mem intro: bexI [of _ AllFacades])
  qed (use r self in simp_all)
qed

lemma allows_authority: "authority_name c = Some n \<Longrightarrow> allows b c \<longleftrightarrow> bt_contains (tb_authorities b) n"
  by (cases c) (simp_all add: allows_def)

lemma allows_grants: "allows b c \<longleftrightarrow> (\<exists>g \<in> grants b. implies_cap g c)"
proof (cases "authority_name c")
  case None
  then show ?thesis unfolding implies_mem
    by (cases c) (auto simp: allows_def facade_granted_def facade_projection_allows_def list_ex_iff)
next
  case (Some n)
  then show ?thesis unfolding implies_mem
    by (cases c) (simp_all add: allows_authority grants_authority)
qed

lemma grant_authority: "authority_name c = Some n \<Longrightarrow> grant c b = b\<lparr>tb_authorities := bt_insert n () (tb_authorities b)\<rparr>"
  by (cases c) (simp_all add: grant_def)

lemma revoke_authority: "authority_name c = Some n \<Longrightarrow> revoke_cap c b = b\<lparr>tb_authorities := bt_remove n (tb_authorities b)\<rparr>"
  by (cases c) (simp_all add: revoke_cap_def)

lemma revoked_authority: "authority_name c = Some n \<Longrightarrow> revoked c = {c}"
  by (cases c) (simp_all add: revoked_def)

text \<open>Grants that are no authorities do not touch them.\<close>

lemma other_authorities:
  "authority_name c = None \<Longrightarrow> tb_authorities (grant c b) = tb_authorities b \<and> tb_authorities (revoke_cap c b) = tb_authorities b"
  by (cases c) (simp_all add: grant_def revoke_cap_def allow_def revoke_def)

lemma grants_mem_other:
  assumes "authority_name x = None" and "tb_allowed_instances b' = tb_allowed_instances b" "tb_allowed_tools b' = tb_allowed_tools b"
    "tb_allowed_facades b' = tb_allowed_facades b" "tb_all_instances b' = tb_all_instances b" "tb_all_facades b' = tb_all_facades b"
    "tb_binding_admin b' = tb_binding_admin b" "tb_binding_rc_write b' = tb_binding_rc_write b"
  shows "x \<in> grants b' \<longleftrightarrow> x \<in> grants b"
  using assms by (cases x) simp_all

lemma grants_grant: "grants (grant c b) = insert c (grants b)"
proof (rule set_eqI)
  fix x
  show "x \<in> grants (grant c b) \<longleftrightarrow> x \<in> insert c (grants b)"
  proof (cases "authority_name c")
    case None
    show ?thesis
    proof (cases "authority_name x")
      case None
      with \<open>authority_name c = None\<close> show ?thesis by (cases c; cases x) (auto simp: grant_def allow_def)
    next
      case (Some n)
      with \<open>authority_name c = None\<close> show ?thesis by (auto simp: grants_authority other_authorities)
    qed
  next
    case (Some n)
    show ?thesis
    proof (cases "authority_name x")
      case None
      with Some have "x \<noteq> c" by auto
      with None show ?thesis by (simp add: grant_authority [OF Some] grants_mem_other [of x "_\<lparr>tb_authorities := _\<rparr>" b])
    next
      case x: (Some m)
      then show ?thesis
        using authority_inj [OF Some, of x] by (auto simp: grant_authority [OF Some] grants_authority bt_contains_def bt_get_insert)
    qed
  qed
qed

lemma grants_revoke: "grants (revoke_cap c b) = grants b - revoked c"
proof (rule set_eqI)
  fix x
  show "x \<in> grants (revoke_cap c b) \<longleftrightarrow> x \<in> grants b - revoked c"
  proof (cases "authority_name c")
    case None
    show ?thesis
    proof (cases "authority_name x")
      case None
      with \<open>authority_name c = None\<close> show ?thesis
        by (cases c; cases x) (auto simp: revoke_cap_def revoke_def revoked_def)
    next
      case (Some n)
      with \<open>authority_name c = None\<close> have "x \<notin> revoked c" by (cases c) (auto simp: revoked_def)
      with Some \<open>authority_name c = None\<close> show ?thesis by (simp add: grants_authority other_authorities)
    qed
  next
    case (Some n)
    show ?thesis
    proof (cases "authority_name x")
      case None
      with Some have "x \<noteq> c" by auto
      with None show ?thesis
        by (simp add: revoke_authority [OF Some] revoked_authority [OF Some] grants_mem_other [of x "_\<lparr>tb_authorities := _\<rparr>" b])
    next
      case x: (Some m)
      then show ?thesis
        using authority_inj [OF Some, of x]
        by (auto simp: revoke_authority [OF Some] revoked_authority [OF Some] grants_authority bt_contains_def bt_get_remove)
    qed
  qed
qed

lemma binding_ok_grant: "binding_ok b \<Longrightarrow> binding_ok (grant c b)"
  by (auto simp: binding_ok_def grant_def allow_def bt_ok_insert split: Capability.split option.split)

lemma bt_ok_filter: "bt_ok m \<Longrightarrow> bt_ok (filter P m)"
  by (simp add: bt_ok_def sorted_wrt_map sorted_wrt_filter)

lemma binding_ok_revoke: "binding_ok b \<Longrightarrow> binding_ok (revoke_cap c b)"
  by (auto simp: binding_ok_def revoke_cap_def revoke_def bt_ok_remove bt_ok_filter split: Capability.split option.split)

interpretation bindings: allow_set grants allows implies_cap grant revoked revoke_cap binding_new binding_ok
proof
  show "grants binding_new = {}" "binding_ok binding_new"
    by (simp_all add: grants_def binding_new_def binding_ok_def bt_contains_def bt_get_def bt_ok_def)
qed (simp_all add: allows_grants grants_grant grants_revoke binding_ok_grant binding_ok_revoke)

text \<open>
  C12: A binding is a set of grants: it allows exactly what some grant in it stands for, a new one
  allows nothing, granting adds one grant, revoking takes that grant away (and with an instance the
  grants of its tools), and neither spoils the shape of a binding: lists without repetitions, sorted
  sets and maps.
\<close>

theorem binding_refines:
  "(allows b c \<longleftrightarrow> (\<exists>g \<in> grants b. implies_cap g c)) \<and> \<not> allows binding_new c
   \<and> grants (grant g b) = insert g (grants b) \<and> grants (revoke_cap g b) = grants b - revoked g
   \<and> binding_ok binding_new \<and> (binding_ok b \<longrightarrow> binding_ok (grant g b) \<and> binding_ok (revoke_cap g b))"
  using allows_grants grants_grant grants_revoke bindings.permits_none bindings.ok_none binding_ok_grant binding_ok_revoke by blast

theorem binding_refines_witness:
  "allows (grant (Facade ''shell'') binding_new) (Capability.Tool ''builtin.shell'' ''run'')
   \<and> binding_ok (revoke_cap (Facade ''shell'') (grant (Facade ''shell'') binding_new))
   \<and> grants (revoke_cap (Facade ''shell'') (grant (Facade ''shell'') binding_new)) = {}"
proof -
  let ?g = "Facade ''shell''"
  have "grants binding_new = {}" by (rule bindings.listed_none)
  moreover have "implies_cap ?g (Capability.Tool ''builtin.shell'' ''run'')"
    by (simp add: implies_cap_def FACADE_PROJECTED_INSTANCES_def)
  moreover note binding_refines [of "grant ?g binding_new" "Capability.Tool ''builtin.shell'' ''run''" ?g]
    binding_refines [of binding_new Admin ?g]
  ultimately show ?thesis by (auto simp: revoked_def)
qed

text \<open>No wildcard grants an authority, administration, or the writing of lifecycle scripts.\<close>

lemma wildcards_grant_no_authority:
  assumes "implies_cap g c" and "c = Admin \<or> c = RcWrite \<or> authority_name c \<noteq> None"
  shows "g = c"
  using assms by (cases g) (auto simp: implies_cap_def split: Capability.splits)

section \<open>Text forms\<close>

definition reserved_words :: "string list" where
  "reserved_words = [''*'', ''admin'', ''rc-write''] @ KNOWN_AUTHORITIES"

definition instance_ok :: "string \<Rightarrow> bool" where
  "instance_ok i \<longleftrightarrow> i \<noteq> [] \<and> CHR '':'' \<notin> set i \<and> i \<notin> set reserved_words"

text \<open>Names that survive printing and parsing.\<close>

definition cap_ok :: "Capability \<Rightarrow> bool" where
  "cap_ok c =
     (case c of
        Instance i \<Rightarrow> instance_ok i
      | Capability.Tool i t \<Rightarrow> i \<noteq> [] \<and> CHR '':'' \<notin> set i \<and> t \<noteq> [] \<and> i \<noteq> ''facade''
      | Facade f \<Rightarrow> f \<noteq> [] \<and> f \<noteq> ''*''
      | _ \<Rightarrow> True)"

lemma split_once_none: "c \<notin> set s \<Longrightarrow> split_once c s = None"
  by (induction s) auto

lemma split_once_first: "c \<notin> set l \<Longrightarrow> split_once c (l @ c # r) = Some (l, r)"
  by (induction l) auto

lemma from_authority_known: "s \<notin> set KNOWN_AUTHORITIES \<Longrightarrow> from_authority_name s = None"
  by (simp add: from_authority_name_def KNOWN_AUTHORITIES_def)

lemma colon_not_known: "CHR '':'' \<in> set s \<Longrightarrow> from_authority_name s = None"
  by (rule from_authority_known) (auto simp: KNOWN_AUTHORITIES_def)

lemma facade_prefix:
  assumes "starts_with s ''facade:''"
  shows "split_once (CHR '':'') s = Some (''facade'', drop 7 s)"
proof -
  have "s = ''facade'' @ CHR '':'' # drop 7 s"
    using assms append_take_drop_id [of "length ''facade:''" s] by (simp add: starts_with_def numeral_eq_Suc)
  then show ?thesis using split_once_first [of "CHR '':''" "''facade''" "drop 7 s"] by simp
qed

lemma parse_tool:
  assumes "i \<noteq> []" "CHR '':'' \<notin> set i" "t \<noteq> []" "i \<noteq> ''facade''"
  shows "parse_capability (i @ '':'' @ t) = Inr (Capability.Tool i t)"
proof -
  define s where "s = i @ '':'' @ t"
  have split: "split_once (CHR '':'') s = Some (i, t)" using split_once_first [OF assms(2), of t] by (simp add: s_def)
  have colon: "CHR '':'' \<in> set s" by (simp add: s_def)
  then have words: "s \<noteq> ''*''" "s \<noteq> ''admin''" "s \<noteq> ''rc-write''" by auto
  have "s \<noteq> ''facade:*''" using split assms(4) by auto
  moreover have "strip_prefix s ''facade:'' = None"
    using facade_prefix [of s] split assms(4) by (auto simp: strip_prefix_def)
  ultimately have "parse_capability s = Inr (Capability.Tool i t)"
    using words split assms(1,3) colon_not_known [OF colon] by (simp add: parse_capability_def)
  then show ?thesis by (simp add: s_def)
qed

lemma parse_instance:
  assumes "instance_ok i"
  shows "parse_capability i = Inr (Instance i)"
proof -
  have split: "split_once (CHR '':'') i = None" and colon: "CHR '':'' \<notin> set i"
    using assms split_once_none by (simp_all add: instance_ok_def)
  then have "i \<noteq> ''facade:*''" by auto
  moreover have "strip_prefix i ''facade:'' = None" using facade_prefix [of i] split by (auto simp: strip_prefix_def)
  moreover have "from_authority_name i = None" "i \<noteq> ''*''" "i \<noteq> ''admin''" "i \<noteq> ''rc-write''" "i \<noteq> []"
    using assms from_authority_known by (simp_all add: instance_ok_def reserved_words_def)
  ultimately show ?thesis using split by (simp add: parse_capability_def)
qed

lemma parse_facade: "f \<noteq> [] \<Longrightarrow> f \<noteq> ''*'' \<Longrightarrow> parse_capability (''facade:'' @ f) = Inr (Facade f)"
  by (simp add: parse_capability_def from_authority_name_def strip_prefix_def starts_with_def)

text \<open>
  The text form of a capability is read back as that capability, unless a name in it is empty,
  holds a colon before the tool, or is one of the reserved words: the wildcard, \<open>admin\<close>, \<open>rc-write\<close>,
  the authorities, and \<open>facade\<close> as an instance of a tool grant.
\<close>

theorem capability_roundtrip:
  assumes "cap_ok c"
  shows "parse_capability (cap_label c) = Inr c"
proof (cases c)
  case (Instance i)
  then show ?thesis using assms parse_instance by (simp add: cap_ok_def cap_label_def)
next
  case (Tool i t)
  then show ?thesis using assms parse_tool by (simp add: cap_ok_def cap_label_def)
next
  case (Facade f)
  then show ?thesis using assms parse_facade by (simp add: cap_ok_def cap_label_def)
qed (simp_all add: cap_label_def parse_capability_def from_authority_name_def authority_name_def)

theorem capability_roundtrip_witness:
  "parse_capability (cap_label (Capability.Tool ''builtin.file'' ''read'')) = Inr (Capability.Tool ''builtin.file'' ''read'')"
  by (rule capability_roundtrip) (simp add: cap_ok_def)

section \<open>Names\<close>

text \<open>Visible names are sticky, and every pair has at most one.\<close>

definition names_ok :: "ContextToolBinding \<Rightarrow> bool" where
  "names_ok b \<longleftrightarrow> bt_ok (tb_name_map b) \<and> distinct (map snd (tb_name_map b))"

lemma snd_bt_insert: "bt_get m k = None \<Longrightarrow> mset (map snd (bt_insert k v m)) = add_mset v (mset (map snd m))"
  by (induction k v m rule: bt_insert.induct) (auto simp: bt_get_def split: if_splits)

lemma names_ok_insert:
  assumes "names_ok b" and "pair \<notin> snd ` set (tb_name_map b)" and "\<not> bt_contains (tb_name_map b) visible"
  shows "names_ok (b\<lparr>tb_name_map := bt_insert visible pair (tb_name_map b)\<rparr>)"
proof -
  have "mset (map snd (bt_insert visible pair (tb_name_map b))) = mset (pair # map snd (tb_name_map b))"
    using snd_bt_insert assms(3) unfolding bt_contains_def by (metis mset.simps(2))
  then have "distinct (map snd (bt_insert visible pair (tb_name_map b)))"
    using assms(1,2) by (metis distinct.simps(2) image_set mset_eq_imp_distinct_iff names_ok_def)
  then show ?thesis using assms(1) by (simp add: names_ok_def bt_ok_insert)
qed

lemma apply_resolutions_sticky:
  assumes "names_ok b"
  shows "names_ok (apply_resolutions rs b) \<and> (bt_get (tb_name_map b) v = Some p \<longrightarrow> bt_get (tb_name_map (apply_resolutions rs b)) v = Some p)
    \<and> grants (apply_resolutions rs b) = grants b"
  using assms
proof (induction rs b rule: apply_resolutions.induct)
  case (2 pair visible rs b)
  show ?case
  proof (cases "pair \<in> snd ` set (tb_name_map b) \<or> bt_contains (tb_name_map b) visible")
    case True
    with 2 show ?thesis by auto
  next
    case False
    let ?b = "b\<lparr>tb_name_map := bt_insert visible pair (tb_name_map b)\<rparr>"
    have "grants ?b = grants b" by (simp add: grants_def)
    moreover have "bt_get (tb_name_map b) v = Some p \<Longrightarrow> bt_get (tb_name_map ?b) v = Some p"
    proof -
      have "bt_get (tb_name_map b) visible = None" using False unfolding bt_contains_def by blast
      then show "bt_get (tb_name_map b) v = Some p \<Longrightarrow> bt_get (tb_name_map ?b) v = Some p" by (auto simp: bt_get_insert)
    qed
    moreover have "names_ok ?b" using False 2(3) names_ok_insert by blast
    ultimately show ?thesis using 2(2) [OF False] False by auto
  qed
qed simp

end
