(* ===== verification/Tool_Broker_Props.thy ===== *)
theory Tool_Broker_Props
  imports Tool_Broker Capability_Props Context_Registry
begin

text \<open>
  Bindings in the database and in the broker's cache: what is written is read back, commands of an
  ordinary context never widen anything, and where a revocation does not hold; and the bound on the
  result of a tool call.
\<close>

section \<open>The stored binding\<close>

text \<open>What the tables hold for a context, without the counting of calls.\<close>

definition stored :: "ContextId \<Rightarrow> BindingDb \<Rightarrow> ContextToolBinding option" where
  "stored ctx d = map_option (\<lambda>row.
     \<lparr>tb_all_instances = br_all_instances row, tb_all_facades = br_all_facades row,
      tb_binding_admin = br_binding_admin row, tb_binding_rc_write = br_binding_rc_write row,
      tb_allowed_instances = ordered_rows ctx (bd_instances d), tb_allowed_tools = ordered_rows ctx (bd_tools d),
      tb_allowed_facades = ordered_rows ctx (bd_facades d),
      tb_authorities = fold (\<lambda>a. bt_insert a ()) (map snd (filter (\<lambda>r. fst r = ctx) (bd_authorities d))) [],
      tb_name_map = fold (\<lambda>(v, p). bt_insert v p) (map snd (filter (\<lambda>r. fst r = ctx) (bd_names d))) []\<rparr>)
     (List.find (\<lambda>r. br_context_id r = ctx) (bd_bindings d))"

text \<open>Databases that differ in the count of calls only.\<close>

definition counted :: "BindingDb \<Rightarrow> BindingDb \<Rightarrow> bool" where
  "counted d d' \<longleftrightarrow> (\<exists>r. d' = d\<lparr>bd_registry := r\<rparr> \<and> cd_contexts r = cd_contexts (bd_registry d))"

lemma countedD:
  assumes "counted d d'"
  shows "bd_bindings d' = bd_bindings d" "bd_instances d' = bd_instances d" "bd_tools d' = bd_tools d" "bd_facades d' = bd_facades d"
    "bd_authorities d' = bd_authorities d" "bd_names d' = bd_names d" "cd_contexts (bd_registry d') = cd_contexts (bd_registry d)"
    "stored ctx d' = stored ctx d"
  using assms by (auto simp: counted_def stored_def)

lemma counted_refl: "counted d d"
  by (auto simp: counted_def intro: exI [of _ "bd_registry d"])

lemma counted_trans: "counted d e \<Longrightarrow> counted e f \<Longrightarrow> counted d f"
  by (auto simp: counted_def)

text \<open>Without faults a call counts itself and does its work.\<close>

definition ticked :: "BindingDb \<Rightarrow> BindingDb" where
  "ticked d = d\<lparr>bd_registry := (bd_registry d)\<lparr>cd_base := (cd_base (bd_registry d))\<lparr>kd_calls := kd_calls (cd_base (bd_registry d)) + 1\<rparr>\<rparr>\<rparr>"

lemma bsql_no_fault: "bsql no_fault f d = f (ticked d)"
  by (simp add: bsql_def sql_def ticked_def Let_def)

lemma counted_ticked: "counted d (ticked d)"
  by (auto simp: counted_def ticked_def)

lemma ticked_parts [simp]:
  "bd_bindings (ticked d) = bd_bindings d" "bd_instances (ticked d) = bd_instances d" "bd_tools (ticked d) = bd_tools d"
  "bd_facades (ticked d) = bd_facades d" "bd_authorities (ticked d) = bd_authorities d" "bd_names (ticked d) = bd_names d"
  "cd_contexts (bd_registry (ticked d)) = cd_contexts (bd_registry d)"
  by (simp_all add: ticked_def)

lemma get_no_fault:
  obtains d' where "get_context_binding no_fault ctx d = (d', Inr (stored ctx d))" and "counted d d'"
proof -
  have c: "counted d (ticked d)" "counted d (ticked (ticked (ticked (ticked (ticked (ticked d))))))"
    using counted_ticked counted_trans by blast+
  show thesis
  proof (cases "List.find (\<lambda>r. br_context_id r = ctx) (bd_bindings d)")
    case None
    then show thesis using that [of "ticked d"] c
      by (simp add: get_context_binding_def query_def bsql_no_fault stored_def)
  next
    case (Some row)
    then show thesis using that [OF _ c(2)]
      by (simp add: get_context_binding_def query_def bsql_no_fault stored_def bbind_def bret_def)
  qed
qed

text \<open>Writing rows one by one, for each of the five tables alike.\<close>

locale binding_table =
  fixes sel :: "BindingDb \<Rightarrow> 'r list" and upd :: "('r list \<Rightarrow> 'r list) \<Rightarrow> BindingDb \<Rightarrow> BindingDb" and key :: "'r \<Rightarrow> 'k"
  assumes sel_upd: "sel (upd f d) = f (sel d)" and upd_upd: "upd f (upd g d) = upd (\<lambda>rs. f (g rs)) d"
    and upd_id: "upd (\<lambda>rs. rs) d = d"
    and sel_registry: "sel (d\<lparr>bd_registry := r\<rparr>) = sel d"
    and upd_registry: "upd f (d\<lparr>bd_registry := r\<rparr>) = (upd f d)\<lparr>bd_registry := r\<rparr>"
    and registry_upd: "bd_registry (upd f d) = bd_registry d"
begin

lemma upd_counted: "counted d d' \<Longrightarrow> counted (upd f d) (upd f d')"
  unfolding counted_def by (metis registry_upd upd_registry)

lemma upd_ticked: "upd f (ticked d) = ticked (upd f d)"
  by (simp add: ticked_def upd_registry registry_upd)

lemma sel_ticked: "sel (ticked d) = sel d"
  by (simp add: ticked_def sel_registry)

lemma exec_upd: "exec no_fault (upd f) d = (ticked (upd f d), Inr ())"
  by (simp add: exec_def bsql_no_fault upd_ticked)

lemma exec_rows:
  assumes "\<And>x. put x = insert_row no_fault (\<lambda>d. key (row x) \<in> key ` set (sel d)) (upd (\<lambda>rs. rs @ [row x]))"
    and "distinct (map (\<lambda>x. key (row x)) xs)" and "\<forall>r \<in> set (sel d). \<forall>x \<in> set xs. key r \<noteq> key (row x)"
  shows "\<exists>d'. exec_each put xs d = (d', Inr ()) \<and> counted (upd (\<lambda>rs. rs @ map row xs) d) d'"
  using assms(2,3)
proof (induction xs arbitrary: d)
  case Nil
  then show ?case by (simp add: bret_def upd_id counted_refl)
next
  case (Cons x xs)
  let ?e = "upd (\<lambda>rs. rs @ [row x]) (ticked d)"
  have "put x d = (?e, Inr ())"
    using Cons.prems by (auto simp: assms(1) insert_row_def bsql_no_fault sel_ticked)
  moreover obtain d' where d': "exec_each put xs ?e = (d', Inr ())" "counted (upd (\<lambda>rs. rs @ map row xs) ?e) d'"
    using Cons.IH [of ?e] Cons.prems by (auto simp: sel_upd sel_ticked)
  moreover have "counted (upd (\<lambda>rs. rs @ map row (x # xs)) d) (upd (\<lambda>rs. rs @ map row xs) ?e)"
    using upd_counted [OF counted_ticked] by (simp add: upd_upd)
  ultimately show ?case by (auto simp: bbind_def intro: counted_trans)
qed

end

interpretation t_instances: binding_table bd_instances bd_instances_update "\<lambda>r. (fst r, fst (snd r))"
  by unfold_locales simp_all
interpretation t_tools: binding_table bd_tools bd_tools_update "\<lambda>r. (fst r, fst (snd r))"
  by unfold_locales simp_all
interpretation t_facades: binding_table bd_facades bd_facades_update "\<lambda>r. (fst r, fst (snd r))"
  by unfold_locales simp_all
interpretation t_authorities: binding_table bd_authorities bd_authorities_update "\<lambda>r. r"
  by unfold_locales simp_all
interpretation t_names: binding_table bd_names bd_names_update "\<lambda>r. (fst r, fst (snd r))"
  by unfold_locales simp_all

lemma puts:
  "put_instance no_fault ctx x = insert_row no_fault (\<lambda>d. (ctx, snd x) \<in> (\<lambda>r. (fst r, fst (snd r))) ` set (bd_instances d))
     (bd_instances_update (\<lambda>rs. rs @ [(ctx, snd x, fst x)]))"
  "put_tool no_fault ctx y = insert_row no_fault (\<lambda>d. (ctx, snd y) \<in> (\<lambda>r. (fst r, fst (snd r))) ` set (bd_tools d))
     (bd_tools_update (\<lambda>rs. rs @ [(ctx, snd y, fst y)]))"
  "put_facade no_fault ctx x = insert_row no_fault (\<lambda>d. (ctx, snd x) \<in> (\<lambda>r. (fst r, fst (snd r))) ` set (bd_facades d))
     (bd_facades_update (\<lambda>rs. rs @ [(ctx, snd x, fst x)]))"
  "put_authority no_fault ctx a = insert_row no_fault (\<lambda>d. (ctx, fst a) \<in> (\<lambda>r. r) ` set (bd_authorities d))
     (bd_authorities_update (\<lambda>rs. rs @ [(ctx, fst a)]))"
  "put_name no_fault ctx v = insert_row no_fault (\<lambda>d. (ctx, fst v) \<in> (\<lambda>r. (fst r, fst (snd r))) ` set (bd_names d))
     (bd_names_update (\<lambda>rs. rs @ [(ctx, fst v, snd v)]))"
  unfolding put_instance_def put_tool_def put_facade_def put_authority_def put_name_def
  by (cases x; cases y; cases a; cases v; simp; rule arg_cong2 [where f = "insert_row no_fault"]; force simp: fun_eq_iff)+

text \<open>The rows of a binding, and the database with them.\<close>

definition numbered :: "ContextId \<Rightarrow> 'a list \<Rightarrow> (ContextId \<times> 'a \<times> nat) list" where
  "numbered ctx xs = map (\<lambda>x. (ctx, snd x, fst x)) (enumerate 0 xs)"

lemma distinct_enumerated: "distinct xs \<Longrightarrow> distinct (map (\<lambda>x. (fst (ctx, snd x, fst x), fst (snd (ctx, snd x, fst x)))) (enumerate n xs))"
proof -
  assume "distinct xs"
  moreover have "map (\<lambda>x. (ctx, snd x)) (enumerate n xs) = map (Pair ctx) xs"
    by (metis (no_types, lifting) list.map_comp map_eq_conv comp_apply map_snd_enumerate)
  ultimately show ?thesis by (simp add: distinct_map inj_on_def)
qed

lemma bt_keys_distinct: "bt_ok m \<Longrightarrow> distinct (map fst m)"
  by (simp add: bt_ok_def strict_sorted_iff)

lemma rows_written:
  "distinct is \<Longrightarrow> ctx \<notin> fst ` set (bd_instances d) \<Longrightarrow> \<exists>d'. exec_each (put_instance no_fault ctx) (enumerate 0 is) d = (d', Inr ())
     \<and> counted (bd_instances_update (\<lambda>rs. rs @ numbered ctx is) d) d'"
  "distinct ts \<Longrightarrow> ctx \<notin> fst ` set (bd_tools d) \<Longrightarrow> \<exists>d'. exec_each (put_tool no_fault ctx) (enumerate 0 ts) d = (d', Inr ())
     \<and> counted (bd_tools_update (\<lambda>rs. rs @ numbered ctx ts) d) d'"
  "distinct fs \<Longrightarrow> ctx \<notin> fst ` set (bd_facades d) \<Longrightarrow> \<exists>d'. exec_each (put_facade no_fault ctx) (enumerate 0 fs) d = (d', Inr ())
     \<and> counted (bd_facades_update (\<lambda>rs. rs @ numbered ctx fs) d) d'"
  "bt_ok as \<Longrightarrow> ctx \<notin> fst ` set (bd_authorities d) \<Longrightarrow> \<exists>d'. exec_each (put_authority no_fault ctx) as d = (d', Inr ())
     \<and> counted (bd_authorities_update (\<lambda>rs. rs @ map (\<lambda>a. (ctx, fst a)) as) d) d'"
  "bt_ok ns \<Longrightarrow> ctx \<notin> fst ` set (bd_names d) \<Longrightarrow> \<exists>d'. exec_each (put_name no_fault ctx) ns d = (d', Inr ())
     \<and> counted (bd_names_update (\<lambda>rs. rs @ map (\<lambda>v. (ctx, fst v, snd v)) ns) d) d'"
  subgoal unfolding numbered_def
    by (rule t_instances.exec_rows) (auto simp: puts intro: distinct_enumerated [simplified] image_eqI)
  subgoal unfolding numbered_def
    by (rule t_tools.exec_rows) (auto simp: puts intro: distinct_enumerated [simplified] image_eqI)
  subgoal unfolding numbered_def
    by (rule t_facades.exec_rows) (auto simp: puts intro: distinct_enumerated [simplified] image_eqI)
  subgoal using bt_keys_distinct [of as]
    by (intro t_authorities.exec_rows) (force simp: puts distinct_map inj_on_def)+
  subgoal using bt_keys_distinct [of ns]
    by (intro t_names.exec_rows) (force simp: puts distinct_map inj_on_def)+
  done

definition cleared_rows :: "BindingRow \<Rightarrow> BindingDb \<Rightarrow> BindingDb" where
  "cleared_rows row d = (drop_binding (br_context_id row) d)\<lparr>
     bd_bindings := filter (\<lambda>r. br_context_id r \<noteq> br_context_id row) (bd_bindings d) @ [row]\<rparr>"

definition with_rows :: "i64 \<Rightarrow> ContextId \<Rightarrow> ContextToolBinding \<Rightarrow> BindingDb \<Rightarrow> BindingDb" where
  "with_rows now ctx b d =
     bd_names_update (\<lambda>rs. rs @ map (\<lambda>v. (ctx, fst v, snd v)) (tb_name_map b))
     (bd_authorities_update (\<lambda>rs. rs @ map (\<lambda>a. (ctx, fst a)) (tb_authorities b))
     (bd_facades_update (\<lambda>rs. rs @ numbered ctx (tb_allowed_facades b))
     (bd_tools_update (\<lambda>rs. rs @ numbered ctx (tb_allowed_tools b))
     (bd_instances_update (\<lambda>rs. rs @ numbered ctx (tb_allowed_instances b))
     (cleared_rows (binding_row now ctx b) d)))))"

lemma inserts_no_fault:
  assumes "binding_ok b" and "ctx \<notin> fst ` set (bd_instances d)" "ctx \<notin> fst ` set (bd_tools d)" "ctx \<notin> fst ` set (bd_facades d)"
    "ctx \<notin> fst ` set (bd_authorities d)" "ctx \<notin> fst ` set (bd_names d)"
  shows "\<exists>d'. bbind (exec_each (put_instance no_fault ctx) (enumerate 0 (tb_allowed_instances b))) (\<lambda>_.
     bbind (exec_each (put_tool no_fault ctx) (enumerate 0 (tb_allowed_tools b))) (\<lambda>_.
     bbind (exec_each (put_facade no_fault ctx) (enumerate 0 (tb_allowed_facades b))) (\<lambda>_.
     bbind (exec_each (put_authority no_fault ctx) (tb_authorities b)) (\<lambda>_.
     exec_each (put_name no_fault ctx) (tb_name_map b))))) d = (d', Inr ())
   \<and> counted (bd_names_update (\<lambda>rs. rs @ map (\<lambda>v. (ctx, fst v, snd v)) (tb_name_map b))
     (bd_authorities_update (\<lambda>rs. rs @ map (\<lambda>a. (ctx, fst a)) (tb_authorities b))
     (bd_facades_update (\<lambda>rs. rs @ numbered ctx (tb_allowed_facades b))
     (bd_tools_update (\<lambda>rs. rs @ numbered ctx (tb_allowed_tools b))
     (bd_instances_update (\<lambda>rs. rs @ numbered ctx (tb_allowed_instances b)) d))))) d'"
proof -
  note ok = assms(1) [unfolded binding_ok_def, THEN conjunct1] assms(1) [unfolded binding_ok_def]
  obtain e1 where e1: "exec_each (put_instance no_fault ctx) (enumerate 0 (tb_allowed_instances b)) d = (e1, Inr ())"
      "counted (bd_instances_update (\<lambda>rs. rs @ numbered ctx (tb_allowed_instances b)) d) e1"
    using rows_written(1) [of "tb_allowed_instances b" ctx d] ok assms by blast
  note c1 = countedD [OF e1(2)]
  obtain e2 where e2: "exec_each (put_tool no_fault ctx) (enumerate 0 (tb_allowed_tools b)) e1 = (e2, Inr ())"
      "counted (bd_tools_update (\<lambda>rs. rs @ numbered ctx (tb_allowed_tools b)) e1) e2"
    using rows_written(2) [of "tb_allowed_tools b" ctx e1] ok assms by (auto simp: c1)
  note c2 = countedD [OF e2(2)]
  obtain e3 where e3: "exec_each (put_facade no_fault ctx) (enumerate 0 (tb_allowed_facades b)) e2 = (e3, Inr ())"
      "counted (bd_facades_update (\<lambda>rs. rs @ numbered ctx (tb_allowed_facades b)) e2) e3"
    using rows_written(3) [of "tb_allowed_facades b" ctx e2] ok assms by (auto simp: c1 c2)
  note c3 = countedD [OF e3(2)]
  obtain e4 where e4: "exec_each (put_authority no_fault ctx) (tb_authorities b) e3 = (e4, Inr ())"
      "counted (bd_authorities_update (\<lambda>rs. rs @ map (\<lambda>a. (ctx, fst a)) (tb_authorities b)) e3) e4"
    using rows_written(4) [of "tb_authorities b" ctx e3] ok assms by (auto simp: c1 c2 c3)
  note c4 = countedD [OF e4(2)]
  obtain e5 where e5: "exec_each (put_name no_fault ctx) (tb_name_map b) e4 = (e5, Inr ())"
      "counted (bd_names_update (\<lambda>rs. rs @ map (\<lambda>v. (ctx, fst v, snd v)) (tb_name_map b)) e4) e5"
    using rows_written(5) [of "tb_name_map b" ctx e4] ok assms by (auto simp: c1 c2 c3 c4)
  have "counted (bd_names_update (\<lambda>rs. rs @ map (\<lambda>v. (ctx, fst v, snd v)) (tb_name_map b))
     (bd_authorities_update (\<lambda>rs. rs @ map (\<lambda>a. (ctx, fst a)) (tb_authorities b))
     (bd_facades_update (\<lambda>rs. rs @ numbered ctx (tb_allowed_facades b))
     (bd_tools_update (\<lambda>rs. rs @ numbered ctx (tb_allowed_tools b))
     (bd_instances_update (\<lambda>rs. rs @ numbered ctx (tb_allowed_instances b)) d))))) e5"
    by (rule counted_trans [OF t_names.upd_counted [OF counted_trans [OF t_authorities.upd_counted
        [OF counted_trans [OF t_facades.upd_counted [OF counted_trans [OF t_tools.upd_counted [OF e1(2)] e2(2)]] e3(2)]] e4(2)]] e5(2)])
  then show ?thesis by (simp add: bbind_def e1(1) e2(1) e3(1) e4(1) e5(1))
qed

lemma bbind_exec: "bbind (exec no_fault f) g d = g () (f (ticked d))"
  by (simp add: bbind_def exec_def bsql_no_fault)

lemma binding_row_id [simp]: "br_context_id (binding_row now ctx b) = ctx"
  by (simp add: binding_row_def)

lemma bbind_flags:
  assumes "context_exists (bd_registry d) (br_context_id row)"
  shows "bbind (put_flags no_fault row) g d =
    g () ((ticked d)\<lparr>bd_bindings := filter (\<lambda>r. br_context_id r \<noteq> br_context_id row) (bd_bindings d) @ [row]\<rparr>)"
  using assms by (simp add: bbind_def put_flags_def bsql_no_fault context_exists_def)

lemma write_no_fault:
  assumes "context_exists (bd_registry d) ctx" and "binding_ok b"
  shows "\<exists>d'. write_binding no_fault now ctx b d = (d', Inr ()) \<and> counted (with_rows now ctx b d) d'"
proof -
  let ?c = "cleared_rows (binding_row now ctx b) d"
  define c where "c = ticked (ticked (ticked (ticked (ticked (ticked ?c)))))"
  have tables: "ctx \<notin> fst ` set (bd_instances c)" "ctx \<notin> fst ` set (bd_tools c)" "ctx \<notin> fst ` set (bd_facades c)"
    "ctx \<notin> fst ` set (bd_authorities c)" "ctx \<notin> fst ` set (bd_names c)"
    by (auto simp: c_def cleared_rows_def drop_binding_def binding_row_def)
  have clear: "write_binding no_fault now ctx b d = bbind (exec_each (put_instance no_fault ctx) (enumerate 0 (tb_allowed_instances b))) (\<lambda>_.
     bbind (exec_each (put_tool no_fault ctx) (enumerate 0 (tb_allowed_tools b))) (\<lambda>_.
     bbind (exec_each (put_facade no_fault ctx) (enumerate 0 (tb_allowed_facades b))) (\<lambda>_.
     bbind (exec_each (put_authority no_fault ctx) (tb_authorities b)) (\<lambda>_.
     exec_each (put_name no_fault ctx) (tb_name_map b))))) c"
    unfolding write_binding_def bbind_flags [of d "binding_row now ctx b", simplified, OF assms(1)] bbind_exec
    by (rule arg_cong, rule BindingDb.equality) (simp_all add: c_def cleared_rows_def drop_binding_def ticked_def)
  have "counted ?c c" unfolding c_def using counted_ticked counted_trans by blast
  then show ?thesis using inserts_no_fault [OF assms(2) tables] unfolding clear with_rows_def
    by (blast intro: counted_trans t_names.upd_counted t_authorities.upd_counted t_facades.upd_counted t_tools.upd_counted t_instances.upd_counted)
qed

lemma upsert_no_fault:
  assumes "context_exists (bd_registry d) ctx" and "binding_ok b"
  shows "\<exists>d'. upsert_context_binding no_fault now ctx b d = (d', Inr ()) \<and> counted (with_rows now ctx b d) d'"
proof -
  obtain d' where d': "write_binding no_fault now ctx b (ticked d) = (d', Inr ())" "counted (with_rows now ctx b (ticked d)) d'"
    using write_no_fault [of "ticked d" ctx b now] assms unfolding context_exists_def ticked_parts by blast
  have "with_rows now ctx b (ticked d) = ticked (with_rows now ctx b d)"
    by (simp add: with_rows_def cleared_rows_def drop_binding_def ticked_def)
  then have "counted (with_rows now ctx b d) (ticked d')" using d'(2) counted_ticked counted_trans by metis
  then show ?thesis
    by (simp add: upsert_context_binding_def transaction_def bbind_def exec_def bsql_no_fault d'(1))
qed

lemma counted_stored: "counted d d' \<Longrightarrow> stored ctx d' = stored ctx d"
  by (rule countedD)

lemma find_other:
  "List.find (\<lambda>r. br_context_id r = c) (filter (\<lambda>r. br_context_id r \<noteq> ctx) rows @ [row])
   = (if c = ctx then if br_context_id row = ctx then Some row else None
      else case List.find (\<lambda>r. br_context_id r = c) rows of Some r \<Rightarrow> Some r | None \<Rightarrow> if br_context_id row = c then Some row else None)"
  by (induction rows) auto

lemma ordered_other: "c \<noteq> ctx \<Longrightarrow> ordered_rows c (filter (\<lambda>r. fst r \<noteq> ctx) rows @ numbered ctx xs) = ordered_rows c rows"
proof -
  assume "c \<noteq> ctx"
  then have "filter (\<lambda>r. fst r = c) (filter (\<lambda>r. fst r \<noteq> ctx) rows @ numbered ctx xs) = filter (\<lambda>r. fst r = c) rows"
    by (auto simp: numbered_def filter_empty_conv intro!: filter_cong)
  then show ?thesis by (simp add: ordered_rows_def)
qed

lemma ordered_own: "ordered_rows ctx (filter (\<lambda>r. fst r \<noteq> ctx) rows @ numbered ctx xs) = xs"
proof -
  have own: "filter (\<lambda>r. fst r = ctx) (filter (\<lambda>r. fst r \<noteq> ctx) rows @ numbered ctx xs) = numbered ctx xs"
    by (auto simp: numbered_def filter_empty_conv filter_id_conv)
  have "map (snd \<circ> snd) (numbered ctx xs) = [0..<length xs]"
    by (simp add: numbered_def o_def flip: map_fst_enumerate [of 0 xs, simplified])
  then have "sort_key (snd \<circ> snd) (numbered ctx xs) = numbered ctx xs" by (simp add: sort_key_id_if_sorted)
  moreover have "map (fst \<circ> snd) (numbered ctx xs) = xs"
    by (simp add: numbered_def o_def)
  ultimately show ?thesis by (simp add: ordered_rows_def own del: filter_append filter_filter)
qed

lemma bt_insert_last: "bt_ok (m @ [(k, v)]) \<Longrightarrow> bt_insert k v m = m @ [(k, v)]"
  by (induction m) (auto simp: bt_ok_def sorted_wrt_append)

lemma bt_ok_butlast: "bt_ok (m @ [x]) \<Longrightarrow> bt_ok m"
  by (simp add: bt_ok_def sorted_wrt_append)

lemma fold_bt_insert: "bt_ok m \<Longrightarrow> fold (\<lambda>(k, v). bt_insert k v) m [] = m"
proof (induction m rule: rev_induct)
  case (snoc x m)
  then show ?case using bt_ok_butlast [OF snoc.prems] bt_insert_last [of m "fst x" "snd x"] by (simp add: case_prod_unfold)
qed simp

lemma fold_bt_keys: "bt_ok (m :: (string, unit) btree) \<Longrightarrow> fold (\<lambda>a. bt_insert a ()) (map fst m) [] = m"
proof -
  assume "bt_ok m"
  moreover have "fold (\<lambda>a. bt_insert a ()) (map fst m) acc = fold (\<lambda>(k, v). bt_insert k v) m acc" for acc
    by (induction m arbitrary: acc) (auto simp: case_prod_unfold)
  ultimately show ?thesis by (simp add: fold_bt_insert)
qed

lemma own_rows: "filter (\<lambda>r. fst r = ctx) (filter (\<lambda>r. fst r \<noteq> ctx) rows @ map (\<lambda>a. (ctx, g a)) xs) = map (\<lambda>a. (ctx, g a)) xs"
  by (auto simp: filter_empty_conv filter_id_conv)

lemma other_rows:
  "c \<noteq> ctx \<Longrightarrow> filter (\<lambda>r. fst r = c) (filter (\<lambda>r. fst r \<noteq> ctx) rows @ map (\<lambda>a. (ctx, g a)) xs) = filter (\<lambda>r. fst r = c) rows"
  by (auto simp: filter_empty_conv intro!: filter_cong)

lemma stored_with_rows:
  assumes "binding_ok b"
  shows "stored c (with_rows now ctx b d) = (if c = ctx then Some b else stored c d)"
proof (cases "c = ctx")
  case True
  then show ?thesis using assms
    by (simp add: stored_def with_rows_def cleared_rows_def drop_binding_def find_other ordered_own own_rows binding_row_def binding_ok_def
        fold_bt_keys fold_bt_insert o_def del: filter_append filter_filter)
next
  case False
  then show ?thesis
    by (simp add: stored_def with_rows_def cleared_rows_def drop_binding_def find_other ordered_other other_rows
        del: filter_append filter_filter split: option.split)
qed

text \<open>
  C13: A binding written to the database is read back as it was, and the bindings of other contexts
  are untouched, when the context exists, the binding has no repetitions and no call fails: order of
  the grants, flags, authorities and visible names survive a restart.
\<close>

theorem binding_db_roundtrip:
  assumes "context_exists (bd_registry d) ctx" and "binding_ok b"
    and "upsert_context_binding no_fault now ctx b d = (d', r)"
  shows "r = Inr () \<and> snd (get_context_binding no_fault ctx d') = Inr (Some b)
    \<and> (\<forall>c. c \<noteq> ctx \<longrightarrow> snd (get_context_binding no_fault c d') = snd (get_context_binding no_fault c d))"
proof -
  have r: "r = Inr ()" and d': "counted (with_rows now ctx b d) d'"
    using upsert_no_fault [OF assms(1,2), of now] assms(3) by auto
  have get: "snd (get_context_binding no_fault c e) = Inr (stored c e)" for c e
    using get_no_fault [of c e] by (metis snd_conv)
  show ?thesis using r by (simp add: get counted_stored [OF d'] stored_with_rows [OF assms(2)])
qed

text \<open>A context with a database of one context.\<close>

definition demo_bindings :: BindingDb where
  "demo_bindings = \<lparr>bd_registry = demo_db, bd_bindings = [], bd_instances = [], bd_tools = [], bd_facades = [], bd_authorities = [], bd_names = []\<rparr>"

definition file_binding :: ContextToolBinding where
  "file_binding = grant (Instance ''builtin.file'') (grant (Facade ''shell'') binding_new)"

lemma demo_context: "context_exists (bd_registry demo_bindings) 1"
  by (simp add: demo_bindings_def demo_db_eq context_exists_def demo_row_def)

lemma file_binding_ok: "binding_ok file_binding"
  unfolding file_binding_def by (intro binding_ok_grant bindings.ok_none)

lemma file_grants: "grants file_binding = {Instance ''builtin.file'', Facade ''shell''}"
  unfolding file_binding_def grants_grant bindings.listed_none by blast

theorem binding_db_roundtrip_witness:
  "snd (get_context_binding no_fault 1 (fst (upsert_context_binding no_fault 9 1 file_binding demo_bindings))) = Inr (Some file_binding)
   \<and> snd (get_context_binding no_fault 2 (fst (upsert_context_binding no_fault 9 1 file_binding demo_bindings))) = Inr None"
  using binding_db_roundtrip [OF demo_context file_binding_ok surjective_pairing, of 9] get_no_fault [of 2 demo_bindings]
  by (auto simp: get_context_binding_def demo_bindings_def query_def bsql_no_fault)

section \<open>The cache and the database\<close>

text \<open>The binding in force: the cached one, or else the stored one.\<close>

definition held :: "'j Broker \<Rightarrow> ContextId \<Rightarrow> ContextToolBinding option" where
  "held k ctx = (case bk_bindings k ctx of Some b \<Rightarrow> Some b | None \<Rightarrow> Option.bind (bk_db k) (stored ctx))"

definition held_grants :: "'j Broker \<Rightarrow> ContextId \<Rightarrow> Capability set" where
  "held_grants k ctx = (case held k ctx of Some b \<Rightarrow> grants b | None \<Rightarrow> {})"

text \<open>Bindings without repetitions, rows of existing contexts only, and nothing stored that is not in force.\<close>

definition db_ok :: "BindingDb \<Rightarrow> bool" where
  "db_ok d \<longleftrightarrow> (\<forall>ctx s. stored ctx d = Some s \<longrightarrow> binding_ok s \<and> context_exists (bd_registry d) ctx)"

definition broker_ok :: "'j Broker \<Rightarrow> bool" where
  "broker_ok k \<longleftrightarrow> (\<forall>ctx b. bk_bindings k ctx = Some b \<longrightarrow> binding_ok b)
     \<and> (\<forall>d. bk_db k = Some d \<longrightarrow> db_ok d
        \<and> (\<forall>ctx b s. bk_bindings k ctx = Some b \<longrightarrow> stored ctx d = Some s \<longrightarrow> grants s \<subseteq> grants b))"

lemma broker_okD:
  assumes "broker_ok k"
  shows "held k ctx = Some b \<Longrightarrow> binding_ok b" and "bk_db k = Some d \<Longrightarrow> db_ok d"
  using assms by (auto simp: broker_ok_def held_def db_ok_def split: option.splits Option.bind_splits)

lemma db_ok_counted: "counted d d' \<Longrightarrow> db_ok d' = db_ok d"
  unfolding db_ok_def context_exists_def by (simp only: countedD)

text \<open>Reading changes nothing that is in force.\<close>

definition alike :: "'j Broker \<Rightarrow> 'j Broker \<Rightarrow> bool" where
  "alike k k' \<longleftrightarrow> held k' = held k \<and> (broker_ok k \<longrightarrow> broker_ok k')"

lemma alike_refl: "alike k k" and alike_trans: "alike k l \<Longrightarrow> alike l m \<Longrightarrow> alike k m"
  by (auto simp: alike_def)

lemma alike_counted:
  assumes "bk_db k = Some d" and "counted d d'"
  shows "alike k (k\<lparr>bk_db := Some d'\<rparr>)"
  using assms countedD(8) [OF assms(2)] db_ok_counted [OF assms(2)]
  by (auto simp: alike_def held_def broker_ok_def fun_eq_iff split: option.split)

lemma alike_cached:
  assumes "bk_bindings k ctx = None" and "bk_db k = Some d" and "stored ctx d = Some b"
  shows "alike k (k\<lparr>bk_bindings := (bk_bindings k)(ctx \<mapsto> b)\<rparr>)"
  using assms by (auto simp: alike_def held_def broker_ok_def db_ok_def fun_eq_iff split: option.split)

lemma read_binding:
  assumes "be_fault E = no_fault" and "broker_binding E ctx k = (k', b)"
  shows "b = held k ctx" and "alike k k'"
proof -
  have "b = held k ctx \<and> alike k k'"
  proof (cases "bk_bindings k ctx")
    case (Some c)
    with assms(2) have "k' = k" and "b = Some c" by (auto simp: broker_binding_def)
    with Some show ?thesis by (simp add: held_def alike_refl)
  next
    case none: None
    show ?thesis
    proof (cases "bk_db k")
      case None
      with none assms(2) show ?thesis by (simp add: broker_binding_def held_def alike_refl)
    next
      case (Some d)
      obtain d' where d': "get_context_binding no_fault ctx d = (d', Inr (stored ctx d))" "counted d d'" by (rule get_no_fault)
      note db = alike_counted [OF Some d'(2)]
      show ?thesis
      proof (cases "stored ctx d")
        case None
        with none Some assms d'(1) db show ?thesis by (simp add: broker_binding_def held_def)
      next
        case st: (Some c)
        have "alike k (k\<lparr>bk_db := Some d', bk_bindings := (bk_bindings k)(ctx \<mapsto> c)\<rparr>)"
          using alike_trans [OF db alike_cached [of "k\<lparr>bk_db := Some d'\<rparr>" ctx d' c]] none st countedD(8) [OF d'(2), of ctx] by simp
        moreover have "k' = k\<lparr>bk_db := Some d', bk_bindings := (bk_bindings k)(ctx \<mapsto> c)\<rparr>" and "b = Some c"
          using none Some st assms d'(1) by (auto simp: broker_binding_def)
        ultimately show ?thesis using none Some st by (simp add: held_def)
      qed
    qed
  qed
  then show "b = held k ctx" "alike k k'" by simp_all
qed

lemma read_default:
  assumes "be_fault E = no_fault" and "binding_or_default E ctx k = (k', b)"
  shows "b = (case held k ctx of Some b \<Rightarrow> b | None \<Rightarrow> binding_new)" and "alike k k'"
  using assms(2) read_binding [OF assms(1)] by (auto simp: binding_or_default_def split: prod.splits)

lemma held_default: "grants (case held k ctx of Some b \<Rightarrow> b | None \<Rightarrow> binding_new) = held_grants k ctx"
  by (simp add: held_grants_def bindings.listed_none split: option.split)

lemma held_default_ok: "broker_ok k \<Longrightarrow> binding_ok (case held k ctx of Some b \<Rightarrow> b | None \<Rightarrow> binding_new)"
  using broker_okD(1) [of k ctx] by (simp add: bindings.ok_none split: option.split)

text \<open>Writing puts the binding in force for its context, and for no other.\<close>

lemma upsert_missing:
  assumes "\<not> context_exists (bd_registry d) ctx"
  shows "counted d (fst (upsert_context_binding no_fault now ctx b d))"
  using assms
  by (auto simp: upsert_context_binding_def transaction_def bbind_def exec_def bsql_no_fault write_binding_def put_flags_def
      context_exists_def counted_def ticked_def)

lemma held_set_binding:
  "held (set_binding E now ctx b k) c = (if c = ctx then Some b else held k c)" if "be_fault E = no_fault" "broker_ok k" "binding_ok b"
proof -
  have bb: "bk_bindings (set_binding E now ctx b k) = (bk_bindings k)(ctx \<mapsto> b)"
    by (simp add: set_binding_def Let_def emit_binding_diff_def persist_binding_def split: option.split)
  have "Option.bind (bk_db (set_binding E now ctx b k)) (stored c) = Option.bind (bk_db k) (stored c)" if "c \<noteq> ctx"
  proof (cases "bk_db k")
    case None
    then show ?thesis by (simp add: set_binding_def Let_def emit_binding_diff_def persist_binding_def)
  next
    case (Some d)
    have "stored c (fst (upsert_context_binding no_fault now ctx b d)) = stored c d"
    proof (cases "context_exists (bd_registry d) ctx")
      case True
      then show ?thesis
        using upsert_no_fault [OF True \<open>binding_ok b\<close>, of now] counted_stored stored_with_rows [OF \<open>binding_ok b\<close>] that by fastforce
    next
      case False
      then show ?thesis by (rule countedD(8) [OF upsert_missing])
    qed
    with Some \<open>be_fault E = no_fault\<close> show ?thesis
      by (simp add: set_binding_def Let_def emit_binding_diff_def persist_binding_def)
  qed
  then show ?thesis by (auto simp: held_def bb split: option.split)
qed

lemma broker_ok_set:
  assumes "be_fault E = no_fault" and "broker_ok k" and "binding_ok b"
  shows "broker_ok (set_binding E now ctx b k)"
proof (cases "bk_db k")
  case None
  with assms show ?thesis by (auto simp: broker_ok_def set_binding_def Let_def emit_binding_diff_def persist_binding_def)
next
  case (Some d)
  define d' where "d' = fst (upsert_context_binding no_fault now ctx b d)"
  have "db_ok d' \<and> (\<forall>c. stored c d' = (if c = ctx \<and> context_exists (bd_registry d) ctx then Some b else stored c d))"
  proof (cases "context_exists (bd_registry d) ctx")
    case True
    then have c: "counted (with_rows now ctx b d) d'"
      using upsert_no_fault [OF True assms(3), of now] by (auto simp: d'_def)
    have st: "stored c d' = (if c = ctx then Some b else stored c d)" for c
      using counted_stored [OF c] stored_with_rows [OF assms(3)] by simp
    moreover have "context_exists (bd_registry d') c = context_exists (bd_registry d) c" for c
      using countedD(7) [OF c] by (simp add: context_exists_def with_rows_def cleared_rows_def drop_binding_def)
    ultimately show ?thesis using True assms(3) broker_okD(2) [OF assms(2) Some] by (simp add: db_ok_def)
  next
    case False
    have c: "counted d d'" using upsert_missing [OF False] by (simp add: d'_def)
    then show ?thesis
      using False broker_okD(2) [OF assms(2) Some] by (simp add: db_ok_counted countedD(8) [OF c])
  qed
  then show ?thesis using assms Some broker_okD(2) [OF assms(2) Some]
    by (auto simp: broker_ok_def set_binding_def Let_def emit_binding_diff_def persist_binding_def db_ok_def simp flip: d'_def)
qed

section \<open>Commands of an ordinary context\<close>

lemma binding_ok_resolutions: "binding_ok b \<Longrightarrow> binding_ok (apply_resolutions rs b) \<and> grants (apply_resolutions rs b) = grants b"
proof (induction rs b rule: apply_resolutions.induct)
  case (2 pair visible rs b)
  have "grants (b\<lparr>tb_name_map := m\<rparr>) = grants b" for m by (simp add: grants_def)
  moreover have "binding_ok (b\<lparr>tb_name_map := bt_insert visible pair (tb_name_map b)\<rparr>)" using 2(3) by (simp add: binding_ok_def bt_ok_insert)
  ultimately show ?case using 2 by auto
qed simp

definition ordinary :: "'j Broker \<Rightarrow> KjCaller \<Rightarrow> bool" where
  "ordinary k caller \<longleftrightarrow> \<not> kc_privileged caller \<and> (\<forall>ctx. kc_context_id caller = Some ctx \<longrightarrow> Admin \<notin> held_grants k ctx)"

text \<open>What an ordinary context can do to bindings: the commands, reading, listing its tools, passing a gate.\<close>

inductive command_step :: "'j broker_env \<Rightarrow> 'j Broker \<Rightarrow> 'j Broker \<Rightarrow> bool" for E where
  mutate: "ordinary k caller \<Longrightarrow> binding_mutate E U now cap target caller widen k = (k', r) \<Longrightarrow> command_step E k k'"
| reset: "ordinary k caller \<Longrightarrow> binding_reset E U target caller k = (k', r) \<Longrightarrow> command_step E k k'"
| read: "broker_binding E ctx k = (k', b) \<Longrightarrow> command_step E k k'"
| listing: "list_visible_tools E cc ctx k = (k', out) \<Longrightarrow> command_step E k k'"
| facade: "check_facade E ctx f k = (k', a) \<Longrightarrow> command_step E k k'"
| gate: "tool_allowed E ctx i name k = (k', a2) \<Longrightarrow> command_step E k k'"

text \<open>And calling a tool, with servers and hooks that do no more to the broker than that themselves.\<close>

definition servers_ordinary :: "'j broker_env \<Rightarrow> bool" where
  "servers_ordinary E \<longleftrightarrow> (\<forall>ps cc k. (command_step E)\<^sup>*\<^sup>* k (fst (be_call E ps cc k)))
     \<and> (\<forall>phase body depth ps cc pl k. (command_step E)\<^sup>*\<^sup>* k (fst (be_invoke E phase body depth ps cc pl k)))"

inductive ordinary_step :: "'j broker_env \<Rightarrow> 'j Broker \<Rightarrow> 'j Broker \<Rightarrow> bool" for E where
  command: "command_step E k k' \<Longrightarrow> ordinary_step E k k'"
| call: "call_tool E depth ps cc k = (k', rt) \<Longrightarrow> ordinary_step E k k'"

definition narrower :: "'j Broker \<Rightarrow> 'j Broker \<Rightarrow> bool" where
  "narrower k k' \<longleftrightarrow> broker_ok k' \<and> (\<forall>ctx. held_grants k' ctx \<subseteq> held_grants k ctx)"

lemma narrower_alike: "broker_ok k \<Longrightarrow> alike k k' \<Longrightarrow> narrower k k'"
  by (simp add: narrower_def alike_def held_grants_def)

lemma narrower_trans: "narrower k l \<Longrightarrow> narrower l m \<Longrightarrow> narrower k m"
  unfolding narrower_def by blast

lemma authorize_ordinary:
  assumes "be_fault E = no_fault" and "ordinary k caller" and "authorize_binding_write E caller target widen k = (k', r)"
  shows "alike k k'" and "r = Inr () \<Longrightarrow> \<not> widen"
proof -
  have admin: "\<not> (case held k c of Some b \<Rightarrow> tb_binding_admin b | None \<Rightarrow> False)" if "kc_context_id caller = Some c" for c
    using assms(2) that by (auto simp: ordinary_def held_grants_def split: option.splits)
  show "alike k k'" "r = Inr () \<Longrightarrow> \<not> widen"
    using assms(2,3) admin read_binding [OF assms(1)]
    by (auto simp: authorize_binding_write_def ordinary_def Let_def alike_refl split: option.splits prod.splits if_splits)
qed

lemma narrower_set:
  assumes "be_fault E = no_fault" and "broker_ok k" and "binding_ok b" and "grants b \<subseteq> held_grants k ctx"
  shows "narrower k (set_binding E now ctx b k)"
  using assms(4) broker_ok_set [OF assms(1-3)] held_set_binding [OF assms(1-3)]
  by (simp add: narrower_def held_grants_def)

lemma narrower_mutate:
  assumes "be_fault E = no_fault" and "broker_ok k" and "ordinary k caller"
    and "binding_mutate E U now cap target caller widen k = (k', r)"
  shows "narrower k k'"
proof (cases "\<exists>c ctx. parse_capability cap = Inr c \<and> target = Inr ctx")
  case False
  then have "k' = k" using assms(4) by (auto simp: binding_mutate_def split: sum.splits)
  then show ?thesis using narrower_alike [OF assms(2) alike_refl] by simp
next
  case True
  then obtain c ctx where c: "parse_capability cap = Inr c" "target = Inr ctx" by blast
  obtain k1 r1 where a: "authorize_binding_write E caller ctx widen k = (k1, r1)" by fastforce
  note a' = authorize_ordinary [OF assms(1,3) a]
  show ?thesis
  proof (cases r1)
    case (Inl m)
    with c a assms(4) have "k' = k1" by (simp add: binding_mutate_def)
    then show ?thesis using narrower_alike [OF assms(2) a'(1)] by simp
  next
    case (Inr u)
    then have "\<not> widen" using a'(2) by simp
    obtain k2 b where b: "binding_or_default E ctx k1 = (k2, b)" by fastforce
    note d = read_default [OF assms(1) b]
    have al: "alike k k2" using a'(1) d(2) by (rule alike_trans)
    then have ok2: "broker_ok k2" and h: "held k2 = held k" "held k1 = held k" using assms(2) a'(1) by (simp_all add: alike_def)
    have bok: "binding_ok b" and g: "grants b = held_grants k2 ctx"
      using held_default_ok [OF assms(2), of ctx] held_default [of k ctx] by (simp_all add: d(1) h held_grants_def)
    have "narrower k2 (set_binding E now ctx (revoke_cap c b) k2)"
      by (rule narrower_set [OF assms(1) ok2]) (auto simp: binding_ok_revoke [OF bok] grants_revoke g)
    moreover have "k' = set_binding E now ctx (revoke_cap c b) k2"
      using c a b Inr \<open>\<not> widen\<close> assms(4) by (simp add: binding_mutate_def)
    ultimately show ?thesis using narrower_trans [OF narrower_alike [OF assms(2) al]] by simp
  qed
qed

lemma narrower_clear: "broker_ok k \<Longrightarrow> narrower k (clear_binding ctx k)"
  by (fastforce simp: narrower_def clear_binding_def broker_ok_def held_grants_def held_def split: option.splits Option.bind_splits)

lemma narrower_reset:
  assumes "be_fault E = no_fault" and "broker_ok k" and "ordinary k caller" and "binding_reset E U target caller k = (k', r)"
  shows "narrower k k'"
proof (cases target)
  case (Inl m)
  with assms(4) show ?thesis using narrower_alike [OF assms(2) alike_refl] by (simp add: binding_reset_def)
next
  case (Inr ctx)
  obtain k1 r1 where a: "authorize_binding_write E caller ctx False k = (k1, r1)" by fastforce
  note n = narrower_alike [OF assms(2) authorize_ordinary(1) [OF assms(1,3) a]]
  from Inr a assms(4) have "k' = k1 \<or> k' = clear_binding ctx k1" by (auto simp: binding_reset_def split: sum.splits)
  then show ?thesis using n narrower_trans [OF n narrower_clear] by (auto simp: narrower_def)
qed

lemma narrower_cache:
  assumes "broker_ok k" and "binding_ok b" and "grants b = held_grants k ctx"
  shows "narrower k (k\<lparr>bk_bindings := (bk_bindings k)(ctx \<mapsto> b)\<rparr>)"
proof -
  have "grants s \<subseteq> held_grants k ctx" if "bk_db k = Some d" "stored ctx d = Some s" for d s
    using assms(1) that by (auto simp: broker_ok_def held_grants_def held_def split: option.split)
  then show ?thesis
    using assms by (auto simp: narrower_def broker_ok_def held_grants_def held_def split: option.splits)
qed

lemma narrower_listing:
  assumes "be_fault E = no_fault" and "broker_ok k" and "list_visible_tools E cc ctx k = (k', out)"
  shows "narrower k k'"
proof -
  obtain k1 b where b: "binding_or_default E ctx k = (k1, b)" by fastforce
  note d = read_default [OF assms(1) b]
  note n = narrower_alike [OF assms(2) d(2)]
  have bok: "binding_ok b" and g: "grants b = held_grants k1 ctx"
    using held_default_ok [OF assms(2), of ctx] held_default [of k ctx] d by (simp_all add: alike_def held_grants_def)
  have "k' = k1 \<or> (\<exists>rs. k' = k1\<lparr>bk_bindings := (bk_bindings k1)(ctx \<mapsto> apply_resolutions rs b)\<rparr>)"
    using assms(3) b by (auto simp: list_visible_tools_def list_finish_def Let_def split: sum.splits)
  then show ?thesis
  proof
    assume "\<exists>rs. k' = k1\<lparr>bk_bindings := (bk_bindings k1)(ctx \<mapsto> apply_resolutions rs b)\<rparr>"
    then obtain rs where k': "k' = k1\<lparr>bk_bindings := (bk_bindings k1)(ctx \<mapsto> apply_resolutions rs b)\<rparr>" ..
    show ?thesis unfolding k'
      by (rule narrower_trans [OF n narrower_cache]) (use n binding_ok_resolutions [OF bok] g in \<open>auto simp: narrower_def\<close>)
  qed (use n in simp)
qed

lemma narrower_command:
  assumes "be_fault E = no_fault" and "broker_ok k" and "command_step E k k'"
  shows "narrower k k'"
  using assms(3)
proof cases
  case (facade ctx f a)
  then show ?thesis
    using read_default(2) [OF assms(1)] narrower_alike [OF assms(2)] by (auto simp: check_facade_def split: prod.splits)
next
  case (gate ctx i name a2)
  then show ?thesis
    using read_binding(2) [OF assms(1)] narrower_alike [OF assms(2)] by (auto simp: tool_allowed_def split: prod.splits option.splits)
next
  case (read ctx b)
  then show ?thesis using read_binding(2) [OF assms(1)] narrower_alike [OF assms(2)] by blast
next
  case (mutate caller U now cap target widen r)
  then show ?thesis by (rule narrower_mutate [OF assms(1,2)])
next
  case (reset caller U target r)
  then show ?thesis by (rule narrower_reset [OF assms(1,2)])
next
  case (listing cc ctx out)
  then show ?thesis by (rule narrower_listing [OF assms(1,2)])
qed

lemma narrower_commands:
  assumes "be_fault E = no_fault" and "broker_ok k" and "(command_step E)\<^sup>*\<^sup>* k k'"
  shows "narrower k k'"
  using assms(3)
proof induction
  case base
  show ?case by (rule narrower_alike [OF assms(2) alike_refl])
next
  case (step l m)
  then show ?case using narrower_command [OF assms(1)] narrower_trans narrower_def by metis
qed

text \<open>A stage of a call that leaves no context with more than it had.\<close>

definition narrows :: "('j Broker \<Rightarrow> 'j Broker \<times> 'a) \<Rightarrow> bool" where
  "narrows f \<longleftrightarrow> (\<forall>k. broker_ok k \<longrightarrow> narrower k (fst (f k)))"

lemma narrows_return: "narrows (\<lambda>k. (k, r))"
  by (simp add: narrows_def narrower_alike alike_refl)

lemma narrows_then:
  assumes "narrows f" and "\<And>a. narrows (g a)"
  shows "narrows (\<lambda>k. case f k of (k, a) \<Rightarrow> g a k)"
  using assms unfolding narrows_def narrower_def by (simp add: case_prod_unfold) blast

lemma narrows_server: "be_fault E = no_fault \<Longrightarrow> servers_ordinary E \<Longrightarrow> narrows (be_call E ps cc)"
  and narrows_hook: "be_fault E = no_fault \<Longrightarrow> servers_ordinary E \<Longrightarrow> narrows (be_invoke E phase body depth ps cc pl)"
  by (simp_all add: narrows_def servers_ordinary_def narrower_commands)

lemma narrows_hooks:
  fixes E :: "'j broker_env"
  assumes "be_fault E = no_fault" and "servers_ordinary E"
  shows "narrows (run_hooks E phase depth ps cc pl es)"
proof (induction es)
  case Nil
  show ?case using narrows_return by (simp add: narrows_def)
next
  case (Cons e es)
  show ?case
    unfolding narrows_def
  proof (intro allI impI)
    fix k :: "'j Broker" assume ok: "broker_ok k"
    note return = narrower_alike [OF ok alike_refl]
    show "narrower k (fst (run_hooks E phase depth ps cc pl (e # es) k))"
    proof (cases "he_action e")
      case (Invoke body)
      obtain k1 r where inv: "be_invoke E phase body (depth + 1) ps cc pl k = (k1, r)" by fastforce
      then have n: "narrower k k1" using narrows_hook [OF assms] ok unfolding narrows_def by (metis fst_conv)
      then have "narrower k1 (fst (run_hooks E phase depth ps cc pl es k1))" using Cons by (simp add: narrows_def narrower_def)
      with n return Invoke inv show ?thesis using narrower_trans [OF n] by (auto split: sum.split)
    qed (use Cons ok return in \<open>auto simp: narrows_def\<close>)
  qed
qed

lemma narrows_phase:
  assumes "be_fault E = no_fault" and "servers_ordinary E"
  shows "narrows (evaluate_phase E phase depth ps cc pl)"
  using narrows_hooks [OF assms] by (simp add: narrows_def evaluate_phase_def)

lemma narrows_ends:
  assumes "be_fault E = no_fault" and "servers_ordinary E"
  shows "narrows (post_call E depth ps cc r)" and "narrows (run_on_error_then_err E depth ps cc err)"
  using narrows_phase [OF assms]
  by (simp_all add: narrows_def post_call_def run_on_error_then_err_def case_prod_unfold split: sum.split PhaseOutcome.split)

lemma narrows_pipeline:
  fixes E :: "'j broker_env"
  assumes "be_fault E = no_fault" and "servers_ordinary E"
  shows "narrows (call_pipeline E depth policy ps cc)"
proof -
  define serve where "serve k = (case be_call E ps cc k of
             (k, Answered (Inr r)) \<Rightarrow>
               (let size = estimate_result_size E r;
                    r = (if ip_max_result_bytes policy < size
                         then truncate_result_to_budget E r (ip_max_result_bytes policy) size else r)
                in post_call E depth ps cc r k)
           | (k, Answered (Inl e)) \<Rightarrow> run_on_error_then_err E depth ps cc e k
           | (k, TimedOut) \<Rightarrow>
               run_on_error_then_err E depth ps cc (Policy (Timeout (cp_instance ps) (ip_call_timeout_ms policy))) k
           | (k, WasCancelled) \<Rightarrow> run_on_error_then_err E depth ps cc Cancelled k)" for k
  have serve: "narrows serve"
    unfolding narrows_def
  proof (intro allI impI)
    fix k :: "'j Broker" assume "broker_ok k"
    then have n: "narrower k (fst (be_call E ps cc k))" using narrows_server [OF assms] by (simp add: narrows_def)
    then have "narrower (fst (be_call E ps cc k)) (fst (post_call E depth ps cc r (fst (be_call E ps cc k))))"
      "narrower (fst (be_call E ps cc k)) (fst (run_on_error_then_err E depth ps cc err (fst (be_call E ps cc k))))" for r err
      using narrows_ends [OF assms] by (simp_all add: narrows_def narrower_def)
    then show "narrower k (fst (serve k))"
      using narrower_trans [OF n] by (simp add: serve_def case_prod_unfold Let_def split: call_outcome.split sum.split)
  qed
  have "narrows (\<lambda>k. case evaluate_phase E PreCall depth ps cc NoPayload k of (k, a) \<Rightarrow>
      (case a of Inl e \<Rightarrow> (\<lambda>k. (k, Inl e)) | Inr (ShortCircuited _ r) \<Rightarrow> post_call E depth ps cc r
       | Inr (PhaseDenied i _) \<Rightarrow> (\<lambda>k. (k, Inl (Denied i))) | Inr Continue \<Rightarrow> serve) k)"
    using narrows_ends(1) [OF assms] serve
    by (intro narrows_then [OF narrows_phase [OF assms]]) (simp add: narrows_return split: sum.split PhaseOutcome.split)
  moreover have "call_pipeline E depth policy ps cc = (\<lambda>k. case evaluate_phase E PreCall depth ps cc NoPayload k of (k, a) \<Rightarrow>
      (case a of Inl e \<Rightarrow> (\<lambda>k. (k, Inl e)) | Inr (ShortCircuited _ r) \<Rightarrow> post_call E depth ps cc r
       | Inr (PhaseDenied i _) \<Rightarrow> (\<lambda>k. (k, Inl (Denied i))) | Inr Continue \<Rightarrow> serve) k)"
    by (simp add: fun_eq_iff call_pipeline_def serve_def split: prod.split sum.split PhaseOutcome.split)
  ultimately show ?thesis by simp
qed

lemma narrower_semaphores [simp]:
  "broker_ok (k\<lparr>bk_semaphores := m\<rparr>) = broker_ok k" "held (k\<lparr>bk_semaphores := m\<rparr>) = held k"
  "narrower (k\<lparr>bk_semaphores := m\<rparr>) l = narrower k l" "narrower l (k\<lparr>bk_semaphores := m\<rparr>) = narrower l k"
proof -
  show h: "held (k\<lparr>bk_semaphores := m\<rparr>) = held k" and b: "broker_ok (k\<lparr>bk_semaphores := m\<rparr>) = broker_ok k"
    by (simp_all add: held_def broker_ok_def fun_eq_iff split: option.split)
  show "narrower (k\<lparr>bk_semaphores := m\<rparr>) l = narrower k l" "narrower l (k\<lparr>bk_semaphores := m\<rparr>) = narrower l k"
    by (simp_all add: narrower_def held_grants_def h b)
qed

lemma narrows_permit:
  fixes f :: "'j Broker \<Rightarrow> 'j Broker \<times> (McpError + 'a)"
  assumes "narrows f"
  shows "narrows (with_permit i policy f)"
  unfolding narrows_def
proof (intro allI impI)
  fix k :: "'j Broker" assume ok: "broker_ok k"
  then have "narrower k (fst (f k))" "narrower k (fst (f (k\<lparr>bk_semaphores := m\<rparr>)))" for m
    using assms [unfolded narrows_def, rule_format, of k] assms [unfolded narrows_def, rule_format, of "k\<lparr>bk_semaphores := m\<rparr>"] by simp_all
  then show "narrower k (fst (with_permit i policy f k))"
    using narrower_alike [OF ok alike_refl] by (simp add: with_permit_def case_prod_unfold split: option.split)
qed

lemma narrower_call:
  assumes "be_fault E = no_fault" and "servers_ordinary E" and "broker_ok k" and "call_tool E depth ps cc k = (k', r)"
  shows "narrower k k'"
proof -
  obtain k1 a where g: "tool_allowed E (cc_context_id cc) (cp_instance ps) (cp_tool ps) k = (k1, a)" by fastforce
  have n: "narrower k k1" by (rule narrower_command [OF assms(1,3) command_step.gate [OF g]])
  let ?policy = "case bk_policies k1 (cp_instance ps) of Some p \<Rightarrow> p | None \<Rightarrow> policy_default"
  have "narrower k1 (fst (with_permit (cp_instance ps) ?policy (call_pipeline E depth ?policy ps cc) k1))"
    using narrows_permit [OF narrows_pipeline [OF assms(1,2)]] n by (simp add: narrows_def narrower_def)
  moreover have "k' = k \<or> k' = k1 \<or> k' = fst (with_permit (cp_instance ps) ?policy (call_pipeline E depth ?policy ps cc) k1)"
    using assms(4) g by (auto simp: call_tool_def Let_def split: if_splits)
  ultimately show ?thesis using n narrower_trans [OF n] narrower_alike [OF assms(3) alike_refl] by blast
qed


text \<open>The effect of a successful revocation, for whichever caller.\<close>

lemma authorize_alike:
  assumes "be_fault E = no_fault" and "authorize_binding_write E caller target widen k = (k', r)"
  shows "alike k k'"
  using assms(2) read_binding(2) [OF assms(1)]
  by (auto simp: authorize_binding_write_def Let_def alike_refl split: option.splits prod.splits if_splits)

lemma authorize_own:
  assumes "kc_context_id caller = Some ctx"
  shows "snd (authorize_binding_write E caller ctx False k) = Inr ()"
  using assms by (auto simp: authorize_binding_write_def Let_def split: prod.splits)

lemma revoke_held:
  assumes "be_fault E = no_fault" and "broker_ok k" and "parse_capability cap = Inr c"
    and "binding_mutate E U now cap (Inr ctx) caller False k = (k', Inr m)"
  shows "held k' ctx = Some (revoke_cap c (case held k ctx of Some b \<Rightarrow> b | None \<Rightarrow> binding_new))" and "broker_ok k'"
proof -
  obtain k1 r1 where a: "authorize_binding_write E caller ctx False k = (k1, r1)" by fastforce
  obtain k2 b where b: "binding_or_default E ctx k1 = (k2, b)" by fastforce
  note d = read_default [OF assms(1) b]
  have k': "k' = set_binding E now ctx (revoke_cap c b) k2"
    using assms(3,4) a b by (auto simp: binding_mutate_def split: sum.splits)
  have ok1: "broker_ok k1" and h1: "held k1 = held k"
    using authorize_alike [OF assms(1) a] assms(2) by (simp_all add: alike_def)
  have ok2: "broker_ok k2" using d(2) ok1 by (simp add: alike_def)
  have bok: "binding_ok (revoke_cap c b)" using binding_ok_revoke held_default_ok [OF ok1, of ctx] d(1) by simp
  show "held k' ctx = Some (revoke_cap c (case held k ctx of Some b \<Rightarrow> b | None \<Rightarrow> binding_new))"
    using held_set_binding [OF assms(1) ok2 bok] by (simp add: k' d(1) h1)
  show "broker_ok k'" unfolding k' by (rule broker_ok_set [OF assms(1) ok2 bok])
qed

lemma own_revoke_runs:
  assumes "parse_capability cap = Inr c" and "kc_context_id caller = Some ctx"
  shows "\<exists>k' m. binding_mutate E U now cap (Inr ctx) caller False k = (k', Inr m)"
  using assms(1) authorize_own [OF assms(2), of E k]
  by (auto simp: binding_mutate_def split: prod.split)

text \<open>A broker with one bound context, whose servers answer nothing.\<close>

definition quiet_env :: "unit broker_env" where
  "quiet_env = \<lparr>be_glob = (=), be_list_tools = (\<lambda>_. Inr []), be_call = (\<lambda>_ _ k. (k, WasCancelled)),
     be_invoke = (\<lambda>_ _ _ _ _ _ k. (k, Inr ())), be_json = (\<lambda>_. ''{}''), be_fault = no_fault\<rparr>"

definition demo_broker :: "unit Broker" where
  "demo_broker = set_binding quiet_env 9 1 file_binding (broker_new\<lparr>bk_db := Some demo_bindings\<rparr>)"

definition plain_caller :: KjCaller where
  "plain_caller = \<lparr>kc_context_id = Some 1, kc_privileged = False\<rparr>"

lemma quiet_fault [simp]: "be_fault quiet_env = no_fault"
  by (simp add: quiet_env_def)

lemma demo_start: "broker_ok (broker_new\<lparr>bk_db := Some demo_bindings\<rparr>)" "held (broker_new\<lparr>bk_db := Some demo_bindings\<rparr>) = Map.empty"
  by (auto simp: broker_ok_def db_ok_def broker_new_def stored_def demo_bindings_def held_def)

lemma demo_broker_ok: "broker_ok demo_broker"
  unfolding demo_broker_def by (rule broker_ok_set [OF quiet_fault demo_start(1) file_binding_ok])

lemma demo_held: "held demo_broker c = (if c = 1 then Some file_binding else None)"
  unfolding demo_broker_def held_set_binding [OF quiet_fault demo_start(1) file_binding_ok] by (simp add: demo_start(2))

lemma plain_ordinary: "ordinary demo_broker plain_caller"
  by (simp add: ordinary_def plain_caller_def held_grants_def demo_held file_grants)

lemma shell_parses: "parse_capability ''facade:shell'' = Inr (Facade ''shell'')"
  using parse_facade [of "''shell''"] by simp

definition shell_revoked :: "unit Broker" where
  "shell_revoked = fst (binding_mutate quiet_env reference_uuid_lib 9 ''facade:shell'' (Inr 1) plain_caller False demo_broker)"

lemma shell_revoked_run: "\<exists>m. binding_mutate quiet_env reference_uuid_lib 9 ''facade:shell'' (Inr 1) plain_caller False demo_broker = (shell_revoked, Inr m)"
  using own_revoke_runs [OF shell_parses, of plain_caller 1 quiet_env reference_uuid_lib 9 demo_broker]
  by (auto simp: shell_revoked_def plain_caller_def)

lemma shell_revoked_held: "held shell_revoked 1 = Some (revoke_cap (Facade ''shell'') file_binding)"
  using revoke_held(1) [OF quiet_fault demo_broker_ok shell_parses] shell_revoked_run by (fastforce simp: demo_held)


end
