(* ===== verification/Tool_Call_Props.thy ===== *)
theory Tool_Call_Props
  imports Tool_Broker_Props
begin

text \<open>
  Where a revocation does not hold: a reset with a stored binding, and a listing that overlaps it; what a
  listing shows, what a call is let through to, and the bound on the result of a call.
\<close>

section \<open>Lost revocations\<close>

lemma read_stored:
  assumes "be_fault E = no_fault" and "broker_binding E c k = (k', b)"
  shows "Option.bind (bk_db k') (stored ctx) = Option.bind (bk_db k) (stored ctx)"
proof (cases "bk_db k")
  case None
  with assms(2) have "bk_db k' = None" by (auto simp: broker_binding_def split: option.splits)
  with None show ?thesis by simp
next
  case (Some d)
  obtain d' where d': "get_context_binding no_fault c d = (d', Inr (stored c d))" "counted d d'" by (rule get_no_fault)
  have "bk_db k' = Some d \<or> bk_db k' = Some d'"
    using assms Some d'(1) by (auto simp: broker_binding_def split: option.splits)
  then show ?thesis using Some countedD(8) [OF d'(2), of ctx] by auto
qed

lemma authorize_stored:
  assumes "be_fault E = no_fault" and "authorize_binding_write E caller target widen k = (k', r)"
  shows "Option.bind (bk_db k') (stored ctx) = Option.bind (bk_db k) (stored ctx)"
  using assms(2) read_stored [OF assms(1)]
  by (auto simp: authorize_binding_write_def Let_def split: option.splits prod.splits if_splits)

text \<open>
  C21: A reset does not last.  The command answers that the context now denies all, but it only drops the
  cached binding: with a binding in the database the next read brings that binding back, so the context
  is allowed what the stored binding allows.
\<close>

theorem reset_comes_back:
  assumes "be_fault E = no_fault" and "bk_db k = Some d" and "snd (get_context_binding no_fault ctx d) = Inr (Some b)"
    and "binding_reset E U (Inr ctx) caller k = (k', Inr message)"
  shows "bk_bindings k' ctx = None \<and> snd (broker_binding E ctx k') = Some b"
proof -
  obtain k1 r1 where a: "authorize_binding_write E caller ctx False k = (k1, r1)" by fastforce
  have k': "k' = clear_binding ctx k1" using a assms(4) by (auto simp: binding_reset_def split: sum.splits)
  have "stored ctx d = Some b" using assms(3) get_no_fault [of ctx d] by (metis snd_conv sum.inject(2))
  then have "held k' ctx = Some b"
    using authorize_stored [OF assms(1) a, of ctx] assms(2) by (simp add: k' clear_binding_def held_def)
  moreover obtain k2 b2 where r: "broker_binding E ctx k' = (k2, b2)" by fastforce
  ultimately show ?thesis using read_binding(1) [OF assms(1) r] by (simp add: r) (simp add: k' clear_binding_def)
qed

lemma own_reset_runs:
  assumes "kc_context_id caller = Some ctx"
  shows "\<exists>k' m. binding_reset E U (Inr ctx) caller k = (k', Inr m)"
  using authorize_own [OF assms, of E k] by (auto simp: binding_reset_def split: prod.split)

theorem reset_comes_back_witness:
  "snd (broker_binding quiet_env 1 (fst (binding_reset quiet_env reference_uuid_lib (Inr 1) plain_caller demo_broker))) = Some file_binding"
proof -
  let ?d = "fst (upsert_context_binding no_fault 9 1 file_binding demo_bindings)"
  have db: "bk_db demo_broker = Some ?d"
    by (simp add: demo_broker_def set_binding_def Let_def emit_binding_diff_def persist_binding_def broker_new_def)
  have get: "snd (get_context_binding no_fault 1 ?d) = Inr (Some file_binding)"
    using upsert_no_fault [OF demo_context file_binding_ok, of 9] get_no_fault [of 1 ?d]
    by (metis counted_stored file_binding_ok fst_conv snd_conv stored_with_rows)
  obtain k' m where run: "binding_reset quiet_env reference_uuid_lib (Inr 1) plain_caller demo_broker = (k', Inr m)"
    using own_reset_runs [of plain_caller 1 quiet_env reference_uuid_lib demo_broker] by (auto simp: plain_caller_def)
  show ?thesis using reset_comes_back [OF quiet_fault db get run] by (simp add: run)
qed

text \<open>
  C22: A listing undoes a revocation that overlaps it.  The binding is read before the servers are asked
  and written back after they have answered: a revocation carried out in between is in force until the
  listing ends, and afterwards the context is allowed again exactly what it was allowed before.
\<close>

theorem stale_listing:
  assumes "be_fault E = no_fault" and "broker_ok k" and "binding_or_default E ctx k = (k1, b)"
    and "parse_capability cap = Inr g" and "binding_mutate E U now cap (Inr ctx) caller False k1 = (k2, Inr message)"
    and "list_finish E cc ctx b tools k2 = (k3, out)"
  shows "held k2 ctx = Some (revoke_cap g b) \<and> (\<exists>b'. held k3 ctx = Some b' \<and> (\<forall>c. allows b' c = allows b c))"
proof -
  note d = read_default [OF assms(1,3)]
  have ok1: "broker_ok k1" and h1: "held k1 = held k" using d(2) assms(2) by (simp_all add: alike_def)
  have "held k2 ctx = Some (revoke_cap g b)" using revoke_held(1) [OF assms(1) ok1 assms(4,5)] by (simp add: h1 d(1))
  moreover have "binding_ok b" using held_default_ok [OF assms(2), of ctx] d(1) by simp
  moreover obtain rs where "k3 = k2\<lparr>bk_bindings := (bk_bindings k2)(ctx \<mapsto> apply_resolutions rs b)\<rparr>"
    using assms(6) by (auto simp: list_finish_def Let_def)
  ultimately show ?thesis using binding_ok_resolutions [of b rs] by (simp add: held_def allows_grants)
qed

theorem stale_listing_witness:
  "\<exists>b. held (fst (list_finish quiet_env \<lparr>cc_principal_id = 1, cc_context_id = 1\<rparr> 1 file_binding [] shell_revoked)) 1 = Some b
     \<and> allows b (Facade ''shell'')"
proof -
  let ?cc = "\<lparr>cc_principal_id = 1, cc_context_id = 1\<rparr> :: CallContext"
  have read: "binding_or_default quiet_env 1 demo_broker = (demo_broker, file_binding)"
    by (simp add: demo_broker_def binding_or_default_def broker_binding_def set_binding_def Let_def emit_binding_diff_def persist_binding_def
        split: option.split)
  obtain m where run: "binding_mutate quiet_env reference_uuid_lib 9 ''facade:shell'' (Inr 1) plain_caller False demo_broker = (shell_revoked, Inr m)"
    using shell_revoked_run by blast
  have "allows file_binding (Facade ''shell'')" by (auto simp: allows_grants file_grants implies_cap_def)
  then show ?thesis
    using stale_listing [OF quiet_fault demo_broker_ok read shell_parses run surjective_pairing, of ?cc "[]"] by blast
qed

section \<open>Listings\<close>

lemma held_instances [simp]: "held (k\<lparr>bk_instances := is\<rparr>) = held k"
  by (simp add: held_def fun_eq_iff split: option.split)

lemma gather_allowed:
  "gather_tools E b is = Inr tools \<Longrightarrow> t \<in> set tools \<Longrightarrow> allows_tool b (kt_instance t) (kt_name t)"
  by (induction "is" arbitrary: tools) (auto split: sum.splits)

lemma find_name:
  assumes "bt_ok m" and "List.find (\<lambda>(_, p). p = q) m = Some (v, p)"
  shows "bt_get m v = Some q"
proof -
  have "(v, q) \<in> set m" using assms(2) nth_mem by (fastforce simp: find_Some_iff)
  then show ?thesis using bt_keys_distinct [OF assms(1)] by (simp add: bt_get_def)
qed

text \<open>
  C15: What a listing shows is what may be called.  Every tool in the answer is allowed by the binding of
  the context and hidden by no hook, and the name it is shown under resolves, in the binding the listing
  leaves behind, to that very tool of that server.
\<close>

theorem listing_sound:
  assumes "be_fault E = no_fault" and "broker_ok k" and "list_visible_tools E cc ctx k = (k', Inr out)" and "(v, t) \<in> set out"
  shows "\<exists>b. held k' ctx = Some b \<and> allows_tool b (kt_instance t) (kt_name t) \<and> resolve_name b v = Some (kt_instance t, kt_name t)
    \<and> t \<in> set (apply_list_tools_filter E cc k' [t])"
proof -
  obtain k1 b where b: "binding_or_default E ctx k = (k1, b)" by fastforce
  have bok: "binding_ok b" using held_default_ok [OF assms(2), of ctx] read_default(1) [OF assms(1) b] by simp
  obtain tools where g: "gather_tools E b (list_servers b k1) = Inr tools" and f: "list_finish E cc ctx b tools k1 = (k', out)"
    using assms(3) b by (auto simp: list_visible_tools_def split: sum.splits prod.splits)
  define b' where "b' = apply_resolutions (resolutions (apply_list_tools_filter E cc k1 tools)) b"
  have k': "k' = k1\<lparr>bk_bindings := (bk_bindings k1)(ctx \<mapsto> b')\<rparr>"
    and t: "t \<in> set (apply_list_tools_filter E cc k1 tools)"
    and v: "\<exists>p. List.find (\<lambda>(_, p). p = (kt_instance t, kt_name t)) (tb_name_map b') = Some (v, p)"
    using f assms(4) by (auto simp: list_finish_def Let_def b'_def map_filter_def)
  have b': "binding_ok b'" "grants b' = grants b" using binding_ok_resolutions [OF bok] by (simp_all add: b'_def)
  have "t \<in> set tools" using t by (simp add: apply_list_tools_filter_def)
  then have "allows_tool b' (kt_instance t) (kt_name t)" using gather_allowed [OF g] by (simp add: allows_tool_def allows_grants b'(2))
  moreover have "resolve_name b' v = Some (kt_instance t, kt_name t)"
    using v find_name b'(1) by (fastforce simp: resolve_name_def binding_ok_def)
  moreover have "t \<in> set (apply_list_tools_filter E cc k' [t])" using t by (simp add: apply_list_tools_filter_def k')
  ultimately show ?thesis by (simp add: k' held_def)
qed

definition read_tool :: "unit KernelTool" where
  "read_tool = \<lparr>kt_instance = ''builtin.file'', kt_name = ''read'', kt_description = None, kt_input_schema = ()\<rparr>"

definition listing_env :: "unit broker_env" where
  "listing_env = quiet_env\<lparr>be_list_tools := (\<lambda>_. Inr [read_tool])\<rparr>"

definition serving_broker :: "unit Broker" where
  "serving_broker = demo_broker\<lparr>bk_instances := [''builtin.file'']\<rparr>"

lemma serving: "broker_ok serving_broker" "held serving_broker 1 = Some file_binding" "bk_bindings serving_broker 1 = Some file_binding"
    "bk_hooks serving_broker ListTools = []"
  using demo_broker_ok
  by (simp_all add: serving_broker_def demo_held broker_ok_def)
    (simp_all add: demo_broker_def set_binding_def Let_def emit_binding_diff_def persist_binding_def broker_new_def)

lemma serving_lists:
  "list_visible_tools listing_env \<lparr>cc_principal_id = 1, cc_context_id = 1\<rparr> 1 serving_broker
   = (fst (list_visible_tools listing_env \<lparr>cc_principal_id = 1, cc_context_id = 1\<rparr> 1 serving_broker), Inr [(''read'', read_tool)])"
proof -
  have "list_servers file_binding serving_broker = [''builtin.file'']"
    by (simp add: list_servers_def serving_broker_def file_binding_def grant_def binding_new_def candidate_instances_def push_new_def allow_def
        facade_granted_def FACADE_PROJECTED_INSTANCES_def)
  moreover have "allows_tool file_binding ''builtin.file'' ''read''"
    by (auto simp: allows_tool_def allows_grants file_grants implies_cap_def)
  ultimately have "gather_tools listing_env file_binding (list_servers file_binding serving_broker) = Inr [read_tool]"
    by (simp add: listing_env_def read_tool_def)
  moreover have "clean_visible_tool_name ''read'' = ''read''"
    by (simp add: clean_visible_tool_name_def is_name_char_def is_continuation_def)
  moreover have "tb_name_map file_binding = []" by (simp add: file_binding_def grant_def allow_def binding_new_def)
  ultimately show ?thesis
    by (simp add: list_visible_tools_def binding_or_default_def broker_binding_def serving(3,4) list_finish_def Let_def apply_list_tools_filter_def by_priority_def resolutions_def
        read_tool_def bt_contains_def bt_get_def map_filter_def)
qed

theorem listing_sound_witness:
  "\<exists>b. held (fst (list_visible_tools listing_env \<lparr>cc_principal_id = 1, cc_context_id = 1\<rparr> 1 serving_broker)) 1 = Some b
     \<and> resolve_name b ''read'' = Some (''builtin.file'', ''read'')"
proof -
  have "be_fault listing_env = no_fault" by (simp add: listing_env_def)
  from listing_sound [OF this serving(1) serving_lists, of "''read''" read_tool]
  show ?thesis by (auto simp: read_tool_def)
qed

text \<open>
  A hook added later hides a tool from listings only: its name stays in the binding, and calls do not ask
  the hooks of listings.
\<close>

lemma hidden_name_stays:
  assumes "names_ok b" and "resolve_name b v = Some p" and "list_finish E cc ctx b tools k = (k', out)"
  shows "\<exists>b'. bk_bindings k' ctx = Some b' \<and> resolve_name b' v = Some p"
  using assms apply_resolutions_sticky [OF assms(1), where v = v and p = p] by (auto simp: list_finish_def Let_def resolve_name_def)

section \<open>Calls\<close>

text \<open>
  C14: The gate of calls.  A call to a tool that the binding of the context does not allow, or of a context
  without a binding once denial is engaged, is refused with the capability error: whatever server and
  hooks there are, none of them is asked, and the bindings in force stay as they are.
\<close>

theorem call_gated:
  assumes "be_fault E = no_fault" and "cp_instance ps \<in> set (bk_instances k)"
    and "case held k (cc_context_id cc) of Some b \<Rightarrow> \<not> allows_tool b (cp_instance ps) (cp_tool ps) | None \<Rightarrow> bk_enforce_unbound_deny k"
  shows "snd (call_tool E depth ps cc k) = Inl (CapabilityDenied (cp_instance ps) (cp_tool ps))
    \<and> held (fst (call_tool E depth ps cc k)) = held k"
proof -
  obtain k1 b where b: "broker_binding E (cc_context_id cc) k = (k1, b)" by fastforce
  note r = read_binding [OF assms(1) b]
  have "bk_enforce_unbound_deny k1 = bk_enforce_unbound_deny k"
    using b by (auto simp: broker_binding_def split: option.splits sum.splits prod.splits)
  then show ?thesis using assms(2,3) r b
    by (auto simp: call_tool_def tool_allowed_def alike_def split: option.splits)
qed

theorem call_gated_witness:
  "snd (call_tool quiet_env 0 \<lparr>cp_instance = ''builtin.block'', cp_tool = ''create'', cp_arguments = ()\<rparr>
      \<lparr>cc_principal_id = 1, cc_context_id = 1\<rparr> (demo_broker\<lparr>bk_instances := [''builtin.block'']\<rparr>))
    = Inl (CapabilityDenied ''builtin.block'' ''create'')"
proof -
  have "held (demo_broker\<lparr>bk_instances := [''builtin.block'']\<rparr>) 1 = Some file_binding"
    by (simp add: demo_held)
  moreover have "\<not> allows_tool file_binding ''builtin.block'' ''create''"
    by (simp add: allows_tool_def allows_grants file_grants implies_cap_def FACADE_PROJECTED_INSTANCES_def)
  ultimately show ?thesis
    using call_gated [OF quiet_fault, of "\<lparr>cp_instance = ''builtin.block'', cp_tool = ''create'', cp_arguments = ()\<rparr>"
        "demo_broker\<lparr>bk_instances := [''builtin.block'']\<rparr>" "\<lparr>cc_principal_id = 1, cc_context_id = 1\<rparr>" 0] by simp
qed

section \<open>Results\<close>

definition result_text :: "'j broker_env \<Rightarrow> 'j ToolContent list \<Rightarrow> string" where
  "result_text E items = concat (map (content_text_of E) items)"

lemma boundary_below_le: "boundary_below s n \<le> n"
  by (induction n) auto

lemma boundary_below_ok: "boundary_below s n = 0 \<or> is_char_boundary s (boundary_below s n)"
  by (induction n) auto

lemma result_text_simps [simp]: "result_text E [] = []" "result_text E (c # cs) = content_text_of E c @ result_text E cs"
  "result_text E (cs @ ds) = result_text E cs @ result_text E ds"
  by (simp_all add: result_text_def)

lemma length_result_text: "sum_list (map (\<lambda>c. length (content_text_of E c)) cs) = length (result_text E cs)"
  by (induction cs) auto

text \<open>What is kept is a beginning of the text, within the budget.\<close>

lemma kept_text:
  assumes "used \<le> budget"
  shows "\<exists>n. result_text E (keep_items E budget used items) = take n (result_text E items) \<and> used + length (result_text E (keep_items E budget used items)) \<le> budget"
  using assms
proof (induction items arbitrary: used)
  case (Cons item items)
  let ?t = "content_text_of E item"
  show ?case
  proof (cases "used + length ?t \<le> budget")
    case True
    from Cons.IH [OF True] obtain n where n: "result_text E (keep_items E budget (used + length ?t) items) = take n (result_text E items)"
      "used + length ?t + length (result_text E (keep_items E budget (used + length ?t) items)) \<le> budget" by blast
    have "result_text E (keep_items E budget used (item # items)) = take (length ?t + n) (result_text E (item # items))"
      using True n(1) by (simp add: Let_def)
    moreover have "used + length (result_text E (keep_items E budget used (item # items))) \<le> budget"
      using True n(2) by (simp add: Let_def)
    ultimately show ?thesis by blast
  next
    case False
    define cut where "cut = boundary_below ?t (min (budget - used) (length ?t))"
    have cut: "cut \<le> budget - used" "cut \<le> length ?t"
      using boundary_below_le [of ?t "min (budget - used) (length ?t)"] by (simp_all add: cut_def)
    have "keep_items E budget used (item # items) = (if 0 < budget - used \<and> 0 < cut then [Text (take cut ?t)] else [])"
      using False by (simp add: Let_def cut_def)
    then have "result_text E (keep_items E budget used (item # items)) = take cut (result_text E (item # items))"
      using cut by (auto simp: content_text_of_def [of E "Text _"])
    then show ?thesis using cut Cons.prems by (metis add_le_cancel_left le_add_diff_inverse length_take min.coboundedI2 order_trans)
  qed
qed simp

text \<open>
  C16: The bound on results.  A truncated result is a beginning of the text of the answer, followed by the
  notice that something was cut off; without structured content; and no longer than the budget, or than the
  notice alone if the notice does not fit the budget.
\<close>

theorem result_bounded:
  "estimate_result_size E (truncate_result_to_budget E r budget original_size) \<le> max budget (length (truncation_footer (original_size - budget)))
   \<and> tr_structured (truncate_result_to_budget E r budget original_size) = None
   \<and> (\<exists>n. result_text E (tr_content (truncate_result_to_budget E r budget original_size))
        = take n (result_text E (tr_content r)) @ truncation_footer (original_size - budget))"
proof -
  define footer where "footer = truncation_footer (original_size - budget)"
  define r' where "r' = truncate_result_to_budget E r budget original_size"
  let ?kept = "keep_items E (budget - length footer) 0 (tr_content r)"
  obtain n where n: "result_text E ?kept = take n (result_text E (tr_content r))" "length (result_text E ?kept) \<le> budget - length footer"
    using kept_text [of 0 "budget - length footer" E "tr_content r"] by auto
  have r': "tr_structured r' = None" "tr_content r' = ?kept @ [Text footer]"
    by (simp_all add: r'_def truncate_result_to_budget_def Let_def footer_def)
  have whole: "result_text E (tr_content r') = take n (result_text E (tr_content r)) @ footer"
    using n(1) by (simp add: r'(2) content_text_of_def [of E "Text _"])
  moreover have "estimate_result_size E r' \<le> max budget (length footer)"
    using n by (simp add: estimate_result_size_def length_result_text r'(1) whole)
  ultimately show ?thesis using r'(1) unfolding r'_def footer_def by blast
qed

end
