(* ===== verification/Tool_Notices.thy ===== *)
theory Tool_Notices
  imports Tool_Broker Kernel_Ops
begin

text \<open>
  Notices of tool servers: \<open>crates/kaijutsu-kernel/src/mcp/coalescer.rs\<close>, and of \<open>mcp/broker.rs\<close> the
  registration of servers, resources with their subscriptions, the pump that turns the notifications
  of a server into blocks, and the timers that close the windows of the coalescer.

  The pump of a server, the timers and the callers are separate tasks.  A timer is given in two steps,
  because other tasks may run between the moment its window is flushed and the moment its entry is
  removed; a subscription in two steps around the call of the server.  Times are milliseconds.

  Parameters beside those of the broker: what servers answer to reads and subscriptions, the JSON
  arguments and the debug text of errors that hooks and blocks show, and the order in which hash maps
  are walked.
\<close>

section \<open>The coalescer\<close>

datatype NotifKind = ToolsChanged | PromptsChanged | ResourceUpdated | Log | Elicitation

type_synonym CoalesceKey = "InstanceId \<times> NotifKind \<times> string option"

record CoalescePolicy =
  co_window :: nat
  co_max_in_window :: nat
  co_hard_drop_after :: "nat option"
  co_per_kind_override :: "NotifKind \<rightharpoonup> nat"

definition coalesce_policy_default :: CoalescePolicy where
  "coalesce_policy_default = \<lparr>co_window = 500, co_max_in_window = 20, co_hard_drop_after = None,
     co_per_kind_override = [NotifKind.ResourceUpdated \<mapsto> 0]\<rparr>"

definition max_in_window_for :: "CoalescePolicy \<Rightarrow> NotifKind \<Rightarrow> nat" where
  "max_in_window_for p kind = (case co_per_kind_override p kind of Some n \<Rightarrow> n | None \<Rightarrow> co_max_in_window p)"

datatype ObserveOutcome = PassThrough | StartWindow | Coalesced nat

record Window =
  wn_opened_at :: nat
  wn_count :: nat
  wn_coalesced :: nat

type_synonym windows = "CoalesceKey \<rightharpoonup> Window"

definition observe :: "CoalescePolicy \<Rightarrow> nat \<Rightarrow> CoalesceKey \<Rightarrow> windows \<Rightarrow> windows \<times> ObserveOutcome" where
  "observe p now key ws =
     (if fst (snd key) = NotifKind.ToolsChanged then (ws, PassThrough)
      else
        (let cap = max_in_window_for p (fst (snd key));
             w = (case ws key of Some w \<Rightarrow> w | None \<Rightarrow> \<lparr>wn_opened_at = now, wn_count = 0, wn_coalesced = 0\<rparr>);
             w = (if co_window p < now - wn_opened_at w then \<lparr>wn_opened_at = now, wn_count = 0, wn_coalesced = 0\<rparr> else w);
             w = w\<lparr>wn_count := wn_count w + 1\<rparr>
         in if wn_count w \<le> cap then (ws(key \<mapsto> w), PassThrough)
            else
              (let w = w\<lparr>wn_coalesced := wn_coalesced w + 1\<rparr>
               in (ws(key \<mapsto> w), if wn_coalesced w = 1 then StartWindow else Coalesced (wn_coalesced w)))))"

definition flush :: "CoalesceKey \<Rightarrow> windows \<Rightarrow> windows \<times> nat option" where
  "flush key ws =
     (ws(key := None),
      case ws key of
        None \<Rightarrow> None
      | Some w \<Rightarrow> if 0 < wn_coalesced w then Some (wn_coalesced w) else None)"

section \<open>State\<close>

datatype KernelResourceContents =
    Text string "string option" string
  | Blob string "string option" string

text \<open>A flush timer: asleep until its time, or past the flush and about to be removed.\<close>

datatype timer_phase = Sleeping nat | Finishing

record ('d, 'j) Hub =
  hb_broker :: "'j Broker"
  hb_documents :: "'d KernelStore option"
  hb_windows :: windows
  hb_timers :: "CoalesceKey \<rightharpoonup> timer_phase"
  hb_pumps :: "InstanceId set"
  hb_sent :: "InstanceId list"

record ('d, 'o, 'f, 'json, 'j) hub_env =
  hv_broker :: "'j broker_env"
  hv_kernel :: "('d, 'o, 'f, 'json) kernel_env"
  hv_policy :: CoalescePolicy
  hv_order :: "ContextId set \<Rightarrow> ContextId list"
  hv_read_resource :: "InstanceId \<Rightarrow> string \<Rightarrow> McpError + KernelResourceContents list"
  hv_subscribe :: "InstanceId \<Rightarrow> string \<Rightarrow> ContextId \<Rightarrow> McpError + unit"
  hv_unsubscribe :: "InstanceId \<Rightarrow> string \<Rightarrow> ContextId \<Rightarrow> McpError + unit"
  hv_notice_args :: "NotificationPayload \<Rightarrow> 'j"
  hv_uri_args :: "string \<Rightarrow> 'j"
  hv_warn_args :: "string \<Rightarrow> 'j"
  hv_error_debug :: "McpError \<Rightarrow> string"

definition on_broker :: "('j Broker \<Rightarrow> 'j Broker) \<Rightarrow> ('d, 'j) Hub \<Rightarrow> ('d, 'j) Hub" where
  "on_broker f h = h\<lparr>hb_broker := f (hb_broker h)\<rparr>"

section \<open>Emission\<close>

definition system_for_context :: "('d, 'o, 'f, 'json, 'j) hub_env \<Rightarrow> ContextId \<Rightarrow> CallContext" where
  "system_for_context V ctx = \<lparr>cc_principal_id = ke_system (hv_kernel V), cc_context_id = ctx\<rparr>"

definition build_notification_synth ::
  "('d, 'o, 'f, 'json, 'j) hub_env \<Rightarrow> InstanceId \<Rightarrow> NotificationPayload \<Rightarrow> 'j KernelCallParams" where
  "build_notification_synth V i payload =
     \<lparr>cp_instance = i, cp_tool = ''__notification.'' @ NotificationKind_as_str (np_kind payload), cp_arguments = hv_notice_args V payload\<rparr>"

text \<open>Whether the notification hooks let something through; a failed evaluation does.\<close>

definition lets_through ::
  "('d, 'o, 'f, 'json, 'j) hub_env \<Rightarrow> nat \<Rightarrow> 'j KernelCallParams \<Rightarrow> ContextId \<Rightarrow> ('d, 'j) Hub \<Rightarrow> ('d, 'j) Hub \<times> bool" where
  "lets_through V depth synth ctx h =
     (case evaluate_phase (hv_broker V) OnNotification depth synth (system_for_context V ctx) NoPayload (hb_broker h) of
        (k, Inr Continue) \<Rightarrow> (h\<lparr>hb_broker := k\<rparr>, True)
      | (k, Inl _) \<Rightarrow> (h\<lparr>hb_broker := k\<rparr>, True)
      | (k, Inr _) \<Rightarrow> (h\<lparr>hb_broker := k\<rparr>, False))"

text \<open>A write to the block store whose failure is only logged; \<open>None\<close> is a panic of the store.\<close>

definition insert_logged ::
  "('d KernelStore, BlockId) kop \<Rightarrow> ('d, 'j) Hub \<Rightarrow> (('d, 'j) Hub \<times> BlockId option) option" where
  "insert_logged op h =
     (case hb_documents h of
        None \<Rightarrow> Some (h, None)
      | Some docs \<Rightarrow>
          (case op docs of
             None \<Rightarrow> None
           | Some (docs, Inl _) \<Rightarrow> Some (h\<lparr>hb_documents := Some docs\<rparr>, None)
           | Some (docs, Inr i) \<Rightarrow> Some (h\<lparr>hb_documents := Some docs\<rparr>, Some i)))"

definition emit_into_context ::
  "('d, 'o, 'f, 'json, 'j) hub_env \<Rightarrow> nat \<Rightarrow> u64 \<Rightarrow> ContextId \<Rightarrow> NotificationPayload \<Rightarrow> 'j KernelCallParams \<Rightarrow> BlockId option
    \<Rightarrow> ('d, 'j) Hub \<Rightarrow> ('d, 'j) Hub option" where
  "emit_into_context V depth now ctx payload synth parent h =
     (case lets_through V depth synth ctx h of
        (h, False) \<Rightarrow> Some h
      | (h, True) \<Rightarrow>
          map_option fst (insert_logged (kernel_insert_notification_block_as (hv_kernel V) now ctx parent payload
            (notification_summary_line payload) (Some (ke_system (hv_kernel V)))) h))"

fun emit_each ::
  "('x \<Rightarrow> ('d, 'j) Hub \<Rightarrow> ('d, 'j) Hub option) \<Rightarrow> 'x list \<Rightarrow> ('d, 'j) Hub \<Rightarrow> ('d, 'j) Hub option" where
  "emit_each f [] h = Some h"
| "emit_each f (c # cs) h = (case f c h of None \<Rightarrow> None | Some h \<Rightarrow> emit_each f cs h)"

text \<open>The contexts whose cached binding allows the instance.\<close>

definition listeners :: "('d, 'o, 'f, 'json, 'j) hub_env \<Rightarrow> InstanceId \<Rightarrow> ('d, 'j) Hub \<Rightarrow> ContextId list" where
  "listeners V i h =
     filter (\<lambda>c. case bk_bindings (hb_broker h) c of Some b \<Rightarrow> is_allowed b i | None \<Rightarrow> False)
       (hv_order V (dom (bk_bindings (hb_broker h))))"

definition emit_for_bindings ::
  "('d, 'o, 'f, 'json, 'j) hub_env \<Rightarrow> nat \<Rightarrow> u64 \<Rightarrow> InstanceId \<Rightarrow> NotificationPayload \<Rightarrow> ('d, 'j) Hub \<Rightarrow> ('d, 'j) Hub option" where
  "emit_for_bindings V depth now i payload h =
     (if hb_documents h = None then Some h
      else emit_each (\<lambda>c. emit_into_context V depth now c payload (build_notification_synth V i payload) None) (listeners V i h) h)"

definition emit_for_context ::
  "('d, 'o, 'f, 'json, 'j) hub_env \<Rightarrow> nat \<Rightarrow> u64 \<Rightarrow> ContextId \<Rightarrow> InstanceId \<Rightarrow> NotificationPayload \<Rightarrow> ('d, 'j) Hub \<Rightarrow> ('d, 'j) Hub option" where
  "emit_for_context V depth now ctx i payload h =
     (if hb_documents h = None then Some h
      else emit_into_context V depth now ctx payload (build_notification_synth V i payload) None h)"

definition tools_payload :: "InstanceId \<Rightarrow> NotificationKind \<Rightarrow> string list \<Rightarrow> NotificationPayload" where
  "tools_payload i kind names = \<lparr>np_instance = i, np_kind = kind, np_level = None, np_tools = names, np_count = Some (length names), np_detail = None\<rparr>"

text \<open>The notices that a change of a binding left for its context, the last part of \<open>set_binding\<close>.\<close>

fun emit_notices ::
  "('d, 'o, 'f, 'json, 'j) hub_env \<Rightarrow> nat \<Rightarrow> u64 \<Rightarrow> binding_notice list \<Rightarrow> ('d, 'j) Hub \<Rightarrow> ('d, 'j) Hub option" where
  "emit_notices V depth now [] h = Some h"
| "emit_notices V depth now ((ctx, i, kind, tools) # ns) h =
     (case emit_for_context V depth now ctx i (tools_payload i kind tools) h of
        None \<Rightarrow> None
      | Some h \<Rightarrow> emit_notices V depth now ns h)"

definition set_binding_announced ::
  "('d, 'o, 'f, 'json, 'j) hub_env \<Rightarrow> nat \<Rightarrow> u64 \<Rightarrow> ContextId \<Rightarrow> ContextToolBinding \<Rightarrow> ('d, 'j) Hub \<Rightarrow> ('d, 'j) Hub option" where
  "set_binding_announced V depth now ctx b h =
     (let k = set_binding (hv_broker V) (int now) ctx b ((hb_broker h)\<lparr>bk_notices := []\<rparr>)
      in emit_notices V depth now (bk_notices k) (h\<lparr>hb_broker := k\<lparr>bk_notices := []\<rparr>\<rparr>))"

section \<open>Registration\<close>

definition current_tools :: "('d, 'o, 'f, 'json, 'j) hub_env \<Rightarrow> InstanceId \<Rightarrow> 'j KernelTool list" where
  "current_tools V i = (case be_list_tools (hv_broker V) i of Inr tools \<Rightarrow> tools | Inl _ \<Rightarrow> [])"

text \<open>The entries of a server, and its tools as first seen.\<close>

definition wire_server :: "InstanceId \<Rightarrow> InstancePolicy \<Rightarrow> 'j KernelTool list \<Rightarrow> 'j Broker \<Rightarrow> 'j Broker" where
  "wire_server i policy initial_tools k =
     k\<lparr>bk_instances := push_new i (bk_instances k), bk_policies := (bk_policies k)(i \<mapsto> policy),
       bk_semaphores := (bk_semaphores k)(i \<mapsto> \<lparr>sm_serial = bk_serial k, sm_permits = ip_max_concurrency policy\<rparr>),
       bk_serial := bk_serial k + 1, bk_tool_snapshots := (bk_tool_snapshots k)(i \<mapsto> initial_tools)\<rparr>"

definition register_inner ::
  "('d, 'o, 'f, 'json, 'j) hub_env \<Rightarrow> nat \<Rightarrow> u64 \<Rightarrow> InstanceId \<Rightarrow> InstancePolicy \<Rightarrow> bool \<Rightarrow> ('d, 'j) Hub \<Rightarrow> ('d, 'j) Hub option" where
  "register_inner V depth now i policy emit_tool_added h =
     (let names = map kt_name (current_tools V i);
          h = on_broker (wire_server i policy (current_tools V i)) h
      in case (if emit_tool_added \<and> names \<noteq> [] then emit_for_bindings V depth now i (tools_payload i NotificationKind.ToolAdded names) h
               else Some h) of
           None \<Rightarrow> None
         | Some h \<Rightarrow> Some (h\<lparr>hb_pumps := insert i (hb_pumps h), hb_sent := hb_sent h @ [i]\<rparr>))"

definition register_server where
  "register_server V depth now i policy = register_inner V depth now i policy True"

definition register_silently where
  "register_silently V depth now i policy = register_inner V depth now i policy False"

text \<open>The servers are told, and their answers are ignored.\<close>

definition teardown_subscriptions_for_instance :: "InstanceId \<Rightarrow> 'j Broker \<Rightarrow> 'j Broker" where
  "teardown_subscriptions_for_instance i k =
     k\<lparr>bk_subscriptions := (\<lambda>c. case bk_subscriptions k c of
           None \<Rightarrow> None
         | Some s \<Rightarrow> let s = filter (\<lambda>p. fst p \<noteq> i) s in if s = [] then None else Some s),
       bk_resource_parents := (\<lambda>key. if fst (snd key) = i then None else bk_resource_parents k key)\<rparr>"

definition unwire_server :: "InstanceId \<Rightarrow> 'j Broker \<Rightarrow> 'j Broker" where
  "unwire_server i k =
     teardown_subscriptions_for_instance i (teardown_subscriptions_for_instance i
       (k\<lparr>bk_tool_snapshots := (bk_tool_snapshots k)(i := None), bk_instances := removeAll i (bk_instances k),
          bk_policies := (bk_policies k)(i := None), bk_semaphores := (bk_semaphores k)(i := None)\<rparr>))"

definition unregister_server ::
  "('d, 'o, 'f, 'json, 'j) hub_env \<Rightarrow> nat \<Rightarrow> u64 \<Rightarrow> InstanceId \<Rightarrow> ('d, 'j) Hub \<Rightarrow> ('d, 'j) Hub option" where
  "unregister_server V depth now i h =
     (let removed = (case bk_tool_snapshots (hb_broker h) i of Some tools \<Rightarrow> map kt_name tools | None \<Rightarrow> []);
          h = h\<lparr>hb_pumps := hb_pumps h - {i}, hb_timers := (\<lambda>key. if fst key = i then None else hb_timers h key)\<rparr>;
          h = on_broker (unwire_server i) h
      in case (if removed \<noteq> [] then emit_for_bindings V depth now i (tools_payload i NotificationKind.ToolRemoved removed) h else Some h) of
           None \<Rightarrow> None
         | Some h \<Rightarrow> Some (h\<lparr>hb_sent := hb_sent h @ [i]\<rparr>))"

definition update_policy :: "InstanceId \<Rightarrow> nat option \<Rightarrow> nat option \<Rightarrow> 'j Broker \<Rightarrow> 'j Broker \<times> (McpError + unit)" where
  "update_policy i call_timeout max_result_bytes k =
     (case bk_policies k i of
        None \<Rightarrow> (k, Inl (InstanceNotFound i))
      | Some p \<Rightarrow>
          (let p = (case call_timeout of Some t \<Rightarrow> p\<lparr>ip_call_timeout_ms := t\<rparr> | None \<Rightarrow> p);
               p = (case max_result_bytes of Some b \<Rightarrow> p\<lparr>ip_max_result_bytes := b\<rparr> | None \<Rightarrow> p)
           in (k\<lparr>bk_policies := (bk_policies k)(i \<mapsto> p)\<rparr>, Inr ())))"

section \<open>Resources\<close>

definition resource_payload_from_contents ::
  "InstanceId \<Rightarrow> string \<Rightarrow> KernelResourceContents option \<Rightarrow> BlockId option \<Rightarrow> ResourcePayload" where
  "resource_payload_from_contents i uri chunk parent =
     (case chunk of
        Some (KernelResourceContents.Text _ mime text) \<Rightarrow>
          \<lparr>rp_instance = i, rp_uri = uri, rp_mime_type = mime, rp_size = Some (length text), rp_text = Some text,
           rp_blob_base64 = None, rp_parent_resource_block_id = parent\<rparr>
      | Some (Blob _ mime blob) \<Rightarrow>
          \<lparr>rp_instance = i, rp_uri = uri, rp_mime_type = mime, rp_size = Some (length blob * 3 div 4), rp_text = None,
           rp_blob_base64 = Some blob, rp_parent_resource_block_id = parent\<rparr>
      | None \<Rightarrow>
          \<lparr>rp_instance = i, rp_uri = uri, rp_mime_type = None, rp_size = Some 0, rp_text = Some [],
           rp_blob_base64 = None, rp_parent_resource_block_id = parent\<rparr>)"

definition first_chunk :: "KernelResourceContents list \<Rightarrow> KernelResourceContents option" where
  "first_chunk cs = (case cs of [] \<Rightarrow> None | c # _ \<Rightarrow> Some c)"

definition read_resource ::
  "('d, 'o, 'f, 'json, 'j) hub_env \<Rightarrow> u64 \<Rightarrow> InstanceId \<Rightarrow> string \<Rightarrow> ContextId \<Rightarrow> ('d, 'j) Hub
    \<Rightarrow> (('d, 'j) Hub \<times> (McpError + KernelResourceContents list)) option" where
  "read_resource V now i uri ctx h =
     (if i \<notin> set (bk_instances (hb_broker h)) then Some (h, Inl (InstanceNotFound i))
      else case hv_read_resource V i uri of
        Inl e \<Rightarrow> Some (h, Inl e)
      | Inr contents \<Rightarrow>
          (let payload = resource_payload_from_contents i uri (first_chunk contents) None
           in case insert_logged (kernel_insert_resource_block_as (hv_kernel V) now ctx None payload
                     (resource_summary_line payload) (Some (ke_system (hv_kernel V)))) h of
                None \<Rightarrow> None
              | Some (h, None) \<Rightarrow> Some (h, Inr contents)
              | Some (h, Some block) \<Rightarrow>
                  Some (on_broker (\<lambda>k. k\<lparr>bk_resource_parents := (bk_resource_parents k)((ctx, i, uri) \<mapsto> block)\<rparr>) h, Inr contents)))"

definition add_subscription :: "InstanceId \<Rightarrow> string \<Rightarrow> ContextId \<Rightarrow> 'j Broker \<Rightarrow> 'j Broker" where
  "add_subscription i uri ctx k = k\<lparr>bk_subscriptions := (bk_subscriptions k)(ctx \<mapsto>
     push_new (i, uri) (case bk_subscriptions k ctx of Some s \<Rightarrow> s | None \<Rightarrow> []))\<rparr>"

text \<open>A subscription up to and including the call of the server, and all of it.\<close>

definition subscribe_begin ::
  "('d, 'o, 'f, 'json, 'j) hub_env \<Rightarrow> u64 \<Rightarrow> InstanceId \<Rightarrow> string \<Rightarrow> ContextId \<Rightarrow> ('d, 'j) Hub \<Rightarrow> (('d, 'j) Hub \<times> (McpError + unit)) option" where
  "subscribe_begin V now i uri ctx h =
     (if i \<notin> set (bk_instances (hb_broker h)) then Some (h, Inl (InstanceNotFound i))
      else case (if bk_resource_parents (hb_broker h) (ctx, i, uri) = None
                 then map_option (map_prod id (map_sum id (\<lambda>_. ()))) (read_resource V now i uri ctx h) else Some (h, Inr ())) of
        None \<Rightarrow> None
      | Some (h, Inl e) \<Rightarrow> Some (h, Inl e)
      | Some (h, Inr _) \<Rightarrow> Some (h, hv_subscribe V i uri ctx))"

definition subscribe ::
  "('d, 'o, 'f, 'json, 'j) hub_env \<Rightarrow> u64 \<Rightarrow> InstanceId \<Rightarrow> string \<Rightarrow> ContextId \<Rightarrow> ('d, 'j) Hub \<Rightarrow> (('d, 'j) Hub \<times> (McpError + unit)) option" where
  "subscribe V now i uri ctx h =
     (case subscribe_begin V now i uri ctx h of
        None \<Rightarrow> None
      | Some (h, Inl e) \<Rightarrow> Some (h, Inl e)
      | Some (h, Inr _) \<Rightarrow> Some (on_broker (add_subscription i uri ctx) h, Inr ()))"

definition unsubscribe ::
  "('d, 'o, 'f, 'json, 'j) hub_env \<Rightarrow> InstanceId \<Rightarrow> string \<Rightarrow> ContextId \<Rightarrow> ('d, 'j) Hub \<Rightarrow> ('d, 'j) Hub \<times> (McpError + unit)" where
  "unsubscribe V i uri ctx h =
     (if i \<notin> set (bk_instances (hb_broker h)) then (h, Inl (InstanceNotFound i))
      else case hv_unsubscribe V i uri ctx of
        Inl e \<Rightarrow> (h, Inl e)
      | Inr _ \<Rightarrow>
          (on_broker (\<lambda>k. k\<lparr>bk_subscriptions := (bk_subscriptions k)(ctx := map_option (removeAll (i, uri)) (bk_subscriptions k ctx)),
             bk_resource_parents := (bk_resource_parents k)((ctx, i, uri) := None)\<rparr>) h, Inr ()))"

text \<open>The contexts that a changed resource concerns, each with the block of its first read.\<close>

definition flush_targets :: "('d, 'o, 'f, 'json, 'j) hub_env \<Rightarrow> InstanceId \<Rightarrow> string \<Rightarrow> 'j Broker \<Rightarrow> (ContextId \<times> BlockId) list" where
  "flush_targets V i uri k =
     List.map_filter (\<lambda>c.
       if (case bk_subscriptions k c of Some s \<Rightarrow> (i, uri) \<in> set s | None \<Rightarrow> False)
       then map_option (\<lambda>b. (c, b)) (bk_resource_parents k (c, i, uri)) else None)
     (hv_order V (dom (bk_subscriptions k)))"

definition emit_resource ::
  "('d, 'o, 'f, 'json, 'j) hub_env \<Rightarrow> u64 \<Rightarrow> InstanceId \<Rightarrow> string \<Rightarrow> KernelResourceContents option \<Rightarrow> ContextId \<times> BlockId
    \<Rightarrow> ('d, 'j) Hub \<Rightarrow> ('d, 'j) Hub option" where
  "emit_resource V now i uri chunk target h =
     (case lets_through V 0 \<lparr>cp_instance = i, cp_tool = ''__notification.resource_updated'', cp_arguments = hv_uri_args V uri\<rparr> (fst target) h of
        (h, False) \<Rightarrow> Some h
      | (h, True) \<Rightarrow>
          (let payload = resource_payload_from_contents i uri chunk (Some (snd target))
           in map_option fst (insert_logged (kernel_insert_resource_block_as (hv_kernel V) now (fst target) (Some (snd target)) payload
                (resource_summary_line payload) (Some (ke_system (hv_kernel V)))) h)))"

definition emit_reread_failure ::
  "('d, 'o, 'f, 'json, 'j) hub_env \<Rightarrow> u64 \<Rightarrow> InstanceId \<Rightarrow> string \<Rightarrow> ContextId \<times> BlockId \<Rightarrow> ('d, 'j) Hub \<Rightarrow> ('d, 'j) Hub option" where
  "emit_reread_failure V now i detail target =
     emit_into_context V 0 now (fst target)
       \<lparr>np_instance = i, np_kind = NotificationKind.Log, np_level = Some LogLevel.Warn, np_tools = [], np_count = None, np_detail = Some detail\<rparr>
       \<lparr>cp_instance = i, cp_tool = ''__notification.log'', cp_arguments = hv_warn_args V detail\<rparr> (Some (snd target))"

definition handle_resource_flush ::
  "('d, 'o, 'f, 'json, 'j) hub_env \<Rightarrow> u64 \<Rightarrow> InstanceId \<Rightarrow> string \<Rightarrow> ('d, 'j) Hub \<Rightarrow> ('d, 'j) Hub option" where
  "handle_resource_flush V now i uri h =
     (if i \<notin> set (bk_instances (hb_broker h)) then Some h
      else
        (let targets = flush_targets V i uri (hb_broker h)
         in if targets = [] \<or> hb_documents h = None then Some h
            else case hv_read_resource V i uri of
              Inr contents \<Rightarrow> emit_each (emit_resource V now i uri (first_chunk contents)) targets h
            | Inl e \<Rightarrow> emit_each (emit_reread_failure V now i (''re-read of '' @ uri @ '' failed: '' @ hv_error_debug V e)) targets h))"

section \<open>The pump\<close>

datatype ServerNotification =
    ToolsChanged
  | ResourceUpdated string
  | PromptsChanged
  | Log LogLevel string "string option"
  | Elicitation

definition diff_tools :: "'j KernelTool list \<Rightarrow> 'j KernelTool list \<Rightarrow> string list \<times> string list" where
  "diff_tools old new =
     (filter (\<lambda>n. n \<notin> kt_name ` set old) (map kt_name new), filter (\<lambda>n. n \<notin> kt_name ` set new) (map kt_name old))"

definition handle_tools_changed :: "('d, 'o, 'f, 'json, 'j) hub_env \<Rightarrow> u64 \<Rightarrow> InstanceId \<Rightarrow> ('d, 'j) Hub \<Rightarrow> ('d, 'j) Hub option" where
  "handle_tools_changed V now i h =
     (if i \<notin> set (bk_instances (hb_broker h)) then Some h
      else
        (let new_tools = current_tools V i;
             old_tools = (case bk_tool_snapshots (hb_broker h) i of Some tools \<Rightarrow> tools | None \<Rightarrow> []);
             (added, removed) = diff_tools old_tools new_tools;
             h = on_broker (\<lambda>k. k\<lparr>bk_tool_snapshots := (bk_tool_snapshots k)(i \<mapsto> new_tools)\<rparr>) h
         in case (if added \<noteq> [] then emit_for_bindings V 0 now i (tools_payload i NotificationKind.ToolAdded added) h else Some h) of
              None \<Rightarrow> None
            | Some h \<Rightarrow> if removed \<noteq> [] then emit_for_bindings V 0 now i (tools_payload i NotificationKind.ToolRemoved removed) h else Some h))"

text \<open>At most one timer per key.\<close>

definition schedule_flush :: "('d, 'o, 'f, 'json, 'j) hub_env \<Rightarrow> u64 \<Rightarrow> CoalesceKey \<Rightarrow> ('d, 'j) Hub \<Rightarrow> ('d, 'j) Hub" where
  "schedule_flush V now key h =
     (if hb_timers h key \<noteq> None then h
      else h\<lparr>hb_timers := (hb_timers h)(key \<mapsto> Sleeping (now + co_window (hv_policy V)))\<rparr>)"

text \<open>What a notification does after the coalescer has seen it: \<open>direct\<close> passes it on.\<close>

definition coalesced_event ::
  "('d, 'o, 'f, 'json, 'j) hub_env \<Rightarrow> u64 \<Rightarrow> CoalesceKey \<Rightarrow> (('d, 'j) Hub \<Rightarrow> ('d, 'j) Hub option) \<Rightarrow> ('d, 'j) Hub \<Rightarrow> ('d, 'j) Hub option" where
  "coalesced_event V now key direct h =
     (case observe (hv_policy V) now key (hb_windows h) of
        (ws, outcome) \<Rightarrow>
          (let h = h\<lparr>hb_windows := ws\<rparr>
           in case outcome of
                PassThrough \<Rightarrow> direct h
              | StartWindow \<Rightarrow> Some (schedule_flush V now key h)
              | Coalesced _ \<Rightarrow> Some h))"

definition pump_event ::
  "('d, 'o, 'f, 'json, 'j) hub_env \<Rightarrow> u64 \<Rightarrow> InstanceId \<Rightarrow> ServerNotification \<Rightarrow> ('d, 'j) Hub \<Rightarrow> ('d, 'j) Hub option" where
  "pump_event V now i ev h =
     (case ev of
        ServerNotification.ToolsChanged \<Rightarrow> handle_tools_changed V now i h
      | ServerNotification.Log level message tool \<Rightarrow>
          coalesced_event V now (i, NotifKind.Log, None) (emit_for_bindings V 0 now i
            \<lparr>np_instance = i, np_kind = NotificationKind.Log, np_level = Some level, np_tools = (case tool of Some t \<Rightarrow> [t] | None \<Rightarrow> []),
             np_count = None, np_detail = Some message\<rparr>) h
      | ServerNotification.PromptsChanged \<Rightarrow>
          coalesced_event V now (i, NotifKind.PromptsChanged, None) (emit_for_bindings V 0 now i
            \<lparr>np_instance = i, np_kind = NotificationKind.PromptsChanged, np_level = None, np_tools = [], np_count = None, np_detail = None\<rparr>) h
      | ServerNotification.ResourceUpdated uri \<Rightarrow>
          coalesced_event V now (i, NotifKind.ResourceUpdated, Some uri) (handle_resource_flush V now i uri) h
      | ServerNotification.Elicitation \<Rightarrow> Some h)"

section \<open>Timers\<close>

definition notif_kind_label :: "NotifKind \<Rightarrow> string" where
  "notif_kind_label kind =
     (case kind of
        NotifKind.Log \<Rightarrow> ''log''
      | NotifKind.PromptsChanged \<Rightarrow> ''prompts_changed''
      | NotifKind.ResourceUpdated \<Rightarrow> ''resource_updated''
      | NotifKind.ToolsChanged \<Rightarrow> ''tools_changed''
      | NotifKind.Elicitation \<Rightarrow> ''elicitation'')"

definition coalesced_payload :: "InstanceId \<Rightarrow> NotifKind \<Rightarrow> nat \<Rightarrow> NotificationPayload" where
  "coalesced_payload i kind n =
     \<lparr>np_instance = i, np_kind = NotificationKind.Coalesced, np_level = None, np_tools = [], np_count = Some n,
      np_detail = Some (notif_kind_label kind)\<rparr>"

text \<open>A timer whose time has come: it flushes the window and emits, and is then still in the table.\<close>

definition timer_fire :: "('d, 'o, 'f, 'json, 'j) hub_env \<Rightarrow> u64 \<Rightarrow> CoalesceKey \<Rightarrow> ('d, 'j) Hub \<Rightarrow> ('d, 'j) Hub option" where
  "timer_fire V now key h =
     (case flush key (hb_windows h) of
        (ws, folded) \<Rightarrow>
          (let h = h\<lparr>hb_windows := ws, hb_timers := (hb_timers h)(key \<mapsto> Finishing)\<rparr>
           in case key of
                (i, NotifKind.ResourceUpdated, Some uri) \<Rightarrow> handle_resource_flush V now i uri h
              | (i, kind, _) \<Rightarrow>
                  (case folded of
                     Some n \<Rightarrow> emit_for_bindings V 0 now i (coalesced_payload i kind n) h
                   | None \<Rightarrow> Some h)))"

definition timer_done :: "CoalesceKey \<Rightarrow> ('d, 'j) Hub \<Rightarrow> ('d, 'j) Hub" where
  "timer_done key h = h\<lparr>hb_timers := (hb_timers h)(key := None)\<rparr>"

end
