(* ===== verification/Notice_Props.thy ===== *)
theory Notice_Props
  imports Tool_Notices Capability_Props Drift_Cmd_Props
begin

text \<open>
  Notices of tool servers: the counting of the coalescer, what of a server is left when it is gone, where
  a notice lands in a conversation, and two ways in which notices are lost.
\<close>

section \<open>Counting\<close>

fun observe_run :: "CoalescePolicy \<Rightarrow> CoalesceKey \<Rightarrow> nat list \<Rightarrow> windows \<Rightarrow> windows \<times> ObserveOutcome list" where
  "observe_run p key [] ws = (ws, [])"
| "observe_run p key (t # ts) ws =
     (case observe p t key ws of (ws, o1) \<Rightarrow> (case observe_run p key ts ws of (ws, os) \<Rightarrow> (ws, o1 # os)))"

text \<open>The outcome of the n-th event of a window, from 0.\<close>

definition outcome_at :: "nat \<Rightarrow> nat \<Rightarrow> ObserveOutcome" where
  "outcome_at cap n = (if n < cap then PassThrough else if n = cap then StartWindow else Coalesced (n - cap + 1))"

lemma observe_within:
  assumes "fst (snd key) \<noteq> NotifKind.ToolsChanged" and "ws key = Some \<lparr>wn_opened_at = t0, wn_count = n, wn_coalesced = n - max_in_window_for p (fst (snd key))\<rparr>"
    and "t - t0 \<le> co_window p"
  shows "observe p t key ws = (ws(key \<mapsto> \<lparr>wn_opened_at = t0, wn_count = Suc n, wn_coalesced = Suc n - max_in_window_for p (fst (snd key))\<rparr>),
    outcome_at (max_in_window_for p (fst (snd key))) n)"
  using assms by (auto simp: observe_def Let_def outcome_at_def Suc_diff_le not_less_eq_eq)

lemma observe_run_within:
  assumes "fst (snd key) \<noteq> NotifKind.ToolsChanged" and "\<forall>t \<in> set ts. t - t0 \<le> co_window p"
    and "ws key = Some \<lparr>wn_opened_at = t0, wn_count = n, wn_coalesced = n - max_in_window_for p (fst (snd key))\<rparr>"
  shows "snd (observe_run p key ts ws) = map (outcome_at (max_in_window_for p (fst (snd key)))) [n..<n + length ts]
    \<and> fst (observe_run p key ts ws) key
      = Some \<lparr>wn_opened_at = t0, wn_count = n + length ts, wn_coalesced = n + length ts - max_in_window_for p (fst (snd key))\<rparr>"
  using assms(2,3)
proof (induction ts arbitrary: n ws)
  case (Cons t ts)
  let ?cap = "max_in_window_for p (fst (snd key))"
  let ?ws = "ws(key \<mapsto> \<lparr>wn_opened_at = t0, wn_count = Suc n, wn_coalesced = Suc n - ?cap\<rparr>)"
  have o1: "observe p t key ws = (?ws, outcome_at ?cap n)"
    using observe_within [of key ws t0 n p t] assms(1) Cons.prems by simp
  have "[n..<n + length (t # ts)] = n # [Suc n..<Suc n + length ts]" by (simp add: upt_rec [of n] del: upt_Suc)
  moreover have "?ws key = Some \<lparr>wn_opened_at = t0, wn_count = Suc n, wn_coalesced = Suc n - ?cap\<rparr>" by simp
  ultimately show ?case using Cons.IH [of ?ws "Suc n"] Cons.prems(1)
    by (simp add: o1 case_prod_unfold del: upt_Suc fun_upd_apply)
qed simp

text \<open>
  C18: Within one window the coalescer counts right.  Of the events of one kind that arrive within the
  window that the first of them opens, as many as the cap allows pass, the next one asks for the timer,
  the others are folded, and the flush reports exactly the number of those that did not pass.
\<close>

theorem window_counts:
  assumes "fst (snd key) \<noteq> NotifKind.ToolsChanged" and "ws key = None" and "\<forall>t \<in> set ts. t - t0 \<le> co_window p"
  shows "snd (observe_run p key (t0 # ts) ws) = map (outcome_at (max_in_window_for p (fst (snd key)))) [0..<Suc (length ts)]
    \<and> snd (flush key (fst (observe_run p key (t0 # ts) ws)))
      = (let folded = Suc (length ts) - max_in_window_for p (fst (snd key)) in if folded = 0 then None else Some folded)"
proof -
  let ?fresh = "ws(key \<mapsto> \<lparr>wn_opened_at = t0, wn_count = 0, wn_coalesced = 0 - max_in_window_for p (fst (snd key))\<rparr>)"
  have "observe p t0 key ws = observe p t0 key ?fresh" using assms(1,2) by (auto simp: observe_def Let_def)
  then have "observe_run p key (t0 # ts) ws = observe_run p key (t0 # ts) ?fresh" by simp
  moreover have "\<forall>t \<in> set (t0 # ts). t - t0 \<le> co_window p" using assms(3) by simp
  ultimately show ?thesis using observe_run_within [OF assms(1), of "t0 # ts" t0 p ?fresh 0]
    by (simp add: flush_def Let_def del: observe_run.simps upt_Suc)
qed

theorem window_counts_witness:
  "snd (observe_run \<lparr>co_window = 500, co_max_in_window = 1, co_hard_drop_after = None, co_per_kind_override = Map.empty\<rparr>
      (''s'', NotifKind.Log, None) [0, 400, 450] Map.empty) = [PassThrough, StartWindow, Coalesced 2]"
  using window_counts [of "(''s'', NotifKind.Log, None)" Map.empty "[400, 450]" 0
      "\<lparr>co_window = 500, co_max_in_window = 1, co_hard_drop_after = None, co_per_kind_override = Map.empty\<rparr>"]
  by (simp add: max_in_window_for_def outcome_at_def upt_rec)

section \<open>Frames\<close>

text \<open>The part of a broker that belongs to its servers, and hooks that leave it alone.\<close>

definition wiring :: "'j Broker \<Rightarrow> _" where
  "wiring k = (bk_instances k, bk_policies k, bk_semaphores k, bk_tool_snapshots k, bk_subscriptions k, bk_resource_parents k)"

definition hooks_steady :: "'j broker_env \<Rightarrow> bool" where
  "hooks_steady B \<longleftrightarrow> (\<forall>phase body depth ps cc pl k. wiring (fst (be_invoke B phase body depth ps cc pl k)) = wiring k)"

lemma run_hooks_wiring:
  assumes "hooks_steady B"
  shows "wiring (fst (run_hooks B phase depth ps cc pl es k)) = wiring k"
proof (induction es arbitrary: k)
  case (Cons e es)
  have inv: "be_invoke B phase body (Suc depth) ps cc pl k = (k', r) \<Longrightarrow> wiring k' = wiring k" for body k' r
    using assms unfolding hooks_steady_def by (metis fst_conv)
  show ?case using Cons.IH inv by (auto split: HookAction.split prod.split sum.split)
qed simp

definition steady :: "('d, 'j) Hub \<Rightarrow> ('d, 'j) Hub \<Rightarrow> bool" where
  "steady h h' \<longleftrightarrow> wiring (hb_broker h') = wiring (hb_broker h) \<and> hb_windows h' = hb_windows h \<and> hb_timers h' = hb_timers h
     \<and> hb_pumps h' = hb_pumps h \<and> hb_sent h' = hb_sent h"

lemma steady_refl: "steady h h" and steady_trans: "steady a b \<Longrightarrow> steady b c \<Longrightarrow> steady a c"
  by (auto simp: steady_def)

lemma steady_lets_through: "hooks_steady (hv_broker V) \<Longrightarrow> lets_through V depth synth c h = (h', b) \<Longrightarrow> steady h h'"
  using run_hooks_wiring [of "hv_broker V" OnNotification depth synth "system_for_context V c" NoPayload]
  by (auto simp: lets_through_def evaluate_phase_def steady_def split: prod.splits sum.splits PhaseOutcome.splits) (metis fst_conv)+

lemma steady_insert: "insert_logged op h = Some (h', i) \<Longrightarrow> steady h h'"
  by (auto simp: insert_logged_def steady_def split: option.splits sum.splits prod.splits)

lemma steady_into:
  assumes "hooks_steady (hv_broker V)" and "emit_into_context V depth now c payload synth parent h = Some h'"
  shows "steady h h'"
proof -
  obtain h1 b where l: "lets_through V depth synth c h = (h1, b)" by fastforce
  have "steady h1 h'" using assms(2) l by (auto simp: emit_into_context_def intro: steady_refl steady_insert split: bool.splits)
  then show ?thesis using steady_lets_through [OF assms(1) l] steady_trans by blast
qed

lemma steady_resource:
  assumes "hooks_steady (hv_broker V)" and "emit_resource V now i uri chunk t h = Some h'"
  shows "steady h h'"
proof -
  let ?synth = "\<lparr>cp_instance = i, cp_tool = ''__notification.resource_updated'', cp_arguments = hv_uri_args V uri\<rparr>"
  obtain h1 b where l: "lets_through V 0 ?synth (fst t) h = (h1, b)" by fastforce
  have "steady h1 h'" using assms(2) l by (auto simp: emit_resource_def Let_def intro: steady_refl steady_insert split: bool.splits)
  then show ?thesis using steady_lets_through [OF assms(1) l] steady_trans by blast
qed

lemma steady_each:
  assumes "\<And>c h h'. f c h = Some h' \<Longrightarrow> steady h h'"
  shows "emit_each f cs h = Some h' \<Longrightarrow> steady h h'"
proof (induction cs arbitrary: h)
  case (Cons c cs)
  from Cons.prems obtain h1 where "f c h = Some h1" "emit_each f cs h1 = Some h'" by (auto split: option.splits)
  then show ?case using assms Cons.IH steady_trans by blast
qed (simp add: steady_refl)

lemma steady_for_bindings:
  assumes "hooks_steady (hv_broker V)" and "emit_for_bindings V depth now i payload h = Some h'"
  shows "steady h h'"
proof (cases "hb_documents h")
  case None
  with assms(2) show ?thesis by (simp add: emit_for_bindings_def steady_refl)
next
  case (Some d)
  with assms(2) show ?thesis by (auto simp: emit_for_bindings_def intro: steady_each [rotated] steady_into [OF assms(1)])
qed

lemma steady_notices:
  assumes "hooks_steady (hv_broker V)"
  shows "emit_notices V depth now ns h = Some h' \<Longrightarrow> steady h h'"
proof (induction ns arbitrary: h)
  case (Cons n ns)
  obtain c i kind tools where n: "n = (c, i, kind, tools)" by (cases n)
  from Cons.prems obtain h1 where "emit_for_context V depth now c i (tools_payload i kind tools) h = Some h1"
    and "emit_notices V depth now ns h1 = Some h'" by (auto simp: n split: option.splits)
  then have "steady h h1" "steady h1 h'"
    using Cons.IH by (auto simp: emit_for_context_def intro: steady_refl steady_into [OF assms] split: if_splits)
  then show ?case by (rule steady_trans)
qed (simp add: steady_refl)

lemma steady_flush:
  assumes "hooks_steady (hv_broker V)" and "handle_resource_flush V now i uri h = Some h'"
  shows "steady h h'"
  using assms(2)
  by (auto simp: handle_resource_flush_def Let_def emit_reread_failure_def intro: steady_refl steady_resource [OF assms(1)]
      steady_into [OF assms(1)] elim!: steady_each [rotated] split: if_splits sum.splits)

section \<open>What belongs to a server\<close>

text \<open>Everything the broker keeps of a server is of a registered one; registered ones have all of it.\<close>

definition hub_ok :: "('d, 'j) Hub \<Rightarrow> bool" where
  "hub_ok h \<longleftrightarrow> (let k = hb_broker h; reg = set (bk_instances k) in
     distinct (bk_instances k) \<and> dom (bk_policies k) = reg \<and> dom (bk_semaphores k) = reg \<and> dom (bk_tool_snapshots k) = reg
     \<and> hb_pumps h = reg \<and> (\<forall>c s i u. bk_subscriptions k c = Some s \<longrightarrow> (i, u) \<in> set s \<longrightarrow> i \<in> reg)
     \<and> (\<forall>c i u b. bk_resource_parents k (c, i, u) = Some b \<longrightarrow> i \<in> reg) \<and> (\<forall>i kind u phase. hb_timers h (i, kind, u) = Some phase \<longrightarrow> i \<in> reg))"

lemma hub_okD:
  assumes "hub_ok h"
  shows "distinct (bk_instances (hb_broker h))" "dom (bk_policies (hb_broker h)) = set (bk_instances (hb_broker h))"
    "dom (bk_semaphores (hb_broker h)) = set (bk_instances (hb_broker h))" "dom (bk_tool_snapshots (hb_broker h)) = set (bk_instances (hb_broker h))"
    "hb_pumps h = set (bk_instances (hb_broker h))"
    "bk_subscriptions (hb_broker h) c = Some s \<Longrightarrow> (i, u) \<in> set s \<Longrightarrow> i \<in> set (bk_instances (hb_broker h))"
    "bk_resource_parents (hb_broker h) (c, i, u) = Some b \<Longrightarrow> i \<in> set (bk_instances (hb_broker h))"
    "hb_timers h (i, kind, v) = Some phase \<Longrightarrow> i \<in> set (bk_instances (hb_broker h))"
  using assms unfolding hub_ok_def Let_def by blast+

lemma hub_okI:
  assumes "distinct (bk_instances (hb_broker h))" and "dom (bk_policies (hb_broker h)) = set (bk_instances (hb_broker h))"
    and "dom (bk_semaphores (hb_broker h)) = set (bk_instances (hb_broker h))" and "dom (bk_tool_snapshots (hb_broker h)) = set (bk_instances (hb_broker h))"
    and "hb_pumps h = set (bk_instances (hb_broker h))"
    and "\<And>c s i u. bk_subscriptions (hb_broker h) c = Some s \<Longrightarrow> (i, u) \<in> set s \<Longrightarrow> i \<in> set (bk_instances (hb_broker h))"
    and "\<And>c i u b. bk_resource_parents (hb_broker h) (c, i, u) = Some b \<Longrightarrow> i \<in> set (bk_instances (hb_broker h))"
    and "\<And>i kind u phase. hb_timers h (i, kind, u) = Some phase \<Longrightarrow> i \<in> set (bk_instances (hb_broker h))"
  shows "hub_ok h"
  using assms unfolding hub_ok_def Let_def by blast

definition hub_new :: "('d, 'j) Hub" where
  "hub_new = \<lparr>hb_broker = broker_new, hb_documents = None, hb_windows = Map.empty, hb_timers = Map.empty, hb_pumps = {}, hb_sent = []\<rparr>"

inductive hub_step :: "('d, 'o, 'f, 'json, 'j) hub_env \<Rightarrow> ('d, 'j) Hub \<Rightarrow> ('d, 'j) Hub \<Rightarrow> bool" for V where
  register: "register_inner V depth now i policy loud h = Some h' \<Longrightarrow> hub_step V h h'"
| unregister: "unregister_server V depth now i h = Some h' \<Longrightarrow> hub_step V h h'"
| policy: "update_policy i timeout bytes (hb_broker h) = (k, r) \<Longrightarrow> hub_step V h (h\<lparr>hb_broker := k\<rparr>)"
| set_binding: "set_binding_announced V depth now c b h = Some h' \<Longrightarrow> hub_step V h h'"
| clear_binding: "hub_step V h (on_broker (clear_binding c) h)"
| read: "read_resource V now i uri c h = Some (h', rr) \<Longrightarrow> hub_step V h h'"
| subscribe: "subscribe V now i uri c h = Some (h', ru) \<Longrightarrow> hub_step V h h'"
| unsubscribe: "unsubscribe V i uri c h = (h', ru) \<Longrightarrow> hub_step V h h'"
| event: "i \<in> hb_pumps h \<Longrightarrow> pump_event V now i ev h = Some h' \<Longrightarrow> hub_step V h h'"
| fire: "hb_timers h key = Some (Sleeping due) \<Longrightarrow> due \<le> now \<Longrightarrow> timer_fire V now key h = Some h' \<Longrightarrow> hub_step V h h'"
| finish: "hb_timers h key = Some Finishing \<Longrightarrow> hub_step V h (timer_done key h)"
| documents: "hub_step V h (h\<lparr>hb_documents := Some docs\<rparr>)"

lemma hub_ok_steady: "steady h h' \<Longrightarrow> hub_ok h' = hub_ok h"
  by (simp add: hub_ok_def steady_def wiring_def Let_def)

lemma hub_ok_windows [simp]: "hub_ok (h\<lparr>hb_windows := ws\<rparr>) = hub_ok h" and hub_ok_documents [simp]: "hub_ok (h\<lparr>hb_documents := d\<rparr>) = hub_ok h"
  by (simp_all add: hub_ok_def)

lemma steady_maybe:
  "hooks_steady (hv_broker V) \<Longrightarrow> (if b then emit_for_bindings V depth now i payload h else Some h) = Some h' \<Longrightarrow> steady h h'"
  by (auto intro: steady_for_bindings steady_refl split: if_splits)

lemma then_Some: "(case m of None \<Rightarrow> None | Some h \<Rightarrow> Some (f h)) = Some h' \<Longrightarrow> \<exists>h1. m = Some h1 \<and> h' = f h1"
  by (auto split: option.splits)

lemma hub_ok_register:
  assumes "hooks_steady (hv_broker V)" and "hub_ok h" and "register_inner V depth now i policy loud h = Some h'"
  shows "hub_ok h'"
proof -
  let ?w = "on_broker (wire_server i policy (current_tools V i)) h"
  obtain h1 where h1: "steady ?w h1" "h' = h1\<lparr>hb_pumps := insert i (hb_pumps h1), hb_sent := hb_sent h1 @ [i]\<rparr>"
    using then_Some [OF assms(3) [unfolded register_inner_def Let_def]] steady_maybe [OF assms(1)] by blast
  have "hub_ok (?w\<lparr>hb_pumps := insert i (hb_pumps ?w), hb_sent := hb_sent ?w @ [i]\<rparr>)"
    by (rule hub_okI) (auto simp: on_broker_def wire_server_def hub_okD [OF assms(2)] dest: hub_okD(6-8) [OF assms(2)])
  moreover have "steady (?w\<lparr>hb_pumps := insert i (hb_pumps ?w), hb_sent := hb_sent ?w @ [i]\<rparr>) h'" using h1 by (simp add: steady_def)
  ultimately show ?thesis using hub_ok_steady by blast
qed

lemma unwired: "bk_instances (unwire_server i k) = removeAll i (bk_instances k)" "bk_policies (unwire_server i k) = (bk_policies k)(i := None)"
  "bk_semaphores (unwire_server i k) = (bk_semaphores k)(i := None)" "bk_tool_snapshots (unwire_server i k) = (bk_tool_snapshots k)(i := None)"
  "bk_subscriptions (unwire_server i k) c = Some s \<Longrightarrow> \<exists>s0. bk_subscriptions k c = Some s0 \<and> set s = {p \<in> set s0. fst p \<noteq> i}"
  "bk_resource_parents (unwire_server i k) key = (if fst (snd key) = i then None else bk_resource_parents k key)"
  by (auto simp: unwire_server_def teardown_subscriptions_for_instance_def Let_def split: option.splits if_splits)

lemma hub_ok_unregister:
  assumes "hooks_steady (hv_broker V)" and "hub_ok h" and "unregister_server V depth now i h = Some h'"
  shows "hub_ok h' \<and> i \<notin> set (bk_instances (hb_broker h'))"
proof -
  let ?w = "on_broker (unwire_server i) (h\<lparr>hb_pumps := hb_pumps h - {i}, hb_timers := (\<lambda>key. if fst key = i then None else hb_timers h key)\<rparr>)"
  obtain h1 where h1: "steady ?w h1" "h' = h1\<lparr>hb_sent := hb_sent h1 @ [i]\<rparr>"
    using then_Some [OF assms(3) [unfolded unregister_server_def Let_def]] steady_maybe [OF assms(1)] by blast
  have "hub_ok ?w \<and> i \<notin> set (bk_instances (hb_broker ?w))"
    by (intro conjI hub_okI) (auto simp: on_broker_def unwired(1-4,6) distinct_removeAll hub_okD [OF assms(2)] dest!: unwired(5)
        dest: hub_okD(6-8) [OF assms(2)] split: if_splits)
  then show ?thesis using h1 hub_ok_steady [OF h1(1)] by (simp add: steady_def wiring_def hub_ok_def)
qed

lemma hub_ok_read:
  assumes "hub_ok h" and "read_resource V now i uri c h = Some (h', r)"
  shows "hub_ok h' \<and> set (bk_instances (hb_broker h')) = set (bk_instances (hb_broker h))"
proof (cases "i \<in> set (bk_instances (hb_broker h)) \<and> (\<exists>cs. hv_read_resource V i uri = Inr cs)")
  case True
  then obtain cs where cs: "i \<in> set (bk_instances (hb_broker h))" "hv_read_resource V i uri = Inr cs" by blast
  from assms(2) cs have "\<exists>h1. steady h h1 \<and> (h' = h1 \<or> (\<exists>b. h' = on_broker (\<lambda>k. k\<lparr>bk_resource_parents := (bk_resource_parents k)((c, i, uri) \<mapsto> b)\<rparr>) h1))"
    by (fastforce simp: read_resource_def Let_def dest!: steady_insert split: option.splits)
  then obtain h1 where h1: "steady h h1" "h' = h1 \<or> (\<exists>b. h' = on_broker (\<lambda>k. k\<lparr>bk_resource_parents := (bk_resource_parents k)((c, i, uri) \<mapsto> b)\<rparr>) h1)" by blast
  then have "hub_ok h1" "set (bk_instances (hb_broker h1)) = set (bk_instances (hb_broker h))"
    using assms(1) hub_ok_steady by (auto simp: steady_def wiring_def)
  moreover have "hub_ok (on_broker (\<lambda>k. k\<lparr>bk_resource_parents := (bk_resource_parents k)((c, i, uri) \<mapsto> b)\<rparr>) h1)" for b
    by (rule hub_okI) (use cs(1) calculation in \<open>auto simp: on_broker_def hub_okD [OF calculation(1)] dest: hub_okD(6-8) [OF calculation(1)] split: if_splits\<close>)
  ultimately show ?thesis using h1(2) by (auto simp: on_broker_def)
next
  case False
  with assms have "h' = h" by (auto simp: read_resource_def split: sum.splits if_splits)
  with assms(1) show ?thesis by simp
qed

lemma hub_ok_subscribe:
  assumes "hub_ok h" and "subscribe V now i uri c h = Some (h', r)"
  shows "hub_ok h'"
proof (cases "i \<in> set (bk_instances (hb_broker h))")
  case True
  obtain h1 r1 where b: "subscribe_begin V now i uri c h = Some (h1, r1)" using assms(2) by (auto simp: subscribe_def split: option.splits)
  have h1: "hub_ok h1 \<and> set (bk_instances (hb_broker h1)) = set (bk_instances (hb_broker h))"
  proof (cases "bk_resource_parents (hb_broker h) (c, i, uri)")
    case None
    with b True obtain r0 where "read_resource V now i uri c h = Some (h1, r0)" by (auto simp: subscribe_begin_def split: option.splits sum.splits)
    then show ?thesis by (rule hub_ok_read [OF assms(1)])
  next
    case (Some b0)
    with b True assms(1) show ?thesis by (auto simp: subscribe_begin_def)
  qed
  from b assms(2) have "h' = h1 \<or> h' = on_broker (add_subscription i uri c) h1" by (auto simp: subscribe_def split: sum.splits)
  moreover have "hub_ok (on_broker (add_subscription i uri c) h1)"
    by (rule hub_okI) (use h1 True in \<open>auto simp: on_broker_def add_subscription_def hub_okD [of h1] dest: hub_okD(6-8) [of h1]
        split: if_splits option.splits\<close>)
  ultimately show ?thesis using h1 by blast
next
  case False
  with assms show ?thesis by (auto simp: subscribe_def subscribe_begin_def)
qed

lemma hub_ok_schedule: "hub_ok h \<Longrightarrow> fst key \<in> set (bk_instances (hb_broker h)) \<Longrightarrow> hub_ok (schedule_flush V now key h)"
  by (rule hub_okI) (auto simp: schedule_flush_def hub_okD dest: hub_okD(6-8) split: if_splits)

lemma hub_ok_coalesced:
  assumes "hub_ok h" and "fst key \<in> set (bk_instances (hb_broker h))" and "\<And>a b. direct a = Some b \<Longrightarrow> steady a b"
    and "coalesced_event V now key direct h = Some h'"
  shows "hub_ok h'"
proof -
  obtain ws out where o: "observe (hv_policy V) now key (hb_windows h) = (ws, out)" by fastforce
  have ok: "hub_ok (h\<lparr>hb_windows := ws\<rparr>)" using assms(1) by simp
  show ?thesis
  proof (cases out)
    case PassThrough
    then have "steady (h\<lparr>hb_windows := ws\<rparr>) h'" using assms(3,4) o by (simp add: coalesced_event_def)
    with ok show ?thesis using hub_ok_steady by blast
  next
    case StartWindow
    then have "h' = schedule_flush V now key (h\<lparr>hb_windows := ws\<rparr>)" using assms(4) o by (simp add: coalesced_event_def)
    then show ?thesis using hub_ok_schedule [OF ok] assms(2) by simp
  next
    case (Coalesced n)
    then show ?thesis using assms(1,4) o by (auto simp: coalesced_event_def)
  qed
qed

lemma hub_ok_tools:
  assumes "hooks_steady (hv_broker V)" and "hub_ok h" and "handle_tools_changed V now i h = Some h'"
  shows "hub_ok h'"
proof (cases "i \<in> set (bk_instances (hb_broker h))")
  case True
  let ?w = "on_broker (\<lambda>k. k\<lparr>bk_tool_snapshots := (bk_tool_snapshots k)(i \<mapsto> current_tools V i)\<rparr>) h"
  obtain h1 where "steady ?w h1" "steady h1 h'"
    using assms(3) True steady_maybe [OF assms(1)]
    unfolding handle_tools_changed_def Let_def by (force split: option.splits prod.splits)
  moreover have "hub_ok ?w"
    by (rule hub_okI) (use True in \<open>auto simp: on_broker_def hub_okD [OF assms(2)] dest: hub_okD(6-8) [OF assms(2)]\<close>)
  ultimately show ?thesis using hub_ok_steady by blast
next
  case False
  with assms(2,3) show ?thesis by (simp add: handle_tools_changed_def)
qed

lemma hub_ok_event:
  assumes "hooks_steady (hv_broker V)" and "hub_ok h" and "i \<in> hb_pumps h" and "pump_event V now i ev h = Some h'"
  shows "hub_ok h'"
proof -
  have "i \<in> set (bk_instances (hb_broker h))" using assms(2,3) by (simp add: hub_ok_def Let_def)
  note through = hub_ok_coalesced [OF assms(2), where V = V and now = now and h' = h'] this
  show ?thesis using assms(2,4) through(2)
    by (cases ev) (auto simp: pump_event_def intro: hub_ok_tools [OF assms(1)]
        elim!: through(1) [rotated 2] intro: steady_for_bindings [OF assms(1)] steady_flush [OF assms(1)])
qed

lemma hub_ok_fire:
  assumes "hooks_steady (hv_broker V)" and "hub_ok h" and "hb_timers h key \<noteq> None" and "timer_fire V now key h = Some h'"
  shows "hub_ok h'"
proof -
  let ?h = "h\<lparr>hb_windows := fst (flush key (hb_windows h)), hb_timers := (hb_timers h)(key \<mapsto> Finishing)\<rparr>"
  have "fst key \<in> set (bk_instances (hb_broker h))" using assms(3) hub_okD(8) [OF assms(2)] by (cases key) auto
  then have "hub_ok ?h"
    by (intro hub_okI) (auto simp: hub_okD [OF assms(2)] dest: hub_okD(6-8) [OF assms(2)] split: if_splits)
  moreover have "steady ?h h'"
    using assms(4) by (auto simp: timer_fire_def Let_def case_prod_unfold intro: steady_refl steady_flush [OF assms(1)] steady_for_bindings [OF assms(1)]
        split: NotifKind.splits option.splits)
  ultimately show ?thesis using hub_ok_steady by blast
qed

lemma set_binding_wiring: "wiring (set_binding B now c b k) = wiring k"
  by (simp add: set_binding_def Let_def emit_binding_diff_def persist_binding_def wiring_def split: option.split)

lemma hub_ok_set_binding:
  assumes "hooks_steady (hv_broker V)" and "hub_ok h" and "set_binding_announced V depth now c b h = Some h'"
  shows "hub_ok h'"
proof -
  let ?k = "set_binding (hv_broker V) (int now) c b ((hb_broker h)\<lparr>bk_notices := []\<rparr>)"
  have "steady (h\<lparr>hb_broker := ?k\<lparr>bk_notices := []\<rparr>\<rparr>) h'"
    using assms(3) steady_notices [OF assms(1)] by (simp add: set_binding_announced_def Let_def)
  moreover have "wiring (?k\<lparr>bk_notices := []\<rparr>) = wiring (hb_broker h)"
    using set_binding_wiring [of "hv_broker V" "int now" c b "(hb_broker h)\<lparr>bk_notices := []\<rparr>"] by (simp add: wiring_def)
  ultimately have "steady h h'" by (simp add: steady_def)
  then show ?thesis using hub_ok_steady assms(2) by blast
qed

lemma hub_ok_unsubscribe:
  assumes "hub_ok h" and "unsubscribe V i uri c h = (h', r)"
  shows "hub_ok h'"
proof -
  let ?w = "on_broker (\<lambda>k. k\<lparr>bk_subscriptions := (bk_subscriptions k)(c := map_option (removeAll (i, uri)) (bk_subscriptions k c)),
      bk_resource_parents := (bk_resource_parents k)((c, i, uri) := None)\<rparr>) h"
  have "hub_ok ?w"
    by (rule hub_okI) (auto simp: on_broker_def hub_okD [OF assms(1)] dest: hub_okD(6-8) [OF assms(1)] split: if_splits)
  with assms show ?thesis by (auto simp: unsubscribe_def split: if_splits sum.splits)
qed

lemma hub_ok_step:
  assumes "hooks_steady (hv_broker V)" and "hub_ok h" and "hub_step V h h'"
  shows "hub_ok h'"
  using assms(3)
proof cases
  case register
  then show ?thesis by (rule hub_ok_register [OF assms(1,2)])
next
  case unregister
  then show ?thesis using hub_ok_unregister [OF assms(1,2)] by blast
next
  case (policy i timeout bytes k r)
  then have "k = hb_broker h \<or> (\<exists>p. i \<in> dom (bk_policies (hb_broker h)) \<and> k = (hb_broker h)\<lparr>bk_policies := (bk_policies (hb_broker h))(i \<mapsto> p)\<rparr>)"
    by (auto simp: update_policy_def Let_def split: option.splits)
  moreover have "hub_ok (h\<lparr>hb_broker := (hb_broker h)\<lparr>bk_policies := (bk_policies (hb_broker h))(i \<mapsto> p)\<rparr>\<rparr>)" if "i \<in> dom (bk_policies (hb_broker h))" for p
    by (rule hub_okI) (use that in \<open>auto simp: hub_okD [OF assms(2)] dest: hub_okD(6-8) [OF assms(2)]\<close>)
  ultimately show ?thesis using policy(1) assms(2) by auto
next
  case set_binding
  then show ?thesis by (rule hub_ok_set_binding [OF assms(1,2)])
next
  case (clear_binding c)
  have "hub_ok (on_broker (clear_binding c) h)"
    by (rule hub_okI) (auto simp: on_broker_def clear_binding_def hub_okD [OF assms(2)] dest: hub_okD(6-8) [OF assms(2)] split: if_splits)
  with clear_binding show ?thesis by simp
next
  case read
  then show ?thesis using hub_ok_read [OF assms(2)] by blast
next
  case subscribe
  then show ?thesis by (rule hub_ok_subscribe [OF assms(2)])
next
  case unsubscribe
  then show ?thesis by (rule hub_ok_unsubscribe [OF assms(2)])
next
  case event
  then show ?thesis by (rule hub_ok_event [OF assms(1,2)])
next
  case (fire key due now)
  then show ?thesis using hub_ok_fire [OF assms(1,2)] by blast
next
  case (finish key)
  have "hub_ok (timer_done key h)"
    by (rule hub_okI) (auto simp: timer_done_def hub_okD [OF assms(2)] dest: hub_okD(6-8) [OF assms(2)] split: if_splits)
  with finish show ?thesis by simp
next
  case documents
  with assms(2) show ?thesis by simp
qed

lemma hub_ok_new: "hub_ok hub_new"
  by (rule hub_okI) (simp_all add: hub_new_def broker_new_def)


text \<open>
  A subscription that overlaps the removal of its server outlives it: the server is resolved first and
  the row written after its answer, so a removal in between misses the row, and the broker keeps a
  subscription of a server that is not registered.
\<close>

lemma subscription_outlives:
  assumes "hooks_steady (hv_broker V)" and "hub_ok h" and "subscribe_begin V now i uri c h = Some (h1, Inr ())"
    and "unregister_server V depth later i h1 = Some h2"
  shows "i \<notin> set (bk_instances (hb_broker h2)) \<and> \<not> hub_ok (on_broker (add_subscription i uri c) h2)"
proof -
  have "hub_ok h1"
  proof (cases "bk_resource_parents (hb_broker h) (c, i, uri)")
    case None
    with assms(3) obtain r0 where "read_resource V now i uri c h = Some (h1, r0)"
      by (auto simp: subscribe_begin_def split: option.splits sum.splits if_splits)
    then show ?thesis using hub_ok_read [OF assms(2)] by blast
  next
    case (Some b)
    with assms(2,3) show ?thesis by (auto simp: subscribe_begin_def split: if_splits)
  qed
  then have gone: "i \<notin> set (bk_instances (hb_broker h2))" using hub_ok_unregister [OF assms(1) _ assms(4)] by blast
  let ?h = "on_broker (add_subscription i uri c) h2"
  have "\<exists>s. bk_subscriptions (hb_broker ?h) c = Some s \<and> (i, uri) \<in> set s"
    by (auto simp: on_broker_def add_subscription_def push_new_def)
  moreover have "bk_instances (hb_broker ?h) = bk_instances (hb_broker h2)" by (simp add: on_broker_def add_subscription_def)
  ultimately show ?thesis using gone hub_okD(6) [of ?h] by auto
qed

section \<open>Lost notices\<close>

lemma observe_late:
  assumes "fst (snd key) \<noteq> NotifKind.ToolsChanged" and "ws key = Some w" and "wn_opened_at w + co_window p < now" and "0 < max_in_window_for p (fst (snd key))"
  shows "observe p now key ws = (ws(key \<mapsto> \<lparr>wn_opened_at = now, wn_count = 1, wn_coalesced = 0\<rparr>), PassThrough)"
  using assms by (auto simp: observe_def Let_def)

lemma observe_folded:
  assumes "fst (snd key) \<noteq> NotifKind.ToolsChanged" and "ws key = Some w" and "now \<le> wn_opened_at w + co_window p"
    and "max_in_window_for p (fst (snd key)) = 0" and "0 < wn_coalesced w"
  shows "observe p now key ws = (ws(key \<mapsto> w\<lparr>wn_count := wn_count w + 1, wn_coalesced := wn_coalesced w + 1\<rparr>), Coalesced (wn_coalesced w + 1))"
proof -
  have "\<not> co_window p < now - wn_opened_at w" using assms(3) by simp
  with assms(1,2,4,5) show ?thesis by (simp add: observe_def Let_def)
qed

text \<open>
  C19: A summary can be lost.  The timer of a window starts when the first event is folded, later than
  the window was opened.  An event that arrives when the window is over and the timer still asleep
  starts the window anew and forgets how many events were folded; the timer then finds nothing to
  report, and no block tells of the folded events.
\<close>

theorem summary_lost:
  assumes "hb_windows h key = Some w" and "key = (i, NotifKind.Log, None)" and "0 < wn_coalesced w" and "hb_timers h key = Some (Sleeping due)"
    and "wn_opened_at w + co_window (hv_policy V) < now" and "now \<le> due" and "0 < max_in_window_for (hv_policy V) NotifKind.Log"
    and "hooks_steady (hv_broker V)" and "pump_event V now i (ServerNotification.Log level message tool) h = Some h'"
  shows "snd (flush key (hb_windows h)) = Some (wn_coalesced w) \<and> snd (flush key (hb_windows h')) = None
    \<and> hb_timers h' key = Some (Sleeping due) \<and> (\<exists>h''. timer_fire V due key h' = Some h'' \<and> hb_documents h'' = hb_documents h')"
proof -
  let ?ws = "(hb_windows h)(key \<mapsto> \<lparr>wn_opened_at = now, wn_count = 1, wn_coalesced = 0\<rparr>)"
  have "observe (hv_policy V) now key (hb_windows h) = (?ws, PassThrough)"
    using observe_late [of key "hb_windows h" w "hv_policy V" now] assms(1,2,5,7) by simp
  then have "steady (h\<lparr>hb_windows := ?ws\<rparr>) h'"
    using assms(2,9) steady_for_bindings [OF assms(8)] by (auto simp: pump_event_def coalesced_event_def)
  then have "hb_windows h' = ?ws" "hb_timers h' = hb_timers h" by (simp_all add: steady_def)
  then show ?thesis using assms(1-4) by (simp add: flush_def timer_fire_def)
qed

text \<open>
  C20: An update of a resource can be lost.  While a timer re-reads the resource and writes the blocks,
  its window is already flushed and its entry still in the table.  An update that arrives then asks for
  a new timer and gets none, because there is an entry; and once the entry is removed, the updates of
  a whole window are folded into a count that no timer will report.
\<close>

theorem update_lost:
  assumes "key = (i, NotifKind.ResourceUpdated, Some uri)" and "max_in_window_for (hv_policy V) NotifKind.ResourceUpdated = 0"
    and "hooks_steady (hv_broker V)" and "timer_fire V now key h = Some h1"
    and "pump_event V t i (ServerNotification.ResourceUpdated uri) h1 = Some h2" and "t' \<le> t + co_window (hv_policy V)"
    and "pump_event V t' i (ServerNotification.ResourceUpdated uri) (timer_done key h2) = Some h3"
  shows "hb_documents h3 = hb_documents h1 \<and> hb_timers h3 key = None \<and> (\<exists>w. hb_windows h3 key = Some w \<and> wn_coalesced w = 2)"
proof -
  let ?h = "h\<lparr>hb_windows := (hb_windows h)(key := None), hb_timers := (hb_timers h)(key \<mapsto> Finishing)\<rparr>"
  have "steady ?h h1" using assms(4) steady_flush [OF assms(3)] by (simp add: assms(1) timer_fire_def flush_def Let_def)
  then have h1: "hb_windows h1 key = None" "hb_timers h1 key = Some Finishing" by (simp_all add: steady_def)
  have h2: "h2 = h1\<lparr>hb_windows := (hb_windows h1)(key \<mapsto> \<lparr>wn_opened_at = t, wn_count = 1, wn_coalesced = 1\<rparr>)\<rparr>"
    using assms(5) h1 by (simp add: assms(1,2) pump_event_def coalesced_event_def observe_def Let_def schedule_flush_def)
  have "observe (hv_policy V) t' key (hb_windows h2)
      = ((hb_windows h2)(key \<mapsto> \<lparr>wn_opened_at = t, wn_count = 2, wn_coalesced = 2\<rparr>), Coalesced 2)"
    using observe_folded [of key "hb_windows h2" "\<lparr>wn_opened_at = t, wn_count = 1, wn_coalesced = 1\<rparr>" t' "hv_policy V"] assms(2,6)
    by (simp add: h2) (simp add: assms(1) numeral_2_eq_2)
  then have "h3 = (timer_done key h2)\<lparr>hb_windows := (hb_windows h2)(key \<mapsto> \<lparr>wn_opened_at = t, wn_count = 2, wn_coalesced = 2\<rparr>)\<rparr>"
    using assms(7) by (simp add: pump_event_def coalesced_event_def timer_done_def flip: assms(1))
  then show ?thesis by (simp add: h2 timer_done_def)
qed

section \<open>Where a notice lands\<close>

definition notice_block :: "NotificationPayload \<Rightarrow> BlockSnapshot \<Rightarrow> bool" where
  "notice_block payload x \<longleftrightarrow> bs_kind x = BlockKind.Notification \<and> bs_role x = Role.System \<and> bs_parent_id x = None
     \<and> bs_content x = notification_summary_line payload \<and> bs_notification x = Some payload"

lemma inserted_notice_block:
  assumes "dte_ok D" and "insert_notification_block D now None None payload (notification_summary_line payload) s = Some (s', Inr i)"
  obtains x where "get_block_snapshot D s' i = Some x" and "notice_block payload x"
proof -
  let ?made = "snapshot_notification_block now i None payload (notification_summary_line payload)"
  have "\<exists>sn p key b. ?made = Some sn \<and> bt_get (st_blocks s') i = Some b
      \<and> (b = content_from_snapshot D sn p key \<or> (\<exists>u. b = set_tick u (content_from_snapshot D sn p key)))"
    using assms(2)
    by (fastforce simp: insert_notification_block_def insert_constructed_def Let_def put_block_def bt_get_insert split: prod.splits option.splits)
  then obtain sn p key b where sn: "?made = Some sn" and b: "bt_get (st_blocks s') i = Some b"
      "b = content_from_snapshot D sn p key \<or> (\<exists>u. b = set_tick u (content_from_snapshot D sn p key))" by blast
  from sn have f: "bs_kind sn = BlockKind.Notification" "bs_role sn = Role.System" "bs_parent_id sn = None"
    "bs_content sn = notification_summary_line payload" "bs_notification sn = Some payload"
    by (auto simp: snapshot_notification_block_def builder_new_def split: if_splits)
  let ?c = "content_from_snapshot D sn p key"
  have c: "notice_block payload (content_snapshot D ?c)" "\<not> bc_deleted ?c"
    by (simp_all add: notice_block_def content_snapshot_def Let_def content_text_def content_from_snapshot_def
        with_content_text [OF assms(1)] header_from_snapshot_def f)
  have "notice_block payload (content_snapshot D (set_tick u ?c))" "\<not> bc_deleted (set_tick u ?c)" for u
    using c by (simp_all add: notice_block_def content_snapshot_def Let_def content_text_def set_tick_def)
  with b c that show thesis by (auto simp: get_block_snapshot_def)
qed

text \<open>
  A notice that no hook holds back and that the store accepts becomes the last block of its context:
  a system block that shows the summary and carries the payload.
\<close>

lemma notice_lands_last:
  assumes "dte_ok (ke_dte (hv_kernel V))" and "hb_documents h = Some k" and "ks_documents k c = Some e" and "store_ok (de_doc e)"
    and "bk_hooks (hb_broker h) OnNotification = []"
    and ins: "kernel_insert_notification_block_as (hv_kernel V) now c None payload (notification_summary_line payload)
      (Some (ke_system (hv_kernel V))) k = Some (k', Inr b)"
  shows "emit_into_context V depth now c payload synth None h = Some (h\<lparr>hb_documents := Some k'\<rparr>)
    \<and> (\<exists>e' x. ks_documents k' c = Some e' \<and> block_ids_ordered (de_doc e') = block_ids_ordered (de_doc e) @ [b]
       \<and> get_block_snapshot (ke_dte (hv_kernel V)) (de_doc e') b = Some x \<and> notice_block payload x)"
proof -
  let ?D = "ke_dte (hv_kernel V)" and ?p = "effective_agent (Some (ke_system (hv_kernel V))) k"
  obtain e' where e': "ks_documents k' c = Some e'"
    and op: "insert_notification_block ?D now None None payload (notification_summary_line payload) (set_principal_id ?p (de_doc e)) = Some (de_doc e', Inr b)"
    using insert_with_doc [OF ins [unfolded kernel_insert_notification_block_as_def] assms(3)] by blast
  let ?s = "set_principal_id ?p (de_doc e)"
  have ok: "store_ok ?s" using assms(4) safe_principal by (auto simp: safe_def)
  obtain bl where "inserted None ?s (de_doc e') b bl" by (rule insert_step_inserted [OF ok insert_step.notification [OF op]])
  then have "block_ids_ordered (de_doc e') = block_ids_ordered (de_doc e) @ [b]" using append_last [OF ok] by (simp add: same_order)
  moreover have "lets_through V depth synth c h = (h, True)"
    by (simp add: lets_through_def evaluate_phase_def by_priority_def assms(5))
  then have "emit_into_context V depth now c payload synth None h = Some (h\<lparr>hb_documents := Some k'\<rparr>)"
    by (simp add: emit_into_context_def insert_logged_def assms(2) ins)
  ultimately show ?thesis using e' inserted_notice_block [OF assms(1) op] by metis
qed

section \<open>Witnesses\<close>

definition demo_hub_env :: "(string option, string option, unit, string, unit) hub_env" where
  "demo_hub_env = \<lparr>hv_broker = \<lparr>be_glob = (=), be_list_tools = (\<lambda>_. Inr []), be_call = (\<lambda>_ _ k. (k, WasCancelled)),
       be_invoke = (\<lambda>_ _ _ _ _ _ k. (k, Inr ())), be_json = (\<lambda>_. []), be_fault = (\<lambda>_. None)\<rparr>,
     hv_kernel = kj_kernel drift_env, hv_policy = coalesce_policy_default, hv_order = sorted_list_of_set,
     hv_read_resource = (\<lambda>_ _. Inr []), hv_subscribe = (\<lambda>_ _ _. Inr ()), hv_unsubscribe = (\<lambda>_ _ _. Inr ()),
     hv_notice_args = (\<lambda>_. ()), hv_uri_args = (\<lambda>_. ()), hv_warn_args = (\<lambda>_. ()), hv_error_debug = (\<lambda>_. [])\<rparr>"

lemma demo_steady: "hooks_steady (hv_broker demo_hub_env)"
  by (simp add: hooks_steady_def demo_hub_env_def)

lemma demo_order [simp]: "hv_order demo_hub_env = sorted_list_of_set"
  by (simp add: demo_hub_env_def)

definition one_server :: "(string option, unit) Hub" where
  "one_server = the (register_silently demo_hub_env 0 1 ''s'' policy_default (hub_new\<lparr>hb_documents := Some (kernel_new 2)\<rparr>))"

lemma one_server_run: "register_silently demo_hub_env 0 1 ''s'' policy_default (hub_new\<lparr>hb_documents := Some (kernel_new 2)\<rparr>) = Some one_server"
  by (simp add: one_server_def register_silently_def register_inner_def Let_def)

lemma one_server_parts:
  "hb_documents one_server = Some (kernel_new 2)" "bk_bindings (hb_broker one_server) = Map.empty" "bk_instances (hb_broker one_server) = [''s'']"
  "bk_hooks (hb_broker one_server) ph = []" "bk_subscriptions (hb_broker one_server) = Map.empty"
  by (simp_all add: one_server_def register_silently_def register_inner_def Let_def on_broker_def wire_server_def hub_new_def broker_new_def push_new_def)


definition folded_hub :: "(string option, unit) Hub" where
  "folded_hub = one_server\<lparr>hb_windows := [(''s'', NotifKind.Log, None) \<mapsto> \<lparr>wn_opened_at = 0, wn_count = 30, wn_coalesced = 10\<rparr>],
     hb_timers := [(''s'', NotifKind.Log, None) \<mapsto> Sleeping 900]\<rparr>"

theorem summary_lost_witness:
  "snd (flush (''s'', NotifKind.Log, None) (hb_windows folded_hub)) = Some 10
   \<and> snd (flush (''s'', NotifKind.Log, None) (hb_windows (the (pump_event demo_hub_env 600 ''s'' (ServerNotification.Log LogLevel.Info ''m'' None) folded_hub)))) = None"
proof -
  let ?key = "(''s'', NotifKind.Log, None :: string option)" and ?ev = "ServerNotification.Log LogLevel.Info ''m'' None"
  have cap: "max_in_window_for (hv_policy demo_hub_env) NotifKind.Log = 20" "co_window (hv_policy demo_hub_env) = 500"
    by (simp_all add: demo_hub_env_def coalesce_policy_default_def max_in_window_for_def)
  have "observe (hv_policy demo_hub_env) 600 ?key (hb_windows folded_hub) = ((hb_windows folded_hub)(?key \<mapsto> \<lparr>wn_opened_at = 600, wn_count = 1, wn_coalesced = 0\<rparr>), PassThrough)"
    by (rule observe_late [where w = "\<lparr>wn_opened_at = 0, wn_count = 30, wn_coalesced = 10\<rparr>"]) (simp_all add: folded_hub_def cap)
  then obtain h' where run: "pump_event demo_hub_env 600 ''s'' ?ev folded_hub = Some h'"
    by (simp add: pump_event_def coalesced_event_def emit_for_bindings_def listeners_def folded_hub_def one_server_parts demo_order)
  show ?thesis
    using summary_lost [of folded_hub ?key _ "''s''" 900 demo_hub_env 600 LogLevel.Info "''m''" None h'] demo_steady run
    by (simp add: folded_hub_def cap)
qed

definition watched_hub :: "(string option, unit) Hub" where
  "watched_hub = on_broker (\<lambda>k. add_subscription ''s'' ''u'' 1 (k\<lparr>bk_resource_parents := [(1, ''s'', ''u'') \<mapsto> BlockId 1 2 0]\<rparr>)) one_server"

lemma watched_fires: "\<exists>h1. timer_fire demo_hub_env 500 (''s'', NotifKind.ResourceUpdated, Some ''u'') watched_hub = Some h1"
proof -
  have targets: "flush_targets demo_hub_env ''s'' ''u'' (hb_broker watched_hub) = [(1, BlockId 1 2 0)]"
    by (simp add: flush_targets_def watched_hub_def on_broker_def add_subscription_def one_server_parts push_new_def map_filter_def)
  have "kernel_insert_resource_block_as (hv_kernel demo_hub_env) now 1 parent payload summary p (kernel_new 2)
      = Some (kernel_new 2, Inl (DocumentNotFound 1))" for now parent payload summary p
    by (simp add: kernel_insert_resource_block_as_def insert_with_def kbind_def on_entry_def kernel_new_def kfail_def)
  moreover have "hb_documents watched_hub = Some (kernel_new 2)" "bk_hooks (hb_broker watched_hub) ph = []" "bk_instances (hb_broker watched_hub) = [''s'']" for ph
    by (simp_all add: watched_hub_def on_broker_def add_subscription_def one_server_parts)
  moreover have "hv_read_resource demo_hub_env ''s'' ''u'' = Inr []" by (simp add: demo_hub_env_def)
  ultimately show ?thesis
    by (simp add: timer_fire_def flush_def handle_resource_flush_def Let_def targets emit_resource_def lets_through_def evaluate_phase_def
        by_priority_def insert_logged_def)
qed

theorem update_lost_witness:
  "\<exists>h1 h3. timer_fire demo_hub_env 500 (''s'', NotifKind.ResourceUpdated, Some ''u'') watched_hub = Some h1
     \<and> Option.bind (pump_event demo_hub_env 501 ''s'' (ServerNotification.ResourceUpdated ''u'') h1) (\<lambda>h2.
         pump_event demo_hub_env 600 ''s'' (ServerNotification.ResourceUpdated ''u'') (timer_done (''s'', NotifKind.ResourceUpdated, Some ''u'') h2)) = Some h3
     \<and> hb_documents h3 = hb_documents h1 \<and> hb_timers h3 (''s'', NotifKind.ResourceUpdated, Some ''u'') = None"
proof -
  let ?key = "(''s'', NotifKind.ResourceUpdated, Some ''u'')" and ?ev = "ServerNotification.ResourceUpdated ''u''"
  have cap: "max_in_window_for (hv_policy demo_hub_env) NotifKind.ResourceUpdated = 0" "co_window (hv_policy demo_hub_env) = 500"
    by (simp_all add: demo_hub_env_def coalesce_policy_default_def max_in_window_for_def)
  obtain h1 where h1: "timer_fire demo_hub_env 500 ?key watched_hub = Some h1" using watched_fires by blast
  have total: "\<exists>h'. pump_event demo_hub_env t ''s'' ?ev h = Some h'" for t h
    by (auto simp: pump_event_def coalesced_event_def observe_def Let_def cap)
  obtain h2 where h2: "pump_event demo_hub_env 501 ''s'' ?ev h1 = Some h2" using total by blast
  obtain h3 where h3: "pump_event demo_hub_env 600 ''s'' ?ev (timer_done ?key h2) = Some h3" using total by blast
  show ?thesis using update_lost [OF refl cap(1) demo_steady h1 h2 _ h3] h1 h2 h3 by (auto simp: cap)
qed

end
