(* ===== verification/Spec2Isabelle.thy ===== *)
theory Spec2Isabelle
  imports Store_Fork Conversation_DAG Hyoushigi_Props Client_Props Hydration_Props Kernel_Props Drift_Cmd_Props Tool_Call_Props Notice_Props
begin

text \<open>
  Kaijutsu is a collaborative kernel for conversations with language models.  A conversation (a
  context) is a document of blocks: texts, tool calls and results, errors, notifications, drifts from
  other contexts.  Every block carries a text document of the library diamond-types-extended and a
  header of last-writer-wins fields; documents are replicated between the kernel and its clients,
  journalled in SQLite, forked, and turned into prompts.  The development models these parts of
  \<^verbatim>\<open>src/crates\<close> as functions on records and proves what they rely on and what they promise.

  \<^bold>\<open>Theories, from the bottom up.\<close>

  \<^item> \<^verbatim>\<open>Kai_Prelude\<close>: types of machine numbers, ordered maps (the \<open>BTreeMap\<close>s of the code, with a locale for
    their laws and its interpretation), list and word lemmas, named collections.  \<^verbatim>\<open>Rust_Text\<close>: the string
    operations of the standard library that the code uses, on UTF-8 bytes.
  \<^item> \<^verbatim>\<open>Order_Keys\<close>: base-62 order keys of \<^verbatim>\<open>kaijutsu-crdt/src/content.rs\<close>; midpoints lie between
    their neighbours except in the cases characterised there, and successive appends increase.
  \<^item> \<^verbatim>\<open>Ids\<close>, \<^verbatim>\<open>Enums\<close>, \<^verbatim>\<open>Timeline_Coords\<close>, \<^verbatim>\<open>Blocks\<close>: \<^verbatim>\<open>kaijutsu-types\<close> (identifiers and their text forms,
    the shared enums, ticks and tracks, headers, snapshots, constructors, filters, what a block
    contributes to a prompt and its bounds).
  \<^item> \<^verbatim>\<open>Block_Content\<close>: one block (\<^verbatim>\<open>content.rs\<close>), its text and header registers; merging headers
    converges.
  \<^item> \<^verbatim>\<open>Selection\<close>: interval sets and keep-sets of forks (\<^verbatim>\<open>selection.rs\<close>) against sets of positions.
  \<^item> \<^verbatim>\<open>Block_Store\<close>, with \<^verbatim>\<open>Store_Facts\<close>, \<^verbatim>\<open>Counter_Width\<close>, \<^verbatim>\<open>Store_Props\<close>, \<^verbatim>\<open>Store_Sync\<close>, \<^verbatim>\<open>Store_Restore\<close>,
    \<^verbatim>\<open>Store_Fork\<close>: the document (\<^verbatim>\<open>kaijutsu-crdt/src/block_store.rs\<close>): insertions, edits, header writes,
    moves, deletions, payloads and their merge, snapshots, forks.  The invariant and growth hold through
    every run whose counters fit their width (\<open>fits\<close>; \<^verbatim>\<open>Counter_Width\<close> has the counters as 64-bit words and
    shows that the model agrees with them exactly on such runs); errors are harmless; order,
    synchronisation, restore, legacy documents included, and forks of any document are specified.
  \<^item> \<^verbatim>\<open>Conversation_DAG\<close>: the tree view (\<^verbatim>\<open>dag.rs\<close>) and its two traversals.
  \<^item> \<^verbatim>\<open>Hyoushigi_Cells\<close>, \<^verbatim>\<open>Hyoushigi_Engine\<close>, \<^verbatim>\<open>Hyoushigi_Props\<close>: the beat-scheduled timeline engine
    (\<^verbatim>\<open>kaijutsu-hyoushigi\<close>): speculation, commits, fallbacks; its write barrier and when it returns.
  \<^item> \<^verbatim>\<open>Client_Sync\<close>, \<^verbatim>\<open>Client_Props\<close>: the client's copy of a document (\<^verbatim>\<open>kaijutsu-client/src/sync.rs\<close>,
    \<^verbatim>\<open>synced_document.rs\<close>): bounded buffers, reordered delivery, initial state.
  \<^item> \<^verbatim>\<open>Hydration\<close>, \<^verbatim>\<open>Hydration_Props\<close>: blocks to messages (\<^verbatim>\<open>kaijutsu-kernel/src/llm\<close>): pairing of tool
    uses and results, incremental hydration of a log that grows at its end, splice plans.
  \<^item> \<^verbatim>\<open>Kernel_Db\<close>, \<^verbatim>\<open>Kernel_Store\<close>, \<^verbatim>\<open>Kernel_Ops\<close>: the kernel's store of documents
    (\<^verbatim>\<open>kaijutsu-kernel/src/block_store.rs\<close>) over its tables (\<^verbatim>\<open>kernel_db.rs\<close>): every block operation
    with its journal entry and its event, compaction, merges, validation, queries, forks, loading.
  \<^item> \<^verbatim>\<open>Journal_Replay\<close>, \<^verbatim>\<open>Journal_Ops\<close>, \<^verbatim>\<open>Journal\<close>, \<^verbatim>\<open>Kernel_Session\<close>, \<^verbatim>\<open>Kernel_Props\<close>: replaying a journal gives
    the document back when every change is one its payload carries (a forward simulation between the
    document and its replay); which changes are not carried; a kernel restarted on its database
    serves the same document when its changes were of the first kind (\<open>durable_call\<close>); what every call keeps
    (\<open>kernel_call\<close> has all calls, \<open>resident_call\<close> those that replace or remove no document); the cached status
    of a context after every operation that goes through the journal (\<open>journalled_call\<close>).
  \<^item> \<^verbatim>\<open>Context_Db\<close>, \<^verbatim>\<open>Context_Graph\<close>, \<^verbatim>\<open>Workspaces\<close>, with \<^verbatim>\<open>Context_Props\<close>, \<^verbatim>\<open>Context_Registry\<close>: the registry of
    contexts (the rest of \<^verbatim>\<open>kernel_db.rs\<close>): rows, labels, life cycle, the ring of promoted contexts,
    structural and drift edges with the cycle check, recursive queries, workspaces, presets.  The
    invariant holds through every run, faults included; the recursive queries return; promotion and
    demotion refine their specification; the access check of workspace paths is specified.
  \<^item> \<^verbatim>\<open>Drift\<close>, \<^verbatim>\<open>Drift_Props\<close>: the drift router (\<^verbatim>\<open>drift.rs\<close>): labels, staging, retries, dead letters.  No
    drift is lost or doubled under any interleaving of calls, labels resolve, and retries end.
  \<^item> \<^verbatim>\<open>Drift_Cmd\<close>, \<^verbatim>\<open>Drift_Cmd_Props\<close>: the drift commands (\<^verbatim>\<open>kj/drift.rs\<close>, \<^verbatim>\<open>kj/refs.rs\<close>, parts of
    \<^verbatim>\<open>kj/format.rs\<close> and \<^verbatim>\<open>kj/mod.rs\<close>) over the router, the block store and the registry: where a drift
    lands, what a flush leaves behind, and where a command panics.
  \<^item> \<^verbatim>\<open>Capabilities\<close>, \<^verbatim>\<open>Capability_Props\<close>: the grants of a context (\<^verbatim>\<open>mcp/binding.rs\<close>) and their text forms
    (\<^verbatim>\<open>kj/binding.rs\<close>); a binding implements a set of grants.  \<^verbatim>\<open>Binding_Db\<close>: their tables in \<^verbatim>\<open>kernel_db.rs\<close>.
  \<^item> \<^verbatim>\<open>Tool_Broker\<close>, with \<^verbatim>\<open>Tool_Broker_Props\<close>, \<^verbatim>\<open>Tool_Call_Props\<close>: the broker of tool calls
    (\<^verbatim>\<open>mcp/broker.rs\<close>) and the commands that change bindings: a binding survives the database, ordinary
    contexts never gain a grant, calls and listings respect the binding, results are bounded; and two
    ways in which a revocation is lost.
  \<^item> \<^verbatim>\<open>Tool_Notices\<close>, \<^verbatim>\<open>Notice_Props\<close>: registration of servers, resources and subscriptions, and notices
    (\<^verbatim>\<open>mcp/broker.rs\<close>, \<^verbatim>\<open>mcp/coalescer.rs\<close>) up to the blocks they become: nothing of a server outlives it,
    the coalescer counts right within a window, a notice lands last; and two ways in which notices are lost.

  \<^bold>\<open>How code becomes definitions.\<close>  A struct is a record, an enum a datatype, a method a function that
  takes and returns the state.  A \<open>Result\<close> is a sum with the error on the left; a panic is the value
  \<open>None\<close>, and an operation that fails keeps what it had changed before it failed.  Operations of the
  kernel (\<open>kop\<close>) are run one at a time: each holds the locks it needs, so the model is of atomic
  operations.  Operations of the broker are steps of their own too; where the code awaits in the middle
  of one, the development says so, and shows what overlapping operations break.  Wall-clock readings are
  arguments.  Counters of type \<open>u64\<close> and \<open>usize\<close> are natural numbers and \<open>i64\<close> ticks are integers; they do
  not wrap.  The invariants of documents that take numbers from remote payloads are stated for runs
  whose counters fit (\<open>fits\<close>, \<open>kernel_fits\<close>); other places where a width matters (order keys,
  identifiers, lengths in ABC diagnostics) have the range written out.

  \<^bold>\<open>Parameters.\<close>  The document library is the record \<open>dte\<close> with the hypotheses \<open>dte_ok\<close> (what creating,
  inserting, deleting, and merging into a fresh document do to the text) and \<open>replica_ok\<close> (a replica
  that receives the operations made since its version is a replica of the current document);
  \<open>reference_dte\<close> satisfies both and serves the witnesses.  Other parameters: UUID formatting
  (\<open>uuid_lib\<close>), the derived enum parsers (\<open>strum\<close>), resolvers and hashing of the timeline engine
  (\<open>engine_env\<close>), the client's codec (\<open>client_env\<close>), JSON (\<open>hydrate_env\<close>), and \<open>kernel_env\<close>: the CBOR
  codec (\<open>codec_ok\<close>: it decodes what it encoded), the ABC and SVG parsers, database faults; and \<open>kj_env\<close>: the
  clock, fresh identifiers, the language model, and the lifecycle scripts, which may do anything to
  the state; and \<open>broker_env\<close>: what servers list and answer, what hook bodies do, glob matching and the
  JSON printer (\<open>servers_ordinary\<close>: servers and hooks do no more to the broker than ordinary commands;
  \<open>hub_env\<close> adds reads, subscriptions and the order of hash maps; \<open>hooks_steady\<close>: hook bodies leave the
  tables of servers alone).  In the timeline engine \<open>Duration::mul_f64\<close> may panic, and \<open>affordable\<close> says
  for which clocks and resolvers it does not.

  \<^bold>\<open>Bounds and loops.\<close>  Loops over lists are recursions; the breadth-first search of queries and the
  traversals of the tree view have termination proofs; \<open>advance_loop\<close> of the timeline engine may run
  forever and is a \<open>partial_function\<close> into \<open>option\<close>, with a theorem when it returns and one where it
  does not; the recursive queries of SQLite (\<open>cte\<close>) likewise, with a theorem that they return.  The traversals are compared below the code's own limit \<open>MAX_DAG_DEPTH\<close>.

  \<^bold>\<open>Not modelled.\<close>  Transport, rendering, audio, editor, telemetry and the command line are input and
  output around the parts above; the tool servers are asynchronous shells around third-party
  protocols; the legacy document type of \<^verbatim>\<open>kaijutsu-crdt\<close> is superseded; of the database
  the tables of hooks, tracks, shells and client views and of the compose-box documents are not
  modelled, and of the shell commands only the drift commands and those that change bindings are.  Restart is proved up to the first
  compaction of a document.
\<close>

end
